(* ===== verification/Prelude.thy ===== *)
theory Prelude
  imports Main "HOL-Library.Word" "HOL-Library.Monad_Syntax"
begin

text \<open>
  Shared vocabulary of the development: machine integers at the width of the LPC54608
  (a 32-bit Cortex-M4, so \<open>size_t\<close> and \<open>int\<close> have 32 bits), addresses and pointers, the
  calculus \<open>ok\<close> in which the operations are specified, and generic lemmas on lists and
  words.

  An operation of the program is a function of its arguments and of the memory, with a
  result in \<open>option\<close>: \<open>None\<close> is undefined behaviour (a read or write outside a block, a
  read of a dangling or null pointer, a double free), \<open>Some\<close> carries the C return value
  and the new memory.  \<open>ok c Q\<close> says that the call \<open>c\<close> has no undefined behaviour and
  that its outcome satisfies \<open>Q\<close>; it is total correctness, since every operation is a
  total HOL function.
\<close>

unbundle bit_operations_syntax

section \<open>Types\<close>

type_synonym u8 = "8 word"
type_synonym u16 = "16 word"
type_synonym u32 = "32 word"

text \<open>An address names an allocated object; \<open>None\<close> is the null pointer.\<close>

type_synonym addr = nat
type_synonym ptr = "addr option"

text \<open>A pointer into a byte array: the array and the offset in it.\<close>

type_synonym bptr = "addr \<times> nat"

text \<open>A byte of memory; \<open>None\<close> is an indeterminate byte (allocated, never written).\<close>

type_synonym mbyte = "u8 option"

text \<open>The characters of a C string, without the terminating zero.\<close>

type_synonym cstring = "u8 list"

text \<open>A string literal of the source as bytes.\<close>

definition lit :: "string \<Rightarrow> cstring" where
  "lit s = map of_char s"

text \<open>
  \<open>__FAILURE__\<close> is the line number of its use in the source; the program only ever tests it
  against zero.
\<close>

definition FAILURE :: int where
  "FAILURE = 1"

lemma FAILURE_nonzero [simp]: "FAILURE \<noteq> 0"
  by (simp add: FAILURE_def)

definition USHRT_MAX :: u32 where
  "USHRT_MAX = 0xFFFF"

named_theorems c_consts \<open>the numeric constants of the source\<close>

declare FAILURE_def [c_consts] USHRT_MAX_def [c_consts]

section \<open>The outcome calculus\<close>

definition ok :: "'r option \<Rightarrow> ('r \<Rightarrow> bool) \<Rightarrow> bool" where
  "ok c Q \<longleftrightarrow> (case c of None \<Rightarrow> False | Some r \<Rightarrow> Q r)"

lemma ok_Some [simp]: "ok (Some r) Q \<longleftrightarrow> Q r"
  by (simp add: ok_def)

lemma ok_None [simp]: "\<not> ok None Q"
  by (simp add: ok_def)

lemma ok_bind [simp]: "ok (c \<bind> f) Q \<longleftrightarrow> ok c (\<lambda>r. ok (f r) Q)"
  by (cases c) auto

lemma ok_mono: "ok c P \<Longrightarrow> (\<And>r. P r \<Longrightarrow> Q r) \<Longrightarrow> ok c Q"
  by (cases c) auto

lemma ok_mono2: "ok c P \<Longrightarrow> (\<And>a b. P (a, b) \<Longrightarrow> Q (a, b)) \<Longrightarrow> ok c Q"
  by (cases c) auto

lemma ok_conjI: "ok c P \<Longrightarrow> ok c Q \<Longrightarrow> ok c (\<lambda>r. P r \<and> Q r)"
  by (cases c) auto

lemma ok_conjD1: "ok c (\<lambda>r. P r \<and> Q r) \<Longrightarrow> ok c P"
  by (cases c) auto

lemma ok_conjD2: "ok c (\<lambda>r. P r \<and> Q r) \<Longrightarrow> ok c Q"
  by (cases c) auto

lemma ok_iff: "ok c Q \<longleftrightarrow> (\<exists>r. c = Some r \<and> Q r)"
  by (cases c) auto

lemma okE: "ok c Q \<Longrightarrow> (\<And>r. c = Some r \<Longrightarrow> Q r \<Longrightarrow> thesis) \<Longrightarrow> thesis"
  by (auto simp: ok_iff)

lemma ok_if [simp]: "ok (if b then c else d) Q \<longleftrightarrow> (if b then ok c Q else ok d Q)"
  by simp

lemma ok_SomeD: "ok c Q \<Longrightarrow> c = Some r \<Longrightarrow> Q r"
  by simp

lemma ok_bindI: "ok c P \<Longrightarrow> (\<And>r. P r \<Longrightarrow> ok (f r) Q) \<Longrightarrow> ok (c \<bind> f) Q"
  by (auto simp: ok_iff)

lemma ok_bind2I: "ok c P \<Longrightarrow> (\<And>r s. P (r, s) \<Longrightarrow> ok (f (r, s)) Q) \<Longrightarrow> ok (c \<bind> f) Q"
  by (auto simp: ok_iff)

section \<open>Lists written in place\<close>

text \<open>\<open>write_at off xs ys\<close> is \<open>ys\<close> after \<open>memcpy (ys + off, xs, length xs)\<close>.\<close>

definition write_at :: "nat \<Rightarrow> 'a list \<Rightarrow> 'a list \<Rightarrow> 'a list" where
  "write_at off xs ys = take off ys @ xs @ drop (off + length xs) ys"

lemma length_write_at [simp]: "off + length xs \<le> length ys \<Longrightarrow> length (write_at off xs ys) = length ys"
  by (simp add: write_at_def)

lemma write_at_Nil [simp]: "write_at off [] ys = ys"
  by (simp add: write_at_def)

lemma write_at_append:
  "write_at (length as) xs (as @ bs) = as @ write_at 0 xs bs"
  by (simp add: write_at_def)

lemma write_at_append':
  "off = length as \<Longrightarrow> write_at off xs (as @ bs) = as @ write_at 0 xs bs"
  by (simp add: write_at_def)

lemma write_at_0_append:
  "length bs = length xs \<Longrightarrow> write_at 0 xs (bs @ cs) = xs @ cs"
  by (simp add: write_at_def)

lemma write_at_0_replicate:
  "length xs \<le> n \<Longrightarrow> write_at 0 xs (replicate n z) = xs @ replicate (n - length xs) z"
  by (simp add: write_at_def)

lemma write_at_all: "length xs = length ys \<Longrightarrow> write_at 0 xs ys = xs"
  by (simp add: write_at_def)

lemma write_at_fill:
  "off = length as \<Longrightarrow> length xs \<le> n \<Longrightarrow>
   write_at off xs (as @ replicate n z) = as @ xs @ replicate (n - length xs) z"
  by (simp add: write_at_append' write_at_0_replicate)

lemma write_at_singleton: "i < length ys \<Longrightarrow> write_at i [x] ys = ys[i := x]"
  by (simp add: write_at_def upd_conv_take_nth_drop)

section \<open>Words\<close>

lemma unat_of_nat_u32 [simp]: "n < 2 ^ 32 \<Longrightarrow> unat (of_nat n :: u32) = n"
  by (simp add: unat_of_nat take_bit_nat_eq_self)

lemma unat_of_nat_u32' [simp]: "n < 4294967296 \<Longrightarrow> unat (of_nat n :: u32) = n"
  by (simp add: unat_of_nat take_bit_nat_eq_self)

lemma unat_add_u32: "unat a + unat b < 4294967296 \<Longrightarrow> unat (a + b :: u32) = unat a + unat b"
  by (simp add: unat_word_ariths)

lemma unat_lt_u32 [simp]: "unat (a :: u32) < 4294967296"
  using unsigned_less [of a] by simp

lemma unat_lt_u16 [simp]: "unat (a :: u16) < 65536"
  using unsigned_less [of a] by simp

lemma unat_lt_u8 [simp]: "unat (a :: u8) < 256"
  using unsigned_less [of a] by simp

lemma of_nat_unat_u32 [simp]: "of_nat (unat (a :: u32)) = a"
  by simp

lemma unat_ucast_up: "unat (ucast (x :: u16) :: u32) = unat x"
proof -
  have "unat x < 65536" using unsigned_less [of x] by simp
  then have "unat x mod 4294967296 = unat x" by (intro mod_less) linarith
  then show ?thesis by (simp add: unsigned_ucast_eq take_bit_eq_mod)
qed

lemma unat_eq_0_u32: "unat (a :: u32) = 0 \<longleftrightarrow> a = 0"
  by (simp add: unat_eq_0)

lemma unat_eq_of_nat: "w = (of_nat n :: u32) \<Longrightarrow> n < 4294967296 \<Longrightarrow> unat w = n"
  by simp

end
