(* ===== verification/Memory.thy ===== *)
theory Memory
  imports Prelude
begin

text \<open>
  The C heap, split by the type of what an allocation holds: \<open>blocks\<close> are the arrays of
  \<open>uint8_t\<close> and \<open>unsigned char\<close>, \<open>chars\<close> the arrays of \<open>char\<close> (C strings).  The theories
  that follow extend the record with one more store for each struct type they allocate, and
  their operations are polymorphic in the stores added later.

  \<open>malloc\<close> may fail at any call: \<open>grants\<close> decides, for the number of the call and the size
  asked for, and every theorem is for all outcomes.  \<open>brk\<close> counts the calls, and call number
  \<open>n\<close> returns the address \<open>n\<close>, so an address is never reused and a dangling pointer stays
  recognisable.
\<close>

record mem =
  grants :: "nat \<Rightarrow> nat \<Rightarrow> bool"
  brk :: addr
  blocks :: "addr \<rightharpoonup> mbyte list"
  chars :: "addr \<rightharpoonup> mbyte list"

section \<open>Allocation\<close>

text \<open>An allocation of a struct: the address only, the store is the caller's.\<close>

definition malloc_struct :: "nat \<Rightarrow> 'z mem_scheme \<Rightarrow> (ptr \<times> 'z mem_scheme) option" where
  "malloc_struct n m =
     Some (if grants m (brk m) n then Some (brk m) else None, m\<lparr>brk := Suc (brk m)\<rparr>)"

definition malloc :: "nat \<Rightarrow> 'z mem_scheme \<Rightarrow> (ptr \<times> 'z mem_scheme) option" where
  "malloc n m =
     (if grants m (brk m) n
      then Some (Some (brk m),
                 m\<lparr>brk := Suc (brk m), blocks := (blocks m)(brk m \<mapsto> replicate n None)\<rparr>)
      else Some (None, m\<lparr>brk := Suc (brk m)\<rparr>))"

text \<open>\<open>free (NULL)\<close> does nothing; freeing what is not allocated is undefined.\<close>

definition free :: "ptr \<Rightarrow> 'z mem_scheme \<Rightarrow> 'z mem_scheme option" where
  "free p m =
     (case p of
        None \<Rightarrow> Some m
      | Some a \<Rightarrow> (case blocks m a of
          None \<Rightarrow> None
        | Some _ \<Rightarrow> Some (m\<lparr>blocks := (blocks m)(a := None)\<rparr>)))"

text \<open>
  \<open>realloc\<close> of a null pointer is \<open>malloc\<close>; on failure the old block stays; on success its
  bytes are copied up to the smaller size.  A request for 0 bytes of a live block is treated
  as undefined, as C23 does.
\<close>

definition realloc :: "ptr \<Rightarrow> nat \<Rightarrow> 'z mem_scheme \<Rightarrow> (ptr \<times> 'z mem_scheme) option" where
  "realloc p n m =
     (case p of
        None \<Rightarrow> malloc n m
      | Some a \<Rightarrow> (case blocks m a of
          None \<Rightarrow> None
        | Some bs \<Rightarrow>
            if n = 0 then None
            else if grants m (brk m) n
            then Some (Some (brk m),
                   m\<lparr>brk := Suc (brk m),
                     blocks := (blocks m)(a := None, brk m \<mapsto> take n (bs @ replicate n None))\<rparr>)
            else Some (None, m\<lparr>brk := Suc (brk m)\<rparr>)))"

section \<open>Access to byte arrays\<close>

definition read_bytes :: "bptr \<Rightarrow> nat \<Rightarrow> 'z mem_scheme \<Rightarrow> mbyte list option" where
  "read_bytes q n m =
     (case blocks m (fst q) of
        None \<Rightarrow> None
      | Some bs \<Rightarrow> if snd q + n \<le> length bs then Some (take n (drop (snd q) bs)) else None)"

definition write_bytes :: "bptr \<Rightarrow> mbyte list \<Rightarrow> 'z mem_scheme \<Rightarrow> 'z mem_scheme option" where
  "write_bytes q xs m =
     (case blocks m (fst q) of
        None \<Rightarrow> None
      | Some bs \<Rightarrow>
          if snd q + length xs \<le> length bs
          then Some (m\<lparr>blocks := (blocks m)(fst q \<mapsto> write_at (snd q) xs bs)\<rparr>) else None)"

text \<open>The value of one byte: an indeterminate byte has none.\<close>

definition read_byte :: "bptr \<Rightarrow> 'z mem_scheme \<Rightarrow> u8 option" where
  "read_byte q m = do { bs \<leftarrow> read_bytes q 1 m; hd bs }"

section \<open>Character arrays and C strings\<close>

definition cmalloc :: "nat \<Rightarrow> 'z mem_scheme \<Rightarrow> (ptr \<times> 'z mem_scheme) option" where
  "cmalloc n m =
     (if grants m (brk m) n
      then Some (Some (brk m),
                 m\<lparr>brk := Suc (brk m), chars := (chars m)(brk m \<mapsto> replicate n None)\<rparr>)
      else Some (None, m\<lparr>brk := Suc (brk m)\<rparr>))"

definition cfree :: "ptr \<Rightarrow> 'z mem_scheme \<Rightarrow> 'z mem_scheme option" where
  "cfree p m =
     (case p of
        None \<Rightarrow> Some m
      | Some a \<Rightarrow> (case chars m a of
          None \<Rightarrow> None
        | Some _ \<Rightarrow> Some (m\<lparr>chars := (chars m)(a := None)\<rparr>)))"

text \<open>An array moved by \<open>realloc\<close>: the new bytes at its end are indeterminate.\<close>

definition resize :: "nat \<Rightarrow> mbyte list \<Rightarrow> mbyte list" where
  "resize n bs = take n (bs @ replicate n None)"

lemma length_resize [simp]: "length (resize n bs) = n"
  by (simp add: resize_def)

definition crealloc :: "ptr \<Rightarrow> nat \<Rightarrow> 'z mem_scheme \<Rightarrow> (ptr \<times> 'z mem_scheme) option" where
  "crealloc p n m =
     (case p of
        None \<Rightarrow> cmalloc n m
      | Some a \<Rightarrow> (case chars m a of
          None \<Rightarrow> None
        | Some bs \<Rightarrow>
            if n = 0 then None
            else if grants m (brk m) n
            then Some (Some (brk m),
                   m\<lparr>brk := Suc (brk m),
                     chars := (chars m)(a := None, brk m \<mapsto> resize n bs)\<rparr>)
            else Some (None, m\<lparr>brk := Suc (brk m)\<rparr>)))"

text \<open>
  A \<open>const char*\<close> points into a string literal, which is static and never freed, or
  into a character array.
\<close>

datatype char_ptr = Literal cstring | Chars addr nat

text \<open>\<open>cstr s\<close> is what a C string \<open>s\<close> occupies: its characters and a zero.\<close>

definition cstr :: "cstring \<Rightarrow> mbyte list" where
  "cstr s = map Some s @ [Some 0]"

text \<open>The bytes from the pointer to the end of its array.\<close>

fun char_bytes :: "char_ptr \<Rightarrow> 'z mem_scheme \<Rightarrow> mbyte list option" where
  "char_bytes (Literal s) m = Some (cstr s)"
| "char_bytes (Chars a i) m =
     (case chars m a of
        None \<Rightarrow> None
      | Some bs \<Rightarrow> if i \<le> length bs then Some (drop i bs) else None)"

definition cread :: "char_ptr \<Rightarrow> nat \<Rightarrow> 'z mem_scheme \<Rightarrow> mbyte list option" where
  "cread p n m = do { bs \<leftarrow> char_bytes p m; if n \<le> length bs then Some (take n bs) else None }"

definition cwrite :: "bptr \<Rightarrow> mbyte list \<Rightarrow> 'z mem_scheme \<Rightarrow> 'z mem_scheme option" where
  "cwrite q xs m =
     (case chars m (fst q) of
        None \<Rightarrow> None
      | Some bs \<Rightarrow>
          if snd q + length xs \<le> length bs
          then Some (m\<lparr>chars := (chars m)(fst q \<mapsto> write_at (snd q) xs bs)\<rparr>) else None)"

text \<open>
  The characters before the first zero; undefined when the array ends, or holds an
  indeterminate byte, before one is found.
\<close>

fun until_nul :: "mbyte list \<Rightarrow> cstring option" where
  "until_nul [] = None"
| "until_nul (None # _) = None"
| "until_nul (Some c # bs) = (if c = 0 then Some [] else map_option ((#) c) (until_nul bs))"

definition c_string :: "char_ptr \<Rightarrow> 'z mem_scheme \<Rightarrow> cstring option" where
  "c_string p m = do { bs \<leftarrow> char_bytes p m; until_nul bs }"

definition strlen :: "char_ptr \<Rightarrow> 'z mem_scheme \<Rightarrow> u32 option" where
  "strlen p m = do { s \<leftarrow> c_string p m; Some (of_nat (length s)) }"

text \<open>\<open>memcpy\<close> between overlapping ranges is undefined, \<open>memmove\<close> is not.\<close>

fun overlaps :: "bptr \<Rightarrow> char_ptr \<Rightarrow> nat \<Rightarrow> bool" where
  "overlaps (a, i) (Literal _) n = False"
| "overlaps (a, i) (Chars b j) n = (a = b \<and> i < j + n \<and> j < i + n)"

definition cmemmove :: "bptr \<Rightarrow> char_ptr \<Rightarrow> nat \<Rightarrow> 'z mem_scheme \<Rightarrow> 'z mem_scheme option" where
  "cmemmove dst src n m = do { xs \<leftarrow> cread src n m; cwrite dst xs m }"

definition cmemcpy :: "bptr \<Rightarrow> char_ptr \<Rightarrow> nat \<Rightarrow> 'z mem_scheme \<Rightarrow> 'z mem_scheme option" where
  "cmemcpy dst src n m = (if overlaps dst src n then None else cmemmove dst src n m)"

section \<open>Laws\<close>

lemma ok_malloc_struct [simp]:
  "ok (malloc_struct n m) Q \<longleftrightarrow>
     (grants m (brk m) n \<longrightarrow> Q (Some (brk m), m\<lparr>brk := Suc (brk m)\<rparr>)) \<and>
     (\<not> grants m (brk m) n \<longrightarrow> Q (None, m\<lparr>brk := Suc (brk m)\<rparr>))"
  by (simp add: malloc_struct_def)

lemma ok_malloc [simp]:
  "ok (malloc n m) Q \<longleftrightarrow>
     (grants m (brk m) n \<longrightarrow>
        Q (Some (brk m), m\<lparr>brk := Suc (brk m), blocks := (blocks m)(brk m \<mapsto> replicate n None)\<rparr>)) \<and>
     (\<not> grants m (brk m) n \<longrightarrow> Q (None, m\<lparr>brk := Suc (brk m)\<rparr>))"
  by (simp add: malloc_def)

lemma ok_cmalloc [simp]:
  "ok (cmalloc n m) Q \<longleftrightarrow>
     (grants m (brk m) n \<longrightarrow>
        Q (Some (brk m), m\<lparr>brk := Suc (brk m), chars := (chars m)(brk m \<mapsto> replicate n None)\<rparr>)) \<and>
     (\<not> grants m (brk m) n \<longrightarrow> Q (None, m\<lparr>brk := Suc (brk m)\<rparr>))"
  by (simp add: cmalloc_def)

lemma free_NULL [simp]: "free None m = Some m"
  by (simp add: free_def)

lemma free_Some [simp]:
  "blocks m a = Some bs \<Longrightarrow> free (Some a) m = Some (m\<lparr>blocks := (blocks m)(a := None)\<rparr>)"
  by (simp add: free_def)

lemma cfree_NULL [simp]: "cfree None m = Some m"
  by (simp add: cfree_def)

lemma cfree_Some [simp]:
  "chars m a = Some bs \<Longrightarrow> cfree (Some a) m = Some (m\<lparr>chars := (chars m)(a := None)\<rparr>)"
  by (simp add: cfree_def)

lemma realloc_NULL [simp]: "realloc None n m = malloc n m"
  by (simp add: realloc_def)

lemma ok_realloc [simp]:
  "blocks m a = Some bs \<Longrightarrow> n \<noteq> 0 \<Longrightarrow>
   ok (realloc (Some a) n m) Q \<longleftrightarrow>
     (grants m (brk m) n \<longrightarrow>
        Q (Some (brk m), m\<lparr>brk := Suc (brk m),
             blocks := (blocks m)(a := None, brk m \<mapsto> take n (bs @ replicate n None))\<rparr>)) \<and>
     (\<not> grants m (brk m) n \<longrightarrow> Q (None, m\<lparr>brk := Suc (brk m)\<rparr>))"
  by (simp add: realloc_def)

lemma ok_crealloc [simp]:
  "chars m a = Some bs \<Longrightarrow> n \<noteq> 0 \<Longrightarrow>
   ok (crealloc (Some a) n m) Q \<longleftrightarrow>
     (grants m (brk m) n \<longrightarrow>
        Q (Some (brk m), m\<lparr>brk := Suc (brk m),
             chars := (chars m)(a := None, brk m \<mapsto> resize n bs)\<rparr>)) \<and>
     (\<not> grants m (brk m) n \<longrightarrow> Q (None, m\<lparr>brk := Suc (brk m)\<rparr>))"
  by (simp add: crealloc_def)

lemma read_bytes_Some [simp]:
  "blocks m a = Some bs \<Longrightarrow> i + n \<le> length bs \<Longrightarrow>
   read_bytes (a, i) n m = Some (take n (drop i bs))"
  by (simp add: read_bytes_def)

lemma write_bytes_Some [simp]:
  "blocks m a = Some bs \<Longrightarrow> i + length xs \<le> length bs \<Longrightarrow>
   write_bytes (a, i) xs m = Some (m\<lparr>blocks := (blocks m)(a \<mapsto> write_at i xs bs)\<rparr>)"
  by (simp add: write_bytes_def)

lemma cwrite_Some [simp]:
  "chars m a = Some bs \<Longrightarrow> i + length xs \<le> length bs \<Longrightarrow>
   cwrite (a, i) xs m = Some (m\<lparr>chars := (chars m)(a \<mapsto> write_at i xs bs)\<rparr>)"
  by (simp add: cwrite_def)

lemma length_cstr [simp]: "length (cstr s) = Suc (length s)"
  by (simp add: cstr_def)

lemma until_nul_cstr: "0 \<notin> set s \<Longrightarrow> until_nul (map Some s @ Some 0 # r) = Some s"
  by (induction s) auto

lemma until_nul_SomeD:
  "until_nul bs = Some s \<Longrightarrow> 0 \<notin> set s \<and> (\<exists>r. bs = map Some s @ Some 0 # r)"
  by (induction bs arbitrary: s rule: until_nul.induct) (auto split: if_splits)

lemma until_nul_iff:
  "until_nul bs = Some s \<longleftrightarrow> 0 \<notin> set s \<and> (\<exists>r. bs = map Some s @ Some 0 # r)"
  using until_nul_SomeD until_nul_cstr by blast

lemma until_nul_take:
  assumes "until_nul bs = Some s" "length s < n"
  shows "until_nul (take n (bs @ r)) = Some s"
proof -
  from assms(1) obtain t where t: "bs = map Some s @ Some 0 # t" and z: "0 \<notin> set s"
    by (auto simp: until_nul_iff)
  obtain k where k: "n = length s + Suc k" using assms(2) less_imp_Suc_add by fastforce
  have "take n (bs @ r) = map Some s @ Some 0 # take k (t @ r)" by (simp add: t k)
  with z show ?thesis by (simp add: until_nul_cstr)
qed

lemma until_nul_length: "until_nul bs = Some s \<Longrightarrow> length s < length bs"
  by (auto simp: until_nul_iff)

lemma until_nul_cstr' [simp]: "0 \<notin> set s \<Longrightarrow> until_nul (cstr s) = Some s"
  by (simp add: cstr_def until_nul_cstr)

lemma c_string_cong: "char_bytes p m' = char_bytes p m \<Longrightarrow> c_string p m' = c_string p m"
  by (simp add: c_string_def)

lemma c_string_bytes:
  "c_string p m = Some s \<Longrightarrow>
   \<exists>bs. char_bytes p m = Some (cstr s @ bs) \<and> 0 \<notin> set s"
  by (cases "char_bytes p m") (auto simp: c_string_def until_nul_iff cstr_def)

lemma c_string_Literal [simp]: "0 \<notin> set s \<Longrightarrow> c_string (Literal s) m = Some s"
  by (simp add: c_string_def)

lemma strlen_c_string [simp]: "c_string p m = Some s \<Longrightarrow> strlen p m = Some (of_nat (length s))"
  by (simp add: strlen_def)

lemma cread_c_string:
  assumes "c_string p m = Some s"
  shows "n \<le> length s \<Longrightarrow> cread p n m = Some (map Some (take n s))"
    and "cread p (Suc (length s)) m = Some (cstr s)"
  using c_string_bytes [OF assms] by (auto simp: cread_def cstr_def take_map)

text \<open>No allocation fails.\<close>

definition alloc_total :: "'z mem_scheme \<Rightarrow> bool" where
  "alloc_total m \<longleftrightarrow> (\<forall>i n. grants m i n)"

lemma alloc_totalD: "alloc_total m \<Longrightarrow> grants m i n"
  by (simp add: alloc_total_def)

text \<open>No array lives at an address that was not given out yet.\<close>

definition wf_mem :: "'z mem_scheme \<Rightarrow> bool" where
  "wf_mem m \<longleftrightarrow> (\<forall>a \<ge> brk m. blocks m a = None \<and> chars m a = None)"

lemma wf_mem_fresh: "wf_mem m \<Longrightarrow> brk m \<le> a \<Longrightarrow> blocks m a = None \<and> chars m a = None"
  by (simp add: wf_mem_def)

end
