(* ===== verification/Buffer.thy ===== *)
theory Buffer
  imports Memory
begin

text \<open>
  The byte buffers of \<^verbatim>\<open>uMQTT/ports/src/buffer.c\<close>: a handle is the address of a
  \<open>BUFFER\<close> struct, which holds the pointer to its byte array and its size.  The operations
  are stated on the whole memory, so that handles may alias.

  The contract is an abstraction: \<open>buf_bytes m\<close> maps each live handle to the bytes it
  holds, \<open>foreign m\<close> is the part of the byte heap no buffer owns, and \<open>buf_inv\<close> says that
  every buffer owns its array alone and that its size fits.  Each operation refines an
  update of \<open>buf_bytes\<close> and leaves \<open>foreign\<close> as it was, so it neither leaks nor frees
  an array.
\<close>

record BUFFER =
  buffer :: ptr
  buf_size :: u32

record bmem = mem +
  buffers :: "addr \<rightharpoonup> BUFFER"

section \<open>Operations\<close>

definition sizeof_BUFFER :: nat where
  "sizeof_BUFFER = 8"

definition set_BUFFER :: "addr \<Rightarrow> BUFFER \<Rightarrow> 'z bmem_scheme \<Rightarrow> 'z bmem_scheme" where
  "set_BUFFER h b m = m\<lparr>buffers := (buffers m)(h \<mapsto> b)\<rparr>"

definition free_BUFFER :: "addr \<Rightarrow> 'z bmem_scheme \<Rightarrow> 'z bmem_scheme option" where
  "free_BUFFER h m = do { _ \<leftarrow> buffers m h; Some (m\<lparr>buffers := (buffers m)(h := None)\<rparr>) }"

definition memcpy_bytes :: "bptr \<Rightarrow> bptr \<Rightarrow> nat \<Rightarrow> 'z mem_scheme \<Rightarrow> 'z mem_scheme option" where
  "memcpy_bytes dst src n m = do { xs \<leftarrow> read_bytes src n m; write_bytes dst xs m }"

definition BUFFER_new :: "'z bmem_scheme \<Rightarrow> (ptr \<times> 'z bmem_scheme) option" where
  "BUFFER_new m = do {
     (temp, m) \<leftarrow> malloc_struct sizeof_BUFFER m;
     case temp of
       None \<Rightarrow> Some (None, m)
     | Some h \<Rightarrow> Some (Some h, set_BUFFER h \<lparr>buffer = None, buf_size = 0\<rparr> m) }"

definition BUFFER_safemalloc :: "addr \<Rightarrow> u32 \<Rightarrow> 'z bmem_scheme \<Rightarrow> (int \<times> 'z bmem_scheme) option" where
  "BUFFER_safemalloc handleptr sz m = do {
     let sizetomalloc = (if sz = 0 then 1 else sz);
     b \<leftarrow> buffers m handleptr;
     (p, m) \<leftarrow> malloc (unat sizetomalloc) m;
     case p of
       None \<Rightarrow> Some (FAILURE, set_BUFFER handleptr (b\<lparr>buffer := None\<rparr>) m)
     | Some a \<Rightarrow> Some (0, set_BUFFER handleptr (b\<lparr>buffer := Some a, buf_size := sz\<rparr>) m) }"

text \<open>
  The fresh struct of \<open>BUFFER_create\<close> is uninitialised; it is entered into the store with
  a null pointer, which nothing reads before \<open>BUFFER_safemalloc\<close> overwrites it.
\<close>

definition BUFFER_create ::
  "bptr option \<Rightarrow> u32 \<Rightarrow> 'z bmem_scheme \<Rightarrow> (ptr \<times> 'z bmem_scheme) option" where
  "BUFFER_create source sz m =
     (case source of
        None \<Rightarrow> Some (None, m)
      | Some src \<Rightarrow> do {
          (result, m) \<leftarrow> malloc_struct sizeof_BUFFER m;
          case result of
            None \<Rightarrow> Some (None, m)
          | Some h \<Rightarrow> do {
              (r, m) \<leftarrow> BUFFER_safemalloc h sz (set_BUFFER h \<lparr>buffer = None, buf_size = 0\<rparr> m);
              if r \<noteq> 0 then do { m \<leftarrow> free_BUFFER h m; Some (None, m) }
              else do {
                b \<leftarrow> buffers m h;
                a \<leftarrow> buffer b;
                m \<leftarrow> memcpy_bytes (a, 0) src (unat sz) m;
                Some (Some h, m) } } })"

definition BUFFER_delete :: "ptr \<Rightarrow> 'z bmem_scheme \<Rightarrow> 'z bmem_scheme option" where
  "BUFFER_delete handle m =
     (case handle of
        None \<Rightarrow> Some m
      | Some h \<Rightarrow> do {
          b \<leftarrow> buffers m h;
          m \<leftarrow> (if buffer b \<noteq> None then free (buffer b) m else Some m);
          free_BUFFER h m })"

definition BUFFER_build ::
  "ptr \<Rightarrow> bptr option \<Rightarrow> u32 \<Rightarrow> 'z bmem_scheme \<Rightarrow> (int \<times> 'z bmem_scheme) option" where
  "BUFFER_build handle source sz m =
     (case handle of
        None \<Rightarrow> Some (FAILURE, m)
      | Some h \<Rightarrow>
          if sz = 0 then do {
            b \<leftarrow> buffers m h;
            m \<leftarrow> free (buffer b) m;
            Some (0, set_BUFFER h (b\<lparr>buffer := None, buf_size := 0\<rparr>) m) }
          else (case source of
            None \<Rightarrow> Some (FAILURE, m)
          | Some src \<Rightarrow> do {
              b \<leftarrow> buffers m h;
              (newBuffer, m) \<leftarrow> realloc (buffer b) (unat sz) m;
              case newBuffer of
                None \<Rightarrow> Some (FAILURE, m)
              | Some a \<Rightarrow> do {
                  let m = set_BUFFER h (b\<lparr>buffer := Some a, buf_size := sz\<rparr>) m;
                  m \<leftarrow> memcpy_bytes (a, 0) src (unat sz) m;
                  Some (0, m) } }))"

definition BUFFER_append_build ::
  "ptr \<Rightarrow> bptr option \<Rightarrow> u32 \<Rightarrow> 'z bmem_scheme \<Rightarrow> (int \<times> 'z bmem_scheme) option" where
  "BUFFER_append_build handle source sz m =
     (case (handle, source) of
        (Some h, Some src) \<Rightarrow>
          if sz = 0 then Some (FAILURE, m)
          else do {
            b \<leftarrow> buffers m h;
            if buffer b = None then do {
              (r, m) \<leftarrow> BUFFER_safemalloc h sz m;
              if r \<noteq> 0 then Some (FAILURE, m)
              else do {
                b \<leftarrow> buffers m h;
                a \<leftarrow> buffer b;
                m \<leftarrow> memcpy_bytes (a, 0) src (unat sz) m;
                Some (0, m) } }
            else do {
              (temp, m) \<leftarrow> realloc (buffer b) (unat (buf_size b + sz)) m;
              case temp of
                None \<Rightarrow> Some (FAILURE, m)
              | Some a \<Rightarrow> do {
                  let m = set_BUFFER h (b\<lparr>buffer := Some a\<rparr>) m;
                  m \<leftarrow> memcpy_bytes (a, unat (buf_size b)) src (unat sz) m;
                  Some (0, set_BUFFER h (b\<lparr>buffer := Some a, buf_size := buf_size b + sz\<rparr>) m) } } }
      | _ \<Rightarrow> Some (FAILURE, m))"

definition BUFFER_pre_build :: "ptr \<Rightarrow> u32 \<Rightarrow> 'z bmem_scheme \<Rightarrow> (int \<times> 'z bmem_scheme) option" where
  "BUFFER_pre_build handle sz m =
     (case handle of
        None \<Rightarrow> Some (FAILURE, m)
      | Some h \<Rightarrow>
          if sz = 0 then Some (FAILURE, m)
          else do {
            b \<leftarrow> buffers m h;
            if buffer b \<noteq> None then Some (FAILURE, m)
            else do {
              (p, m) \<leftarrow> malloc (unat sz) m;
              case p of
                None \<Rightarrow> Some (FAILURE, set_BUFFER h (b\<lparr>buffer := None\<rparr>) m)
              | Some a \<Rightarrow> Some (0, set_BUFFER h (b\<lparr>buffer := Some a, buf_size := sz\<rparr>) m) } })"

text \<open>
  \<open>content\<close>, \<open>size\<close>: the out parameter is a pointer the caller may pass as null
  (\<open>want = False\<close>); what is stored through it is returned.
\<close>

definition BUFFER_content :: "ptr \<Rightarrow> bool \<Rightarrow> 'z bmem_scheme \<Rightarrow> (int \<times> ptr) option" where
  "BUFFER_content handle want m =
     (case handle of
        None \<Rightarrow> Some (FAILURE, None)
      | Some h \<Rightarrow>
          if \<not> want then Some (FAILURE, None)
          else do { b \<leftarrow> buffers m h; Some (0, buffer b) })"

definition BUFFER_unbuild :: "ptr \<Rightarrow> 'z bmem_scheme \<Rightarrow> (int \<times> 'z bmem_scheme) option" where
  "BUFFER_unbuild handle m =
     (case handle of
        None \<Rightarrow> Some (FAILURE, m)
      | Some h \<Rightarrow> do {
          b \<leftarrow> buffers m h;
          if buffer b \<noteq> None then do {
            m \<leftarrow> free (buffer b) m;
            Some (0, set_BUFFER h (b\<lparr>buffer := None, buf_size := 0\<rparr>) m) }
          else Some (FAILURE, m) })"

definition BUFFER_enlarge :: "ptr \<Rightarrow> u32 \<Rightarrow> 'z bmem_scheme \<Rightarrow> (int \<times> 'z bmem_scheme) option" where
  "BUFFER_enlarge handle enlargeSize m =
     (case handle of
        None \<Rightarrow> Some (FAILURE, m)
      | Some h \<Rightarrow>
          if enlargeSize = 0 then Some (FAILURE, m)
          else do {
            b \<leftarrow> buffers m h;
            (temp, m) \<leftarrow> realloc (buffer b) (unat (buf_size b + enlargeSize)) m;
            case temp of
              None \<Rightarrow> Some (FAILURE, m)
            | Some a \<Rightarrow>
                Some (0, set_BUFFER h (b\<lparr>buffer := Some a, buf_size := buf_size b + enlargeSize\<rparr>) m) })"

definition BUFFER_shrink ::
  "ptr \<Rightarrow> u32 \<Rightarrow> bool \<Rightarrow> 'z bmem_scheme \<Rightarrow> (int \<times> 'z bmem_scheme) option" where
  "BUFFER_shrink handle decreaseSize fromEnd m =
     (case handle of
        None \<Rightarrow> Some (FAILURE, m)
      | Some h \<Rightarrow>
          if decreaseSize = 0 then Some (FAILURE, m)
          else do {
            b \<leftarrow> buffers m h;
            if decreaseSize > buf_size b then Some (FAILURE, m)
            else do {
              let alloc_size = buf_size b - decreaseSize;
              if alloc_size = 0 then do {
                m \<leftarrow> free (buffer b) m;
                Some (0, set_BUFFER h (b\<lparr>buffer := None, buf_size := 0\<rparr>) m) }
              else do {
                (tmp, m) \<leftarrow> malloc (unat alloc_size) m;
                case tmp of
                  None \<Rightarrow> Some (FAILURE, m)
                | Some a \<Rightarrow> do {
                    old \<leftarrow> buffer b;
                    m \<leftarrow> (if fromEnd
                         then memcpy_bytes (a, 0) (old, 0) (unat alloc_size) m
                         else memcpy_bytes (a, 0) (old, unat decreaseSize) (unat alloc_size) m);
                    m \<leftarrow> free (buffer b) m;
                    Some (0, set_BUFFER h (b\<lparr>buffer := Some a, buf_size := alloc_size\<rparr>) m) } } } })"

definition BUFFER_size :: "ptr \<Rightarrow> bool \<Rightarrow> 'z bmem_scheme \<Rightarrow> (int \<times> u32) option" where
  "BUFFER_size handle want m =
     (case handle of
        None \<Rightarrow> Some (FAILURE, 0)
      | Some h \<Rightarrow>
          if \<not> want then Some (FAILURE, 0)
          else do { b \<leftarrow> buffers m h; Some (0, buf_size b) })"

definition BUFFER_append :: "ptr \<Rightarrow> ptr \<Rightarrow> 'z bmem_scheme \<Rightarrow> (int \<times> 'z bmem_scheme) option" where
  "BUFFER_append handle1 handle2 m =
     (case (handle1, handle2) of
        (Some h1, Some h2) \<Rightarrow>
          if h1 = h2 then Some (FAILURE, m)
          else do {
            b1 \<leftarrow> buffers m h1;
            b2 \<leftarrow> buffers m h2;
            case (buffer b1, buffer b2) of
              (Some a1, Some a2) \<Rightarrow>
                if buf_size b2 = 0 then Some (0, m)
                else do {
                  (temp, m) \<leftarrow> realloc (Some a1) (unat (buf_size b1 + buf_size b2)) m;
                  case temp of
                    None \<Rightarrow> Some (FAILURE, m)
                  | Some a \<Rightarrow> do {
                      let m = set_BUFFER h1 (b1\<lparr>buffer := Some a\<rparr>) m;
                      m \<leftarrow> memcpy_bytes (a, unat (buf_size b1)) (a2, 0) (unat (buf_size b2)) m;
                      Some (0, set_BUFFER h1
                        (b1\<lparr>buffer := Some a, buf_size := buf_size b1 + buf_size b2\<rparr>) m) } }
            | _ \<Rightarrow> Some (FAILURE, m) }
      | _ \<Rightarrow> Some (FAILURE, m))"

definition BUFFER_prepend :: "ptr \<Rightarrow> ptr \<Rightarrow> 'z bmem_scheme \<Rightarrow> (int \<times> 'z bmem_scheme) option" where
  "BUFFER_prepend handle1 handle2 m =
     (case (handle1, handle2) of
        (Some h1, Some h2) \<Rightarrow>
          if h1 = h2 then Some (FAILURE, m)
          else do {
            b1 \<leftarrow> buffers m h1;
            b2 \<leftarrow> buffers m h2;
            case (buffer b1, buffer b2) of
              (Some a1, Some a2) \<Rightarrow>
                if buf_size b2 = 0 then Some (0, m)
                else do {
                  (temp, m) \<leftarrow> malloc (unat (buf_size b1 + buf_size b2)) m;
                  case temp of
                    None \<Rightarrow> Some (FAILURE, m)
                  | Some a \<Rightarrow> do {
                      m \<leftarrow> memcpy_bytes (a, 0) (a2, 0) (unat (buf_size b2)) m;
                      m \<leftarrow> memcpy_bytes (a, unat (buf_size b2)) (a1, 0) (unat (buf_size b1)) m;
                      m \<leftarrow> free (Some a1) m;
                      Some (0, set_BUFFER h1
                        (b1\<lparr>buffer := Some a, buf_size := buf_size b1 + buf_size b2\<rparr>) m) } }
            | _ \<Rightarrow> Some (FAILURE, m) }
      | _ \<Rightarrow> Some (FAILURE, m))"

text \<open>The loop of \<open>BUFFER_fill\<close>: \<open>n\<close> iterations left, at index \<open>i\<close>.\<close>

fun fill_loop :: "ptr \<Rightarrow> u8 \<Rightarrow> nat \<Rightarrow> nat \<Rightarrow> 'z mem_scheme \<Rightarrow> 'z mem_scheme option" where
  "fill_loop p c 0 i m = Some m"
| "fill_loop p c (Suc n) i m = do { a \<leftarrow> p; m \<leftarrow> write_bytes (a, i) [Some c] m; fill_loop p c n (Suc i) m }"

definition BUFFER_fill :: "ptr \<Rightarrow> u8 \<Rightarrow> 'z bmem_scheme \<Rightarrow> (int \<times> 'z bmem_scheme) option" where
  "BUFFER_fill handle fill_char m =
     (case handle of
        None \<Rightarrow> Some (FAILURE, m)
      | Some h \<Rightarrow> do {
          b \<leftarrow> buffers m h;
          m \<leftarrow> fill_loop (buffer b) fill_char (unat (buf_size b)) 0 m;
          Some (0, m) })"

definition BUFFER_u_char :: "ptr \<Rightarrow> 'z bmem_scheme \<Rightarrow> ptr option" where
  "BUFFER_u_char handle m =
     (case handle of
        None \<Rightarrow> Some None
      | Some h \<Rightarrow> do {
          b \<leftarrow> buffers m h;
          if buf_size b = 0 then Some None else Some (buffer b) })"

definition BUFFER_length :: "ptr \<Rightarrow> 'z bmem_scheme \<Rightarrow> u32 option" where
  "BUFFER_length handle m =
     (case handle of
        None \<Rightarrow> Some 0
      | Some h \<Rightarrow> do { b \<leftarrow> buffers m h; Some (buf_size b) })"

text \<open>
  When the array cannot be allocated \<open>BUFFER_clone\<close> returns null without freeing the
  struct it had allocated.
\<close>

definition BUFFER_clone :: "ptr \<Rightarrow> 'z bmem_scheme \<Rightarrow> (ptr \<times> 'z bmem_scheme) option" where
  "BUFFER_clone handle m =
     (case handle of
        None \<Rightarrow> Some (None, m)
      | Some h \<Rightarrow> do {
          (b, m) \<leftarrow> malloc_struct sizeof_BUFFER m;
          case b of
            None \<Rightarrow> Some (None, m)
          | Some h' \<Rightarrow> do {
              supplied \<leftarrow> buffers m h;
              (r, m) \<leftarrow> BUFFER_safemalloc h' (buf_size supplied)
                          (set_BUFFER h' \<lparr>buffer = None, buf_size = 0\<rparr> m);
              if r \<noteq> 0 then Some (None, m)
              else do {
                nb \<leftarrow> buffers m h';
                a \<leftarrow> buffer nb;
                m \<leftarrow> (if buf_size supplied = 0 then Some m
                     else do { src \<leftarrow> buffer supplied; memcpy_bytes (a, 0) (src, 0) (unat (buf_size supplied)) m });
                Some (Some h', set_BUFFER h' (nb\<lparr>buf_size := buf_size supplied\<rparr>) m) } } })"

section \<open>The contract\<close>

definition buf_bytes :: "'z bmem_scheme \<Rightarrow> addr \<rightharpoonup> mbyte list" where
  "buf_bytes m h = do {
     b \<leftarrow> buffers m h;
     case buffer b of
       None \<Rightarrow> if buf_size b = 0 then Some [] else None
     | Some a \<Rightarrow> do {
         bs \<leftarrow> blocks m a;
         if unat (buf_size b) \<le> length bs \<and> list_all (\<lambda>x. x = None) (drop (unat (buf_size b)) bs)
         then Some (take (unat (buf_size b)) bs) else None } }"

text \<open>
  The array may be longer than the size (\<open>BUFFER_safemalloc\<close> allocates one byte for a
  size of 0), but the bytes beyond the size are never written.
\<close>

text \<open>The arrays that no buffer owns.\<close>

definition owned :: "'z bmem_scheme \<Rightarrow> addr \<Rightarrow> bool" where
  "owned m a \<longleftrightarrow> (\<exists>h b. buffers m h = Some b \<and> buffer b = Some a)"

definition foreign :: "'z bmem_scheme \<Rightarrow> addr \<rightharpoonup> mbyte list" where
  "foreign m a = (if owned m a then None else blocks m a)"

definition buf_inv :: "'z bmem_scheme \<Rightarrow> bool" where
  "buf_inv m \<longleftrightarrow>
     wf_mem m \<and> (\<forall>h \<ge> brk m. buffers m h = None) \<and>
     (\<forall>h b. buffers m h = Some b \<longrightarrow> buf_bytes m h \<noteq> None) \<and>
     (\<forall>h h' b b' a. buffers m h = Some b \<longrightarrow> buffers m h' = Some b' \<longrightarrow>
        buffer b = Some a \<longrightarrow> buffer b' = Some a \<longrightarrow> h = h')"

text \<open>
  \<open>buf_effect m f m'\<close>: the step from \<open>m\<close> to \<open>m'\<close> keeps the invariant, changes the
  contents of the buffers to \<open>f\<close>, and changes nothing else but the allocation counter.
\<close>

definition buf_frame :: "'z bmem_scheme \<Rightarrow> 'z bmem_scheme \<Rightarrow> bool" where
  "buf_frame m m' \<longleftrightarrow>
     grants m' = grants m \<and> chars m' = chars m \<and> bmem.more m' = bmem.more m \<and> brk m \<le> brk m'"

definition buf_effect :: "'z bmem_scheme \<Rightarrow> (addr \<rightharpoonup> mbyte list) \<Rightarrow> 'z bmem_scheme \<Rightarrow> bool" where
  "buf_effect m f m' \<longleftrightarrow> buf_inv m' \<and> buf_bytes m' = f \<and> foreign m' = foreign m \<and> buf_frame m m'"

lemma buf_frame_refl [simp]: "buf_frame m m"
  by (simp add: buf_frame_def)

lemma buf_frame_trans: "buf_frame m1 m2 \<Longrightarrow> buf_frame m2 m3 \<Longrightarrow> buf_frame m1 m3"
  by (auto simp: buf_frame_def)

lemma buf_effect_refl: "buf_inv m \<Longrightarrow> buf_effect m (buf_bytes m) m"
  by (simp add: buf_effect_def)

lemma buf_effect_trans: "buf_effect m1 f m2 \<Longrightarrow> buf_effect m2 g m3 \<Longrightarrow> buf_effect m1 g m3"
  by (auto simp: buf_effect_def intro: buf_frame_trans)

lemma buf_effectD:
  assumes "buf_effect m f m'"
  shows "buf_inv m'" "buf_bytes m' = f" "foreign m' = foreign m" "buf_frame m m'"
  using assms by (simp_all add: buf_effect_def)

lemma buf_inv_fresh:
  "buf_inv m \<Longrightarrow> brk m \<le> a \<Longrightarrow> buffers m a = None"
  "buf_inv m \<Longrightarrow> brk m \<le> a \<Longrightarrow> blocks m a = None"
  "buf_inv m \<Longrightarrow> brk m \<le> a \<Longrightarrow> buf_bytes m a = None"
  by (auto simp: buf_inv_def wf_mem_def buf_bytes_def)

lemma buf_inv_inj:
  "buf_inv m \<Longrightarrow> buffers m h = Some b \<Longrightarrow> buffers m h' = Some b' \<Longrightarrow>
   buffer b = Some a \<Longrightarrow> buffer b' = Some a \<Longrightarrow> h = h'"
  unfolding buf_inv_def by blast

lemma buf_inv_valid: "buf_inv m \<Longrightarrow> buffers m h = Some b \<Longrightarrow> \<exists>bs. buf_bytes m h = Some bs"
  by (auto simp: buf_inv_def)

lemma buf_bytes_SomeD: "buf_bytes m h = Some xs \<Longrightarrow> \<exists>b. buffers m h = Some b"
  by (cases "buffers m h") (auto simp: buf_bytes_def)

text \<open>The shape of a live buffer: null and empty, or an array with at least its size.\<close>

lemma list_all_None_conv: "list_all (\<lambda>x. x = None) xs \<longleftrightarrow> xs = replicate (length xs) None"
  by (induction xs) auto

lemma buf_bytes_Array:
  assumes "buffers m h = Some b" "buffer b = Some a" "blocks m a = Some (xs @ replicate k None)"
    and "length xs = unat (buf_size b)"
  shows "buf_bytes m h = Some xs"
  using assms by (simp add: buf_bytes_def list_all_iff)

lemma buf_bytes_cases:
  assumes "buf_bytes m h = Some xs"
  obtains (Null) b where "buffers m h = Some b" "buffer b = None" "buf_size b = 0" "xs = []"
  | (Array) b a k where "buffers m h = Some b" "buffer b = Some a"
      "blocks m a = Some (xs @ replicate k None)" "length xs = unat (buf_size b)"
proof -
  obtain b where b: "buffers m h = Some b" using buf_bytes_SomeD [OF assms] by auto
  show ?thesis
  proof (cases "buffer b")
    case None
    with assms b show ?thesis by (auto simp: buf_bytes_def split: if_splits intro: Null)
  next
    case (Some a)
    with assms b obtain bs where bs: "blocks m a = Some bs" "unat (buf_size b) \<le> length bs"
        "xs = take (unat (buf_size b)) bs" "list_all (\<lambda>x. x = None) (drop (unat (buf_size b)) bs)"
      by (cases "blocks m a") (auto simp: buf_bytes_def split: if_splits)
    then have "bs = xs @ replicate (length bs - unat (buf_size b)) None"
      by (metis append_take_drop_id length_drop list_all_None_conv)
    with bs b Some show ?thesis by (intro Array) auto
  qed
qed

lemma buf_bytes_length:
  "buf_bytes m h = Some xs \<Longrightarrow> buffers m h = Some b \<Longrightarrow> length xs = unat (buf_size b)"
  by (erule buf_bytes_cases) auto

lemma buf_bytes_bound: "buf_bytes m h = Some xs \<Longrightarrow> length xs < 2 ^ 32"
  by (erule buf_bytes_cases) auto

text \<open>A buffer's struct is replaced, its array with it: the one lemma behind every operation.\<close>

definition drop_block :: "ptr \<Rightarrow> (addr \<rightharpoonup> mbyte list) \<Rightarrow> (addr \<rightharpoonup> mbyte list)" where
  "drop_block p f = (case p of None \<Rightarrow> f | Some a \<Rightarrow> f(a := None))"

lemma drop_block_simps [simp]: "drop_block None f = f" "drop_block (Some a) f = f(a := None)"
  by (simp_all add: drop_block_def)

lemma buf_bytes_other:
  assumes inv: "buf_inv m" and b: "buffers m h = Some b" and "x \<noteq> h"
    and B: "buffers m' x = buffers m x"
    and blk: "\<And>a. buffer b \<noteq> Some a \<Longrightarrow> blocks m a \<noteq> None \<Longrightarrow> blocks m' a = blocks m a"
  shows "buf_bytes m' x = buf_bytes m x"
proof (cases "buffers m x")
  case None
  then show ?thesis using B by (simp add: buf_bytes_def)
next
  case (Some c)
  obtain xs where xs: "buf_bytes m x = Some xs" using buf_inv_valid [OF inv Some] by auto
  then show ?thesis
  proof (cases rule: buf_bytes_cases)
    case Null
    then show ?thesis using B by (simp add: buf_bytes_def)
  next
    case (Array c' a k)
    then have "buffer b \<noteq> Some a" using buf_inv_inj [OF inv b Array(1)] assms(3) by auto
    then have "blocks m' a = blocks m a" using blk Array(3) by simp
    then show ?thesis using B Array xs buf_bytes_Array [of m' x c' a xs k] by simp
  qed
qed

lemma owned_split:
  "buffers m h = Some b \<Longrightarrow>
   owned m q \<longleftrightarrow> buffer b = Some q \<or> (\<exists>x c. x \<noteq> h \<and> buffers m x = Some c \<and> buffer c = Some q)"
  unfolding owned_def by (metis option.inject)

lemma buf_effect_replace:
  assumes inv: "buf_inv m" and b: "buffers m h = Some b"
    and B: "buffers m' = (buffers m)(h \<mapsto> b')"
    and p: "buffer b' = Some a" and sz: "length xs = unat (buf_size b')"
    and blk: "blocks m' = (drop_block (buffer b) (blocks m))(a \<mapsto> xs @ replicate k None)"
    and a: "blocks m a = None \<or> buffer b = Some a" and a': "a < brk m'"
    and fr: "buf_frame m m'"
  shows "buf_effect m ((buf_bytes m)(h \<mapsto> xs)) m'"
proof -
  have other: "buf_bytes m' x = buf_bytes m x" if "x \<noteq> h" for x
    using inv b that
    by (rule buf_bytes_other) (use that a in \<open>auto simp: B blk drop_block_def split: option.splits\<close>)
  have self: "buf_bytes m' h = Some xs"
    using p sz buf_bytes_Array [of m' h b' a xs k] by (simp add: B blk)
  have bytes: "buf_bytes m' = (buf_bytes m)(h \<mapsto> xs)"
    using other self by (auto simp: fun_eq_iff)
  have noshare: "buffer c \<noteq> Some a" if xc: "buffers m x = Some c" and ne: "x \<noteq> h" for x c
  proof
    assume ca: "buffer c = Some a"
    obtain xs where "buf_bytes m x = Some xs" using buf_inv_valid [OF inv xc] by auto
    then have "blocks m a \<noteq> None" using xc ca by (auto elim!: buf_bytes_cases)
    with a have "buffer b = Some a" by simp
    with buf_inv_inj [OF inv xc b ca] ne show False by simp
  qed
  have brk: "brk m \<le> brk m'" using fr by (simp add: buf_frame_def)
  have "buf_inv m'"
    unfolding buf_inv_def
  proof (intro conjI allI impI)
    show "wf_mem m'"
      using inv fr a' brk
      by (auto simp: wf_mem_def buf_inv_def blk buf_frame_def drop_block_def split: option.splits)
  next
    fix x assume x: "brk m' \<le> x"
    have "h < brk m" using inv b by (metis buf_inv_fresh(1) leI option.distinct(1))
    with x brk show "buffers m' x = None" using buf_inv_fresh(1) [OF inv, of x] by (simp add: B)
  next
    fix x c assume "buffers m' x = Some c"
    then show "buf_bytes m' x \<noteq> None"
      using other [of x] self buf_inv_valid [OF inv, of x] by (cases "x = h") (auto simp: B)
  next
    fix x x' c c' q
    assume "buffers m' x = Some c" "buffers m' x' = Some c'" "buffer c = Some q" "buffer c' = Some q"
    then show "x = x'"
      using noshare p buf_inv_inj [OF inv, of x c x' c' q]
      by (cases "x = h"; cases "x' = h") (auto simp: B)
  qed
  moreover have "foreign m' = foreign m"
  proof
    fix q
    have own: "owned m' q \<longleftrightarrow> q = a \<or> (\<exists>x c. x \<noteq> h \<and> buffers m x = Some c \<and> buffer c = Some q)"
      using p by (auto simp: B owned_def)
    show "foreign m' q = foreign m q"
      using a by (auto simp: foreign_def own owned_split [OF b] blk drop_block_def split: option.splits)
  qed
  ultimately show ?thesis using bytes fr by (simp add: buf_effect_def)
qed

lemma buf_bytes_cong:
  assumes "buffers m' h = buffers m h" "blocks m' = blocks m"
  shows "buf_bytes m' h = buf_bytes m h"
  unfolding buf_bytes_def assms ..

lemma buf_effect_count:
  assumes inv: "buf_inv m" and B: "buffers m' = buffers m" and blk: "blocks m' = blocks m"
    and fr: "buf_frame m m'"
  shows "buf_effect m (buf_bytes m) m'"
proof -
  have bytes: "buf_bytes m' = buf_bytes m" by (rule ext, rule buf_bytes_cong) (simp_all add: B blk)
  moreover have "buf_inv m'"
    using inv fr unfolding buf_inv_def bytes B
    by (auto simp: wf_mem_def blk buf_frame_def)
  moreover have "foreign m' = foreign m"
    by (rule ext) (simp only: foreign_def owned_def B blk)
  ultimately show ?thesis using fr by (simp add: buf_effect_def)
qed

lemma buf_effect_clear:
  assumes inv: "buf_inv m" and b: "buffers m h = Some b"
    and B: "buffers m' = (buffers m)(h \<mapsto> b')"
    and p: "buffer b' = None" and sz: "buf_size b' = 0"
    and blk: "blocks m' = drop_block (buffer b) (blocks m)"
    and fr: "buf_frame m m'"
  shows "buf_effect m ((buf_bytes m)(h \<mapsto> [])) m'"
proof -
  have other: "buf_bytes m' x = buf_bytes m x" if "x \<noteq> h" for x
    using inv b that
    by (rule buf_bytes_other) (use that in \<open>auto simp: B blk drop_block_def split: option.splits\<close>)
  have self: "buf_bytes m' h = Some []"
    using p sz by (simp add: buf_bytes_def B)
  have bytes: "buf_bytes m' = (buf_bytes m)(h \<mapsto> [])"
    using other self by (auto simp: fun_eq_iff)
  have brk: "brk m \<le> brk m'" using fr by (simp add: buf_frame_def)
  have "buf_inv m'"
    unfolding buf_inv_def
  proof (intro conjI allI impI)
    show "wf_mem m'"
      using inv fr brk
      by (auto simp: wf_mem_def buf_inv_def blk buf_frame_def drop_block_def split: option.splits)
  next
    fix x assume x: "brk m' \<le> x"
    have "h < brk m" using inv b by (metis buf_inv_fresh(1) leI option.distinct(1))
    with x brk show "buffers m' x = None" using buf_inv_fresh(1) [OF inv, of x] by (simp add: B)
  next
    fix x c assume "buffers m' x = Some c"
    then show "buf_bytes m' x \<noteq> None"
      using other [of x] self buf_inv_valid [OF inv, of x] by (cases "x = h") (auto simp: B)
  next
    fix x x' c c' q
    assume "buffers m' x = Some c" "buffers m' x' = Some c'" "buffer c = Some q" "buffer c' = Some q"
    then show "x = x'"
      using p buf_inv_inj [OF inv, of x c x' c' q]
      by (cases "x = h"; cases "x' = h") (auto simp: B)
  qed
  moreover have "foreign m' = foreign m"
  proof
    fix q
    have own: "owned m' q \<longleftrightarrow> (\<exists>x c. x \<noteq> h \<and> buffers m x = Some c \<and> buffer c = Some q)"
      using p by (auto simp: B owned_def)
    show "foreign m' q = foreign m q"
      by (auto simp: foreign_def own owned_split [OF b] blk drop_block_def split: option.splits)
  qed
  ultimately show ?thesis using bytes fr by (simp add: buf_effect_def)
qed

lemma buf_effect_new:
  assumes inv: "buf_inv m" and h: "brk m \<le> h" "h < brk m'"
    and B: "buffers m' = (buffers m)(h \<mapsto> \<lparr>buffer = None, buf_size = 0\<rparr>)"
    and blk: "blocks m' = blocks m" and fr: "buf_frame m m'"
  shows "buf_effect m ((buf_bytes m)(h \<mapsto> [])) m'"
proof -
  have hN: "buffers m h = None" using inv h(1) by (rule buf_inv_fresh)
  have bytes: "buf_bytes m' = (buf_bytes m)(h \<mapsto> [])"
  proof
    fix x show "buf_bytes m' x = ((buf_bytes m)(h \<mapsto> [])) x"
      using buf_bytes_cong [of m' x m] by (cases "x = h") (simp_all add: B blk buf_bytes_def)
  qed
  have "buf_inv m'"
    unfolding buf_inv_def
  proof (intro conjI allI impI)
    show "wf_mem m'" using inv fr by (auto simp: wf_mem_def buf_inv_def blk buf_frame_def)
  next
    fix x assume "brk m' \<le> x"
    then show "buffers m' x = None" using inv h fr by (auto simp: B buf_frame_def buf_inv_def)
  next
    fix x c assume "buffers m' x = Some c"
    then show "buf_bytes m' x \<noteq> None"
      using buf_inv_valid [OF inv, of x] by (cases "x = h") (auto simp: B bytes)
  next
    fix x x' c c' q
    assume "buffers m' x = Some c" "buffers m' x' = Some c'" "buffer c = Some q" "buffer c' = Some q"
    then show "x = x'"
      using buf_inv_inj [OF inv, of x c x' c' q] by (cases "x = h"; cases "x' = h") (auto simp: B)
  qed
  moreover have "foreign m' = foreign m"
  proof
    fix q
    have "owned m' q \<longleftrightarrow> owned m q"
    proof
      assume "owned m' q"
      then obtain x c where "buffers m' x = Some c" "buffer c = Some q" by (auto simp: owned_def)
      then show "owned m q" by (cases "x = h") (auto simp: B owned_def)
    next
      assume "owned m q"
      then obtain x c where xc: "buffers m x = Some c" "buffer c = Some q" by (auto simp: owned_def)
      with hN have "x \<noteq> h" by auto
      with xc show "owned m' q" by (auto simp: B owned_def)
    qed
    then show "foreign m' q = foreign m q" by (simp add: foreign_def blk)
  qed
  ultimately show ?thesis using bytes fr by (simp add: buf_effect_def)
qed

lemma buf_effect_delete:
  assumes inv: "buf_inv m" and b: "buffers m h = Some b"
    and B: "buffers m' = (buffers m)(h := None)"
    and blk: "blocks m' = drop_block (buffer b) (blocks m)"
    and fr: "buf_frame m m'"
  shows "buf_effect m ((buf_bytes m)(h := None)) m'"
proof -
  have other: "buf_bytes m' x = buf_bytes m x" if "x \<noteq> h" for x
    using inv b that
    by (rule buf_bytes_other) (use that in \<open>auto simp: B blk drop_block_def split: option.splits\<close>)
  have bytes: "buf_bytes m' = (buf_bytes m)(h := None)"
  proof
    fix x show "buf_bytes m' x = ((buf_bytes m)(h := None)) x"
      using other [of x] by (cases "x = h") (simp_all add: buf_bytes_def B)
  qed
  have brk: "brk m \<le> brk m'" using fr by (simp add: buf_frame_def)
  have "buf_inv m'"
    unfolding buf_inv_def
  proof (intro conjI allI impI)
    show "wf_mem m'"
      using inv fr brk
      by (auto simp: wf_mem_def buf_inv_def blk buf_frame_def drop_block_def split: option.splits)
  next
    fix x assume "brk m' \<le> x"
    with brk show "buffers m' x = None" using buf_inv_fresh(1) [OF inv, of x] by (simp add: B)
  next
    fix x c assume "buffers m' x = Some c"
    then show "buf_bytes m' x \<noteq> None"
      using other [of x] buf_inv_valid [OF inv, of x] by (cases "x = h") (auto simp: B)
  next
    fix x x' c c' q
    assume "buffers m' x = Some c" "buffers m' x' = Some c'" "buffer c = Some q" "buffer c' = Some q"
    then show "x = x'"
      using buf_inv_inj [OF inv, of x c x' c' q] by (cases "x = h"; cases "x' = h") (auto simp: B)
  qed
  moreover have "foreign m' = foreign m"
  proof
    fix q
    have own: "owned m' q \<longleftrightarrow> (\<exists>x c. x \<noteq> h \<and> buffers m x = Some c \<and> buffer c = Some q)"
      by (auto simp: B owned_def)
    show "foreign m' q = foreign m q"
      by (auto simp: foreign_def own owned_split [OF b] blk drop_block_def split: option.splits)
  qed
  ultimately show ?thesis using bytes fr by (simp add: buf_effect_def)
qed

section \<open>Every operation refines its abstract update\<close>

lemma buf_frame_update [simp]:
  "k \<ge> brk m \<Longrightarrow> buf_frame m (m\<lparr>brk := k, blocks := bl, buffers := bu\<rparr>)"
  "k \<ge> brk m \<Longrightarrow> buf_frame m (m\<lparr>brk := k, buffers := bu\<rparr>)"
  "k \<ge> brk m \<Longrightarrow> buf_frame m (m\<lparr>brk := k\<rparr>)"
  "buf_frame m (m\<lparr>blocks := bl, buffers := bu\<rparr>)"
  "buf_frame m (m\<lparr>blocks := bl\<rparr>)"
  "buf_frame m (m\<lparr>buffers := bu\<rparr>)"
  by (simp_all add: buf_frame_def)

lemma BUFFER_upd [simp]:
  "(b :: BUFFER)\<lparr>buffer := p, buf_size := s\<rparr> = \<lparr>buffer = p, buf_size = s\<rparr>"
  by (cases b) simp

lemma buf_effect_fail: "buf_inv m \<Longrightarrow> buf_effect m (buf_bytes m) (m\<lparr>brk := Suc (brk m)\<rparr>)"
  by (rule buf_effect_count) simp_all

lemma buf_effect_fresh:
  assumes inv: "buf_inv m" and b: "buffers m h = Some b" and "length xs = unat s"
    and "bl = (drop_block (buffer b) (blocks m))(brk m \<mapsto> xs @ replicate k None)"
  shows "buf_effect m ((buf_bytes m)(h \<mapsto> xs))
     (m\<lparr>brk := Suc (brk m), blocks := bl,
        buffers := (buffers m)(h \<mapsto> \<lparr>buffer = Some (brk m), buf_size = s\<rparr>)\<rparr>)"
  using buf_effect_replace [OF inv b, where b' = "\<lparr>buffer = Some (brk m), buf_size = s\<rparr>"
      and a = "brk m" and xs = xs and k = k] assms(3,4) buf_inv_fresh(2) [OF inv, of "brk m"]
  by simp

lemma BUFFER_upd_NULL [simp]: "buffer b = None \<Longrightarrow> (b :: BUFFER)\<lparr>buffer := None\<rparr> = b"
  by (cases b) simp

lemma buf_effect_same_struct:
  assumes "buf_inv m" "buffers m h = Some b"
  shows "buf_effect m (buf_bytes m) (m\<lparr>brk := Suc (brk m), buffers := (buffers m)(h \<mapsto> b)\<rparr>)"
  using assms(1) by (rule buf_effect_count) (simp_all add: assms(2) fun_upd_idem)

lemma buf_effect_realloc:
  assumes inv: "buf_inv m" and b: "buffers m h = Some b"
    and "blocks m' = (drop_block (buffer b) (blocks m))(brk m \<mapsto> zs)" "brk m' = Suc (brk m)"
    and "buf_frame m m'" and "buffers m' = (buffers m)(h \<mapsto> \<lparr>buffer = Some (brk m), buf_size = s\<rparr>)"
    and "length zs = unat s"
  shows "buf_effect m ((buf_bytes m)(h \<mapsto> zs)) m'"
  using buf_effect_replace [OF inv b, where b' = "\<lparr>buffer = Some (brk m), buf_size = s\<rparr>"
      and a = "brk m" and xs = zs and k = 0 and m' = m'] assms(3-) buf_inv_fresh(2) [OF inv, of "brk m"]
  by simp

lemma BUFFER_enlarge_spec:
  assumes inv: "buf_inv m" and xs: "buf_bytes m h = Some xs"
    and n: "n \<noteq> 0" and fits: "length xs + unat n < 2 ^ 32"
  shows "ok (BUFFER_enlarge (Some h) n m) (\<lambda>(r, m').
           (r \<noteq> 0 \<and> \<not> alloc_total m \<and> buf_effect m (buf_bytes m) m') \<or>
           (r = 0 \<and> buf_effect m ((buf_bytes m)(h \<mapsto> xs @ replicate (unat n) None)) m'))"
  using xs
proof (cases rule: buf_bytes_cases)
  case (Null b)
  then show ?thesis
    using n buf_effect_fail [OF inv] buf_effect_fresh [OF inv Null(1), of "replicate (unat n) None" n _ 0]
    by (auto simp: BUFFER_enlarge_def set_BUFFER_def alloc_total_def)
next
  case (Array b a k)
  have sum: "unat (buf_size b + n) = length xs + unat n"
    using fits Array by (simp add: unat_add_u32)
  show ?thesis
    using n Array sum buf_effect_fail [OF inv] 
       buf_effect_fresh [OF inv Array(1), of "xs @ replicate (unat n) None" "buf_size b + n" _ 0]
    by (auto simp: BUFFER_enlarge_def set_BUFFER_def alloc_total_def unat_eq_0_u32 simp flip: replicate_add)
qed


lemma read_bytes_cong: "blocks m' (fst q) = blocks m (fst q) \<Longrightarrow> read_bytes q n m' = read_bytes q n m"
  by (simp add: read_bytes_def)

lemma read_bytes_len: "read_bytes q n m = Some xs \<Longrightarrow> length xs = n"
  by (auto simp: read_bytes_def split: option.splits if_splits)

lemma read_bytes_live: "read_bytes q n m = Some xs \<Longrightarrow> \<exists>bs. blocks m (fst q) = Some bs"
  by (auto simp: read_bytes_def split: option.splits)

lemma BUFFER_delete_spec:
  assumes inv: "buf_inv m" and xs: "buf_bytes m h = Some xs"
  shows "ok (BUFFER_delete (Some h) m) (buf_effect m ((buf_bytes m)(h := None)))"
  using xs
proof (cases rule: buf_bytes_cases)
  case (Null b)
  then show ?thesis
    by (auto simp: BUFFER_delete_def free_BUFFER_def intro!: buf_effect_delete [OF inv Null(1)])
next
  case (Array b a k)
  then show ?thesis
    by (auto simp: BUFFER_delete_def free_BUFFER_def intro!: buf_effect_delete [OF inv Array(1)])
qed

lemma BUFFER_delete_NULL [simp]: "BUFFER_delete None m = Some m"
  by (simp add: BUFFER_delete_def)

lemma BUFFER_length_spec:
  assumes xs: "buf_bytes m h = Some xs"
  shows "BUFFER_length (Some h) m = Some (of_nat (length xs))"
  using xs by (cases rule: buf_bytes_cases) (auto simp: BUFFER_length_def)

lemma BUFFER_pre_build_spec:
  assumes inv: "buf_inv m" and xs: "buf_bytes m h = Some xs" and b: "buffers m h = Some b"
  shows "ok (BUFFER_pre_build (Some h) n m) (\<lambda>(r, m').
           (r \<noteq> 0 \<and> (n = 0 \<or> buffer b \<noteq> None \<or> \<not> alloc_total m) \<and> buf_effect m (buf_bytes m) m') \<or>
           (r = 0 \<and> n \<noteq> 0 \<and> buffer b = None \<and>
             buf_effect m ((buf_bytes m)(h \<mapsto> replicate (unat n) None)) m'))"
proof (cases "n = 0 \<or> buffer b \<noteq> None")
  case True
  then show ?thesis
    using b buf_effect_refl [OF inv] by (auto simp: BUFFER_pre_build_def)
next
  case False
  with xs b have sz: "buf_size b = 0" by (auto elim!: buf_bytes_cases)
  show ?thesis
    using False b buf_effect_same_struct [OF inv b] buf_effect_fresh [OF inv b, of "replicate (unat n) None" n _ 0]
    by (auto simp: BUFFER_pre_build_def set_BUFFER_def alloc_total_def)
qed

lemma BUFFER_build_spec:
  assumes inv: "buf_inv m" and xs: "buf_bytes m h = Some xs" and b: "buffers m h = Some b"
    and src: "n \<noteq> 0 \<Longrightarrow> read_bytes q (unat n) m = Some ys" "buffer b \<noteq> Some (fst q)"
  shows "ok (BUFFER_build (Some h) (Some q) n m) (\<lambda>(r, m').
           (r \<noteq> 0 \<and> \<not> alloc_total m \<and> buf_effect m (buf_bytes m) m') \<or>
           (r = 0 \<and> buf_effect m ((buf_bytes m)(h \<mapsto> if n = 0 then [] else ys)) m'))"
  using xs
proof (cases "n = 0")
  case True
  from xs b show ?thesis
    using True
    by (cases rule: buf_bytes_cases)
       (auto simp: BUFFER_build_def set_BUFFER_def intro!: buf_effect_clear [OF inv b])
next
  case False
  note live = read_bytes_live [OF src(1) [OF False]]
  have q: "fst q \<noteq> brk m" using live buf_inv_fresh(2) [OF inv, of "brk m"] by auto
  have ys: "length ys = unat n" using src(1) [OF False] by (rule read_bytes_len)
  have rd: "read_bytes q (unat n) m' = Some ys" if "blocks m' (fst q) = blocks m (fst q)" for m' :: "'a bmem_scheme"
    using src(1) [OF False] read_bytes_cong [of m' q m, OF that] by simp
  from xs show ?thesis
  proof (cases rule: buf_bytes_cases)
    case (Null b')
    then show ?thesis
      using False b q ys src(2) buf_effect_fail [OF inv] 
      by (auto simp: BUFFER_build_def set_BUFFER_def memcpy_bytes_def alloc_total_def rd write_at_all
           unat_eq_0_u32 buf_frame_def intro!: buf_effect_realloc [OF inv b])
  next
    case (Array b' a k)
    then show ?thesis
      using False b q ys src(2) buf_effect_fail [OF inv] 
      by (auto simp: BUFFER_build_def set_BUFFER_def memcpy_bytes_def alloc_total_def rd write_at_all
           unat_eq_0_u32 buf_frame_def intro!: buf_effect_realloc [OF inv b])
  qed
qed


lemma BUFFER_append_build_spec:
  assumes inv: "buf_inv m" and xs: "buf_bytes m h = Some xs" and b: "buffers m h = Some b"
    and n: "n \<noteq> 0" and fits: "length xs + unat n < 2 ^ 32"
    and src: "read_bytes q (unat n) m = Some ys" "buffer b \<noteq> Some (fst q)"
  shows "ok (BUFFER_append_build (Some h) (Some q) n m) (\<lambda>(r, m').
           (r \<noteq> 0 \<and> \<not> alloc_total m \<and> buf_effect m (buf_bytes m) m') \<or>
           (r = 0 \<and> buf_effect m ((buf_bytes m)(h \<mapsto> xs @ ys)) m'))"
proof -
  note live = read_bytes_live [OF src(1)]
  have q: "fst q \<noteq> brk m" using live buf_inv_fresh(2) [OF inv, of "brk m"] by auto
  have ys: "length ys = unat n" using src(1) by (rule read_bytes_len)
  have rd: "read_bytes q (unat n) m' = Some ys" if "blocks m' (fst q) = blocks m (fst q)" for m' :: "'a bmem_scheme"
    using src(1) read_bytes_cong [of m' q m, OF that] by simp
  from xs show ?thesis
  proof (cases rule: buf_bytes_cases)
    case (Null b')
    then show ?thesis
      using n b q ys src(2) buf_effect_same_struct [OF inv b]
      by (auto simp: BUFFER_append_build_def BUFFER_safemalloc_def set_BUFFER_def memcpy_bytes_def 
           alloc_total_def rd write_at_all buf_frame_def intro!: buf_effect_realloc [OF inv b])
  next
    case (Array b' a k)
    have sum: "unat (buf_size b + n) = length xs + unat n"
      using fits Array b by (simp add: unat_add_u32)
    show ?thesis
      using Array n b q ys src(2) buf_effect_fail [OF inv] sum
      by (auto simp: BUFFER_append_build_def set_BUFFER_def memcpy_bytes_def alloc_total_def rd write_at_append'
           write_at_all unat_eq_0_u32 buf_frame_def intro!: buf_effect_realloc [OF inv b] simp flip: replicate_add)
  qed
qed

lemma BUFFER_append_spec:
  assumes inv: "buf_inv m" and xs: "buf_bytes m h1 = Some xs" and ys: "buf_bytes m h2 = Some ys"
    and b: "buffers m h1 = Some b" and b1: "buffer b \<noteq> None"
    and b2: "buffers m h2 = Some b2" "buffer b2 \<noteq> None" and ne: "h1 \<noteq> h2"
    and fits: "length xs + length ys < 2 ^ 32"
  shows "ok (BUFFER_append (Some h1) (Some h2) m) (\<lambda>(r, m').
           (r \<noteq> 0 \<and> \<not> alloc_total m \<and> buf_effect m (buf_bytes m) m') \<or>
           (r = 0 \<and> buf_effect m ((buf_bytes m)(h1 \<mapsto> xs @ ys)) m'))"
proof -
  obtain a1 k1 where A1: "buffer b = Some a1" "blocks m a1 = Some (xs @ replicate k1 None)" "length xs = unat (buf_size b)"
    using xs b b1 by (auto elim!: buf_bytes_cases)
  obtain a2 k2 where A2: "buffer b2 = Some a2" "blocks m a2 = Some (ys @ replicate k2 None)" "length ys = unat (buf_size b2)"
    using ys b2 by (auto elim!: buf_bytes_cases)
  have ne': "a2 \<noteq> a1" "a2 \<noteq> brk m" "a1 \<noteq> brk m"
    using buf_inv_inj [OF inv b b2(1)] A1 A2 ne buf_inv_fresh(2) [OF inv, of "brk m"] by auto
  have sum: "unat (buf_size b + buf_size b2) = length xs + length ys"
    using fits A1 A2 by (simp add: unat_add_u32)
  show ?thesis
  proof (cases "buf_size b2 = 0")
    case True
    then have "ys = []" using A2 by simp
    with True A1 A2 b b2 ne xs show ?thesis
      using buf_effect_refl [OF inv] by (simp add: BUFFER_append_def fun_upd_idem)
  next
    case False
    then have "unat (buf_size b2) \<noteq> 0" "unat (buf_size b + buf_size b2) \<noteq> 0"
      using A2 sum by (auto simp: unat_eq_0_u32)
    with False A1 A2 b b2 ne ne' sum show ?thesis
      using buf_effect_fail [OF inv]
      by (auto simp: BUFFER_append_def set_BUFFER_def memcpy_bytes_def alloc_total_def 
           write_at_append' write_at_all buf_frame_def intro!: buf_effect_realloc [OF inv b] simp flip: replicate_add)
  qed
qed

lemma BUFFER_new_spec:
  assumes inv: "buf_inv m"
  shows "ok (BUFFER_new m) (\<lambda>(r, m').
           (r = None \<and> \<not> alloc_total m \<and> buf_effect m (buf_bytes m) m') \<or>
           (\<exists>h. r = Some h \<and> buf_bytes m h = None \<and> buffers m' h = Some \<lparr>buffer = None, buf_size = 0\<rparr> \<and>
              buf_effect m ((buf_bytes m)(h \<mapsto> [])) m'))"
  using buf_effect_fail [OF inv] buf_inv_fresh(3) [OF inv, of "brk m"]
  by (auto simp: BUFFER_new_def set_BUFFER_def alloc_total_def intro!: buf_effect_new [OF inv])

lemma BUFFER_create_spec:
  assumes inv: "buf_inv m" and src: "read_bytes q (unat n) m = Some ys"
  shows "ok (BUFFER_create (Some q) n m) (\<lambda>(r, m').
           (r = None \<and> \<not> alloc_total m \<and> buf_effect m (buf_bytes m) m') \<or>
           (\<exists>h. r = Some h \<and> buf_bytes m h = None \<and> buf_effect m ((buf_bytes m)(h \<mapsto> ys)) m'))"
proof -
  define m1 where "m1 = set_BUFFER (brk m) \<lparr>buffer = None, buf_size = 0\<rparr> (m\<lparr>brk := Suc (brk m)\<rparr>)"
  have e1: "buf_effect m ((buf_bytes m)(brk m \<mapsto> [])) m1"
    unfolding m1_def by (rule buf_effect_new [OF inv]) (simp_all add: set_BUFFER_def)
  have inv1: "buf_inv m1" and by1: "buf_bytes m1 = (buf_bytes m)(brk m \<mapsto> [])"
    using buf_effectD [OF e1] by auto
  have st: "buffers m1 (brk m) = Some \<lparr>buffer = None, buf_size = 0\<rparr>" by (simp add: m1_def set_BUFFER_def)
  note live = read_bytes_live [OF src]
  have q: "fst q \<noteq> Suc (brk m)" using live buf_inv_fresh(2) [OF inv, of "Suc (brk m)"] by auto
  have ys: "length ys = unat n" using src by (rule read_bytes_len)
  have rd: "read_bytes q (unat n) m' = Some ys" if "blocks m' (fst q) = blocks m (fst q)" for m' :: "'a bmem_scheme"
    using src read_bytes_cong [of m' q m, OF that] by simp
  have nN: "buf_bytes m (brk m) = None" using inv by (simp add: buf_inv_fresh)
  define sz where "sz = unat (if n = 0 then 1 else n)"
  have le: "unat n \<le> sz" by (auto simp: sz_def)
  define m2 where "m2 = m1\<lparr>brk := Suc (Suc (brk m)), blocks := (blocks m)(Suc (brk m) \<mapsto> replicate sz None),
     buffers := (buffers m1)(brk m \<mapsto> \<lparr>buffer = Some (Suc (brk m)), buf_size = n\<rparr>)\<rparr>"
  have good: "buf_effect m ((buf_bytes m)(brk m \<mapsto> ys)) (m2\<lparr>blocks := (blocks m2)(Suc (brk m) \<mapsto> write_at 0 ys (replicate sz None))\<rparr>)"
    using buf_effect_replace [OF inv1 st, where b' = "\<lparr>buffer = Some (Suc (brk m)), buf_size = n\<rparr>" and a = "Suc (brk m)" and xs = ys and k = "sz - unat n" and
      m' = "m2\<lparr>blocks := (blocks m2)(Suc (brk m) \<mapsto> write_at 0 ys (replicate sz None))\<rparr>"] ys le
      buf_effect_trans [OF e1] by1 buf_inv_fresh(2) [OF inv1]
    by (simp add: m2_def m1_def set_BUFFER_def write_at_0_replicate buf_frame_def)
  have bad: "buf_effect m (buf_bytes m) (m1\<lparr>brk := Suc (Suc (brk m)), buffers := buffers m\<rparr>)"
    using inv by (rule buf_effect_count) (simp_all add: m1_def set_BUFFER_def buf_frame_def)
  show ?thesis
    using good bad buf_effect_fail [OF inv] q ys le rd nN buf_inv_fresh(1) [OF inv, of "brk m"]
    by (auto simp: BUFFER_create_def BUFFER_safemalloc_def Let_def free_BUFFER_def m1_def m2_def set_BUFFER_def alloc_total_def memcpy_bytes_def fun_upd_idem
      simp flip: sz_def)
qed

lemma BUFFER_size_spec:
  assumes "buf_bytes m h = Some xs"
  shows "BUFFER_size (Some h) True m = Some (0, of_nat (length xs))"
  using assms by (cases rule: buf_bytes_cases) (auto simp: BUFFER_size_def)

definition buf_at :: "'z bmem_scheme \<Rightarrow> addr \<Rightarrow> addr \<Rightarrow> bool" where
  "buf_at m h a \<longleftrightarrow> (\<exists>b. buffers m h = Some b \<and> buffer b = Some a)"

lemma BUFFER_u_char_spec:
  assumes "buf_bytes m h = Some xs"
  shows "ok (BUFFER_u_char (Some h) m) (\<lambda>p. if xs = [] then p = None else \<exists>a. p = Some a \<and> buf_at m h a)"
  using assms by (cases rule: buf_bytes_cases) (auto simp: BUFFER_u_char_def buf_at_def unat_eq_0_u32)

lemma BUFFER_content_spec:
  assumes "buf_bytes m h = Some xs"
  shows "ok (BUFFER_content (Some h) True m) (\<lambda>(r, p). r = 0 \<and> (case p of None \<Rightarrow> xs = [] | Some a \<Rightarrow> buf_at m h a))"
  using assms by (cases rule: buf_bytes_cases) (auto simp: BUFFER_content_def buf_at_def)

lemma read_buf:
  assumes "buf_bytes m h = Some xs" "buf_at m h a" "i + n \<le> length xs"
  shows "read_bytes (a, i) n m = Some (take n (drop i xs))"
  using assms by (auto elim!: buf_bytes_cases simp: buf_at_def)

lemma write_buf_spec:
  assumes inv: "buf_inv m" and xs: "buf_bytes m h = Some xs" and at: "buf_at m h a"
    and fits: "i + length ys \<le> length xs"
  shows "ok (write_bytes (a, i) ys m)
     (\<lambda>m'. buf_effect m ((buf_bytes m)(h \<mapsto> write_at i ys xs)) m' \<and> buffers m' = buffers m)"
proof -
  obtain b k where b: "buffers m h = Some b" and p: "buffer b = Some a"
    and bl: "blocks m a = Some (xs @ replicate k None)" and sz: "length xs = unat (buf_size b)"
    using xs at by (auto elim!: buf_bytes_cases simp: buf_at_def)
  have a: "a < brk m" using bl buf_inv_fresh(2) [OF inv, of a] by force
  have w: "write_at i ys (xs @ replicate k None) = write_at i ys xs @ replicate k None"
    using fits by (simp add: write_at_def)
  show ?thesis
    using bl fits p sz a w
    by (auto intro!: buf_effect_replace [OF inv b, where b' = b and k = k] simp: fun_upd_idem b)
qed

lemma BUFFER_unbuild_spec:
  assumes inv: "buf_inv m" and xs: "buf_bytes m h = Some xs" and b: "buffers m h = Some b"
  shows "ok (BUFFER_unbuild (Some h) m) (\<lambda>(r, m').
           (r \<noteq> 0 \<longleftrightarrow> buffer b = None) \<and> buf_effect m ((buf_bytes m)(h \<mapsto> [])) m')"
  using xs
proof (cases rule: buf_bytes_cases)
  case Null
  then show ?thesis
    using b xs buf_effect_refl [OF inv] by (simp add: BUFFER_unbuild_def fun_upd_idem)
next
  case Array
  then show ?thesis
    using b by (auto simp: BUFFER_unbuild_def set_BUFFER_def intro!: buf_effect_clear [OF inv b])
qed

lemma fill_loop_spec:
  assumes "blocks m a = Some bs" "i + n \<le> length bs"
  shows "fill_loop (Some a) c n i m =
     Some (m\<lparr>blocks := (blocks m)(a \<mapsto> write_at i (replicate n (Some c)) bs)\<rparr>)"
  using assms
proof (induction n arbitrary: i m bs)
  case 0
  then show ?case by (simp add: fun_upd_idem)
next
  case (Suc n)
  have "write_at (Suc i) (replicate n (Some c)) (write_at i [Some c] bs) = write_at i (replicate (Suc n) (Some c)) bs"
    using Suc.prems by (simp add: write_at_def min_def add.commute)
  then show ?case
    using Suc.prems Suc.IH [of "m\<lparr>blocks := (blocks m)(a \<mapsto> write_at i [Some c] bs)\<rparr>" "write_at i [Some c] bs" "Suc i"]
    by (simp cong: if_cong)
qed

lemma BUFFER_fill_spec:
  assumes inv: "buf_inv m" and xs: "buf_bytes m h = Some xs"
  shows "ok (BUFFER_fill (Some h) c m) (\<lambda>(r, m').
           r = 0 \<and> buf_effect m ((buf_bytes m)(h \<mapsto> replicate (length xs) (Some c))) m')"
  using xs
proof (cases rule: buf_bytes_cases)
  case Null
  then show ?thesis using xs buf_effect_refl [OF inv] by (simp add: BUFFER_fill_def fun_upd_idem)
next
  case (Array b a k)
  have at: "buf_at m h a" using Array by (simp add: buf_at_def)
  from write_buf_spec [OF inv xs at, of 0 "replicate (length xs) (Some c)"] show ?thesis
    using Array fill_loop_spec [OF Array(3), of 0 "length xs" c]
    by (simp add: BUFFER_fill_def write_at_all)
qed

lemma BUFFER_shrink_spec:
  assumes inv: "buf_inv m" and xs: "buf_bytes m h = Some xs"
    and n: "n \<noteq> 0" and le: "unat n \<le> length xs"
  shows "ok (BUFFER_shrink (Some h) n fromEnd m) (\<lambda>(r, m').
           (r \<noteq> 0 \<and> \<not> alloc_total m \<and> buf_effect m (buf_bytes m) m') \<or>
           (r = 0 \<and> buf_effect m
             ((buf_bytes m)(h \<mapsto> if fromEnd then take (length xs - unat n) xs else drop (unat n) xs)) m'))"
  using xs
proof (cases rule: buf_bytes_cases)
  case Null
  then show ?thesis using n le by (simp add: unat_eq_0_u32)
next
  case (Array b a k)
  have le': "n \<le> buf_size b" using le Array by (simp add: word_le_nat_alt)
  then have sub: "unat (buf_size b - n) = length xs - unat n" using Array by (simp add: unat_sub)
  show ?thesis
  proof (cases "buf_size b = n")
    case True
    then show ?thesis
      using n le Array by (auto simp: BUFFER_shrink_def set_BUFFER_def intro!: buf_effect_clear [OF inv Array(1)])
  next
    case False
    have ne: "a \<noteq> brk m" using Array buf_inv_fresh(2) [OF inv, of "brk m"] by auto
    show ?thesis
      using n le le' sub Array False ne buf_effect_fail [OF inv]
      by (auto simp: BUFFER_shrink_def Let_def set_BUFFER_def memcpy_bytes_def alloc_total_def write_at_all buf_frame_def fun_upd_twist
        intro!: buf_effect_realloc [OF inv Array(1)])
  qed
qed

lemma BUFFER_prepend_spec:
  assumes inv: "buf_inv m" and xs: "buf_bytes m h1 = Some xs" and ys: "buf_bytes m h2 = Some ys"
    and b: "buffers m h1 = Some b" and b1: "buffer b \<noteq> None"
    and b2: "buffers m h2 = Some b2" "buffer b2 \<noteq> None" and ne: "h1 \<noteq> h2"
    and fits: "length xs + length ys < 2 ^ 32"
  shows "ok (BUFFER_prepend (Some h1) (Some h2) m) (\<lambda>(r, m').
           (r \<noteq> 0 \<and> \<not> alloc_total m \<and> buf_effect m (buf_bytes m) m') \<or>
           (r = 0 \<and> buf_effect m ((buf_bytes m)(h1 \<mapsto> ys @ xs)) m'))"
proof -
  obtain a1 k1 where A1: "buffer b = Some a1" "blocks m a1 = Some (xs @ replicate k1 None)" "length xs = unat (buf_size b)"
    using xs b b1 by (auto elim!: buf_bytes_cases)
  obtain a2 k2 where A2: "buffer b2 = Some a2" "blocks m a2 = Some (ys @ replicate k2 None)" "length ys = unat (buf_size b2)"
    using ys b2 by (auto elim!: buf_bytes_cases)
  have ne': "a2 \<noteq> a1" "a2 \<noteq> brk m" "a1 \<noteq> brk m"
    using buf_inv_inj [OF inv b b2(1)] A1 A2 ne buf_inv_fresh(2) [OF inv, of "brk m"] by auto
  have sum: "unat (buf_size b + buf_size b2) = length xs + length ys"
    using fits A1 A2 by (simp add: unat_add_u32)
  have w: "write_at (length ys) xs (write_at 0 ys (replicate (length xs + length ys) z)) = ys @ xs" for z
    by (simp add: write_at_0_replicate write_at_append' write_at_all)
  show ?thesis
  proof (cases "buf_size b2 = 0")
    case True
    then have "ys = []" using A2 by simp
    with True A1 A2 b b2 ne xs show ?thesis
      using buf_effect_refl [OF inv] by (simp add: BUFFER_prepend_def fun_upd_idem)
  next
    case False
    then show ?thesis
      using A1 A2 b b2 ne ne' sum w buf_effect_fail [OF inv]
      by (auto simp: BUFFER_prepend_def set_BUFFER_def memcpy_bytes_def alloc_total_def
           buf_frame_def fun_upd_twist intro!: buf_effect_realloc [OF inv b])
  qed
qed


lemma BUFFER_clone_spec:
  assumes inv: "buf_inv m" and xs: "buf_bytes m h = Some xs"
  shows "ok (BUFFER_clone (Some h) m) (\<lambda>(r, m').
           (r = None \<and> \<not> alloc_total m \<and> buf_effect m (buf_bytes m) m') \<or>
           (\<exists>h'. r = None \<and> \<not> alloc_total m \<and> buf_bytes m h' = None \<and> buf_effect m ((buf_bytes m)(h' \<mapsto> [])) m') \<or>
           (\<exists>h'. r = Some h' \<and> buf_bytes m h' = None \<and> buf_effect m ((buf_bytes m)(h' \<mapsto> xs)) m'))"
proof -
  obtain b where b: "buffers m h = Some b" using buf_bytes_SomeD [OF xs] by auto
  have len: "length xs = unat (buf_size b)" using xs b by (rule buf_bytes_length)
  define n where "n = buf_size b"
  define sz where "sz = unat (if n = 0 then 1 else n)"
  have le: "unat n \<le> sz" by (auto simp: sz_def)
  have hne: "h \<noteq> brk m" using b buf_inv_fresh(1) [OF inv, of "brk m"] by auto
  have nN: "buf_bytes m (brk m) = None" using inv by (simp add: buf_inv_fresh)
  define m1 where "m1 = set_BUFFER (brk m) \<lparr>buffer = None, buf_size = 0\<rparr> (m\<lparr>brk := Suc (brk m)\<rparr>)"
  have e1: "buf_effect m ((buf_bytes m)(brk m \<mapsto> [])) m1"
    unfolding m1_def by (rule buf_effect_new [OF inv]) (simp_all add: set_BUFFER_def)
  have inv1: "buf_inv m1" and by1: "buf_bytes m1 = (buf_bytes m)(brk m \<mapsto> [])"
    using buf_effectD [OF e1] by auto
  have st: "buffers m1 (brk m) = Some \<lparr>buffer = None, buf_size = 0\<rparr>" by (simp add: m1_def set_BUFFER_def)
  have bad: "buf_effect m ((buf_bytes m)(brk m \<mapsto> [])) (m\<lparr>brk := Suc (Suc (brk m)), buffers := (buffers m)(brk m \<mapsto> \<lparr>buffer = None, buf_size = 0\<rparr>)\<rparr>)"
    using buf_effect_trans [OF e1 buf_effect_count [OF inv1]] by1 by (simp add: buf_frame_def m1_def set_BUFFER_def)
  let ?m2 = "m1\<lparr>brk := Suc (Suc (brk m)), blocks := (blocks m)(Suc (brk m) \<mapsto> xs @ replicate (sz - unat n) None),
     buffers := (buffers m1)(brk m \<mapsto> \<lparr>buffer = Some (Suc (brk m)), buf_size = n\<rparr>)\<rparr>"
  have good: "buf_effect m ((buf_bytes m)(brk m \<mapsto> xs)) ?m2"
    using buf_effect_replace [OF inv1 st, where b' = "\<lparr>buffer = Some (Suc (brk m)), buf_size = n\<rparr>"
        and a = "Suc (brk m)" and xs = xs and k = "sz - unat n" and m' = ?m2] len
      buf_effect_trans [OF e1] by1 buf_inv_fresh(2) [OF inv1]
    by (simp add: m1_def set_BUFFER_def buf_frame_def n_def)
  from xs show ?thesis
  proof (cases rule: buf_bytes_cases)
    case Null
    then show ?thesis using good bad buf_effect_fail [OF inv] le len b hne nN
      by (auto simp: BUFFER_clone_def BUFFER_safemalloc_def Let_def m1_def set_BUFFER_def alloc_total_def sz_def n_def)
  next
    case (Array b' a k)
    then have "a \<noteq> Suc (brk m)" using buf_inv_fresh(2) [OF inv, of "Suc (brk m)"] by auto
    with Array show ?thesis using good bad buf_effect_fail [OF inv] le len b hne nN
      by (auto simp: BUFFER_clone_def BUFFER_safemalloc_def Let_def m1_def set_BUFFER_def alloc_total_def memcpy_bytes_def write_at_0_replicate sz_def n_def)
  qed
qed

end
