(* ===== verification/Ownership.thy ===== *)
theory Ownership
  imports Memory
begin

text \<open>
  Structs that own one array each: a store \<open>H\<close> of structs, a store \<open>A\<close> of arrays, and for
  each struct the pointer to its array.  \<open>val\<close> reads the abstract value a struct has with
  its array.  The laws say what replacing, adding and removing a struct together with its
  array does to the values of all structs, to the arrays no struct owns, and to the
  invariant that no array has two owners.
\<close>

definition array_of :: "ptr \<Rightarrow> (addr \<rightharpoonup> mbyte list) \<Rightarrow> mbyte list option" where
  "array_of p A = Option.bind p A"

definition own_vals ::
  "('s \<Rightarrow> ptr) \<Rightarrow> ('s \<Rightarrow> mbyte list \<Rightarrow> 'v option) \<Rightarrow> (addr \<rightharpoonup> 's) \<Rightarrow> (addr \<rightharpoonup> mbyte list) \<Rightarrow> addr \<rightharpoonup> 'v"
where
  "own_vals p val H A h = do { s \<leftarrow> H h; bs \<leftarrow> array_of (p s) A; val s bs }"

definition own_rest :: "('s \<Rightarrow> ptr) \<Rightarrow> (addr \<rightharpoonup> 's) \<Rightarrow> (addr \<rightharpoonup> mbyte list) \<Rightarrow> addr \<rightharpoonup> mbyte list" where
  "own_rest p H A a = (if \<exists>h s. H h = Some s \<and> p s = Some a then None else A a)"

definition own_inv ::
  "('s \<Rightarrow> ptr) \<Rightarrow> ('s \<Rightarrow> mbyte list \<Rightarrow> 'v option) \<Rightarrow> (addr \<rightharpoonup> 's) \<Rightarrow> (addr \<rightharpoonup> mbyte list) \<Rightarrow> bool"
where
  "own_inv p val H A \<longleftrightarrow>
     (\<forall>h s. H h = Some s \<longrightarrow> own_vals p val H A h \<noteq> None) \<and>
     (\<forall>h h' s s' a. H h = Some s \<longrightarrow> H h' = Some s' \<longrightarrow> p s = Some a \<longrightarrow> p s' = Some a \<longrightarrow> h = h')"

locale ownership =
  fixes p :: "'s \<Rightarrow> ptr"
    and val :: "'s \<Rightarrow> mbyte list \<Rightarrow> 'v option"
    and inv :: "(addr \<rightharpoonup> 's) \<Rightarrow> (addr \<rightharpoonup> mbyte list) \<Rightarrow> bool"
    and vals :: "(addr \<rightharpoonup> 's) \<Rightarrow> (addr \<rightharpoonup> mbyte list) \<Rightarrow> addr \<rightharpoonup> 'v"
    and rest :: "(addr \<rightharpoonup> 's) \<Rightarrow> (addr \<rightharpoonup> mbyte list) \<Rightarrow> addr \<rightharpoonup> mbyte list"
  assumes inv_def: "inv H A \<longleftrightarrow> own_inv p val H A"
    and vals_def: "vals H A = own_vals p val H A"
    and rest_def: "rest H A = own_rest p H A"
begin

lemma vals_SomeD: "vals H A h = Some v \<Longrightarrow> \<exists>s a bs. H h = Some s \<and> p s = Some a \<and> A a = Some bs \<and> val s bs = Some v"
  by (cases "H h") (auto simp: vals_def own_vals_def array_of_def split: Option.bind_splits)

lemma vals_SomeI: "H h = Some s \<Longrightarrow> p s = Some a \<Longrightarrow> A a = Some bs \<Longrightarrow> vals H A h = val s bs"
  by (simp add: vals_def own_vals_def array_of_def)

lemma valid: "inv H A \<Longrightarrow> H h = Some s \<Longrightarrow> \<exists>a bs v. p s = Some a \<and> A a = Some bs \<and> val s bs = Some v"
  unfolding inv_def own_inv_def by (metis vals_def vals_SomeD not_Some_eq option.inject)

lemma inj: "inv H A \<Longrightarrow> H h = Some s \<Longrightarrow> H h' = Some s' \<Longrightarrow> p s = Some a \<Longrightarrow> p s' = Some a \<Longrightarrow> h = h'"
  unfolding inv_def own_inv_def by blast

lemma invI:
  assumes "\<And>h s. H h = Some s \<Longrightarrow> \<exists>a bs. p s = Some a \<and> A a = Some bs \<and> val s bs \<noteq> None"
    and "\<And>h h' s s' a. H h = Some s \<Longrightarrow> H h' = Some s' \<Longrightarrow> p s = Some a \<Longrightarrow> p s' = Some a \<Longrightarrow> h = h'"
  shows "inv H A"
  unfolding inv_def own_inv_def
proof (intro conjI allI impI)
  fix h s assume "H h = Some s"
  with assms(1) [of h s] show "own_vals p val H A h \<noteq> None"
    by (auto simp: own_vals_def array_of_def)
qed (use assms(2) in blast)

text \<open>A struct \<open>h\<close>, new or not, gets the fresh array \<open>a\<close>; its old array is freed.\<close>

lemma replace:
  assumes inv: "inv H A" and old: "case H h of None \<Rightarrow> q = None | Some s \<Rightarrow> q = p s"
    and s': "p s' = Some a" "val s' bs = Some v"
    and a: "A a = None \<or> q = Some a"
    and H': "H' = H(h \<mapsto> s')"
    and A': "A' a = Some bs" "\<And>x. x \<noteq> a \<Longrightarrow> A' x = (if q = Some x then None else A x)"
  shows "inv H' A'" "vals H' A' = (vals H A)(h \<mapsto> v)" "rest H' A' = rest H A"
proof -
  have free: "p s \<noteq> Some a \<and> p s \<noteq> q" if xs: "H x = Some s" "x \<noteq> h" for x s
  proof -
    obtain b cs where b: "p s = Some b" "A b = Some cs" using valid [OF inv xs(1)] by blast
    have "q \<noteq> Some b"
    proof (cases "H h")
      case (Some t)
      then have "q = p t" using old by simp
      then show ?thesis using inj [OF inv xs(1) Some b(1)] xs(2) by auto
    qed (use old in simp)
    then show ?thesis using a b by auto
  qed
  have keep: "\<exists>b cs v. p s = Some b \<and> A b = Some cs \<and> A' b = Some cs \<and> val s cs = Some v"
    if xs: "H x = Some s" "x \<noteq> h" for x s
  proof -
    obtain b cs v where b: "p s = Some b" "A b = Some cs" "val s cs = Some v"
      using valid [OF inv xs(1)] by blast
    moreover have "A' b = Some cs" using free [OF xs] b A'(2) [of b] by (simp split: if_splits)
    ultimately show ?thesis by blast
  qed
  show "inv H' A'"
  proof (rule invI)
    fix x s assume "H' x = Some s"
    then show "\<exists>a bs. p s = Some a \<and> A' a = Some bs \<and> val s bs \<noteq> None"
      using keep [of x s] s' A' by (cases "x = h") (auto simp: H')
  next
    fix x y s t b assume "H' x = Some s" "H' y = Some t" "p s = Some b" "p t = Some b"
    then show "x = y"
      using free [of x s] free [of y t] s' inj [OF inv, of x s y t b]
      by (cases "x = h"; cases "y = h") (auto simp: H')
  qed
  show "vals H' A' = (vals H A)(h \<mapsto> v)"
  proof
    fix x
    show "vals H' A' x = ((vals H A)(h \<mapsto> v)) x"
    proof (cases "x = h")
      case True
      then show ?thesis using s' A' by (simp add: H' vals_SomeI)
    next
      case False
      then show ?thesis
      proof (cases "H x")
        case None
        with False show ?thesis by (simp add: H' vals_def own_vals_def)
      next
        case (Some s)
        with False keep [of x s] show ?thesis
          using vals_SomeI [of H' x s _ A'] vals_SomeI [of H x s _ A] by (auto simp: H')
      qed
    qed
  qed
  show "rest H' A' = rest H A"
  proof
    fix x
    have own': "(\<exists>y s. H' y = Some s \<and> p s = Some x) \<longleftrightarrow> x = a \<or> (\<exists>y s. y \<noteq> h \<and> H y = Some s \<and> p s = Some x)"
      using s' by (auto simp: H')
    have own: "(\<exists>y s. H y = Some s \<and> p s = Some x) \<longleftrightarrow> q = Some x \<or> (\<exists>y s. y \<noteq> h \<and> H y = Some s \<and> p s = Some x)"
    proof (cases "H h")
      case None
      then have "q = None" "\<And>y s. H y = Some s \<Longrightarrow> y \<noteq> h" using old by auto
      then show ?thesis by blast
    next
      case (Some s)
      then have "q = p s" using old by simp
      with Some show ?thesis by (metis option.inject)
    qed
    show "rest H' A' x = rest H A x"
      unfolding rest_def own_rest_def own own'
      using a A'(2) [of x] by (cases "x = a"; cases "q = Some x") auto
  qed
qed

lemma remove:
  assumes inv: "inv H A" and h: "H h = Some s" "p s = Some a"
    and H': "H' = H(h := None)" and A': "A' = A(a := None)"
  shows "inv H' A'" "vals H' A' = (vals H A)(h := None)" "rest H' A' = rest H A"
proof -
  have keep: "\<exists>b cs v. p t = Some b \<and> A b = Some cs \<and> A' b = Some cs \<and> val t cs = Some v"
    if xt: "H x = Some t" "x \<noteq> h" for x t
  proof -
    obtain b cs v where b: "p t = Some b" "A b = Some cs" "val t cs = Some v"
      using valid [OF inv xt(1)] by blast
    moreover have "A' b = Some cs" using inj [OF inv xt(1) h(1) b(1)] b h(2) xt(2) by (auto simp: A')
    ultimately show ?thesis by blast
  qed
  show "inv H' A'"
  proof (rule invI)
    fix x t assume "H' x = Some t"
    then show "\<exists>a bs. p t = Some a \<and> A' a = Some bs \<and> val t bs \<noteq> None"
      using keep [of x t] by (cases "x = h") (auto simp: H')
  next
    fix x y t u b assume "H' x = Some t" "H' y = Some u" "p t = Some b" "p u = Some b"
    then show "x = y"
      using inj [OF inv, of x t y u b] by (cases "x = h"; cases "y = h") (auto simp: H')
  qed
  show "vals H' A' = (vals H A)(h := None)"
  proof
    fix x
    show "vals H' A' x = ((vals H A)(h := None)) x"
    proof (cases "x = h \<or> H x = None")
      case True
      then show ?thesis by (auto simp: H' vals_def own_vals_def)
    next
      case False
      then obtain t where "H x = Some t" "x \<noteq> h" by auto
      with keep [of x t] show ?thesis
        using vals_SomeI [of H' x t _ A'] vals_SomeI [of H x t _ A] by (auto simp: H')
    qed
  qed
  show "rest H' A' = rest H A"
  proof
    fix x
    have own: "(\<exists>y s. H y = Some s \<and> p s = Some x) \<longleftrightarrow> x = a \<or> (\<exists>y s. y \<noteq> h \<and> H y = Some s \<and> p s = Some x)"
      using h by (metis option.inject)
    have own': "(\<exists>y s. H' y = Some s \<and> p s = Some x) \<longleftrightarrow> (\<exists>y s. y \<noteq> h \<and> H y = Some s \<and> p s = Some x)"
      by (auto simp: H')
    show "rest H' A' x = rest H A x"
      using inj [OF inv h(1) _ h(2)] by (auto simp: rest_def own_rest_def own own' A')
  qed
qed

end

end
