(* ===== verification/Strings.thy ===== *)
theory Strings
  imports Buffer Ownership
begin

text \<open>
  The strings of \<^verbatim>\<open>uMQTT/ports/src/strings.c\<close>: a handle is the address of a \<open>STRING\<close>
  struct, whose one field points to a character array that holds a C string.  \<open>char\<close> is
  unsigned, as on ARM.

  The contract: \<open>str_vals m\<close> maps each live handle to its characters, \<open>str_rest m\<close> is the
  part of the character heap that no string owns.  Each operation refines an update of
  \<open>str_vals\<close> and leaves \<open>str_rest\<close> and the byte buffers as they were.
\<close>

record STRING =
  str_s :: ptr

record smem = bmem +
  strs :: "addr \<rightharpoonup> STRING"

section \<open>Operations\<close>

definition sizeof_STRING :: nat where
  "sizeof_STRING = 4"

definition set_STRING :: "addr \<Rightarrow> ptr \<Rightarrow> 'z smem_scheme \<Rightarrow> 'z smem_scheme" where
  "set_STRING h p m = m\<lparr>strs := (strs m)(h \<mapsto> \<lparr>str_s = p\<rparr>)\<rparr>"

definition free_STRING :: "addr \<Rightarrow> 'z smem_scheme \<Rightarrow> 'z smem_scheme option" where
  "free_STRING h m = do { _ \<leftarrow> strs m h; Some (m\<lparr>strs := (strs m)(h := None)\<rparr>) }"

text \<open>The array of a live string: its struct is read, its pointer is not null.\<close>

definition str_ptr :: "addr \<Rightarrow> 'z smem_scheme \<Rightarrow> addr option" where
  "str_ptr h m = do { b \<leftarrow> strs m h; str_s b }"

definition STRING_new :: "'z smem_scheme \<Rightarrow> (ptr \<times> 'z smem_scheme) option" where
  "STRING_new m = do {
     (result, m) \<leftarrow> malloc_struct sizeof_STRING m;
     case result of
       None \<Rightarrow> Some (None, m)
     | Some h \<Rightarrow> do {
         (p, m) \<leftarrow> cmalloc 1 m;
         let m = set_STRING h p m;
         case p of
           Some a \<Rightarrow> do { m \<leftarrow> cwrite (a, 0) [Some 0] m; Some (Some h, m) }
         | None \<Rightarrow> do { m \<leftarrow> free_STRING h m; Some (None, m) } } }"

definition STRING_clone :: "ptr \<Rightarrow> 'z smem_scheme \<Rightarrow> (ptr \<times> 'z smem_scheme) option" where
  "STRING_clone handle m =
     (case handle of
        None \<Rightarrow> Some (None, m)
      | Some src \<Rightarrow> do {
          (result, m) \<leftarrow> malloc_struct sizeof_STRING m;
          case result of
            None \<Rightarrow> Some (None, m)
          | Some h \<Rightarrow> do {
              s \<leftarrow> str_ptr src m;
              sourceLen \<leftarrow> strlen (Chars s 0) m;
              (p, m) \<leftarrow> cmalloc (unat (sourceLen + 1)) m;
              let m = set_STRING h p m;
              case p of
                None \<Rightarrow> do { m \<leftarrow> free_STRING h m; Some (None, m) }
              | Some a \<Rightarrow> do {
                  m \<leftarrow> cmemcpy (a, 0) (Chars s 0) (unat (sourceLen + 1)) m;
                  Some (Some h, m) } } })"

definition STRING_construct ::
  "char_ptr option \<Rightarrow> 'z smem_scheme \<Rightarrow> (ptr \<times> 'z smem_scheme) option" where
  "STRING_construct psz m =
     (case psz of
        None \<Rightarrow> Some (None, m)
      | Some src \<Rightarrow> do {
          (str, m) \<leftarrow> malloc_struct sizeof_STRING m;
          case str of
            Some h \<Rightarrow> do {
              len \<leftarrow> strlen src m;
              let nLen = len + 1;
              (p, m) \<leftarrow> cmalloc (unat nLen) m;
              let m = set_STRING h p m;
              case p of
                Some a \<Rightarrow> do { m \<leftarrow> cmemcpy (a, 0) src (unat nLen) m; Some (Some h, m) }
              | None \<Rightarrow> do { m \<leftarrow> free_STRING h m; Some (None, m) } }
          | None \<Rightarrow> Some (None, m) })"

text \<open>
  \<open>vsnprintf\<close>: the format and its arguments are represented by the text they produce, or
  \<open>None\<close> for an encoding error.  It returns the length of the text, or a negative number
  on an error or when the length is not an \<open>int\<close>; at most \<open>n\<close> bytes are stored at \<open>dst\<close>,
  the last of them zero.
\<close>

definition vsnprintf_result :: "cstring option \<Rightarrow> int" where
  "vsnprintf_result txt =
     (case txt of
        None \<Rightarrow> -1
      | Some t \<Rightarrow> if length t < 2 ^ 31 then int (length t) else -1)"

definition vsnprintf ::
  "bptr \<Rightarrow> nat \<Rightarrow> cstring option \<Rightarrow> 'z mem_scheme \<Rightarrow> (int \<times> 'z mem_scheme) option" where
  "vsnprintf dst n txt m =
     (case txt of
        None \<Rightarrow> Some (vsnprintf_result txt, m)
      | Some t \<Rightarrow>
          if n = 0 then Some (vsnprintf_result txt, m)
          else do { m \<leftarrow> cwrite dst (cstr (take (n - 1) t)) m; Some (vsnprintf_result txt, m) })"

text \<open>\<open>format = None\<close> is a null format; \<open>Some txt\<close> stands for the format and its arguments.\<close>

definition STRING_construct_sprintf ::
  "cstring option option \<Rightarrow> 'z smem_scheme \<Rightarrow> (ptr \<times> 'z smem_scheme) option" where
  "STRING_construct_sprintf format m =
     (case format of
        Some txt \<Rightarrow> do {
          let len = vsnprintf_result txt;
          if len > 0 then do {
            (result, m) \<leftarrow> malloc_struct sizeof_STRING m;
            case result of
              Some h \<Rightarrow> do {
                (p, m) \<leftarrow> cmalloc (nat (len + 1)) m;
                let m = set_STRING h p m;
                case p of
                  Some a \<Rightarrow> do {
                    (r, m) \<leftarrow> vsnprintf (a, 0) (nat (len + 1)) txt m;
                    if r < 0 then do {
                      m \<leftarrow> cfree (Some a) m;
                      m \<leftarrow> free_STRING h m;
                      Some (None, m) }
                    else Some (Some h, m) }
                | None \<Rightarrow> do { m \<leftarrow> free_STRING h m; Some (None, m) } }
            | None \<Rightarrow> Some (None, m) }
          else if len = 0 then STRING_new m
          else Some (None, m) }
      | None \<Rightarrow> Some (None, m))"

text \<open>The string takes over an array the caller allocated.\<close>

definition STRING_new_with_memory :: "ptr \<Rightarrow> 'z smem_scheme \<Rightarrow> (ptr \<times> 'z smem_scheme) option" where
  "STRING_new_with_memory memory m =
     (case memory of
        None \<Rightarrow> Some (None, m)
      | Some a \<Rightarrow> do {
          (result, m) \<leftarrow> malloc_struct sizeof_STRING m;
          case result of
            Some h \<Rightarrow> Some (Some h, set_STRING h (Some a) m)
          | None \<Rightarrow> Some (None, m) })"

definition quote_char :: u8 where
  "quote_char = 0x22"

definition STRING_new_quoted ::
  "char_ptr option \<Rightarrow> 'z smem_scheme \<Rightarrow> (ptr \<times> 'z smem_scheme) option" where
  "STRING_new_quoted source m =
     (case source of
        None \<Rightarrow> Some (None, m)
      | Some src \<Rightarrow> do {
          (result, m) \<leftarrow> malloc_struct sizeof_STRING m;
          case result of
            Some h \<Rightarrow> do {
              sourceLength \<leftarrow> strlen src m;
              (p, m) \<leftarrow> cmalloc (unat (sourceLength + 3)) m;
              let m = set_STRING h p m;
              case p of
                Some a \<Rightarrow> do {
                  m \<leftarrow> cwrite (a, 0) [Some quote_char] m;
                  m \<leftarrow> cmemcpy (a, 1) src (unat sourceLength) m;
                  m \<leftarrow> cwrite (a, unat (sourceLength + 1)) [Some quote_char] m;
                  m \<leftarrow> cwrite (a, unat (sourceLength + 2)) [Some 0] m;
                  Some (Some h, m) }
              | None \<Rightarrow> do { m \<leftarrow> free_STRING h m; Some (None, m) } }
          | None \<Rightarrow> Some (None, m) })"

subsection \<open>JSON\<close>

definition hexToASCII :: "u8 list" where
  "hexToASCII = lit ''0123456789ABCDEF''"

definition backslash :: u8 where
  "backslash = 0x5C"

definition slash :: u8 where
  "slash = 0x2F"

text \<open>
  The counting loop: stops at the first character outside 1..127 with \<open>None\<close>, otherwise
  returns the numbers of control and of escaped characters.
\<close>

fun json_count :: "cstring \<Rightarrow> u32 \<Rightarrow> u32 \<Rightarrow> (u32 \<times> u32) option" where
  "json_count [] nControlCharacters nEscapeCharacters = Some (nControlCharacters, nEscapeCharacters)"
| "json_count (c # s) nControlCharacters nEscapeCharacters =
     (if c \<ge> 128 then None
      else if c \<le> 0x1F then json_count s (nControlCharacters + 1) nEscapeCharacters
      else if c = quote_char \<or> c = backslash \<or> c = slash
      then json_count s nControlCharacters (nEscapeCharacters + 1)
      else json_count s nControlCharacters nEscapeCharacters)"

text \<open>What one character of the source becomes.\<close>

definition json_char :: "u8 \<Rightarrow> u8 list" where
  "json_char c =
     (if c \<le> 0x1F then
        [backslash, 0x75, 0x30, 0x30,
         hexToASCII ! unat (drop_bit 4 (c AND 0xF0)), hexToASCII ! unat (c AND 0x0F)]
      else if c = quote_char then [backslash, quote_char]
      else if c = backslash then [backslash, backslash]
      else if c = slash then [backslash, slash]
      else [c])"

text \<open>The writing loop; \<open>pos\<close> is the next index of \<open>result->s\<close>.\<close>

fun json_write :: "cstring \<Rightarrow> addr \<Rightarrow> nat \<Rightarrow> 'z mem_scheme \<Rightarrow> (nat \<times> 'z mem_scheme) option" where
  "json_write [] a pos m = Some (pos, m)"
| "json_write (c # s) a pos m = do {
     m \<leftarrow> cwrite (a, pos) (map Some (json_char c)) m;
     json_write s a (pos + length (json_char c)) m }"

definition STRING_new_JSON ::
  "char_ptr option \<Rightarrow> 'z smem_scheme \<Rightarrow> (ptr \<times> 'z smem_scheme) option" where
  "STRING_new_JSON source m =
     (case source of
        None \<Rightarrow> Some (None, m)
      | Some src \<Rightarrow> do {
          vlen \<leftarrow> strlen src m;
          s \<leftarrow> c_string src m;
          case json_count s 0 0 of
            None \<Rightarrow> Some (None, m)
          | Some (nControlCharacters, nEscapeCharacters) \<Rightarrow> do {
              (result, m) \<leftarrow> malloc_struct sizeof_STRING m;
              case result of
                None \<Rightarrow> Some (None, m)
              | Some h \<Rightarrow> do {
                  (p, m) \<leftarrow> cmalloc (unat (vlen + 5 * nControlCharacters + nEscapeCharacters + 3)) m;
                  let m = set_STRING h p m;
                  case p of
                    None \<Rightarrow> do { m \<leftarrow> free_STRING h m; Some (None, m) }
                  | Some a \<Rightarrow> do {
                      m \<leftarrow> cwrite (a, 0) [Some quote_char] m;
                      (pos, m) \<leftarrow> json_write s a 1 m;
                      m \<leftarrow> cwrite (a, pos) [Some quote_char] m;
                      m \<leftarrow> cwrite (a, pos + 1) [Some 0] m;
                      Some (Some h, m) } } } })"

subsection \<open>Updates in place\<close>

definition STRING_concat ::
  "ptr \<Rightarrow> char_ptr option \<Rightarrow> 'z smem_scheme \<Rightarrow> (int \<times> 'z smem_scheme) option" where
  "STRING_concat handle s2 m =
     (case (handle, s2) of
        (Some h, Some src) \<Rightarrow> do {
          s \<leftarrow> str_ptr h m;
          s1Length \<leftarrow> strlen (Chars s 0) m;
          s2Length \<leftarrow> strlen src m;
          (temp, m) \<leftarrow> crealloc (Some s) (unat (s1Length + s2Length + 1)) m;
          case temp of
            None \<Rightarrow> Some (FAILURE, m)
          | Some a \<Rightarrow> do {
              m \<leftarrow> cmemcpy (a, unat s1Length) src (unat (s2Length + 1)) (set_STRING h (Some a) m);
              Some (0, m) } }
      | _ \<Rightarrow> Some (FAILURE, m))"

text \<open>\<open>src->s\<close> is read again after the \<open>realloc\<close>, as the code does.\<close>

definition STRING_concat_with_STRING ::
  "ptr \<Rightarrow> ptr \<Rightarrow> 'z smem_scheme \<Rightarrow> (int \<times> 'z smem_scheme) option" where
  "STRING_concat_with_STRING s1 s2 m =
     (case (s1, s2) of
        (Some dest, Some src) \<Rightarrow> do {
          d \<leftarrow> str_ptr dest m;
          s \<leftarrow> str_ptr src m;
          s1Length \<leftarrow> strlen (Chars d 0) m;
          s2Length \<leftarrow> strlen (Chars s 0) m;
          (temp, m) \<leftarrow> crealloc (Some d) (unat (s1Length + s2Length + 1)) m;
          case temp of
            None \<Rightarrow> Some (FAILURE, m)
          | Some a \<Rightarrow> do {
              let m = set_STRING dest (Some a) m;
              s \<leftarrow> str_ptr src m;
              m \<leftarrow> cmemcpy (a, unat s1Length) (Chars s 0) (unat (s2Length + 1)) m;
              Some (0, m) } }
      | _ \<Rightarrow> Some (FAILURE, m))"

definition STRING_copy ::
  "ptr \<Rightarrow> char_ptr option \<Rightarrow> 'z smem_scheme \<Rightarrow> (int \<times> 'z smem_scheme) option" where
  "STRING_copy handle s2 m =
     (case (handle, s2) of
        (Some h, Some src) \<Rightarrow> do {
          s \<leftarrow> str_ptr h m;
          if Chars s 0 \<noteq> src then do {
            s2Length \<leftarrow> strlen src m;
            (temp, m) \<leftarrow> crealloc (Some s) (unat (s2Length + 1)) m;
            case temp of
              None \<Rightarrow> Some (FAILURE, m)
            | Some a \<Rightarrow> do {
                m \<leftarrow> cmemmove (a, 0) src (unat (s2Length + 1)) (set_STRING h (Some a) m);
                Some (0, m) } }
          else Some (0, m) }
      | _ \<Rightarrow> Some (FAILURE, m))"

definition STRING_copy_n ::
  "ptr \<Rightarrow> char_ptr option \<Rightarrow> u32 \<Rightarrow> 'z smem_scheme \<Rightarrow> (int \<times> 'z smem_scheme) option" where
  "STRING_copy_n handle s2 n m =
     (case (handle, s2) of
        (Some h, Some src) \<Rightarrow> do {
          len \<leftarrow> strlen src m;
          let s2Length = (if len > n then n else len);
          s \<leftarrow> str_ptr h m;
          (temp, m) \<leftarrow> crealloc (Some s) (unat (s2Length + 1)) m;
          case temp of
            None \<Rightarrow> Some (FAILURE, m)
          | Some a \<Rightarrow> do {
              m \<leftarrow> cmemcpy (a, 0) src (unat s2Length) (set_STRING h (Some a) m);
              m \<leftarrow> cwrite (a, unat s2Length) [Some 0] m;
              Some (0, m) } }
      | _ \<Rightarrow> Some (FAILURE, m))"

definition STRING_sprintf ::
  "ptr \<Rightarrow> cstring option option \<Rightarrow> 'z smem_scheme \<Rightarrow> (int \<times> 'z smem_scheme) option" where
  "STRING_sprintf handle format m =
     (case (handle, format) of
        (Some h, Some txt) \<Rightarrow> do {
          let s2Length = vsnprintf_result txt;
          if s2Length < 0 then Some (FAILURE, m)
          else if s2Length = 0 then Some (0, m)
          else do {
            s \<leftarrow> str_ptr h m;
            s1Length \<leftarrow> strlen (Chars s 0) m;
            (temp, m) \<leftarrow> crealloc (Some s) (unat (s1Length + of_int s2Length + 1)) m;
            case temp of
              Some a \<Rightarrow> do {
                (r, m) \<leftarrow> vsnprintf (a, unat s1Length) (unat (s1Length + of_int s2Length + 1)) txt
                           (set_STRING h (Some a) m);
                if r < 0 then do {
                  m \<leftarrow> cwrite (a, unat s1Length) [Some 0] m;
                  Some (FAILURE, m) }
                else Some (0, m) }
            | None \<Rightarrow> Some (FAILURE, m) } }
      | _ \<Rightarrow> Some (FAILURE, m))"

definition STRING_quote :: "ptr \<Rightarrow> 'z smem_scheme \<Rightarrow> (int \<times> 'z smem_scheme) option" where
  "STRING_quote handle m =
     (case handle of
        None \<Rightarrow> Some (FAILURE, m)
      | Some h \<Rightarrow> do {
          s \<leftarrow> str_ptr h m;
          s1Length \<leftarrow> strlen (Chars s 0) m;
          (temp, m) \<leftarrow> crealloc (Some s) (unat (s1Length + 2 + 1)) m;
          case temp of
            None \<Rightarrow> Some (FAILURE, m)
          | Some a \<Rightarrow> do {
              m \<leftarrow> cmemmove (a, 1) (Chars a 0) (unat s1Length) (set_STRING h (Some a) m);
              m \<leftarrow> cwrite (a, 0) [Some quote_char] m;
              m \<leftarrow> cwrite (a, unat (s1Length + 1)) [Some quote_char] m;
              m \<leftarrow> cwrite (a, unat (s1Length + 2)) [Some 0] m;
              Some (0, m) } })"

definition STRING_empty :: "ptr \<Rightarrow> 'z smem_scheme \<Rightarrow> (int \<times> 'z smem_scheme) option" where
  "STRING_empty handle m =
     (case handle of
        None \<Rightarrow> Some (FAILURE, m)
      | Some h \<Rightarrow> do {
          b \<leftarrow> strs m h;
          (temp, m) \<leftarrow> crealloc (str_s b) 1 m;
          case temp of
            None \<Rightarrow> Some (FAILURE, m)
          | Some a \<Rightarrow> do {
              m \<leftarrow> cwrite (a, 0) [Some 0] (set_STRING h (Some a) m);
              Some (0, m) } })"

definition STRING_delete :: "ptr \<Rightarrow> 'z smem_scheme \<Rightarrow> 'z smem_scheme option" where
  "STRING_delete handle m =
     (case handle of
        None \<Rightarrow> Some m
      | Some h \<Rightarrow> do {
          b \<leftarrow> strs m h;
          m \<leftarrow> cfree (str_s b) m;
          free_STRING h (set_STRING h None m) })"

definition STRING_c_str :: "ptr \<Rightarrow> 'z smem_scheme \<Rightarrow> ptr option" where
  "STRING_c_str handle m =
     (case handle of None \<Rightarrow> Some None | Some h \<Rightarrow> do { b \<leftarrow> strs m h; Some (str_s b) })"

definition STRING_length :: "ptr \<Rightarrow> 'z smem_scheme \<Rightarrow> u32 option" where
  "STRING_length handle m =
     (case handle of
        None \<Rightarrow> Some 0
      | Some h \<Rightarrow> do { s \<leftarrow> str_ptr h m; strlen (Chars s 0) m })"

definition STRING_construct_n ::
  "char_ptr option \<Rightarrow> u32 \<Rightarrow> 'z smem_scheme \<Rightarrow> (ptr \<times> 'z smem_scheme) option" where
  "STRING_construct_n psz n m =
     (case psz of
        None \<Rightarrow> Some (None, m)
      | Some src \<Rightarrow> do {
          len \<leftarrow> strlen src m;
          if n > len then Some (None, m)
          else do {
            (str, m) \<leftarrow> malloc_struct sizeof_STRING m;
            case str of
              Some h \<Rightarrow> do {
                (p, m) \<leftarrow> cmalloc (unat (len + 1)) m;
                let m = set_STRING h p m;
                case p of
                  Some a \<Rightarrow> do {
                    m \<leftarrow> cmemcpy (a, 0) src (unat n) m;
                    m \<leftarrow> cwrite (a, unat n) [Some 0] m;
                    Some (Some h, m) }
                | None \<Rightarrow> do { m \<leftarrow> free_STRING h m; Some (None, m) } }
            | None \<Rightarrow> Some (None, m) } })"

text \<open>The sign of \<open>strcmp\<close>, which compares unsigned characters.\<close>

fun strcmp :: "cstring \<Rightarrow> cstring \<Rightarrow> int" where
  "strcmp [] [] = 0"
| "strcmp [] (_ # _) = -1"
| "strcmp (_ # _) [] = 1"
| "strcmp (c # s) (d # t) = (if c < d then -1 else if d < c then 1 else strcmp s t)"

definition STRING_compare :: "ptr \<Rightarrow> ptr \<Rightarrow> 'z smem_scheme \<Rightarrow> int option" where
  "STRING_compare s1 s2 m =
     (case (s1, s2) of
        (None, None) \<Rightarrow> Some 0
      | (None, Some _) \<Rightarrow> Some 1
      | (Some _, None) \<Rightarrow> Some (-1)
      | (Some h1, Some h2) \<Rightarrow> do {
          p1 \<leftarrow> str_ptr h1 m;
          p2 \<leftarrow> str_ptr h2 m;
          value1 \<leftarrow> c_string (Chars p1 0) m;
          value2 \<leftarrow> c_string (Chars p2 0) m;
          Some (strcmp value1 value2) })"

definition STRING_from_byte_array ::
  "bptr option \<Rightarrow> u32 \<Rightarrow> 'z smem_scheme \<Rightarrow> (ptr \<times> 'z smem_scheme) option" where
  "STRING_from_byte_array source sz m =
     (if source = None \<and> sz > 0 then Some (None, m)
      else do {
        (result, m) \<leftarrow> malloc_struct sizeof_STRING m;
        case result of
          None \<Rightarrow> Some (None, m)
        | Some h \<Rightarrow> do {
            (p, m) \<leftarrow> cmalloc (unat (sz + 1)) m;
            let m = set_STRING h p m;
            case p of
              None \<Rightarrow> do { m \<leftarrow> free_STRING h m; Some (None, m) }
            | Some a \<Rightarrow> do {
                xs \<leftarrow> (case source of None \<Rightarrow> Some [] | Some src \<Rightarrow> read_bytes src (unat sz) m);
                m \<leftarrow> cwrite (a, 0) xs m;
                m \<leftarrow> cwrite (a, unat sz) [Some 0] m;
                Some (Some h, m) } } })"

text \<open>The loop of \<open>STRING_replace\<close> over \<open>n\<close> remaining indices.\<close>

fun replace_loop :: "addr \<Rightarrow> u8 \<Rightarrow> u8 \<Rightarrow> nat \<Rightarrow> nat \<Rightarrow> 'z mem_scheme \<Rightarrow> 'z mem_scheme option" where
  "replace_loop s target replacement 0 index m = Some m"
| "replace_loop s target replacement (Suc n) index m = do {
     c \<leftarrow> cread (Chars s index) 1 m;
     m \<leftarrow> (if hd c = Some target then cwrite (s, index) [Some replacement] m else Some m);
     replace_loop s target replacement n (Suc index) m }"

definition STRING_replace :: "ptr \<Rightarrow> u8 \<Rightarrow> u8 \<Rightarrow> 'z smem_scheme \<Rightarrow> (int \<times> 'z smem_scheme) option" where
  "STRING_replace handle target replacement m =
     (case handle of
        None \<Rightarrow> Some (FAILURE, m)
      | Some h \<Rightarrow>
          if target = replacement then Some (0, m)
          else do {
            s \<leftarrow> str_ptr h m;
            len \<leftarrow> strlen (Chars s 0) m;
            m \<leftarrow> replace_loop s target replacement (unat len) 0 m;
            Some (0, m) })"

section \<open>The contract\<close>

definition str_val :: "STRING \<Rightarrow> mbyte list \<Rightarrow> cstring option" where
  "str_val _ bs = (if length bs < 2 ^ 32 then until_nul bs else None)"

definition str_vals :: "'z smem_scheme \<Rightarrow> addr \<rightharpoonup> cstring" where
  "str_vals m = own_vals str_s str_val (strs m) (chars m)"

definition str_rest :: "'z smem_scheme \<Rightarrow> addr \<rightharpoonup> mbyte list" where
  "str_rest m = own_rest str_s (strs m) (chars m)"

definition str_inv :: "'z smem_scheme \<Rightarrow> bool" where
  "str_inv m \<longleftrightarrow> wf_mem m \<and> (\<forall>h \<ge> brk m. strs m h = None) \<and> own_inv str_s str_val (strs m) (chars m)"

interpretation str_own: ownership str_s str_val "own_inv str_s str_val"
    "own_vals str_s str_val" "own_rest str_s"
  by unfold_locales simp_all

definition str_frame :: "'z smem_scheme \<Rightarrow> 'z smem_scheme \<Rightarrow> bool" where
  "str_frame m m' \<longleftrightarrow>
     grants m' = grants m \<and> blocks m' = blocks m \<and> buffers m' = buffers m \<and>
     smem.more m' = smem.more m \<and> brk m \<le> brk m'"

definition str_effect :: "'z smem_scheme \<Rightarrow> (addr \<rightharpoonup> cstring) \<Rightarrow> 'z smem_scheme \<Rightarrow> bool" where
  "str_effect m f m' \<longleftrightarrow> str_inv m' \<and> str_vals m' = f \<and> str_rest m' = str_rest m \<and> str_frame m m'"

lemma str_frame_refl [simp]: "str_frame m m"
  by (simp add: str_frame_def)

lemma str_frame_trans: "str_frame m1 m2 \<Longrightarrow> str_frame m2 m3 \<Longrightarrow> str_frame m1 m3"
  by (auto simp: str_frame_def)

lemma str_effect_refl: "str_inv m \<Longrightarrow> str_effect m (str_vals m) m"
  by (simp add: str_effect_def)

lemma str_effect_trans: "str_effect m1 f m2 \<Longrightarrow> str_effect m2 g m3 \<Longrightarrow> str_effect m1 g m3"
  by (auto simp: str_effect_def intro: str_frame_trans)

lemma str_effectD:
  assumes "str_effect m f m'"
  shows "str_inv m'" "str_vals m' = f" "str_rest m' = str_rest m" "str_frame m m'"
  using assms by (simp_all add: str_effect_def)

lemma str_inv_fresh:
  "str_inv m \<Longrightarrow> brk m \<le> a \<Longrightarrow> strs m a = None"
  "str_inv m \<Longrightarrow> brk m \<le> a \<Longrightarrow> chars m a = None"
  "str_inv m \<Longrightarrow> brk m \<le> a \<Longrightarrow> str_vals m a = None"
  by (auto simp: str_inv_def wf_mem_def str_vals_def own_vals_def)

text \<open>What a live string looks like.\<close>

lemma str_valsE:
  assumes "str_vals m h = Some s"
  obtains b a r where "strs m h = Some b" "str_s b = Some a" "chars m a = Some (cstr s @ r)"
    "0 \<notin> set s" "length s + length r < 2 ^ 32 - 1"
proof -
  from str_own.vals_SomeD [of "strs m" "chars m" h s] assms obtain b a bs where
    b: "strs m h = Some b" "str_s b = Some a" "chars m a = Some bs" "str_val b bs = Some s"
    by (auto simp: str_vals_def)
  then obtain r where "bs = cstr s @ r" "0 \<notin> set s"
    by (auto simp: str_val_def until_nul_iff cstr_def split: if_splits)
  with b show ?thesis by (intro that) (auto simp: str_val_def split: if_splits)
qed

lemma str_val_cstr: "0 \<notin> set s \<Longrightarrow> length s + length r < 2 ^ 32 - 1 \<Longrightarrow> str_val b (cstr s @ r) = Some s"
  by (simp add: str_val_def cstr_def until_nul_cstr)

lemma str_ptr_frame [simp]: "strs m h = Some b \<Longrightarrow> str_ptr h m = str_s b"
  by (simp add: str_ptr_def)

lemma c_string_of_str:
  "chars m a = Some (cstr s @ r) \<Longrightarrow> 0 \<notin> set s \<Longrightarrow> c_string (Chars a 0) m = Some s"
  by (simp add: c_string_def cstr_def until_nul_cstr)

lemma str_effect_put:
  assumes inv: "str_inv m"
    and old: "case strs m h of None \<Rightarrow> q = None | Some b \<Rightarrow> q = str_s b"
    and v: "str_val \<lparr>str_s = Some a\<rparr> bs = Some s"
    and a: "chars m a = None \<or> q = Some a"
    and lt: "h < brk m'" "a < brk m'"
    and H: "strs m' = (strs m)(h \<mapsto> \<lparr>str_s = Some a\<rparr>)"
    and A: "chars m' a = Some bs" "\<And>x. x \<noteq> a \<Longrightarrow> chars m' x = (if q = Some x then None else chars m x)"
    and fr: "str_frame m m'"
  shows "str_effect m ((str_vals m)(h \<mapsto> s)) m'"
proof -
  have own: "own_inv str_s str_val (strs m) (chars m)" using inv by (simp add: str_inv_def)
  note R = str_own.replace [OF own old _ v a H A, simplified]
  have "str_inv m'"
    unfolding str_inv_def
  proof (intro conjI allI impI)
    show "wf_mem m'"
      using inv fr lt A(2) by (auto simp: wf_mem_def str_inv_def str_frame_def)
    show "own_inv str_s str_val (strs m') (chars m')" by (rule R)
  next
    fix x assume "brk m' \<le> x"
    then show "strs m' x = None" using inv fr lt by (auto simp: H str_frame_def str_inv_def)
  qed
  with R(2,3) fr show ?thesis by (simp add: str_effect_def str_vals_def str_rest_def)
qed

lemma str_effect_delete:
  assumes inv: "str_inv m" and b: "strs m h = Some b" "str_s b = Some a"
    and H: "strs m' = (strs m)(h := None)" and A: "chars m' = (chars m)(a := None)"
    and fr: "str_frame m m'"
  shows "str_effect m ((str_vals m)(h := None)) m'"
proof -
  have own: "own_inv str_s str_val (strs m) (chars m)" using inv by (simp add: str_inv_def)
  note R = str_own.remove [OF own b H A]
  have "str_inv m'"
    using inv fr R(1) by (auto simp: str_inv_def wf_mem_def H A str_frame_def)
  with R(2,3) fr show ?thesis by (simp add: str_effect_def str_vals_def str_rest_def)
qed

lemma str_effect_count:
  assumes inv: "str_inv m" and "strs m' = strs m" "chars m' = chars m" "str_frame m m'"
  shows "str_effect m (str_vals m) m'"
  using assms by (auto simp: str_effect_def str_inv_def wf_mem_def str_vals_def str_rest_def str_frame_def)

lemma str_frame_update [simp]:
  "k \<ge> brk m \<Longrightarrow> str_frame m (m\<lparr>brk := k, chars := c, strs := bu\<rparr>)"
  "k \<ge> brk m \<Longrightarrow> str_frame m (m\<lparr>brk := k, strs := bu\<rparr>)"
  "k \<ge> brk m \<Longrightarrow> str_frame m (m\<lparr>brk := k, chars := c\<rparr>)"
  "k \<ge> brk m \<Longrightarrow> str_frame m (m\<lparr>brk := k\<rparr>)"
  "str_frame m (m\<lparr>chars := c, strs := bu\<rparr>)"
  "str_frame m (m\<lparr>chars := c\<rparr>)"
  "str_frame m (m\<lparr>strs := bu\<rparr>)"
  by (simp_all add: str_frame_def)

text \<open>A new struct at \<open>brk m\<close> with the array \<open>Suc (brk m)\<close>.\<close>

lemma str_effect_fresh:
  assumes inv: "str_inv m" and m': "brk m' = Suc (Suc (brk m))"
    "strs m' = (strs m)(brk m \<mapsto> \<lparr>str_s = Some (Suc (brk m))\<rparr>)"
    "chars m' = (chars m)(Suc (brk m) \<mapsto> cstr s @ r)"
    and s: "0 \<notin> set s" "length s + length r < 2 ^ 32 - 1" and fr: "str_frame m m'"
  shows "str_effect m ((str_vals m)(brk m \<mapsto> s)) m'"
  by (rule str_effect_put [OF inv, where a = "Suc (brk m)" and bs = "cstr s @ r" and q = None])
    (use assms in \<open>auto simp: str_inv_fresh str_val_cstr split: option.splits\<close>)

text \<open>A live string whose array moves to \<open>brk m\<close>.\<close>

lemma str_effect_moved:
  assumes inv: "str_inv m" and b: "strs m h = Some b" "str_s b = Some q"
    and m': "brk m' = Suc (brk m)" "strs m' = (strs m)(h \<mapsto> \<lparr>str_s = Some (brk m)\<rparr>)"
    "chars m' = (chars m)(q := None, brk m \<mapsto> cstr s @ r)"
    and s: "0 \<notin> set s" "length s + length r < 2 ^ 32 - 1" and fr: "str_frame m m'"
  shows "str_effect m ((str_vals m)(h \<mapsto> s)) m'"
proof -
  have "h < brk m" using inv b(1) by (metis str_inv_fresh(1) leI option.distinct(1))
  then show ?thesis
    by (intro str_effect_put [OF inv, where a = "brk m" and bs = "cstr s @ r" and q = "Some q"])
      (use assms in \<open>auto simp: str_inv_fresh str_val_cstr split: option.splits\<close>)
qed

section \<open>Every operation refines its abstract update\<close>

text \<open>A constructor's outcome: a fresh handle with value \<open>s\<close>, or null and nothing changed.\<close>

definition str_created :: "'z smem_scheme \<Rightarrow> cstring \<Rightarrow> ptr \<times> 'z smem_scheme \<Rightarrow> bool" where
  "str_created m s = (\<lambda>(r, m').
     (r = None \<and> \<not> alloc_total m \<and> str_effect m (str_vals m) m') \<or>
     (\<exists>h. r = Some h \<and> str_vals m h = None \<and> str_effect m ((str_vals m)(h \<mapsto> s)) m'))"

text \<open>An update's outcome: the handle holds \<open>s\<close>, or an error and nothing changed.\<close>

definition str_updated :: "'z smem_scheme \<Rightarrow> addr \<Rightarrow> cstring \<Rightarrow> int \<times> 'z smem_scheme \<Rightarrow> bool" where
  "str_updated m h s = (\<lambda>(r, m').
     (r \<noteq> 0 \<and> \<not> alloc_total m \<and> str_effect m (str_vals m) m') \<or>
     (r = 0 \<and> str_effect m ((str_vals m)(h \<mapsto> s)) m'))"

text \<open>The definitions that a symbolic execution of an operation unfolds.\<close>

lemmas str_exec = Let_def set_STRING_def free_STRING_def str_created_def str_updated_def alloc_total_def
  str_frame_def str_inv_fresh fun_upd_idem

lemma STRING_new_spec:
  assumes inv: "str_inv m"
  shows "ok (STRING_new m) (str_created m [])"
  using inv
  by (auto simp: STRING_new_def str_exec cstr_def write_at_def
      intro!: str_effect_fresh [OF inv, where r = "[]"] str_effect_count [OF inv])

lemma unat_Suc_u32: "n < 2 ^ 32 - 1 \<Longrightarrow> unat (of_nat n + 1 :: u32) = Suc n"
  by (simp add: unat_word_ariths)

lemma char_bytes_frame:
  "c_string p m = Some s \<Longrightarrow> (\<And>a i. p = Chars a i \<Longrightarrow> chars m' a = chars m a) \<Longrightarrow> c_string p m' = Some s"
  by (cases p) (auto simp: c_string_def)

lemma c_string_live: "c_string (Chars a i) m = Some s \<Longrightarrow> chars m a \<noteq> None"
  by (auto simp: c_string_def split: option.splits)

text \<open>\<open>src_ok m q p s\<close>: \<open>p\<close> points to the C string \<open>s\<close>, outside the array \<open>q\<close>.\<close>

definition outside :: "ptr \<Rightarrow> char_ptr \<Rightarrow> bool" where
  "outside q p \<longleftrightarrow> (\<forall>a i. p = Chars a i \<longrightarrow> q \<noteq> Some a)"

lemma outside_Literal [simp]: "outside q (Literal t)" "outside None p"
  by (simp_all add: outside_def)

lemma src_fresh:
  assumes inv: "str_inv m" and src: "c_string p m = Some s" and a: "brk m \<le> a"
  shows "\<not> overlaps (a, i) p n" "outside (Some a) p"
  using c_string_live [of _ _ m s] src str_inv_fresh(2) [OF inv a] by (cases p; force simp: outside_def)+

lemma src_kept:
  assumes inv: "str_inv m" and src: "c_string p m = Some s" and q: "outside q p"
    and "\<And>x. x < brk m \<Longrightarrow> q \<noteq> Some x \<Longrightarrow> chars m' x = chars m x"
  shows "c_string p m' = Some s"
proof (rule char_bytes_frame [OF src])
  fix a i assume p: "p = Chars a i"
  then have "a < brk m" using c_string_live [of a i m s] src str_inv_fresh(2) [OF inv, of a] by force
  then show "chars m' a = chars m a" using assms(4) q p by (simp add: outside_def)
qed

text \<open>
  A \<open>memcpy\<close> from a source that lies in an array of \<open>m\<close> other than \<open>q\<close> (the one being
  freed) to an array \<open>a\<close> allocated after \<open>m\<close>.
\<close>

lemma cread_kept:
  assumes inv: "str_inv m" and src: "c_string p m = Some s" and q: "outside q p"
    and n: "n \<le> Suc (length s)"
    and keep: "\<And>x. x < brk m \<Longrightarrow> q \<noteq> Some x \<Longrightarrow> chars m' x = chars m x"
  shows "cread p n m' = Some (take n (cstr s))"
proof -
  note K = src_kept [OF inv src q keep]
  from n consider "n \<le> length s" | "n = Suc (length s)" by linarith
  then show ?thesis
  proof cases
    case 1
    then show ?thesis using cread_c_string(1) [OF K] by (simp add: cstr_def take_map)
  next
    case 2
    then show ?thesis using cread_c_string(2) [OF K] by simp
  qed
qed

lemma cmemmove_kept:
  assumes inv: "str_inv m" and src: "c_string p m = Some s" and q: "outside q p"
    and n: "n \<le> Suc (length s)"
    and keep: "\<And>x. x < brk m \<Longrightarrow> q \<noteq> Some x \<Longrightarrow> chars m' x = chars m x"
    and a: "chars m' a = Some bs" and fits: "i + n \<le> length bs"
  shows "ok (cmemmove (a, i) p n m') Q \<longleftrightarrow>
     Q (m'\<lparr>chars := (chars m')(a \<mapsto> write_at i (take n (cstr s)) bs)\<rparr>)"
  using cread_kept [OF inv src q n keep] n a fits by (simp add: cmemmove_def)

lemma cmemcpy_kept:
  assumes inv: "str_inv m" and src: "c_string p m = Some s" and q: "outside q p"
    and n: "n \<le> Suc (length s)"
    and keep: "\<And>x. x < brk m \<Longrightarrow> q \<noteq> Some x \<Longrightarrow> chars m' x = chars m x"
    and a: "chars m' a = Some bs" "brk m \<le> a" and fits: "i + n \<le> length bs"
  shows "ok (cmemcpy (a, i) p n m') Q \<longleftrightarrow>
     Q (m'\<lparr>chars := (chars m')(a \<mapsto> write_at i (take n (cstr s)) bs)\<rparr>)"
  using cmemmove_kept [OF inv src q n keep a(1) fits] src_fresh(1) [OF inv src a(2)]
  by (simp add: cmemcpy_def)

lemma cmemcpy_moved:
  assumes "str_inv m" "c_string p m = Some s" "outside (Some q) p" "n \<le> Suc (length s)"
    and m': "chars m' = (chars m)(q := None, brk m \<mapsto> bs)" and fits: "i + n \<le> length bs"
  shows "ok (cmemcpy (brk m, i) p n m') Q \<longleftrightarrow>
      Q (m'\<lparr>chars := (chars m)(q := None, brk m \<mapsto> write_at i (take n (cstr s)) bs)\<rparr>)"
    "ok (cmemmove (brk m, i) p n m') Q \<longleftrightarrow>
      Q (m'\<lparr>chars := (chars m)(q := None, brk m \<mapsto> write_at i (take n (cstr s)) bs)\<rparr>)"
  by (subst cmemcpy_kept [OF assms(1-4)] cmemmove_kept [OF assms(1-4)]; use fits in \<open>simp add: m'\<close>)+

lemma STRING_construct_spec:
  assumes inv: "str_inv m" and src: "c_string p m = Some s" and len: "length s < 2 ^ 32 - 1"
  shows "ok (STRING_construct (Some p) m) (str_created m s)"
proof -
  note kept = src_kept [OF inv src, of None, simplified] cmemcpy_kept [OF inv src, of None, simplified]
  have z: "0 \<notin> set s" using src c_string_bytes by blast
  show ?thesis
    using inv len z
    by (auto simp: STRING_construct_def str_exec unat_Suc_u32 kept write_at_all
      intro!: str_effect_fresh [OF inv, where r = "[]"] str_effect_count [OF inv])
qed

lemma STRING_clone_spec:
  assumes inv: "str_inv m" and s: "str_vals m h = Some s"
  shows "ok (STRING_clone (Some h) m) (str_created m s)"
  using s
proof (rule str_valsE)
  fix b a r assume b: "strs m h = Some b" "str_s b = Some a" "chars m a = Some (cstr s @ r)"
    and z: "0 \<notin> set s" and len: "length s + length r < 2 ^ 32 - 1"
  have src: "c_string (Chars a 0) m = Some s" using b z by (simp add: c_string_of_str)
  note kept = src_kept [OF inv src, of None, simplified] cmemcpy_kept [OF inv src, of None, simplified]
  show ?thesis
    using inv len z b
    by (auto simp: STRING_clone_def str_exec str_ptr_def unat_Suc_u32 kept write_at_all
      intro!: str_effect_fresh [OF inv, where r = "[]"] str_effect_count [OF inv])
qed

lemma STRING_new_quoted_spec:
  assumes inv: "str_inv m" and src: "c_string p m = Some s" and len: "length s < 2 ^ 32 - 3"
  shows "ok (STRING_new_quoted (Some p) m) (str_created m (quote_char # s @ [quote_char]))"
proof -
  note kept = src_kept [OF inv src, of None, simplified] cmemcpy_kept [OF inv src, of None, simplified]
  have z: "0 \<notin> set s" using src c_string_bytes by blast
  have k: "unat (of_nat (length s) + 3 :: u32) = length s + 3"
    "unat (of_nat (length s) + 2 :: u32) = length s + 2"
    "unat (of_nat (length s) + 1 :: u32) = length s + 1"
    using len by (simp_all add: unat_word_ariths)
  have w: "write_at (length s + 2) [Some 0] (write_at (length s + 1) [Some quote_char]
      (write_at 1 (take (length s) (cstr s)) (write_at 0 [Some quote_char] (replicate (length s + 3) None))))
     = cstr (quote_char # s @ [quote_char])"
    by (simp add: write_at_def cstr_def numeral_3_eq_3)
  have "0 \<noteq> quote_char" by (simp add: quote_char_def)
  then show ?thesis
    using inv len z w k
    by (auto simp: STRING_new_quoted_def str_exec kept simp del: One_nat_def
      intro!: str_effect_fresh [OF inv, where r = "[]"] str_effect_count [OF inv])
qed

lemma write_at_resize:
  "i \<le> length s \<Longrightarrow> n = i + length xs \<Longrightarrow> write_at i xs (resize n (cstr s @ r)) = map Some (take i s) @ xs"
  by (simp add: write_at_def cstr_def resize_def take_map)

lemma STRING_concat_spec:
  assumes inv: "str_inv m" and s: "str_vals m h = Some s" and h: "strs m h = Some b"
    and src: "c_string p m = Some t" and out: "outside (str_s b) p"
    and fits: "length s + length t < 2 ^ 32 - 1"
  shows "ok (STRING_concat (Some h) (Some p) m) (str_updated m h (s @ t))"
  using s
proof (rule str_valsE)
  fix b' a r assume b': "strs m h = Some b'" "str_s b' = Some a" "chars m a = Some (cstr s @ r)"
    and z: "0 \<notin> set s" 
  have b: "str_s b = Some a" using b' h by simp
  have src1: "c_string (Chars a 0) m = Some s" using b' z by (simp add: c_string_of_str)
  have zt: "0 \<notin> set t" using src c_string_bytes by blast
  note kept = src_kept [OF inv src, of "Some a"] cmemcpy_moved [OF inv src, of a]
  have k: "unat (of_nat (length s) + of_nat (length t) + 1 :: u32) = length s + length t + 1"
    "unat (of_nat (length t) + 1 :: u32) = length t + 1"
    using fits by (simp_all add: unat_word_ariths)
  have w: "write_at (length s) (cstr t) (resize (Suc (length s + length t)) (cstr s @ r)) = cstr (s @ t)"
    by (simp add: write_at_resize) (simp add: cstr_def)
  show ?thesis
    using inv fits z zt b' b h src1 src out k
    by (auto simp: STRING_concat_def str_exec str_ptr_def kept w
      intro!: str_effect_moved [OF inv b'(1,2), where r = "[]"] str_effect_count [OF inv])
qed

definition json_text :: "cstring \<Rightarrow> cstring" where
  "json_text s = quote_char # concat (map json_char s) @ [quote_char]"

lemma length_json_char:
  "length (json_char c) = (if c \<le> 0x1F then 6 else if c = quote_char \<or> c = backslash \<or> c = slash then 2 else 1)"
  by (simp add: json_char_def)

lemma hex_nonzero: "n < 16 \<Longrightarrow> hexToASCII ! n \<noteq> 0"
proof -
  assume "n < 16"
  moreover have "\<forall>c \<in> set hexToASCII. c \<noteq> 0" "length hexToASCII = 16" by (simp_all add: hexToASCII_def lit_def)
  ultimately show ?thesis using nth_mem by metis
qed

lemma nibbles: "unat (drop_bit 4 (c AND 0xF0 :: u8)) < 16" "unat (c AND 0x0F :: u8) < 16"
proof -
  have "c AND 0x0F \<le> 0x0F" by (rule word_and_le1)
  then show "unat (c AND 0x0F :: u8) < 16" by (simp add: word_le_nat_alt)
  have "unat (drop_bit 4 x) = drop_bit 4 (unat x)" for x :: u8 by (rule unat_drop_bit_eq)
  moreover have "drop_bit 4 n = n div 16" for n :: nat by (simp add: drop_bit_eq_div)
  moreover have "unat x div 16 < 16" for x :: u8 using unat_lt_u8 [of x] by linarith
  ultimately show "unat (drop_bit 4 (c AND 0xF0 :: u8)) < 16" by metis
qed

lemma json_char_nonzero: "c \<noteq> 0 \<Longrightarrow> 0 \<notin> set (json_char c)"
  using hex_nonzero [OF nibbles(1), of c] hex_nonzero [OF nibbles(2), of c]
  by (auto simp: json_char_def backslash_def quote_char_def slash_def)

lemma json_text_nonzero: "0 \<notin> set s \<Longrightarrow> 0 \<notin> set (json_text s)"
  using json_char_nonzero by (auto simp: json_text_def quote_char_def) metis

lemma json_count_eq:
  assumes "\<forall>c \<in> set s. c < 128"
  shows "\<exists>i j. json_count s a b = Some (a + of_nat i, b + of_nat j) \<and>
     length (concat (map json_char s)) = length s + 5 * i + j \<and> i + j \<le> length s"
  using assms
proof (induction s arbitrary: a b)
  case Nil
  then show ?case by simp
next
  case (Cons c s)
  have c: "\<not> c \<ge> 128" using Cons.prems by auto
  have IH: "\<exists>i j. json_count s a b = Some (a + of_nat i, b + of_nat j) \<and>
     length (concat (map json_char s)) = length s + 5 * i + j \<and> i + j \<le> length s" for a b
    using Cons by simp
  consider "c \<le> 0x1F" | "\<not> c \<le> 0x1F" "c = quote_char \<or> c = backslash \<or> c = slash"
    | "\<not> c \<le> 0x1F" "\<not> (c = quote_char \<or> c = backslash \<or> c = slash)" by blast
  then show ?case
  proof cases
    case 1
    obtain i j where "json_count s (a + 1) b = Some (a + 1 + of_nat i, b + of_nat j)"
      "length (concat (map json_char s)) = length s + 5 * i + j" "i + j \<le> length s" using IH by blast
    with 1 c show ?thesis
      by (intro exI [of _ "Suc i"] exI [of _ j]) (simp add: length_json_char algebra_simps)
  next
    case 2
    obtain i j where "json_count s a (b + 1) = Some (a + of_nat i, b + 1 + of_nat j)"
      "length (concat (map json_char s)) = length s + 5 * i + j" "i + j \<le> length s" using IH by blast
    with 2 c show ?thesis
      by (intro exI [of _ i] exI [of _ "Suc j"]) (simp add: length_json_char algebra_simps)
  next
    case 3
    obtain i j where "json_count s a b = Some (a + of_nat i, b + of_nat j)"
      "length (concat (map json_char s)) = length s + 5 * i + j" "i + j \<le> length s" using IH by blast
    with 3 c show ?thesis
      by (intro exI [of _ i] exI [of _ j]) (simp add: length_json_char algebra_simps)
  qed
qed

lemma json_count_invalid: "c \<in> set s \<Longrightarrow> c \<ge> 128 \<Longrightarrow> json_count s a b = None"
  by (induction s arbitrary: a b) auto

lemma json_write_spec:
  assumes "chars m a = Some bs" "pos + length (concat (map json_char s)) \<le> length bs"
  shows "json_write s a pos m = Some (pos + length (concat (map json_char s)),
     m\<lparr>chars := (chars m)(a \<mapsto> write_at pos (map Some (concat (map json_char s))) bs)\<rparr>)"
  using assms
proof (induction s arbitrary: pos m bs)
  case Nil
  then show ?case by (simp add: fun_upd_idem)
next
  case (Cons c s)
  let ?bs = "write_at pos (map Some (json_char c)) bs"
  let ?m = "m\<lparr>chars := (chars m)(a \<mapsto> ?bs)\<rparr>"
  have "write_at (pos + length (json_char c)) (map Some (concat (map json_char s))) ?bs =
      write_at pos (map Some (concat (map json_char (c # s)))) bs"
    using Cons.prems by (simp add: write_at_def ac_simps)
  then show ?case
    using Cons.prems Cons.IH [of ?m ?bs "pos + length (json_char c)"]
    by (simp add: add.assoc cong: if_cong)
qed

lemma STRING_new_JSON_spec:
  assumes inv: "str_inv m" and src: "c_string p m = Some s" and ascii: "\<forall>c \<in> set s. c < 128"
    and fits: "6 * length s < 2 ^ 32 - 3"
  shows "ok (STRING_new_JSON (Some p) m) (str_created m (json_text s))"
proof -
  have z: "0 \<notin> set (json_text s)" using src c_string_bytes json_text_nonzero by metis
  obtain i j where C: "json_count s 0 0 = Some (of_nat i, of_nat j)"
    "length (concat (map json_char s)) = length s + 5 * i + j" "i + j \<le> length s"
    using json_count_eq [OF ascii, of 0 0] by auto
  define n where "n = length (concat (map json_char s))"
  have sz: "unat (of_nat (length s) + 5 * of_nat i + of_nat j + 3 :: u32) = n + 3"
  proof -
    have "of_nat (length s) + 5 * of_nat i + of_nat j + 3 = (of_nat (n + 3) :: u32)" by (simp add: n_def C)
    then show ?thesis using C fits by (simp add: n_def del: of_nat_add)
  qed
  have w: "write_at (Suc (Suc n)) [Some 0] (write_at (Suc n) [Some quote_char]
      (write_at (Suc 0) (map Some (concat (map json_char s))) (write_at 0 [Some quote_char] (replicate (n + 3) None))))
     = cstr (json_text s)"
    by (simp add: write_at_def json_text_def cstr_def n_def numeral_3_eq_3)
  have l: "length (json_text s) < 2 ^ 32 - 1" using C fits by (simp add: json_text_def)
  show ?thesis
    using inv z l src C(1) w
    by (auto simp: STRING_new_JSON_def str_exec sz json_write_spec simp flip: n_def
      intro!: str_effect_fresh [OF inv, where r = "[]"] str_effect_count [OF inv])
qed

lemma STRING_new_JSON_invalid:
  assumes src: "c_string p m = Some s" and c: "c \<in> set s" "c \<ge> 128"
  shows "STRING_new_JSON (Some p) m = Some (None, m)"
  using src json_count_invalid [OF c] by (simp add: STRING_new_JSON_def)

lemma strcmp_0: "strcmp s t = 0 \<longleftrightarrow> s = t"
  by (induction s t rule: strcmp.induct) auto

lemma strcmp_swap: "strcmp t s = - strcmp s t"
  by (induction s t rule: strcmp.induct) auto

lemma STRING_compare_spec:
  assumes "str_vals m h = Some s" "str_vals m g = Some t"
  shows "STRING_compare (Some h) (Some g) m = Some (strcmp s t)"
proof -
  obtain b a r where "strs m h = Some b" "str_s b = Some a" "chars m a = Some (cstr s @ r)" "0 \<notin> set s"
    using assms(1) by (rule str_valsE)
  moreover obtain c q u where "strs m g = Some c" "str_s c = Some q" "chars m q = Some (cstr t @ u)" "0 \<notin> set t"
    using assms(2) by (rule str_valsE)
  ultimately show ?thesis by (simp add: STRING_compare_def str_ptr_def c_string_of_str)
qed

text \<open>Replacing by zero cuts the string at the first occurrence.\<close>

definition replaced :: "u8 \<Rightarrow> u8 \<Rightarrow> cstring \<Rightarrow> cstring" where
  "replaced target replacement s =
     (if replacement = 0 then takeWhile (\<lambda>c. c \<noteq> target) s
      else map (\<lambda>c. if c = target then replacement else c) s)"

lemma replace_loop_spec:
  assumes "chars m a = Some (map Some (u @ s) @ r)"
  shows "replace_loop a t d (length s) (length u) m =
    Some (m\<lparr>chars := (chars m)(a \<mapsto> map Some (u @ map (\<lambda>c. if c = t then d else c) s) @ r)\<rparr>)"
  using assms
proof (induction s arbitrary: u m)
  case Nil
  then show ?case by (simp add: fun_upd_idem)
next
  case (Cons c s)
  let ?c = "if c = t then d else c"
  let ?m = "m\<lparr>chars := (chars m)(a \<mapsto> map Some ((u @ [?c]) @ s) @ r)\<rparr>"
  have hd: "cread (Chars a (length u)) (Suc 0) m = Some [Some c]"
    using Cons.prems by (simp add: cread_def)
  have w: "write_at (length u) [Some d] (map Some u @ Some c # map Some s @ r) = map Some u @ Some d # map Some s @ r"
    by (simp add: write_at_def)
  have st: "(if hd [Some c] = Some t then cwrite (a, length u) [Some d] m else Some m) = Some ?m"
    using Cons.prems w by (auto simp: fun_upd_idem)
  show ?case
    using Cons.IH [of ?m "u @ [?c]"] hd st by (simp cong: if_cong)
qed

lemma STRING_replace_spec:
  assumes inv: "str_inv m" and s: "str_vals m h = Some s"
  shows "ok (STRING_replace (Some h) target replacement m) (\<lambda>(r, m').
     r = 0 \<and> str_effect m ((str_vals m)(h \<mapsto> replaced target replacement s)) m')"
proof (cases "target = replacement")
  case True
  have "replaced target replacement s = s"
  proof -
    have "0 \<notin> set s" using s by (rule str_valsE)
    then show ?thesis using True by (auto simp: replaced_def takeWhile_eq_all_conv intro!: map_idI)
  qed
  with True s show ?thesis using str_effect_refl [OF inv] by (simp add: STRING_replace_def fun_upd_idem)
next
  case False
  from s show ?thesis
  proof (rule str_valsE)
    fix b a r assume b: "strs m h = Some b" "str_s b = Some a" "chars m a = Some (cstr s @ r)"
      and z: "0 \<notin> set s" and len: "length s + length r < 2 ^ 32 - 1"
    let ?s = "map (\<lambda>c. if c = target then replacement else c) s"
    have src: "c_string (Chars a 0) m = Some s" using b z by (simp add: c_string_of_str)
    have a: "a < brk m" "h < brk m"
      using b(1,3) str_inv_fresh(1) [OF inv, of h] str_inv_fresh(2) [OF inv, of a] by (force simp: not_less [symmetric])+
    have v: "str_val \<lparr>str_s = Some a\<rparr> (map Some ?s @ Some 0 # r) = Some (replaced target replacement s)"
    proof (cases "replacement = 0")
      case True
      have "until_nul (map Some ?s @ Some 0 # r) = Some (takeWhile (\<lambda>c. c \<noteq> target) s)"
        using z unfolding True by (induction s) auto
      then show ?thesis using True len by (simp add: str_val_def replaced_def)
    next
      case rF: False
      then have "0 \<notin> set ?s" using z by auto
      then have "until_nul (map Some ?s @ Some 0 # r) = Some ?s" by (rule until_nul_cstr)
      then show ?thesis using rF len by (simp add: str_val_def replaced_def)
    qed
    let ?m = "m\<lparr>chars := (chars m)(a \<mapsto> map Some ?s @ Some 0 # r)\<rparr>"
    have "str_effect m ((str_vals m)(h \<mapsto> replaced target replacement s)) ?m"
      by (rule str_effect_put [OF inv, where a = a and q = "Some a", OF _ v]) (use a b in \<open>auto simp: fun_upd_idem\<close>)
    then show ?thesis
      using False b src len replace_loop_spec [of m a "[]" s "Some 0 # r" target replacement]
      by (simp add: STRING_replace_def str_ptr_def cstr_def)
  qed
qed

lemma STRING_concat_with_STRING_spec:
  assumes inv: "str_inv m" and s: "str_vals m h = Some s" and t: "str_vals m g = Some t" and ne: "g \<noteq> h"
    and fits: "length s + length t < 2 ^ 32 - 1"
  shows "ok (STRING_concat_with_STRING (Some h) (Some g) m) (str_updated m h (s @ t))"
proof -
  obtain b a r where b: "strs m h = Some b" "str_s b = Some a" "chars m a = Some (cstr s @ r)" and z: "0 \<notin> set s"
    using s by (rule str_valsE)
  obtain c q u where c: "strs m g = Some c" "str_s c = Some q" "chars m q = Some (cstr t @ u)" and zt: "0 \<notin> set t"
    using t by (rule str_valsE)
  have src1: "c_string (Chars a 0) m = Some s" using b z by (simp add: c_string_of_str)
  have src: "c_string (Chars q 0) m = Some t" using c zt by (simp add: c_string_of_str)
  have "q \<noteq> a" using str_own.inj [of "strs m" "chars m" g c h b q] inv b c ne by (auto simp: str_inv_def)
  then have out: "outside (Some a) (Chars q 0)" by (simp add: outside_def)
  note kept = cmemcpy_moved [OF inv src, of a]
  have k: "unat (of_nat (length s) + of_nat (length t) + 1 :: u32) = length s + length t + 1"
    "unat (of_nat (length t) + 1 :: u32) = length t + 1"
    using fits by (simp_all add: unat_word_ariths)
  have w: "write_at (length s) (cstr t) (resize (Suc (length s + length t)) (cstr s @ r)) = cstr (s @ t)"
    by (simp add: write_at_resize) (simp add: cstr_def)
  show ?thesis
    using inv fits z zt b c src1 src out k ne
    by (auto simp: STRING_concat_with_STRING_def str_exec str_ptr_def kept w
      intro!: str_effect_moved [OF inv b(1,2), where r = "[]"] str_effect_count [OF inv])
qed

text \<open>
  The code accepts the same handle twice; the copy then overlaps its source, whose
  terminating zero is overwritten by the first byte copied: \<open>memcpy\<close> is undefined there.
\<close>

lemma STRING_concat_with_STRING_self:
  assumes s: "str_vals m h = Some s" and fits: "length s + length s < 2 ^ 32 - 1" and grant: "alloc_total m"
  shows "STRING_concat_with_STRING (Some h) (Some h) m = None"
  using s
proof (rule str_valsE)
  fix b a r assume b: "strs m h = Some b" "str_s b = Some a" "chars m a = Some (cstr s @ r)" and z: "0 \<notin> set s"
  have src1: "c_string (Chars a 0) m = Some s" using b z by (simp add: c_string_of_str)
  have k: "unat (of_nat (length s) + of_nat (length s) + 1 :: u32) = length s + length s + 1"
    "unat (of_nat (length s) + 1 :: u32) = length s + 1"
    using fits by (simp_all add: unat_word_ariths)
  show ?thesis
    using b src1 k grant fits
    by (simp add: STRING_concat_with_STRING_def str_ptr_def crealloc_def set_STRING_def cmemcpy_def alloc_total_def)
qed

lemma STRING_copy_spec:
  assumes inv: "str_inv m" and s: "str_vals m h = Some s" and h: "strs m h = Some b"
    and src: "c_string p m = Some t" and out: "outside (str_s b) p" and fits: "length t < 2 ^ 32 - 1"
  shows "ok (STRING_copy (Some h) (Some p) m) (str_updated m h t)"
  using s
proof (rule str_valsE)
  fix b' a r assume b': "strs m h = Some b'" "str_s b' = Some a" "chars m a = Some (cstr s @ r)"
  have b: "str_s b = Some a" using b' h by simp
  have zt: "0 \<notin> set t" using src c_string_bytes by blast
  have ne: "Chars a 0 \<noteq> p" using out b by (auto simp: outside_def)
  note kept = cmemcpy_moved [OF inv src, of a]
  have w: "write_at 0 (cstr t) (resize (Suc (length t)) bs) = cstr t" for bs
    by (simp add: write_at_all)
  show ?thesis
    using inv fits zt b' b h src out ne
    by (auto simp: STRING_copy_def str_exec str_ptr_def unat_Suc_u32 kept w
      intro!: str_effect_moved [OF inv b'(1,2), where r = "[]"] str_effect_count [OF inv])
qed

text \<open>Copying a string onto itself does nothing.\<close>

lemma STRING_copy_self:
  "strs m h = Some b \<Longrightarrow> str_s b = Some a \<Longrightarrow> STRING_copy (Some h) (Some (Chars a 0)) m = Some (0, m)"
  by (simp add: STRING_copy_def str_ptr_def)

lemma write_at_terminate:
  "length bs = Suc (length xs) \<Longrightarrow> write_at (length xs) [z] (write_at 0 xs bs) = xs @ [z]"
  by (simp add: write_at_def)

lemma STRING_copy_n_spec:
  assumes inv: "str_inv m" and s: "str_vals m h = Some s" and h: "strs m h = Some b"
    and src: "c_string p m = Some t" and out: "outside (str_s b) p" and fits: "length t < 2 ^ 32 - 1"
  shows "ok (STRING_copy_n (Some h) (Some p) n m) (str_updated m h (take (unat n) t))"
  using s
proof (rule str_valsE)
  fix b' a r assume b': "strs m h = Some b'" "str_s b' = Some a" "chars m a = Some (cstr s @ r)"
  have b: "str_s b = Some a" using b' h by simp
  have zt: "0 \<notin> set t" using src c_string_bytes by blast
  note kept = cmemcpy_moved [OF inv src, of a]
  define k where "k = min (unat n) (length t)"
  define l where "l = (if of_nat (length t) > n then n else of_nat (length t))"
  have lt: "n < of_nat (length t) \<longleftrightarrow> unat n < length t"
    using fits by (simp add: word_less_nat_alt)
  have uk: "unat l = k" using fits by (auto simp: l_def k_def lt)
  have "unat l < 2 ^ 32 - 1" using fits uk by (simp add: k_def)
  then have uk': "unat (l + 1) = Suc k" using unat_Suc_u32 [of "unat l", unfolded of_nat_unat_u32] uk by simp
  have le: "k \<le> Suc (length t)" by (simp add: k_def)
  have tk: "take k (cstr t) = map Some (take (unat n) t)" "length (take k (cstr t)) = k"
    using le by (auto simp: cstr_def k_def take_map min_def)
  have w: "write_at k [Some 0] (write_at 0 (take k (cstr t)) (resize (Suc k) bs)) = cstr (take (unat n) t)" for bs
    using write_at_terminate [of "resize (Suc k) bs" "take k (cstr t)" "Some 0"] tk by (simp add: cstr_def)
  have z: "0 \<notin> set (take (unat n) t)" using zt by (meson in_set_takeD)
  show ?thesis
    using inv fits zt z b' b h src out le
    by (auto simp: STRING_copy_n_def str_exec str_ptr_def uk uk' kept w simp flip: l_def
      intro!: str_effect_moved [OF inv b'(1,2), where r = "[]"] str_effect_count [OF inv])
qed

lemma STRING_empty_spec:
  assumes inv: "str_inv m" and s: "str_vals m h = Some s"
  shows "ok (STRING_empty (Some h) m) (str_updated m h [])"
  using s
proof (rule str_valsE)
  fix b a r assume b: "strs m h = Some b" "str_s b = Some a" "chars m a = Some (cstr s @ r)"
  have w: "write_at 0 [Some 0] (resize (Suc 0) bs) = cstr []" for bs
    by (simp add: write_at_all cstr_def)
  show ?thesis
    using inv b w
    by (auto simp: STRING_empty_def str_exec
      intro!: str_effect_moved [OF inv b(1,2), where r = "[]"] str_effect_count [OF inv])
qed

lemma STRING_delete_spec:
  assumes inv: "str_inv m" and s: "str_vals m h = Some s"
  shows "ok (STRING_delete (Some h) m) (str_effect m ((str_vals m)(h := None)))"
  using s
proof (rule str_valsE)
  fix b a r assume b: "strs m h = Some b" "str_s b = Some a" "chars m a = Some (cstr s @ r)"
  show ?thesis
    using b by (auto simp: STRING_delete_def str_exec intro!: str_effect_delete [OF inv b(1,2)])
qed

lemma STRING_delete_NULL [simp]: "STRING_delete None m = Some m"
  by (simp add: STRING_delete_def)

lemma STRING_c_str_spec:
  assumes s: "str_vals m h = Some s"
  shows "ok (STRING_c_str (Some h) m) (\<lambda>p. \<exists>a. p = Some a \<and> c_string (Chars a 0) m = Some s)"
  using s by (rule str_valsE) (simp add: STRING_c_str_def c_string_of_str)

lemma STRING_length_spec:
  assumes s: "str_vals m h = Some s"
  shows "STRING_length (Some h) m = Some (of_nat (length s))"
  using s by (rule str_valsE) (simp add: STRING_length_def c_string_of_str str_ptr_def)

lemma STRING_construct_n_spec:
  assumes inv: "str_inv m" and src: "c_string p m = Some s" and len: "length s < 2 ^ 32 - 1"
    and n: "unat n \<le> length s"
  shows "ok (STRING_construct_n (Some p) n m) (str_created m (take (unat n) s))"
proof -
  note kept = src_kept [OF inv src, of None, simplified] cmemcpy_kept [OF inv src, of None, simplified]
  have z: "0 \<notin> set (take (unat n) s)" using src c_string_bytes in_set_takeD by metis
  have nn: "\<not> n > of_nat (length s)" using n len by (simp add: word_less_nat_alt unat_of_nat take_bit_nat_eq_self)
  have w: "write_at (unat n) [Some 0] (write_at 0 (take (unat n) (cstr s)) (replicate (Suc (length s)) None)) =
     cstr (take (unat n) s) @ replicate (length s - unat n) None"
    using n by (simp add: write_at_def cstr_def take_map)
  show ?thesis
    using inv len z n nn src
    by (auto simp: STRING_construct_n_def str_exec unat_Suc_u32 kept w simp del: replicate_Suc
      intro!: str_effect_fresh [OF inv, where r = "replicate (length s - unat n) None"] str_effect_count [OF inv])
qed

lemma STRING_construct_n_too_long:
  assumes src: "c_string p m = Some s" and len: "length s < 2 ^ 32 - 1" and n: "unat n > length s"
  shows "STRING_construct_n (Some p) n m = Some (None, m)"
  using assms by (simp add: STRING_construct_n_def word_less_nat_alt unat_of_nat take_bit_nat_eq_self)

lemma STRING_from_byte_array_spec:
  assumes inv: "str_inv m" and src: "read_bytes q (unat n) m = Some (map Some s)" and z: "0 \<notin> set s"
    and n: "unat n < 2 ^ 32 - 1"
  shows "ok (STRING_from_byte_array (Some q) n m) (str_created m s)"
proof -
  have len: "length s = unat n" using read_bytes_len [OF src] by simp
  have rd: "read_bytes q (unat n) m' = Some (map Some s)" if "blocks m' = blocks m" for m' :: "'a smem_scheme"
    using src that by (simp add: read_bytes_def)
  have k: "unat (n + 1) = Suc (unat n)" using n unat_Suc_u32 [of "unat n"] by simp
  have w: "write_at (unat n) [Some 0] (write_at 0 (map Some s) (replicate (Suc (unat n)) None)) = cstr s"
    by (simp add: write_at_def cstr_def flip: len)
  show ?thesis
    using inv z n k
    by (auto simp: STRING_from_byte_array_def str_exec rd w len simp del: replicate_Suc
      intro!: str_effect_fresh [OF inv, where r = "[]"] str_effect_count [OF inv])
qed

lemma STRING_quote_spec:
  assumes inv: "str_inv m" and s: "str_vals m h = Some s" and fits: "length s < 2 ^ 32 - 3"
  shows "ok (STRING_quote (Some h) m) (str_updated m h (quote_char # s @ [quote_char]))"
  using s
proof (rule str_valsE)
  fix b a r assume b: "strs m h = Some b" "str_s b = Some a" "chars m a = Some (cstr s @ r)" and z: "0 \<notin> set s"
  have src1: "c_string (Chars a 0) m = Some s" using b z by (simp add: c_string_of_str)
  have k: "unat (3 + of_nat (length s) :: u32) = length s + 3"
    "unat (of_nat (length s) + 2 :: u32) = Suc (Suc (length s))"
    "unat (of_nat (length s) + 1 :: u32) = length s + 1" "unat (of_nat (length s) :: u32) = length s"
    using fits by (simp_all add: unat_word_ariths)
  have rd: "ok (cmemmove (q, i) (Chars q 0) (length s) m') Q \<longleftrightarrow>
      Q (m'\<lparr>chars := (chars m')(q \<mapsto> write_at i (map Some s) (resize n (cstr s @ r)))\<rparr>)"
    if "chars m' q = Some (resize n (cstr s @ r))" "length s + i \<le> n" for q i n Q and m' :: "'a smem_scheme"
    using that by (simp add: cmemmove_def cread_def) (simp add: resize_def cstr_def)
  have w: "write_at (Suc (Suc (length s))) [Some 0] (write_at (length s + 1) [Some quote_char]
      (write_at 0 [Some quote_char] (write_at 1 (map Some s) (resize (length s + 3) (cstr s @ r)))))
     = cstr (quote_char # s @ [quote_char])"
    by (simp add: write_at_def cstr_def resize_def numeral_3_eq_3)
  have "0 \<noteq> quote_char" by (simp add: quote_char_def)
  then show ?thesis
    using inv b z src1 fits
    by (auto simp: STRING_quote_def str_exec k rd w simp del: One_nat_def
      intro!: str_effect_moved [OF inv b(1,2), where r = "[]"] str_effect_count [OF inv])
qed

lemma ok_vsnprintf:
  assumes "length t < 2 ^ 31" "length t < n" "chars m a = Some bs" "i + length t < length bs"
  shows "ok (vsnprintf (a, i) n (Some t) m) Q \<longleftrightarrow>
    Q (int (length t), m\<lparr>chars := (chars m)(a \<mapsto> write_at i (cstr t) bs)\<rparr>)"
  using assms by (simp add: vsnprintf_def vsnprintf_result_def)

lemma STRING_sprintf_spec:
  assumes inv: "str_inv m" and s: "str_vals m h = Some s"
    and t: "length t < 2 ^ 31" "0 \<notin> set t" and fits: "length s + length t < 2 ^ 32 - 1"
  shows "ok (STRING_sprintf (Some h) (Some (Some t)) m) (str_updated m h (s @ t))"
proof (cases "t = []")
  case True
  then show ?thesis
    using s str_effect_refl [OF inv]
    by (simp add: STRING_sprintf_def vsnprintf_result_def str_updated_def fun_upd_idem)
next
  case False
  from s show ?thesis
  proof (rule str_valsE)
    fix b a r assume b: "strs m h = Some b" "str_s b = Some a" "chars m a = Some (cstr s @ r)" and z: "0 \<notin> set s"
    have src1: "c_string (Chars a 0) m = Some s" using b z by (simp add: c_string_of_str)
    have k: "unat (of_nat (length s) + of_nat (length t) + 1 :: u32) = Suc (length s + length t)"
      using fits by (simp add: unat_word_ariths)
    have l: "unat (of_nat (length s) :: u32) = length s" using fits by simp
    have w: "write_at (length s) (cstr t) (resize (Suc (length s + length t)) (cstr s @ r)) = cstr (s @ t)"
      by (simp add: write_at_resize) (simp add: cstr_def)
    have v: "vsnprintf_result (Some t) = int (length t)" using t by (simp add: vsnprintf_result_def)
    show ?thesis
      using inv b z t src1 False fits
      by (auto simp: STRING_sprintf_def str_exec v k l w ok_vsnprintf
        intro!: str_effect_moved [OF inv b(1,2), where r = "[]"] str_effect_count [OF inv])
  qed
qed

lemma STRING_construct_sprintf_spec:
  assumes inv: "str_inv m" and t: "length t < 2 ^ 31 - 1" "0 \<notin> set t"
  shows "ok (STRING_construct_sprintf (Some (Some t)) m) (str_created m t)"
proof (cases "t = []")
  case True
  then show ?thesis
    using STRING_new_spec [OF inv] by (simp add: STRING_construct_sprintf_def vsnprintf_result_def)
next
  case False
  have v: "vsnprintf_result (Some t) = int (length t)" using t by (simp add: vsnprintf_result_def)
  have k: "nat (int (length t) + 1) = Suc (length t)" by simp
  show ?thesis
    using inv t False
    by (auto simp: STRING_construct_sprintf_def str_exec v k write_at_all ok_vsnprintf
      intro!: str_effect_fresh [OF inv, where r = "[]"] str_effect_count [OF inv])
qed

text \<open>The string takes over a foreign array, which leaves \<open>str_rest\<close>.\<close>

lemma STRING_new_with_memory_spec:
  assumes inv: "str_inv m" and a: "str_rest m a = Some (cstr s @ r)" and z: "0 \<notin> set s"
    and fits: "length s + length r < 2 ^ 32 - 1"
  shows "ok (STRING_new_with_memory (Some a) m) (\<lambda>(p, m').
    (p = None \<and> \<not> alloc_total m \<and> str_effect m (str_vals m) m') \<or>
    (\<exists>h. p = Some h \<and> str_vals m h = None \<and> str_inv m' \<and> str_frame m m' \<and>
       str_vals m' = (str_vals m)(h \<mapsto> s) \<and> str_rest m' = (str_rest m)(a := None)))"
proof -
  have fo: "strs m h = Some b \<Longrightarrow> str_s b \<noteq> Some a" for h b
    using a by (auto simp: str_rest_def own_rest_def split: if_splits)
  have ca: "chars m a = Some (cstr s @ r)" using a by (simp add: str_rest_def own_rest_def split: if_splits)
  define m' where "m' = set_STRING (brk m) (Some a) (m\<lparr>brk := Suc (brk m)\<rparr>)"
  have S: "strs m' = (strs m)(brk m \<mapsto> \<lparr>str_s = Some a\<rparr>)" "chars m' = chars m" "brk m' = Suc (brk m)"
    "blocks m' = blocks m"
    by (simp_all add: m'_def set_STRING_def)
  have nN: "strs m (brk m) = None" using inv by (simp add: str_inv_fresh)
  have own: "own_inv str_s str_val (strs m) (chars m)" using inv by (simp add: str_inv_def)
  have vals: "str_vals m' = (str_vals m)(brk m \<mapsto> s)"
    using S ca str_val_cstr [OF z fits]
    by (auto simp: str_vals_def own_vals_def array_of_def fun_eq_iff)
  have "own_inv str_s str_val (strs m') (chars m')"
  proof (rule str_own.invI)
    fix h b assume "strs m' h = Some b"
    then show "\<exists>q bs. str_s b = Some q \<and> chars m' q = Some bs \<and> str_val b bs \<noteq> None"
      using str_own.valid [OF own, of h b] ca str_val_cstr [OF z fits] by (cases "h = brk m") (auto simp: S)
  next
    fix x y c d q assume "strs m' x = Some c" "strs m' y = Some d" "str_s c = Some q" "str_s d = Some q"
    then show "x = y"
      using str_own.inj [OF own, of x c y d q] fo by (cases "x = brk m"; cases "y = brk m") (auto simp: S)
  qed
  then have "str_inv m'" using inv by (auto simp: str_inv_def wf_mem_def S)
  moreover have "str_rest m' = (str_rest m)(a := None)"
  proof
    fix x
    have "(\<exists>h b. strs m' h = Some b \<and> str_s b = Some x) \<longleftrightarrow> x = a \<or> (\<exists>h b. strs m h = Some b \<and> str_s b = Some x)"
    proof
      assume "x = a \<or> (\<exists>h b. strs m h = Some b \<and> str_s b = Some x)"
      then show "\<exists>h b. strs m' h = Some b \<and> str_s b = Some x"
      proof
        assume "x = a"
        then show ?thesis by (intro exI [of _ "brk m"]) (simp add: S)
      next
        assume "\<exists>h b. strs m h = Some b \<and> str_s b = Some x"
        then obtain h b where "strs m h = Some b" "str_s b = Some x" by blast
        then show ?thesis using nN by (intro exI [of _ h]) (auto simp: S)
      qed
    qed (auto simp: S split: if_splits)
    then show "str_rest m' x = ((str_rest m)(a := None)) x" by (simp add: str_rest_def own_rest_def S)
  qed
  moreover have "str_frame m m'" by (simp add: m'_def set_STRING_def str_frame_def)
  ultimately show ?thesis
    using vals str_inv_fresh(3) [OF inv, of "brk m"] str_effect_count [OF inv, of "m\<lparr>brk := Suc (brk m)\<rparr>"]
    by (auto simp: STRING_new_with_memory_def alloc_total_def simp flip: m'_def)
qed

end
