(* ===== verification/Effects.thy ===== *)
theory Effects
  imports Strings
begin

text \<open>
  The heap effects of the code that uses both byte buffers and strings: the invariant of
  both, and a frame that names the one string (the trace log) that may change.  External
  C strings and byte arrays, which neither a string nor a buffer owns, are read through
  \<open>ext_string\<close> and \<open>ext_bytes\<close>, which no effect changes.
\<close>

definition heap_inv :: "'z smem_scheme \<Rightarrow> bool" where
  "heap_inv m \<longleftrightarrow> buf_inv m \<and> str_inv m"

text \<open>Only the string \<open>t\<close> may have another value, and it stays live.\<close>

definition only_string :: "ptr \<Rightarrow> (addr \<rightharpoonup> cstring) \<Rightarrow> (addr \<rightharpoonup> cstring) \<Rightarrow> bool" where
  "only_string t g g' \<longleftrightarrow> (\<forall>x. g' x = g x \<or> (t = Some x \<and> g x \<noteq> None \<and> g' x \<noteq> None))"

definition heap_frame :: "'z smem_scheme \<Rightarrow> 'z smem_scheme \<Rightarrow> bool" where
  "heap_frame m m' \<longleftrightarrow>
     grants m' = grants m \<and> smem.more m' = smem.more m \<and> brk m \<le> brk m' \<and>
     foreign m' = foreign m \<and> str_rest m' = str_rest m"

definition heap_effect ::
  "'z smem_scheme \<Rightarrow> (addr \<rightharpoonup> mbyte list) \<Rightarrow> (addr \<rightharpoonup> cstring) \<Rightarrow> 'z smem_scheme \<Rightarrow> bool"
where
  "heap_effect m f g m' \<longleftrightarrow> heap_inv m' \<and> buf_bytes m' = f \<and> str_vals m' = g \<and> heap_frame m m'"

definition enc_effect :: "ptr \<Rightarrow> 'z smem_scheme \<Rightarrow> (addr \<rightharpoonup> mbyte list) \<Rightarrow> 'z smem_scheme \<Rightarrow> bool" where
  "enc_effect t m f m' \<longleftrightarrow>
     heap_inv m' \<and> buf_bytes m' = f \<and> only_string t (str_vals m) (str_vals m') \<and> heap_frame m m'"

lemma heap_frame_refl [simp]: "heap_frame m m"
  by (simp add: heap_frame_def)

lemma heap_frame_trans: "heap_frame m1 m2 \<Longrightarrow> heap_frame m2 m3 \<Longrightarrow> heap_frame m1 m3"
  by (auto simp: heap_frame_def)

lemma heap_frame_alloc_total: "heap_frame m m' \<Longrightarrow> alloc_total m' \<longleftrightarrow> alloc_total m"
  by (simp add: heap_frame_def alloc_total_def)

lemma only_string_refl [simp]: "only_string t g g"
  by (simp add: only_string_def)

lemma only_string_trans: "only_string t g1 g2 \<Longrightarrow> only_string t g2 g3 \<Longrightarrow> only_string t g1 g3"
  unfolding only_string_def by metis

lemma only_string_NULL [simp]: "only_string None g g' \<longleftrightarrow> g' = g"
  by (auto simp: only_string_def)

lemma only_string_upd: "g h \<noteq> None \<Longrightarrow> only_string (Some h) g (g(h \<mapsto> s))"
  by (simp add: only_string_def)

lemma heap_effect_refl: "heap_inv m \<Longrightarrow> heap_effect m (buf_bytes m) (str_vals m) m"
  by (simp add: heap_effect_def)

lemma heap_effect_trans: "heap_effect m1 f g m2 \<Longrightarrow> heap_effect m2 f' g' m3 \<Longrightarrow> heap_effect m1 f' g' m3"
  by (auto simp: heap_effect_def intro: heap_frame_trans)

lemma heap_effectD:
  assumes "heap_effect m f g m'"
  shows "heap_inv m'" "buf_bytes m' = f" "str_vals m' = g" "heap_frame m m'" "alloc_total m' \<longleftrightarrow> alloc_total m"
  using assms by (simp_all add: heap_effect_def heap_frame_alloc_total)

lemma enc_effectD:
  assumes "enc_effect t m f m'"
  shows "heap_inv m'" "buf_bytes m' = f" "only_string t (str_vals m) (str_vals m')" "heap_frame m m'"
    "alloc_total m' \<longleftrightarrow> alloc_total m"
  using assms by (simp_all add: enc_effect_def heap_frame_alloc_total)

lemma enc_effect_refl: "heap_inv m \<Longrightarrow> enc_effect t m (buf_bytes m) m"
  by (simp add: enc_effect_def)

lemma enc_effect_trans: "enc_effect t m1 f m2 \<Longrightarrow> enc_effect t m2 g m3 \<Longrightarrow> enc_effect t m1 g m3"
  by (auto simp: enc_effect_def intro: heap_frame_trans only_string_trans)

lemma enc_effect_weaken: "enc_effect None m f m' \<Longrightarrow> enc_effect t m f m'"
  by (simp add: enc_effect_def)

lemma smem_more: "bmem.more (m' :: 'z smem_scheme) = bmem.more m \<longleftrightarrow> strs m' = strs m \<and> smem.more m' = smem.more m"
  by (cases m, cases m') simp

lemma buf_effect_heap:
  assumes inv: "heap_inv m" and e: "buf_effect m f m'"
  shows "heap_effect m f (str_vals m) m'"
proof -
  note E = buf_effectD [OF e]
  have S: "strs m' = strs m" "smem.more m' = smem.more m" "chars m' = chars m" "brk m \<le> brk m'"
    "grants m' = grants m"
    using E(4) by (simp_all add: buf_frame_def smem_more)
  have "str_inv m'"
    using inv E(1) S by (auto simp: heap_inv_def str_inv_def buf_inv_def)
  then show ?thesis
    using E S by (simp add: heap_effect_def heap_inv_def heap_frame_def str_vals_def str_rest_def)
qed

lemma buf_effect_enc: "heap_inv m \<Longrightarrow> buf_effect m f m' \<Longrightarrow> enc_effect t m f m'"
  using buf_effect_heap [of m f m'] by (simp add: enc_effect_def heap_effect_def)

lemma str_effect_heap:
  assumes inv: "heap_inv m" and e: "str_effect m g m'"
  shows "heap_effect m (buf_bytes m) g m'"
proof -
  note E = str_effectD [OF e]
  have S: "blocks m' = blocks m" "buffers m' = buffers m" "smem.more m' = smem.more m" "brk m \<le> brk m'"
    "grants m' = grants m"
    using E(4) by (simp_all add: str_frame_def)
  have bytes: "buf_bytes m' = buf_bytes m" by (rule ext, rule buf_bytes_cong) (simp_all add: S)
  have "buf_inv m'"
    using inv E(1) S unfolding heap_inv_def buf_inv_def bytes by (auto simp: str_inv_def)
  moreover have "foreign m' = foreign m"
    by (rule ext) (simp only: foreign_def owned_def S)
  ultimately show ?thesis using E S bytes by (simp add: heap_effect_def heap_inv_def heap_frame_def)
qed

lemma str_effect_enc:
  "heap_inv m \<Longrightarrow> str_effect m g m' \<Longrightarrow> only_string t (str_vals m) g \<Longrightarrow> enc_effect t m (buf_bytes m) m'"
  using str_effect_heap [of m g m'] by (simp add: enc_effect_def heap_effect_def)

lemma heap_effect_enc:
  "heap_effect m f g m' \<Longrightarrow> only_string t (str_vals m) g \<Longrightarrow> enc_effect t m f m'"
  by (simp add: enc_effect_def heap_effect_def)

section \<open>External data\<close>

definition ext_string :: "'z smem_scheme \<Rightarrow> char_ptr \<Rightarrow> cstring option" where
  "ext_string m p = (case p of
       Literal s \<Rightarrow> if 0 \<in> set s then None else Some s
     | Chars a i \<Rightarrow> (case str_rest m a of
         None \<Rightarrow> None
       | Some bs \<Rightarrow> if i \<le> length bs then until_nul (drop i bs) else None))"

definition ext_bytes :: "'z smem_scheme \<Rightarrow> bptr \<Rightarrow> nat \<Rightarrow> mbyte list option" where
  "ext_bytes m q n = (case foreign m (fst q) of
       None \<Rightarrow> None
     | Some bs \<Rightarrow> if snd q + n \<le> length bs then Some (take n (drop (snd q) bs)) else None)"

lemma ext_string_frame: "heap_frame m m' \<Longrightarrow> ext_string m' p = ext_string m p"
  by (simp add: ext_string_def heap_frame_def split: char_ptr.splits)

lemma ext_bytes_frame: "heap_frame m m' \<Longrightarrow> ext_bytes m' q n = ext_bytes m q n"
  by (simp add: ext_bytes_def heap_frame_def)

lemma ext_stringD:
  assumes "ext_string m p = Some s"
  shows "c_string p m = Some s" "0 \<notin> set s"
    and "strs m h = Some b \<Longrightarrow> outside (str_s b) p"
proof -
  show "0 \<notin> set s"
    using assms by (auto simp: ext_string_def until_nul_iff split: char_ptr.splits option.splits if_splits)
  show "c_string p m = Some s"
    using assms
    by (auto simp: ext_string_def c_string_def str_rest_def own_rest_def split: char_ptr.splits option.splits if_splits)
  show "outside (str_s b) p" if "strs m h = Some b"
    using assms that
    by (auto simp: ext_string_def outside_def str_rest_def own_rest_def split: char_ptr.splits option.splits if_splits)
qed

lemma ext_bytesD:
  assumes "ext_bytes m q n = Some xs"
  shows "read_bytes q n m = Some xs" "length xs = n" "buffers m h = Some b \<Longrightarrow> buffer b \<noteq> Some (fst q)"
proof -
  show rd: "read_bytes q n m = Some xs"
    using assms by (auto simp: ext_bytes_def read_bytes_def foreign_def split: option.splits if_splits)
  show "length xs = n" using rd by (rule read_bytes_len)
  show "buffer b \<noteq> Some (fst q)" if "buffers m h = Some b"
    using assms that by (auto simp: ext_bytes_def foreign_def owned_def split: option.splits if_splits)
qed

end
