(* ===== verification/MqttConst.thy ===== *)
theory MqttConst
  imports Memory
begin

text \<open>
  The protocol constants and payload structs of
  \<^verbatim>\<open>uMQTT/inc/azure_umqtt_c/mqttconst.h\<close>.  The values of the two wire enums,
  \<open>CONTROL_PACKET_TYPE\<close> and \<open>QOS_VALUE\<close>, are bytes, since the code computes with them.
\<close>

type_synonym CONTROL_PACKET_TYPE = u8
type_synonym QOS_VALUE = u8

definition CONNECT_TYPE :: CONTROL_PACKET_TYPE where "CONNECT_TYPE = 0x10"
definition CONNACK_TYPE :: CONTROL_PACKET_TYPE where "CONNACK_TYPE = 0x20"
definition PUBLISH_TYPE :: CONTROL_PACKET_TYPE where "PUBLISH_TYPE = 0x30"
definition PUBACK_TYPE :: CONTROL_PACKET_TYPE where "PUBACK_TYPE = 0x40"
definition PUBREC_TYPE :: CONTROL_PACKET_TYPE where "PUBREC_TYPE = 0x50"
definition PUBREL_TYPE :: CONTROL_PACKET_TYPE where "PUBREL_TYPE = 0x60"
definition PUBCOMP_TYPE :: CONTROL_PACKET_TYPE where "PUBCOMP_TYPE = 0x70"
definition SUBSCRIBE_TYPE :: CONTROL_PACKET_TYPE where "SUBSCRIBE_TYPE = 0x80"
definition SUBACK_TYPE :: CONTROL_PACKET_TYPE where "SUBACK_TYPE = 0x90"
definition UNSUBSCRIBE_TYPE :: CONTROL_PACKET_TYPE where "UNSUBSCRIBE_TYPE = 0xA0"
definition UNSUBACK_TYPE :: CONTROL_PACKET_TYPE where "UNSUBACK_TYPE = 0xB0"
definition PINGREQ_TYPE :: CONTROL_PACKET_TYPE where "PINGREQ_TYPE = 0xC0"
definition PINGRESP_TYPE :: CONTROL_PACKET_TYPE where "PINGRESP_TYPE = 0xD0"
definition DISCONNECT_TYPE :: CONTROL_PACKET_TYPE where "DISCONNECT_TYPE = 0xE0"
definition PACKET_TYPE_ERROR :: CONTROL_PACKET_TYPE where "PACKET_TYPE_ERROR = 0xE1"
definition UNKNOWN_TYPE :: CONTROL_PACKET_TYPE where "UNKNOWN_TYPE = 0xE2"

definition DELIVER_AT_MOST_ONCE :: QOS_VALUE where "DELIVER_AT_MOST_ONCE = 0x00"
definition DELIVER_AT_LEAST_ONCE :: QOS_VALUE where "DELIVER_AT_LEAST_ONCE = 0x01"
definition DELIVER_EXACTLY_ONCE :: QOS_VALUE where "DELIVER_EXACTLY_ONCE = 0x02"
definition DELIVER_FAILURE :: QOS_VALUE where "DELIVER_FAILURE = 0x80"

lemmas packet_types [c_consts] =
  CONNECT_TYPE_def CONNACK_TYPE_def PUBLISH_TYPE_def PUBACK_TYPE_def PUBREC_TYPE_def
  PUBREL_TYPE_def PUBCOMP_TYPE_def SUBSCRIBE_TYPE_def SUBACK_TYPE_def UNSUBSCRIBE_TYPE_def
  UNSUBACK_TYPE_def PINGREQ_TYPE_def PINGRESP_TYPE_def DISCONNECT_TYPE_def
  PACKET_TYPE_ERROR_def UNKNOWN_TYPE_def

lemmas qos_values [c_consts] =
  DELIVER_AT_MOST_ONCE_def DELIVER_AT_LEAST_ONCE_def DELIVER_EXACTLY_ONCE_def DELIVER_FAILURE_def

text \<open>\<open>APP_PAYLOAD\<close>: \<open>message\<close> points to bytes or is null.\<close>

record APP_PAYLOAD =
  message :: "bptr option"
  payload_length :: u32

record MQTT_CLIENT_OPTIONS =
  clientId :: "char_ptr option"
  willTopic :: "char_ptr option"
  willMessage :: "char_ptr option"
  username :: "char_ptr option"
  password :: "char_ptr option"
  keepAliveInterval :: u16
  messageRetain :: bool
  useCleanSession :: bool
  qualityOfServiceValue :: QOS_VALUE
  log_trace :: bool

text \<open>\<open>CONNECT_RETURN_CODE\<close>: the code stores whatever byte it receives in the enum.\<close>

type_synonym CONNECT_RETURN_CODE = u8

definition CONNECTION_ACCEPTED :: CONNECT_RETURN_CODE where "CONNECTION_ACCEPTED = 0"
definition CONN_REFUSED_UNACCEPTABLE_VERSION :: CONNECT_RETURN_CODE where "CONN_REFUSED_UNACCEPTABLE_VERSION = 1"
definition CONN_REFUSED_ID_REJECTED :: CONNECT_RETURN_CODE where "CONN_REFUSED_ID_REJECTED = 2"
definition CONN_REFUSED_SERVER_UNAVAIL :: CONNECT_RETURN_CODE where "CONN_REFUSED_SERVER_UNAVAIL = 3"
definition CONN_REFUSED_BAD_USERNAME_PASSWORD :: CONNECT_RETURN_CODE where "CONN_REFUSED_BAD_USERNAME_PASSWORD = 4"
definition CONN_REFUSED_NOT_AUTHORIZED :: CONNECT_RETURN_CODE where "CONN_REFUSED_NOT_AUTHORIZED = 5"
definition CONN_REFUSED_UNKNOWN :: CONNECT_RETURN_CODE where "CONN_REFUSED_UNKNOWN = 6"

record CONNECT_ACK =
  isSessionPresent :: bool
  returnCode :: CONNECT_RETURN_CODE

text \<open>\<open>suback_qosReturn\<close> points to an array of \<open>qosCount\<close> values of one byte each.\<close>

record SUBSCRIBE_ACK =
  suback_packetId :: u16
  suback_qosReturn :: ptr
  qosCount :: u32

record UNSUBSCRIBE_ACK =
  unsuback_packetId :: u16

record PUBLISH_ACK =
  puback_packetId :: u16

record SUBSCRIBE_PAYLOAD =
  subscribeTopic :: "char_ptr option"
  qosReturn :: QOS_VALUE

end
