(* ===== verification/Codec_Encode.thy ===== *)
theory Codec_Encode
  imports Effects MqttConst
begin

text \<open>
  The packet builders of \<^verbatim>\<open>uMQTT/src/mqtt_codec.c\<close>: each allocates a buffer, appends the
  variable header and the payload, and prepends the fixed header, while the trace log, when
  there is one, records a readable form of the packet.
\<close>

section \<open>Constants and formatting\<close>

definition USERNAME_FLAG :: u8 where "USERNAME_FLAG = 0x80"
definition PASSWORD_FLAG :: u8 where "PASSWORD_FLAG = 0x40"
definition WILL_RETAIN_FLAG :: u8 where "WILL_RETAIN_FLAG = 0x20"
definition WILL_FLAG_FLAG :: u8 where "WILL_FLAG_FLAG = 0x04"
definition CLEAN_SESSION_FLAG :: u8 where "CLEAN_SESSION_FLAG = 0x02"
definition NEXT_128_CHUNK :: u8 where "NEXT_128_CHUNK = 0x80"
definition PUBLISH_DUP_FLAG :: u8 where "PUBLISH_DUP_FLAG = 0x8"
definition PUBLISH_QOS_EXACTLY_ONCE :: u8 where "PUBLISH_QOS_EXACTLY_ONCE = 0x4"
definition PUBLISH_QOS_AT_LEAST_ONCE :: u8 where "PUBLISH_QOS_AT_LEAST_ONCE = 0x2"
definition PUBLISH_QOS_RETAIN :: u8 where "PUBLISH_QOS_RETAIN = 0x1"
definition PROTOCOL_NUMBER :: u8 where "PROTOCOL_NUMBER = 4"
definition CONN_FLAG_BYTE_OFFSET :: nat where "CONN_FLAG_BYTE_OFFSET = 7"
definition CONNECT_VARIABLE_HEADER_SIZE :: u32 where "CONNECT_VARIABLE_HEADER_SIZE = 10"
definition SUBSCRIBE_FIXED_HEADER_FLAG :: u8 where "SUBSCRIBE_FIXED_HEADER_FLAG = 0x2"
definition UNSUBSCRIBE_FIXED_HEADER_FLAG :: u8 where "UNSUBSCRIBE_FIXED_HEADER_FLAG = 0x2"
definition MAX_SEND_SIZE :: u32 where "MAX_SEND_SIZE = 0xFFFFFF7F"

lemmas codec_consts [c_consts] =
  USERNAME_FLAG_def PASSWORD_FLAG_def WILL_RETAIN_FLAG_def WILL_FLAG_FLAG_def CLEAN_SESSION_FLAG_def
  NEXT_128_CHUNK_def PUBLISH_DUP_FLAG_def PUBLISH_QOS_EXACTLY_ONCE_def PUBLISH_QOS_AT_LEAST_ONCE_def
  PUBLISH_QOS_RETAIN_def PROTOCOL_NUMBER_def CONN_FLAG_BYTE_OFFSET_def CONNECT_VARIABLE_HEADER_SIZE_def
  SUBSCRIBE_FIXED_HEADER_FLAG_def UNSUBSCRIBE_FIXED_HEADER_FLAG_def MAX_SEND_SIZE_def

text \<open>\<open>%d\<close> and \<open>%zu\<close> of a number that is not negative.\<close>

fun fmt_nat :: "nat \<Rightarrow> cstring" where
  "fmt_nat n = (if n < 10 then [of_nat (48 + n)] else fmt_nat (n div 10) @ [of_nat (48 + n mod 10)])"

declare fmt_nat.simps [simp del]

text \<open>
  The recurring \<open>if (trace_log != NULL) STRING_sprintf (trace_log, ...)\<close>, whose result is
  ignored; \<open>txt\<close> is the formatted text, \<open>None\<close> when formatting reads an invalid string.
\<close>

definition trace_sprintf :: "ptr \<Rightarrow> cstring option \<Rightarrow> 'z smem_scheme \<Rightarrow> 'z smem_scheme option" where
  "trace_sprintf trace_log txt m =
     (if trace_log \<noteq> None
      then do { t \<leftarrow> txt; (_, m) \<leftarrow> STRING_sprintf trace_log (Some (Some t)) m; Some m }
      else Some m)"

text \<open>The recurring \<open>if (trace_log != NULL) (void)STRING_copy (trace_log, ...)\<close> and its kin.\<close>

definition log_copy :: "ptr \<Rightarrow> cstring \<Rightarrow> 'z smem_scheme \<Rightarrow> 'z smem_scheme option" where
  "log_copy t s m = (if t \<noteq> None then do { (_, m) \<leftarrow> STRING_copy t (Some (Literal s)) m; Some m } else Some m)"

definition log_concat :: "ptr \<Rightarrow> cstring \<Rightarrow> 'z smem_scheme \<Rightarrow> 'z smem_scheme option" where
  "log_concat t s m = (if t \<noteq> None then do { (_, m) \<leftarrow> STRING_concat t (Some (Literal s)) m; Some m } else Some m)"

definition log_join :: "ptr \<Rightarrow> ptr \<Rightarrow> 'z smem_scheme \<Rightarrow> 'z smem_scheme option" where
  "log_join t v m = (if t \<noteq> None then do { (_, m) \<leftarrow> STRING_concat_with_STRING t v m; Some m } else Some m)"

definition fmt_s :: "string \<Rightarrow> char_ptr option \<Rightarrow> 'z mem_scheme \<Rightarrow> cstring option" where
  "fmt_s prefix p m = do { q \<leftarrow> p; s \<leftarrow> c_string q m; Some (lit prefix @ s) }"

definition retrieve_qos_value :: "QOS_VALUE \<Rightarrow> cstring" where
  "retrieve_qos_value v =
     (if v = DELIVER_AT_MOST_ONCE then lit ''DELIVER_AT_MOST_ONCE''
      else if v = DELIVER_AT_LEAST_ONCE then lit ''DELIVER_AT_LEAST_ONCE''
      else lit ''DELIVER_EXACTLY_ONCE'')"

section \<open>Writing through an iterator\<close>

text \<open>
  The writers take the address of the iterator, which may be null, and advance it: \<open>None\<close>
  is the null address, the new value of the iterator is returned.
\<close>

definition byteutil_writeByte ::
  "bptr option \<Rightarrow> u8 \<Rightarrow> 'z mem_scheme \<Rightarrow> (bptr option \<times> 'z mem_scheme) option" where
  "byteutil_writeByte iter value m =
     (case iter of
        None \<Rightarrow> Some (None, m)
      | Some (a, i) \<Rightarrow> do { m \<leftarrow> write_bytes (a, i) [Some value] m; Some (Some (a, i + 1), m) })"

definition byteutil_writeInt ::
  "bptr option \<Rightarrow> u16 \<Rightarrow> 'z mem_scheme \<Rightarrow> (bptr option \<times> 'z mem_scheme) option" where
  "byteutil_writeInt iter value m =
     (case iter of
        None \<Rightarrow> Some (None, m)
      | Some (a, i) \<Rightarrow> do {
          m \<leftarrow> write_bytes (a, i) [Some (ucast (value div 256))] m;
          m \<leftarrow> write_bytes (a, i + 1) [Some (ucast (value mod 256))] m;
          Some (Some (a, i + 2), m) })"

text \<open>Copying no bytes from a null pointer is taken to do nothing.\<close>

definition byteutil_writeUTF ::
  "bptr option \<Rightarrow> char_ptr option \<Rightarrow> u16 \<Rightarrow> 'z mem_scheme \<Rightarrow> (bptr option \<times> 'z mem_scheme) option" where
  "byteutil_writeUTF iter stringData len m =
     (case iter of
        None \<Rightarrow> Some (None, m)
      | Some _ \<Rightarrow> do {
          (iter, m) \<leftarrow> byteutil_writeInt iter len m;
          (a, i) \<leftarrow> iter;
          xs \<leftarrow> (case stringData of
                 None \<Rightarrow> if len = 0 then Some [] else None
               | Some p \<Rightarrow> cread p (unat len) m);
          m \<leftarrow> write_bytes (a, i) xs m;
          Some (Some (a, i + unat len), m) })"

section \<open>Variable headers and payloads\<close>

text \<open>
  The list arguments are arrays: the loop may run for more rounds than the array has
  elements, and then reads outside of it.
\<close>

fun addListItemsToUnsubscribe_loop ::
  "addr \<Rightarrow> char_ptr option list \<Rightarrow> nat \<Rightarrow> ptr \<Rightarrow> 'z smem_scheme \<Rightarrow> (int \<times> 'z smem_scheme) option" where
  "addListItemsToUnsubscribe_loop ctrlPacket payloadList 0 trace_log m = Some (0, m)"
| "addListItemsToUnsubscribe_loop ctrlPacket [] (Suc n) trace_log m = None"
| "addListItemsToUnsubscribe_loop ctrlPacket (topic # payloadList) (Suc n) trace_log m = do {
     offsetLen \<leftarrow> BUFFER_length (Some ctrlPacket) m;
     p \<leftarrow> topic;
     topicLen \<leftarrow> strlen p m;
     (result, m) \<leftarrow>
       (if topicLen > USHRT_MAX then Some (FAILURE, m)
        else do {
          (r, m) \<leftarrow> BUFFER_enlarge (Some ctrlPacket) (topicLen + 2) m;
          if r \<noteq> 0 then Some (FAILURE, m)
          else do {
            it \<leftarrow> BUFFER_u_char (Some ctrlPacket) m;
            a \<leftarrow> it;
            (_, m) \<leftarrow> byteutil_writeUTF (Some (a, unat offsetLen)) topic (ucast topicLen) m;
            Some (0, m) } });
     m \<leftarrow> trace_sprintf trace_log (fmt_s '' | TOPIC_NAME: '' topic m) m;
     if result = 0 then addListItemsToUnsubscribe_loop ctrlPacket payloadList n trace_log m
     else Some (result, m) }"

definition addListItemsToUnsubscribePacket ::
  "ptr \<Rightarrow> char_ptr option list option \<Rightarrow> u32 \<Rightarrow> ptr \<Rightarrow> 'z smem_scheme \<Rightarrow> (int \<times> 'z smem_scheme) option" where
  "addListItemsToUnsubscribePacket ctrlPacket payloadList payloadCount trace_log m =
     (case (payloadList, ctrlPacket) of
        (Some l, Some h) \<Rightarrow> addListItemsToUnsubscribe_loop h l (unat payloadCount) trace_log m
      | _ \<Rightarrow> Some (FAILURE, m))"

fun addListItemsToSubscribe_loop ::
  "addr \<Rightarrow> SUBSCRIBE_PAYLOAD list \<Rightarrow> nat \<Rightarrow> ptr \<Rightarrow> 'z smem_scheme \<Rightarrow> (int \<times> 'z smem_scheme) option" where
  "addListItemsToSubscribe_loop ctrlPacket payloadList 0 trace_log m = Some (0, m)"
| "addListItemsToSubscribe_loop ctrlPacket [] (Suc n) trace_log m = None"
| "addListItemsToSubscribe_loop ctrlPacket (item # payloadList) (Suc n) trace_log m = do {
     offsetLen \<leftarrow> BUFFER_length (Some ctrlPacket) m;
     p \<leftarrow> subscribeTopic item;
     topicLen \<leftarrow> strlen p m;
     if topicLen > USHRT_MAX then Some (FAILURE, m)
     else do {
       (r, m) \<leftarrow> BUFFER_enlarge (Some ctrlPacket) (topicLen + 2 + 1) m;
       if r \<noteq> 0 then Some (FAILURE, m)
       else do {
         it \<leftarrow> BUFFER_u_char (Some ctrlPacket) m;
         a \<leftarrow> it;
         (it, m) \<leftarrow> byteutil_writeUTF (Some (a, unat offsetLen)) (subscribeTopic item) (ucast topicLen) m;
         q \<leftarrow> it;
         m \<leftarrow> write_bytes q [Some (qosReturn item)] m;
         m \<leftarrow> trace_sprintf trace_log
              (do { s \<leftarrow> fmt_s '' | TOPIC_NAME: '' (subscribeTopic item) m;
                    Some (s @ lit '' | QOS: '' @ fmt_nat (unat (qosReturn item))) }) m;
         addListItemsToSubscribe_loop ctrlPacket payloadList n trace_log m } } }"

definition addListItemsToSubscribePacket ::
  "ptr \<Rightarrow> SUBSCRIBE_PAYLOAD list option \<Rightarrow> u32 \<Rightarrow> ptr \<Rightarrow> 'z smem_scheme \<Rightarrow> (int \<times> 'z smem_scheme) option" where
  "addListItemsToSubscribePacket ctrlPacket payloadList payloadCount trace_log m =
     (case (payloadList, ctrlPacket) of
        (Some l, Some h) \<Rightarrow> addListItemsToSubscribe_loop h l (unat payloadCount) trace_log m
      | _ \<Rightarrow> Some (FAILURE, m))"

definition constructConnectVariableHeader ::
  "ptr \<Rightarrow> MQTT_CLIENT_OPTIONS \<Rightarrow> ptr \<Rightarrow> 'z smem_scheme \<Rightarrow> (int \<times> 'z smem_scheme) option" where
  "constructConnectVariableHeader ctrlPacket mqttOptions trace_log m = do {
     (r, m) \<leftarrow> BUFFER_enlarge ctrlPacket CONNECT_VARIABLE_HEADER_SIZE m;
     if r \<noteq> 0 then Some (FAILURE, m)
     else do {
       it \<leftarrow> BUFFER_u_char ctrlPacket m;
       case it of
         None \<Rightarrow> Some (FAILURE, m)
       | Some a \<Rightarrow> do {
           m \<leftarrow> trace_sprintf trace_log
                (Some (lit '' | VER: '' @ fmt_nat (unat PROTOCOL_NUMBER) @ lit '' | KEEPALIVE: '' @
                       fmt_nat (unat (keepAliveInterval mqttOptions)) @ lit '' | FLAGS:'')) m;
           (it, m) \<leftarrow> byteutil_writeUTF (Some (a, 0)) (Some (Literal (lit ''MQTT''))) 4 m;
           (it, m) \<leftarrow> byteutil_writeByte it PROTOCOL_NUMBER m;
           (it, m) \<leftarrow> byteutil_writeByte it 0 m;
           (it, m) \<leftarrow> byteutil_writeInt it (keepAliveInterval mqttOptions) m;
           Some (0, m) } } }"

record PUBLISH_HEADER_INFO =
  topicName :: char_ptr
  packetId :: u16
  pub_msgBuffer :: "char_ptr option"
  pub_qos :: QOS_VALUE

definition constructPublishVariableHeader ::
  "ptr \<Rightarrow> PUBLISH_HEADER_INFO \<Rightarrow> ptr \<Rightarrow> 'z smem_scheme \<Rightarrow> (int \<times> 'z smem_scheme) option" where
  "constructPublishVariableHeader ctrlPacket publishHeader trace_log m = do {
     currLen \<leftarrow> BUFFER_length ctrlPacket m;
     topicLen \<leftarrow> strlen (topicName publishHeader) m;
     let spaceLen = 2;
     let idLen = (if pub_qos publishHeader \<noteq> DELIVER_AT_MOST_ONCE then 2 else 0);
     if topicLen > USHRT_MAX then Some (FAILURE, m)
     else do {
       (r, m) \<leftarrow> BUFFER_enlarge ctrlPacket (topicLen + idLen + spaceLen) m;
       if r \<noteq> 0 then Some (FAILURE, m)
       else do {
         it \<leftarrow> BUFFER_u_char ctrlPacket m;
         case it of
           None \<Rightarrow> Some (FAILURE, m)
         | Some a \<Rightarrow> do {
             (it, m) \<leftarrow> byteutil_writeUTF (Some (a, unat currLen)) (Some (topicName publishHeader)) (ucast topicLen) m;
             m \<leftarrow> trace_sprintf trace_log (fmt_s '' | TOPIC_NAME: '' (Some (topicName publishHeader)) m) m;
             m \<leftarrow> (if idLen > 0
                  then do {
                    m \<leftarrow> trace_sprintf trace_log
                         (Some (lit '' | PACKET_ID: '' @ fmt_nat (unat (packetId publishHeader)))) m;
                    (it, m) \<leftarrow> byteutil_writeInt it (packetId publishHeader) m;
                    Some m }
                  else Some m);
             Some (0, m) } } } }"

definition constructSubscibeTypeVariableHeader ::
  "ptr \<Rightarrow> u16 \<Rightarrow> 'z smem_scheme \<Rightarrow> (int \<times> 'z smem_scheme) option" where
  "constructSubscibeTypeVariableHeader ctrlPacket pid m = do {
     (r, m) \<leftarrow> BUFFER_enlarge ctrlPacket 2 m;
     if r \<noteq> 0 then Some (FAILURE, m)
     else do {
       it \<leftarrow> BUFFER_u_char ctrlPacket m;
       case it of
         None \<Rightarrow> Some (FAILURE, m)
       | Some a \<Rightarrow> do { (it, m) \<leftarrow> byteutil_writeInt (Some (a, 0)) pid m; Some (0, m) } } }"

definition constructPublishReply ::
  "CONTROL_PACKET_TYPE \<Rightarrow> u8 \<Rightarrow> u16 \<Rightarrow> 'z smem_scheme \<Rightarrow> (ptr \<times> 'z smem_scheme) option" where
  "constructPublishReply type flags pid m = do {
     (result, m) \<leftarrow> BUFFER_new m;
     if result = None then Some (None, m)
     else do {
       (r, m) \<leftarrow> BUFFER_pre_build result 4 m;
       if r \<noteq> 0 then do { m \<leftarrow> BUFFER_delete result m; Some (None, m) }
       else do {
         it \<leftarrow> BUFFER_u_char result m;
         case it of
           None \<Rightarrow> do { m \<leftarrow> BUFFER_delete result m; Some (None, m) }
         | Some a \<Rightarrow> do {
             m \<leftarrow> write_bytes (a, 0) [Some (type OR flags)] m;
             m \<leftarrow> write_bytes (a, 1) [Some 2] m;
             (it, m) \<leftarrow> byteutil_writeInt (Some (a, 2)) pid m;
             Some (result, m) } } } }"

section \<open>The fixed header\<close>

text \<open>
  The loop that encodes the remaining length into \<open>remainSize\<close>, an array of 4 bytes;
  \<open>done\<close> holds the bytes stored so far, a fifth store is out of bounds.
\<close>

function remainSize_loop :: "u32 \<Rightarrow> u8 list \<Rightarrow> u8 list option" where
  "remainSize_loop packetLen stored =
     (let encode = ucast (packetLen mod 128);
          packetLen' = packetLen div 128;
          encode' = (if packetLen' > 0 then encode OR NEXT_128_CHUNK else encode)
      in if length stored \<ge> 4 then None
         else if packetLen' > 0 then remainSize_loop packetLen' (stored @ [encode'])
         else Some (stored @ [encode']))"
  by pat_completeness auto
termination
  by (relation "measure (\<lambda>(_, stored). 4 - length stored)") auto

declare remainSize_loop.simps [simp del]

definition constructFixedHeader ::
  "ptr \<Rightarrow> CONTROL_PACKET_TYPE \<Rightarrow> u8 \<Rightarrow> 'z smem_scheme \<Rightarrow> (int \<times> 'z smem_scheme) option" where
  "constructFixedHeader ctrlPacket packetType flags m =
     (if ctrlPacket = None then Some (FAILURE, m)
      else do {
        packetLen \<leftarrow> BUFFER_length ctrlPacket m;
        remainSize \<leftarrow> remainSize_loop packetLen [];
        let index = length remainSize;
        (fixedHeader, m) \<leftarrow> BUFFER_new m;
        if fixedHeader = None then Some (FAILURE, m)
        else do {
          (r, m) \<leftarrow> BUFFER_pre_build fixedHeader (of_nat index + 1) m;
          if r \<noteq> 0 then do { m \<leftarrow> BUFFER_delete fixedHeader m; Some (FAILURE, m) }
          else do {
            it \<leftarrow> BUFFER_u_char fixedHeader m;
            a \<leftarrow> it;
            m \<leftarrow> write_bytes (a, 0) [Some (packetType OR flags)] m;
            m \<leftarrow> write_bytes (a, 1) (map Some remainSize) m;
            (result, m) \<leftarrow> BUFFER_prepend ctrlPacket fixedHeader m;
            m \<leftarrow> BUFFER_delete fixedHeader m;
            Some (result, m) } } })"

section \<open>The CONNECT payload\<close>

text \<open>The space and the length a string option of \<open>mqttOptions\<close> contributes.\<close>

definition option_len :: "char_ptr option \<Rightarrow> 'z mem_scheme \<Rightarrow> (u32 \<times> u32) option" where
  "option_len p m = (case p of None \<Rightarrow> Some (0, 0) | Some q \<Rightarrow> do { n \<leftarrow> strlen q m; Some (2, n) })"

text \<open>\<open>packet[CONN_FLAG_BYTE_OFFSET] |= v\<close>\<close>

definition or_flag :: "addr \<Rightarrow> u8 \<Rightarrow> 'z mem_scheme \<Rightarrow> 'z mem_scheme option" where
  "or_flag packet v m = do {
     b \<leftarrow> read_byte (packet, CONN_FLAG_BYTE_OFFSET) m;
     write_bytes (packet, CONN_FLAG_BYTE_OFFSET) [Some (b OR v)] m }"

definition constructConnPayload ::
  "ptr \<Rightarrow> MQTT_CLIENT_OPTIONS option \<Rightarrow> ptr \<Rightarrow> 'z smem_scheme \<Rightarrow> (int \<times> 'z smem_scheme) option" where
  "constructConnPayload ctrlPacket mqttOptions trace_log m =
     (case (mqttOptions, ctrlPacket) of
        (Some opts, Some _) \<Rightarrow> do {
          (s1, clientLen) \<leftarrow> option_len (clientId opts) m;
          (s2, usernameLen) \<leftarrow> option_len (username opts) m;
          (s3, passwordLen) \<leftarrow> option_len (password opts) m;
          (s4, willMessageLen) \<leftarrow> option_len (willMessage opts) m;
          (s5, willTopicLen) \<leftarrow> option_len (willTopic opts) m;
          let spaceLen = s1 + s2 + s3 + s4 + s5;
          currLen \<leftarrow> BUFFER_length ctrlPacket m;
          let totalLen = clientLen + usernameLen + passwordLen + willMessageLen + willTopicLen + spaceLen;
          if clientLen > USHRT_MAX then Some (FAILURE, m)
          else if usernameLen = 0 \<and> passwordLen > 0 then Some (FAILURE, m)
          else if (willMessageLen > 0 \<and> willTopicLen = 0) \<or> (willTopicLen > 0 \<and> willMessageLen = 0)
          then Some (FAILURE, m)
          else do {
            (r, m) \<leftarrow> BUFFER_enlarge ctrlPacket totalLen m;
            if r \<noteq> 0 then Some (FAILURE, m)
            else do {
              packet \<leftarrow> BUFFER_u_char ctrlPacket m;
              a \<leftarrow> packet;
              (it, m) \<leftarrow> byteutil_writeUTF (Some (a, unat currLen)) (clientId opts) (ucast clientLen) m;
              if willMessageLen > USHRT_MAX \<or> willTopicLen > USHRT_MAX \<or>
                 usernameLen > USHRT_MAX \<or> passwordLen > USHRT_MAX
              then Some (FAILURE, m)
              else do {
                (connect_payload_trace, m) \<leftarrow> (if trace_log \<noteq> None then STRING_new m else Some (None, m));
                (it, m) \<leftarrow>
                  (if willMessageLen > 0 \<and> willTopicLen > 0 then do {
                     m \<leftarrow> (if trace_log \<noteq> None
                          then trace_sprintf connect_payload_trace (fmt_s '' | WILL_TOPIC: '' (willTopic opts) m) m
                          else Some m);
                     m \<leftarrow> or_flag a WILL_FLAG_FLAG m;
                     (it, m) \<leftarrow> byteutil_writeUTF it (willTopic opts) (ucast willTopicLen) m;
                     m \<leftarrow> or_flag a (push_bit 3 (qualityOfServiceValue opts)) m;
                     m \<leftarrow> (if messageRetain opts then or_flag a WILL_RETAIN_FLAG m else Some m);
                     byteutil_writeUTF it (willMessage opts) (ucast willMessageLen) m }
                   else Some (it, m));
                (it, m) \<leftarrow>
                  (if usernameLen > 0 then do {
                     m \<leftarrow> or_flag a USERNAME_FLAG m;
                     (it, m) \<leftarrow> byteutil_writeUTF it (username opts) (ucast usernameLen) m;
                     m \<leftarrow> (if trace_log \<noteq> None
                          then trace_sprintf connect_payload_trace (fmt_s '' | USERNAME: '' (username opts) m) m
                          else Some m);
                     Some (it, m) }
                   else Some (it, m));
                (it, m) \<leftarrow>
                  (if passwordLen > 0 then do {
                     m \<leftarrow> or_flag a PASSWORD_FLAG m;
                     (it, m) \<leftarrow> byteutil_writeUTF it (password opts) (ucast passwordLen) m;
                     m \<leftarrow> (if trace_log \<noteq> None
                          then trace_sprintf connect_payload_trace (Some (lit '' | PWD: XXXX'')) m
                          else Some m);
                     Some (it, m) }
                   else Some (it, m));
                m \<leftarrow> (if trace_log \<noteq> None
                     then trace_sprintf connect_payload_trace
                       (Some (lit '' | CLEAN: '' @ (if useCleanSession opts then lit ''1'' else lit ''0''))) m
                     else Some m);
                m \<leftarrow> (if useCleanSession opts then or_flag a CLEAN_SESSION_FLAG m else Some m);
                m \<leftarrow> (if trace_log \<noteq> None then do {
                       b \<leftarrow> read_byte (a, CONN_FLAG_BYTE_OFFSET) m;
                       m \<leftarrow> trace_sprintf trace_log (Some (lit '' '' @ fmt_nat (unat b))) m;
                       (_, m) \<leftarrow> STRING_concat_with_STRING trace_log connect_payload_trace m;
                       STRING_delete connect_payload_trace m }
                     else Some m);
                Some (0, m) } } } }
      | _ \<Rightarrow> Some (FAILURE, m))"

section \<open>The packet builders\<close>

definition mqtt_codec_connect ::
  "MQTT_CLIENT_OPTIONS option \<Rightarrow> ptr \<Rightarrow> 'z smem_scheme \<Rightarrow> (ptr \<times> 'z smem_scheme) option" where
  "mqtt_codec_connect mqttOptions trace_log m =
     (case mqttOptions of
        None \<Rightarrow> Some (None, m)
      | Some opts \<Rightarrow> do {
          (result, m) \<leftarrow> BUFFER_new m;
          if result = None then Some (None, m)
          else do {
            (varible_header_log, m) \<leftarrow> (if trace_log \<noteq> None then STRING_new m else Some (None, m));
            (r, m) \<leftarrow> constructConnectVariableHeader result opts varible_header_log m;
            if r \<noteq> 0 then do { m \<leftarrow> BUFFER_delete result m; Some (None, m) }
            else do {
              (r, m) \<leftarrow> constructConnPayload result mqttOptions varible_header_log m;
              (result, m) \<leftarrow>
                (if r \<noteq> 0 then do { m \<leftarrow> BUFFER_delete result m; Some (None, m) }
                 else do {
                   m \<leftarrow> log_copy trace_log (lit ''CONNECT'') m;
                   (r, m) \<leftarrow> constructFixedHeader result CONNECT_TYPE 0 m;
                   if r \<noteq> 0 then do { m \<leftarrow> BUFFER_delete result m; Some (None, m) }
                   else do {
                     m \<leftarrow> log_join trace_log varible_header_log m;
                     Some (result, m) } });
              m \<leftarrow> (if varible_header_log \<noteq> None then STRING_delete varible_header_log m else Some m);
              Some (result, m) } } })"

text \<open>DISCONNECT and PINGREQ: a type byte and a remaining length of 0.\<close>

definition mqtt_codec_disconnect :: "'z smem_scheme \<Rightarrow> (ptr \<times> 'z smem_scheme) option" where
  "mqtt_codec_disconnect m = do {
     (result, m) \<leftarrow> BUFFER_new m;
     if result = None then Some (None, m)
     else do {
       (r, m) \<leftarrow> BUFFER_enlarge result 2 m;
       if r \<noteq> 0 then do { m \<leftarrow> BUFFER_delete result m; Some (None, m) }
       else do {
         it \<leftarrow> BUFFER_u_char result m;
         case it of
           None \<Rightarrow> do { m \<leftarrow> BUFFER_delete result m; Some (None, m) }
         | Some a \<Rightarrow> do {
             m \<leftarrow> write_bytes (a, 0) [Some DISCONNECT_TYPE] m;
             m \<leftarrow> write_bytes (a, 1) [Some 0] m;
             Some (result, m) } } } }"

definition mqtt_codec_ping :: "'z smem_scheme \<Rightarrow> (ptr \<times> 'z smem_scheme) option" where
  "mqtt_codec_ping m = do {
     (result, m) \<leftarrow> BUFFER_new m;
     if result = None then Some (None, m)
     else do {
       (r, m) \<leftarrow> BUFFER_enlarge result 2 m;
       if r \<noteq> 0 then do { m \<leftarrow> BUFFER_delete result m; Some (None, m) }
       else do {
         it \<leftarrow> BUFFER_u_char result m;
         case it of
           None \<Rightarrow> do { m \<leftarrow> BUFFER_delete result m; Some (None, m) }
         | Some a \<Rightarrow> do {
             m \<leftarrow> write_bytes (a, 0) [Some PINGREQ_TYPE] m;
             m \<leftarrow> write_bytes (a, 1) [Some 0] m;
             Some (result, m) } } } }"

definition publish_flags :: "QOS_VALUE \<Rightarrow> bool \<Rightarrow> bool \<Rightarrow> u8" where
  "publish_flags qosValue duplicateMsg serverRetain =
     (let headerFlags = 0;
          headerFlags = (if duplicateMsg then headerFlags OR PUBLISH_DUP_FLAG else headerFlags);
          headerFlags = (if serverRetain then headerFlags OR PUBLISH_QOS_RETAIN else headerFlags)
      in if qosValue \<noteq> DELIVER_AT_MOST_ONCE
         then (if qosValue = DELIVER_AT_LEAST_ONCE
               then headerFlags OR PUBLISH_QOS_AT_LEAST_ONCE
               else headerFlags OR PUBLISH_QOS_EXACTLY_ONCE)
         else headerFlags)"

definition mqtt_codec_publish ::
  "QOS_VALUE \<Rightarrow> bool \<Rightarrow> bool \<Rightarrow> u16 \<Rightarrow> char_ptr option \<Rightarrow> bptr option \<Rightarrow> u32 \<Rightarrow> ptr \<Rightarrow>
   'z smem_scheme \<Rightarrow> (ptr \<times> 'z smem_scheme) option"
where
  "mqtt_codec_publish qosValue duplicateMsg serverRetain pid topic msgBuffer buffLen trace_log m =
     (case topic of
        None \<Rightarrow> Some (None, m)
      | Some tn \<Rightarrow>
          if buffLen > MAX_SEND_SIZE then Some (None, m)
          else do {
            let publishInfo = \<lparr>topicName = tn, packetId = pid, pub_msgBuffer = None, pub_qos = qosValue\<rparr>;
            let headerFlags = publish_flags qosValue duplicateMsg serverRetain;
            (result, m) \<leftarrow> BUFFER_new m;
            if result = None then Some (None, m)
            else do {
              (varible_header_log, m) \<leftarrow>
                (if trace_log \<noteq> None
                 then STRING_construct_sprintf (Some (Some
                   (lit '' | IS_DUP: '' @ (if duplicateMsg then lit ''true'' else lit ''false'') @
                    lit '' | RETAIN: '' @ fmt_nat (if serverRetain then 1 else 0) @
                    lit '' | QOS: '' @ retrieve_qos_value (pub_qos publishInfo)))) m
                 else Some (None, m));
              (r, m) \<leftarrow> constructPublishVariableHeader result publishInfo varible_header_log m;
              (result, m) \<leftarrow>
                (if r \<noteq> 0 then do { m \<leftarrow> BUFFER_delete result m; Some (None, m) }
                 else do {
                   payloadOffset \<leftarrow> BUFFER_length result m;
                   (result, m) \<leftarrow>
                     (if buffLen > 0 then do {
                        (r, m) \<leftarrow> BUFFER_enlarge result buffLen m;
                        if r \<noteq> 0 then do { m \<leftarrow> BUFFER_delete result m; Some (None, m) }
                        else do {
                          it \<leftarrow> BUFFER_u_char result m;
                          case it of
                            None \<Rightarrow> do { m \<leftarrow> BUFFER_delete result m; Some (None, m) }
                          | Some a \<Rightarrow> do {
                              src \<leftarrow> msgBuffer;
                              m \<leftarrow> memcpy_bytes (a, unat payloadOffset) src (unat buffLen) m;
                              m \<leftarrow> (if trace_log \<noteq> None
                                   then trace_sprintf varible_header_log
                                     (Some (lit '' | PAYLOAD_LEN: '' @ fmt_nat (unat buffLen))) m
                                   else Some m);
                              Some (result, m) } } }
                      else Some (result, m));
                   if result \<noteq> None then do {
                     m \<leftarrow> log_copy trace_log (lit ''PUBLISH'') m;
                     (r, m) \<leftarrow> constructFixedHeader result PUBLISH_TYPE headerFlags m;
                     if r \<noteq> 0 then do { m \<leftarrow> BUFFER_delete result m; Some (None, m) }
                     else do {
                       m \<leftarrow> log_join trace_log varible_header_log m;
                       Some (result, m) } }
                   else Some (result, m) });
              m \<leftarrow> (if varible_header_log \<noteq> None then STRING_delete varible_header_log m else Some m);
              Some (result, m) } })"

definition mqtt_codec_publishAck :: "u16 \<Rightarrow> 'z smem_scheme \<Rightarrow> (ptr \<times> 'z smem_scheme) option" where
  "mqtt_codec_publishAck pid m = constructPublishReply PUBACK_TYPE 0 pid m"

definition mqtt_codec_publishReceived :: "u16 \<Rightarrow> 'z smem_scheme \<Rightarrow> (ptr \<times> 'z smem_scheme) option" where
  "mqtt_codec_publishReceived pid m = constructPublishReply PUBREC_TYPE 0 pid m"

definition mqtt_codec_publishRelease :: "u16 \<Rightarrow> 'z smem_scheme \<Rightarrow> (ptr \<times> 'z smem_scheme) option" where
  "mqtt_codec_publishRelease pid m = constructPublishReply PUBREL_TYPE 2 pid m"

definition mqtt_codec_publishComplete :: "u16 \<Rightarrow> 'z smem_scheme \<Rightarrow> (ptr \<times> 'z smem_scheme) option" where
  "mqtt_codec_publishComplete pid m = constructPublishReply PUBCOMP_TYPE 0 pid m"

definition mqtt_codec_subscribe ::
  "u16 \<Rightarrow> SUBSCRIBE_PAYLOAD list option \<Rightarrow> u32 \<Rightarrow> ptr \<Rightarrow> 'z smem_scheme \<Rightarrow> (ptr \<times> 'z smem_scheme) option"
where
  "mqtt_codec_subscribe pid subscribeList count trace_log m =
     (if subscribeList = None \<or> count = 0 then Some (None, m)
      else do {
        (result, m) \<leftarrow> BUFFER_new m;
        if result = None then Some (None, m)
        else do {
          (r, m) \<leftarrow> constructSubscibeTypeVariableHeader result pid m;
          if r \<noteq> 0 then do { m \<leftarrow> BUFFER_delete result m; Some (None, m) }
          else do {
            (sub_trace, m) \<leftarrow>
              (if trace_log \<noteq> None
               then STRING_construct_sprintf (Some (Some (lit '' | PACKET_ID: '' @ fmt_nat (unat pid)))) m
               else Some (None, m));
            (r, m) \<leftarrow> addListItemsToSubscribePacket result subscribeList count sub_trace m;
            (result, m) \<leftarrow>
              (if r \<noteq> 0 then do { m \<leftarrow> BUFFER_delete result m; Some (None, m) }
               else do {
                 m \<leftarrow> log_concat trace_log (lit ''SUBSCRIBE'') m;
                 (r, m) \<leftarrow> constructFixedHeader result SUBSCRIBE_TYPE SUBSCRIBE_FIXED_HEADER_FLAG m;
                 if r \<noteq> 0 then do { m \<leftarrow> BUFFER_delete result m; Some (None, m) }
                 else do {
                   m \<leftarrow> log_join trace_log sub_trace m;
                   Some (result, m) } });
            m \<leftarrow> (if sub_trace \<noteq> None then STRING_delete sub_trace m else Some m);
            Some (result, m) } } })"

definition mqtt_codec_unsubscribe ::
  "u16 \<Rightarrow> char_ptr option list option \<Rightarrow> u32 \<Rightarrow> ptr \<Rightarrow> 'z smem_scheme \<Rightarrow> (ptr \<times> 'z smem_scheme) option"
where
  "mqtt_codec_unsubscribe pid unsubscribeList count trace_log m =
     (if unsubscribeList = None \<or> count = 0 then Some (None, m)
      else do {
        (result, m) \<leftarrow> BUFFER_new m;
        if result = None then Some (None, m)
        else do {
          (r, m) \<leftarrow> constructSubscibeTypeVariableHeader result pid m;
          if r \<noteq> 0 then do { m \<leftarrow> BUFFER_delete result m; Some (None, m) }
          else do {
            (unsub_trace, m) \<leftarrow>
              (if trace_log \<noteq> None
               then STRING_construct_sprintf (Some (Some (lit '' | PACKET_ID: '' @ fmt_nat (unat pid)))) m
               else Some (None, m));
            (r, m) \<leftarrow> addListItemsToUnsubscribePacket result unsubscribeList count unsub_trace m;
            (result, m) \<leftarrow>
              (if r \<noteq> 0 then do { m \<leftarrow> BUFFER_delete result m; Some (None, m) }
               else do {
                 m \<leftarrow> log_copy trace_log (lit ''UNSUBSCRIBE'') m;
                 (r, m) \<leftarrow> constructFixedHeader result UNSUBSCRIBE_TYPE UNSUBSCRIBE_FIXED_HEADER_FLAG m;
                 if r \<noteq> 0 then do { m \<leftarrow> BUFFER_delete result m; Some (None, m) }
                 else do {
                   m \<leftarrow> log_join trace_log unsub_trace m;
                   Some (result, m) } });
            m \<leftarrow> (if unsub_trace \<noteq> None then STRING_delete unsub_trace m else Some m);
            Some (result, m) } } })"

end
