(* ===== verification/Codec_Rules.thy ===== *)
theory Codec_Rules
  imports Codec_Encode
begin

text \<open>
  The proof rules for the packet builders: what a write through an iterator does to the
  packet being filled (\<open>filling\<close>), what the trace log may do meanwhile (\<open>room\<close>,
  \<open>quiet\<close>), and the outcomes of a step (\<open>stepped\<close>) and of a builder (\<open>built\<close>).
\<close>

section \<open>Only one buffer changes\<close>

definition touches :: "ptr \<Rightarrow> addr \<Rightarrow> 'z smem_scheme \<Rightarrow> 'z smem_scheme \<Rightarrow> bool" where
  "touches t h m m' \<longleftrightarrow>
     heap_inv m' \<and> heap_frame m m' \<and> only_string t (str_vals m) (str_vals m') \<and>
     (\<forall>x. x \<noteq> h \<longrightarrow> buf_bytes m' x = buf_bytes m x)"

lemma touches_refl: "heap_inv m \<Longrightarrow> touches t h m m"
  by (simp add: touches_def)

lemma touches_trans: "touches t h m1 m2 \<Longrightarrow> touches t h m2 m3 \<Longrightarrow> touches t h m1 m3"
  by (auto simp: touches_def intro: heap_frame_trans only_string_trans)

lemma touches_weaken: "touches None h m m' \<Longrightarrow> touches t h m m'"
  by (simp add: touches_def)

lemma touchesD:
  assumes "touches t h m m'"
  shows "heap_inv m'" "heap_frame m m'" "alloc_total m' \<longleftrightarrow> alloc_total m"
    "x \<noteq> h \<Longrightarrow> buf_bytes m' x = buf_bytes m x" "t \<noteq> Some x \<Longrightarrow> str_vals m' x = str_vals m x"
    "ext_string m' p = ext_string m p" "ext_bytes m' q n = ext_bytes m q n"
  using assms
  by (auto simp: touches_def heap_frame_alloc_total ext_string_frame ext_bytes_frame only_string_def)

lemma touches_buf:
  "heap_inv m \<Longrightarrow> buf_effect m ((buf_bytes m)(h \<mapsto> xs)) m' \<Longrightarrow>
   touches t h m m' \<and> buf_bytes m' h = Some xs \<and> str_vals m' = str_vals m"
  using buf_effect_heap [of m "(buf_bytes m)(h \<mapsto> xs)" m'] by (auto simp: touches_def heap_effect_def)

lemma touches_buf_same:
  "heap_inv m \<Longrightarrow> buf_effect m (buf_bytes m) m' \<Longrightarrow>
   touches t h m m' \<and> buf_bytes m' = buf_bytes m \<and> str_vals m' = str_vals m"
  using buf_effect_heap [of m "buf_bytes m" m'] by (auto simp: touches_def heap_effect_def)

lemma touches_effect:
  "touches t h m m' \<Longrightarrow> buf_bytes m' h = Some zs \<Longrightarrow> enc_effect t m ((buf_bytes m)(h \<mapsto> zs)) m'"
  by (auto simp: touches_def enc_effect_def fun_eq_iff)

section \<open>The cursor\<close>

text \<open>
  The buffer \<open>h\<close> has its array at \<open>a\<close>, holding the bytes written so far and room for \<open>n\<close>
  more, which are not written yet.
\<close>

definition cursor :: "'z smem_scheme \<Rightarrow> addr \<Rightarrow> addr \<Rightarrow> mbyte list \<Rightarrow> nat \<Rightarrow> bool" where
  "cursor m h a pre n \<longleftrightarrow> buf_at m h a \<and> buf_bytes m h = Some (pre @ replicate n None)"

lemma cursor_bytes: "cursor m h a pre n \<Longrightarrow> buf_bytes m h = Some (pre @ replicate n None)"
  by (simp add: cursor_def)

lemma cursor_u_char:
  assumes "cursor m h a pre n" "n \<noteq> 0 \<or> pre \<noteq> []"
  shows "BUFFER_u_char (Some h) m = Some (Some a)"
proof -
  have "buf_bytes m h = Some (pre @ replicate n None)" "buf_at m h a" using assms by (auto simp: cursor_def)
  from BUFFER_u_char_spec [OF this(1)] this(2) assms(2) show ?thesis
    by (auto simp: ok_iff buf_at_def)
qed

lemma enlarge_cursor:
  assumes inv: "heap_inv m" and xs: "buf_bytes m h = Some xs" and n: "n \<noteq> 0"
    and fits: "length xs + unat n < 2 ^ 32"
  shows "ok (BUFFER_enlarge (Some h) n m) (\<lambda>(r, m').
     touches t h m m' \<and> str_vals m' = str_vals m \<and>
     (r \<noteq> 0 \<and> \<not> alloc_total m \<and> buf_bytes m' h = Some xs \<or> r = 0 \<and> (\<exists>a. cursor m' h a xs (unat n))))"
proof (rule ok_mono2 [OF BUFFER_enlarge_spec [OF _ xs n fits]])
  show "buf_inv m" using inv by (simp add: heap_inv_def)
  fix r m'
  assume e: "case (r, m') of (r, m') \<Rightarrow>
      (r \<noteq> 0 \<and> \<not> alloc_total m \<and> buf_effect m (buf_bytes m) m') \<or>
      (r = 0 \<and> buf_effect m ((buf_bytes m)(h \<mapsto> xs @ replicate (unat n) None)) m')"
  have at: "\<exists>a. buf_at m' h a" if b: "buf_bytes m' h = Some (xs @ replicate (unat n) None)"
    using b n by (cases rule: buf_bytes_cases [OF b]) (auto simp: buf_at_def unat_eq_0_u32)
  show "case (r, m') of (r, m') \<Rightarrow> touches t h m m' \<and> str_vals m' = str_vals m \<and>
     (r \<noteq> 0 \<and> \<not> alloc_total m \<and> buf_bytes m' h = Some xs \<or> r = 0 \<and> (\<exists>a. cursor m' h a xs (unat n)))"
    using e touches_buf_same [OF inv, of m'] touches_buf [OF inv, of h "xs @ replicate (unat n) None" m'] xs at
    by (auto simp: cursor_def)
qed

lemma write_cursor:
  assumes inv: "heap_inv m" and cur: "cursor m h a pre n" and fits: "length ys \<le> n" and i: "i = length pre"
  shows "ok (write_bytes (a, i) ys m) (\<lambda>m'. touches t h m m' \<and> cursor m' h a (pre @ ys) (n - length ys) \<and>
     str_vals m' = str_vals m)"
proof (rule ok_mono [OF write_buf_spec])
  show "buf_inv m" "buf_bytes m h = Some (pre @ replicate n None)" "buf_at m h a"
    using inv cur by (auto simp: heap_inv_def cursor_def)
  show "i + length ys \<le> length (pre @ replicate n None)" using fits i by simp
  fix m'
  assume "buf_effect m ((buf_bytes m)(h \<mapsto> write_at i ys (pre @ replicate n None))) m' \<and> buffers m' = buffers m"
  then show "touches t h m m' \<and> cursor m' h a (pre @ ys) (n - length ys) \<and> str_vals m' = str_vals m"
    using touches_buf [OF inv, of h _ m'] cur fits i by (auto simp: cursor_def buf_at_def write_at_fill)
qed

definition be16 :: "u16 \<Rightarrow> u8 list" where
  "be16 v = [ucast (v div 256), ucast (v mod 256)]"

lemma length_be16 [simp]: "length (be16 v) = 2"
  by (simp add: be16_def)

text \<open>A writer's outcome: the iterator after \<open>ys\<close>, which the buffer now holds.\<close>

definition wrote :: "ptr \<Rightarrow> 'z smem_scheme \<Rightarrow> addr \<Rightarrow> addr \<Rightarrow> u8 list \<Rightarrow> nat \<Rightarrow> bptr option \<times> 'z smem_scheme \<Rightarrow> bool" where
  "wrote t m h a zs n = (\<lambda>(it, m'). it = Some (a, length zs) \<and> touches t h m m' \<and>
     cursor m' h a (map Some zs) n \<and> str_vals m' = str_vals m)"

lemma writeByte_spec:
  assumes inv: "heap_inv m" and cur: "cursor m h a (map Some pre) n" and n: "n \<noteq> 0"
  shows "ok (byteutil_writeByte (Some (a, length pre)) v m) (wrote t m h a (pre @ [v]) (n - 1))"
  unfolding byteutil_writeByte_def wrote_def
  using write_cursor [OF inv cur, of "[Some v]" "length pre" t] n by (auto elim!: ok_mono)

lemma writeInt_spec:
  assumes inv: "heap_inv m" and cur: "cursor m h a (map Some pre) n" and n: "2 \<le> n"
  shows "ok (byteutil_writeInt (Some (a, length pre)) v m) (wrote t m h a (pre @ be16 v) (n - 2))"
proof -
  let ?hi = "ucast (v div 256) :: u8" and ?lo = "ucast (v mod 256) :: u8"
  have "ok (write_bytes (a, length pre) [Some ?hi] m \<bind> write_bytes (a, length pre + 1) [Some ?lo])
      (\<lambda>m'. touches t h m m' \<and> cursor m' h a (map Some (pre @ be16 v)) (n - 2) \<and> str_vals m' = str_vals m)"
  proof (rule ok_bindI [OF write_cursor [OF inv cur]])
    fix m1 assume m1: "touches t h m m1 \<and> cursor m1 h a (map Some pre @ [Some ?hi]) (n - length [Some ?hi]) \<and>
        str_vals m1 = str_vals m"
    from m1 touchesD(1) have "heap_inv m1" by blast
    from m1 have C: "cursor m1 h a (map Some pre @ [Some ?hi]) (n - 1)" by simp
    have "ok (write_bytes (a, length pre + 1) [Some ?lo] m1) (\<lambda>m'. touches t h m1 m' \<and>
        cursor m' h a ((map Some pre @ [Some ?hi]) @ [Some ?lo]) (n - 1 - length [Some ?lo]) \<and> str_vals m' = str_vals m1)"
      by (rule write_cursor [OF \<open>heap_inv m1\<close> C]) (use n in auto)
    with m1 n show "ok (write_bytes (a, length pre + 1) [Some ?lo] m1)
      (\<lambda>m'. touches t h m m' \<and> cursor m' h a (map Some (pre @ be16 v)) (n - 2) \<and> str_vals m' = str_vals m)"
      by (auto elim!: ok_mono simp: be16_def numeral_2_eq_2 intro: touches_trans)
  qed (use n in auto)
  then show ?thesis by (simp add: byteutil_writeInt_def wrote_def) 
qed

text \<open>A string field: its length in two bytes, then its characters.\<close>

definition utf :: "cstring \<Rightarrow> u8 list" where
  "utf s = be16 (of_nat (length s)) @ s"

lemma length_utf [simp]: "length (utf s) = length s + 2"
  by (simp add: utf_def)

lemma writeUTF_spec:
  assumes inv: "heap_inv m" and cur: "cursor m h a (map Some pre) n"
    and src: "case p of None \<Rightarrow> s = [] | Some q \<Rightarrow> ext_string m q = Some s"
    and len: "length s \<le> 65535" and n: "length s + 2 \<le> n"
  shows "ok (byteutil_writeUTF (Some (a, length pre)) p (of_nat (length s)) m)
     (wrote t m h a (pre @ utf s) (n - length s - 2))"
proof -
  have u: "unat (of_nat (length s) :: u16) = length s" using len by (simp add: unat_of_nat take_bit_nat_eq_self)
  show ?thesis
    unfolding byteutil_writeUTF_def option.case
  proof (rule ok_bind2I [OF writeInt_spec [OF inv cur, of _ t]])
    show "2 \<le> n" using n by simp
    fix it m1 assume W: "wrote t m h a (pre @ be16 (of_nat (length s))) (n - 2) (it, m1)"
    then have it: "it = Some (a, length (pre @ be16 (of_nat (length s))))" and T: "touches t h m m1"
      and C: "cursor m1 h a (map Some (pre @ be16 (of_nat (length s)))) (n - 2)" and S: "str_vals m1 = str_vals m"
      by (auto simp: wrote_def)
    have inv1: "heap_inv m1" using T by (rule touchesD)
    have wr: "ok (write_bytes (a, length (pre @ be16 (of_nat (length s)))) (map Some s) m1)
       (\<lambda>m'. touches t h m1 m' \<and> cursor m' h a (map Some (pre @ be16 (of_nat (length s))) @ map Some s) (n - 2 - length s) \<and>
         str_vals m' = str_vals m1)"
      using write_cursor [OF inv1 C, of "map Some s" _ t] n by simp
    show "ok (case (it, m1) of (iter, m1) \<Rightarrow> iter \<bind> (\<lambda>(a, i).
        (case p of None \<Rightarrow> if of_nat (length s) = (0 :: u16) then Some [] else None
         | Some q \<Rightarrow> cread q (unat (of_nat (length s) :: u16)) m1) \<bind> (\<lambda>xs.
        write_bytes (a, i) xs m1 \<bind> (\<lambda>m. Some (Some (a, i + unat (of_nat (length s) :: u16)), m)))))
      (wrote t m h a (pre @ utf s) (n - length s - 2))"
    proof (cases p)
      case None
      then have "s = []" using src by simp
      then show ?thesis
        using wr None by (auto elim!: ok_mono simp: it wrote_def utf_def S intro: touches_trans [OF T])
    next
      case (Some q)
      then have "c_string q m1 = Some s" using src touchesD(6) [OF T, of q] ext_stringD(1) by simp
      then have "cread q (length s) m1 = Some (map Some s)" using cread_c_string(1) [of q m1 s "length s"] by simp
      then show ?thesis
        using wr Some by (auto elim!: ok_mono simp: it u wrote_def utf_def S intro: touches_trans [OF T])
    qed
  qed
qed

section \<open>The trace log\<close>

definition room :: "ptr \<Rightarrow> nat \<Rightarrow> 'z smem_scheme \<Rightarrow> bool" where
  "room t n m \<longleftrightarrow> (\<forall>h. t = Some h \<longrightarrow> (\<exists>s. str_vals m h = Some s \<and> length s + n < 2 ^ 31))"

lemma room_NULL [simp]: "room None n m"
  by (simp add: room_def)

lemma room_le: "room t k m \<Longrightarrow> n \<le> k \<Longrightarrow> room t n m"
  by (fastforce simp: room_def)

lemma room_cong: "room t n m \<Longrightarrow> str_vals m' = str_vals m \<Longrightarrow> room t n m'"
  by (simp add: room_def)

text \<open>Only the string \<open>t\<close> may have changed.\<close>

definition quiet :: "ptr \<Rightarrow> 'z smem_scheme \<Rightarrow> 'z smem_scheme \<Rightarrow> bool" where
  "quiet t m m' \<longleftrightarrow> heap_inv m' \<and> heap_frame m m' \<and> only_string t (str_vals m) (str_vals m') \<and>
     buf_bytes m' = buf_bytes m \<and> buffers m' = buffers m"

lemma quiet_refl: "heap_inv m \<Longrightarrow> quiet t m m"
  by (simp add: quiet_def)

lemma quiet_touches: "quiet t m m' \<Longrightarrow> touches t h m m'"
  by (simp add: quiet_def touches_def)

lemma quiet_cursor: "quiet t m m' \<Longrightarrow> cursor m' h a pre n \<longleftrightarrow> cursor m h a pre n"
  by (simp add: quiet_def cursor_def buf_at_def)

lemma quietD:
  assumes "quiet t m m'"
  shows "heap_inv m'" "heap_frame m m'" "buf_bytes m' = buf_bytes m" "buffers m' = buffers m"
    "alloc_total m' \<longleftrightarrow> alloc_total m"
  using assms by (simp_all add: quiet_def heap_frame_alloc_total)

lemma str_quiet:
  assumes "heap_inv m" "str_effect m g m'" "only_string t (str_vals m) g"
  shows "quiet t m m'"
  using str_effect_heap [OF assms(1,2)] assms(2,3)
  by (simp add: quiet_def heap_effect_def str_effect_def str_frame_def)

lemma trace_sprintf_spec:
  assumes inv: "heap_inv m" and room: "room t (length txt + n) m" and z: "0 \<notin> set txt"
  shows "ok (trace_sprintf t (Some txt) m) (\<lambda>m'. quiet t m m' \<and> room t n m')"
proof (cases t)
  case None
  then show ?thesis using quiet_refl [OF inv] by (simp add: trace_sprintf_def)
next
  case (Some h)
  then obtain s where s: "str_vals m h = Some s" and len: "length s + (length txt + n) < 2 ^ 31"
    using room by (auto simp: room_def)
  have sinv: "str_inv m" using inv by (simp add: heap_inv_def)
  have "ok (STRING_sprintf (Some h) (Some (Some txt)) m) (str_updated m h (s @ txt))"
    by (rule STRING_sprintf_spec [OF sinv s]) (use len z in auto)
  then show ?thesis
  proof (rule okE)
    fix r m'
    assume c: "STRING_sprintf (Some h) (Some (Some txt)) m = Some r" and u: "str_updated m h (s @ txt) r"
    obtain k m' where r: "r = (k, m')" by (cases r)
    consider "str_effect m (str_vals m) m'" | "str_effect m ((str_vals m)(h \<mapsto> s @ txt)) m'"
      using u by (auto simp: str_updated_def r)
    then have "quiet t m m' \<and> room t n m'"
    proof cases
      case 1
      then show ?thesis using str_quiet [OF inv 1] room Some len s
        by (auto simp: room_def str_effect_def)
    next
      case 2
      then show ?thesis using str_quiet [OF inv 2, of t] Some len s
        by (auto simp: room_def str_effect_def only_string_upd)
    qed
    then show ?thesis using Some by (simp add: trace_sprintf_def c r)
  qed
qed

lemma length_lit [simp]: "length (lit s) = length s"
  by (simp add: lit_def)

lemma fmt_nat_nonzero: "0 \<notin> set (fmt_nat n)"
proof (induction n rule: fmt_nat.induct)
  case (1 n)
  have nz: "(of_nat (48 + d) :: u8) \<noteq> 0" if "d < 10" for d
  proof -
    have "unat (of_nat (48 + d) :: u8) = 48 + d" using that by (simp add: unat_of_nat take_bit_nat_eq_self del: of_nat_add)
    then show ?thesis by (metis add_is_0 unat_0 zero_neq_numeral)
  qed
  show ?case using 1 nz [of n] nz [of "n mod 10"] by (subst fmt_nat.simps) (auto simp del: of_nat_add)
qed

lemma length_fmt_nat: "n < 10 ^ Suc k \<Longrightarrow> length (fmt_nat n) \<le> Suc k"
proof (induction k arbitrary: n)
  case 0
  then show ?case by (subst fmt_nat.simps) simp
next
  case (Suc k)
  then have "length (fmt_nat (n div 10)) \<le> Suc k" by simp
  then show ?case by (subst fmt_nat.simps) simp
qed

lemma length_fmt_u16: "length (fmt_nat (unat (v :: u16))) \<le> 5"
  using length_fmt_nat [of "unat v" 4] unat_lt_u16 [of v] by simp

lemma length_fmt_u32: "length (fmt_nat (unat (v :: u32))) \<le> 10"
  using length_fmt_nat [of "unat v" 9] unat_lt_u32 [of v] by simp

lemma length_fmt_u8: "length (fmt_nat (unat (v :: u8))) \<le> 3"
  using length_fmt_nat [of "unat v" 2] unat_lt_u8 [of v] by simp

lemmas lit_simps = lit_def fmt_nat_nonzero length_fmt_u8 length_fmt_u16 length_fmt_u32

lemma fmt_s_ext: "ext_string m p = Some s \<Longrightarrow> fmt_s pre (Some p) m = Some (lit pre @ s)"
  by (simp add: fmt_s_def ext_stringD)

section \<open>Specifications of the steps\<close>

text \<open>
  A step's outcome: the packet \<open>h\<close> holds \<open>ys\<close>, or an error for which there is a reason.
\<close>

definition stepped ::
  "ptr \<Rightarrow> nat \<Rightarrow> 'z smem_scheme \<Rightarrow> addr \<Rightarrow> u8 list \<Rightarrow> bool \<Rightarrow> int \<times> 'z smem_scheme \<Rightarrow> bool" where
  "stepped t n m h ys valid = (\<lambda>(r, m'). touches t h m m' \<and> room t n m' \<and> buf_bytes m' h \<noteq> None \<and>
     (r \<noteq> 0 \<and> (valid \<longrightarrow> \<not> alloc_total m) \<or> r = 0 \<and> valid \<and> buf_bytes m' h = Some (map Some ys)))"

section \<open>Rules for sequences of writes\<close>

text \<open>
  The packet \<open>h\<close> is being filled: since \<open>m0\<close> nothing else changed, it holds \<open>bs\<close> and has
  room for \<open>k\<close> more bytes at \<open>a\<close>, and the trace log has room for \<open>n\<close> more characters.
\<close>

definition filling ::
  "ptr \<Rightarrow> nat \<Rightarrow> 'z smem_scheme \<Rightarrow> addr \<Rightarrow> addr \<Rightarrow> u8 list \<Rightarrow> nat \<Rightarrow> 'z smem_scheme \<Rightarrow> bool" where
  "filling t n m0 h a bs k m \<longleftrightarrow> touches t h m0 m \<and> cursor m h a (map Some bs) k \<and> room t n m"

lemma filling_inv: "filling t n m0 h a bs k m \<Longrightarrow> heap_inv m"
  by (auto simp: filling_def dest: touchesD)

lemma filling_u_char:
  "filling t n m0 h a bs k m \<Longrightarrow> k \<noteq> 0 \<or> bs \<noteq> [] \<Longrightarrow> BUFFER_u_char (Some h) m = Some (Some a)"
  by (auto simp: filling_def intro: cursor_u_char)

lemma filling_ext: "filling t n m0 h a bs k m \<Longrightarrow> ext_string m p = ext_string m0 p"
  by (auto simp: filling_def dest: touchesD)

lemma filling_room: "filling t n m0 h a bs k m \<Longrightarrow> n' \<le> n \<Longrightarrow> filling t n' m0 h a bs k m"
  by (auto simp: filling_def intro: room_le)

lemma filling_trace:
  assumes F: "filling t l m0 h a bs k m" and l: "length s + n \<le> l" and z: "0 \<notin> set s"
    and k: "\<And>m'. filling t n m0 h a bs k m' \<Longrightarrow> ok (f m') Q"
  shows "ok (trace_sprintf t (Some s) m \<bind> f) Q"
proof (rule ok_bindI [OF trace_sprintf_spec [OF filling_inv [OF F] _ z]])
  show "room t (length s + n) m" using F l by (auto simp: filling_def intro: room_le)
  fix m' assume "quiet t m m' \<and> room t n m'"
  then have "filling t n m0 h a bs k m'"
    using F by (auto simp: filling_def quiet_cursor intro: touches_trans quiet_touches)
  then show "ok (f m') Q" by (rule k)
qed

lemma filling_wrote:
  assumes F: "filling t n m0 h a bs k m" and c: "ok c (wrote t m h a cs k')"
    and k: "\<And>m'. filling t n m0 h a cs k' m' \<Longrightarrow> ok (f (Some (a, length cs), m')) Q"
  shows "ok (c \<bind> f) Q"
proof (rule ok_bind2I [OF c])
  fix it m' assume "wrote t m h a cs k' (it, m')"
  then show "ok (f (it, m')) Q"
    using F by (auto simp: filling_def wrote_def intro!: k intro: touches_trans room_cong)
qed

lemma filling_byte:
  assumes F: "filling t n m0 h a bs k m" and k: "k \<noteq> 0" "i = length bs"
    and "\<And>m'. filling t n m0 h a (bs @ [v]) (k - 1) m' \<Longrightarrow> ok (f (Some (a, length (bs @ [v])), m')) Q"
  shows "ok (byteutil_writeByte (Some (a, i)) v m \<bind> f) Q"
  by (rule filling_wrote [OF F]) (use assms in \<open>auto simp: filling_def intro!: writeByte_spec filling_inv [OF F]\<close>)

lemma filling_int:
  assumes F: "filling t n m0 h a bs k m" and k: "2 \<le> k" "i = length bs"
    and "\<And>m'. filling t n m0 h a (bs @ be16 v) (k - 2) m' \<Longrightarrow> ok (f (Some (a, length (bs @ be16 v)), m')) Q"
  shows "ok (byteutil_writeInt (Some (a, i)) v m \<bind> f) Q"
  by (rule filling_wrote [OF F]) (use assms in \<open>auto simp: filling_def intro!: writeInt_spec filling_inv [OF F]\<close>)

lemma filling_utf:
  assumes F: "filling t n m0 h a bs k m" and src: "case p of None \<Rightarrow> s = [] | Some q \<Rightarrow> ext_string m0 q = Some s"
    and len: "length s \<le> 65535" and k: "length s + 2 \<le> k" "i = length bs" and l: "l = of_nat (length s)"
    and c: "\<And>m'. filling t n m0 h a (bs @ utf s) (k - length s - 2) m' \<Longrightarrow> ok (f (Some (a, length (bs @ utf s)), m')) Q"
  shows "ok (byteutil_writeUTF (Some (a, i)) p l m \<bind> f) Q"
proof (rule filling_wrote [OF F, where cs = "bs @ utf s" and k' = "k - length s - 2"])
  show "ok (byteutil_writeUTF (Some (a, i)) p l m) (wrote t m h a (bs @ utf s) (k - length s - 2))"
    unfolding k l
    by (rule writeUTF_spec [OF filling_inv [OF F]])
      (use F src len k filling_ext [OF F] in \<open>auto simp: filling_def split: option.splits\<close>)
qed (rule c)

lemma filling_bytes:
  assumes F: "filling t n m0 h a bs k m" and k: "length ys \<le> k" "i = length bs" and xs: "xs = map Some ys"
    and c: "\<And>m'. filling t n m0 h a (bs @ ys) (k - length ys) m' \<Longrightarrow> ok (f m') Q"
  shows "ok (write_bytes (a, i) xs m \<bind> f) Q"
proof (rule ok_bindI [OF write_cursor [OF filling_inv [OF F], where t = t]])
  fix m' assume W: "touches t h m m' \<and> cursor m' h a (map Some bs @ xs) (k - length xs) \<and> str_vals m' = str_vals m"
  then have "filling t n m0 h a (bs @ ys) (k - length ys) m'"
    using F xs by (auto simp: filling_def intro: touches_trans room_cong)
  then show "ok (f m') Q" by (rule c)
qed (use assms in \<open>auto simp: filling_def\<close>)

lemma filling_stepped: "filling t n m0 h a bs 0 m \<Longrightarrow> stepped t n m0 h bs True (0, m)"
  by (auto simp: filling_def stepped_def dest: cursor_bytes)

text \<open>Enlarging the packet starts the filling of the new bytes.\<close>

lemma filling_enlarge:
  assumes T: "touches t h m0 m" and xs: "buf_bytes m h = Some (map Some bs)" and room: "room t n m"
    and l: "l \<noteq> 0" and fits: "length bs + unat l < 2 ^ 32"
    and err: "\<And>(r :: int) m'. r \<noteq> 0 \<Longrightarrow> \<not> alloc_total m0 \<Longrightarrow> touches t h m0 m' \<Longrightarrow> room t n m' \<Longrightarrow>
        buf_bytes m' h = Some (map Some bs) \<Longrightarrow> ok (f (r, m')) Q"
    and good: "\<And>a m'. filling t n m0 h a bs (unat l) m' \<Longrightarrow> BUFFER_u_char (Some h) m' = Some (Some a) \<Longrightarrow>
        ok (f (0, m')) Q"
  shows "ok (BUFFER_enlarge (Some h) l m \<bind> f) Q"
proof (rule ok_bind2I [OF enlarge_cursor [OF touchesD(1) [OF T] xs l, where t = t]])
  fix r :: int and m' assume E: "case (r, m') of (r, m') \<Rightarrow> touches t h m m' \<and> str_vals m' = str_vals m \<and>
     (r \<noteq> 0 \<and> \<not> alloc_total m \<and> buf_bytes m' h = Some (map Some bs) \<or> r = 0 \<and> (\<exists>a. cursor m' h a (map Some bs) (unat l)))"
  show "ok (f (r, m')) Q"
  proof (cases "r = 0")
    case False
    with E err [of r m'] T room touchesD(3) [OF T] show ?thesis by (auto intro: touches_trans room_cong)
  next
    case True
    with E obtain a where "cursor m' h a (map Some bs) (unat l)" by auto
    with E T room have F: "filling t n m0 h a bs (unat l) m'"
      by (auto simp: filling_def intro: touches_trans room_cong)
    have "unat l \<noteq> 0" using l by (simp add: unat_eq_0_u32)
    then show ?thesis using good [OF F filling_u_char [OF F]] True by simp
  qed
qed (use fits in simp)

lemma steppedI_err: "touches t h m0 m \<Longrightarrow> room t n m \<Longrightarrow> buf_bytes m h = Some xs \<Longrightarrow> r \<noteq> 0 \<Longrightarrow> (valid \<Longrightarrow> \<not> alloc_total m0) \<Longrightarrow>
    stepped t n m0 h ys valid (r, m)"
  by (simp add: stepped_def)

section \<open>Allocating and dropping a packet\<close>

lemma new_packet:
  assumes inv: "heap_inv m"
    and err: "\<And>m'. \<not> alloc_total m \<Longrightarrow> enc_effect None m (buf_bytes m) m' \<Longrightarrow> ok (f (None, m')) Q"
    and good: "\<And>h m'. buf_bytes m h = None \<Longrightarrow> touches None h m m' \<Longrightarrow> buf_bytes m' h = Some [] \<Longrightarrow>
        buffers m' h = Some \<lparr>buffer = None, buf_size = 0\<rparr> \<Longrightarrow> ok (f (Some h, m')) Q"
  shows "ok (BUFFER_new m \<bind> f) Q"
proof (rule ok_bind2I [OF BUFFER_new_spec])
  show "buf_inv m" using inv by (simp add: heap_inv_def)
  fix r m'
  assume "case (r, m') of (r, m') \<Rightarrow>
     (r = None \<and> \<not> alloc_total m \<and> buf_effect m (buf_bytes m) m') \<or>
     (\<exists>h. r = Some h \<and> buf_bytes m h = None \<and> buffers m' h = Some \<lparr>buffer = None, buf_size = 0\<rparr> \<and>
        buf_effect m ((buf_bytes m)(h \<mapsto> [])) m')"
  then show "ok (f (r, m')) Q"
    using err [of m'] good [of _ m'] buf_effect_enc [OF inv, of "buf_bytes m" m' None] touches_buf [OF inv, of _ "[]" m' None]
    by auto
qed

lemma drop_packet:
  assumes T: "touches t h m0 m" and n: "buf_bytes m0 h = None" and h: "buf_bytes m h = Some zs"
    and k: "\<And>m'. enc_effect t m0 (buf_bytes m0) m' \<Longrightarrow> str_vals m' = str_vals m \<Longrightarrow> ok (f m') Q"
  shows "ok (BUFFER_delete (Some h) m \<bind> f) Q"
proof (rule ok_bindI [OF BUFFER_delete_spec [OF _ h]])
  have inv: "heap_inv m" using T by (rule touchesD)
  then show "buf_inv m" by (simp add: heap_inv_def)
  fix m' assume "buf_effect m ((buf_bytes m)(h := None)) m'"
  from buf_effect_heap [OF inv this] have E: "heap_effect m ((buf_bytes m)(h := None)) (str_vals m) m'" .
  have "(buf_bytes m)(h := None) = buf_bytes m0" using T n by (auto simp: touches_def)
  with E T have "enc_effect t m0 (buf_bytes m0) m'"
    by (auto simp: enc_effect_def heap_effect_def touches_def intro: heap_frame_trans)
  then show "ok (f m') Q" using E by (intro k) (auto simp: heap_effect_def)
qed

lemma filling_pre_build:
  assumes T: "touches t h m0 m" and h: "buf_bytes m h = Some []"
    and b: "buffers m h = Some \<lparr>buffer = None, buf_size = 0\<rparr>" and room: "room t n m" and l: "l \<noteq> 0"
    and err: "\<And>(r :: int) m'. r \<noteq> 0 \<Longrightarrow> \<not> alloc_total m0 \<Longrightarrow> touches t h m0 m' \<Longrightarrow> room t n m' \<Longrightarrow>
        buf_bytes m' h = Some [] \<Longrightarrow> ok (f (r, m')) Q"
    and good: "\<And>a m'. filling t n m0 h a [] (unat l) m' \<Longrightarrow> BUFFER_u_char (Some h) m' = Some (Some a) \<Longrightarrow>
        ok (f (0, m')) Q"
  shows "ok (BUFFER_pre_build (Some h) l m \<bind> f) Q"
proof (rule ok_bind2I [OF BUFFER_pre_build_spec [OF _ h b, where n = l]])
  have inv: "heap_inv m" using T by (rule touchesD)
  then show "buf_inv m" by (simp add: heap_inv_def)
  fix r :: int and m'
  assume "case (r, m') of (r, m') \<Rightarrow>
     (r \<noteq> 0 \<and> (l = 0 \<or> buffer \<lparr>buffer = None, buf_size = 0\<rparr> \<noteq> None \<or> \<not> alloc_total m) \<and> buf_effect m (buf_bytes m) m') \<or>
     (r = 0 \<and> l \<noteq> 0 \<and> buffer \<lparr>buffer = None, buf_size = 0\<rparr> = None \<and>
       buf_effect m ((buf_bytes m)(h \<mapsto> replicate (unat l) None)) m')"
  then consider (bad) "r \<noteq> 0" "\<not> alloc_total m" "buf_effect m (buf_bytes m) m'"
    | (ok) "r = 0" "buf_effect m ((buf_bytes m)(h \<mapsto> replicate (unat l) None)) m'" using l by auto
  then show "ok (f (r, m')) Q"
  proof cases
    case bad
    then show ?thesis
      using err [of r m'] touches_buf_same [OF inv bad(3), of t h] h T room touchesD(3) [OF T]
      by (auto intro: touches_trans room_cong)
  next
    case ok
    note B = touches_buf [OF inv ok(2), of t]
    have nz: "unat l \<noteq> 0" using l by (simp add: unat_eq_0_u32)
    have "\<exists>a. buf_at m' h a"
    proof -
      have "buf_bytes m' h = Some (replicate (unat l) None)" using B by simp
      then show ?thesis using nz by (cases rule: buf_bytes_cases) (auto simp: buf_at_def)
    qed
    then obtain a where "buf_at m' h a" by blast
    then have F: "filling t n m0 h a [] (unat l) m'"
      using B T room by (auto simp: filling_def cursor_def intro: touches_trans room_cong)
    then show ?thesis using good [OF F filling_u_char [OF F]] nz ok by simp
  qed
qed

text \<open>A builder's outcome: a fresh buffer that holds the packet, or null for a reason.\<close>

definition built :: "ptr \<Rightarrow> 'z smem_scheme \<Rightarrow> u8 list \<Rightarrow> bool \<Rightarrow> ptr \<times> 'z smem_scheme \<Rightarrow> bool" where
  "built t m ys valid = (\<lambda>(r, m').
     (r = None \<and> (valid \<longrightarrow> \<not> alloc_total m) \<and> enc_effect t m (buf_bytes m) m') \<or>
     (\<exists>h. r = Some h \<and> valid \<and> buf_bytes m h = None \<and> enc_effect t m ((buf_bytes m)(h \<mapsto> map Some ys)) m'))"

lemma built_NULL: "enc_effect t m (buf_bytes m) m' \<Longrightarrow> (valid \<Longrightarrow> \<not> alloc_total m) \<Longrightarrow> built t m ys valid (None, m')"
  by (simp add: built_def)

lemma built_Some:
  "touches t h m m' \<Longrightarrow> buf_bytes m h = None \<Longrightarrow> buf_bytes m' h = Some (map Some ys) \<Longrightarrow> valid \<Longrightarrow>
   built t m ys valid (Some h, m')"
  by (auto simp: built_def intro: touches_effect)

lemma filling_built:
  "filling t n m0 h a bs 0 m \<Longrightarrow> buf_bytes m0 h = None \<Longrightarrow> built t m0 bs True (Some h, m)"
  by (rule built_Some) (auto simp: filling_def dest: cursor_bytes)

end
