(* ===== verification/Codec_Packets.thy ===== *)
theory Codec_Packets
  imports Codec_Rules
begin

text \<open>
  What the packet builders of \<^verbatim>\<open>mqtt_codec.c\<close> produce, byte by byte, and when they
  return null.
\<close>

section \<open>Specifications of the header builders\<close>

lemma SubscribeTypeVariableHeader_spec:
  assumes inv: "heap_inv m" and h: "buf_bytes m h = Some []"
  shows "ok (constructSubscibeTypeVariableHeader (Some h) pid m) (stepped None 0 m h (be16 pid) True)"
  unfolding constructSubscibeTypeVariableHeader_def
proof (rule filling_enlarge [OF touches_refl [OF inv], where t = None and bs = "[]" and n = 0], goal_cases)
  case (6 a m1)
  have "ok (byteutil_writeInt (Some (a, 0)) pid m1 \<bind> (\<lambda>(it, m). Some (0, m))) (stepped None 0 m h (be16 pid) True)"
    by (rule filling_int [OF 6(1)]) (auto intro: filling_stepped)
  then show ?case using 6 by simp
qed (use h in \<open>auto intro: steppedI_err\<close>)

definition connect_header :: "u16 \<Rightarrow> u8 list" where
  "connect_header keepalive = utf (lit ''MQTT'') @ [PROTOCOL_NUMBER, 0] @ be16 keepalive"

lemma ConnectVariableHeader_spec:
  assumes inv: "heap_inv m" and h: "buf_bytes m h = Some []" and room: "room t (64 + n) m"
  shows "ok (constructConnectVariableHeader (Some h) opts t m)
    (stepped t n m h (connect_header (keepAliveInterval opts)) True)"
  unfolding constructConnectVariableHeader_def
proof (rule filling_enlarge [OF touches_refl [OF inv], where t = t and bs = "[]" and n = "64 + n"], goal_cases)
  case (5 r m1)
  then show ?case using room_le [of t "64 + n" m1 n] by (auto intro: steppedI_err)
next
  case (6 a m1)
  have M: "ext_string m (Literal (lit ''MQTT'')) = Some (lit ''MQTT'')" by (simp add: ext_string_def lit_def)
  have sz: "unat CONNECT_VARIABLE_HEADER_SIZE = 10" by (simp add: c_consts)
  let ?txt = "lit '' | VER: '' @ fmt_nat (unat PROTOCOL_NUMBER) @ lit '' | KEEPALIVE: '' @
                     fmt_nat (unat (keepAliveInterval opts)) @ lit '' | FLAGS:''"
  have len: "length ?txt + n \<le> 64 + n" using length_fmt_u16 [of "keepAliveInterval opts"] length_fmt_u8 [of PROTOCOL_NUMBER]
    by simp
  have z: "0 \<notin> set ?txt" by (simp add: fmt_nat_nonzero) (simp add: lit_def)
  have "ok (trace_sprintf t (Some ?txt) m1 \<bind> (\<lambda>m.
      byteutil_writeUTF (Some (a, 0)) (Some (Literal (lit ''MQTT''))) 4 m \<bind> (\<lambda>(it, m).
      byteutil_writeByte it PROTOCOL_NUMBER m \<bind> (\<lambda>(it, m).
      byteutil_writeByte it 0 m \<bind> (\<lambda>(it, m).
      byteutil_writeInt it (keepAliveInterval opts) m \<bind> (\<lambda>(it, m). Some (0, m)))))))
    (stepped t n m h (connect_header (keepAliveInterval opts)) True)"
    apply (rule filling_trace [OF 6(1) len z])
    apply (rule filling_utf [where s = "lit ''MQTT''"], assumption, simp_all add: M sz del: ok_bind)
    apply (rule filling_byte, assumption, simp_all del: ok_bind)
    apply (rule filling_byte, assumption, simp_all del: ok_bind)
    apply (rule filling_int, assumption, simp_all del: ok_bind)
    by (auto simp: connect_header_def intro!: filling_stepped)
  then show ?case using 6 by simp
qed (use h room in \<open>auto simp: c_consts\<close>)

lemma too_long: "length s < 2 ^ 32 \<Longrightarrow> (of_nat (length s) :: u32) > USHRT_MAX \<longleftrightarrow> length s > 65535"
  by (simp add: USHRT_MAX_def word_less_nat_alt unat_of_nat take_bit_nat_eq_self)

lemma ucast_len: "length s \<le> 65535 \<Longrightarrow> (ucast (of_nat (length s) :: u32) :: u16) = of_nat (length s)"
  by (rule word_unat_eq_iff [THEN iffD2]) (simp add: unsigned_ucast_eq unat_of_nat take_bit_nat_eq_self)

lemma buf_length_of: "buf_bytes m h = Some (map Some bs) \<Longrightarrow> BUFFER_length (Some h) m = Some (of_nat (length bs))"
  using BUFFER_length_spec [of m h "map Some bs"] by simp

definition publish_header :: "cstring \<Rightarrow> QOS_VALUE \<Rightarrow> u16 \<Rightarrow> u8 list" where
  "publish_header topic qos pid = utf topic @ (if qos \<noteq> DELIVER_AT_MOST_ONCE then be16 pid else [])"

lemma PublishVariableHeader_spec:
  assumes inv: "heap_inv m" and h: "buf_bytes m h = Some (map Some bs)"
    and topic: "ext_string m (topicName ph) = Some topic" and fits: "length bs + length topic + 4 < 2 ^ 32"
    and room: "room t (length topic + 64 + n) m"
  shows "ok (constructPublishVariableHeader (Some h) ph t m)
    (stepped t n m h (bs @ publish_header topic (pub_qos ph) (packetId ph)) (length topic \<le> 65535))"
proof (cases "length topic \<le> 65535")
  case False
  then show ?thesis
    using ext_stringD(1) [OF topic] h fits too_long [of topic] touches_refl [OF inv] room_le [OF room, of n]
    by (simp add: constructPublishVariableHeader_def buf_length_of stepped_def)
next
  case len: True
  have str: "strlen (topicName ph) m = Some (of_nat (length topic))" using ext_stringD(1) [OF topic] by simp
  have short: "\<not> USHRT_MAX < (of_nat (length topic) :: u32)" using too_long [of topic] len by simp
  have lb: "unat (of_nat (length bs) :: u32) = length bs" using fits by simp
  have u: "unat (4 + of_nat (length topic) :: u32) = length topic + 4" "unat (of_nat (length topic) + 2 :: u32) = length topic + 2"
    by (rule unat_eq_of_nat; use len in simp)+
  have nz: "4 + of_nat (length topic) \<noteq> (0 :: u32)" "of_nat (length topic) + 2 \<noteq> (0 :: u32)"
    using u by (auto simp flip: unat_eq_0_u32)
  have z: "0 \<notin> set (lit '' | TOPIC_NAME: '' @ topic)" using ext_stringD(2) [OF topic] by (simp add: lit_def)
  have zp: "0 \<notin> set (lit '' | PACKET_ID: '' @ fmt_nat (unat (packetId ph)))"
    by (simp add: fmt_nat_nonzero) (simp add: lit_def)
  have fmt: "fmt_s '' | TOPIC_NAME: '' (Some (topicName ph)) m1 = Some (lit '' | TOPIC_NAME: '' @ topic)"
    if "filling t k m h a bs' l m1" for m1 k a bs' l
    using filling_ext [OF that, of "topicName ph"] topic by (simp add: fmt_s_ext)
  note start = filling_enlarge [OF touches_refl [OF inv], where t = t and bs = bs and n = "length topic + 64 + n"]
  note exec = h str short len buf_length_of ucast_len lb fmt
  show ?thesis
  proof (cases "pub_qos ph = DELIVER_AT_MOST_ONCE")
    case True
    show ?thesis unfolding constructPublishVariableHeader_def
    proof (simp del: ok_bind add: exec True, rule start, goal_cases)
      case (5 r m1)
      then show ?case using room_le [OF 5(4), of n] by (auto intro: steppedI_err)
    next
      case (6 a m1)
      show ?case
        apply (simp add: 6 exec del: ok_bind)
        apply (rule filling_utf [OF 6(1), where s = topic]; simp add: u len topic fmt del: ok_bind)
        apply (rule filling_trace [where n = n and s = "lit '' | TOPIC_NAME: '' @ topic"], assumption, simp, rule z)
        by (auto simp: publish_header_def True intro!: filling_stepped)
    qed (use u nz fits room h in auto)
  next
    case False
    show ?thesis unfolding constructPublishVariableHeader_def
    proof (simp del: ok_bind add: exec False, rule start, goal_cases)
      case (5 r m1)
      then show ?case using room_le [OF 5(4), of n] by (auto intro: steppedI_err)
    next
      case (6 a m1)
      show ?case
        apply (simp add: 6 exec del: ok_bind)
        apply (rule filling_utf [OF 6(1), where s = topic]; simp add: u len topic fmt del: ok_bind)
        apply (rule filling_trace [where n = "32 + n" and s = "lit '' | TOPIC_NAME: '' @ topic"], assumption, simp, rule z)
        apply (rule filling_trace [where n = n], assumption, (use length_fmt_u16 [of "packetId ph"] in simp), rule zp)
        apply (rule filling_int, assumption, simp_all del: ok_bind)
        by (auto simp: publish_header_def False intro!: filling_stepped)
    qed (use u nz fits room h in auto)
  qed
qed

section \<open>Packets without a variable part\<close>

lemma PublishReply_spec:
  assumes inv: "heap_inv m"
  shows "ok (constructPublishReply type flags pid m) (built None m ((type OR flags) # 2 # be16 pid) True)"
  unfolding constructPublishReply_def
proof (rule new_packet [OF inv], goal_cases)
  case (1 m')
  then show ?case by (auto intro: built_NULL)
next
  case (2 h m1)
  show ?case
  proof (simp del: ok_bind, rule filling_pre_build [OF 2(2-4), where n = 0], goal_cases)
    case (3 r m2)
    show ?case
      by (simp add: 3(1) del: ok_bind, rule drop_packet [OF 3(3) 2(1) 3(5)])
        (use 3 in \<open>auto intro: built_NULL\<close>)
  next
    case (4 a m2)
    show ?case
      apply (simp add: 4(2) del: ok_bind)
      apply (rule filling_bytes [OF 4(1), where ys = "[type OR flags]"], simp_all del: ok_bind)
      apply (rule filling_bytes [where ys = "[2]"], assumption, simp_all del: ok_bind)
      apply (rule filling_int, assumption, simp_all del: ok_bind)
      using filling_built [OF _ 2(1)] apply auto
      done
  qed simp_all
qed

lemma Disconnect_spec:
  assumes inv: "heap_inv m"
  shows "ok (mqtt_codec_disconnect m) (built None m [DISCONNECT_TYPE, 0] True)"
  unfolding mqtt_codec_disconnect_def
proof (rule new_packet [OF inv], goal_cases)
  case (1 m')
  then show ?case by (auto intro: built_NULL)
next
  case (2 h m1)
  show ?case
  proof (simp del: ok_bind, rule filling_enlarge [OF 2(2), where n = 0 and bs = "[]"], goal_cases)
    case (5 r m2)
    show ?case
      by (simp add: 5(1) del: ok_bind, rule drop_packet [OF 5(3) 2(1) 5(5)])
        (use 5 in \<open>auto intro: built_NULL\<close>)
  next
    case (6 a m2)
    show ?case
      apply (simp add: 6(2) del: ok_bind)
      apply (rule filling_bytes [OF 6(1), where ys = "[DISCONNECT_TYPE]"], simp_all del: ok_bind)
      apply (rule filling_bytes [where ys = "[0]"], assumption, simp_all del: ok_bind)
      using filling_built [OF _ 2(1)] apply auto
      done
  qed (use 2 in simp_all)
qed

lemma Ping_spec:
  assumes inv: "heap_inv m"
  shows "ok (mqtt_codec_ping m) (built None m [PINGREQ_TYPE, 0] True)"
  unfolding mqtt_codec_ping_def
proof (rule new_packet [OF inv], goal_cases)
  case (1 m')
  then show ?case by (auto intro: built_NULL)
next
  case (2 h m1)
  show ?case
  proof (simp del: ok_bind, rule filling_enlarge [OF 2(2), where n = 0 and bs = "[]"], goal_cases)
    case (5 r m2)
    show ?case
      by (simp add: 5(1) del: ok_bind, rule drop_packet [OF 5(3) 2(1) 5(5)])
        (use 5 in \<open>auto intro: built_NULL\<close>)
  next
    case (6 a m2)
    show ?case
      apply (simp add: 6(2) del: ok_bind)
      apply (rule filling_bytes [OF 6(1), where ys = "[PINGREQ_TYPE]"], simp_all del: ok_bind)
      apply (rule filling_bytes [where ys = "[0]"], assumption, simp_all del: ok_bind)
      using filling_built [OF _ 2(1)] apply auto
      done
  qed (use 2 in simp_all)
qed

section \<open>The remaining length\<close>

text \<open>The encoding of the MQTT standard: seven bits a byte, the top bit set on all but the last.\<close>

fun remaining_length :: "nat \<Rightarrow> u8 list" where
  "remaining_length n =
     (if n < 128 then [of_nat n] else of_nat (n mod 128 + 128) # remaining_length (n div 128))"

declare remaining_length.simps [simp del]

lemma length_remaining_length: "length (remaining_length n) \<le> Suc k \<longleftrightarrow> n < 128 ^ Suc k"
proof (induction k arbitrary: n)
  case 0
  then show ?case by (subst remaining_length.simps) (auto simp: remaining_length.simps [of "n div 128"])
next
  case (Suc k)
  have "n div 128 < 128 ^ Suc k \<longleftrightarrow> n < 128 ^ Suc (Suc k)"
    by (simp add: div_less_iff_less_mult mult.commute)
  then show ?case using Suc.IH [of "n div 128"]
    by (subst remaining_length.simps) (auto intro: order.strict_trans2)
qed

lemma remaining_length_ne [simp]: "remaining_length n \<noteq> []"
  by (subst remaining_length.simps) simp

lemma or_128: "n < 128 \<Longrightarrow> (of_nat n :: u8) OR 0x80 = of_nat (n + 128)"
proof -
  assume n: "n < 128"
  have "bit (n AND 2 ^ 7) i \<longleftrightarrow> bit n i \<and> i = 7" for i
    by (simp only: bit_and_iff bit_exp_iff) auto
  moreover have "\<not> bit n 7" using n by (simp add: bit_iff_odd)
  ultimately have "n AND 2 ^ 7 = 0" by (intro bit_eqI) auto
  then have "n OR 2 ^ 7 = n + 2 ^ 7" by (simp add: disjunctive_add_eq_or)
  then have "of_nat (n OR 2 ^ 7) = (of_nat (n + 128) :: u8)" by simp
  then show ?thesis by (simp add: of_nat_or_eq)
qed

lemma remainSize_loop_eq:
  "remainSize_loop w acc =
     (if length acc + length (remaining_length (unat w)) \<le> 4
      then Some (acc @ remaining_length (unat w)) else None)"
proof (induction w acc rule: remainSize_loop.induct)
  case (1 w acc)
  have d: "unat (w div 128) = unat w div 128" "unat (w mod 128) = unat w mod 128"
    by (simp_all add: unat_div unat_mod)
  have pos: "w div 128 > 0 \<longleftrightarrow> \<not> unat w < 128"
    using d by (simp add: word_less_nat_alt) linarith
  have e: "(ucast (w mod 128) :: u8) = of_nat (unat w mod 128)"
    by (rule word_unat_eq_iff [THEN iffD2]) (simp add: unsigned_ucast_eq d unat_of_nat take_bit_nat_eq_self)
  show ?case
  proof (cases "unat w < 128")
    case True
    then show ?thesis using pos e
      by (subst remainSize_loop.simps) (auto simp: remaining_length.simps [of "unat w"] Let_def)
  next
    case False
    then have ee: "(ucast (w mod 128) :: u8) OR NEXT_128_CHUNK = of_nat (unat w mod 128 + 128)"
      unfolding e c_consts by (intro or_128) simp
    show ?thesis
    proof (cases "length acc \<ge> 4")
      case True
      moreover obtain x xs where "remaining_length (unat w) = x # xs" by (cases "remaining_length (unat w)") auto
      ultimately show ?thesis by (subst remainSize_loop.simps) (auto simp: Let_def)
    next
      case acc: False
      have IH: "remainSize_loop (w div 128) (acc @ [of_nat (unat w mod 128 + 128)]) =
          (if length acc + 1 + length (remaining_length (unat w div 128)) \<le> 4
           then Some (acc @ [of_nat (unat w mod 128 + 128)] @ remaining_length (unat w div 128)) else None)"
        using 1 [OF refl refl refl acc] pos False ee by (simp add: d)
      show ?thesis
        using False pos acc ee IH
        by (subst remainSize_loop.simps) (simp add: remaining_length.simps [of "unat w"] Let_def)
    qed
  qed
qed

section \<open>The fixed header\<close>

lemma prepend_touch:
  assumes inv: "heap_inv m" and xs: "buf_bytes m h1 = Some xs" "xs \<noteq> []" and ys: "buf_bytes m h2 = Some ys" "ys \<noteq> []"
    and ne: "h1 \<noteq> h2" and fits: "length xs + length ys < 2 ^ 32"
  shows "ok (BUFFER_prepend (Some h1) (Some h2) m) (\<lambda>(r, m'). touches None h1 m m' \<and>
     (r \<noteq> 0 \<and> \<not> alloc_total m \<and> buf_bytes m' h1 = Some xs \<or> r = 0 \<and> buf_bytes m' h1 = Some (ys @ xs)))"
proof -
  obtain b1 where b1: "buffers m h1 = Some b1" "buffer b1 \<noteq> None" using xs by (auto elim!: buf_bytes_cases)
  obtain b2 where b2: "buffers m h2 = Some b2" "buffer b2 \<noteq> None" using ys by (auto elim!: buf_bytes_cases)
  have binv: "buf_inv m" using inv by (simp add: heap_inv_def)
  show ?thesis
    by (rule ok_mono2 [OF BUFFER_prepend_spec [OF binv xs(1) ys(1) b1 b2 ne fits]])
      (use touches_buf_same [OF inv] touches_buf [OF inv] xs in auto)
qed

definition fixed_header :: "CONTROL_PACKET_TYPE \<Rightarrow> u8 \<Rightarrow> nat \<Rightarrow> u8 list" where
  "fixed_header type flags n = (type OR flags) # remaining_length n"

lemma FixedHeader_spec:
  assumes inv: "heap_inv m" and h: "buf_bytes m h = Some (map Some bs)" and ne: "bs \<noteq> []"
    and len: "length bs < 2 ^ 28"
  shows "ok (constructFixedHeader (Some h) type flags m) (\<lambda>(r, m'). touches None h m m' \<and>
     (r \<noteq> 0 \<and> \<not> alloc_total m \<and> buf_bytes m' h = Some (map Some bs) \<or>
      r = 0 \<and> buf_bytes m' h = Some (map Some (fixed_header type flags (length bs) @ bs))))"
proof -
  let ?rl = "remaining_length (length bs)"
  let ?Q = "\<lambda>(r, m'). touches None h m m' \<and>
     (r \<noteq> 0 \<and> \<not> alloc_total m \<and> buf_bytes m' h = Some (map Some bs) \<or>
      r = 0 \<and> buf_bytes m' h = Some (map Some (fixed_header type flags (length bs) @ bs)))"
  have rl4: "length ?rl \<le> 4" using length_remaining_length [of "length bs" 3] len by simp
  have u: "unat (of_nat (length bs) :: u32) = length bs" using len by simp
  have loop: "remainSize_loop (of_nat (length bs)) [] = Some ?rl" using rl4 by (simp add: remainSize_loop_eq u)
  have l: "unat (of_nat (length ?rl) + 1 :: u32) = length ?rl + 1"
    by (rule unat_eq_of_nat) (use rl4 in simp_all)
  have nz: "of_nat (length ?rl) + 1 \<noteq> (0 :: u32)" using l by (auto simp flip: unat_eq_0_u32)
  show ?thesis
    unfolding constructFixedHeader_def
  proof (simp del: ok_bind add: buf_length_of [OF h] loop, rule new_packet [OF inv], goal_cases)
    case (1 m')
    then show ?case using h by (auto simp: enc_effect_def touches_def)
  next
    case (2 f m1)
    have fh: "f \<noteq> h" using 2(1) h by auto
    show ?case
    proof (simp del: ok_bind, rule filling_pre_build [OF 2(2-4), where n = 0], goal_cases)
      case (3 r m2)
      show ?case
        by (simp add: 3(1) del: ok_bind, rule drop_packet [OF 3(3) 2(1) 3(5)])
          (use 3 h in \<open>auto simp: enc_effect_def touches_def\<close>)
    next
      case (4 a m2)
      show ?case
      proof (simp add: 4(2) del: ok_bind, rule filling_bytes [OF 4(1), where ys = "[type OR flags]"], goal_cases)
        case (4 m3)
        show ?case
        proof (rule filling_bytes [OF 4, where ys = ?rl], goal_cases)
          case (4 m4)
          then have T: "touches None f m m4" and f4: "buf_bytes m4 f = Some (map Some ((type OR flags) # ?rl))"
            by (auto simp: filling_def l dest: cursor_bytes)
          have h4: "buf_bytes m4 h = Some (map Some bs)" using touchesD(4) [OF T] fh h by auto
          have P: "ok (BUFFER_prepend (Some h) (Some f) m4) (\<lambda>(r, m'). touches None h m4 m' \<and>
            (r \<noteq> 0 \<and> \<not> alloc_total m4 \<and> buf_bytes m' h = Some (map Some bs) \<or>
             r = 0 \<and> buf_bytes m' h = Some (map Some ((type OR flags) # ?rl) @ map Some bs)))"
            by (rule prepend_touch [OF touchesD(1) [OF T] h4 _ f4]) (use ne fh len rl4 in auto)
          show ?case
          proof (rule ok_bind2I [OF P], goal_cases)
            case (1 r m5)
            then have T5: "touches None h m4 m5" by simp
            have f5: "buf_bytes m5 f = Some (map Some ((type OR flags) # ?rl))" using touchesD(4) [OF T5 fh] f4 by simp
            have inv5: "heap_inv m5" using T5 by (rule touchesD)
            then have binv5: "buf_inv m5" by (simp add: heap_inv_def)
            show ?case unfolding prod.case
            proof (rule ok_bindI [OF BUFFER_delete_spec [OF binv5 f5]], goal_cases)
              case (1 m6)
              from buf_effect_heap [OF inv5 this]
              have E: "heap_effect m5 ((buf_bytes m5)(f := None)) (str_vals m5) m6" .
              have "touches None h m m6"
                using E T T5 2(1) unfolding touches_def heap_effect_def
                by (auto intro: heap_frame_trans)
              then show ?case
                using E \<open>case (r, m5) of (r, m') \<Rightarrow> _ r m'\<close> touchesD(3) [OF T] fh
                by (auto simp: heap_effect_def fixed_header_def)
            qed
          qed
        qed (simp_all add: l)
      qed (simp_all add: l)
    qed (use nz in simp_all)
  qed
qed

text \<open>The length of a packet that has no encoding in four bytes: the loop leaves \<open>remainSize\<close>.\<close>

lemma FixedHeader_overflow:
  assumes h: "buf_bytes m h = Some (map Some bs)" and len: "2 ^ 28 \<le> length bs"
  shows "constructFixedHeader (Some h) type flags m = None"
proof -
  have "length bs < 2 ^ 32" using buf_bytes_bound [OF h] by simp
  then have u: "unat (of_nat (length bs) :: u32) = length bs" by simp
  have "\<not> length (remaining_length (length bs)) \<le> 4"
    using length_remaining_length [of "length bs" 3] len by simp
  then have "remainSize_loop (of_nat (length bs)) [] = None" by (simp add: remainSize_loop_eq u)
  then show ?thesis by (simp add: constructFixedHeader_def buf_length_of [OF h])
qed

section \<open>The topic lists of SUBSCRIBE and UNSUBSCRIBE\<close>

lemma stepped_trans: "touches t h m0 m1 \<Longrightarrow> stepped t k m1 h ys v r \<Longrightarrow> stepped t k m0 h ys v r"
  by (auto simp: stepped_def touchesD(3) intro: touches_trans)

definition topic_at :: "'z smem_scheme \<Rightarrow> char_ptr option \<Rightarrow> cstring \<Rightarrow> bool" where
  "topic_at m p s \<longleftrightarrow> (\<exists>q. p = Some q \<and> ext_string m q = Some s)"

lemma topic_at_touches: "touches t h m m' \<Longrightarrow> topic_at m' = topic_at m"
  by (auto simp: topic_at_def fun_eq_iff touchesD(6))

definition topics_fit :: "cstring list \<Rightarrow> bool" where
  "topics_fit ss \<longleftrightarrow> (\<forall>s \<in> set ss. length s \<le> 65535)"

definition subscribe_payload :: "(cstring \<times> QOS_VALUE) list \<Rightarrow> u8 list" where
  "subscribe_payload items = concat (map (\<lambda>(s, q). utf s @ [q]) items)"

definition unsubscribe_payload :: "cstring list \<Rightarrow> u8 list" where
  "unsubscribe_payload ss = concat (map utf ss)"

definition topics_size :: "nat \<Rightarrow> cstring list \<Rightarrow> nat" where
  "topics_size k ss = (\<Sum>s\<leftarrow>ss. length s + k)"

lemma topics_size_simps [simp]: "topics_size k [] = 0" "topics_size k (s # ss) = length s + k + topics_size k ss"
  by (simp_all add: topics_size_def)

lemma length_subscribe_payload: "length ss = length qs \<Longrightarrow> length (subscribe_payload (zip ss qs)) = topics_size 3 ss"
  by (induction ss qs rule: list_induct2) (simp_all add: subscribe_payload_def)

lemma length_unsubscribe_payload: "length (unsubscribe_payload ss) = topics_size 2 ss"
  by (induction ss) (simp_all add: unsubscribe_payload_def)

lemma Subscribe_loop_spec:
  assumes "heap_inv m" "buf_bytes m h = Some (map Some bs)"
    and "list_all2 (\<lambda>i s. topic_at m (subscribeTopic i) s) (take n items) ss" "n \<le> length items"
    and "length bs + topics_size 3 ss < 2 ^ 32" "room t (topics_size 64 ss + k) m"
  shows "ok (addListItemsToSubscribe_loop h items n t m)
     (stepped t k m h (bs @ subscribe_payload (zip ss (map qosReturn (take n items)))) (topics_fit ss))"
  using assms
proof (induction ss arbitrary: items n m bs)
  case Nil
  then have "n = 0" by (cases items) auto
  with Nil show ?case by (auto simp: stepped_def topics_fit_def subscribe_payload_def touches_refl)
next
  case (Cons s ss)
  obtain item rest n' where I: "items = item # rest" "n = Suc n'"
    using Cons.prems(3,4) by (cases items; cases n) auto
  obtain p where p: "subscribeTopic item = Some p" and ext: "ext_string m p = Some s"
    using Cons.prems(3) I by (auto simp: topic_at_def)
  let ?ys = "bs @ subscribe_payload (zip (s # ss) (map qosReturn (take n items)))"
  have str: "strlen p m = Some (of_nat (length s))" using ext_stringD(1) [OF ext] by simp
  have lb: "unat (of_nat (length bs) :: u32) = length bs" using Cons.prems(5) by simp
  note exec = I p str buf_length_of [OF Cons.prems(2)] lb
  show ?case
  proof (cases "length s \<le> 65535")
    case False
    then show ?thesis
      using exec too_long [of s] Cons.prems touches_refl [OF Cons.prems(1)] room_le [OF Cons.prems(6), of k]
      by (simp add: stepped_def topics_fit_def)
  next
    case len: True
    have short: "\<not> USHRT_MAX < (of_nat (length s) :: u32)" using too_long [of s] len by simp
    have u: "unat (3 + of_nat (length s) :: u32) = length s + 3" by (rule unat_eq_of_nat; use len in simp)
    have nz: "3 + of_nat (length s) \<noteq> (0 :: u32)" using u by (auto simp flip: unat_eq_0_u32)
    let ?txt = "lit '' | TOPIC_NAME: '' @ s @ lit '' | QOS: '' @ fmt_nat (unat (qosReturn item))"
    have z: "0 \<notin> set ?txt" using ext_stringD(2) [OF ext] by (simp add: fmt_nat_nonzero) (simp add: lit_def)
    have fmt: "fmt_s '' | TOPIC_NAME: '' (Some p) m1 = Some (lit '' | TOPIC_NAME: '' @ s)"
      if "filling t k' m h a bs' l m1" for m1 k' a bs' l
      using filling_ext [OF that, of p] ext by (simp add: fmt_s_ext)
    have len_txt: "length ?txt + (topics_size 64 ss + k) \<le> topics_size 64 (s # ss) + k"
      using length_fmt_u8 [of "qosReturn item"] by simp
    show ?thesis
    proof (simp only: exec addListItemsToSubscribe_loop.simps Option.bind.bind_lunit short if_False,
        rule filling_enlarge [OF touches_refl [OF Cons.prems(1)] Cons.prems(2) Cons.prems(6)], goal_cases)
      case (3 r m1)
      then show ?case using room_le [OF 3(4), of k] by (auto intro: steppedI_err)
    next
      case (4 a m1)
      show ?case
        apply (simp add: 4(2) exec ucast_len [OF len] del: ok_bind)
        apply (rule filling_utf [OF 4(1), where s = s]; simp add: u len ext del: ok_bind)
        apply (rule filling_bytes [where ys = "[qosReturn item]"], assumption; simp add: fmt del: ok_bind)
        apply (rule filling_trace [where s = ?txt and n = "topics_size 64 ss + k"], assumption, (use len_txt in simp), rule z)
        subgoal premises P for m2 m3 m4
        proof -
          have T: "touches t h m m4" and b4: "buf_bytes m4 h = Some (map Some (bs @ utf s @ [qosReturn item]))"
            and r4: "room t (topics_size 64 ss + k) m4"
            using P(3) by (auto simp: filling_def dest: cursor_bytes)
          have "ok (addListItemsToSubscribe_loop h rest n' t m4) (stepped t k m4 h
             ((bs @ utf s @ [qosReturn item]) @ subscribe_payload (zip ss (map qosReturn (take n' rest)))) (topics_fit ss))"
            by (rule Cons.IH [OF touchesD(1) [OF T] b4 _ _ _ r4])
              (use Cons.prems I in \<open>auto simp: topic_at_touches [OF T]\<close>)
          then show ?thesis
            using len I apply (auto elim!: ok_mono simp: topics_fit_def subscribe_payload_def intro: stepped_trans [OF T]) done
        qed
        done
    qed (use nz Cons.prems(5) u in \<open>auto simp: algebra_simps\<close>)
  qed
qed

lemma Unsubscribe_loop_spec:
  assumes "heap_inv m" "buf_bytes m h = Some (map Some bs)"
    and "list_all2 (topic_at m) (take n items) ss" "n \<le> length items"
    and "length bs + topics_size 2 ss < 2 ^ 32" "\<forall>s \<in> set ss. length s < 2 ^ 30" "room t (topics_size 64 ss + k) m"
  shows "ok (addListItemsToUnsubscribe_loop h items n t m)
     (stepped t k m h (bs @ unsubscribe_payload ss) (topics_fit ss))"
  using assms
proof (induction ss arbitrary: items n m bs)
  case Nil
  then have "n = 0" by (cases items) auto
  with Nil show ?case by (auto simp: stepped_def topics_fit_def unsubscribe_payload_def touches_refl)
next
  case (Cons s ss)
  obtain item rest n' where I: "items = item # rest" "n = Suc n'"
    using Cons.prems(3,4) by (cases items; cases n) auto
  obtain p where p: "item = Some p" and ext: "ext_string m p = Some s"
    using Cons.prems(3) I by (auto simp: topic_at_def)
  let ?Q = "stepped t k m h (bs @ unsubscribe_payload (s # ss)) (topics_fit (s # ss))"
  have str: "strlen p m = Some (of_nat (length s))" using ext_stringD(1) [OF ext] by simp
  have lb: "unat (of_nat (length bs) :: u32) = length bs" using Cons.prems(5) by simp
  note exec = I p str buf_length_of [OF Cons.prems(2)] lb
  let ?txt = "lit '' | TOPIC_NAME: '' @ s"
  have z: "0 \<notin> set ?txt" using ext_stringD(2) [OF ext] by (simp add: lit_def)
  have fmt: "fmt_s '' | TOPIC_NAME: '' (Some p) m1 = Some ?txt" if "ext_string m1 p = Some s" for m1 :: "'a smem_scheme"
    using that by (simp add: fmt_s_ext)
  have len_txt: "length ?txt + (topics_size 64 ss + k) \<le> topics_size 64 (s # ss) + k" by simp
  have trace: "ok (trace_sprintf t (fmt_s '' | TOPIC_NAME: '' (Some p) m1) m1 \<bind> f) ?Q"
    if T: "touches t h m m1" and r: "room t (topics_size 64 (s # ss) + k) m1" and x: "buf_bytes m1 h = Some xs"
      and c: "\<And>m'. touches t h m m' \<Longrightarrow> room t (topics_size 64 ss + k) m' \<Longrightarrow> buf_bytes m' h = Some xs \<Longrightarrow> ok (f m') ?Q"
    for m1 f xs
  proof -
    have e: "ext_string m1 p = Some s" using touchesD(6) [OF T] ext by simp
    show ?thesis unfolding fmt [OF e]
    proof (rule ok_bindI [OF trace_sprintf_spec [OF touchesD(1) [OF T] _ z]])
      show "room t (length ?txt + (topics_size 64 ss + k)) m1" using r len_txt by (rule room_le)
      fix m' assume "quiet t m1 m' \<and> room t (topics_size 64 ss + k) m'"
      then show "ok (f m') ?Q"
        using x by (intro c) (auto intro: touches_trans [OF T] quiet_touches simp: quietD)
    qed
  qed
  show ?case
  proof (cases "length s \<le> 65535")
    case False
    then have long: "USHRT_MAX < (of_nat (length s) :: u32)" using too_long [of s] Cons.prems(6) by simp
    show ?thesis
      using long False exec
      apply (simp del: ok_bind)
      apply (rule trace [OF touches_refl [OF Cons.prems(1)] Cons.prems(7,2)])
      by (auto simp: topics_fit_def stepped_def intro: room_le)
  next
    case len: True
    have short: "\<not> USHRT_MAX < (of_nat (length s) :: u32)" using too_long [of s] len by simp
    have u: "unat (of_nat (length s) + 2 :: u32) = length s + 2" by (rule unat_eq_of_nat; use len in simp)
    have nz: "of_nat (length s) + 2 \<noteq> (0 :: u32)" using u by (auto simp flip: unat_eq_0_u32)
    show ?thesis
    proof (simp only: exec addListItemsToUnsubscribe_loop.simps Option.bind.bind_lunit short if_False Option.bind_assoc,
        rule filling_enlarge [OF touches_refl [OF Cons.prems(1)] Cons.prems(2) Cons.prems(7)], goal_cases)
      case (3 r m1)
      then show ?case
        apply (simp del: ok_bind)
        apply (rule trace, assumption, simp, assumption)
        by (auto intro!: steppedI_err intro: room_le)
    next
      case (4 a m1)
      show ?case
        apply (simp add: 4(2) exec ucast_len [OF len] del: ok_bind)
        apply (rule filling_utf [OF 4(1), where s = s]; simp add: u len ext del: ok_bind)
        subgoal premises P for m2
        proof (rule trace [where xs = "map Some (bs @ utf s)"], goal_cases)
          case 1 then show ?case using P by (simp add: filling_def)
        next
          case 2 then show ?case using P by (simp add: filling_def)
        next
          case 3 then show ?case using P by (auto simp: filling_def dest: cursor_bytes)
        next
          case (4 m4)
          have b4: "buf_bytes m4 h = Some (map Some (bs @ utf s))" using 4 by simp
          have "ok (addListItemsToUnsubscribe_loop h rest n' t m4) (stepped t k m4 h
             ((bs @ utf s) @ unsubscribe_payload ss) (topics_fit ss))"
            by (rule Cons.IH [OF touchesD(1) [OF 4(1)] b4 _ _ _ _ 4(2)])
              (use Cons.prems I in \<open>auto simp: topic_at_touches [OF 4(1)]\<close>)
          then show ?case
            using len by (auto elim!: ok_mono simp: topics_fit_def unsubscribe_payload_def intro: stepped_trans [OF 4(1)])
        qed
        done
    qed (use nz Cons.prems(5) u in \<open>auto simp: algebra_simps\<close>)
  qed
qed

end
