(* ===== verification/Codec_Build.thy ===== *)
theory Codec_Build
  imports Codec_Packets
begin

text \<open>
  The builders with a trace log of their own: the state while a packet and its trace are
  being built (\<open>building\<close>), how it ends, and the packets of SUBSCRIBE, UNSUBSCRIBE,
  PUBLISH and CONNECT.
\<close>

section \<open>Framing a packet\<close>

text \<open>
  The common end of CONNECT, PUBLISH, SUBSCRIBE and UNSUBSCRIBE: the name of the packet is
  put into the trace log, the fixed header in front of the packet, and the trace of the
  packet is appended to the trace log.
\<close>

text \<open>An operation on the trace log whose outcome only affects the log.\<close>

lemma quiet_NULL: "quiet None m m' \<Longrightarrow> quiet t m m'"
  by (simp add: quiet_def)

lemma quiet_trans: "quiet t m1 m2 \<Longrightarrow> quiet t m2 m3 \<Longrightarrow> quiet t m1 m3"
  by (auto simp: quiet_def intro: heap_frame_trans only_string_trans)

lemma str_updated_quiet:
  assumes inv: "heap_inv m" and s: "str_vals m h = Some s" and u: "str_updated m h s' (r, m')"
  shows "quiet (Some h) m m' \<and> (str_vals m' h = Some s \<or> str_vals m' h = Some s')"
proof -
  from u consider "str_effect m (str_vals m) m'" | "str_effect m ((str_vals m)(h \<mapsto> s')) m'"
    by (auto simp: str_updated_def)
  then show ?thesis
  proof cases
    case 1
    then show ?thesis using str_quiet [OF inv 1] s by (simp add: str_effect_def)
  next
    case 2
    then show ?thesis using str_quiet [OF inv 2, of "Some h"] s by (simp add: str_effect_def only_string_upd)
  qed
qed

lemma log_copy_spec:
  assumes inv: "heap_inv m" and room: "room t (length s + n) m" and z: "0 \<notin> set s"
  shows "ok (log_copy t s m) (\<lambda>m'. quiet t m m' \<and> room t n m')"
proof (cases t)
  case None
  then show ?thesis using quiet_refl [OF inv] by (simp add: log_copy_def)
next
  case (Some h)
  then obtain v where v: "str_vals m h = Some v" "length v + (length s + n) < 2 ^ 31" using room by (auto simp: room_def)
  have sinv: "str_inv m" using inv by (simp add: heap_inv_def)
  obtain b where b: "strs m h = Some b" using v(1) by (rule str_valsE)
  have "ok (STRING_copy (Some h) (Some (Literal s)) m) (str_updated m h s)"
    by (rule STRING_copy_spec [OF sinv v(1) b]) (use z v in auto)
  then show ?thesis
    using v(2) Some
    by (auto simp: log_copy_def ok_iff room_def dest!: str_updated_quiet [OF inv v(1)])
qed

lemma log_concat_spec:
  assumes inv: "heap_inv m" and room: "room t (length s + n) m" and z: "0 \<notin> set s"
  shows "ok (log_concat t s m) (\<lambda>m'. quiet t m m' \<and> room t n m')"
proof (cases t)
  case None
  then show ?thesis using quiet_refl [OF inv] by (simp add: log_concat_def)
next
  case (Some h)
  then obtain v where v: "str_vals m h = Some v" "length v + (length s + n) < 2 ^ 31" using room by (auto simp: room_def)
  have sinv: "str_inv m" using inv by (simp add: heap_inv_def)
  obtain b where b: "strs m h = Some b" using v(1) by (rule str_valsE)
  have "ok (STRING_concat (Some h) (Some (Literal s)) m) (str_updated m h (v @ s))"
    by (rule STRING_concat_spec [OF sinv v(1) b]) (use z v in auto)
  then show ?thesis
    using v(2) Some
    by (auto simp: log_concat_def ok_iff room_def dest!: str_updated_quiet [OF inv v(1)])
qed

lemma log_join_spec:
  assumes inv: "heap_inv m" and room: "room t n m" and v: "room v k m" and k: "2 ^ 31 \<le> n + k" and ne: "t \<noteq> None \<Longrightarrow> v \<noteq> t"
  shows "ok (log_join t v m) (quiet t m)"
proof (cases "t = None \<or> v = None")
  case True
  then show ?thesis using quiet_refl [OF inv] by (auto simp: log_join_def STRING_concat_with_STRING_def split: option.splits)
next
  case False
  then obtain h g where hg: "t = Some h" "v = Some g" "g \<noteq> h" using ne by auto
  then obtain s u where s: "str_vals m h = Some s" "length s + n < 2 ^ 31" and u: "str_vals m g = Some u" "length u + k < 2 ^ 31"
    using room v by (auto simp: room_def)
  have sinv: "str_inv m" using inv by (simp add: heap_inv_def)
  have "ok (STRING_concat_with_STRING (Some h) (Some g) m) (str_updated m h (s @ u))"
    by (rule STRING_concat_with_STRING_spec [OF sinv s(1) u(1) hg(3)]) (use s u in auto)
  then show ?thesis
    using str_updated_quiet [OF inv s(1), of "s @ u"] hg by (auto simp: log_join_def ok_iff)
qed

section \<open>The trace of the packet being built\<close>

text \<open>
  Since \<open>m0\<close> only the trace log \<open>t\<close> may have changed among the strings, and the trace of
  the packet, \<open>v\<close>, was allocated.
\<close>

definition tracing :: "ptr \<Rightarrow> ptr \<Rightarrow> 'z smem_scheme \<Rightarrow> 'z smem_scheme \<Rightarrow> bool" where
  "tracing t v m0 m \<longleftrightarrow> heap_inv m \<and> heap_frame m0 m \<and>
     (\<forall>x. v = Some x \<longrightarrow> str_vals m0 x = None \<and> str_vals m x \<noteq> None) \<and>
     (\<forall>x. v \<noteq> Some x \<longrightarrow>
        str_vals m x = str_vals m0 x \<or> (t = Some x \<and> str_vals m0 x \<noteq> None \<and> str_vals m x \<noteq> None))"

lemma tracing_step:
  assumes "tracing t v m0 m" "heap_inv m'" "heap_frame m m'" "only_string s (str_vals m) (str_vals m')"
    and "s = None \<or> s = v \<or> s = t \<and> v \<noteq> t"
  shows "tracing t v m0 m'"
proof -
  have fr: "heap_frame m0 m'" using assms by (auto simp: tracing_def intro: heap_frame_trans)
  have S: "str_vals m' x = str_vals m x \<or> s = Some x \<and> str_vals m x \<noteq> None \<and> str_vals m' x \<noteq> None" for x
    using assms(4) by (auto simp: only_string_def)
  have T: "v = Some x \<Longrightarrow> str_vals m0 x = None \<and> str_vals m x \<noteq> None"
    "v \<noteq> Some x \<Longrightarrow> str_vals m x = str_vals m0 x \<or> t = Some x \<and> str_vals m0 x \<noteq> None \<and> str_vals m x \<noteq> None" for x
    using assms(1) by (auto simp: tracing_def)
  show ?thesis
    unfolding tracing_def
  proof (intro conjI allI impI)
    fix x assume "v = Some x"
    then show "str_vals m0 x = None" "str_vals m' x \<noteq> None" using T(1) [of x] S [of x] by auto
  next
    fix x assume v: "v \<noteq> Some x"
    show "str_vals m' x = str_vals m0 x \<or> t = Some x \<and> str_vals m0 x \<noteq> None \<and> str_vals m' x \<noteq> None"
    proof (cases "str_vals m' x = str_vals m x")
      case True
      then show ?thesis using T(2) [OF v] by simp
    next
      case False
      then have s: "s = Some x" "str_vals m x \<noteq> None" "str_vals m' x \<noteq> None" using S [of x] by simp_all
      then have "t = Some x" using assms(5) v by simp
      moreover have "str_vals m0 x \<noteq> None" using T(2) [OF v] s(2) by metis
      ultimately show ?thesis using s by simp
    qed
  qed (use assms fr in auto)
qed

definition building ::
  "ptr \<Rightarrow> ptr \<Rightarrow> nat \<Rightarrow> nat \<Rightarrow> 'z smem_scheme \<Rightarrow> addr \<Rightarrow> mbyte list \<Rightarrow> 'z smem_scheme \<Rightarrow> bool"
where
  "building t v n k m0 h zs m \<longleftrightarrow> tracing t v m0 m \<and> room t n m \<and> room v k m \<and> (t \<noteq> None \<longrightarrow> v \<noteq> t) \<and>
     buf_bytes m0 h = None \<and> buf_bytes m h = Some zs \<and> (\<forall>x. x \<noteq> h \<longrightarrow> buf_bytes m x = buf_bytes m0 x)"

text \<open>The packet is gone again.\<close>

definition dropped :: "ptr \<Rightarrow> ptr \<Rightarrow> 'z smem_scheme \<Rightarrow> 'z smem_scheme \<Rightarrow> bool" where
  "dropped t v m0 m \<longleftrightarrow> tracing t v m0 m \<and> buf_bytes m = buf_bytes m0"

lemma buildingD:
  assumes "building t v n k m0 h zs m"
  shows "heap_inv m" "heap_frame m0 m" "buf_bytes m h = Some zs" "room t n m" "room v k m"
    "alloc_total m \<longleftrightarrow> alloc_total m0" "ext_string m p = ext_string m0 p" "ext_bytes m q l = ext_bytes m0 q l"
  using assms by (auto simp: building_def tracing_def heap_frame_alloc_total ext_string_frame ext_bytes_frame)

lemma room_only:
  "room t n m \<Longrightarrow> only_string s (str_vals m) (str_vals m') \<Longrightarrow> s \<noteq> t \<or> t = None \<Longrightarrow> room t n m'"
  unfolding room_def only_string_def by (metis not_None_eq)

lemma building_touches:
  assumes B: "building t v n k m0 h zs m" and T: "touches v h m m'" and k: "room v k' m'" and z: "buf_bytes m' h = Some zs'"
  shows "building t v n k' m0 h zs' m'"
proof -
  have "tracing t v m0 m'"
    by (rule tracing_step [of t v m0 m m' v]) (use B T in \<open>auto simp: building_def touches_def\<close>)
  moreover have "room t n m'" using B T room_only [of t n m v m'] by (auto simp: building_def touches_def)
  ultimately show ?thesis using B T k z by (auto simp: building_def touches_def)
qed

lemma building_quiet:
  assumes B: "building t v n k m0 h zs m" and Q: "quiet t m m'" and n: "room t n' m'"
  shows "building t v n' k m0 h zs m'"
proof -
  have "tracing t v m0 m'"
    by (rule tracing_step [of t v m0 m m' t]) (use B Q in \<open>auto simp: building_def quiet_def\<close>)
  moreover have "room v k m'"
    using B Q room_only [of v k m t m'] by (auto simp: building_def quiet_def)
  ultimately show ?thesis using B Q n by (auto simp: building_def quiet_def)
qed

lemma building_start:
  assumes "touches None h m0 m" "buf_bytes m0 h = None" "buf_bytes m h = Some zs" "room t n m0"
  shows "building t None n k m0 h zs m"
  using assms room_cong [of t n m0 m]
  by (auto simp: building_def tracing_def touches_def)

lemma building_log:
  assumes T: "touches None h m0 m" and h: "buf_bytes m0 h = None" and zs: "buf_bytes m h = Some zs" and room: "room t n m0"
    and c: "t \<noteq> None \<Longrightarrow> ok c (str_created m s)" and len: "length s + k < 2 ^ 31"
    and cont: "\<And>v m'. building t v n k m0 h zs m' \<Longrightarrow> ok (f (v, m')) Q"
  shows "ok ((if t \<noteq> None then c else Some (None, m)) \<bind> f) Q"
proof (cases t)
  case None
  then show ?thesis using cont [OF building_start [OF T h zs room]] by simp
next
  case (Some l)
  have inv: "heap_inv m" using T by (rule touchesD)
  have S: "str_vals m = str_vals m0" using T by (simp add: touches_def)
  from Some have "ok (c \<bind> f) Q"
  proof (intro ok_bind2I [OF c], goal_cases)
    case (2 v m')
    note B = building_start [OF T h zs room]
    from 2 consider (Null) "v = None" "str_effect m (str_vals m) m'"
      | (New) g where "v = Some g" "str_vals m g = None" "str_effect m ((str_vals m)(g \<mapsto> s)) m'"
      by (auto simp: str_created_def)
    then show ?case
    proof cases
      case Null
      note E = str_effect_heap [OF inv Null(2)]
      then have "touches None h m m'" by (auto simp: touches_def heap_effect_def)
      moreover have "buf_bytes m' h = Some zs" using E zs by (simp add: heap_effect_def)
      ultimately show ?thesis using building_touches [OF B, of m' k zs] Null by (auto intro!: cont)
    next
      case New
      note E = heap_effectD [OF str_effect_heap [OF inv New(3)]]
      have fr: "heap_frame m0 m'" using E(4) T by (auto simp: touches_def intro: heap_frame_trans)
      have r: "room t n m'" using room New S E(3) by (fastforce simp: room_def)
      have "g \<noteq> l" using room Some New(2) S by (auto simp: room_def)
      then have "building t (Some g) n k m0 h zs m'"
        using E fr S New T h zs r len Some
        by (auto simp: building_def tracing_def touches_def room_def)
      then show ?thesis using New by (auto intro: cont)
    qed
  qed simp
  then show ?thesis using Some by simp
qed

lemma building_step:
  assumes B: "building t v n k m0 h zs m" and c: "ok c (stepped v k' m h ys valid)"
    and bad: "\<And>r m' zs'. r \<noteq> 0 \<Longrightarrow> (valid \<Longrightarrow> \<not> alloc_total m0) \<Longrightarrow> building t v n k' m0 h zs' m' \<Longrightarrow> ok (f (r, m')) Q"
    and good: "\<And>m'. valid \<Longrightarrow> building t v n k' m0 h (map Some ys) m' \<Longrightarrow> ok (f (0, m')) Q"
  shows "ok (c \<bind> f) Q"
proof (rule ok_bind2I [OF c])
  fix r m' assume S: "stepped v k' m h ys valid (r, m')"
  then obtain zs' where z: "buf_bytes m' h = Some zs'" and T: "touches v h m m'" and k: "room v k' m'"
    by (auto simp: stepped_def)
  note B' = building_touches [OF B T k z]
  show "ok (f (r, m')) Q"
  proof (cases "r = 0")
    case True
    then show ?thesis using S B' z by (auto simp: stepped_def intro!: good)
  next
    case False
    then show ?thesis using S B' buildingD(6) [OF B] by (auto simp: stepped_def intro!: bad)
  qed
qed

lemma building_drop:
  assumes B: "building t v n k m0 h zs m" and cont: "\<And>m'. dropped t v m0 m' \<Longrightarrow> ok (f m') Q"
  shows "ok (BUFFER_delete (Some h) m \<bind> f) Q"
proof (rule ok_bindI [OF BUFFER_delete_spec [OF _ buildingD(3) [OF B]]])
  have inv: "heap_inv m" using B by (rule buildingD)
  then show "buf_inv m" by (simp add: heap_inv_def)
  fix m' assume "buf_effect m ((buf_bytes m)(h := None)) m'"
  from heap_effectD [OF buf_effect_heap [OF inv this]]
  have E: "heap_inv m'" "buf_bytes m' = (buf_bytes m)(h := None)" "str_vals m' = str_vals m" "heap_frame m m'" by blast+
  have "tracing t v m0 m'"
    by (rule tracing_step [of t v m0 m m' None]) (use B E in \<open>auto simp: building_def\<close>)
  moreover have "buf_bytes m' = buf_bytes m0" using B E by (auto simp: building_def fun_eq_iff)
  ultimately show "ok (f m') Q" by (intro cont) (simp add: dropped_def)
qed

lemma tracing_delete:
  assumes T: "tracing t v m0 m"
  shows "ok (if v \<noteq> None then STRING_delete v m else Some m) (\<lambda>m'. heap_inv m' \<and> buf_bytes m' = buf_bytes m \<and>
     heap_frame m0 m' \<and> only_string t (str_vals m0) (str_vals m'))"
proof (cases v)
  case None
  then show ?thesis using T by (auto simp: tracing_def only_string_def)
next
  case (Some g)
  then obtain s where s: "str_vals m g = Some s" using T by (auto simp: tracing_def)
  have inv: "heap_inv m" using T by (simp add: tracing_def)
  then have sinv: "str_inv m" by (simp add: heap_inv_def)
  have "ok (STRING_delete (Some g) m) (\<lambda>m'. heap_inv m' \<and> buf_bytes m' = buf_bytes m \<and>
     heap_frame m0 m' \<and> only_string t (str_vals m0) (str_vals m'))"
  proof (rule ok_mono [OF STRING_delete_spec [OF sinv s]])
    fix m' assume "str_effect m ((str_vals m)(g := None)) m'"
    from heap_effectD [OF str_effect_heap [OF inv this]]
    have E: "heap_inv m'" "buf_bytes m' = buf_bytes m" "str_vals m' = (str_vals m)(g := None)" "heap_frame m m'" by blast+
    have "heap_frame m0 m'" using E(4) T by (auto simp: tracing_def intro: heap_frame_trans)
    then show "heap_inv m' \<and> buf_bytes m' = buf_bytes m \<and> heap_frame m0 m' \<and> only_string t (str_vals m0) (str_vals m')"
      using E T Some by (auto simp: tracing_def only_string_def)
  qed
  then show ?thesis using Some by simp
qed

lemma dropped_end:
  assumes D: "dropped t v m0 m" and "valid \<Longrightarrow> \<not> alloc_total m0"
  shows "ok ((if v \<noteq> None then STRING_delete v m else Some m) \<bind> (\<lambda>m. Some (None, m))) (built t m0 ys valid)"
proof (rule ok_bindI [OF tracing_delete])
  show "tracing t v m0 m" using D by (simp add: dropped_def)
qed (use assms in \<open>auto simp: dropped_def built_def enc_effect_def\<close>)

lemma building_end:
  assumes B: "building t v n k m0 h (map Some ys) m" and Q: "quiet t m m'" and valid
  shows "ok ((if v \<noteq> None then STRING_delete v m' else Some m') \<bind> (\<lambda>m. Some (Some h, m))) (built t m0 ys valid)"
proof (rule ok_bindI [OF tracing_delete])
  show "tracing t v m0 m'"
    by (rule tracing_step [of t v m0 m m' t]) (use B Q in \<open>auto simp: building_def quiet_def\<close>)
qed (use assms in \<open>auto simp: building_def built_def enc_effect_def quiet_def fun_eq_iff\<close>)

text \<open>The name in the log, the fixed header, and the two outcomes.\<close>

lemma building_log_copy:
  assumes B: "building t v l k m0 h zs m" and l: "length s + n \<le> l" and z: "0 \<notin> set s"
    and cont: "\<And>m'. building t v n k m0 h zs m' \<Longrightarrow> ok (f m') Q"
  shows "ok (log_copy t s m \<bind> f) Q" "ok (log_concat t s m \<bind> f) Q"
proof -
  have r: "room t (length s + n) m" using buildingD(4) [OF B] l by (rule room_le)
  show "ok (log_copy t s m \<bind> f) Q"
    by (rule ok_bindI [OF log_copy_spec [OF buildingD(1) [OF B] r z]]) (auto intro: cont building_quiet [OF B])
  show "ok (log_concat t s m \<bind> f) Q"
    by (rule ok_bindI [OF log_concat_spec [OF buildingD(1) [OF B] r z]]) (auto intro: cont building_quiet [OF B])
qed

lemma building_frame:
  assumes B: "building t v n k m0 h (map Some bs) m" and ne: "bs \<noteq> []" and len: "length bs < 2 ^ 28"
    and nk: "2 ^ 31 \<le> n + k" and valid
    and c: "c = constructFixedHeader (Some h) type flags m \<bind> (\<lambda>(r, m).
        (if r \<noteq> 0 then BUFFER_delete (Some h) m \<bind> (\<lambda>m. Some (None, m))
         else log_join t v m \<bind> (\<lambda>m. Some (Some h, m))) \<bind> (\<lambda>(result, m).
        (if v \<noteq> None then STRING_delete v m else Some m) \<bind> (\<lambda>m. Some (result, m))))"
  shows "ok c (built t m0 (fixed_header type flags (length bs) @ bs) valid)"
  unfolding c
proof (rule ok_bind2I [OF FixedHeader_spec [OF buildingD(1,3) [OF B] ne len]], goal_cases)
  case (1 r m1)
  then have T: "touches v h m m1" by (auto intro: touches_weaken)
  have k: "room v k m1" using buildingD(5) [OF B] 1 room_only [of v k m None m1] by (auto simp: touches_def)
  show ?case
  proof (cases "r = 0")
    case False
    have "building t v n k m0 h (map Some bs) m1"
      by (rule building_touches [OF B T k]) (use 1 False in auto)
    then show ?thesis
      using False 1 buildingD(6) [OF B]
      apply (simp del: ok_bind not_None_eq)
      apply (rule building_drop, assumption)
      apply (rule dropped_end, assumption)
      apply auto
      done
  next
    case True
    have B1: "building t v n k m0 h (map Some (fixed_header type flags (length bs) @ bs)) m1"
      by (rule building_touches [OF B T k]) (use 1 True in auto)
    have ne: "t \<noteq> None \<Longrightarrow> v \<noteq> t" using B by (simp add: building_def)
    show ?thesis
      using True
      apply (simp del: ok_bind not_None_eq)
      apply (rule ok_bindI [OF log_join_spec [OF buildingD(1) [OF B1] buildingD(4) [OF B1] buildingD(5) [OF B1] nk ne]], assumption)
      apply (rule building_end [OF B1 _ \<open>valid\<close>], assumption)
      done
  qed
qed

section \<open>SUBSCRIBE and UNSUBSCRIBE\<close>

text \<open>The trace log is null, or a live string that is not too long to grow.\<close>

definition log_ok :: "ptr \<Rightarrow> 'z smem_scheme \<Rightarrow> bool" where
  "log_ok t m \<longleftrightarrow> room t (2 ^ 30) m"

lemma log_ok_NULL [simp]: "log_ok None m"
  by (simp add: log_ok_def)

definition packet :: "CONTROL_PACKET_TYPE \<Rightarrow> u8 \<Rightarrow> u8 list \<Rightarrow> u8 list" where
  "packet type flags body = fixed_header type flags (length body) @ body"

lemma topics_size_mono: "topics_size k ss \<le> topics_size (k + l) ss"
  by (induction ss) simp_all

lemma topics_size_gap: "ss \<noteq> [] \<Longrightarrow> topics_size k ss + l \<le> topics_size (k + l) ss"
proof (cases ss)
  case (Cons s ss')
  then show ?thesis using topics_size_mono [of k ss' l] by simp
qed simp

lemma pid_text:
  "0 \<notin> set (lit '' | PACKET_ID: '' @ fmt_nat (unat (pid :: u16)))"
  "length (lit '' | PACKET_ID: '' @ fmt_nat (unat (pid :: u16))) \<le> 19"
  using length_fmt_u16 [of pid] by (simp_all add: fmt_nat_nonzero) (simp add: lit_def)

lemma pid_log:
  "heap_inv m \<Longrightarrow> ok (STRING_construct_sprintf (Some (Some (lit '' | PACKET_ID: '' @ fmt_nat (unat (pid :: u16))))) m)
     (str_created m (lit '' | PACKET_ID: '' @ fmt_nat (unat pid)))"
  using pid_text [of pid] by (intro STRING_construct_sprintf_spec) (auto simp: heap_inv_def)

lemma Subscribe_spec:
  assumes inv: "heap_inv m" and log: "log_ok t m"
    and items: "list_all2 (\<lambda>i s. topic_at m (subscribeTopic i) s) (take (unat count) items) ss"
    and count: "count \<noteq> 0" "unat count \<le> length items" and size: "topics_size 64 ss < 2 ^ 28"
  shows "ok (mqtt_codec_subscribe pid (Some items) count t m)
    (built t m (packet SUBSCRIBE_TYPE SUBSCRIBE_FIXED_HEADER_FLAG
       (be16 pid @ subscribe_payload (zip ss (map qosReturn (take (unat count) items))))) (topics_fit ss))"
    (is "ok _ (built t m (packet _ _ ?body) ?valid)")
proof -
  have ss: "ss \<noteq> []" "length ss = length (take (unat count) items)"
    using items count list_all2_lengthD [OF items] by (auto simp: unat_eq_0_u32 take_eq_Nil)
  have "topics_size 3 ss + 2 < 2 ^ 28" using topics_size_gap [OF ss(1), of 3 61] size by simp
  then have len: "length ?body < 2 ^ 28" using length_subscribe_payload [of ss "map qosReturn (take (unat count) items)"] ss(2) by simp
  have r: "room t (2 ^ 30) m" using log by (simp add: log_ok_def)
  show ?thesis
    unfolding mqtt_codec_subscribe_def
  proof (simp del: ok_bind add: count, rule new_packet [OF inv], goal_cases)
    case (1 m')
    then show ?case by (auto intro!: built_NULL enc_effect_weaken)
  next
    case (2 h m1)
    note T = 2(2)
    show ?case
    proof (simp only: prod.case option.distinct if_False, rule ok_bind2I [OF SubscribeTypeVariableHeader_spec [OF touchesD(1) [OF T] 2(3)]], goal_cases)
      case (1 r m2)
      then have T2: "touches None h m m2" by (auto simp: stepped_def intro: touches_trans [OF T])
      obtain zs where zs: "buf_bytes m2 h = Some zs" using 1 by (auto simp: stepped_def)
      show ?case
      proof (cases "r = 0")
        case False
        have "\<not> alloc_total m" using False 1 touchesD(3) [OF T] by (auto simp: stepped_def)
        then show ?thesis
          using False by (simp del: ok_bind, intro drop_packet [OF T2 2(1) zs]) (auto intro!: built_NULL enc_effect_weaken)
      next
        case True
        then have zs: "buf_bytes m2 h = Some (map Some (be16 pid))" using 1 by (auto simp: stepped_def)
        show ?thesis
        proof (simp only: True prod.case simp_thms if_False,
            rule building_log [OF T2 2(1) zs r pid_log [OF touchesD(1) [OF T2]], where k = "2 ^ 31 - 64"], goal_cases)
          case 1
          then show ?case using pid_text(2) [of pid] by simp
        next
          case (2 v m3)
          note B = 2
          have items3: "list_all2 (\<lambda>i s. topic_at m3 (subscribeTopic i) s) (take (unat count) items) ss"
            using items buildingD(7) [OF B] by (simp add: topic_at_def)
          have L: "ok (addListItemsToSubscribe_loop h items (unat count) v m3)
            (stepped v (2 ^ 30 + 64) m3 h (be16 pid @ subscribe_payload (zip ss (map qosReturn (take (unat count) items)))) (topics_fit ss))"
            by (rule Subscribe_loop_spec [OF buildingD(1,3) [OF B] items3 count(2)])
              (use len size topics_size_mono [of 3 ss 61] in \<open>auto intro: room_le [OF buildingD(5) [OF B]]\<close>)
          show ?case
          proof (simp only: prod.case addListItemsToSubscribePacket_def option.case, rule building_step [OF B L], goal_cases)
            case (1 r m4 zs')
            then show ?case
              apply (simp del: ok_bind not_None_eq split del: if_split)
              apply (rule building_drop, assumption)
              apply (rule dropped_end, assumption)
              apply simp
              done
          next
            case (2 m4)
            show ?case
              unfolding packet_def
              apply (simp only: prod.case simp_thms if_False Option.bind_assoc)
              apply (rule building_log_copy(2) [OF 2(2), where n = "2 ^ 30 - 64"])
                apply (simp, simp add: lit_def)
              apply (rule building_frame [OF _ _ len _ 2(1)], assumption)
                by (auto simp: be16_def split_def)
          qed
        qed
      qed
    qed
  qed
qed

lemma topics_size_member: "s \<in> set ss \<Longrightarrow> length s \<le> topics_size k ss"
  by (induction ss) auto

lemma Unsubscribe_spec:
  assumes inv: "heap_inv m" and log: "log_ok t m"
    and items: "list_all2 (topic_at m) (take (unat count) items) ss"
    and count: "count \<noteq> 0" "unat count \<le> length items" and size: "topics_size 64 ss < 2 ^ 28"
  shows "ok (mqtt_codec_unsubscribe pid (Some items) count t m)
    (built t m (packet UNSUBSCRIBE_TYPE UNSUBSCRIBE_FIXED_HEADER_FLAG
       (be16 pid @ unsubscribe_payload ss)) (topics_fit ss))"
    (is "ok _ (built t m (packet _ _ ?body) ?valid)")
proof -
  have ss: "ss \<noteq> []" "length ss = length (take (unat count) items)"
    using items count list_all2_lengthD [OF items] by (auto simp: unat_eq_0_u32 take_eq_Nil)
  have "topics_size 2 ss + 2 < 2 ^ 28" using topics_size_gap [OF ss(1), of 2 62] size by simp
  then have len: "length ?body < 2 ^ 28" using length_unsubscribe_payload [of ss] by simp
  have mem: "length s < 2 ^ 30" if "s \<in> set ss" for s
    using topics_size_member [OF that, of 64] size by simp
  have r: "room t (2 ^ 30) m" using log by (simp add: log_ok_def)
  show ?thesis
    unfolding mqtt_codec_unsubscribe_def
  proof (simp del: ok_bind add: count, rule new_packet [OF inv], goal_cases)
    case (1 m')
    then show ?case by (auto intro!: built_NULL enc_effect_weaken)
  next
    case (2 h m1)
    note T = 2(2)
    show ?case
    proof (simp only: prod.case option.distinct if_False, rule ok_bind2I [OF SubscribeTypeVariableHeader_spec [OF touchesD(1) [OF T] 2(3)]], goal_cases)
      case (1 r m2)
      then have T2: "touches None h m m2" by (auto simp: stepped_def intro: touches_trans [OF T])
      obtain zs where zs: "buf_bytes m2 h = Some zs" using 1 by (auto simp: stepped_def)
      show ?case
      proof (cases "r = 0")
        case False
        have "\<not> alloc_total m" using False 1 touchesD(3) [OF T] by (auto simp: stepped_def)
        then show ?thesis
          using False by (simp del: ok_bind, intro drop_packet [OF T2 2(1) zs]) (auto intro!: built_NULL enc_effect_weaken)
      next
        case True
        then have zs: "buf_bytes m2 h = Some (map Some (be16 pid))" using 1 by (auto simp: stepped_def)
        show ?thesis
        proof (simp only: True prod.case simp_thms if_False,
            rule building_log [OF T2 2(1) zs r pid_log [OF touchesD(1) [OF T2]], where k = "2 ^ 31 - 64"], goal_cases)
          case 1
          then show ?case using pid_text(2) [of pid] by simp
        next
          case (2 v m3)
          note B = 2
          have items3: "list_all2 (topic_at m3) (take (unat count) items) ss"
            proof -
            have "topic_at m3 = topic_at m" using buildingD(7) [OF B] by (auto simp: topic_at_def fun_eq_iff)
            then show ?thesis using items by simp
          qed
          have L: "ok (addListItemsToUnsubscribe_loop h items (unat count) v m3)
            (stepped v (2 ^ 30 + 64) m3 h (be16 pid @ unsubscribe_payload ss) (topics_fit ss))"
            by (rule Unsubscribe_loop_spec [OF buildingD(1,3) [OF B] items3 count(2)])
              (use len size topics_size_mono [of 2 ss 62] mem in \<open>auto intro: room_le [OF buildingD(5) [OF B]]\<close>)
          show ?case
          proof (simp only: prod.case addListItemsToUnsubscribePacket_def option.case, rule building_step [OF B L], goal_cases)
            case (1 r m4 zs')
            then show ?case
              apply (simp del: ok_bind not_None_eq split del: if_split)
              apply (rule building_drop, assumption)
              apply (rule dropped_end, assumption)
              apply simp
              done
          next
            case (2 m4)
            show ?case
              unfolding packet_def
              apply (simp only: prod.case simp_thms if_False Option.bind_assoc)
              apply (rule building_log_copy(1) [OF 2(2), where n = "2 ^ 30 - 64"])
                apply (simp, simp add: lit_def)
              apply (rule building_frame [OF _ _ len _ 2(1)], assumption)
                by (auto simp: be16_def split_def)
          qed
        qed
      qed
    qed
  qed
qed

section \<open>PUBLISH\<close>

lemma filling_trace_if:
  assumes F: "filling t l m0 h a bs k m" and l: "length s + n \<le> l" and z: "0 \<notin> set s"
    and k: "\<And>m'. filling t n m0 h a bs k m' \<Longrightarrow> ok (f m') Q"
  shows "ok ((if b then trace_sprintf t (Some s) m else Some m) \<bind> f) Q"
proof (cases b)
  case True
  then show ?thesis using filling_trace [OF assms] by simp
next
  case False
  have "filling t n m0 h a bs k m" using F by (rule filling_room) (use l in simp)
  then show ?thesis using False k by simp
qed

lemma publish_text:
  "0 \<notin> set (lit '' | IS_DUP: '' @ (if d then lit ''true'' else lit ''false'') @
     lit '' | RETAIN: '' @ fmt_nat (if r then 1 else 0) @ lit '' | QOS: '' @ retrieve_qos_value q)" (is "0 \<notin> set ?s")
  "length (lit '' | IS_DUP: '' @ (if d then lit ''true'' else lit ''false'') @
     lit '' | RETAIN: '' @ fmt_nat (if r then 1 else 0) @ lit '' | QOS: '' @ retrieve_qos_value q) \<le> 64"
proof -
  show "0 \<notin> set ?s" by (simp add: fmt_nat_nonzero retrieve_qos_value_def) (simp add: lit_def)
  have "length (fmt_nat (if r then 1 else 0)) \<le> 1" by (simp add: fmt_nat.simps)
  then show "length ?s \<le> 64" by (auto simp: retrieve_qos_value_def)
qed

lemma publish_log:
  "heap_inv m \<Longrightarrow> ok (STRING_construct_sprintf (Some (Some
     (lit '' | IS_DUP: '' @ (if d then lit ''true'' else lit ''false'') @
      lit '' | RETAIN: '' @ fmt_nat (if r then 1 else 0) @ lit '' | QOS: '' @ retrieve_qos_value q))) m)
     (str_created m (lit '' | IS_DUP: '' @ (if d then lit ''true'' else lit ''false'') @
      lit '' | RETAIN: '' @ fmt_nat (if r then 1 else 0) @ lit '' | QOS: '' @ retrieve_qos_value q))"
  by (rule STRING_construct_sprintf_spec)
    (simp add: heap_inv_def, rule le_less_trans [OF publish_text(2)], simp, rule publish_text(1))

lemma Publish_spec:
  assumes inv: "heap_inv m" and log: "log_ok t m" and topic: "ext_string m tn = Some topic"
    and src: "buffLen \<noteq> 0 \<Longrightarrow> \<exists>q. msg = Some q \<and> ext_bytes m q (unat buffLen) = Some (map Some payload)"
    and len: "length payload = unat buffLen" and size: "length topic + length payload + 4 < 2 ^ 28"
  shows "ok (mqtt_codec_publish qos dup retain pid (Some tn) msg buffLen t m)
    (built t m (packet PUBLISH_TYPE (publish_flags qos dup retain) (publish_header topic qos pid @ payload))
       (length topic \<le> 65535))"
    (is "ok _ (built t m (packet _ _ ?body) ?valid)")
proof -
  have len_body: "length ?body < 2 ^ 28" using size by (simp add: publish_header_def)
  have le: "\<not> MAX_SEND_SIZE < buffLen"
    using size len by (simp add: MAX_SEND_SIZE_def word_less_nat_alt)
  have r: "room t (2 ^ 30) m" using log by (simp add: log_ok_def)
  show ?thesis
    unfolding mqtt_codec_publish_def
  proof (simp only: option.case le if_False Let_def PUBLISH_HEADER_INFO.select_convs, rule new_packet [OF inv], goal_cases)
    case (1 m')
    then show ?case by (auto intro!: built_NULL enc_effect_weaken)
  next
    case (2 h m1)
    note T = 2(2)
    show ?case
    proof (simp only: prod.case option.distinct if_False,
        rule building_log [OF T 2(1,3) r publish_log [OF touchesD(1) [OF T]], where k = "2 ^ 31 - 128"], goal_cases)
      case 1
      then show ?case using publish_text(2) [of dup retain qos] by simp
    next
      case (2 v m2)
      note B = 2
      have e: "ext_string m2 tn = Some topic" using buildingD(7) [OF B] topic by simp
      have H: "ok (constructPublishVariableHeader (Some h) \<lparr>topicName = tn, packetId = pid, pub_msgBuffer = None, pub_qos = qos\<rparr> v m2)
        (stepped v (2 ^ 30 + 128) m2 h (publish_header topic qos pid) ?valid)"
        using PublishVariableHeader_spec [OF buildingD(1) [OF B], where bs = "[]" and t = v and n = "2 ^ 30 + 128" and topic = topic
           and ph = "\<lparr>topicName = tn, packetId = pid, pub_msgBuffer = None, pub_qos = qos\<rparr>"] buildingD(3) [OF B] e size
          room_le [OF buildingD(5) [OF B]] by simp
      show ?case
      proof (simp only: prod.case, rule building_step [OF B H], goal_cases)
        case (1 r m3 zs')
        then show ?case
          apply (simp del: ok_bind not_None_eq split del: if_split)
          apply (rule building_drop, assumption)
          apply (rule dropped_end, assumption)
          apply simp
          done
      next
        case (2 m3)
        note B3 = 2(2)
        have off: "BUFFER_length (Some h) m3 = Some (of_nat (length (publish_header topic qos pid)))"
          using buildingD(3) [OF B3] by (rule buf_length_of)
        have fin: "ok (log_copy t (lit ''PUBLISH'') m4 \<bind> (\<lambda>m.
            constructFixedHeader (Some h) PUBLISH_TYPE (publish_flags qos dup retain) m \<bind> (\<lambda>(r, m).
            (if r \<noteq> 0 then BUFFER_delete (Some h) m \<bind> (\<lambda>m. Some (None, m))
             else log_join t v m \<bind> (\<lambda>m. Some (Some h, m))) \<bind> (\<lambda>(result, m).
            (if v \<noteq> None then STRING_delete v m else Some m) \<bind> (\<lambda>m. Some (result, m))))))
            (built t m (packet PUBLISH_TYPE (publish_flags qos dup retain) ?body) ?valid)"
          if B4: "building t v (2 ^ 30) (2 ^ 30 + 64) m h (map Some ?body) m4" for m4
          unfolding packet_def
          apply (rule building_log_copy(1) [OF B4, where n = "2 ^ 30 - 64"])
            apply (simp, simp add: lit_def)
          apply (rule building_frame [OF _ _ len_body _ 2(1)], assumption)
            by (auto simp: publish_header_def utf_def be16_def split_def)
        show ?case
        proof (cases "buffLen > 0")
          case False
          then have "payload = []" using len by (simp add: word_gt_0)
          moreover have "building t v (2 ^ 30) (2 ^ 30 + 64) m h (map Some (publish_header topic qos pid)) m3"
            by (rule building_touches [OF B3 touches_refl [OF buildingD(1) [OF B3]]])
              (use buildingD(3) [OF B3] in \<open>auto intro: room_le [OF buildingD(5) [OF B3]]\<close>)
          ultimately have "building t v (2 ^ 30) (2 ^ 30 + 64) m h (map Some ?body) m3" by simp
          from fin [OF this] show ?thesis
            using False off by (simp del: ok_bind not_None_eq add: split_def cong: if_cong split del: if_split) 
        next
          case True
          then obtain q where q: "msg = Some q" "ext_bytes m q (unat buffLen) = Some (map Some payload)"
            using src by (auto simp: word_gt_0)
          have q3: "ext_bytes m3 q (unat buffLen) = Some (map Some payload)" using buildingD(8) [OF B3] q by simp
          have ub: "unat (of_nat (length (publish_header topic qos pid)) :: u32) = length (publish_header topic qos pid)"
            by (rule unat_eq_of_nat) (use len_body in auto)
          let ?txt = "lit '' | PAYLOAD_LEN: '' @ fmt_nat (unat buffLen)"
          have z: "0 \<notin> set ?txt" by (simp add: fmt_nat_nonzero) (simp add: lit_def)
          have lt: "length ?txt + (2 ^ 30 + 64) \<le> 2 ^ 30 + 128" using length_fmt_u32 [of buffLen] by simp
          show ?thesis
          proof (simp only: off True if_True Option.bind.bind_lunit Option.bind_assoc prod.case simp_thms if_False,
              rule filling_enlarge [OF touches_refl [OF buildingD(1) [OF B3]] buildingD(3,5) [OF B3]], goal_cases)
            case 1
            then show ?case using True by auto
          next
            case 2
            then show ?case using len len_body by simp
          next
            case (3 r m4)
            have "building t v (2 ^ 30) (2 ^ 30 + 128) m h (map Some (publish_header topic qos pid)) m4"
              by (rule building_touches [OF B3 3(3,4,5)])
            then show ?case
              using 3(1,2) buildingD(6) [OF B3]
              apply (simp del: ok_bind not_None_eq split del: if_split)
              apply (rule building_drop, assumption)
              apply (rule dropped_end, assumption)
              apply simp
              done
          next
            case (4 a m4)
            have q4: "read_bytes q (unat buffLen) m4 = Some (map Some payload)"
              by (rule ext_bytesD(1)) (use 4(1) q3 touchesD(7) [of v h m3 m4 q] in \<open>simp add: filling_def\<close>)
            show ?case
              apply (simp only: 4(2) q q4 ub memcpy_bytes_def prod.case simp_thms if_False Option.bind.bind_lunit option.case Option.bind_assoc)
              apply (rule filling_bytes [OF 4(1), where ys = payload], simp add: len, simp, simp)
              apply (rule filling_trace_if [OF _ lt z], assumption)
              subgoal for m5 m6
                apply (simp del: ok_bind not_None_eq split del: if_split)
                apply (simp only: split_def)
                apply (rule fin [unfolded split_def])
                apply (rule building_touches [OF B3])
                  by (auto simp: filling_def len dest: cursor_bytes)
              done
          qed
        qed
      qed
    qed
  qed
qed

end
