(* ===== verification/Codec_Connect.thy ===== *)
theory Codec_Connect
  imports Codec_Build
begin

text \<open>
  The CONNECT packet (\<^verbatim>\<open>constructConnPayload\<close> and \<^verbatim>\<open>mqtt_codec_connect\<close> of
  \<^verbatim>\<open>uMQTT/src/mqtt_codec.c\<close>): rules for its optional fields, the trace of its payload, the
  contract of the builder, and the layout of the packet.
\<close>

section \<open>Optional fields\<close>

lemma filling_or:
  assumes F: "filling t n m0 h a bs k m" and i: "7 < length bs"
    and c: "\<And>m'. filling t n m0 h a (bs[7 := bs ! 7 OR v]) k m' \<Longrightarrow> ok (f m') Q"
  shows "ok (or_flag a v m \<bind> f) Q"
proof -
  have inv: "buf_inv m" "heap_inv m" using filling_inv [OF F] by (auto simp: heap_inv_def)
  have C: "buf_bytes m h = Some (map Some bs @ replicate k None)" "buf_at m h a"
    using F by (auto simp: filling_def cursor_def)
  have rd: "read_byte (a, 7) m = Some (bs ! 7)"
    using read_buf [OF C, of 7 1] i by (simp add: read_byte_def take_Suc nth_append hd_drop_conv_nth)
  have w: "write_at 7 [Some x] (map Some bs @ replicate k None) = map Some (bs[7 := x]) @ replicate k None" for x
    using i by (subst write_at_singleton) (simp_all add: list_update_append map_update)
  have "ok (write_bytes (a, 7) [Some (bs ! 7 OR v)] m) (\<lambda>m'. filling t n m0 h a (bs[7 := bs ! 7 OR v]) k m')"
  proof (rule ok_mono [OF write_buf_spec [OF inv(1) C]])
    fix m' assume E: "buf_effect m ((buf_bytes m)(h \<mapsto> write_at 7 [Some (bs ! 7 OR v)] (map Some bs @ replicate k None))) m' \<and>
      buffers m' = buffers m"
    note B = touches_buf [OF inv(2), of h _ m' t]
    show "filling t n m0 h a (bs[7 := bs ! 7 OR v]) k m'"
      using E B F C unfolding w
      by (auto simp: filling_def cursor_def buf_at_def intro: touches_trans room_cong)
  qed (use i in simp)
  then show ?thesis
    using rd c by (auto simp: or_flag_def CONN_FLAG_BYTE_OFFSET_def ok_iff)
qed

text \<open>One optional field: its flag, its string, and a line in the trace.\<close>

definition field :: "bool \<Rightarrow> u8 \<Rightarrow> cstring \<Rightarrow> u8 list \<Rightarrow> u8 list" where
  "field present flag s bs = (if present then bs[7 := bs ! 7 OR flag] @ utf s else bs)"

lemma length_field: "length (field p flag s bs) = length bs + (if p then length s + 2 else 0)"
  by (simp add: field_def)

lemma filling_field:
  assumes F: "filling v l m0 h a bs k m" and i: "7 < length bs" "i = length bs"
    and src: "s \<noteq> [] \<Longrightarrow> \<exists>q. p = Some q \<and> ext_string m0 q = Some s" and len: "length s \<le> 65535"
    and k: "s \<noteq> [] \<Longrightarrow> length s + 2 \<le> k"
    and ft: "\<And>m. s \<noteq> [] \<Longrightarrow> ext_string m = ext_string m0 \<Longrightarrow> \<exists>w. ft m = Some w \<and> 0 \<notin> set w \<and> length w + n \<le> l"
    and n: "n \<le> l" and sl: "sl = (of_nat (length s) :: u32)" and pr: "pr \<longleftrightarrow> s \<noteq> []"
    and c: "\<And>m'. filling v n m0 h a (field (s \<noteq> []) flag s bs) (if s \<noteq> [] then k - length s - 2 else k) m' \<Longrightarrow>
        ok (f (Some (a, length (field (s \<noteq> []) flag s bs)), m')) Q"
  shows "ok ((if pr then
        or_flag a flag m \<bind> (\<lambda>m. byteutil_writeUTF (Some (a, i)) p (ucast sl) m \<bind> (\<lambda>(it, m).
        (if b then trace_sprintf v (ft m) m else Some m) \<bind> (\<lambda>m. Some (it, m))))
      else Some (Some (a, i), m)) \<bind> f) Q"
proof (cases "s = []")
  case True
  have "filling v n m0 h a bs k m" using F n by (rule filling_room)
  then show ?thesis using c [of m] True i by (simp add: sl pr field_def)
next
  case False
  have pos: "pr" using False by (simp add: pr)
  obtain q where q: "p = Some q" "ext_string m0 q = Some s" using src False by blast
  show ?thesis
  proof (simp only: pos if_True Option.bind_assoc sl ucast_len [OF len], rule filling_or [OF F i(1)], goal_cases)
    case (1 m1)
    show ?case
    proof (rule filling_utf [OF 1, where s = s], goal_cases)
      case (6 m2)
      have "ext_string m2 = ext_string m0" by (rule ext, rule filling_ext [OF 6])
      then obtain w where w: "ft m2 = Some w" "0 \<notin> set w" "length w + n \<le> l" using ft [OF False] by blast
      show ?case
        apply (simp only: prod.case Option.bind_assoc Option.bind.bind_lunit w)
        apply (rule filling_trace_if [OF 6 w(3,2)])
        subgoal for m3
          using c [of m3] False i by (simp add: field_def)
        done
    qed (use False i q k len in auto)
  qed
qed

definition will_field :: "QOS_VALUE \<Rightarrow> bool \<Rightarrow> cstring \<Rightarrow> cstring \<Rightarrow> u8 list \<Rightarrow> u8 list" where
  "will_field qos retain wt wm bs =
     (if wt = [] then bs
      else (let bs = bs[7 := bs ! 7 OR WILL_FLAG_FLAG] @ utf wt;
                bs = bs[7 := bs ! 7 OR push_bit 3 qos];
                bs = (if retain then bs[7 := bs ! 7 OR WILL_RETAIN_FLAG] else bs)
            in bs @ utf wm))"

lemma length_will_field: "length (will_field q r wt wm bs) = length bs + (if wt = [] then 0 else length wt + length wm + 4)"
  by (simp add: will_field_def Let_def)

lemma filling_will:
  assumes F: "filling v l m0 h a bs k m" and i: "7 < length bs" "i = length bs"
    and src: "wt \<noteq> [] \<Longrightarrow> \<exists>q. p = Some q \<and> ext_string m0 q = Some wt" "wt \<noteq> [] \<Longrightarrow> \<exists>q. p' = Some q \<and> ext_string m0 q = Some wm"
    and len: "length wt \<le> 65535" "length wm \<le> 65535" and wm: "wm = [] \<longleftrightarrow> wt = []"
    and k: "wt \<noteq> [] \<Longrightarrow> length wt + length wm + 4 \<le> k"
    and n: "length wt + 16 + n \<le> l" and sl: "wtl = (of_nat (length wt) :: u32)" "wml = (of_nat (length wm) :: u32)"
    and pr: "pr \<longleftrightarrow> wt \<noteq> []"
    and c: "\<And>m'. filling v n m0 h a (will_field qos retain wt wm bs) (if wt = [] then k else k - length wt - length wm - 4) m' \<Longrightarrow>
        ok (f (Some (a, length (will_field qos retain wt wm bs)), m')) Q"
  shows "ok ((if pr then
        (if b then trace_sprintf v (fmt_s '' | WILL_TOPIC: '' p m) m else Some m) \<bind> (\<lambda>m.
        or_flag a WILL_FLAG_FLAG m \<bind> (\<lambda>m. byteutil_writeUTF (Some (a, i)) p (ucast wtl) m \<bind> (\<lambda>(it, m).
        or_flag a (push_bit 3 qos) m \<bind> (\<lambda>m.
        (if retain then or_flag a WILL_RETAIN_FLAG m else Some m) \<bind> (\<lambda>m.
        byteutil_writeUTF it p' (ucast wml) m)))))
      else Some (Some (a, i), m)) \<bind> f) Q"
proof (cases "wt = []")
  case True
  have "filling v n m0 h a bs k m" using F by (rule filling_room) (use n in simp)
  then show ?thesis using c [of m] True i by (simp add: sl pr will_field_def)
next
  case False
  have pos: pr using False by (simp add: pr)
  obtain q where q: "p = Some q" "ext_string m0 q = Some wt" using src(1) False by blast
  obtain q' where q': "p' = Some q'" "ext_string m0 q' = Some wm" using src(2) False by blast
  have k': "length wt + length wm + 4 \<le> k" using k False by simp
  have ft: "fmt_s '' | WILL_TOPIC: '' p m = Some (lit '' | WILL_TOPIC: '' @ wt)"
    using filling_ext [OF F, of q] q by (simp add: fmt_s_ext)
  have z: "0 \<notin> set (lit '' | WILL_TOPIC: '' @ wt)" using ext_stringD(2) [OF q(2)] by (simp add: lit_def)
  have lt: "length (lit '' | WILL_TOPIC: '' @ wt) + n \<le> l" using n by simp
  let ?bs1 = "bs[7 := bs ! 7 OR WILL_FLAG_FLAG]"
  let ?bs2 = "?bs1 @ utf wt"
  let ?bs3 = "?bs2[7 := ?bs2 ! 7 OR push_bit 3 qos]"
  let ?bs4 = "if retain then ?bs3[7 := ?bs3 ! 7 OR WILL_RETAIN_FLAG] else ?bs3"
  have last: "ok (byteutil_writeUTF (Some (a, length ?bs2)) p' (of_nat (length wm)) m5 \<bind> f) Q"
    if F5: "filling v n m0 h a ?bs4 (k - length wt - 2) m5" for m5
  proof (rule filling_utf [OF F5, where s = wm], goal_cases)
    case (6 m6)
    have "will_field qos retain wt wm bs = ?bs4 @ utf wm" using False by (simp add: will_field_def Let_def)
    moreover have "k - length wt - 2 - length wm - 2 = k - length wt - length wm - 4" by simp
    ultimately show ?case using c [of m6] 6 False by simp
  qed (use q' len k' in auto)
  show ?thesis
  proof (simp only: pos if_True simp_thms Option.bind_assoc sl ucast_len [OF len(1)] ucast_len [OF len(2)] ft,
      rule filling_trace_if [OF F lt z], goal_cases)
    case (1 m1)
    show ?case
    proof (rule filling_or [OF 1 i(1)], goal_cases)
      case (1 m2)
      show ?case
      proof (rule filling_utf [OF 1, where s = wt], goal_cases)
        case (6 m3)
        show ?case
        proof (simp only: prod.case Option.bind_assoc, rule filling_or [OF 6], goal_cases)
          case (2 m4)
          show ?case
          proof (cases retain)
            case True
            show ?thesis
              by (simp only: True if_True Option.bind_assoc, rule filling_or [OF 2])
                (use i last True in auto)
          next
            case False
            then show ?thesis using 2 last by simp
          qed
        qed (use i in simp)
      qed (use q len k' i in auto)
    qed
  qed
qed

text \<open>The trace of the payload, and how it ends in the trace log.\<close>

definition linked :: "ptr \<Rightarrow> ptr \<Rightarrow> nat \<Rightarrow> 'z smem_scheme \<Rightarrow> addr \<Rightarrow> 'z smem_scheme \<Rightarrow> bool" where
  "linked t v n m0 h m \<longleftrightarrow> tracing t v m0 m \<and> room t n m \<and> (t \<noteq> None \<longrightarrow> v \<noteq> t) \<and>
     (t = None \<longrightarrow> v = None) \<and> (\<forall>x. x \<noteq> h \<longrightarrow> buf_bytes m x = buf_bytes m0 x)"

lemma linked_touches:
  assumes L: "linked t v n m0 h m" and T: "touches v h m m'"
  shows "linked t v n m0 h m'"
proof -
  have "tracing t v m0 m'"
    by (rule tracing_step [of t v m0 m m' v]) (use L T in \<open>auto simp: linked_def touches_def\<close>)
  moreover have "room t n m'" using L T room_only [of t n m v m'] by (auto simp: linked_def touches_def)
  ultimately show ?thesis using L T by (auto simp: linked_def touches_def)
qed

lemma filling_new_log:
  assumes F: "filling t n m0 h a bs k m" and l: "l < 2 ^ 31"
    and c: "\<And>v m'. filling v l m' h a bs k m' \<Longrightarrow> linked t v n m0 h m' \<Longrightarrow> ok (f (v, m')) Q"
  shows "ok ((if t \<noteq> None then STRING_new m else Some (None, m)) \<bind> f) Q"
proof (cases "t = None")
  case True
  have "filling None l m h a bs k m" using F True touches_refl [OF filling_inv [OF F]] by (simp add: filling_def)
  moreover have "linked t None n m0 h m" using F True by (auto simp: filling_def linked_def tracing_def touches_def)
  ultimately show ?thesis using c True by simp
next
  case False
  have inv: "heap_inv m" using F by (rule filling_inv)
  then have sinv: "str_inv m" by (simp add: heap_inv_def)
  have T: "touches t h m0 m" using F by (simp add: filling_def)
  show ?thesis
  proof (simp only: False simp_thms if_True not_False_eq_True, rule ok_bind2I [OF STRING_new_spec [OF sinv]])
    fix v m' assume "str_created m [] (v, m')"
    then consider (Null) "v = None" "str_effect m (str_vals m) m'"
      | (New) g where "v = Some g" "str_vals m g = None" "str_effect m ((str_vals m)(g \<mapsto> [])) m'"
      by (auto simp: str_created_def)
    then show "ok (f (v, m')) Q"
    proof cases
      case Null
      note E = heap_effectD [OF str_effect_heap [OF inv Null(2)]]
      have B: "buffers m' = buffers m" using Null(2) by (simp add: str_effect_def str_frame_def)
      have "filling v l m' h a bs k m'"
        using F E B touches_refl [OF E(1)] Null by (simp add: filling_def cursor_def buf_at_def)
      moreover have "linked t v n m0 h m'"
        using T E F Null by (auto simp: linked_def tracing_def touches_def filling_def only_string_def
            intro: heap_frame_trans room_cong)
      ultimately show ?thesis by (rule c)
    next
      case (New g)
      note E = heap_effectD [OF str_effect_heap [OF inv New(3)]]
      have B: "buffers m' = buffers m" using New(3) by (simp add: str_effect_def str_frame_def)
      have t: "t \<noteq> Some g" using F New(2) by (auto simp: filling_def room_def)
      have g0: "str_vals m0 g = None" using touchesD(5) [OF T t] New(2) by simp
      have "filling v l m' h a bs k m'"
        using F E B touches_refl [OF E(1)] New l by (simp add: filling_def cursor_def buf_at_def room_def)
      moreover have "room t n m'" using F t E(3) by (auto simp: filling_def room_def)
      then have "linked t v n m0 h m'"
        using T E New t g0 False by (auto simp: linked_def tracing_def touches_def only_string_def intro: heap_frame_trans)
      ultimately show ?thesis by (rule c)
    qed
  qed
qed

lemma log_join_room:
  assumes inv: "heap_inv m" and room: "room t (l + n) m" and v: "room v (2 ^ 31 - 1 - l) m" and l: "l < 2 ^ 31"
    and ne: "t \<noteq> None \<Longrightarrow> v \<noteq> t"
  shows "ok (log_join t v m) (\<lambda>m'. quiet t m m' \<and> room t n m')"
proof (cases "t = None \<or> v = None")
  case True
  then show ?thesis using quiet_refl [OF inv] room_le [OF room, of n]
    by (auto simp: log_join_def STRING_concat_with_STRING_def split: option.splits)
next
  case False
  then obtain h g where hg: "t = Some h" "v = Some g" "g \<noteq> h" using ne by auto
  then obtain s u where s: "str_vals m h = Some s" "length s + (l + n) < 2 ^ 31" and u: "str_vals m g = Some u" "length u \<le> l"
    using room v l by (fastforce simp: room_def)
  have sinv: "str_inv m" using inv by (simp add: heap_inv_def)
  have "ok (STRING_concat_with_STRING (Some h) (Some g) m) (str_updated m h (s @ u))"
    by (rule STRING_concat_with_STRING_spec [OF sinv s(1) u(1) hg(3)]) (use s u l in auto)
  then show ?thesis
    using hg s(2) u(2) by (auto simp: log_join_def ok_iff room_def dest!: str_updated_quiet [OF inv s(1)])
qed

lemma linked_finish:
  assumes L: "linked t v (l + 8 + n) m0 h m" and v: "room v (2 ^ 31 - 1 - l) m" and l: "l < 2 ^ 31"
    and bs: "buf_bytes m h = Some (map Some bs)" "buf_at m h a" "7 < length bs"
    and c: "\<And>m'. touches t h m0 m' \<Longrightarrow> buf_bytes m' h = Some (map Some bs) \<Longrightarrow> room t n m' \<Longrightarrow> ok (f m') Q"
  shows "ok ((if t \<noteq> None then
       read_byte (a, CONN_FLAG_BYTE_OFFSET) m \<bind> (\<lambda>b.
       trace_sprintf t (Some (lit '' '' @ fmt_nat (unat b))) m \<bind> (\<lambda>m.
       STRING_concat_with_STRING t v m \<bind> (\<lambda>(_, m). STRING_delete v m)))
     else Some m) \<bind> f) Q"
proof (cases "t = None")
  case True
  then have "touches t h m0 m" using L
    by (auto simp: linked_def tracing_def touches_def)
  then show ?thesis using c [of m] L bs True by simp
next
  case False
  have del: "(if v \<noteq> None then STRING_delete v m else Some m) = STRING_delete v m" for m :: "'a smem_scheme"
    by (cases v) simp_all
  have T: "tracing t v m0 m" using L by (simp add: linked_def)
  have inv: "heap_inv m" using T by (simp add: tracing_def)
  have rd: "read_byte (a, CONN_FLAG_BYTE_OFFSET) m = Some (bs ! 7)"
    using read_buf [OF bs(1,2), of 7 1] bs(3) by (simp add: CONN_FLAG_BYTE_OFFSET_def read_byte_def take_Suc hd_drop_conv_nth)
  let ?ft = "lit '' '' @ fmt_nat (unat (bs ! 7))"
  have z: "0 \<notin> set ?ft" by (simp add: fmt_nat_nonzero) (simp add: lit_def)
  have r: "room t (length ?ft + (l + n)) m"
    by (rule room_le [of t "l + 8 + n"]) (use L length_fmt_u8 [of "bs ! 7"] in \<open>auto simp: linked_def\<close>)
  have ne: "t \<noteq> None \<Longrightarrow> v \<noteq> t" using L by (simp add: linked_def)
  have J: "ok (log_join t v m1) (\<lambda>m'. quiet t m1 m' \<and> room t n m')" if Q1: "quiet t m m1 \<and> room t (l + n) m1" for m1
    by (rule log_join_room [OF _ _ _ l ne])
      (use Q1 v room_only [of v "2 ^ 31 - 1 - l" m t m1] ne False in \<open>auto simp: quiet_def\<close>)
  have "ok (trace_sprintf t (Some ?ft) m \<bind> (\<lambda>m. log_join t v m \<bind> (\<lambda>m.
      (if v \<noteq> None then STRING_delete v m else Some m) \<bind> f))) Q"
  proof (rule ok_bindI [OF trace_sprintf_spec [OF inv r z]], rule ok_bindI [OF J], assumption)
    fix m1 m2 assume 1: "quiet t m m1 \<and> room t (l + n) m1" and 2: "quiet t m1 m2 \<and> room t n m2"
    then have Q: "quiet t m m2" by (auto intro: quiet_trans)
    have T2: "tracing t v m0 m2"
      by (rule tracing_step [of t v m0 m m2 t]) (use L Q in \<open>auto simp: linked_def quiet_def\<close>)
    show "ok ((if v \<noteq> None then STRING_delete v m2 else Some m2) \<bind> f) Q"
    proof (cases v)
      case None
      have "touches t h m0 m2" using T2 Q L None by (auto simp: tracing_def touches_def quiet_def linked_def only_string_def)
      then show ?thesis using c [of m2] Q 2 bs None by (simp add: quietD)
    next
      case (Some g)
      then obtain s where s: "str_vals m2 g = Some s" using T2 by (auto simp: tracing_def)
      have inv2: "heap_inv m2" using T2 by (simp add: tracing_def)
      then have sinv: "str_inv m2" by (simp add: heap_inv_def)
      have "ok (STRING_delete (Some g) m2 \<bind> f) Q"
      proof (rule ok_bindI [OF STRING_delete_spec [OF sinv s]])
        fix m3 assume "str_effect m2 ((str_vals m2)(g := None)) m3"
        note E = heap_effectD [OF str_effect_heap [OF inv2 this]]
        have "touches t h m0 m3"
          using T2 E Q L Some by (auto simp: tracing_def touches_def quiet_def linked_def only_string_def intro: heap_frame_trans)
        moreover have "room t n m3" using 2 E(3) ne Some by (auto simp: room_def)
        ultimately show "ok (f m3) Q" using E(2) Q bs by (intro c) (simp_all add: quietD)
      qed
      then show ?thesis using Some by simp
    qed
  qed
  then have "ok (trace_sprintf t (Some ?ft) m \<bind> (\<lambda>m. log_join t v m \<bind> (\<lambda>m. STRING_delete v m \<bind> f))) Q"
    unfolding del .
  then show ?thesis using False rd by (simp add: log_join_def split_def)
qed

section \<open>The payload\<close>

text \<open>
  The string options in the form the theorems are about: \<open>[]\<close> is an absent option, and an
  option that is present is not empty.  The client id is present.
\<close>

record connect_strings =
  cs_client :: cstring
  cs_topic :: cstring
  cs_message :: cstring
  cs_user :: cstring
  cs_password :: cstring

definition opt_is :: "'z smem_scheme \<Rightarrow> char_ptr option \<Rightarrow> cstring \<Rightarrow> bool" where
  "opt_is m p s \<longleftrightarrow> (case p of None \<Rightarrow> s = [] | Some q \<Rightarrow> s \<noteq> [] \<and> ext_string m q = Some s)"

definition options_are :: "'z smem_scheme \<Rightarrow> MQTT_CLIENT_OPTIONS \<Rightarrow> connect_strings \<Rightarrow> bool" where
  "options_are m opts cs \<longleftrightarrow>
     (\<exists>q. clientId opts = Some q \<and> ext_string m q = Some (cs_client cs)) \<and>
     opt_is m (willTopic opts) (cs_topic cs) \<and> opt_is m (willMessage opts) (cs_message cs) \<and>
     opt_is m (username opts) (cs_user cs) \<and> opt_is m (password opts) (cs_password cs) \<and>
     length (cs_client cs) < 2 ^ 28 \<and> length (cs_topic cs) < 2 ^ 28 \<and> length (cs_message cs) < 2 ^ 28 \<and>
     length (cs_user cs) < 2 ^ 28 \<and> length (cs_password cs) < 2 ^ 28"

definition connect_valid :: "connect_strings \<Rightarrow> bool" where
  "connect_valid cs \<longleftrightarrow>
     length (cs_client cs) \<le> 65535 \<and> length (cs_topic cs) \<le> 65535 \<and> length (cs_message cs) \<le> 65535 \<and>
     length (cs_user cs) \<le> 65535 \<and> length (cs_password cs) \<le> 65535 \<and>
     (cs_user cs = [] \<longrightarrow> cs_password cs = []) \<and> (cs_topic cs = [] \<longleftrightarrow> cs_message cs = [])"

definition connect_fields :: "MQTT_CLIENT_OPTIONS \<Rightarrow> connect_strings \<Rightarrow> u8 list \<Rightarrow> u8 list" where
  "connect_fields opts cs hdr =
     (let bs = field (cs_password cs \<noteq> []) PASSWORD_FLAG (cs_password cs)
                (field (cs_user cs \<noteq> []) USERNAME_FLAG (cs_user cs)
                  (will_field (qualityOfServiceValue opts) (messageRetain opts) (cs_topic cs) (cs_message cs)
                    (hdr @ utf (cs_client cs))))
      in if useCleanSession opts then bs[7 := bs ! 7 OR CLEAN_SESSION_FLAG] else bs)"

definition space :: "cstring \<Rightarrow> nat" where
  "space s = (if s = [] then 0 else length s + 2)"

lemma option_len_opt:
  assumes "opt_is m p s"
  shows "option_len p m = Some (if s = [] then 0 else 2, of_nat (length s))"
  using assms by (auto simp: opt_is_def option_len_def ext_stringD split: option.splits)

lemma opt_is_ext: "opt_is m p s \<Longrightarrow> s \<noteq> [] \<Longrightarrow> \<exists>q. p = Some q \<and> ext_string m q = Some s"
  by (auto simp: opt_is_def split: option.splits)

lemma pos_len: "length s < 2 ^ 28 \<Longrightarrow> (0 :: u32) < of_nat (length s) \<longleftrightarrow> s \<noteq> []"
  "length s < 2 ^ 28 \<Longrightarrow> (of_nat (length s) :: u32) = 0 \<longleftrightarrow> s = []"
  by (simp_all add: word_less_nat_alt flip: unat_eq_0_u32)

lemma ConnPayload_spec:
  assumes inv: "heap_inv m" and h: "buf_bytes m h = Some (map Some hdr)" and hdr: "8 \<le> length hdr" "length hdr < 2 ^ 10"
    and O: "options_are m opts cs" and room: "room t (2 ^ 20 + n) m"
  shows "ok (constructConnPayload (Some h) (Some opts) t m)
    (stepped t n m h (connect_fields opts cs hdr) (connect_valid cs))"
proof -
  let ?c = "cs_client cs" and ?wt = "cs_topic cs" and ?wm = "cs_message cs" and ?u = "cs_user cs" and ?p = "cs_password cs"
  obtain q where q: "clientId opts = Some q" "ext_string m q = Some ?c" using O by (auto simp: options_are_def)
  have opt: "opt_is m (willTopic opts) ?wt" "opt_is m (willMessage opts) ?wm" "opt_is m (username opts) ?u"
      "opt_is m (password opts) ?p"
    and len: "length ?c < 2 ^ 28" "length ?wt < 2 ^ 28" "length ?wm < 2 ^ 28" "length ?u < 2 ^ 28" "length ?p < 2 ^ 28"
    using O by (auto simp: options_are_def)
  have cl: "option_len (clientId opts) m = Some (2, of_nat (length ?c))"
    using q ext_stringD(1) [OF q(2)] by (simp add: option_len_def)
  note lens = cl option_len_opt [OF opt(1)] option_len_opt [OF opt(2)] option_len_opt [OF opt(3)] option_len_opt [OF opt(4)]
  note pos = pos_len [OF len(2)] pos_len [OF len(3)] pos_len [OF len(4)] pos_len [OF len(5)]
  define total where "total = (of_nat (length ?c) + of_nat (length ?u) + of_nat (length ?p) + of_nat (length ?wm) + of_nat (length ?wt) +
    (2 + (if ?u = [] then 0 else 2) + (if ?p = [] then 0 else 2) + (if ?wm = [] then 0 else 2) + (if ?wt = [] then 0 else 2)) :: u32)"
  have tot: "unat total = length ?c + 2 + space ?wt + space ?wm + space ?u + space ?p"
    by (rule unat_eq_of_nat) (use len in \<open>auto simp: total_def space_def\<close>)
  have tnz: "total \<noteq> 0" using tot by (auto simp flip: unat_eq_0_u32)
  have lh: "unat (of_nat (length hdr) :: u32) = length hdr" using hdr by simp
  have e: "length s < 2 ^ 28 \<Longrightarrow> length s < 2 ^ 32" for s :: cstring by simp
  note long = too_long [OF e, OF len(1)] too_long [OF e, OF len(2)] too_long [OF e, OF len(3)] too_long [OF e, OF len(4)]
    too_long [OF e, OF len(5)]
  have r0: "room t n m" using room by (rule room_le) simp
  define early where "early \<longleftrightarrow> length ?c > 65535 \<or> (?u = [] \<and> ?p \<noteq> []) \<or> (?wm \<noteq> [] \<and> ?wt = [] \<or> ?wt \<noteq> [] \<and> ?wm = [])"
  show ?thesis
  proof (cases early)
    case True
    then have "constructConnPayload (Some h) (Some opts) t m = Some (FAILURE, m)"
      by (auto simp: constructConnPayload_def lens long pos buf_length_of [OF h] Let_def early_def)
    then show ?thesis
      using True h touches_refl [OF inv] r0 by (auto simp: stepped_def early_def connect_valid_def)
  next
    case early: False
    define late where "late \<longleftrightarrow> length ?wm > 65535 \<or> length ?wt > 65535 \<or> length ?u > 65535 \<or> length ?p > 65535"
    have valid: "connect_valid cs \<longleftrightarrow> \<not> late" using early by (auto simp: late_def early_def connect_valid_def)
    have guards: "\<not> length ?c > 65535" "\<not> (?u = [] \<and> ?p \<noteq> [])" "\<not> (?wm \<noteq> [] \<and> ?wt = [] \<or> ?wt \<noteq> [] \<and> ?wm = [])"
      using early by (auto simp: early_def)
    have c16: "length ?c \<le> 65535" using guards by simp
    show ?thesis
      unfolding constructConnPayload_def
    proof (simp only: option.case prod.case lens Option.bind.bind_lunit buf_length_of [OF h] Let_def long pos guards if_False lh
        ucast_len [OF c16] total_def [symmetric],
        rule filling_enlarge [OF touches_refl [OF inv] h room tnz], goal_cases)
      case 1
      then show ?case using tot len hdr by (simp add: space_def)
    next
      case (2 r m1)
      then show ?case by (auto intro!: steppedI_err intro: room_le)
    next
      case (3 a m1)
      show ?case
      proof (simp only: prod.case simp_thms if_False 3(2) Option.bind.bind_lunit, rule filling_utf [OF 3(1), where s = ?c], goal_cases)
        case (6 m2)
        then have F2: "filling t (2 ^ 20 + n) m h a (hdr @ utf ?c) (space ?wt + space ?wm + space ?u + space ?p) m2"
          by (simp add: tot add.assoc)
        show ?case
        proof (cases late)
          case True
          then show ?thesis
            using 6 valid by (auto simp: late_def long filling_def dest: cursor_bytes intro!: steppedI_err intro: room_le)
        next
          case late: False
          then have s16: "length ?wm \<le> 65535" "length ?wt \<le> 65535" "length ?u \<le> 65535" "length ?p \<le> 65535"
            and ng: "\<not> (length ?wm > 65535 \<or> length ?wt > 65535 \<or> length ?u > 65535 \<or> length ?p > 65535)"
            by (auto simp: late_def)
          show ?thesis
          proof (simp only: prod.case ng if_False, rule filling_new_log [OF F2, where l = "2 ^ 31 - 1"], goal_cases)
            case (2 v m3)
            have E3: "ext_string m3 p = ext_string m p" for p
              using 2(2) by (auto simp: linked_def tracing_def ext_string_frame)
            have opt3: "opt_is m3 (willTopic opts) ?wt" "opt_is m3 (willMessage opts) ?wm" "opt_is m3 (username opts) ?u"
              "opt_is m3 (password opts) ?p" using opt unfolding opt_is_def E3 by blast+
            have wtm: "?wm = [] \<longleftrightarrow> ?wt = []" using guards by auto
            show ?case
            proof (simp only: prod.case, rule filling_will [OF 2(1), where wt = ?wt and wm = ?wm and n = "2 ^ 31 - 1 - 70000"], goal_cases)
              case (13 m4)
              let ?bs1 = "will_field (qualityOfServiceValue opts) (messageRetain opts) ?wt ?wm (hdr @ utf ?c)"
              let ?bs2 = "field (?u \<noteq> []) USERNAME_FLAG ?u ?bs1"
              let ?bs3 = "field (?p \<noteq> []) PASSWORD_FLAG ?p ?bs2"
              have l1: "7 < length ?bs1" using hdr by (simp add: length_will_field)
              have F4: "filling v (2 ^ 31 - 1 - 70000) m3 h a ?bs1 (space ?u + space ?p) m4"
                using 13 wtm by (auto simp: space_def split: if_splits)
              show ?case
              proof (simp only: prod.case, rule filling_field [OF F4, where s = ?u and n = "2 ^ 31 - 1 - 140000"], goal_cases)
                case (10 m5)
                then have F5: "filling v (2 ^ 31 - 1 - 140000) m3 h a ?bs2 (space ?p) m5"
                  by (auto simp: space_def split: if_splits)
                show ?case
                proof (simp only: prod.case, rule filling_field [OF F5, where s = ?p and n = "2 ^ 31 - 1 - 140100"], goal_cases)
                  case (10 m6)
                  then have F6: "filling v (2 ^ 31 - 1 - 140100) m3 h a ?bs3 0 m6"
                    by (auto simp: space_def split: if_splits)
                  let ?ft = "lit '' | CLEAN: '' @ (if useCleanSession opts then lit ''1'' else lit ''0'')"
                  let ?bs4 = "if useCleanSession opts then ?bs3[7 := ?bs3 ! 7 OR CLEAN_SESSION_FLAG] else ?bs3"
                  have l3: "7 < length ?bs3" using l1 by (simp add: length_field)
                  have z: "0 \<notin> set ?ft" and lf: "length ?ft + (2 ^ 31 - 1 - 140200) \<le> 2 ^ 31 - 1 - (140100 :: nat)"
                    by (auto simp: lit_def)
                  have fin: "ok ((if t \<noteq> None then
                       read_byte (a, CONN_FLAG_BYTE_OFFSET) m8 \<bind> (\<lambda>b.
                       trace_sprintf t (Some (lit '' '' @ fmt_nat (unat b))) m8 \<bind> (\<lambda>m.
                       STRING_concat_with_STRING t v m \<bind> (\<lambda>(_, m). STRING_delete v m)))
                     else Some m8) \<bind> (\<lambda>m. Some (0, m))) (stepped t n m h (connect_fields opts cs hdr) (connect_valid cs))"
                    if F8: "filling v (2 ^ 31 - 1 - 140200) m3 h a ?bs4 0 m8" for m8
                  proof -
                    have T: "touches v h m3 m8" using F8 by (simp add: filling_def)
                    have "linked t v (2 ^ 20 + n) m h m8" by (rule linked_touches [OF 2(2) T])
                    then have L: "linked t v (140200 + 8 + n) m h m8" by (auto simp: linked_def intro: room_le)
                    have "room v (2 ^ 31 - 1 - 140200) m8" "buf_bytes m8 h = Some (map Some ?bs4)" "buf_at m8 h a" "7 < length ?bs4"
                      using F8 l3 by (auto simp: filling_def cursor_def)
                    note X = L this(1) this(2-4)
                    have fields: "connect_fields opts cs hdr = ?bs4" by (simp add: connect_fields_def Let_def)
                    show ?thesis
                      apply (rule linked_finish [OF X(1,2) _ X(3-5)])
                       apply simp
                      apply (unfold fields)
                      by (use valid late in \<open>auto simp: stepped_def\<close>)
                  qed
                  show ?case
                    apply (simp only: prod.case)
                    apply (rule filling_trace_if [OF F6 lf z])
                    subgoal for m7
                      apply (cases "useCleanSession opts")
                       apply (simp only: if_True)
                       apply (rule filling_or [OF _ l3], assumption)
                       apply (rule fin, simp)
                      apply (simp only: if_False Option.bind.bind_lunit)
                      apply (rule fin, simp)
                      done
                    done
                qed (use l1 opt_is_ext [OF opt3(4)] s16 in \<open>auto simp: space_def length_field lit_def\<close>)
              qed (use l1 opt_is_ext [OF opt3(3)] s16 in \<open>auto simp: space_def fmt_s_ext lit_def dest: ext_stringD\<close>)
            qed (use hdr opt_is_ext [OF opt3(1)] opt_is_ext [OF opt3(2)] s16 wtm in \<open>auto simp: space_def\<close>)
          qed simp
        qed
      qed (use q c16 tot in auto)
    qed
  qed
qed

section \<open>The packet\<close>

definition connect_body :: "MQTT_CLIENT_OPTIONS \<Rightarrow> connect_strings \<Rightarrow> u8 list" where
  "connect_body opts cs = connect_fields opts cs (connect_header (keepAliveInterval opts))"

text \<open>
  A CONNECT packet was built, or else not; when extending the packet for the variable header
  fails, the trace of the packet is not released.
\<close>

definition connected ::
  "ptr \<Rightarrow> 'z smem_scheme \<Rightarrow> u8 list \<Rightarrow> bool \<Rightarrow> ptr \<times> 'z smem_scheme \<Rightarrow> bool" where
  "connected t m ys valid = (\<lambda>(r, m'). built t m ys valid (r, m') \<or>
     (r = None \<and> \<not> alloc_total m \<and> (\<exists>v. dropped t (Some v) m m')))"

lemma length_connect_header: "length (connect_header k) = 10"
  by (simp add: connect_header_def utf_def be16_def lit_def)

lemma length_or: "length (if b then xs[i := x] else xs) = length xs"
  by simp

lemma length_connect_fields:
  "connect_valid cs \<Longrightarrow> length (connect_fields opts cs hdr) \<le> length hdr + 327685"
  by (auto simp: connect_fields_def Let_def length_field length_will_field connect_valid_def utf_def be16_def)

lemma connect_fields_nonempty: "hdr \<noteq> [] \<Longrightarrow> connect_fields opts cs hdr \<noteq> []"
  by (auto simp: connect_fields_def Let_def length_field length_will_field simp flip: length_greater_0_conv)

lemma connect_start:
  assumes T: "touches None h m0 m" and h: "buf_bytes m0 h = None" and zs: "buf_bytes m h = Some []" and log: "room t n m0"
    and cont: "\<And>v m'. building t v n (2 ^ 31 - 1) m0 h [] m' \<Longrightarrow> ok (f (v, m')) Q"
  shows "ok ((if t \<noteq> None then STRING_new m else Some (None, m)) \<bind> f) Q"
proof (rule building_log [OF T h zs log, where s = "[]"])
  show "ok (STRING_new m) (str_created m [])"
    by (rule STRING_new_spec) (use touchesD(1) [OF T] in \<open>simp add: heap_inv_def\<close>)
qed (auto intro: cont)

lemma Connect_spec:
  assumes inv: "heap_inv m" and log: "log_ok t m" and O: "options_are m opts cs"
  shows "ok (mqtt_codec_connect (Some opts) t m)
    (connected t m (packet CONNECT_TYPE 0 (connect_body opts cs)) (connect_valid cs))"
    (is "ok _ (connected t m (packet _ _ ?body) ?valid)")
proof -
  let ?H = "connect_header (keepAliveInterval opts)"
  have r: "room t (2 ^ 30) m" using log by (simp add: log_ok_def)
  show ?thesis
    unfolding mqtt_codec_connect_def
  proof (simp only: option.case, rule new_packet [OF inv], goal_cases)
    case (1 m')
    then show ?case by (auto simp: connected_def intro!: built_NULL enc_effect_weaken)
  next
    case (2 h m1)
    show ?case
    proof (simp only: prod.case option.distinct if_False, rule connect_start [OF 2(2,1,3) r], goal_cases)
      case (1 v m2)
      note B = 1
      have H: "ok (constructConnectVariableHeader (Some h) opts v m2) (stepped v (2 ^ 30 + 2 ^ 20 + 64) m2 h ?H True)"
        by (rule ConnectVariableHeader_spec [OF buildingD(1) [OF B]])
          (use buildingD(3) [OF B] in \<open>auto intro: room_le [OF buildingD(5) [OF B]]\<close>)
      show ?case
      proof (simp only: prod.case, rule building_step [OF B H], goal_cases)
        case (1 r m3 zs')
        show ?case
          using 1(1,2)
          apply (simp del: ok_bind not_None_eq split del: if_split)
          apply (rule building_drop [OF 1(3)])
          apply (cases v)
           apply (auto simp: connected_def built_def dropped_def tracing_def enc_effect_def only_string_def)
          done
      next
        case (2 m3)
        note B3 = 2(2)
        have O3: "options_are m3 opts cs"
          using O unfolding options_are_def opt_is_def buildingD(7) [OF B3] by blast
        have P: "ok (constructConnPayload (Some h) (Some opts) v m3)
          (stepped v (2 ^ 30 + 64) m3 h ?body ?valid)"
          unfolding connect_body_def
          by (rule ConnPayload_spec [OF buildingD(1,3) [OF B3] _ _ O3])
            (auto simp: length_connect_header intro: room_le [OF buildingD(5) [OF B3]])
        have weak: "ok c (built t m ys ?valid) \<Longrightarrow> ok c (connected t m ys ?valid)" for c ys
          by (erule ok_mono) (auto simp: connected_def)
        show ?case
        proof (simp only: prod.case simp_thms if_False, rule weak, rule building_step [OF B3 P], goal_cases)
          case (1 r m4 zs')
          then show ?case
            apply (simp del: ok_bind not_None_eq split del: if_split)
            apply (rule building_drop, assumption)
            apply (rule dropped_end, assumption)
            apply simp
            done
        next
          case (2 m4)
          have len: "length ?body < 2 ^ 28"
            using length_connect_fields [OF 2(1), of opts ?H] by (simp add: connect_body_def length_connect_header)
          have ne: "?body \<noteq> []"
            using length_connect_header [of "keepAliveInterval opts"]
            by (auto simp: connect_body_def intro!: connect_fields_nonempty)
          show ?case
            unfolding packet_def
            apply (simp only: prod.case simp_thms if_False Option.bind_assoc)
            apply (rule building_log_copy(1) [OF 2(2), where n = "2 ^ 30 - 64"])
              apply (simp, simp add: lit_def)
            apply (rule building_frame [OF _ ne len _ 2(1)], assumption)
              by (auto simp: split_def)
        qed
      qed
    qed
  qed
qed

section \<open>The layout of the packet\<close>

definition connect_flags :: "MQTT_CLIENT_OPTIONS \<Rightarrow> connect_strings \<Rightarrow> u8" where
  "connect_flags opts cs =
     (if cs_topic cs = [] then 0
      else WILL_FLAG_FLAG OR push_bit 3 (qualityOfServiceValue opts) OR (if messageRetain opts then WILL_RETAIN_FLAG else 0)) OR
     (if cs_user cs = [] then 0 else USERNAME_FLAG) OR
     (if cs_password cs = [] then 0 else PASSWORD_FLAG) OR
     (if useCleanSession opts then CLEAN_SESSION_FLAG else 0)"

definition opt_utf :: "cstring \<Rightarrow> u8 list" where
  "opt_utf s = (if s = [] then [] else utf s)"

definition conn :: "u8 \<Rightarrow> u8 list \<Rightarrow> u8 list" where
  "conn flags ys = utf (lit ''MQTT'') @ [4, flags] @ ys"

lemma conn_eq: "conn f ys = (utf (lit ''MQTT'') @ [4]) @ f # ys" "length (utf (lit ''MQTT'') @ [4]) = 7"
  by (simp_all add: conn_def utf_def be16_def lit_def)

lemma conn_or: "(conn f ys)[7 := conn f ys ! 7 OR v] = conn (f OR v) ys"
  using conn_eq(2) unfolding conn_eq(1) by (simp only: list_update_append nth_append) simp

lemma conn_append: "conn f ys @ zs = conn f (ys @ zs)"
  by (simp add: conn_def)

lemma conn_field: "field (s \<noteq> []) v s (conn f ys) = conn (f OR (if s = [] then 0 else v)) (ys @ opt_utf s)"
  by (simp add: field_def opt_utf_def conn_or conn_append)

lemma conn_will:
  assumes "wm = [] \<longleftrightarrow> wt = []"
  shows "will_field q r wt wm (conn f ys) =
    conn (f OR (if wt = [] then 0 else WILL_FLAG_FLAG OR push_bit 3 q OR (if r then WILL_RETAIN_FLAG else 0)))
      (ys @ opt_utf wt @ opt_utf wm)"
  using assms by (simp add: will_field_def opt_utf_def conn_or conn_append Let_def or.assoc)

lemma connect_layout:
  assumes "cs_message cs = [] \<longleftrightarrow> cs_topic cs = []"
  shows "connect_body opts cs =
    utf (lit ''MQTT'') @ [4, connect_flags opts cs] @ be16 (keepAliveInterval opts) @ utf (cs_client cs) @
    opt_utf (cs_topic cs) @ opt_utf (cs_message cs) @ opt_utf (cs_user cs) @ opt_utf (cs_password cs)"
proof -
  have h: "connect_header k @ ys = conn 0 (be16 k @ ys)" for k ys
    by (simp add: connect_header_def conn_def c_consts)
  have c: "(if b then (conn f ys)[7 := conn f ys ! 7 OR v] else conn f ys) = conn (f OR (if b then v else 0)) ys" for b f ys v
    by (simp add: conn_or)
  have w: "cs_message cs = [] \<longleftrightarrow> cs_topic cs = []" using assms .
  show ?thesis
    unfolding connect_body_def connect_fields_def Let_def h conn_will [OF w] conn_field c
    by (simp add: conn_def connect_flags_def or.assoc split del: if_split)
qed

end
