(* ===== verification/Codec_Decode.thy ===== *)
theory Codec_Decode
  imports Effects MqttConst Codec_Encode
begin

text \<open>
  The decoder of \<^verbatim>\<open>uMQTT/src/mqtt_codec.c\<close> (\<^verbatim>\<open>MQTTCODEC_INSTANCE\<close>, \<^verbatim>\<open>mqtt_codec_create\<close>,
  \<^verbatim>\<open>mqtt_codec_destroy\<close>, \<^verbatim>\<open>mqtt_codec_bytesReceived\<close> and their static helpers).  The
  callback is a number and a context in the instance; what the functions do is the
  parameter \<open>call\<close>, which gets the heap and may change all of it.
\<close>

section \<open>The instance\<close>

datatype CODEC_STATE_RESULT = CODEC_STATE_FIXED_HEADER | CODEC_STATE_VAR_HEADER | CODEC_STATE_PAYLOAD

record MQTTCODEC_INSTANCE =
  currPacket :: CONTROL_PACKET_TYPE
  codecState :: CODEC_STATE_RESULT
  bufferOffset :: u32
  headerFlags :: int
  headerData :: ptr
  packetComplete :: "nat option"
  callContext :: ptr
  storeRemainLen :: "u8 list"
  remainLenIndex :: nat

record cmem = smem +
  codecs :: "addr \<rightharpoonup> MQTTCODEC_INSTANCE"

type_synonym 'z on_packet =
  "nat \<Rightarrow> ptr \<Rightarrow> CONTROL_PACKET_TYPE \<Rightarrow> int \<Rightarrow> ptr \<Rightarrow> 'z cmem_scheme \<Rightarrow> 'z cmem_scheme option"

definition sizeof_MQTTCODEC_INSTANCE :: nat where
  "sizeof_MQTTCODEC_INSTANCE = 36"

text \<open>\<open>codecData->... = ...\<close>\<close>

definition upd_codec ::
  "addr \<Rightarrow> (MQTTCODEC_INSTANCE \<Rightarrow> MQTTCODEC_INSTANCE) \<Rightarrow> 'z cmem_scheme \<Rightarrow> 'z cmem_scheme option" where
  "upd_codec c f m =
     (case codecs m c of
        None \<Rightarrow> None
      | Some i \<Rightarrow> Some (m\<lparr>codecs := (codecs m)(c \<mapsto> f i)\<rparr>))"

section \<open>Fixed header\<close>

definition PACKET_TYPE_BYTE :: "u8 \<Rightarrow> u8" where
  "PACKET_TYPE_BYTE p = p AND 0xf0"

definition FLAG_VALUE_BYTE :: "u8 \<Rightarrow> u8" where
  "FLAG_VALUE_BYTE p = p AND 0xf"

definition processControlPacketType :: "u8 \<Rightarrow> CONTROL_PACKET_TYPE \<times> int" where
  "processControlPacketType pktByte = (PACKET_TYPE_BYTE pktByte, uint (FLAG_VALUE_BYTE pktByte))"

text \<open>
  The loop over \<open>storeRemainLen\<close>, which fails once the multiplier exceeds \<open>128 * 128 * 128\<close>.
  The result is the return code and \<open>totalLen\<close>.
\<close>

fun remainLen_loop :: "u8 list \<Rightarrow> int \<Rightarrow> int \<Rightarrow> (int \<times> int) option" where
  "remainLen_loop [] multiplier totalLen = None"
| "remainLen_loop (encodeByte # bs) multiplier totalLen =
     (let totalLen = totalLen + uint (encodeByte AND 127) * multiplier;
          multiplier = multiplier * uint NEXT_128_CHUNK
      in if multiplier > 128 * 128 * 128 then Some (FAILURE, totalLen)
         else if encodeByte AND NEXT_128_CHUNK \<noteq> 0 then remainLen_loop bs multiplier totalLen
         else Some (0, totalLen))"

definition prepareheaderDataInfo :: "ptr \<Rightarrow> u8 \<Rightarrow> 'z cmem_scheme \<Rightarrow> (int \<times> 'z cmem_scheme) option" where
  "prepareheaderDataInfo codecData remainLen m =
     (case codecData of
        None \<Rightarrow> Some (FAILURE, m)
      | Some c \<Rightarrow> do {
          i \<leftarrow> codecs m c;
          if remainLenIndex i \<ge> length (storeRemainLen i) then None
          else do {
            m \<leftarrow> upd_codec c (\<lambda>i. i\<lparr>storeRemainLen := (storeRemainLen i)[remainLenIndex i := remainLen],
                                     remainLenIndex := remainLenIndex i + 1\<rparr>) m;
            if remainLen \<le> 0x7f then do {
              i \<leftarrow> codecs m c;
              (result, totalLen) \<leftarrow> remainLen_loop (storeRemainLen i) 1 0;
              m \<leftarrow> upd_codec c (\<lambda>i. i\<lparr>codecState := CODEC_STATE_VAR_HEADER, remainLenIndex := 0,
                                       storeRemainLen := replicate 4 0\<rparr>) m;
              if totalLen > 0 then do {
                m \<leftarrow> upd_codec c (\<lambda>i. i\<lparr>bufferOffset := 0\<rparr>) m;
                (h, m) \<leftarrow> BUFFER_new m;
                m \<leftarrow> upd_codec c (\<lambda>i. i\<lparr>headerData := h\<rparr>) m;
                if h = None then Some (FAILURE, m)
                else do {
                  (r, m) \<leftarrow> BUFFER_pre_build h (word_of_int totalLen) m;
                  Some (if r \<noteq> 0 then FAILURE else result, m) } }
              else Some (result, m) }
            else Some (0, m) } })"

section \<open>Delivery\<close>

definition completePacketData :: "'z on_packet \<Rightarrow> ptr \<Rightarrow> 'z cmem_scheme \<Rightarrow> 'z cmem_scheme option" where
  "completePacketData call codecData m =
     (case codecData of
        None \<Rightarrow> Some m
      | Some c \<Rightarrow> do {
          i \<leftarrow> codecs m c;
          m \<leftarrow> (case packetComplete i of
                 None \<Rightarrow> Some m
               | Some f \<Rightarrow> call f (callContext i) (currPacket i) (headerFlags i) (headerData i) m);
          m \<leftarrow> upd_codec c (\<lambda>i. i\<lparr>currPacket := UNKNOWN_TYPE, codecState := CODEC_STATE_FIXED_HEADER,
                                   headerFlags := 0\<rparr>) m;
          i \<leftarrow> codecs m c;
          m \<leftarrow> BUFFER_delete (headerData i) m;
          upd_codec c (\<lambda>i. i\<lparr>headerData := None\<rparr>) m })"

section \<open>Operations\<close>

definition mqtt_codec_create ::
  "nat option \<Rightarrow> ptr \<Rightarrow> 'z cmem_scheme \<Rightarrow> (ptr \<times> 'z cmem_scheme) option" where
  "mqtt_codec_create complete callbackCtx m = do {
     (result, m) \<leftarrow> malloc_struct sizeof_MQTTCODEC_INSTANCE m;
     case result of
       None \<Rightarrow> Some (None, m)
     | Some c \<Rightarrow> Some (Some c, m\<lparr>codecs := (codecs m)(c \<mapsto>
         \<lparr>currPacket = UNKNOWN_TYPE, codecState = CODEC_STATE_FIXED_HEADER, bufferOffset = 0,
          headerFlags = 0, headerData = None, packetComplete = complete, callContext = callbackCtx,
          storeRemainLen = replicate 4 0, remainLenIndex = 0\<rparr>)\<rparr>) }"

definition mqtt_codec_destroy :: "ptr \<Rightarrow> 'z cmem_scheme \<Rightarrow> 'z cmem_scheme option" where
  "mqtt_codec_destroy handle m =
     (case handle of
        None \<Rightarrow> Some m
      | Some c \<Rightarrow> do {
          i \<leftarrow> codecs m c;
          m \<leftarrow> BUFFER_delete (headerData i) m;
          Some (m\<lparr>codecs := (codecs m)(c := None)\<rparr>) })"

text \<open>The body of the loop of \<open>mqtt_codec_bytesReceived\<close>, for the byte \<open>iterator\<close>.\<close>

definition codec_byte :: "'z on_packet \<Rightarrow> addr \<Rightarrow> u8 \<Rightarrow> 'z cmem_scheme \<Rightarrow> (int \<times> 'z cmem_scheme) option" where
  "codec_byte call c iterator m = do {
     i \<leftarrow> codecs m c;
     if codecState i = CODEC_STATE_FIXED_HEADER then
       (if currPacket i = UNKNOWN_TYPE then do {
          let (type, flags) = processControlPacketType iterator;
          m \<leftarrow> upd_codec c (\<lambda>i. i\<lparr>headerFlags := flags, currPacket := type\<rparr>) m;
          Some (0, m) }
        else do {
          (r, m) \<leftarrow> prepareheaderDataInfo (Some c) iterator m;
          (result, m) \<leftarrow>
            (if r \<noteq> 0 then do {
               m \<leftarrow> upd_codec c (\<lambda>i. i\<lparr>currPacket := PACKET_TYPE_ERROR\<rparr>) m;
               Some (FAILURE, m) }
             else Some (0, m));
          i \<leftarrow> codecs m c;
          m \<leftarrow> (if currPacket i = PINGRESP_TYPE then completePacketData call (Some c) m else Some m);
          Some (result, m) })
     else if codecState i = CODEC_STATE_VAR_HEADER then
       (if headerData i = None then do {
          m \<leftarrow> upd_codec c (\<lambda>i. i\<lparr>codecState := CODEC_STATE_PAYLOAD\<rparr>) m;
          Some (0, m) }
        else do {
          dataBytes \<leftarrow> BUFFER_u_char (headerData i) m;
          case dataBytes of
            None \<Rightarrow> do {
              m \<leftarrow> upd_codec c (\<lambda>i. i\<lparr>currPacket := PACKET_TYPE_ERROR\<rparr>) m;
              Some (FAILURE, m) }
          | Some a \<Rightarrow> do {
              m \<leftarrow> upd_codec c (\<lambda>i. i\<lparr>bufferOffset := bufferOffset i + 1\<rparr>) m;
              m \<leftarrow> write_bytes (a, unat (bufferOffset i)) [Some iterator] m;
              totalLen \<leftarrow> BUFFER_length (headerData i) m;
              i \<leftarrow> codecs m c;
              m \<leftarrow> (if bufferOffset i \<ge> totalLen then completePacketData call (Some c) m else Some m);
              Some (0, m) } })
     else do {
       m \<leftarrow> upd_codec c (\<lambda>i. i\<lparr>currPacket := PACKET_TYPE_ERROR\<rparr>) m;
       Some (FAILURE, m) } }"

fun bytesReceived_loop ::
  "'z on_packet \<Rightarrow> addr \<Rightarrow> bptr \<Rightarrow> nat \<Rightarrow> 'z cmem_scheme \<Rightarrow> (int \<times> 'z cmem_scheme) option" where
  "bytesReceived_loop call c q 0 m = Some (0, m)"
| "bytesReceived_loop call c q (Suc n) m = do {
     iterator \<leftarrow> read_byte q m;
     (result, m) \<leftarrow> codec_byte call c iterator m;
     if result = 0 then bytesReceived_loop call c (fst q, snd q + 1) n m else Some (result, m) }"

definition mqtt_codec_bytesReceived ::
  "'z on_packet \<Rightarrow> ptr \<Rightarrow> bptr option \<Rightarrow> u32 \<Rightarrow> 'z cmem_scheme \<Rightarrow> (int \<times> 'z cmem_scheme) option" where
  "mqtt_codec_bytesReceived call handle bytes len m =
     (case handle of
        None \<Rightarrow> Some (FAILURE, m)
      | Some c \<Rightarrow>
          (case bytes of
             None \<Rightarrow> do {
               m \<leftarrow> upd_codec c (\<lambda>i. i\<lparr>currPacket := PACKET_TYPE_ERROR\<rparr>) m;
               Some (FAILURE, m) }
           | Some q \<Rightarrow>
               if len = 0 then do {
                 m \<leftarrow> upd_codec c (\<lambda>i. i\<lparr>currPacket := PACKET_TYPE_ERROR\<rparr>) m;
                 Some (FAILURE, m) }
               else bytesReceived_loop call c q (unat len) m))"

end
