(* ===== verification/Decoder.thy ===== *)
theory Decoder
  imports Codec_Decode Codec_Build
begin

text \<open>
  What the decoder promises, as a machine on bytes: its state without the heap, one step for
  each byte received, and the packets it delivers.  The theorems say that it delivers each
  packet that the builders produce exactly once, with its last byte, however the bytes are
  cut, and where it fails.
\<close>

section \<open>The machine\<close>

text \<open>\<open>d_stored\<close> are the length bytes so far, \<open>d_data\<close> is the packet being filled.\<close>

record decoder =
  d_packet :: CONTROL_PACKET_TYPE
  d_state :: CODEC_STATE_RESULT
  d_flags :: int
  d_stored :: "u8 list"
  d_data :: "(mbyte list \<times> nat) option"

datatype delivery = Delivery CONTROL_PACKET_TYPE int "mbyte list option"

definition idle :: decoder where
  "idle = \<lparr>d_packet = UNKNOWN_TYPE, d_state = CODEC_STATE_FIXED_HEADER, d_flags = 0, d_stored = [], d_data = None\<rparr>"

fun varint :: "u8 list \<Rightarrow> nat" where
  "varint [] = 0"
| "varint (b # bs) = unat b mod 128 + 128 * varint bs"

text \<open>
  A byte of the remaining length; the flag says whether it is accepted.  A fifth byte has no
  place (\<open>None\<close>), and a length of four bytes is refused.
\<close>

definition decoder_length :: "decoder \<Rightarrow> u8 \<Rightarrow> (decoder \<times> bool) option" where
  "decoder_length d b =
     (let s = d_stored d @ [b] in
      if length s > 4 then None
      else if b \<le> 0x7f then
        Some (d\<lparr>d_state := CODEC_STATE_VAR_HEADER, d_stored := [],
                d_data := (if varint s > 0 then Some (replicate (varint s) None, 0) else d_data d)\<rparr>,
              length s < 4)
      else Some (d\<lparr>d_stored := s\<rparr>, True))"

definition deliver :: "decoder \<Rightarrow> decoder \<times> delivery list" where
  "deliver d =
     (d\<lparr>d_packet := UNKNOWN_TYPE, d_state := CODEC_STATE_FIXED_HEADER, d_flags := 0, d_data := None\<rparr>,
      [Delivery (d_packet d) (d_flags d) (map_option fst (d_data d))])"

definition decoder_byte :: "decoder \<Rightarrow> u8 \<Rightarrow> (decoder \<times> delivery list \<times> bool) option" where
  "decoder_byte d b =
     (case d_state d of
        CODEC_STATE_FIXED_HEADER \<Rightarrow>
          (if d_packet d = UNKNOWN_TYPE
           then Some (d\<lparr>d_packet := PACKET_TYPE_BYTE b, d_flags := uint (FLAG_VALUE_BYTE b)\<rparr>, [], True)
           else do {
             (d, good) \<leftarrow> decoder_length d b;
             let d = (if good then d else d\<lparr>d_packet := PACKET_TYPE_ERROR\<rparr>);
             let (d, es) = (if d_packet d = PINGRESP_TYPE then deliver d else (d, []));
             Some (d, es, good) })
      | CODEC_STATE_VAR_HEADER \<Rightarrow>
          (case d_data d of
             None \<Rightarrow> Some (d\<lparr>d_state := CODEC_STATE_PAYLOAD\<rparr>, [], True)
           | Some (xs, k) \<Rightarrow>
               if xs = [] then Some (d\<lparr>d_packet := PACKET_TYPE_ERROR\<rparr>, [], False)
               else (let d = d\<lparr>d_data := Some (xs[k := Some b], k + 1)\<rparr>;
                         (d, es) = (if k + 1 \<ge> length xs then deliver d else (d, []))
                     in Some (d, es, True)))
      | CODEC_STATE_PAYLOAD \<Rightarrow> Some (d\<lparr>d_packet := PACKET_TYPE_ERROR\<rparr>, [], False))"

fun decoder_run :: "decoder \<Rightarrow> u8 list \<Rightarrow> (decoder \<times> delivery list \<times> bool) option" where
  "decoder_run d [] = Some (d, [], True)"
| "decoder_run d (b # bs) = do {
     (d, es, good) \<leftarrow> decoder_byte d b;
     if good then do { (d, es', good) \<leftarrow> decoder_run d bs; Some (d, es @ es', good) }
     else Some (d, es, False) }"

section \<open>Chunks\<close>

lemma decoder_run_append:
  "decoder_run d (xs @ ys) = do {
     (d, es, good) \<leftarrow> decoder_run d xs;
     if good then do { (d, es', good) \<leftarrow> decoder_run d ys; Some (d, es @ es', good) }
     else Some (d, es, False) }"
proof (induction xs arbitrary: d)
  case Nil
  show ?case by (simp add: split_def)
next
  case (Cons x xs)
  show ?case
    by (auto simp: Cons.IH split: Option.bind_splits prod.splits if_splits)
qed

section \<open>The remaining length\<close>

lemma varint_append: "varint (xs @ ys) = varint xs + 128 ^ length xs * varint ys"
  by (induction xs) (simp_all add: algebra_simps)

text \<open>A length byte without and with the continuation bit.\<close>

definition more_byte :: "nat \<Rightarrow> u8" where
  "more_byte n = of_nat (n mod 128 + 128)"

lemma remaining_length_rec:
  "n < 128 \<Longrightarrow> remaining_length n = [of_nat n]"
  "\<not> n < 128 \<Longrightarrow> remaining_length n = more_byte n # remaining_length (n div 128)"
  by (subst remaining_length.simps, simp add: more_byte_def)+

lemma unat_more_byte [simp]: "unat (more_byte n) = n mod 128 + 128"
  unfolding more_byte_def by (subst unat_of_nat) simp

lemma more_byte_le: "\<not> more_byte n \<le> 0x7f"
  by (simp add: word_le_nat_alt)

lemma last_byte: "n < 128 \<Longrightarrow> (of_nat n :: u8) \<le> 0x7f" "n < 128 \<Longrightarrow> unat (of_nat n :: u8) = n"
  by (simp_all add: word_le_nat_alt unat_of_nat)

lemma varint_remaining_length [simp]: "varint (remaining_length n) = n"
proof (induction n rule: remaining_length.induct)
  case (1 n)
  then show ?case
    by (cases "n < 128") (simp_all add: remaining_length_rec last_byte)
qed

lemma split_128: "(c :: nat) * n = c * (n mod 128) + 128 * (c * (n div 128))"
  using arg_cong [OF mod_mult_div_eq [of n 128], of "(*) c"] by (simp only: distrib_left mult.left_commute)

text \<open>The decoder on the bytes of a length, with \<open>s\<close> read before.\<close>

definition reading :: "CONTROL_PACKET_TYPE \<Rightarrow> int \<Rightarrow> u8 list \<Rightarrow> decoder" where
  "reading type flags s =
     \<lparr>d_packet = type, d_state = CODEC_STATE_FIXED_HEADER, d_flags = flags, d_stored = s, d_data = None\<rparr>"

definition waiting :: "CONTROL_PACKET_TYPE \<Rightarrow> int \<Rightarrow> mbyte list \<Rightarrow> nat \<Rightarrow> decoder" where
  "waiting type flags xs k =
     \<lparr>d_packet = type, d_state = CODEC_STATE_VAR_HEADER, d_flags = flags, d_stored = [], d_data = Some (xs, k)\<rparr>"

lemma run_length:
  assumes "type \<noteq> UNKNOWN_TYPE" "type \<noteq> PINGRESP_TYPE" "PACKET_TYPE_ERROR \<noteq> PINGRESP_TYPE"
    and "length s + length (remaining_length n) \<le> 4" "varint s + 128 ^ length s * n > 0"
  shows "decoder_run (reading type flags s) (remaining_length n) =
    (let xs = replicate (varint s + 128 ^ length s * n) None; good = length s + length (remaining_length n) \<le> 3 in
     Some (waiting (if good then type else PACKET_TYPE_ERROR) flags xs 0, [], good))"
  using assms(4,5)
proof (induction n arbitrary: s rule: remaining_length.induct)
  case (1 n)
  show ?case
  proof (cases "n < 128")
    case True
    then show ?thesis
      using 1 assms
      by (auto simp: decoder_byte_def decoder_length_def reading_def waiting_def Let_def last_byte
          remaining_length_rec varint_append)
  next
    case False
    let ?b = "more_byte n"
    note rl = remaining_length_rec(2) [OF False]
    have v: "varint (s @ [?b]) + 128 ^ length (s @ [?b]) * (n div 128) = varint s + 128 ^ length s * n"
      by (simp add: varint_append split_128 [of "128 ^ length s" n])
    have b: "decoder_byte (reading type flags s) ?b = Some (reading type flags (s @ [?b]), [], True)"
      using assms 1 rl by (simp add: decoder_byte_def decoder_length_def reading_def more_byte_le)
    have "n div 128 > 0" using False by (simp add: div_greater_zero_iff)
    then show ?thesis
      using 1(1) [OF False, of "s @ [?b]"] 1(2,3) v unfolding rl by (simp add: b Let_def)
  qed
qed

section \<open>The body\<close>

lemma run_body:
  "k + length bs < length xs \<Longrightarrow>
   decoder_run (waiting type flags xs k) bs =
     Some (waiting type flags (take k xs @ map Some bs @ drop (k + length bs) xs) (k + length bs), [], True)"
proof (induction bs arbitrary: k xs)
  case Nil
  then show ?case by simp
next
  case (Cons b bs)
  have "decoder_byte (waiting type flags xs k) b = Some (waiting type flags (xs[k := Some b]) (k + 1), [], True)"
    using Cons.prems by (auto simp: decoder_byte_def waiting_def)
  then show ?case
    using Cons by (simp add: take_Suc_conv_app_nth)
qed

lemma run_last:
  assumes "length xs = Suc k"
  shows "decoder_byte (waiting type flags xs k) b =
     Some (idle, [Delivery type flags (Some (take k xs @ [Some b]))], True)"
  using assms
  by (auto simp: decoder_byte_def waiting_def deliver_def idle_def Let_def list_update_append1 nth_append
      upd_conv_take_nth_drop)

lemma run_whole:
  assumes "bs \<noteq> []"
  shows "decoder_run (waiting type flags (replicate (length bs) None) 0) bs =
     Some (idle, [Delivery type flags (Some (map Some bs))], True)"
proof -
  obtain cs b where bs: "bs = cs @ [b]" using assms by (cases bs rule: rev_cases) auto
  show ?thesis
    using run_body [of 0 cs "replicate (length bs) None" type flags]
    by (simp add: bs decoder_run_append run_last)
qed

section \<open>Packets\<close>

text \<open>The packet types a first byte can carry, and the flags.\<close>

definition type_ok :: "CONTROL_PACKET_TYPE \<Rightarrow> bool" where
  "type_ok type \<longleftrightarrow> type AND 0x0f = 0 \<and> type \<noteq> PINGRESP_TYPE"

definition flags_ok :: "u8 \<Rightarrow> bool" where
  "flags_ok flags \<longleftrightarrow> flags AND 0xf0 = 0"

lemma type_flag_nibbles:
  fixes t f :: u8
  assumes "t AND 0x0f = 0" "f AND 0xf0 = 0"
  shows "PACKET_TYPE_BYTE (t OR f) = t" "FLAG_VALUE_BYTE (t OR f) = f"
proof -
  have all: "x = (x AND 0xf0) OR (x AND 0x0f)" for x :: u8
  proof -
    have ff: "(255 :: u8) = - 1" by simp
    have "x AND 255 = x" by (simp only: ff and.right_neutral)
    then show ?thesis by (simp flip: bit.conj_disj_distrib)
  qed
  have t: "t AND 0xf0 = t" using all [of t] assms(1) by simp
  have f: "f AND 0x0f = f" using all [of f] assms(2) by simp
  show "PACKET_TYPE_BYTE (t OR f) = t" "FLAG_VALUE_BYTE (t OR f) = f"
    unfolding PACKET_TYPE_BYTE_def FLAG_VALUE_BYTE_def bit.conj_disj_distrib2
    using t f assms by simp_all
qed

lemma type_not_unknown: "type AND 0x0f = 0 \<Longrightarrow> type \<noteq> UNKNOWN_TYPE"
  by (auto simp: UNKNOWN_TYPE_def)

lemma error_not_pingresp: "PACKET_TYPE_ERROR \<noteq> PINGRESP_TYPE"
  by (simp add: c_consts)

lemma run_type:
  assumes "type AND 0x0f = 0" "flags_ok flags"
  shows "decoder_byte idle (type OR flags) = Some (reading type (uint flags) [], [], True)"
  using assms by (simp add: decoder_byte_def idle_def reading_def type_flag_nibbles flags_ok_def)

lemma run_header:
  assumes "type_ok type" "flags_ok flags" "0 < n" "n < 2 ^ 28"
  shows "decoder_run idle (fixed_header type flags n) =
    (let good = n < 2 ^ 21 in
     Some (waiting (if good then type else PACKET_TYPE_ERROR) (uint flags) (replicate n None) 0, [], good))"
proof -
  have l: "length (remaining_length n) \<le> 4" "length (remaining_length n) \<le> 3 \<longleftrightarrow> n < 2 ^ 21"
    using assms(4) length_remaining_length [of n 3] length_remaining_length [of n 2] by simp_all
  have t: "type \<noteq> UNKNOWN_TYPE" "type \<noteq> PINGRESP_TYPE"
    using assms(1) type_not_unknown by (auto simp: type_ok_def)
  show ?thesis
    using run_length [OF t error_not_pingresp, of "[]" n "uint flags"] l assms(3) run_type [of type flags] assms(1,2)
    by (simp add: fixed_header_def type_ok_def Let_def)
qed

lemma run_packet:
  assumes "type_ok type" "flags_ok flags" "body \<noteq> []" "length body < 2 ^ 21"
  shows "decoder_run idle (packet type flags body) =
    Some (idle, [Delivery type (uint flags) (Some (map Some body))], True)"
  using run_header [OF assms(1,2), of "length body"] run_whole [OF assms(3), of type "uint flags"] assms(3,4)
  by (simp add: packet_def decoder_run_append)

lemma run_partial:
  assumes "type_ok type" "flags_ok flags" "length body < 2 ^ 21" "k < length body"
  shows "decoder_run idle (fixed_header type flags (length body) @ take k body) =
    Some (waiting type (uint flags) (map Some (take k body) @ replicate (length body - k) None) k, [], True)"
proof -
  have "body \<noteq> []" using assms(4) by auto
  then show ?thesis
    using run_header [OF assms(1,2), of "length body"] assms(3,4)
      run_body [of 0 "take k body" "replicate (length body) None" type "uint flags"]
    by (simp add: decoder_run_append)
qed

lemma run_too_long:
  assumes "type_ok type" "flags_ok flags" "2 ^ 21 \<le> length body" "length body < 2 ^ 28"
  shows "decoder_run idle (packet type flags body) =
    Some (waiting PACKET_TYPE_ERROR (uint flags) (replicate (length body) None) 0, [], False)"
proof -
  have "0 < length body" using assms(3) by (rule order.strict_trans2 [rotated]) simp
  then show ?thesis
    using run_header [OF assms(1,2), of "length body"] assms(3,4)
    by (simp add: packet_def decoder_run_append)
qed

text \<open>A stream of packets.\<close>

definition stream :: "(CONTROL_PACKET_TYPE \<times> u8 \<times> u8 list) list \<Rightarrow> u8 list" where
  "stream ps = concat (map (\<lambda>(type, flags, body). packet type flags body) ps)"

definition packet_ok :: "CONTROL_PACKET_TYPE \<times> u8 \<times> u8 list \<Rightarrow> bool" where
  "packet_ok = (\<lambda>(type, flags, body). type_ok type \<and> flags_ok flags \<and> body \<noteq> [] \<and> length body < 2 ^ 21)"

definition delivery_of :: "CONTROL_PACKET_TYPE \<times> u8 \<times> u8 list \<Rightarrow> delivery" where
  "delivery_of = (\<lambda>(type, flags, body). Delivery type (uint flags) (Some (map Some body)))"

lemma run_stream:
  "\<forall>p \<in> set ps. packet_ok p \<Longrightarrow> decoder_run idle (stream ps) = Some (idle, map delivery_of ps, True)"
proof (induction ps)
  case (Cons p ps)
  then show ?case
    using run_packet by (auto simp: stream_def packet_ok_def delivery_of_def decoder_run_append split: prod.splits)
qed (simp add: stream_def)

end
