(* ===== verification/Codec_Receive.thy ===== *)
theory Codec_Receive
  imports Decoder
begin

text \<open>
  \<^verbatim>\<open>mqtt_codec_bytesReceived\<close> implements the machine of \<^verbatim>\<open>Decoder\<close>: the instance and its
  buffer represent a state of the machine (\<open>codec_at\<close>), each byte is a step of it, and the
  callback gets its deliveries.  When an allocation fails the decoder stops with an error.
\<close>

section \<open>Invariant of the machine\<close>

definition decoder_inv :: "decoder \<Rightarrow> bool" where
  "decoder_inv d \<longleftrightarrow>
     (d_state d = CODEC_STATE_FIXED_HEADER \<longrightarrow> d_data d = None) \<and>
     (\<forall>xs k. d_data d = Some (xs, k) \<longrightarrow> xs \<noteq> [] \<longrightarrow> k < length xs) \<and>
     (\<forall>b \<in> set (d_stored d). \<not> b \<le> 0x7f) \<and> length (d_stored d) \<le> 4"

lemma idle_inv [simp]: "decoder_inv idle"
  by (simp add: decoder_inv_def idle_def)

lemma decoder_length_inv:
  "decoder_inv d \<Longrightarrow> d_state d = CODEC_STATE_FIXED_HEADER \<Longrightarrow> decoder_length d b = Some (d', good) \<Longrightarrow>
   decoder_inv d' \<and> d_packet d' = d_packet d \<and> d_flags d' = d_flags d"
  by (auto simp: decoder_inv_def decoder_length_def Let_def split: if_splits)

lemma decoder_byte_inv:
  assumes "decoder_inv d" "decoder_byte d b = Some (d', es, good)"
  shows "decoder_inv d'"
proof (cases "d_state d")
  case CODEC_STATE_FIXED_HEADER
  show ?thesis
  proof (cases "d_packet d = UNKNOWN_TYPE")
    case True
    then show ?thesis
      using assms CODEC_STATE_FIXED_HEADER by (auto simp: decoder_byte_def decoder_inv_def)
  next
    case False
    then obtain d1 g where 1: "decoder_length d b = Some (d1, g)"
      using assms CODEC_STATE_FIXED_HEADER by (auto simp: decoder_byte_def split: Option.bind_splits)
    then have "decoder_inv d1" using decoder_length_inv [OF assms(1)] CODEC_STATE_FIXED_HEADER by simp
    then show ?thesis
      using assms(2) 1 False CODEC_STATE_FIXED_HEADER
      by (auto simp: decoder_byte_def decoder_inv_def deliver_def Let_def split: if_splits)
  qed
qed (use assms in \<open>auto simp: decoder_byte_def decoder_inv_def deliver_def Let_def split: option.splits if_splits\<close>)

section \<open>The length loop\<close>

lemma length_bits:
  "uint (b AND 127) = int (unat b mod 128)" "b AND NEXT_128_CHUNK = 0 \<longleftrightarrow> b \<le> 0x7f" for b :: u8
proof -
  have m: "mask 7 = (127 :: u8)" by (simp add: mask_eq_exp_minus_1)
  have "b AND 127 = take_bit 7 b" unfolding take_bit_eq_mask m ..
  then have "uint (b AND 127) = take_bit 7 (uint b)" by (simp only: unsigned_take_bit_eq)
  then show "uint (b AND 127) = int (unat b mod 128)" by (simp add: take_bit_eq_mod zmod_int)
  have "b AND NEXT_128_CHUNK = 0 \<longleftrightarrow> \<not> bit b 7"
    using and_exp_eq_0_iff_not_bit [of b 7] by (simp add: NEXT_128_CHUNK_def)
  also have "\<dots> \<longleftrightarrow> even (unat b div 128)"
  proof -
    have "bit (unat b) 7 \<longleftrightarrow> bit b 7" by (simp add: bit_unsigned_iff)
    then show ?thesis using bit_iff_odd [of "unat b" 7] by auto
  qed
  also have "\<dots> \<longleftrightarrow> b \<le> 0x7f"
  proof -
    have "unat b < 256" by (rule unsigned_less [of b, simplified])
    moreover have "even (n div 128) \<longleftrightarrow> n \<le> 127" if "n < 256" for n :: nat
    proof (cases "n < 128")
      case False
      then have "n = 128 + (n - 128)" "(n - 128) div 128 = 0" using that by simp_all
      then show ?thesis using False div_add_self1 [of 128 "n - 128"] by simp
    qed simp
    ultimately show ?thesis by (simp add: word_le_nat_alt)
  qed
  finally show "b AND NEXT_128_CHUNK = 0 \<longleftrightarrow> b \<le> 0x7f" .
qed

lemma chunk_128: "uint NEXT_128_CHUNK = 128"
  by (simp add: NEXT_128_CHUNK_def)

lemma remainLen_loop_eq:
  assumes "\<forall>x \<in> set s. \<not> x \<le> 0x7f" "b \<le> 0x7f" "k + length s \<le> 3"
  shows "remainLen_loop (s @ b # rest) (128 ^ k) t =
    Some (if k + length s = 3 then FAILURE else 0, t + 128 ^ k * int (varint (s @ [b])))"
  using assms
proof (induction s arbitrary: k t)
  case Nil
  have "128 ^ k * 128 > (128 * 128 * 128 :: int) \<longleftrightarrow> k \<ge> 3"
    using power_strict_increasing_iff [of "128 :: int" 3 "Suc k"] by auto
  then show ?case using Nil by (auto simp: length_bits chunk_128 Let_def)
next
  case (Cons x s)
  have "128 ^ k * 128 > (128 * 128 * 128 :: int) \<longleftrightarrow> k \<ge> 3"
    using power_strict_increasing_iff [of "128 :: int" 3 "Suc k"] by auto
  then show ?case
    using Cons.prems Cons.IH [of "Suc k" "t + 128 ^ k * int (unat x mod 128)"]
    by (simp add: length_bits chunk_128 Let_def algebra_simps)
qed

section \<open>The heap of a decoder\<close>

lemma codecs_update_bytes [simp]: "buf_bytes (m\<lparr>codecs := x\<rparr>) = buf_bytes m"
  by (rule ext, rule buf_bytes_cong) simp_all

lemma codecs_update [simp]:
  "heap_inv (m\<lparr>codecs := x\<rparr>) = heap_inv m"
  "foreign (m\<lparr>codecs := x\<rparr>) = foreign m" "alloc_total (m\<lparr>codecs := x\<rparr>) = alloc_total m"
  "str_vals (m\<lparr>codecs := x\<rparr>) = str_vals m" "buf_at (m\<lparr>codecs := x\<rparr>) = buf_at m"
  "str_rest (m\<lparr>codecs := x\<rparr>) = str_rest m"
  by (simp_all add: heap_inv_def buf_inv_def str_inv_def wf_mem_def foreign_def owned_def alloc_total_def
      str_vals_def buf_at_def str_rest_def fun_eq_iff) blast

lemma smem_more_codecs:
  fixes m m' :: "'z cmem_scheme"
  shows "smem.more m' = smem.more m \<Longrightarrow> codecs m' = codecs m \<and> cmem.more m' = cmem.more m"
  by (cases m, cases m') simp

lemma heap_frame_codecs:
  fixes m m' :: "'z cmem_scheme"
  shows "heap_frame m m' \<Longrightarrow> codecs m' = codecs m \<and> cmem.more m' = cmem.more m"
  by (rule smem_more_codecs) (simp add: heap_frame_def)

text \<open>Buffers other than that of the decoder \<open>c\<close>.\<close>

definition other_bufs :: "addr \<Rightarrow> 'z cmem_scheme \<Rightarrow> addr \<rightharpoonup> mbyte list" where
  "other_bufs c m = (case codecs m c of
     Some i \<Rightarrow> (case headerData i of Some h \<Rightarrow> (buf_bytes m)(h := None) | None \<Rightarrow> buf_bytes m)
   | None \<Rightarrow> buf_bytes m)"

text \<open>What receiving bytes leaves alone.\<close>

definition receiving :: "addr \<Rightarrow> 'z cmem_scheme \<Rightarrow> 'z cmem_scheme \<Rightarrow> bool" where
  "receiving c m m' \<longleftrightarrow> heap_inv m' \<and> grants m' = grants m \<and> brk m \<le> brk m' \<and> foreign m' = foreign m \<and>
     str_rest m' = str_rest m \<and> (\<forall>x. x \<noteq> c \<longrightarrow> codecs m' x = codecs m x) \<and> other_bufs c m' = other_bufs c m"

lemma receiving_refl: "heap_inv m \<Longrightarrow> receiving c m m"
  by (simp add: receiving_def)

lemma receiving_trans: "receiving c m1 m2 \<Longrightarrow> receiving c m2 m3 \<Longrightarrow> receiving c m1 m3"
  by (auto simp: receiving_def)

text \<open>The instance \<open>c\<close> represents the state \<open>d\<close>.\<close>

definition represents :: "'z cmem_scheme \<Rightarrow> MQTTCODEC_INSTANCE \<Rightarrow> decoder \<Rightarrow> bool" where
  "represents m i d \<longleftrightarrow>
     length (storeRemainLen i) = 4 \<and> remainLenIndex i \<le> 4 \<and>
     d_packet d = currPacket i \<and> d_state d = codecState i \<and> d_flags d = headerFlags i \<and>
     d_stored d = take (remainLenIndex i) (storeRemainLen i) \<and>
     (case headerData i of
        None \<Rightarrow> d_data d = None
      | Some h \<Rightarrow> (\<exists>xs. buf_bytes m h = Some xs \<and> d_data d = Some (xs, unat (bufferOffset i))))"

definition codec_at :: "'z cmem_scheme \<Rightarrow> addr \<Rightarrow> nat option \<Rightarrow> ptr \<Rightarrow> decoder \<Rightarrow> bool" where
  "codec_at m c f ctx d \<longleftrightarrow> decoder_inv d \<and>
     (\<exists>i. codecs m c = Some i \<and> packetComplete i = f \<and> callContext i = ctx \<and> represents m i d)"

section \<open>The callback\<close>

text \<open>
  The callback may use the heap, but leaves the decoders and the live buffers as they are,
  and what it observed, as a function \<open>seen\<close> of the rest of the state, grows by the call.
\<close>

type_synonym call = "nat \<times> ptr \<times> delivery"

definition sink :: "'z on_packet \<Rightarrow> ('z \<Rightarrow> call list) \<Rightarrow> bool" where
  "sink call seen \<longleftrightarrow> (\<forall>f ctx type flags h m. heap_inv m \<longrightarrow>
     ok (call f ctx type flags h m) (\<lambda>m'. heap_inv m' \<and> grants m' = grants m \<and> brk m \<le> brk m' \<and>
       foreign m' = foreign m \<and> str_rest m' = str_rest m \<and> codecs m' = codecs m \<and> buf_bytes m' = buf_bytes m \<and>
       seen (cmem.more m') = seen (cmem.more m) @
         [(f, ctx, Delivery type flags (case h of None \<Rightarrow> None | Some x \<Rightarrow> buf_bytes m x))]))"

definition calls :: "nat option \<Rightarrow> ptr \<Rightarrow> delivery list \<Rightarrow> call list" where
  "calls f ctx es = (case f of None \<Rightarrow> [] | Some g \<Rightarrow> map (\<lambda>e. (g, ctx, e)) es)"

lemma calls_simps [simp]: "calls f ctx [] = []" "calls f ctx (es @ es') = calls f ctx es @ calls f ctx es'"
  by (simp_all add: calls_def split: option.splits)

text \<open>A step of the decoder, or a failure for want of memory.\<close>

definition received ::
  "('z \<Rightarrow> call list) \<Rightarrow> addr \<Rightarrow> nat option \<Rightarrow> ptr \<Rightarrow> decoder \<Rightarrow> delivery list \<Rightarrow> bool \<Rightarrow>
   'z cmem_scheme \<Rightarrow> int \<times> 'z cmem_scheme \<Rightarrow> bool"
where
  "received seen c f ctx d es good m = (\<lambda>(r, m'). receiving c m m' \<and>
     (codec_at m' c f ctx d \<and> (r = 0 \<longleftrightarrow> good) \<and> seen (cmem.more m') = seen (cmem.more m) @ calls f ctx es \<or>
      \<not> alloc_total m \<and> r \<noteq> 0 \<and> (\<exists>d'. codec_at m' c f ctx d') \<and>
        (\<exists>es' es''. es = es' @ es'' \<and> seen (cmem.more m') = seen (cmem.more m) @ calls f ctx es')))"

text \<open>The callback as a relation: \<open>T\<close> between the rests of the state, allowed where \<open>P\<close> holds.\<close>

fun call_run :: "(call \<Rightarrow> 'z \<Rightarrow> 'z \<Rightarrow> bool) \<Rightarrow> call list \<Rightarrow> 'z \<Rightarrow> 'z \<Rightarrow> bool" where
  "call_run T [] w w' \<longleftrightarrow> w' = w"
| "call_run T (e # es) w w' \<longleftrightarrow> (\<exists>v. T e w v \<and> call_run T es v w')"

fun call_safe :: "(call \<Rightarrow> 'z \<Rightarrow> bool) \<Rightarrow> (call \<Rightarrow> 'z \<Rightarrow> 'z \<Rightarrow> bool) \<Rightarrow> call list \<Rightarrow> 'z \<Rightarrow> bool" where
  "call_safe P T [] w \<longleftrightarrow> True"
| "call_safe P T (e # es) w \<longleftrightarrow> P e w \<and> (\<forall>v. T e w v \<longrightarrow> call_safe P T es v)"

lemma call_run_append: "call_run T (es @ es') w w' \<longleftrightarrow> (\<exists>v. call_run T es w v \<and> call_run T es' v w')"
  by (induction es arbitrary: w) auto

lemma call_safe_append: "call_safe P T (es @ es') w \<longleftrightarrow> call_safe P T es w \<and> (\<forall>v. call_run T es w v \<longrightarrow> call_safe P T es' v)"
  by (induction es arbitrary: w) auto

text \<open>The step without a delivery: the rest of the state does not change.\<close>

definition prepared ::
  "addr \<Rightarrow> nat option \<Rightarrow> ptr \<Rightarrow> decoder \<Rightarrow> bool \<Rightarrow> 'z cmem_scheme \<Rightarrow> int \<times> 'z cmem_scheme \<Rightarrow> bool"
where
  "prepared c f ctx d good m = (\<lambda>(r, m'). receiving c m m' \<and> cmem.more m' = cmem.more m \<and>
     (codec_at m' c f ctx d \<and> (r = 0 \<longleftrightarrow> good) \<or> \<not> alloc_total m \<and> r \<noteq> 0 \<and> (\<exists>d'. codec_at m' c f ctx d')))"

section \<open>The remaining length\<close>

lemma upd_codec_Some [simp]: "codecs m c = Some i \<Longrightarrow> upd_codec c f m = Some (m\<lparr>codecs := (codecs m)(c \<mapsto> f i)\<rparr>)"
  by (simp add: upd_codec_def)

lemma varint_bound: "varint s < 128 ^ length s"
  by (induction s) (simp_all add: less_eq_div_iff_mult_less_eq)

lemma buf_effect_codecs:
  fixes m m' :: "'z cmem_scheme"
  assumes "heap_inv m" "buf_effect m f m'"
  shows "heap_inv m' \<and> buf_bytes m' = f \<and> codecs m' = codecs m \<and> cmem.more m' = cmem.more m \<and> foreign m' = foreign m \<and>
     str_rest m' = str_rest m \<and> grants m' = grants m \<and> brk m \<le> brk m'"
  using buf_effect_heap [OF assms] heap_frame_codecs [of m m'] by (auto simp: heap_effect_def heap_frame_def)

lemma prepare_spec:
  fixes m :: "'z cmem_scheme"
  assumes inv: "heap_inv m" and C: "codec_at m c f ctx d" and st: "d_state d = CODEC_STATE_FIXED_HEADER"
    and L: "decoder_length d b = Some (d', good)"
  shows "ok (prepareheaderDataInfo (Some c) b m) (prepared c f ctx d' good m)"
proof -
  obtain i where i: "codecs m c = Some i" and fc: "packetComplete i = f" "callContext i = ctx" and R: "represents m i d"
    and dinv: "decoder_inv d" using C by (auto simp: codec_at_def)
  have h: "headerData i = None" and d0: "d_data d = None"
    using R dinv st by (auto simp: represents_def decoder_inv_def split: option.splits)
  have len: "length (storeRemainLen i) = 4" "remainLenIndex i \<le> 4" using R by (auto simp: represents_def)
  have s: "d_stored d = take (remainLenIndex i) (storeRemainLen i)" using R by (simp add: represents_def)
  have idx: "remainLenIndex i < 4" using L len s by (auto simp: decoder_length_def Let_def split: if_splits)
  have inv': "decoder_inv d'" using decoder_length_inv [OF dinv st L] by simp
  let ?st = "(storeRemainLen i)[remainLenIndex i := b]"
  have st1: "take (Suc (remainLenIndex i)) ?st = d_stored d @ [b]"
    using idx len by (simp add: s take_Suc_conv_app_nth)
  show ?thesis
  proof (cases "b \<le> 0x7f")
    case False
    then have "d' = d\<lparr>d_stored := d_stored d @ [b]\<rparr>" "good"
      using L by (auto simp: decoder_length_def Let_def split: if_splits)
    then show ?thesis
      using False i fc h idx len st1 inv inv' R
      by (auto simp: prepareheaderDataInfo_def prepared_def receiving_def codec_at_def represents_def other_bufs_def)
  next
    case True
    let ?n = "varint (d_stored d @ [b])"
    have d': "d' = d\<lparr>d_state := CODEC_STATE_VAR_HEADER, d_stored := [],
        d_data := if ?n > 0 then Some (replicate ?n None, 0) else None\<rparr>" "good \<longleftrightarrow> remainLenIndex i < 3"
      using L True d0 s len idx by (auto simp: decoder_length_def Let_def split: if_splits)
    have "?st = d_stored d @ b # drop (Suc (remainLenIndex i)) (storeRemainLen i)"
      using idx len by (simp add: s upd_conv_take_nth_drop)
    then have loop: "remainLen_loop ?st 1 0 = Some (if good then 0 else FAILURE, int ?n)"
      using remainLen_loop_eq [of "d_stored d" b 0 "drop (Suc (remainLenIndex i)) (storeRemainLen i)" 0] dinv True idx len d'(2)
      by (auto simp: decoder_inv_def s min_def)
    show ?thesis
    proof (cases "?n = 0")
      case n0: True
      then show ?thesis
        using True i fc h idx len inv inv' R loop d'
        by (auto simp: prepareheaderDataInfo_def prepared_def receiving_def codec_at_def represents_def other_bufs_def FAILURE_def)
    next
      case n: False
      have "length (d_stored d @ [b]) \<le> 4" using s idx len by simp
      then have "(128 :: nat) ^ length (d_stored d @ [b]) \<le> 128 ^ 4" by (rule power_increasing) simp
      with varint_bound have "?n < 128 ^ 4" by (rule order.strict_trans2)
      then have un: "unat (word_of_int (int ?n) :: u32) = ?n" by (intro unat_eq_of_nat) simp_all
      then have nz: "(word_of_int (int ?n) :: u32) \<noteq> 0" using n by (auto simp flip: unat_eq_0_u32)
      define i2 where "i2 = i\<lparr>codecState := CODEC_STATE_VAR_HEADER, remainLenIndex := 0, storeRemainLen := replicate 4 0, bufferOffset := 0\<rparr>"
      define m2 where "m2 = m\<lparr>codecs := (codecs m)(c \<mapsto> i2)\<rparr>"
      have inv2: "heap_inv m2" using inv by (simp add: m2_def)
      have run: "prepareheaderDataInfo (Some c) b m = BUFFER_new m2 \<bind> (\<lambda>(h, m).
          upd_codec c (\<lambda>i. i\<lparr>headerData := h\<rparr>) m \<bind> (\<lambda>m.
          if h = None then Some (FAILURE, m)
          else BUFFER_pre_build h (word_of_int (int ?n)) m \<bind> (\<lambda>(r, m).
               Some (if r \<noteq> 0 then FAILURE else if good then 0 else FAILURE, m))))"
        using i idx len True loop n by (simp add: prepareheaderDataInfo_def m2_def i2_def)
      show ?thesis
        unfolding run
      proof (rule ok_bind2I [OF BUFFER_new_spec], goal_cases)
        case 1
        show ?case using inv2 by (simp add: heap_inv_def)
      next
        case (2 h m3)
        then consider (Null) "h = None" "\<not> alloc_total m2" "buf_effect m2 (buf_bytes m2) m3"
          | (New) x where "h = Some x" "buf_bytes m2 x = None" "buffers m3 x = Some \<lparr>buffer = None, buf_size = 0\<rparr>"
              "buf_effect m2 ((buf_bytes m2)(x \<mapsto> [])) m3" by auto
        then show ?case
        proof cases
          case Null
          note E = buf_effect_codecs [OF inv2 Null(3)]
          let ?d = "d\<lparr>d_state := CODEC_STATE_VAR_HEADER, d_stored := []\<rparr>"
          have "codec_at (m3\<lparr>codecs := (codecs m3)(c \<mapsto> i2\<lparr>headerData := None\<rparr>)\<rparr>) c f ctx ?d"
            using R fc d0 by (auto simp: codec_at_def represents_def i2_def decoder_inv_def)
          then show ?thesis
            using Null E i h unfolding prepared_def receiving_def other_bufs_def
            by (auto simp: m2_def i2_def FAILURE_def)
        next
          case New
          note E = buf_effect_codecs [OF inv2 New(4)]
          define m4 where "m4 = m3\<lparr>codecs := (codecs m3)(c \<mapsto> i2\<lparr>headerData := Some x\<rparr>)\<rparr>"
          have i3: "codecs m3 c = Some i2" using E by (simp add: m2_def)
          have inv4: "heap_inv m4" and B4: "buf_bytes m4 x = Some []" "buffers m4 x = Some \<lparr>buffer = None, buf_size = 0\<rparr>"
            using E New by (auto simp: m4_def)
          have pre: "ok (BUFFER_pre_build (Some x) (word_of_int (int ?n)) m4) (\<lambda>(r, m').
             (r \<noteq> 0 \<and> \<not> alloc_total m4 \<and> buf_effect m4 (buf_bytes m4) m') \<or>
             (r = 0 \<and> buf_effect m4 ((buf_bytes m4)(x \<mapsto> replicate ?n None)) m'))"
            using BUFFER_pre_build_spec [OF _ B4, of "word_of_int (int ?n)"] inv4 nz un by (auto simp: heap_inv_def ok_iff)
          have x: "buf_bytes m x = None" using New(2) by (simp add: m2_def)
          have out: "other_bufs c m' = other_bufs c m"
            if "codecs m' c = Some (i2\<lparr>headerData := Some x\<rparr>)" "buf_bytes m' = (buf_bytes m4)(x \<mapsto> zs)" for m' zs
            using that E x i h by (auto simp: other_bufs_def m4_def m2_def)
          have rec: "receiving c m m'" if "buf_effect m4 ((buf_bytes m4)(x \<mapsto> zs)) m'" for m' zs
            using buf_effect_codecs [OF inv4 that] E out [of m' zs] i
            by (auto simp: receiving_def m4_def m2_def)
          show ?thesis
          proof (simp only: New(1) upd_codec_Some [OF i3] prod.case Option.bind.bind_lunit option.distinct if_False
              m4_def [symmetric], rule ok_bind2I [OF pre], goal_cases)
            case (1 r m5)
            then consider (Bad) "r \<noteq> 0" "\<not> alloc_total m4" "buf_effect m4 ((buf_bytes m4)(x \<mapsto> [])) m5"
              | (Good) "r = 0" "buf_effect m4 ((buf_bytes m4)(x \<mapsto> replicate ?n None)) m5"
              using B4 by (auto simp: fun_upd_idem)
            then show ?case
            proof cases
              case Bad
              note F = buf_effect_codecs [OF inv4 Bad(3)]
              let ?d = "d\<lparr>d_state := CODEC_STATE_VAR_HEADER, d_stored := [], d_data := Some ([], 0)\<rparr>"
              have "codec_at m5 c f ctx ?d"
                using R fc F E by (auto simp: codec_at_def represents_def i2_def decoder_inv_def m4_def)
              moreover have "\<not> alloc_total m" using Bad(2) E by (simp add: m4_def m2_def alloc_total_def)
              moreover have "cmem.more m5 = cmem.more m" using F E by (simp add: m4_def m2_def)
              ultimately show ?thesis using rec [OF Bad(3)] Bad(1) by (auto simp: prepared_def FAILURE_def)
            next
              case Good
              note F = buf_effect_codecs [OF inv4 Good(2)]
              have "codec_at m5 c f ctx d'"
                using R fc F E inv' n d' by (auto simp: codec_at_def represents_def i2_def m4_def)
              moreover have "cmem.more m5 = cmem.more m" using F E by (simp add: m4_def m2_def)
              ultimately show ?thesis using rec [OF Good(2)] Good(1) d'(2) by (auto simp: prepared_def FAILURE_def)
            qed
          qed
        qed
      qed
    qed
  qed
qed

section \<open>Delivery\<close>

lemma receivingI:
  fixes m m' :: "'z cmem_scheme"
  assumes "heap_inv m'" "grants m' = grants m" "brk m \<le> brk m'" "foreign m' = foreign m" "str_rest m' = str_rest m"
    and "\<And>x. x \<noteq> c \<Longrightarrow> codecs m' x = codecs m x" "other_bufs c m' = other_bufs c m"
  shows "receiving c m m'"
  using assms by (simp add: receiving_def)

lemma receiving_alloc: "receiving c m m' \<Longrightarrow> alloc_total m' \<longleftrightarrow> alloc_total m"
  by (simp add: receiving_def alloc_total_def)

lemma codec_at_set:
  fixes m :: "'z cmem_scheme"
  assumes inv: "heap_inv m" and C: "codec_at m c f ctx d"
  shows "\<exists>m'. upd_codec c (\<lambda>i. i\<lparr>currPacket := p\<rparr>) m = Some m' \<and> receiving c m m' \<and> cmem.more m' = cmem.more m \<and>
    codec_at m' c f ctx (d\<lparr>d_packet := p\<rparr>)"
proof -
  obtain i where i: "codecs m c = Some i" "packetComplete i = f" "callContext i = ctx" "represents m i d" "decoder_inv d"
    using C by (auto simp: codec_at_def)
  then have "represents (m\<lparr>codecs := (codecs m)(c \<mapsto> i\<lparr>currPacket := p\<rparr>)\<rparr>) (i\<lparr>currPacket := p\<rparr>) (d\<lparr>d_packet := p\<rparr>)"
    "decoder_inv (d\<lparr>d_packet := p\<rparr>)"
    by (simp_all add: represents_def decoder_inv_def split: option.splits)
  then show ?thesis using i inv by (simp add: codec_at_def receiving_def other_bufs_def split: option.splits)
qed

lemma ext_bytes_foreign:
  fixes m m' :: "'z cmem_scheme"
  shows "foreign m' = foreign m \<Longrightarrow> ext_bytes m' q n = ext_bytes m q n"
  by (simp add: ext_bytes_def)

lemma ext_bytes_Suc:
  assumes "ext_bytes m q (Suc n) = Some (map Some (b # bs))"
  shows "read_byte q m = Some b" "ext_bytes m (fst q, snd q + 1) n = Some (map Some bs)"
proof -
  obtain ys where f: "foreign m (fst q) = Some ys" "snd q + Suc n \<le> length ys"
    "take (Suc n) (drop (snd q) ys) = Some b # map Some bs"
    using assms by (auto simp: ext_bytes_def split: option.splits if_splits)
  have d: "drop (snd q) ys = ys ! snd q # drop (Suc (snd q)) ys" using f(2) by (simp add: Cons_nth_drop_Suc)
  then have v: "ys ! snd q = Some b" "take n (drop (Suc (snd q)) ys) = map Some bs" using f(3) by simp_all
  show "ext_bytes m (fst q, snd q + 1) n = Some (map Some bs)" using f v by (simp add: ext_bytes_def)
  have "ext_bytes m q 1 = Some [Some b]" using f d v by (simp add: ext_bytes_def)
  then show "read_byte q m = Some b" using ext_bytesD(1) [of m q 1] by (simp add: read_byte_def)
qed

section \<open>The contract of the callback\<close>

text \<open>
  What the decoder asks of the callback, as an interface: while the invariant \<open>I\<close> holds, which
  depends on the rest of the state only, a call that \<open>P\<close> allows leaves the decoders and the
  live buffers as they are, and changes the rest of the state as \<open>T\<close> says.
\<close>

locale receiver =
  fixes call :: "'z on_packet" and I :: "'z cmem_scheme \<Rightarrow> bool"
    and P :: "call \<Rightarrow> 'z \<Rightarrow> bool" and T :: "call \<Rightarrow> 'z \<Rightarrow> 'z \<Rightarrow> bool"
  assumes accepts: "heap_inv m \<Longrightarrow> I m \<Longrightarrow> (\<And>x. h = Some x \<Longrightarrow> buf_bytes m x \<noteq> None) \<Longrightarrow>
      e = (f, ctx, Delivery type flags (case h of None \<Rightarrow> None | Some x \<Rightarrow> buf_bytes m x)) \<Longrightarrow>
      P e (cmem.more m) \<Longrightarrow>
      ok (call f ctx type flags h m) (\<lambda>m'. heap_inv m' \<and> grants m' = grants m \<and> brk m \<le> brk m' \<and>
        foreign m' = foreign m \<and> str_rest m' = str_rest m \<and> codecs m' = codecs m \<and>
        buf_bytes m' = buf_bytes m \<and> I m' \<and> T e (cmem.more m) (cmem.more m'))"
    and stable: "I m \<Longrightarrow> grants m' = grants m \<Longrightarrow> brk m \<le> brk m' \<Longrightarrow> cmem.more m' = cmem.more m \<Longrightarrow> I m'"
begin

text \<open>A step of the decoder, or a failure for want of memory, with the calls it makes.\<close>

definition handled ::
  "addr \<Rightarrow> nat option \<Rightarrow> ptr \<Rightarrow> decoder \<Rightarrow> delivery list \<Rightarrow> bool \<Rightarrow> 'z cmem_scheme \<Rightarrow> int \<times> 'z cmem_scheme \<Rightarrow> bool"
where
  "handled c f ctx d es good m = (\<lambda>(r, m'). receiving c m m' \<and> I m' \<and>
     (codec_at m' c f ctx d \<and> (r = 0 \<longleftrightarrow> good) \<and> call_run T (calls f ctx es) (cmem.more m) (cmem.more m') \<or>
      \<not> alloc_total m \<and> r \<noteq> 0 \<and> (\<exists>d'. codec_at m' c f ctx d') \<and>
        (\<exists>es' es''. es = es' @ es'' \<and> call_run T (calls f ctx es') (cmem.more m) (cmem.more m'))))"

lemma stable_receiving:
  fixes m m' :: "'z cmem_scheme"
  shows "I m \<Longrightarrow> receiving c m m' \<Longrightarrow> cmem.more m' = cmem.more m \<Longrightarrow> I m'"
  by (rule stable) (auto simp: receiving_def)

lemma stable_codecs: "I m \<Longrightarrow> I (m\<lparr>codecs := x\<rparr>)"
  by (erule stable) simp_all

lemma complete_represented:
  fixes m :: "'z cmem_scheme"
  assumes inv: "heap_inv m" and i: "codecs m c = Some i" and fc: "packetComplete i = f" "callContext i = ctx"
    and R: "represents m i d" and dinv: "decoder_inv (fst (deliver d))" and I: "I m"
    and S: "call_safe P T (calls f ctx (snd (deliver d))) (cmem.more m)"
  shows "ok (completePacketData call (Some c) m) (\<lambda>m'. receiving c m m' \<and> codec_at m' c f ctx (fst (deliver d)) \<and> I m' \<and>
    call_run T (calls f ctx (snd (deliver d))) (cmem.more m) (cmem.more m'))"
proof -
  let ?e = "Delivery (d_packet d) (d_flags d) (map_option fst (d_data d))"
  have data: "map_option fst (d_data d) = (case headerData i of None \<Rightarrow> None | Some x \<Rightarrow> buf_bytes m x)"
    using R by (auto simp: represents_def split: option.splits)
  have "ok (case packetComplete i of None \<Rightarrow> Some m
       | Some f \<Rightarrow> call f (callContext i) (currPacket i) (headerFlags i) (headerData i) m)
     (\<lambda>m1. heap_inv m1 \<and> grants m1 = grants m \<and> brk m \<le> brk m1 \<and> foreign m1 = foreign m \<and> str_rest m1 = str_rest m \<and> codecs m1 = codecs m \<and>
        buf_bytes m1 = buf_bytes m \<and> I m1 \<and> call_run T (calls f ctx [?e]) (cmem.more m) (cmem.more m1))"
  proof (cases f)
    case None
    then show ?thesis using fc inv I by (simp add: calls_def)
  next
    case (Some g)
    have "d_packet d = currPacket i" "d_flags d = headerFlags i" using R by (simp_all add: represents_def)
    moreover have "buf_bytes m x \<noteq> None" if "headerData i = Some x" for x
      using R that by (auto simp: represents_def)
    ultimately show ?thesis
      using accepts [OF inv I _ refl, of "headerData i" g ctx "currPacket i" "headerFlags i"] S Some fc data
      by (simp add: calls_def deliver_def)
  qed
  then show ?thesis
    unfolding completePacketData_def option.case i Option.bind.bind_lunit
  proof (rule ok_bindI, goal_cases)
    case (1 m1)
    then have i1: "codecs m1 c = Some i" using i by simp
    let ?i2 = "i\<lparr>currPacket := UNKNOWN_TYPE, codecState := CODEC_STATE_FIXED_HEADER, headerFlags := 0\<rparr>"
    define m2 where "m2 = m1\<lparr>codecs := (codecs m1)(c \<mapsto> ?i2)\<rparr>"
    have inv2: "heap_inv m2" using 1 by (simp add: m2_def)
    have i2: "codecs m2 c = Some ?i2" by (simp add: m2_def)
    have D: "ok (BUFFER_delete (headerData i) m2) (\<lambda>m3. buf_effect m2 (other_bufs c m2) m3)"
    proof (cases "headerData i")
      case None
      then show ?thesis using inv2 i2 by (simp add: BUFFER_delete_def other_bufs_def heap_inv_def buf_effect_refl)
    next
      case (Some h)
      then obtain xs where "buf_bytes m2 h = Some xs" using R 1 by (auto simp: represents_def m2_def)
      from BUFFER_delete_spec [OF _ this] show ?thesis using Some inv2 i2 by (simp add: other_bufs_def heap_inv_def)
    qed
    have "headerData ?i2 = headerData i" by simp
    then show ?case
      unfolding upd_codec_Some [OF i1] Option.bind.bind_lunit m2_def [symmetric] i2
    proof (simp only:, intro ok_bindI [OF D], goal_cases)
      case (1 m3)
      note E = buf_effect_codecs [OF inv2 1(3)]
      then have i3: "codecs m3 c = Some ?i2" using i2 by simp
      have "codec_at (m3\<lparr>codecs := (codecs m3)(c \<mapsto> ?i2\<lparr>headerData := None\<rparr>)\<rparr>) c f ctx (fst (deliver d))"
        using R fc dinv by (auto simp: codec_at_def represents_def deliver_def decoder_inv_def)
      moreover have "other_bufs c (m3\<lparr>codecs := (codecs m3)(c \<mapsto> ?i2\<lparr>headerData := None\<rparr>)\<rparr>) = other_bufs c m"
        using E \<open>_ \<and> _ \<and> _ \<and> _ \<and> _ \<and> codecs m1 = codecs m \<and> _\<close> i by (simp add: other_bufs_def m2_def split: option.splits)
      ultimately show ?case
        using E \<open>_ \<and> _ \<and> _ \<and> _ \<and> _ \<and> codecs m1 = codecs m \<and> _\<close>
        unfolding upd_codec_Some [OF i3]
        by (auto simp: receiving_def m2_def deliver_def elim!: stable)
    qed
  qed
qed

lemma complete_spec:
  fixes m :: "'z cmem_scheme"
  assumes inv: "heap_inv m" and C: "codec_at m c f ctx d" and I: "I m"
    and S: "call_safe P T (calls f ctx (snd (deliver d))) (cmem.more m)"
  shows "ok (completePacketData call (Some c) m) (\<lambda>m'. receiving c m m' \<and> codec_at m' c f ctx (fst (deliver d)) \<and> I m' \<and>
    call_run T (calls f ctx (snd (deliver d))) (cmem.more m) (cmem.more m'))"
proof -
  obtain i where "codecs m c = Some i" "packetComplete i = f" "callContext i = ctx" "represents m i d" "decoder_inv d"
    using C by (auto simp: codec_at_def)
  then show ?thesis
    by (intro complete_represented [OF inv _ _ _ _ _ I S]) (auto simp: decoder_inv_def deliver_def)
qed

section \<open>One byte\<close>

lemma handledI:
  "receiving c m m' \<Longrightarrow> I m' \<Longrightarrow> codec_at m' c f ctx d \<Longrightarrow> r = 0 \<longleftrightarrow> good \<Longrightarrow>
   call_run T (calls f ctx es) (cmem.more m) (cmem.more m') \<Longrightarrow> handled c f ctx d es good m (r, m')"
  by (simp add: handled_def)

lemma handled_oom:
  "receiving c m m' \<Longrightarrow> I m' \<Longrightarrow> codec_at m' c f ctx d' \<Longrightarrow> r \<noteq> 0 \<Longrightarrow> \<not> alloc_total m \<Longrightarrow>
   cmem.more m' = cmem.more m \<Longrightarrow> handled c f ctx d es good m (r, m')"
  unfolding handled_def prod.case by (metis append_Nil calls_simps(1) call_run.simps(1))

lemma error_packet: "PACKET_TYPE_ERROR \<noteq> PINGRESP_TYPE"
  by (simp add: c_consts)

lemma codec_byte_length:
  fixes m :: "'z cmem_scheme"
  assumes inv: "heap_inv m" and C: "codec_at m c f ctx d" and I: "I m" and S: "call_safe P T (calls f ctx es) (cmem.more m)"
    and st: "d_state d = CODEC_STATE_FIXED_HEADER" "d_packet d \<noteq> UNKNOWN_TYPE"
    and D: "decoder_byte d b = Some (d', es, good)"
  shows "ok (codec_byte call c b m) (handled c f ctx d' es good m)"
proof -
  obtain i where i: "codecs m c = Some i" "currPacket i = d_packet d" "codecState i = d_state d"
    using C by (auto simp: codec_at_def represents_def)
  obtain d1 g where L: "decoder_length d b = Some (d1, g)"
    using D st by (auto simp: decoder_byte_def split: Option.bind_splits)
  have D1: "d' = (if g then if d_packet d1 = PINGRESP_TYPE then fst (deliver d1) else d1 else d1\<lparr>d_packet := PACKET_TYPE_ERROR\<rparr>)"
    "es = (if g \<and> d_packet d1 = PINGRESP_TYPE then snd (deliver d1) else [])" "good = g"
    using D st L error_packet by (auto simp: decoder_byte_def Let_def split: if_splits prod.splits)
  show ?thesis
    unfolding codec_byte_def i(1) Option.bind.bind_lunit i(2,3)
  proof (simp only: st if_True if_False simp_thms, rule ok_bind2I [OF prepare_spec [OF inv C st(1) L]], goal_cases)
    case (1 r m1)
    have rec: "receiving c m m1" using 1 by (simp add: prepared_def)
    then have inv1: "heap_inv m1" by (simp add: receiving_def)
    have more: "cmem.more m1 = cmem.more m" using 1 by (auto simp: prepared_def)
    have I1: "I m1" by (rule stable_receiving [OF I rec more])
    show ?case
    proof (cases "r = 0")
      case False
      obtain d2 where C2: "codec_at m1 c f ctx d2" and d2: "d2 = d1 \<and> \<not> g \<or> \<not> alloc_total m"
        using 1 False by (auto simp: prepared_def)
      obtain m2 where U: "upd_codec c (\<lambda>i. i\<lparr>currPacket := PACKET_TYPE_ERROR\<rparr>) m1 = Some m2" and rec2: "receiving c m1 m2"
        and more2: "cmem.more m2 = cmem.more m1" and C3: "codec_at m2 c f ctx (d2\<lparr>d_packet := PACKET_TYPE_ERROR\<rparr>)"
        using codec_at_set [OF inv1 C2] by blast
      obtain j where j: "codecs m2 c = Some j" "currPacket j = PACKET_TYPE_ERROR"
        using C3 by (auto simp: codec_at_def represents_def)
      have "ok (Some (FAILURE, m2)) (handled c f ctx d' es good m)"
      proof (cases "d2 = d1 \<and> \<not> g")
        case True
        then show ?thesis
          using C3 D1 more more2 receiving_trans [OF rec rec2] stable_receiving [OF I1 rec2 more2]
          by (auto simp: FAILURE_def intro!: handledI)
      next
        case False
        then show ?thesis
          using C3 d2 more more2 receiving_trans [OF rec rec2] stable_receiving [OF I1 rec2 more2]
          by (auto simp: FAILURE_def intro!: handled_oom)
      qed
      then show ?thesis
        using False U j error_packet by simp
    next
      case True
      then have g: g and C1: "codec_at m1 c f ctx d1" using 1 by (auto simp: prepared_def)
      obtain j where j: "codecs m1 c = Some j" "currPacket j = d_packet d1"
        using C1 by (auto simp: codec_at_def represents_def)
      show ?thesis
      proof (cases "d_packet d1 = PINGRESP_TYPE")
        case False
        then show ?thesis
          using True j D1 g C1 I1 rec more by (auto intro!: handledI)
      next
        case ping: True
        have S1: "call_safe P T (calls f ctx (snd (deliver d1))) (cmem.more m1)" using S D1 g ping more by simp
        have "ok (completePacketData call (Some c) m1 \<bind> (\<lambda>m. Some (0, m))) (handled c f ctx d' es good m)"
          by (rule ok_bindI [OF complete_spec [OF inv1 C1 I1 S1]])
            (use D1 g ping more in \<open>auto intro!: handledI intro: receiving_trans [OF rec]\<close>)
        then show ?thesis using True j ping by simp
      qed
    qed
  qed
qed

lemma codec_byte_body:
  fixes m :: "'z cmem_scheme"
  assumes inv: "heap_inv m" and C: "codec_at m c f ctx d" and I: "I m" and S: "call_safe P T (calls f ctx es) (cmem.more m)"
    and st: "d_state d = CODEC_STATE_VAR_HEADER" "d_data d = Some (xs, k)" and ne: "xs \<noteq> []"
    and D: "decoder_byte d b = Some (d', es, good)"
  shows "ok (codec_byte call c b m) (handled c f ctx d' es good m)"
proof -
  obtain i where i: "codecs m c = Some i" and fc: "packetComplete i = f" "callContext i = ctx" and R: "represents m i d"
    and dinv: "decoder_inv d" using C by (auto simp: codec_at_def)
  obtain h where h: "headerData i = Some h" "buf_bytes m h = Some xs" and k: "k = unat (bufferOffset i)"
    using R st by (auto simp: represents_def split: option.splits)
  have cs: "codecState i = CODEC_STATE_VAR_HEADER" using R st by (simp add: represents_def)
  have kl: "k < length xs" using dinv st ne by (simp add: decoder_inv_def)
  have l32: "length xs < 2 ^ 32" using h(2) by (rule buf_bytes_bound)
  have off: "unat (bufferOffset i + 1) = k + 1"
    by (rule unat_eq_of_nat) (use k kl l32 in simp_all)
  have full: "of_nat (length xs) \<le> bufferOffset i + 1 \<longleftrightarrow> length xs \<le> k + 1"
    using l32 by (simp add: word_le_nat_alt off)
  let ?xs = "xs[k := Some b]"
  let ?d1 = "d\<lparr>d_data := Some (?xs, k + 1)\<rparr>"
  have D1: "good" "d' = (if length xs \<le> k + 1 then fst (deliver ?d1) else ?d1)"
    "es = (if length xs \<le> k + 1 then snd (deliver ?d1) else [])"
    using D st ne by (auto simp: decoder_byte_def Let_def split: if_splits prod.splits)
  have "ok (BUFFER_u_char (Some h) m) (\<lambda>p. \<exists>a. p = Some a \<and> buf_at m h a)"
    using BUFFER_u_char_spec [OF h(2)] ne by simp
  then obtain a where a: "BUFFER_u_char (Some h) m = Some (Some a)" "buf_at m h a" by (auto simp: ok_iff)
  let ?i1 = "i\<lparr>bufferOffset := bufferOffset i + 1\<rparr>"
  define m1 where "m1 = m\<lparr>codecs := (codecs m)(c \<mapsto> ?i1)\<rparr>"
  have m1: "heap_inv m1" "buf_bytes m1 = buf_bytes m" "buf_at m1 h a" "codecs m1 c = Some ?i1"
    using inv a(2) by (simp_all add: m1_def)
  have W: "ok (write_bytes (a, k) [Some b] m1) (\<lambda>m2. buf_effect m1 ((buf_bytes m1)(h \<mapsto> ?xs)) m2)"
    using write_buf_spec [of m1 h xs a k "[Some b]"] m1 h kl by (auto simp: heap_inv_def write_at_singleton ok_iff)
  show ?thesis
    unfolding codec_byte_def i Option.bind.bind_lunit cs h(1) a(1) upd_codec_Some [OF i]
  proof (simp only: CODEC_STATE_RESULT.distinct if_False if_True simp_thms option.distinct option.case Option.bind.bind_lunit
      Option.bind_assoc m1_def [symmetric] k [symmetric], rule ok_bindI [OF W], goal_cases)
    case (1 m2)
    note E = buf_effect_codecs [OF m1(1) 1]
    have i2: "codecs m2 c = Some ?i1" and h2: "buf_bytes m2 h = Some ?xs" using E m1 by auto
    have len: "BUFFER_length (Some h) m2 = Some (of_nat (length xs))" using BUFFER_length_spec [OF h2] by simp
    have R2: "represents m2 ?i1 ?d1" using R h2 h off by (simp add: represents_def)
    have fin: "decoder_inv (fst (deliver ?d1))" using dinv by (simp add: decoder_inv_def deliver_def)
    have rec: "receiving c m m2"
      using E i i2 h by (auto simp: receiving_def other_bufs_def m1_def)
    have more: "cmem.more m2 = cmem.more m" using E by (simp add: m1_def)
    have inv2: "heap_inv m2" using E by simp
    have I2: "I m2" by (rule stable_receiving [OF I rec more])
    have "ok ((if length xs \<le> k + 1 then completePacketData call (Some c) m2 else Some m2) \<bind> (\<lambda>m. Some (0, m)))
        (handled c f ctx d' es good m)"
    proof (cases "length xs \<le> k + 1")
      case True
      have S2: "call_safe P T (calls f ctx (snd (deliver ?d1))) (cmem.more m2)" using S D1 True more by simp
      have "ok (completePacketData call (Some c) m2 \<bind> (\<lambda>m. Some (0, m))) (handled c f ctx d' es good m)"
        by (rule ok_bindI [OF complete_represented [OF inv2 i2 _ _ R2 fin I2 S2]])
          (use D1 True fc more in \<open>auto intro!: handledI intro: receiving_trans [OF rec] simp: split_paired_all\<close>)
      then show ?thesis using True by simp
    next
      case False
      have "codec_at m2 c f ctx ?d1"
        using R2 fc dinv i2 st False by (auto simp: codec_at_def decoder_inv_def)
      then show ?thesis using False D1 rec more I2 by (auto intro!: handledI)
    qed
    moreover have "of_nat (length xs) \<le> bufferOffset ?i1 \<longleftrightarrow> length xs \<le> k + 1" by (simp add: full)
    ultimately show ?case by (simp only: len i2 Option.bind.bind_lunit)
  qed
qed

lemma codec_byte_handled:
  fixes m :: "'z cmem_scheme"
  assumes inv: "heap_inv m" and C: "codec_at m c f ctx d" and I: "I m" and S: "call_safe P T (calls f ctx es) (cmem.more m)"
    and D: "decoder_byte d b = Some (d', es, good)"
  shows "ok (codec_byte call c b m) (handled c f ctx d' es good m)"
proof -
  obtain i where i: "codecs m c = Some i" "packetComplete i = f" "callContext i = ctx" and R: "represents m i d"
    and dinv: "decoder_inv d" using C by (auto simp: codec_at_def)
  have q: "currPacket i = d_packet d" "codecState i = d_state d" using R by (simp_all add: represents_def)
  note upd = represents_def decoder_inv_def receiving_def other_bufs_def codec_at_def handled_def
  show ?thesis
  proof (cases "d_state d")
    case CODEC_STATE_FIXED_HEADER
    show ?thesis
    proof (cases "d_packet d = UNKNOWN_TYPE")
      case True
      then show ?thesis
        using CODEC_STATE_FIXED_HEADER D R dinv i inv q stable_codecs [OF I]
        by (auto simp: codec_byte_def processControlPacketType_def decoder_byte_def upd split: option.splits)
    next
      case False
      then show ?thesis using codec_byte_length [OF inv C I S CODEC_STATE_FIXED_HEADER _ D] by simp
    qed
  next
    case CODEC_STATE_VAR_HEADER
    show ?thesis
    proof (cases "d_data d")
      case None
      then have "headerData i = None" using R by (auto simp: represents_def split: option.splits)
      then show ?thesis
        using None CODEC_STATE_VAR_HEADER D R dinv i inv q stable_codecs [OF I]
        by (auto simp: codec_byte_def decoder_byte_def upd split: option.splits)
    next
      case (Some y)
      obtain xs k where y: "y = (xs, k)" by fastforce
      show ?thesis
      proof (cases "xs = []")
        case True
        obtain h where h: "headerData i = Some h" "buf_bytes m h = Some []"
          using R Some y True by (auto simp: represents_def split: option.splits)
        have "BUFFER_u_char (Some h) m = Some None" using BUFFER_u_char_spec [OF h(2)] by (auto simp: ok_iff)
        then show ?thesis
          using True h Some y CODEC_STATE_VAR_HEADER D R dinv i inv q stable_codecs [OF I]
          by (auto simp: codec_byte_def decoder_byte_def upd FAILURE_def)
      next
        case False
        then show ?thesis
          using codec_byte_body [OF inv C I S CODEC_STATE_VAR_HEADER _ False D, of k] Some y by simp
      qed
    qed
  next
    case CODEC_STATE_PAYLOAD
    then show ?thesis
      using D R dinv i inv q stable_codecs [OF I]
      by (auto simp: codec_byte_def decoder_byte_def upd FAILURE_def split: option.splits)
  qed
qed

section \<open>A call of \<open>mqtt_codec_bytesReceived\<close>\<close>

lemma handled_step:
  assumes "handled c f ctx d es True m (0, m1)" "handled c f ctx d' es' good m1 (r, m')"
  shows "handled c f ctx d' (es @ es') good m (r, m')"
proof -
  have rec: "receiving c m m'" using assms by (auto simp: handled_def intro: receiving_trans)
  have s: "call_run T (calls f ctx es) (cmem.more m) (cmem.more m1)" and r1: "receiving c m m1"
    using assms by (auto simp: handled_def)
  have run: "call_run T (calls f ctx (es @ zs)) (cmem.more m) (cmem.more m')"
    if "call_run T (calls f ctx zs) (cmem.more m1) (cmem.more m')" for zs
    using that s by (auto simp: call_run_append)
  show ?thesis
    using assms(2) rec receiving_alloc [OF r1] run
    unfolding handled_def prod.case by (metis append.assoc)
qed

lemma bytesReceived_loop_spec:
  fixes m :: "'z cmem_scheme"
  shows "heap_inv m \<Longrightarrow> I m \<Longrightarrow> call_safe P T (calls f ctx es) (cmem.more m) \<Longrightarrow> codec_at m c f ctx d \<Longrightarrow> ext_bytes m q (length bs) = Some (map Some bs) \<Longrightarrow>
    decoder_run d bs = Some (d', es, good) \<Longrightarrow>
    ok (bytesReceived_loop call c q (length bs) m) (handled c f ctx d' es good m)"
proof (induction bs arbitrary: m d q es)
  case Nil
  then show ?case by (auto intro!: handledI receiving_refl)
next
  case (Cons b bs)
  obtain d1 es1 g1 where B: "decoder_byte d b = Some (d1, es1, g1)"
    using Cons.prems(6) by (auto split: Option.bind_splits)
  have rd: "read_byte q m = Some b" and ext: "ext_bytes m (fst q, snd q + 1) (length bs) = Some (map Some bs)"
    using ext_bytes_Suc [of m q "length bs" b bs] Cons.prems(5) by simp_all
  have S1: "call_safe P T (calls f ctx es1) (cmem.more m)"
    using Cons.prems(3,6) B by (auto simp: call_safe_append split: Option.bind_splits if_splits)
  show ?case
    unfolding list.size add_Suc_right add_0_right bytesReceived_loop.simps rd Option.bind.bind_lunit
  proof (rule ok_bind2I [OF codec_byte_handled [OF Cons.prems(1,4,2) S1 B]], goal_cases)
    case (1 r m1)
    have rec: "receiving c m m1" using 1 by (simp add: handled_def)
    then have inv1: "heap_inv m1" and ext1: "ext_bytes m1 (fst q, snd q + 1) (length bs) = Some (map Some bs)"
      using ext ext_bytes_foreign [of m1 m] by (auto simp: receiving_def)
    show ?case
    proof (cases "r = 0")
      case True
      then have C1: "codec_at m1 c f ctx d1" and g1: g1 using 1 by (auto simp: handled_def)
      obtain es2 where R: "decoder_run d1 bs = Some (d', es2, good)" "es = es1 @ es2"
        using Cons.prems(6) B g1 by (auto split: Option.bind_splits)
      have "I m1" "call_safe P T (calls f ctx es2) (cmem.more m1)"
        using 1 True g1 Cons.prems(3) R(2) by (auto simp: handled_def call_safe_append)
      then show ?thesis
        using ok_mono [OF Cons.IH [OF inv1 _ _ C1 ext1 R(1)]] handled_step [of c f ctx d1 es1 m m1] 1 True g1 R(2)
        by auto
    next
      case False
      show ?thesis
        using 1 False Cons.prems(6) B
        by (auto simp: handled_def split: if_splits Option.bind_splits)
    qed
  qed
qed

lemma bytesReceived_handled:
  fixes m :: "'z cmem_scheme"
  assumes "heap_inv m" "I m" "call_safe P T (calls f ctx es) (cmem.more m)" "codec_at m c f ctx d"
    and "ext_bytes m q (unat n) = Some (map Some bs)" "n \<noteq> 0" "decoder_run d bs = Some (d', es, good)"
  shows "ok (mqtt_codec_bytesReceived call (Some c) (Some q) n m) (handled c f ctx d' es good m)"
proof -
  have "length bs = unat n" using ext_bytesD(2) [OF assms(5)] by simp
  then show ?thesis
    using bytesReceived_loop_spec [OF assms(1-4), of q bs] assms(5-7) by (simp add: mqtt_codec_bytesReceived_def)
qed

end

section \<open>A callback that keeps a log\<close>

lemma sink_receiver:
  assumes "sink call seen"
  shows "receiver call (\<lambda>_. True) (\<lambda>_ _. True) (\<lambda>e w w'. seen w' = seen w @ [e])"
  using assms unfolding sink_def by unfold_locales auto

lemma log_run: "call_run (\<lambda>e w w'. seen w' = seen w @ [e]) es w w' \<Longrightarrow> seen w' = seen w @ es"
  by (induction es arbitrary: w) auto

lemma log_safe: "call_safe (\<lambda>_ _. True) T es w"
  by (induction es arbitrary: w) auto

lemma handled_received:
  assumes "sink call seen"
  shows "receiver.handled (\<lambda>_. True) (\<lambda>e w w'. seen w' = seen w @ [e]) c f ctx d es good m r \<Longrightarrow>
    received seen c f ctx d es good m r"
  unfolding receiver.handled_def [OF sink_receiver [OF assms]] received_def
  by (auto dest!: log_run split: prod.splits)

lemma codec_byte_spec:
  fixes m :: "'z cmem_scheme"
  assumes inv: "heap_inv m" and C: "codec_at m c f ctx d" and S: "sink call seen"
    and D: "decoder_byte d b = Some (d', es, good)"
  shows "ok (codec_byte call c b m) (received seen c f ctx d' es good m)"
  by (rule ok_mono [OF receiver.codec_byte_handled [OF sink_receiver [OF S] inv C _ log_safe D]])
    (simp_all add: handled_received [OF S])

lemma bytesReceived_spec:
  fixes m :: "'z cmem_scheme"
  assumes "sink call seen" "heap_inv m" "codec_at m c f ctx d"
    and "ext_bytes m q (unat n) = Some (map Some bs)" "n \<noteq> 0" "decoder_run d bs = Some (d', es, good)"
  shows "ok (mqtt_codec_bytesReceived call (Some c) (Some q) n m) (received seen c f ctx d' es good m)"
  by (rule ok_mono [OF receiver.bytesReceived_handled [OF sink_receiver [OF assms(1)] assms(2) _ log_safe assms(3-6)]])
    (simp_all add: handled_received [OF assms(1)])

section \<open>Creation and destruction\<close>

lemma create_spec:
  fixes m :: "'z cmem_scheme"
  assumes inv: "heap_inv m"
  shows "ok (mqtt_codec_create f ctx m) (\<lambda>(r, m').
    (r = None \<and> \<not> alloc_total m \<and> codecs m' = codecs m \<or>
     (\<exists>c. r = Some c \<and> codec_at m' c f ctx idle \<and> c = brk m \<and> (\<forall>x. x \<noteq> c \<longrightarrow> codecs m' x = codecs m x))) \<and>
    heap_inv m' \<and> buf_bytes m' = buf_bytes m \<and> str_vals m' = str_vals m \<and> foreign m' = foreign m \<and>
    grants m' = grants m \<and> cmem.more m' = cmem.more m)"
proof -
  have e: "buf_effect m (buf_bytes m) (m\<lparr>brk := Suc (brk m)\<rparr>)" using inv by (simp add: heap_inv_def buf_effect_fail)
  note E = buf_effect_codecs [OF inv e]
  have "str_vals (m\<lparr>brk := Suc (brk m)\<rparr>) = str_vals m" using buf_effect_heap [OF inv e] by (simp add: heap_effect_def)
  then show ?thesis
    using E
    by (auto simp: mqtt_codec_create_def malloc_struct_def alloc_total_def codec_at_def represents_def idle_def
        decoder_inv_def)
qed

lemma destroy_spec:
  fixes m :: "'z cmem_scheme"
  assumes inv: "heap_inv m" and C: "codec_at m c f ctx d"
  shows "ok (mqtt_codec_destroy (Some c) m) (\<lambda>m'. heap_inv m' \<and> codecs m' = (codecs m)(c := None) \<and>
    buf_bytes m' = other_bufs c m \<and> foreign m' = foreign m \<and> grants m' = grants m \<and> cmem.more m' = cmem.more m)"
proof -
  obtain i where i: "codecs m c = Some i" and R: "represents m i d" using C by (auto simp: codec_at_def)
  have "ok (BUFFER_delete (headerData i) m) (buf_effect m (other_bufs c m))"
  proof (cases "headerData i")
    case None
    then show ?thesis using inv i by (simp add: BUFFER_delete_def other_bufs_def heap_inv_def buf_effect_refl)
  next
    case (Some h)
    then obtain xs where "buf_bytes m h = Some xs" using R by (auto simp: represents_def)
    from BUFFER_delete_spec [OF _ this] show ?thesis using Some inv i by (simp add: other_bufs_def heap_inv_def)
  qed
  then show ?thesis
    by (auto simp: mqtt_codec_destroy_def i ok_iff dest!: buf_effect_codecs [OF inv])
qed

end
