(* ===== verification/Packet_Link.thy ===== *)
theory Packet_Link
  imports Codec_Connect Codec_Receive
begin

text \<open>
  The interface between the two halves of the codec: a function that builds one packet
  (\<open>packet_builder\<close>), and what follows from it for any of them.  What it builds is what the
  decoder delivers, a packet it refuses leaves nothing behind, and deleting what it built
  gives the buffers back.
\<close>

section \<open>A function that builds one packet\<close>

locale packet_builder =
  fixes build :: "ptr \<Rightarrow> 'z smem_scheme \<Rightarrow> (ptr \<times> 'z smem_scheme) option"
    and pre :: "'z smem_scheme \<Rightarrow> bool"
    and type :: CONTROL_PACKET_TYPE and flags :: u8 and body :: "u8 list" and valid :: bool
  assumes builds: "heap_inv m \<Longrightarrow> log_ok t m \<Longrightarrow> pre m \<Longrightarrow> ok (build t m) (built t m (packet type flags body) valid)"
    and type: "type_ok type" and flags: "flags_ok flags" and body: "body \<noteq> []"
begin

lemma delivered:
  assumes "heap_inv m" "log_ok t m" "pre m" "length body < 2 ^ 21"
  shows "ok (build t m) (\<lambda>(r, m'). r = None \<and> (valid \<longrightarrow> \<not> alloc_total m) \<or>
    (\<exists>h bs. r = Some h \<and> buf_bytes m' h = Some (map Some bs) \<and>
       decoder_run idle bs = Some (idle, [Delivery type (uint flags) (Some (map Some body))], True)))"
proof (rule ok_mono [OF builds [OF assms(1-3)]])
  fix r assume "built t m (packet type flags body) valid r"
  then show "case r of (r, m') \<Rightarrow> r = None \<and> (valid \<longrightarrow> \<not> alloc_total m) \<or>
    (\<exists>h bs. r = Some h \<and> buf_bytes m' h = Some (map Some bs) \<and>
       decoder_run idle bs = Some (idle, [Delivery type (uint flags) (Some (map Some body))], True))"
    using run_packet [OF type flags body assms(4)]
    by (cases r) (auto simp: built_def enc_effect_def intro!: exI [of _ "packet type flags body"])
qed

lemma refused:
  assumes "heap_inv m" "log_ok t m" "pre m" "\<not> valid"
  shows "ok (build t m) (\<lambda>(r, m'). r = None \<and> buf_bytes m' = buf_bytes m \<and> heap_inv m')"
  by (rule ok_mono [OF builds [OF assms(1-3)]]) (use assms(4) in \<open>auto simp: built_def enc_effect_def\<close>)

lemma released:
  assumes "heap_inv m" "log_ok t m" "pre m"
  shows "ok (build t m \<bind> (\<lambda>(r, m). BUFFER_delete r m)) (\<lambda>m'. heap_inv m' \<and> buf_bytes m' = buf_bytes m)"
proof (rule ok_bind2I [OF builds [OF assms]])
  fix r m1 assume B: "built t m (packet type flags body) valid (r, m1)"
  have inv: "heap_inv m1" using B by (auto simp: built_def enc_effect_def)
  show "ok (case (r, m1) of (r, m) \<Rightarrow> BUFFER_delete r m) (\<lambda>m'. heap_inv m' \<and> buf_bytes m' = buf_bytes m)"
  proof (cases r)
    case None
    then show ?thesis using B by (auto simp: BUFFER_delete_def built_def enc_effect_def)
  next
    case (Some h)
    then have h: "buf_bytes m h = None" "buf_bytes m1 = (buf_bytes m)(h \<mapsto> map Some (packet type flags body))"
      using B by (auto simp: built_def enc_effect_def)
    then have *: "(buf_bytes m1)(h := None) = buf_bytes m" by (auto simp: fun_eq_iff)
    have "ok (BUFFER_delete (Some h) m1) (buf_effect m1 (buf_bytes m))"
      using BUFFER_delete_spec [of m1 h] inv h(2) * by (simp add: heap_inv_def)
    then show ?thesis
      using Some by (auto simp: ok_iff heap_effect_def dest!: buf_effect_heap [OF inv])
  qed
qed

end

section \<open>The builders of the codec\<close>

lemma built_log: "built None m ys valid r \<Longrightarrow> built t m ys valid r"
  by (auto simp: built_def split: prod.splits intro: enc_effect_weaken)

lemma small_flags: "flags_ok 0" "flags_ok 2" "flags_ok (publish_flags qos dup retain)"
  by (simp_all add: flags_ok_def publish_flags_def Let_def c_consts)

lemma builder_types:
  "type_ok PUBLISH_TYPE" "type_ok PUBACK_TYPE" "type_ok PUBREC_TYPE" "type_ok PUBREL_TYPE" "type_ok PUBCOMP_TYPE"
  "type_ok SUBSCRIBE_TYPE" "type_ok UNSUBSCRIBE_TYPE" "type_ok CONNECT_TYPE"
  by (simp_all add: type_ok_def c_consts)

lemma be16_ne: "be16 pid \<noteq> []"
  by (simp add: be16_def)

lemma reply_packet: "(type OR flags) # 2 # be16 pid = packet type flags (be16 pid)"
  by (simp add: packet_def fixed_header_def be16_def remaining_length.simps)

lemma reply_built:
  "heap_inv m \<Longrightarrow> ok (constructPublishReply type flags pid m) (built t m (packet type flags (be16 pid)) True)"
  by (rule ok_mono [OF PublishReply_spec [of m type flags pid]]) (simp_all add: reply_packet built_log)

definition publish_source ::
  "char_ptr \<Rightarrow> cstring \<Rightarrow> bptr option \<Rightarrow> u32 \<Rightarrow> u8 list \<Rightarrow> 'z smem_scheme \<Rightarrow> bool" where
  "publish_source tn topic msg len payload m \<longleftrightarrow> ext_string m tn = Some topic \<and>
     (len \<noteq> 0 \<longrightarrow> (\<exists>q. msg = Some q \<and> ext_bytes m q (unat len) = Some (map Some payload))) \<and>
     length payload = unat len \<and> length topic + length payload + 4 < 2 ^ 28"

definition subscribe_source :: "SUBSCRIBE_PAYLOAD list \<Rightarrow> cstring list \<Rightarrow> 'z smem_scheme \<Rightarrow> bool" where
  "subscribe_source items ss m \<longleftrightarrow> list_all2 (\<lambda>i s. topic_at m (subscribeTopic i) s) items ss \<and>
     items \<noteq> [] \<and> length items < 2 ^ 32 \<and> topics_size 64 ss < 2 ^ 28"

definition unsubscribe_source :: "char_ptr option list \<Rightarrow> cstring list \<Rightarrow> 'z smem_scheme \<Rightarrow> bool" where
  "unsubscribe_source items ss m \<longleftrightarrow> list_all2 (topic_at m) items ss \<and>
     items \<noteq> [] \<and> length items < 2 ^ 32 \<and> topics_size 64 ss < 2 ^ 28"

interpretation publish: packet_builder "mqtt_codec_publish qos dup retain pid (Some tn) msg len"
  "publish_source tn topic msg len payload" PUBLISH_TYPE "publish_flags qos dup retain"
  "publish_header topic qos pid @ payload" "length topic \<le> 65535"
  for qos dup retain pid tn msg len topic payload
proof unfold_locales
  fix m :: "'b smem_scheme" and t
  assume "heap_inv m" "log_ok t m" "publish_source tn topic msg len payload m"
  then show "ok (mqtt_codec_publish qos dup retain pid (Some tn) msg len t m)
     (built t m (packet PUBLISH_TYPE (publish_flags qos dup retain) (publish_header topic qos pid @ payload))
       (length topic \<le> 65535))"
    by (intro Publish_spec) (auto simp: publish_source_def)
qed (simp_all add: small_flags builder_types publish_header_def utf_def be16_def)

interpretation subscribe: packet_builder "mqtt_codec_subscribe pid (Some items) (of_nat (length items))"
  "subscribe_source items ss" SUBSCRIBE_TYPE SUBSCRIBE_FIXED_HEADER_FLAG
  "be16 pid @ subscribe_payload (zip ss (map qosReturn items))" "topics_fit ss"
  for pid items ss
proof unfold_locales
  fix m :: "'b smem_scheme" and t
  assume "heap_inv m" "log_ok t m" "subscribe_source items ss m"
  then show "ok (mqtt_codec_subscribe pid (Some items) (of_nat (length items)) t m)
     (built t m (packet SUBSCRIBE_TYPE SUBSCRIBE_FIXED_HEADER_FLAG
       (be16 pid @ subscribe_payload (zip ss (map qosReturn items)))) (topics_fit ss))"
    using Subscribe_spec [of m t "of_nat (length items)" items ss pid]
    by (simp add: subscribe_source_def unat_eq_of_nat [OF refl] flip: unat_eq_0_u32)
qed (simp_all add: builder_types be16_def small_flags SUBSCRIBE_FIXED_HEADER_FLAG_def)

interpretation unsubscribe: packet_builder "mqtt_codec_unsubscribe pid (Some items) (of_nat (length items))"
  "unsubscribe_source items ss" UNSUBSCRIBE_TYPE UNSUBSCRIBE_FIXED_HEADER_FLAG
  "be16 pid @ unsubscribe_payload ss" "topics_fit ss"
  for pid items ss
proof unfold_locales
  fix m :: "'b smem_scheme" and t
  assume "heap_inv m" "log_ok t m" "unsubscribe_source items ss m"
  then show "ok (mqtt_codec_unsubscribe pid (Some items) (of_nat (length items)) t m)
     (built t m (packet UNSUBSCRIBE_TYPE UNSUBSCRIBE_FIXED_HEADER_FLAG
       (be16 pid @ unsubscribe_payload ss)) (topics_fit ss))"
    using Unsubscribe_spec [of m t "of_nat (length items)" items ss pid]
    by (simp add: unsubscribe_source_def unat_eq_of_nat [OF refl] flip: unat_eq_0_u32)
qed (simp_all add: builder_types be16_def small_flags UNSUBSCRIBE_FIXED_HEADER_FLAG_def)

interpretation puback: packet_builder "\<lambda>t. mqtt_codec_publishAck pid" "\<lambda>m. True" PUBACK_TYPE 0 "be16 pid" True for pid
  by unfold_locales (simp_all add: mqtt_codec_publishAck_def reply_built builder_types small_flags be16_ne)

interpretation pubrec: packet_builder "\<lambda>t. mqtt_codec_publishReceived pid" "\<lambda>m. True" PUBREC_TYPE 0 "be16 pid" True for pid
  by unfold_locales (simp_all add: mqtt_codec_publishReceived_def reply_built builder_types small_flags be16_ne)

interpretation pubrel: packet_builder "\<lambda>t. mqtt_codec_publishRelease pid" "\<lambda>m. True" PUBREL_TYPE 2 "be16 pid" True for pid
  by unfold_locales (simp_all add: mqtt_codec_publishRelease_def reply_built builder_types small_flags be16_ne)

interpretation pubcomp: packet_builder "\<lambda>t. mqtt_codec_publishComplete pid" "\<lambda>m. True" PUBCOMP_TYPE 0 "be16 pid" True for pid
  by unfold_locales (simp_all add: mqtt_codec_publishComplete_def reply_built builder_types small_flags be16_ne)

end
