(* ===== verification/Codec_Properties.thy ===== *)
theory Codec_Properties
  imports Packet_Link
begin

text \<open>
  The properties of the codec, each with a witness on a concrete heap: what the decoder
  delivers, what the builders produce, the round trip between the two, and the inputs on
  which the code fails or runs out of bounds.
\<close>

section \<open>More on the machine\<close>

lemma remaining_length_split:
  "\<exists>s b. remaining_length n = s @ [b] \<and> b \<le> 0x7f \<and> (\<forall>x \<in> set s. \<not> x \<le> 0x7f)"
proof (induction n rule: remaining_length.induct)
  case (1 n)
  show ?case
  proof (cases "n < 128")
    case True
    then show ?thesis by (simp add: remaining_length_rec last_byte)
  next
    case False
    from 1 [OF False] obtain s b where "remaining_length (n div 128) = s @ [b]" "b \<le> 0x7f" "\<forall>x \<in> set s. \<not> x \<le> 0x7f"
      by blast
    then have "remaining_length n = (more_byte n # s) @ [b] \<and> b \<le> 0x7f \<and> (\<forall>x \<in> set (more_byte n # s). \<not> x \<le> 0x7f)"
      using False by (simp add: remaining_length_rec more_byte_le)
    then show ?thesis by blast
  qed
qed

lemma length_roundtrip:
  assumes "remainSize_loop w [] = Some bs"
  shows "remainLen_loop bs 1 0 = Some (if unat w < 2 ^ 21 then 0 else FAILURE, uint w)"
proof -
  have bs: "bs = remaining_length (unat w)" "length bs \<le> 4"
    using assms by (auto simp: remainSize_loop_eq split: if_splits)
  obtain s b where s: "remaining_length (unat w) = s @ [b]" "b \<le> 0x7f" "\<forall>x \<in> set s. \<not> x \<le> 0x7f"
    using remaining_length_split by blast
  have "varint (s @ [b]) = unat w" using varint_remaining_length [of "unat w"] s(1) by simp
  moreover have "length s = 3 \<longleftrightarrow> \<not> unat w < 2 ^ 21"
    using length_remaining_length [of "unat w" 2] bs s(1) by auto
  ultimately show ?thesis
    using remainLen_loop_eq [OF s(3,2), of 0 "[]" 0] bs s(1) by simp
qed

lemma codec_byte_undefined:
  assumes "codec_at m c f ctx d" "decoder_byte d b = None"
  shows "codec_byte call c b m = None"
proof -
  obtain i where i: "codecs m c = Some i" and R: "represents m i d" using assms(1) by (auto simp: codec_at_def)
  have st: "d_state d = CODEC_STATE_FIXED_HEADER" "d_packet d \<noteq> UNKNOWN_TYPE" "decoder_length d b = None"
    using assms(2) by (auto simp: decoder_byte_def Let_def split: CODEC_STATE_RESULT.splits if_splits option.splits
        Option.bind_splits prod.splits)
  then have "\<not> remainLenIndex i < 4"
    using R by (auto simp: decoder_length_def represents_def Let_def split: if_splits)
  then show ?thesis
    using i R st by (simp add: codec_byte_def prepareheaderDataInfo_def represents_def)
qed

lemma loop_undefined:
  fixes m :: "'z cmem_scheme"
  assumes S: "sink call seen"
  shows "heap_inv m \<Longrightarrow> alloc_total m \<Longrightarrow> codec_at m c f ctx d \<Longrightarrow> ext_bytes m q (length bs) = Some (map Some bs) \<Longrightarrow>
    decoder_run d bs = None \<Longrightarrow> bytesReceived_loop call c q (length bs) m = None"
proof (induction bs arbitrary: m d q)
  case Nil
  then show ?case by simp
next
  case (Cons b bs)
  have rd: "read_byte q m = Some b" and ext: "ext_bytes m (fst q, snd q + 1) (length bs) = Some (map Some bs)"
    using ext_bytes_Suc [of m q "length bs" b bs] Cons.prems(4) by simp_all
  show ?case
  proof (cases "decoder_byte d b")
    case None
    then show ?thesis using rd codec_byte_undefined [OF Cons.prems(3) None, of call] by simp
  next
    case (Some z)
    obtain d1 es1 g1 where B: "decoder_byte d b = Some (d1, es1, g1)" using Some by (cases z) auto
    then have g1 and R: "decoder_run d1 bs = None" using Cons.prems(5) by (auto split: if_splits Option.bind_splits)
    obtain r m1 where b: "codec_byte call c b m = Some (r, m1)" and rec: "received seen c f ctx d1 es1 g1 m (r, m1)"
      using codec_byte_spec [OF Cons.prems(1,3) S B] by (auto simp: ok_iff)
    have r0: "r = 0" "codec_at m1 c f ctx d1" "receiving c m m1"
      using rec \<open>g1\<close> Cons.prems(2) by (auto simp: received_def)
    have "ext_bytes m1 (fst q, snd q + 1) (length bs) = Some (map Some bs)"
      using ext ext_bytes_foreign [of m1 m] r0(3) by (simp add: receiving_def)
    moreover have "heap_inv m1" "alloc_total m1"
      using r0(3) receiving_alloc [OF r0(3)] Cons.prems(2) by (auto simp: receiving_def)
    ultimately have "bytesReceived_loop call c (fst q, snd q + 1) (length bs) m1 = None"
      using Cons.IH r0(2) R by blast
    then show ?thesis using rd b r0(1) by simp
  qed
qed

lemma run_five_bytes:
  assumes "PACKET_TYPE_BYTE b0 \<noteq> PINGRESP_TYPE" "\<forall>b \<in> {b1, b2, b3, b4}. \<not> b \<le> 0x7f"
  shows "decoder_run idle [b0, b1, b2, b3, b4, b5] = None"
proof -
  have "PACKET_TYPE_BYTE b0 \<noteq> UNKNOWN_TYPE"
  proof
    assume "PACKET_TYPE_BYTE b0 = UNKNOWN_TYPE"
    then have "(b0 AND 0xf0) AND 0x0f = (UNKNOWN_TYPE AND 0x0f)" by (simp add: PACKET_TYPE_BYTE_def)
    then show False by (simp add: and.assoc UNKNOWN_TYPE_def)
  qed
  then show ?thesis
    using assms by (simp add: decoder_byte_def decoder_length_def idle_def Let_def)
qed

section \<open>Sample heaps\<close>

definition sample :: smem where
  "sample = \<lparr>grants = \<lambda>_ _. True, brk = 10, blocks = [0 \<mapsto> map Some [0x41, 0x42]], chars = Map.empty,
     buffers = Map.empty, strs = Map.empty\<rparr>"

definition sample_codec :: "u8 list \<Rightarrow> call list cmem_scheme" where
  "sample_codec bs = \<lparr>grants = \<lambda>_ _. True, brk = 10, blocks = [0 \<mapsto> map Some bs], chars = Map.empty,
     buffers = Map.empty, strs = Map.empty, codecs = [5 \<mapsto>
       \<lparr>currPacket = UNKNOWN_TYPE, codecState = CODEC_STATE_FIXED_HEADER, bufferOffset = 0, headerFlags = 0,
        headerData = None, packetComplete = Some 1, callContext = None, storeRemainLen = replicate 4 0, remainLenIndex = 0\<rparr>],
     \<dots> = []\<rparr>"

definition record_call :: "call list on_packet" where
  "record_call f ctx type flags h m =
     Some (cmem.more_update (\<lambda>l. l @ [(f, ctx, Delivery type flags (case h of None \<Rightarrow> None | Some x \<Rightarrow> buf_bytes m x))]) m)"

lemma more_update [simp]:
  fixes m :: "'z cmem_scheme"
  shows "buf_bytes (cmem.more_update g m) = buf_bytes m" "heap_inv (cmem.more_update g m) = heap_inv m"
    "foreign (cmem.more_update g m) = foreign m" "str_rest (cmem.more_update g m) = str_rest m"
proof -
  show b: "buf_bytes (cmem.more_update g m) = buf_bytes m" by (rule ext, rule buf_bytes_cong) simp_all
  show "heap_inv (cmem.more_update g m) = heap_inv m" "foreign (cmem.more_update g m) = foreign m"
    "str_rest (cmem.more_update g m) = str_rest m"
    by (simp_all add: heap_inv_def buf_inv_def str_inv_def wf_mem_def foreign_def owned_def b fun_eq_iff str_rest_def) blast
qed

lemma sample_inv [simp]: "heap_inv sample" "alloc_total sample"
  by (simp_all add: heap_inv_def buf_inv_def str_inv_def wf_mem_def sample_def own_inv_def alloc_total_def buf_bytes_def)

lemma sample_codec_inv [simp]:
  "heap_inv (sample_codec bs)" "alloc_total (sample_codec bs)" "codec_at (sample_codec bs) 5 (Some 1) None idle"
  "cmem.more (sample_codec bs) = []"
  by (simp_all add: heap_inv_def buf_inv_def str_inv_def wf_mem_def sample_codec_def own_inv_def alloc_total_def buf_bytes_def
      codec_at_def represents_def idle_def decoder_inv_def)

lemma sample_bytes [simp]:
  "length bs = n \<Longrightarrow> ext_bytes (sample_codec bs) (0, 0) n = Some (map Some bs)"
  "ext_bytes sample (0, 0) 2 = Some [Some 0x41, Some 0x42]"
  by (simp_all add: ext_bytes_def foreign_def owned_def sample_codec_def sample_def)

lemma record_sink [simp]: "sink record_call (\<lambda>l. l)"
  by (simp add: sink_def record_call_def)

section \<open>Decoding\<close>

text \<open>
  C4: \<open>mqtt_codec_bytesReceived\<close> implements the decoder machine.  When no allocation fails, a
  call on the bytes \<open>bs\<close> returns zero exactly when the machine accepts them, leaves the
  instance in the machine's state, calls the callback once for each delivery and in order,
  and changes no other buffer or decoder.
\<close>

theorem bytesReceived_refines_decoder:
  fixes m :: "'z cmem_scheme"
  assumes "sink call seen" "heap_inv m" "alloc_total m" "codec_at m c f ctx d"
    and "ext_bytes m q (unat n) = Some (map Some bs)" "n \<noteq> 0" "decoder_run d bs = Some (d', es, good)"
  shows "ok (mqtt_codec_bytesReceived call (Some c) (Some q) n m) (\<lambda>(r, m'). receiving c m m' \<and>
    codec_at m' c f ctx d' \<and> (r = 0 \<longleftrightarrow> good) \<and> seen (cmem.more m') = seen (cmem.more m) @ calls f ctx es)"
  by (rule ok_mono [OF bytesReceived_spec [OF assms(1,2,4-7)]]) (use assms(3) in \<open>auto simp: received_def\<close>)

theorem bytesReceived_refines_decoder_witness:
  "ok (mqtt_codec_bytesReceived record_call (Some 5) (Some (0, 0)) 4 (sample_codec [0x40, 2, 0, 7])) (\<lambda>(r, m').
     r = 0 \<and> cmem.more m' = [(1, None, Delivery 0x40 0 (Some [Some 0, Some 7]))])"
proof -
  have run: "decoder_run idle [0x40, 2, 0, 7] = Some (idle, [Delivery 0x40 0 (Some [Some 0, Some 7])], True)"
    using run_packet [of "0x40" 0 "[0, 7]"]
    by (simp add: packet_def fixed_header_def remaining_length.simps type_ok_def flags_ok_def PINGRESP_TYPE_def)
  show ?thesis
    by (rule ok_mono [OF bytesReceived_refines_decoder [OF record_sink sample_codec_inv(1-3) _ _ run]])
      (auto simp: calls_def)
qed

text \<open>
  C5: every packet of a stream is delivered exactly once, with its type, flags and whole
  body, in order; the decoder is idle again afterwards.  (Each packet has a body, of less
  than \<open>2 ^ 21\<close> bytes, and is not a PINGRESP.)
\<close>

theorem stream_delivered:
  fixes m :: "'z cmem_scheme"
  assumes "sink call seen" "heap_inv m" "alloc_total m" "codec_at m c f ctx idle"
    and "\<forall>p \<in> set ps. packet_ok p" "ps \<noteq> []" "ext_bytes m q (unat n) = Some (map Some (stream ps))"
  shows "ok (mqtt_codec_bytesReceived call (Some c) (Some q) n m) (\<lambda>(r, m'). r = 0 \<and> receiving c m m' \<and>
    codec_at m' c f ctx idle \<and> seen (cmem.more m') = seen (cmem.more m) @ calls f ctx (map delivery_of ps))"
proof -
  have "length (stream ps) = unat n" using ext_bytesD(2) [OF assms(7)] by simp
  moreover have "stream ps \<noteq> []"
    using assms(6) by (cases ps) (auto simp: stream_def packet_def fixed_header_def split: prod.splits)
  ultimately have "n \<noteq> 0" by auto
  then show ?thesis
    by (intro ok_mono [OF bytesReceived_spec [OF assms(1,2,4,7) _ run_stream [OF assms(5)]]])
      (use assms(3) in \<open>auto simp: received_def\<close>)
qed

theorem stream_delivered_witness:
  "ok (mqtt_codec_bytesReceived record_call (Some 5) (Some (0, 0)) 8 (sample_codec [0x40, 2, 0, 7, 0x50, 2, 1, 2])) (\<lambda>(r, m').
     r = 0 \<and> cmem.more m' = [(1, None, Delivery 0x40 0 (Some [Some 0, Some 7])),
       (1, None, Delivery 0x50 0 (Some [Some 1, Some 2]))])"
proof -
  let ?ps = "[(0x40, 0, [0, 7]), (0x50, 0, [1, 2])] :: (CONTROL_PACKET_TYPE \<times> u8 \<times> u8 list) list"
  have s: "stream ?ps = [0x40, 2, 0, 7, 0x50, 2, 1, 2]"
    by (simp add: stream_def packet_def fixed_header_def remaining_length.simps)
  have p: "\<forall>p \<in> set ?ps. packet_ok p" by (simp add: packet_ok_def type_ok_def flags_ok_def PINGRESP_TYPE_def)
  show ?thesis
    by (rule ok_mono [OF stream_delivered [OF record_sink sample_codec_inv(1-3) p]])
      (auto simp: s calls_def delivery_of_def)
qed





text \<open>
  C11: a packet whose remaining length needs four bytes (\<open>2 ^ 21\<close> bytes and more) is refused at
  its header: the call returns an error and nothing is delivered, although the builders
  produce such packets.
\<close>

theorem long_packet_refused:
  fixes m :: "'z cmem_scheme"
  assumes "sink call seen" "heap_inv m" "alloc_total m" "codec_at m c f ctx idle"
    and "type_ok type" "flags_ok flags" "2 ^ 21 \<le> len" "len < 2 ^ 28"
    and "ext_bytes m q (unat n) = Some (map Some (fixed_header type flags len @ rest))"
  shows "ok (mqtt_codec_bytesReceived call (Some c) (Some q) n m) (\<lambda>(r, m'). r \<noteq> 0 \<and> receiving c m m' \<and>
    seen (cmem.more m') = seen (cmem.more m))"
proof -
  have "0 < len" using assms(7) by (rule order.strict_trans2 [rotated]) simp
  then have run: "decoder_run idle (fixed_header type flags len @ rest) =
      Some (waiting PACKET_TYPE_ERROR (uint flags) (replicate len None) 0, [], False)"
    using run_header [OF assms(5,6), of len] assms(7,8) by (simp add: decoder_run_append)
  have "length (fixed_header type flags len @ rest) = unat n" using ext_bytesD(2) [OF assms(9)] by simp
  then have "n \<noteq> 0" by (auto simp: fixed_header_def)
  then show ?thesis
    by (intro ok_mono [OF bytesReceived_spec [OF assms(1,2,4,9) _ run]]) (use assms(3) in \<open>auto simp: received_def\<close>)
qed

theorem long_packet_refused_witness:
  "ok (mqtt_codec_bytesReceived record_call (Some 5) (Some (0, 0)) 5 (sample_codec [0x30, 0x80, 0x80, 0x80, 1]))
    (\<lambda>(r, m'). r \<noteq> 0 \<and> cmem.more m' = [])"
proof -
  have h: "fixed_header 0x30 0 2097152 = [0x30, 0x80, 0x80, 0x80, 1]"
    by (simp add: fixed_header_def remaining_length.simps)
  show ?thesis
    by (rule ok_mono [OF long_packet_refused [OF record_sink sample_codec_inv(1-3), where type = "0x30" and flags = 0 and len = 2097152 and q = "(0, 0)" and n = 5 and rest = "[]"]])
      (auto simp: h type_ok_def flags_ok_def PINGRESP_TYPE_def)
qed

text \<open>
  a remaining length of five bytes writes outside of \<open>storeRemainLen\<close>: the call on such
  bytes is undefined.
\<close>

theorem five_length_bytes_undefined:
  fixes m :: "'z cmem_scheme"
  assumes "sink call seen" "heap_inv m" "alloc_total m" "codec_at m c f ctx idle"
    and "ext_bytes m q 6 = Some (map Some [b0, b1, b2, b3, b4, b5])"
    and "PACKET_TYPE_BYTE b0 \<noteq> PINGRESP_TYPE" "\<forall>b \<in> {b1, b2, b3, b4}. \<not> b \<le> 0x7f"
  shows "mqtt_codec_bytesReceived call (Some c) (Some q) 6 m = None"
proof -
  have "length [b0, b1, b2, b3, b4, b5] = 6" by simp
  then show ?thesis
    using loop_undefined [OF assms(1-4), of q "[b0, b1, b2, b3, b4, b5]"] assms(5) run_five_bytes [OF assms(6,7)]
    by (simp only: mqtt_codec_bytesReceived_def) simp
qed

theorem five_length_bytes_undefined_witness:
  "mqtt_codec_bytesReceived record_call (Some 5) (Some (0, 0)) 6
     (sample_codec [0x30, 0xff, 0xff, 0xff, 0xff, 1]) = None"
  by (rule five_length_bytes_undefined [OF record_sink sample_codec_inv(1-3),
        where ?b0.0 = "0x30" and ?b1.0 = "0xff" and ?b2.0 = "0xff" and ?b3.0 = "0xff" and ?b4.0 = "0xff" and ?b5.0 = 1])
    (simp_all add: PACKET_TYPE_BYTE_def PINGRESP_TYPE_def)

text \<open>
  C10: the remaining length that \<open>constructFixedHeader\<close> encodes is what
  \<open>prepareheaderDataInfo\<close> decodes, with success up to three bytes and an error for four.
\<close>

theorem remaining_length_roundtrip:
  assumes "remainSize_loop w [] = Some bs"
  shows "remainLen_loop bs 1 0 = Some (if unat w < 2 ^ 21 then 0 else FAILURE, uint w)"
  using assms by (rule length_roundtrip)

theorem remaining_length_roundtrip_witness:
  "remainSize_loop 321 [] = Some [0xc1, 2] \<and> remainLen_loop [0xc1, 2] 1 0 = Some (0, 321)"
proof -
  have "remainSize_loop 321 [] = Some [0xc1, 2]" by (simp add: remainSize_loop_eq remaining_length.simps)
  then show ?thesis using remaining_length_roundtrip [of 321 "[0xc1, 2]"] by simp
qed

text \<open>
  a PINGRESP is delivered at its first length byte, complete or not: a continuation byte
  there stays stored, and becomes part of the next packet's length.
\<close>

theorem pingresp_delivery:
  fixes m :: "'z cmem_scheme"
  assumes "sink call seen" "heap_inv m" "alloc_total m" "codec_at m c f ctx idle"
    and "ext_bytes m q 2 = Some [Some 0xD0, Some b]" "b = 0 \<or> \<not> b \<le> 0x7f"
  shows "ok (mqtt_codec_bytesReceived call (Some c) (Some q) 2 m) (\<lambda>(r, m'). r = 0 \<and>
    codec_at m' c f ctx (idle\<lparr>d_stored := if b = 0 then [] else [b]\<rparr>) \<and>
    seen (cmem.more m') = seen (cmem.more m) @ calls f ctx [Delivery PINGRESP_TYPE 0 None])"
proof -
  have run: "decoder_run idle [0xD0, b] =
      Some (idle\<lparr>d_stored := if b = 0 then [] else [b]\<rparr>, [Delivery PINGRESP_TYPE 0 None], True)"
    using assms(6)
    by (auto simp: decoder_byte_def decoder_length_def deliver_def idle_def Let_def PACKET_TYPE_BYTE_def
        FLAG_VALUE_BYTE_def UNKNOWN_TYPE_def PINGRESP_TYPE_def)
  show ?thesis
    by (rule ok_mono [OF bytesReceived_spec [OF assms(1,2,4) _ _ run]])
      (use assms(3,5) in \<open>auto simp: received_def\<close>)
qed

theorem pingresp_delivery_witness:
  "ok (mqtt_codec_bytesReceived record_call (Some 5) (Some (0, 0)) 2 (sample_codec [0xD0, 0x80])) (\<lambda>(r, m'). r = 0 \<and>
    codec_at m' 5 (Some 1) None (idle\<lparr>d_stored := [0x80]\<rparr>) \<and> cmem.more m' = [(1, None, Delivery PINGRESP_TYPE 0 None)])"
  by (rule ok_mono [OF pingresp_delivery [OF record_sink sample_codec_inv(1-3), where b = "0x80" and q = "(0, 0)"]])
    (auto simp: calls_def)

text \<open>
  a packet other than PINGRESP with the remaining length 0 is never delivered: the byte
  after it is swallowed and the one after that is an error.
\<close>

theorem empty_packet_lost:
  fixes m :: "'z cmem_scheme"
  assumes "sink call seen" "heap_inv m" "alloc_total m" "codec_at m c f ctx idle"
    and "type_ok type" "flags_ok flags" "ext_bytes m q 4 = Some (map Some [type OR flags, 0, x, y])"
  shows "ok (mqtt_codec_bytesReceived call (Some c) (Some q) 4 m) (\<lambda>(r, m'). r \<noteq> 0 \<and>
    seen (cmem.more m') = seen (cmem.more m))"
proof -
  have "\<exists>d. decoder_run idle [type OR flags, 0, x, y] = Some (d, [], False)"
    using assms(5,6) run_type [of type flags] type_not_unknown [of type] error_not_pingresp
    by (auto simp: type_ok_def decoder_byte_def decoder_length_def reading_def Let_def)
  then obtain d where run: "decoder_run idle [type OR flags, 0, x, y] = Some (d, [], False)" ..
  show ?thesis
    by (rule ok_mono [OF bytesReceived_spec [OF assms(1,2,4) _ _ run]])
      (use assms(3,7) in \<open>auto simp: received_def\<close>)
qed

theorem empty_packet_lost_witness:
  "ok (mqtt_codec_bytesReceived record_call (Some 5) (Some (0, 0)) 4 (sample_codec [0xB0, 0, 0x40, 2]))
    (\<lambda>(r, m'). r \<noteq> 0 \<and> cmem.more m' = [])"
  by (rule ok_mono [OF empty_packet_lost [OF record_sink sample_codec_inv(1-3), where type = "0xB0" and flags = 0
        and q = "(0, 0)" and x = "0x40" and y = 2]])
    (auto simp: type_ok_def flags_ok_def PINGRESP_TYPE_def)

section \<open>Encoding\<close>

text \<open>
  C7: with a client id and options that are absent or not empty, \<open>mqtt_codec_connect\<close> builds
  the CONNECT packet of MQTT 3.1.1, or returns NULL and leaves every buffer as it was; it
  fails only for want of memory or when a string is longer than 65535 bytes, a password has
  no user name, or only one of will topic and will message is present.
\<close>

theorem connect_builds_packet:
  assumes "heap_inv m" "log_ok t m" "options_are m opts cs"
  shows "ok (mqtt_codec_connect (Some opts) t m) (\<lambda>(r, m').
    (r = None \<and> (connect_valid cs \<longrightarrow> \<not> alloc_total m) \<and> buf_bytes m' = buf_bytes m \<or>
     (\<exists>h. r = Some h \<and> connect_valid cs \<and> buf_bytes m h = None \<and>
        buf_bytes m' = (buf_bytes m)(h \<mapsto> map Some (packet CONNECT_TYPE 0
          (utf (lit ''MQTT'') @ [4, connect_flags opts cs] @ be16 (keepAliveInterval opts) @ utf (cs_client cs) @
           opt_utf (cs_topic cs) @ opt_utf (cs_message cs) @ opt_utf (cs_user cs) @ opt_utf (cs_password cs))))))
    \<and> heap_inv m')"
proof (rule ok_mono [OF Connect_spec [OF assms]])
  fix r assume "connected t m (packet CONNECT_TYPE 0 (connect_body opts cs)) (connect_valid cs) r"
  then show "case r of (r, m') \<Rightarrow>
    (r = None \<and> (connect_valid cs \<longrightarrow> \<not> alloc_total m) \<and> buf_bytes m' = buf_bytes m \<or>
     (\<exists>h. r = Some h \<and> connect_valid cs \<and> buf_bytes m h = None \<and>
        buf_bytes m' = (buf_bytes m)(h \<mapsto> map Some (packet CONNECT_TYPE 0
          (utf (lit ''MQTT'') @ [4, connect_flags opts cs] @ be16 (keepAliveInterval opts) @ utf (cs_client cs) @
           opt_utf (cs_topic cs) @ opt_utf (cs_message cs) @ opt_utf (cs_user cs) @ opt_utf (cs_password cs))))))
    \<and> heap_inv m'"
    using connect_layout [of cs opts]
    by (cases r) (auto simp: connected_def built_def dropped_def enc_effect_def tracing_def connect_valid_def)
qed

definition sample_options :: MQTT_CLIENT_OPTIONS where
  "sample_options = \<lparr>clientId = Some (Literal [0x61]), willTopic = None, willMessage = None,
     username = Some (Literal [0x62]), password = None, keepAliveInterval = 20, messageRetain = False,
     useCleanSession = True, qualityOfServiceValue = DELIVER_AT_MOST_ONCE, log_trace = False\<rparr>"

theorem connect_builds_packet_witness:
  "ok (mqtt_codec_connect (Some sample_options) None sample) (\<lambda>(r, m'). \<exists>h. r = Some h \<and> buf_bytes m' =
    (buf_bytes sample)(h \<mapsto> map Some [0x10, 16, 0, 4, 0x4d, 0x51, 0x54, 0x54, 4, 0x82, 0, 20, 0, 1, 0x61, 0, 1, 0x62]))"
proof -
  let ?cs = "\<lparr>cs_client = [0x61], cs_topic = [], cs_message = [], cs_user = [0x62], cs_password = []\<rparr>"
  have O: "options_are sample sample_options ?cs"
    by (simp add: options_are_def opt_is_def sample_options_def ext_string_def)
  show ?thesis
    by (rule ok_mono [OF connect_builds_packet [OF sample_inv(1) log_ok_NULL O]])
      (auto simp: connect_valid_def packet_def fixed_header_def remaining_length.simps utf_def be16_def lit_def opt_utf_def
        connect_flags_def sample_options_def c_consts)
qed

text \<open>
  C6: a PUBLISH packet built from a topic and a payload is decoded to exactly one delivery of
  type PUBLISH with the flags and the bytes of the packet.
\<close>

theorem publish_roundtrip:
  assumes "heap_inv m" "log_ok t m" "publish_source tn topic msg len payload m"
    and "length (publish_header topic qos pid @ payload) < 2 ^ 21"
  shows "ok (mqtt_codec_publish qos dup retain pid (Some tn) msg len t m) (\<lambda>(r, m').
    r = None \<and> (length topic \<le> 65535 \<longrightarrow> \<not> alloc_total m) \<or>
    (\<exists>h bs. r = Some h \<and> buf_bytes m' h = Some (map Some bs) \<and> decoder_run idle bs = Some (idle,
       [Delivery PUBLISH_TYPE (uint (publish_flags qos dup retain))
          (Some (map Some (publish_header topic qos pid @ payload)))], True)))"
  by (rule publish.delivered [OF assms])

theorem publish_roundtrip_witness:
  "ok (mqtt_codec_publish DELIVER_AT_LEAST_ONCE False False 7 (Some (Literal [0x74])) (Some (0, 0)) 2 None sample)
    (\<lambda>(r, m'). \<exists>h bs. r = Some h \<and> buf_bytes m' h = Some (map Some bs) \<and> decoder_run idle bs = Some (idle,
       [Delivery PUBLISH_TYPE 2 (Some (map Some [0, 1, 0x74, 0, 7, 0x41, 0x42]))], True))"
proof -
  have S: "publish_source (Literal [0x74]) [0x74] (Some (0, 0)) 2 [0x41, 0x42] sample"
    by (simp add: publish_source_def ext_string_def)
  show ?thesis
    by (rule ok_mono [OF publish_roundtrip [OF sample_inv(1) log_ok_NULL S, of DELIVER_AT_LEAST_ONCE 7 False False]])
      (auto simp: publish_header_def utf_def be16_def publish_flags_def c_consts)
qed

text \<open>
  a SUBSCRIBE packet built from a list of topics, each with its QoS, is decoded to one
  delivery that carries the packet id and the list; a topic of more than 65535 bytes is
  refused.
\<close>

theorem subscribe_roundtrip:
  assumes "heap_inv m" "log_ok t m" "subscribe_source items ss m"
    and "length (be16 pid @ subscribe_payload (zip ss (map qosReturn items))) < 2 ^ 21"
  shows "ok (mqtt_codec_subscribe pid (Some items) (of_nat (length items)) t m) (\<lambda>(r, m').
    r = None \<and> (topics_fit ss \<longrightarrow> \<not> alloc_total m) \<or>
    (\<exists>h bs. r = Some h \<and> buf_bytes m' h = Some (map Some bs) \<and> decoder_run idle bs = Some (idle,
       [Delivery SUBSCRIBE_TYPE (uint SUBSCRIBE_FIXED_HEADER_FLAG)
          (Some (map Some (be16 pid @ subscribe_payload (zip ss (map qosReturn items)))))], True)))"
  by (rule subscribe.delivered [OF assms])

theorem subscribe_roundtrip_witness:
  "ok (mqtt_codec_subscribe 9 (Some [\<lparr>subscribeTopic = Some (Literal [0x74]), qosReturn = 1\<rparr>]) 1 None sample)
    (\<lambda>(r, m'). \<exists>h bs. r = Some h \<and> buf_bytes m' h = Some (map Some bs) \<and> decoder_run idle bs = Some (idle,
       [Delivery SUBSCRIBE_TYPE 2 (Some (map Some [0, 9, 0, 1, 0x74, 1]))], True))"
proof -
  let ?items = "[\<lparr>subscribeTopic = Some (Literal [0x74]), qosReturn = 1\<rparr>]"
  have S: "subscribe_source ?items [[0x74]] sample"
    by (simp add: subscribe_source_def topic_at_def ext_string_def)
  show ?thesis
    using subscribe_roundtrip [OF sample_inv(1) log_ok_NULL S, of 9]
    by (simp add: subscribe_payload_def topics_fit_def be16_def utf_def SUBSCRIBE_FIXED_HEADER_FLAG_def)
qed

text \<open>
  an UNSUBSCRIBE packet built from a list of topics is decoded to one delivery that
  carries the packet id and the topics.
\<close>

theorem unsubscribe_roundtrip:
  assumes "heap_inv m" "log_ok t m" "unsubscribe_source items ss m"
    and "length (be16 pid @ unsubscribe_payload ss) < 2 ^ 21"
  shows "ok (mqtt_codec_unsubscribe pid (Some items) (of_nat (length items)) t m) (\<lambda>(r, m').
    r = None \<and> (topics_fit ss \<longrightarrow> \<not> alloc_total m) \<or>
    (\<exists>h bs. r = Some h \<and> buf_bytes m' h = Some (map Some bs) \<and> decoder_run idle bs = Some (idle,
       [Delivery UNSUBSCRIBE_TYPE (uint UNSUBSCRIBE_FIXED_HEADER_FLAG)
          (Some (map Some (be16 pid @ unsubscribe_payload ss)))], True)))"
  by (rule unsubscribe.delivered [OF assms])

theorem unsubscribe_roundtrip_witness:
  "ok (mqtt_codec_unsubscribe 9 (Some [Some (Literal [0x74])]) 1 None sample)
    (\<lambda>(r, m'). \<exists>h bs. r = Some h \<and> buf_bytes m' h = Some (map Some bs) \<and> decoder_run idle bs = Some (idle,
       [Delivery UNSUBSCRIBE_TYPE 2 (Some (map Some [0, 9, 0, 1, 0x74]))], True))"
proof -
  have S: "unsubscribe_source [Some (Literal [0x74])] [[0x74]] sample"
    by (simp add: unsubscribe_source_def topic_at_def ext_string_def)
  show ?thesis
    using unsubscribe_roundtrip [OF sample_inv(1) log_ok_NULL S, of 9]
    by (simp add: unsubscribe_payload_def topics_fit_def be16_def utf_def UNSUBSCRIBE_FIXED_HEADER_FLAG_def)
qed

definition acknowledged ::
  "'z smem_scheme \<Rightarrow> CONTROL_PACKET_TYPE \<Rightarrow> u8 \<Rightarrow> u16 \<Rightarrow> ptr \<times> 'z smem_scheme \<Rightarrow> bool" where
  "acknowledged m type flags pid = (\<lambda>(r, m'). r = None \<and> \<not> alloc_total m \<or>
    (\<exists>h bs. r = Some h \<and> buf_bytes m' h = Some (map Some bs) \<and>
       decoder_run idle bs = Some (idle, [Delivery type (uint flags) (Some (map Some (be16 pid)))], True)))"

text \<open>
  the acknowledgements PUBACK, PUBREC, PUBREL and PUBCOMP carry the packet id, PUBREL
  with the flags the standard asks for, and each is decoded to one delivery.
\<close>

theorem acknowledgements_roundtrip:
  assumes "heap_inv m"
  shows "ok (mqtt_codec_publishAck pid m) (acknowledged m PUBACK_TYPE 0 pid) \<and>
    ok (mqtt_codec_publishReceived pid m) (acknowledged m PUBREC_TYPE 0 pid) \<and>
    ok (mqtt_codec_publishRelease pid m) (acknowledged m PUBREL_TYPE 2 pid) \<and>
    ok (mqtt_codec_publishComplete pid m) (acknowledged m PUBCOMP_TYPE 0 pid)"
proof -
  have l: "length (be16 pid) < 2 ^ 21" by (simp add: be16_def)
  show ?thesis
    using puback.delivered [OF assms log_ok_NULL TrueI l] pubrec.delivered [OF assms log_ok_NULL TrueI l]
      pubrel.delivered [OF assms log_ok_NULL TrueI l] pubcomp.delivered [OF assms log_ok_NULL TrueI l]
    unfolding acknowledged_def simp_thms by blast
qed

theorem acknowledgements_roundtrip_witness:
  "ok (mqtt_codec_publishRelease 258 sample) (\<lambda>(r, m'). \<exists>h bs. r = Some h \<and> buf_bytes m' h = Some (map Some bs) \<and>
     decoder_run idle bs = Some (idle, [Delivery PUBREL_TYPE 2 (Some [Some 1, Some 2])], True))"
  using acknowledgements_roundtrip [OF sample_inv(1), of 258] by (simp add: acknowledged_def be16_def)

text \<open>
  building a PUBLISH packet and deleting what was built leaves the buffers as they were,
  also when memory runs out on the way.
\<close>

theorem publish_leaves_nothing:
  assumes "heap_inv m" "log_ok t m" "publish_source tn topic msg len payload m"
  shows "ok (mqtt_codec_publish qos dup retain pid (Some tn) msg len t m \<bind> (\<lambda>(r, m). BUFFER_delete r m))
    (\<lambda>m'. heap_inv m' \<and> buf_bytes m' = buf_bytes m)"
  by (rule publish.released [OF assms])

theorem publish_leaves_nothing_witness:
  "ok (mqtt_codec_publish DELIVER_AT_MOST_ONCE False True 0 (Some (Literal [0x74])) None 0 None sample \<bind>
      (\<lambda>(r, m). BUFFER_delete r m)) (\<lambda>m'. heap_inv m' \<and> buf_bytes m' = buf_bytes sample)"
proof -
  have S: "publish_source (Literal [0x74]) [0x74] None 0 [] sample"
    by (simp add: publish_source_def ext_string_def)
  show ?thesis by (rule publish_leaves_nothing [OF sample_inv(1) log_ok_NULL S])
qed

text \<open>
  a packet body of \<open>2 ^ 28\<close> bytes or more makes \<open>constructFixedHeader\<close> write past its
  array of four length bytes.
\<close>

theorem fixed_header_overflow:
  assumes "buf_bytes m h = Some (map Some bs)" "2 ^ 28 \<le> length bs"
  shows "constructFixedHeader (Some h) type flags m = None"
  using assms by (rule FixedHeader_overflow)

definition sample_huge :: smem where
  "sample_huge = sample\<lparr>blocks := [1 \<mapsto> map Some (replicate (2 ^ 28) 0)],
     buffers := [2 \<mapsto> \<lparr>buffer = Some 1, buf_size = 2 ^ 28\<rparr>]\<rparr>"

theorem fixed_header_overflow_witness: "constructFixedHeader (Some 2) PUBLISH_TYPE 0 sample_huge = None"
proof (rule fixed_header_overflow)
  show "buf_bytes sample_huge 2 = Some (map Some (replicate (2 ^ 28) 0))"
    by (simp add: buf_bytes_def sample_huge_def del: replicate.simps(2))
qed simp

end
