(* ===== verification/Heap_Properties.thy ===== *)
theory Heap_Properties
  imports Effects
begin

text \<open>
  The properties of the byte buffers (\<^verbatim>\<open>buffer.c\<close>) and of the strings (\<^verbatim>\<open>strings.c\<close>), each
  with a witness on a concrete heap.
\<close>

section \<open>Sample heap\<close>

text \<open>Two buffers, 1 with two bytes and 3 with one, and two strings, 5 and 7.\<close>

definition sample_heap :: smem where
  "sample_heap = \<lparr>grants = \<lambda>_ _. True, brk = 10, blocks = [2 \<mapsto> [Some 1, Some 2], 4 \<mapsto> [Some 3]],
     chars = [6 \<mapsto> cstr [0x61, 0x62], 8 \<mapsto> cstr [0x63]],
     buffers = [1 \<mapsto> \<lparr>buffer = Some 2, buf_size = 2\<rparr>, 3 \<mapsto> \<lparr>buffer = Some 4, buf_size = 1\<rparr>],
     strs = [5 \<mapsto> \<lparr>str_s = Some 6\<rparr>, 7 \<mapsto> \<lparr>str_s = Some 8\<rparr>]\<rparr>"

lemma sample_heap_buffers [simp]:
  "buf_bytes sample_heap 1 = Some [Some 1, Some 2]" "buf_bytes sample_heap 3 = Some [Some 3]"
  "buffers sample_heap 1 = Some \<lparr>buffer = Some 2, buf_size = 2\<rparr>"
  "buffers sample_heap 3 = Some \<lparr>buffer = Some 4, buf_size = 1\<rparr>"
  by (simp_all add: buf_bytes_def sample_heap_def)

lemma sample_heap_strings [simp]:
  "str_vals sample_heap 5 = Some [0x61, 0x62]" "str_vals sample_heap 7 = Some [0x63]" "alloc_total sample_heap"
  by (simp_all add: str_vals_def own_vals_def array_of_def str_val_def sample_heap_def cstr_def alloc_total_def)

lemma sample_heap_inv [simp]: "buf_inv sample_heap" "str_inv sample_heap"
  by (auto simp: buf_inv_def str_inv_def wf_mem_def own_inv_def sample_heap_def buf_bytes_def own_vals_def array_of_def
      str_val_def cstr_def)

section \<open>Byte buffers\<close>

lemma buf_content:
  assumes "buf_bytes m h = Some xs" "xs \<noteq> []"
  obtains b where "buffers m h = Some b" "buffer b \<noteq> None"
  using assms by (auto elim!: buf_bytes_cases)

text \<open>
  C23: \<open>BUFFER_append\<close> adds the bytes of the second buffer at the end of the first, or fails
  for want of memory and changes nothing; no other buffer and no foreign memory changes.
\<close>

theorem buffer_append:
  assumes "buf_inv m" "buf_bytes m h1 = Some xs" "buf_bytes m h2 = Some ys" "h1 \<noteq> h2" "xs \<noteq> []" "ys \<noteq> []"
    and "length xs + length ys < 2 ^ 32"
  shows "ok (BUFFER_append (Some h1) (Some h2) m) (\<lambda>(r, m').
    r \<noteq> 0 \<and> \<not> alloc_total m \<and> buf_effect m (buf_bytes m) m' \<or>
    r = 0 \<and> buf_effect m ((buf_bytes m)(h1 \<mapsto> xs @ ys)) m')"
proof -
  obtain b1 b2 where "buffers m h1 = Some b1" "buffer b1 \<noteq> None" "buffers m h2 = Some b2" "buffer b2 \<noteq> None"
    using buf_content assms(2,3,5,6) by metis
  then show ?thesis using BUFFER_append_spec [OF assms(1-3)] assms(4,7) by simp
qed

theorem buffer_append_witness:
  "ok (BUFFER_append (Some 1) (Some 3) sample_heap) (\<lambda>(r, m').
    r = 0 \<and> buf_bytes m' = (buf_bytes sample_heap)(1 \<mapsto> [Some 1, Some 2, Some 3]))"
  by (rule ok_mono [OF buffer_append [OF sample_heap_inv(1) sample_heap_buffers(1,2)]]) (auto simp: buf_effect_def)

text \<open>
  \<open>BUFFER_prepend\<close> puts the bytes of the second buffer in front of those of the first, or
  fails for want of memory and changes nothing.
\<close>

theorem buffer_prepend:
  assumes "buf_inv m" "buf_bytes m h1 = Some xs" "buf_bytes m h2 = Some ys" "h1 \<noteq> h2" "xs \<noteq> []" "ys \<noteq> []"
    and "length xs + length ys < 2 ^ 32"
  shows "ok (BUFFER_prepend (Some h1) (Some h2) m) (\<lambda>(r, m').
    r \<noteq> 0 \<and> \<not> alloc_total m \<and> buf_effect m (buf_bytes m) m' \<or>
    r = 0 \<and> buf_effect m ((buf_bytes m)(h1 \<mapsto> ys @ xs)) m')"
proof -
  obtain b1 b2 where "buffers m h1 = Some b1" "buffer b1 \<noteq> None" "buffers m h2 = Some b2" "buffer b2 \<noteq> None"
    using buf_content assms(2,3,5,6) by metis
  then show ?thesis using BUFFER_prepend_spec [OF assms(1-3)] assms(4,7) by simp
qed

theorem buffer_prepend_witness:
  "ok (BUFFER_prepend (Some 1) (Some 3) sample_heap) (\<lambda>(r, m').
    r = 0 \<and> buf_bytes m' = (buf_bytes sample_heap)(1 \<mapsto> [Some 3, Some 1, Some 2]))"
  by (rule ok_mono [OF buffer_prepend [OF sample_heap_inv(1) sample_heap_buffers(1,2)]]) (auto simp: buf_effect_def)

text \<open>
  shrinking a buffer by what was just appended, from its end, gives the buffer back.
\<close>

theorem append_then_shrink:
  assumes inv: "buf_inv m" and h1: "buf_bytes m h1 = Some xs" and h2: "buf_bytes m h2 = Some ys"
    and ne: "h1 \<noteq> h2" "xs \<noteq> []" "ys \<noteq> []" and len: "length xs + length ys < 2 ^ 32" and tot: "alloc_total m"
  shows "ok (BUFFER_append (Some h1) (Some h2) m \<bind> (\<lambda>(r, m). BUFFER_shrink (Some h1) (of_nat (length ys)) True m))
    (\<lambda>(r, m'). r = 0 \<and> buf_bytes m' = buf_bytes m)"
proof -
  have A: "ok (BUFFER_append (Some h1) (Some h2) m) (\<lambda>(r, m'). r = 0 \<and> buf_effect m ((buf_bytes m)(h1 \<mapsto> xs @ ys)) m')"
  proof -
    obtain b1 b2 where "buffers m h1 = Some b1" "buffer b1 \<noteq> None" "buffers m h2 = Some b2" "buffer b2 \<noteq> None"
      using buf_content h1 h2 ne by metis
    from BUFFER_append_spec [OF inv h1 h2 this ne(1) len] show ?thesis using tot by (auto simp: ok_iff)
  qed
  have n: "unat (of_nat (length ys) :: u32) = length ys" using len by (simp add: unat_eq_of_nat [OF refl])
  then have nz: "(of_nat (length ys) :: u32) \<noteq> 0" using ne(3) by (auto simp flip: unat_eq_0_u32)
  show ?thesis
  proof (rule ok_bind2I [OF A])
    fix r m1 assume E: "case (r, m1) of (r, m') \<Rightarrow> r = 0 \<and> buf_effect m ((buf_bytes m)(h1 \<mapsto> xs @ ys)) m'"
    then have m1: "buf_inv m1" "buf_bytes m1 h1 = Some (xs @ ys)" "alloc_total m1"
      using tot by (auto simp: buf_effect_def buf_frame_def alloc_total_def)
    from BUFFER_shrink_spec [OF m1(1,2) nz, of True] n m1(3) E h1
    show "ok (case (r, m1) of (r, m) \<Rightarrow> BUFFER_shrink (Some h1) (of_nat (length ys)) True m)
      (\<lambda>(r, m'). r = 0 \<and> buf_bytes m' = buf_bytes m)"
      by (auto simp: buf_effect_def ok_iff fun_upd_idem)
  qed
qed

theorem append_then_shrink_witness:
  "ok (BUFFER_append (Some 1) (Some 3) sample_heap \<bind> (\<lambda>(r, m). BUFFER_shrink (Some 1) 1 True m))
    (\<lambda>(r, m'). r = 0 \<and> buf_bytes m' = buf_bytes sample_heap)"
  using append_then_shrink [OF sample_heap_inv(1) sample_heap_buffers(1,2)] by simp

text \<open>
  \<open>BUFFER_clone\<close> gives a new buffer with the same bytes.  When it fails, it either leaves
  the buffers as they were, or leaks an empty one: the branch where the copy of the bytes
  cannot be allocated does not free the struct.
\<close>

theorem buffer_clone:
  assumes "buf_inv m" "buf_bytes m h = Some xs"
  shows "ok (BUFFER_clone (Some h) m) (\<lambda>(r, m'). buf_inv m' \<and>
    (case r of Some h' \<Rightarrow> buf_bytes m h' = None \<and> buf_bytes m' = (buf_bytes m)(h' \<mapsto> xs)
     | None \<Rightarrow> \<not> alloc_total m \<and> (buf_bytes m' = buf_bytes m \<or>
         (\<exists>h'. buf_bytes m h' = None \<and> buf_bytes m' = (buf_bytes m)(h' \<mapsto> [])))))"
  by (rule ok_mono [OF BUFFER_clone_spec [OF assms]]) (auto simp: buf_effect_def)

theorem buffer_clone_witness:
  "ok (BUFFER_clone (Some 1) sample_heap) (\<lambda>(r, m'). \<exists>h'. r = Some h' \<and> buf_bytes m' h' = Some [Some 1, Some 2])"
  by (rule ok_mono [OF buffer_clone [OF sample_heap_inv(1) sample_heap_buffers(1)]])
    (auto split: option.splits)

section \<open>Strings\<close>

text \<open>
  \<open>STRING_concat_with_STRING\<close> of two strings appends the second to the first, or fails for
  want of memory and changes no string.
\<close>

theorem string_concat:
  assumes "str_inv m" "str_vals m h = Some s" "str_vals m g = Some t" "g \<noteq> h" "length s + length t < 2 ^ 32 - 1"
  shows "ok (STRING_concat_with_STRING (Some h) (Some g) m) (\<lambda>(r, m'). str_inv m' \<and>
    (r = 0 \<and> str_vals m' = (str_vals m)(h \<mapsto> s @ t) \<or> r \<noteq> 0 \<and> \<not> alloc_total m \<and> str_vals m' = str_vals m))"
  by (rule ok_mono [OF STRING_concat_with_STRING_spec [OF assms]]) (auto simp: str_updated_def str_effect_def)

theorem string_concat_witness:
  "ok (STRING_concat_with_STRING (Some 5) (Some 7) sample_heap) (\<lambda>(r, m').
    r = 0 \<and> str_vals m' = (str_vals sample_heap)(5 \<mapsto> [0x61, 0x62, 0x63]))"
  by (rule ok_mono [OF string_concat [OF sample_heap_inv(2) sample_heap_strings(1,2)]]) auto

text \<open>
  appending a string to itself is undefined: after the array was moved by \<open>realloc\<close> the
  source and the destination of the \<open>memcpy\<close> overlap.
\<close>

theorem string_concat_self:
  assumes "str_vals m h = Some s" "length s + length s < 2 ^ 32 - 1" "alloc_total m"
  shows "STRING_concat_with_STRING (Some h) (Some h) m = None"
  using assms by (rule STRING_concat_with_STRING_self)

theorem string_concat_self_witness: "STRING_concat_with_STRING (Some 5) (Some 5) sample_heap = None"
  by (rule string_concat_self [OF sample_heap_strings(1)]) simp_all

text \<open>
  \<open>STRING_new_JSON\<close> of an ASCII string gives the string in quotes, with the control
  characters as \<open>\u00XX\<close> and the quote, the backslash and the slash escaped.
\<close>

theorem string_new_JSON:
  assumes "str_inv m" "c_string p m = Some s" "\<forall>c \<in> set s. c < 128" "6 * length s < 2 ^ 32 - 3"
  shows "ok (STRING_new_JSON (Some p) m) (\<lambda>(r, m'). str_inv m' \<and>
    (case r of None \<Rightarrow> \<not> alloc_total m \<and> str_vals m' = str_vals m
     | Some h \<Rightarrow> str_vals m h = None \<and> str_vals m' = (str_vals m)(h \<mapsto> json_text s)))"
  by (rule ok_mono [OF STRING_new_JSON_spec [OF assms]]) (auto simp: str_created_def str_effect_def)

theorem string_new_JSON_witness:
  "ok (STRING_new_JSON (Some (Literal [0x61, 0x22, 0x0A])) sample_heap) (\<lambda>(r, m'). \<exists>h. r = Some h \<and>
    str_vals m' h = Some [0x22, 0x61, 0x5C, 0x22, 0x5C, 0x75, 0x30, 0x30, 0x30, 0x41, 0x22])"
proof -
  have c: "c_string (Literal [0x61, 0x22, 0x0A]) sample_heap = Some [0x61, 0x22, 0x0A]"
    by (simp add: c_string_def)
  have j: "json_text [0x61, 0x22, 0x0A] = [0x22, 0x61, 0x5C, 0x22, 0x5C, 0x75, 0x30, 0x30, 0x30, 0x41, 0x22]"
    by code_simp
  show ?thesis
    by (rule ok_mono [OF string_new_JSON [OF sample_heap_inv(2) c]]) (auto simp: j split: option.splits)
qed

text \<open>
  \<open>STRING_compare\<close> of two strings is zero exactly when they are equal, and swapping the
  arguments changes the sign.
\<close>

theorem string_compare:
  assumes "str_vals m h = Some s" "str_vals m g = Some t"
  shows "\<exists>r. STRING_compare (Some h) (Some g) m = Some r \<and> STRING_compare (Some g) (Some h) m = Some (- r) \<and>
    (r = 0 \<longleftrightarrow> s = t)"
  using STRING_compare_spec [OF assms] STRING_compare_spec [OF assms(2,1)] strcmp_swap [of t s] strcmp_0 [of s t] by simp

theorem string_compare_witness:
  "\<exists>r. STRING_compare (Some 5) (Some 7) sample_heap = Some r \<and> STRING_compare (Some 7) (Some 5) sample_heap = Some (- r) \<and> r \<noteq> 0"
  using string_compare [OF sample_heap_strings(1,2)] by simp

end
