(* ===== verification/Crt.thy ===== *)
theory Crt
  imports Memory
begin

text \<open>
  The checked string functions and the number conversions of
  \<^verbatim>\<open>uMQTT/ports/src/crt_abstractions.c\<close>, on the character arrays of the heap.  A pointer
  that only moves forward over the bytes of a string (\<open>runner\<close>) is the list of the bytes from
  it on.
\<close>

type_synonym u64 = "64 word"

text \<open>The error numbers of the C library, and the two constants of \<^verbatim>\<open>crt_abstractions.h\<close>.\<close>

definition EINVAL :: int where "EINVAL = 22"
definition ERANGE :: int where "ERANGE = 34"
definition ENOMEM :: int where "ENOMEM = 12"
definition TRUNCATE :: u32 where "TRUNCATE = - 1"
definition STRUNCATE :: int where "STRUNCATE = 80"

lemmas crt_consts [c_consts] = EINVAL_def ERANGE_def ENOMEM_def TRUNCATE_def STRUNCATE_def

section \<open>Copying\<close>

text \<open>
  What \<open>strncpy\<close> stores for \<open>n\<close> characters: the source up to its zero, then zeros.  The second
  component is the number of characters read, for the overlap check.
\<close>

fun strncpy_bytes :: "nat \<Rightarrow> mbyte list \<Rightarrow> (mbyte list \<times> nat) option" where
  "strncpy_bytes 0 bs = Some ([], 0)"
| "strncpy_bytes (Suc n) (Some c # bs) =
     (if c = 0 then Some (replicate (Suc n) (Some 0), 1)
      else map_option (\<lambda>(xs, r). (Some c # xs, Suc r)) (strncpy_bytes n bs))"
| "strncpy_bytes (Suc n) _ = None"

fun ranges_meet :: "bptr \<Rightarrow> nat \<Rightarrow> char_ptr \<Rightarrow> nat \<Rightarrow> bool" where
  "ranges_meet (a, i) n (Literal _) r = False"
| "ranges_meet (a, i) n (Chars b j) r = (a = b \<and> i < j + r \<and> j < i + n)"

definition strncpy :: "bptr \<Rightarrow> char_ptr \<Rightarrow> nat \<Rightarrow> 'z mem_scheme \<Rightarrow> 'z mem_scheme option" where
  "strncpy dst src n m = do {
     bs \<leftarrow> char_bytes src m;
     (xs, r) \<leftarrow> strncpy_bytes n bs;
     if ranges_meet dst n src r then None else cwrite dst xs m }"

text \<open>The loop that measures \<open>dst\<close>: at most \<open>n\<close> characters, up to a zero.\<close>

fun bounded_len :: "mbyte list \<Rightarrow> nat \<Rightarrow> nat option" where
  "bounded_len bs 0 = Some 0"
| "bounded_len (Some c # bs) (Suc n) = (if c = 0 then Some 0 else map_option Suc (bounded_len bs n))"
| "bounded_len _ (Suc n) = None"

definition strcat_s ::
  "bptr option \<Rightarrow> u32 \<Rightarrow> char_ptr option \<Rightarrow> 'z mem_scheme \<Rightarrow> (int \<times> 'z mem_scheme) option" where
  "strcat_s dst dstSizeInBytes src m =
     (case dst of
        None \<Rightarrow> Some (EINVAL, m)
      | Some d \<Rightarrow>
          (case src of
             None \<Rightarrow> do { m \<leftarrow> cwrite d [Some 0] m; Some (EINVAL, m) }
           | Some s \<Rightarrow>
               if dstSizeInBytes = 0 then do { m \<leftarrow> cwrite d [Some 0] m; Some (ERANGE, m) }
               else do {
                 bs \<leftarrow> char_bytes (Chars (fst d) (snd d)) m;
                 dstStrLen \<leftarrow> bounded_len bs (unat dstSizeInBytes);
                 if unat dstSizeInBytes = dstStrLen then Some (EINVAL, m)
                 else do {
                   m \<leftarrow> strncpy (fst d, snd d + dstStrLen) s (unat dstSizeInBytes - dstStrLen) m;
                   bs \<leftarrow> cread (Chars (fst d) (snd d)) (unat dstSizeInBytes) m;
                   end \<leftarrow> last bs;
                   if end \<noteq> 0 then do { m \<leftarrow> cwrite d [Some 0] m; Some (ERANGE, m) }
                   else Some (0, m) } }))"

definition strncpy_s ::
  "bptr option \<Rightarrow> u32 \<Rightarrow> char_ptr option \<Rightarrow> u32 \<Rightarrow> 'z mem_scheme \<Rightarrow> (int \<times> 'z mem_scheme) option" where
  "strncpy_s dst dstSizeInBytes src maxCount m =
     (case dst of
        None \<Rightarrow> Some (EINVAL, m)
      | Some d \<Rightarrow>
          (case src of
             None \<Rightarrow> do { m \<leftarrow> cwrite d [Some 0] m; Some (EINVAL, m) }
           | Some s \<Rightarrow>
               if dstSizeInBytes = 0 then Some (EINVAL, m)
               else do {
                 srcLength \<leftarrow> strlen s m;
                 if maxCount \<noteq> TRUNCATE then do {
                   let srcLength = (if srcLength > maxCount then maxCount else srcLength);
                   if srcLength + 1 > dstSizeInBytes then do { m \<leftarrow> cwrite d [Some 0] m; Some (ERANGE, m) }
                   else do {
                     m \<leftarrow> strncpy d s (unat srcLength) m;
                     m \<leftarrow> cwrite (fst d, snd d + unat srcLength) [Some 0] m;
                     Some (0, m) } }
                 else do {
                   let (srcLength, truncationFlag) =
                     (if srcLength + 1 > dstSizeInBytes then (dstSizeInBytes - 1, True) else (srcLength, False));
                   m \<leftarrow> strncpy d s (unat srcLength) m;
                   m \<leftarrow> cwrite (fst d, snd d + unat srcLength) [Some 0] m;
                   Some (if truncationFlag then STRUNCATE else 0, m) } }))"

definition strcpy_s ::
  "bptr option \<Rightarrow> u32 \<Rightarrow> char_ptr option \<Rightarrow> 'z mem_scheme \<Rightarrow> (int \<times> 'z mem_scheme) option" where
  "strcpy_s dst dstSizeInBytes src m =
     (case dst of
        None \<Rightarrow> Some (EINVAL, m)
      | Some d \<Rightarrow>
          (case src of
             None \<Rightarrow> do { m \<leftarrow> cwrite d [Some 0] m; Some (EINVAL, m) }
           | Some s \<Rightarrow>
               if dstSizeInBytes = 0 then do { m \<leftarrow> cwrite d [Some 0] m; Some (ERANGE, m) }
               else do {
                 neededBuffer \<leftarrow> strlen s m;
                 if neededBuffer + 1 > dstSizeInBytes then do { m \<leftarrow> cwrite d [Some 0] m; Some (ERANGE, m) }
                 else do {
                   m \<leftarrow> cmemcpy d s (unat (neededBuffer + 1)) m;
                   Some (0, m) } }))"

text \<open>
  \<open>destination\<close> points to a \<open>char*\<close> of the caller, whose value is passed in and out.  The
  \<open>memset\<close> comes before the test for a failed allocation.
\<close>

definition mallocAndStrcpy_s ::
  "ptr option \<Rightarrow> char_ptr option \<Rightarrow> 'z mem_scheme \<Rightarrow> ((int \<times> ptr option) \<times> 'z mem_scheme) option" where
  "mallocAndStrcpy_s destination source m =
     (if destination = None \<or> source = None then Some ((EINVAL, destination), m)
      else do {
        s \<leftarrow> source;
        l \<leftarrow> strlen s m;
        (temp, m) \<leftarrow> cmalloc (unat (l + 1)) m;
        a \<leftarrow> temp;
        m \<leftarrow> cwrite (a, 0) (replicate (unat (l + 1)) (Some 0)) m;
        if temp = None then Some ((ENOMEM, destination), m)
        else do {
          (copied_result, m) \<leftarrow> strcpy_s (Some (a, 0)) (l + 1) source m;
          if copied_result < 0 then do {
            m \<leftarrow> cfree temp m;
            Some ((copied_result, Some None), m) }
          else Some ((0, Some temp), m) } })"

section \<open>Parsing a number\<close>

definition DIGIT_VAL :: "u8 \<Rightarrow> int" where
  "DIGIT_VAL c =
     (if of_char (CHR ''0'') \<le> c \<and> c \<le> of_char (CHR ''9'') then uint c - of_char (CHR ''0'')
      else if of_char (CHR ''a'') \<le> c \<and> c \<le> of_char (CHR ''z'') then uint c - of_char (CHR ''a'') + 10
      else if of_char (CHR ''A'') \<le> c \<and> c \<le> of_char (CHR ''Z'') then uint c - of_char (CHR ''A'') + 10
      else - 1)"

definition IN_BASE_RANGE :: "int \<Rightarrow> int \<Rightarrow> bool" where
  "IN_BASE_RANGE d b \<longleftrightarrow> d \<ge> 0 \<and> d < b"

definition IS_SPACE :: "u8 \<Rightarrow> bool" where
  "IS_SPACE c \<longleftrightarrow> c = of_char (CHR '' '') \<or> c = 12 \<or> c = 10 \<or> c = 13 \<or> c = 9 \<or> c = 11"

definition ULLONG_MAX :: u64 where "ULLONG_MAX = - 1"

text \<open>\<open>*runner\<close>\<close>

fun deref :: "mbyte list \<Rightarrow> u8 option" where
  "deref [] = None"
| "deref (b # _) = b"

fun skip_spaces :: "mbyte list \<Rightarrow> mbyte list option" where
  "skip_spaces (Some c # bs) = (if IS_SPACE c then skip_spaces bs else Some (Some c # bs))"
| "skip_spaces _ = None"

text \<open>The loop over the digits, entered at a digit in range: \<open>result\<close>, \<open>errno\<close> and \<open>runner\<close>.\<close>

fun digits_loop :: "int \<Rightarrow> u64 \<Rightarrow> int \<Rightarrow> mbyte list \<Rightarrow> (u64 \<times> int \<times> mbyte list) option" where
  "digits_loop base result err (Some c # bs) =
     (if IN_BASE_RANGE (DIGIT_VAL c) base then
        let d = word_of_int (DIGIT_VAL c);
            (result, err) = (if (ULLONG_MAX - d) div word_of_int base < result then (ULLONG_MAX, ERANGE)
                             else (result * word_of_int base + d, err))
        in digits_loop base result err bs
      else Some (result, err, Some c # bs))"
| "digits_loop base result err _ = None"

text \<open>
  The result, what \<open>*endptr\<close> receives (the offset from \<open>nptr\<close>, or NULL for a null \<open>nptr\<close>) and
  \<open>errno\<close>.
\<close>

definition strtoull_s ::
  "char_ptr option \<Rightarrow> int \<Rightarrow> int \<Rightarrow> 'z mem_scheme \<Rightarrow> (u64 \<times> nat option \<times> int) option" where
  "strtoull_s nptr base err m =
     (case nptr of
        None \<Rightarrow> Some (0, None, err)
      | Some p \<Rightarrow>
          if (base \<ge> 2 \<or> base = 0) \<and> base \<le> 36 then do {
            bs \<leftarrow> char_bytes p m;
            runner \<leftarrow> skip_spaces bs;
            c \<leftarrow> deref runner;
            let isNegative = (c = of_char (CHR ''-''));
            let runner = (if c = of_char (CHR ''+'') \<or> c = of_char (CHR ''-'') then tl runner else runner);
            c \<leftarrow> deref runner;
            (base, runner) \<leftarrow>
              (if c = of_char (CHR ''0'') then do {
                 c \<leftarrow> deref (tl runner);
                 if c = of_char (CHR ''x'') \<or> c = of_char (CHR ''X'') then
                   Some (if base = 0 \<or> base = 16 then (16, tl (tl runner)) else (base, runner))
                 else Some (if base = 0 \<or> base = 8 then (8, tl runner) else (base, runner)) }
               else Some (base, runner));
            let base = (if base = 0 then 10 else base);
            c \<leftarrow> deref runner;
            (result, err, runner) \<leftarrow>
              (if IN_BASE_RANGE (DIGIT_VAL c) base then digits_loop base 0 0 runner
               else Some (0, err, bs));
            Some (if isNegative then ULLONG_MAX - result + 1 else result,
                  Some (length bs - length runner), err) }
          else Some (0, Some 0, err))"

section \<open>Printing a number\<close>

text \<open>
  The loop that writes the digits, the last one first, until the value is used up or the array
  is full: the value left, the position and the memory.
\<close>

function put_digits :: "bptr \<Rightarrow> u32 \<Rightarrow> u32 \<Rightarrow> u32 \<Rightarrow> 'z mem_scheme \<Rightarrow> (u32 \<times> u32 \<times> 'z mem_scheme) option" where
  "put_digits d destinationSize value pos m = do {
     m \<leftarrow> cwrite (fst d, snd d + unat pos) [Some (of_char (CHR ''0'') + ucast (value mod 10))] m;
     let pos = pos + 1;
     let value = value div 10;
     if value > 0 \<and> pos < destinationSize - 1 then put_digits d destinationSize value pos m
     else Some (value, pos, m) }"
  by auto
termination
  by (relation "measure (\<lambda>(d, n, value, pos, m). unat value)") (auto simp: word_less_nat_alt unat_div)

declare put_digits.simps [simp del]

text \<open>The loop that reverses them.\<close>

function swap_loop :: "bptr \<Rightarrow> u32 \<Rightarrow> u32 \<Rightarrow> 'z mem_scheme \<Rightarrow> 'z mem_scheme option" where
  "swap_loop d pos w m =
     (if w \<le> drop_bit 1 (pos - 1) then do {
        temp \<leftarrow> cread (Chars (fst d) (snd d + unat w)) 1 m;
        x \<leftarrow> cread (Chars (fst d) (snd d + unat (pos - 1 - w))) 1 m;
        m \<leftarrow> cwrite (fst d, snd d + unat w) x m;
        m \<leftarrow> cwrite (fst d, snd d + unat (pos - 1 - w)) temp m;
        swap_loop d pos (w + 1) m }
      else Some m)"
  by auto
termination
proof (relation "measure (\<lambda>(d, pos, w, m). Suc (unat (drop_bit 1 (pos - 1))) - unat w)", goal_cases)
  case (2 d pos w m)
  have "unat (drop_bit 1 (pos - 1)) < 2 ^ 31"
    using unat_lt_u32 [of "pos - 1"]
    by (simp add: drop_bit_eq_div unat_div div_less_iff_less_mult)
  moreover have "unat w \<le> unat (drop_bit 1 (pos - 1))" using 2 by (simp add: word_le_nat_alt)
  ultimately have "unat (w + 1) = Suc (unat w)" by (simp add: unat_add_u32)
  with \<open>unat w \<le> _\<close> show ?case by simp
qed simp

declare swap_loop.simps [simp del]

definition unsignedIntToString ::
  "bptr option \<Rightarrow> u32 \<Rightarrow> u32 \<Rightarrow> 'z mem_scheme \<Rightarrow> (int \<times> 'z mem_scheme) option" where
  "unsignedIntToString destination destinationSize value m =
     (if destination = None \<or> destinationSize < 2 then Some (FAILURE, m)
      else do {
        d \<leftarrow> destination;
        (value, pos, m) \<leftarrow> put_digits d destinationSize value 0 m;
        if value = 0 then do {
          m \<leftarrow> cwrite (fst d, snd d + unat pos) [Some 0] m;
          m \<leftarrow> swap_loop d pos 0 m;
          Some (0, m) }
        else Some (FAILURE, m) })"

text \<open>The same code for a \<open>size_t\<close>, which has the width of \<open>unsigned int\<close> here.\<close>

definition size_tToString ::
  "bptr option \<Rightarrow> u32 \<Rightarrow> u32 \<Rightarrow> 'z mem_scheme \<Rightarrow> (int \<times> 'z mem_scheme) option" where
  "size_tToString destination destinationSize value m =
     (if destination = None \<or> destinationSize < 2 then Some (FAILURE, m)
      else do {
        d \<leftarrow> destination;
        (value, pos, m) \<leftarrow> put_digits d destinationSize value 0 m;
        if value = 0 then do {
          m \<leftarrow> cwrite (fst d, snd d + unat pos) [Some 0] m;
          m \<leftarrow> swap_loop d pos 0 m;
          Some (0, m) }
        else Some (FAILURE, m) })"

end
