(* ===== verification/Message.thy ===== *)
theory Message
  imports Crt Codec_Decode
begin

text \<open>
  The messages of \<^verbatim>\<open>uMQTT/src/mqtt_message.c\<close>.  A message owns a copy of its topic and of its
  payload (\<open>mqttmessage_create\<close>), or points to those of the caller
  (\<open>mqttmessage_create_in_place\<close>).
\<close>

record MQTT_MESSAGE =
  packetId :: u16
  qosInfo :: QOS_VALUE
  topicName :: ptr
  appPayload :: APP_PAYLOAD
  const_topic_name :: "char_ptr option"
  const_payload :: APP_PAYLOAD
  isDuplicateMsg :: bool
  isMessageRetained :: bool

record gmem = cmem +
  messages :: "addr \<rightharpoonup> MQTT_MESSAGE"

definition sizeof_MQTT_MESSAGE :: nat where "sizeof_MQTT_MESSAGE = 32"

text \<open>\<open>memset (result, 0, sizeof (MQTT_MESSAGE))\<close>\<close>

definition zero_payload :: APP_PAYLOAD where
  "zero_payload = \<lparr>message = None, payload_length = 0\<rparr>"

definition zero_message :: MQTT_MESSAGE where
  "zero_message = \<lparr>packetId = 0, qosInfo = 0, topicName = None, appPayload = zero_payload,
     const_topic_name = None, const_payload = zero_payload, isDuplicateMsg = False, isMessageRetained = False\<rparr>"

definition set_message :: "addr \<Rightarrow> MQTT_MESSAGE \<Rightarrow> 'z gmem_scheme \<Rightarrow> 'z gmem_scheme" where
  "set_message h i m = m\<lparr>messages := (messages m)(h \<mapsto> i)\<rparr>"

definition upd_message ::
  "addr \<Rightarrow> (MQTT_MESSAGE \<Rightarrow> MQTT_MESSAGE) \<Rightarrow> 'z gmem_scheme \<Rightarrow> 'z gmem_scheme option" where
  "upd_message h f m = do { i \<leftarrow> messages m h; Some (set_message h (f i) m) }"

definition free_message :: "addr \<Rightarrow> 'z gmem_scheme \<Rightarrow> 'z gmem_scheme option" where
  "free_message h m = do { _ \<leftarrow> messages m h; Some (m\<lparr>messages := (messages m)(h := None)\<rparr>) }"

text \<open>\<open>free\<close> of a \<open>uint8_t*\<close>, which must point to the start of its array.\<close>

definition free_bytes :: "bptr option \<Rightarrow> 'z mem_scheme \<Rightarrow> 'z mem_scheme option" where
  "free_bytes p m =
     (case p of
        None \<Rightarrow> Some m
      | Some (a, i) \<Rightarrow> if i = 0 then free (Some a) m else None)"

section \<open>Creation and destruction\<close>

definition mqttmessage_create_in_place ::
  "u16 \<Rightarrow> char_ptr option \<Rightarrow> QOS_VALUE \<Rightarrow> bptr option \<Rightarrow> u32 \<Rightarrow> 'z gmem_scheme \<Rightarrow> (ptr \<times> 'z gmem_scheme) option" where
  "mqttmessage_create_in_place pktId topic qosValue appMsg appMsgLength m =
     (if topic = None then Some (None, m)
      else do {
        (result, m) \<leftarrow> malloc_struct sizeof_MQTT_MESSAGE m;
        case result of
          None \<Rightarrow> Some (None, m)
        | Some h \<Rightarrow> do {
            let m = set_message h zero_message m;
            m \<leftarrow> upd_message h (\<lambda>i. i\<lparr>const_topic_name := topic, packetId := pktId, isDuplicateMsg := False,
                                    isMessageRetained := False, qosInfo := qosValue\<rparr>) m;
            m \<leftarrow> upd_message h (\<lambda>i. i\<lparr>const_payload := (const_payload i)\<lparr>payload_length := appMsgLength\<rparr>\<rparr>) m;
            i \<leftarrow> messages m h;
            m \<leftarrow> (if payload_length (const_payload i) > 0
                  then upd_message h (\<lambda>i. i\<lparr>const_payload := (const_payload i)\<lparr>message := appMsg\<rparr>\<rparr>) m
                  else Some m);
            Some (Some h, m) } })"

definition mqttmessage_create ::
  "u16 \<Rightarrow> char_ptr option \<Rightarrow> QOS_VALUE \<Rightarrow> bptr option \<Rightarrow> u32 \<Rightarrow> 'z gmem_scheme \<Rightarrow> (ptr \<times> 'z gmem_scheme) option" where
  "mqttmessage_create pktId topic qosValue appMsg appMsgLength m =
     (if topic = None then Some (None, m)
      else do {
        (result, m) \<leftarrow> malloc_struct sizeof_MQTT_MESSAGE m;
        case result of
          None \<Rightarrow> Some (None, m)
        | Some h \<Rightarrow> do {
            let m = set_message h zero_message m;
            i \<leftarrow> messages m h;
            ((r, dest), m) \<leftarrow> mallocAndStrcpy_s (Some (topicName i)) topic m;
            m \<leftarrow> (case dest of None \<Rightarrow> None | Some t \<Rightarrow> upd_message h (\<lambda>i. i\<lparr>topicName := t\<rparr>) m);
            if r \<noteq> 0 then do {
              m \<leftarrow> free_message h m;
              Some (None, m) }
            else do {
              m \<leftarrow> upd_message h (\<lambda>i. i\<lparr>packetId := pktId, isDuplicateMsg := False,
                                      isMessageRetained := False, qosInfo := qosValue\<rparr>) m;
              m \<leftarrow> upd_message h (\<lambda>i. i\<lparr>appPayload := (appPayload i)\<lparr>payload_length := appMsgLength\<rparr>\<rparr>) m;
              i \<leftarrow> messages m h;
              if payload_length (appPayload i) > 0 then do {
                (p, m) \<leftarrow> malloc (unat appMsgLength) m;
                m \<leftarrow> upd_message h (\<lambda>i. i\<lparr>appPayload := (appPayload i)\<lparr>message := map_option (\<lambda>a. (a, 0)) p\<rparr>\<rparr>) m;
                case p of
                  None \<Rightarrow> do {
                    m \<leftarrow> cfree (topicName i) m;
                    m \<leftarrow> free_message h m;
                    Some (None, m) }
                | Some a \<Rightarrow> do {
                    src \<leftarrow> appMsg;
                    xs \<leftarrow> read_bytes src (unat appMsgLength) m;
                    m \<leftarrow> write_bytes (a, 0) xs m;
                    Some (Some h, m) } }
              else do {
                m \<leftarrow> upd_message h (\<lambda>i. i\<lparr>appPayload := (appPayload i)\<lparr>message := None\<rparr>\<rparr>) m;
                Some (Some h, m) } } } })"

definition mqttmessage_destroy :: "ptr \<Rightarrow> 'z gmem_scheme \<Rightarrow> 'z gmem_scheme option" where
  "mqttmessage_destroy handle m =
     (case handle of
        None \<Rightarrow> Some m
      | Some h \<Rightarrow> do {
          i \<leftarrow> messages m h;
          m \<leftarrow> (if topicName i \<noteq> None then cfree (topicName i) m else Some m);
          m \<leftarrow> (if message (appPayload i) \<noteq> None then free_bytes (message (appPayload i)) m else Some m);
          free_message h m })"

section \<open>Accessors\<close>

definition mqttmessage_getPacketId :: "ptr \<Rightarrow> 'z gmem_scheme \<Rightarrow> u16 option" where
  "mqttmessage_getPacketId handle m =
     (case handle of None \<Rightarrow> Some 0 | Some h \<Rightarrow> do { i \<leftarrow> messages m h; Some (packetId i) })"

definition mqttmessage_getTopicName :: "ptr \<Rightarrow> 'z gmem_scheme \<Rightarrow> char_ptr option option" where
  "mqttmessage_getTopicName handle m =
     (case handle of
        None \<Rightarrow> Some None
      | Some h \<Rightarrow> do {
          i \<leftarrow> messages m h;
          Some (case topicName i of None \<Rightarrow> const_topic_name i | Some a \<Rightarrow> Some (Chars a 0)) })"

definition mqttmessage_getQosType :: "ptr \<Rightarrow> 'z gmem_scheme \<Rightarrow> QOS_VALUE option" where
  "mqttmessage_getQosType handle m =
     (case handle of None \<Rightarrow> Some DELIVER_AT_MOST_ONCE | Some h \<Rightarrow> do { i \<leftarrow> messages m h; Some (qosInfo i) })"

definition mqttmessage_getIsDuplicateMsg :: "ptr \<Rightarrow> 'z gmem_scheme \<Rightarrow> bool option" where
  "mqttmessage_getIsDuplicateMsg handle m =
     (case handle of None \<Rightarrow> Some False | Some h \<Rightarrow> do { i \<leftarrow> messages m h; Some (isDuplicateMsg i) })"

definition mqttmessage_getIsRetained :: "ptr \<Rightarrow> 'z gmem_scheme \<Rightarrow> bool option" where
  "mqttmessage_getIsRetained handle m =
     (case handle of None \<Rightarrow> Some False | Some h \<Rightarrow> do { i \<leftarrow> messages m h; Some (isMessageRetained i) })"

definition mqttmessage_setIsDuplicateMsg :: "ptr \<Rightarrow> bool \<Rightarrow> 'z gmem_scheme \<Rightarrow> (int \<times> 'z gmem_scheme) option" where
  "mqttmessage_setIsDuplicateMsg handle duplicateMsg m =
     (case handle of
        None \<Rightarrow> Some (FAILURE, m)
      | Some h \<Rightarrow> do { m \<leftarrow> upd_message h (\<lambda>i. i\<lparr>isDuplicateMsg := duplicateMsg\<rparr>) m; Some (0, m) })"

definition mqttmessage_setIsRetained :: "ptr \<Rightarrow> bool \<Rightarrow> 'z gmem_scheme \<Rightarrow> (int \<times> 'z gmem_scheme) option" where
  "mqttmessage_setIsRetained handle retainMsg m =
     (case handle of
        None \<Rightarrow> Some (FAILURE, m)
      | Some h \<Rightarrow> do { m \<leftarrow> upd_message h (\<lambda>i. i\<lparr>isMessageRetained := retainMsg\<rparr>) m; Some (0, m) })"

text \<open>The payload struct that the returned pointer points to.\<close>

definition mqttmessage_getApplicationMsg :: "ptr \<Rightarrow> 'z gmem_scheme \<Rightarrow> APP_PAYLOAD option option" where
  "mqttmessage_getApplicationMsg handle m =
     (case handle of
        None \<Rightarrow> Some None
      | Some h \<Rightarrow> do {
          i \<leftarrow> messages m h;
          Some (Some (if payload_length (const_payload i) > 0 then const_payload i else appPayload i)) })"

definition mqttmessage_clone :: "ptr \<Rightarrow> 'z gmem_scheme \<Rightarrow> (ptr \<times> 'z gmem_scheme) option" where
  "mqttmessage_clone handle m =
     (case handle of
        None \<Rightarrow> Some (None, m)
      | Some h \<Rightarrow> do {
          mqtt_message \<leftarrow> messages m h;
          (result, m) \<leftarrow> mqttmessage_create (packetId mqtt_message)
            (map_option (\<lambda>a. Chars a 0) (topicName mqtt_message)) (qosInfo mqtt_message)
            (message (appPayload mqtt_message)) (payload_length (appPayload mqtt_message)) m;
          if result \<noteq> None then do {
            mqtt_message \<leftarrow> messages m h;
            (_, m) \<leftarrow> mqttmessage_setIsDuplicateMsg result (isDuplicateMsg mqtt_message) m;
            mqtt_message \<leftarrow> messages m h;
            (_, m) \<leftarrow> mqttmessage_setIsRetained result (isMessageRetained mqtt_message) m;
            Some (result, m) }
          else Some (None, m) })"

end
