(* ===== verification/Platform.thy ===== *)
theory Platform
  imports Message
begin

text \<open>
  The clock and the scheduler as the library sees them: \<^verbatim>\<open>uMQTT/ports/src/tickcounter.c\<close> and
  \<^verbatim>\<open>uMQTT/ports/src/threadapi.c\<close>.  FreeRTOS is a parameter: \<open>xTaskGetTickCount\<close> reads the
  tick count, and may move on what it reads from, \<open>vTaskDelay\<close> lets the other tasks run.
\<close>

record TICK_COUNTER_INSTANCE =
  original_tick_count :: u32

record tmem = gmem +
  tick_counters :: "addr \<rightharpoonup> TICK_COUNTER_INSTANCE"

record 'm os_env =
  xTaskGetTickCount :: "'m \<Rightarrow> u32 \<times> 'm"
  vTaskDelay :: "u32 \<Rightarrow> 'm \<Rightarrow> 'm option"

definition CONFIG_FREERTOS_HZ :: u32 where "CONFIG_FREERTOS_HZ = 1000"

definition sizeof_TICK_COUNTER_INSTANCE :: nat where "sizeof_TICK_COUNTER_INSTANCE = 4"

section \<open>Tick counter\<close>

definition tickcounter_create ::
  "('z tmem_scheme, 'e) os_env_scheme \<Rightarrow> 'z tmem_scheme \<Rightarrow> (ptr \<times> 'z tmem_scheme) option" where
  "tickcounter_create env m = do {
     (result, m) \<leftarrow> malloc_struct sizeof_TICK_COUNTER_INSTANCE m;
     case result of
       None \<Rightarrow> Some (None, m)
     | Some t \<Rightarrow> do {
         let (now, m) = xTaskGetTickCount env m;
         Some (Some t, m\<lparr>tick_counters := (tick_counters m)(t \<mapsto> \<lparr>original_tick_count = now\<rparr>)\<rparr>) } }"

definition tickcounter_destroy :: "ptr \<Rightarrow> 'z tmem_scheme \<Rightarrow> 'z tmem_scheme option" where
  "tickcounter_destroy tick_counter m =
     (case tick_counter of
        None \<Rightarrow> Some m
      | Some t \<Rightarrow> do {
          _ \<leftarrow> tick_counters m t;
          Some (m\<lparr>tick_counters := (tick_counters m)(t := None)\<rparr>) })"

text \<open>
  The scaling of the difference of two tick counts to milliseconds, which the code does in
  \<open>double\<close>: the product is below \<open>2 ^ 53\<close>, so it is exact, and so is the quotient by 1000.
\<close>

definition ticks_to_ms :: "u32 \<Rightarrow> u32" where
  "ticks_to_ms d = of_nat (unat d * 1000 div unat CONFIG_FREERTOS_HZ)"

text \<open>\<open>current_ms\<close> is the value pointed to, \<open>None\<close> for a null pointer; the result has its new value.\<close>

definition tickcounter_get_current_ms ::
  "('z tmem_scheme, 'e) os_env_scheme \<Rightarrow> ptr \<Rightarrow> u32 option \<Rightarrow> 'z tmem_scheme \<Rightarrow>
   ((int \<times> u32 option) \<times> 'z tmem_scheme) option" where
  "tickcounter_get_current_ms env tick_counter current_ms m =
     (if tick_counter = None \<or> current_ms = None then Some ((FAILURE, current_ms), m)
      else do {
        t \<leftarrow> tick_counter;
        let (now, m) = xTaskGetTickCount env m;
        i \<leftarrow> tick_counters m t;
        Some ((0, Some (ticks_to_ms (now - original_tick_count i))), m) })"

section \<open>Threads\<close>

definition ThreadAPI_Sleep ::
  "('z tmem_scheme, 'e) os_env_scheme \<Rightarrow> u32 \<Rightarrow> 'z tmem_scheme \<Rightarrow> 'z tmem_scheme option" where
  "ThreadAPI_Sleep env milliseconds m = vTaskDelay env (milliseconds * CONFIG_FREERTOS_HZ div 1000) m"

datatype THREADAPI_RESULT = THREADAPI_OK | THREADAPI_INVALID_ARG | THREADAPI_NO_MEMORY | THREADAPI_ERROR

definition ThreadAPI_Create :: "ptr \<Rightarrow> nat option \<Rightarrow> ptr \<Rightarrow> 'm \<Rightarrow> (THREADAPI_RESULT \<times> 'm) option" where
  "ThreadAPI_Create threadHandle func arg m = Some (THREADAPI_ERROR, m)"

definition ThreadAPI_Join :: "ptr \<Rightarrow> ptr \<Rightarrow> 'm \<Rightarrow> (THREADAPI_RESULT \<times> 'm) option" where
  "ThreadAPI_Join threadHandle res m = Some (THREADAPI_ERROR, m)"

definition ThreadAPI_Exit :: "int \<Rightarrow> 'm \<Rightarrow> 'm option" where
  "ThreadAPI_Exit res m = Some m"

end
