(* ===== verification/Xio.thy ===== *)
theory Xio
  imports Platform
begin

text \<open>
  The io layer of \<^verbatim>\<open>uMQTT/ports/src/xio.c\<close>: an instance is a table of the functions of a
  concrete io and its handle.  A function pointer is a number; what the functions of the
  concrete ios do is the record \<open>io_env\<close>, over the whole memory.
\<close>

datatype IO_SEND_RESULT = IO_SEND_OK | IO_SEND_ERROR | IO_SEND_CANCELLED
datatype IO_OPEN_RESULT = IO_OPEN_OK | IO_OPEN_ERROR | IO_OPEN_CANCELLED

type_synonym fptr = "nat option"

record IO_INTERFACE_DESCRIPTION =
  concrete_io_retrieveoptions :: fptr
  concrete_io_create :: fptr
  concrete_io_destroy :: fptr
  concrete_io_open :: fptr
  concrete_io_close :: fptr
  concrete_io_send :: fptr
  concrete_io_dowork :: fptr
  concrete_io_setoption :: fptr

text \<open>The tables are constants of the program, so an instance has the table itself.\<close>

record XIO_INSTANCE =
  io_interface_description :: IO_INTERFACE_DESCRIPTION
  concrete_xio_handle :: ptr

record xmem = tmem +
  xios :: "addr \<rightharpoonup> XIO_INSTANCE"

record 'm io_env = "'m os_env" +
  io_create :: "nat \<Rightarrow> ptr \<Rightarrow> 'm \<Rightarrow> (ptr \<times> 'm) option"
  io_destroy :: "nat \<Rightarrow> ptr \<Rightarrow> 'm \<Rightarrow> 'm option"
  io_open :: "nat \<Rightarrow> ptr \<Rightarrow> fptr \<times> ptr \<Rightarrow> fptr \<times> ptr \<Rightarrow> fptr \<times> ptr \<Rightarrow> 'm \<Rightarrow> (int \<times> 'm) option"
  io_close :: "nat \<Rightarrow> ptr \<Rightarrow> fptr \<times> ptr \<Rightarrow> 'm \<Rightarrow> (int \<times> 'm) option"
  io_send :: "nat \<Rightarrow> ptr \<Rightarrow> bptr option \<Rightarrow> u32 \<Rightarrow> fptr \<times> ptr \<Rightarrow> 'm \<Rightarrow> (int \<times> 'm) option"
  io_dowork :: "nat \<Rightarrow> ptr \<Rightarrow> 'm \<Rightarrow> 'm option"

definition sizeof_XIO_INSTANCE :: nat where "sizeof_XIO_INSTANCE = 8"

definition set_xio :: "addr \<Rightarrow> XIO_INSTANCE \<Rightarrow> 'z xmem_scheme \<Rightarrow> 'z xmem_scheme" where
  "set_xio x i m = m\<lparr>xios := (xios m)(x \<mapsto> i)\<rparr>"

definition free_xio :: "addr \<Rightarrow> 'z xmem_scheme \<Rightarrow> 'z xmem_scheme option" where
  "free_xio x m = do { _ \<leftarrow> xios m x; Some (m\<lparr>xios := (xios m)(x := None)\<rparr>) }"

definition xio_create ::
  "('z xmem_scheme, 'e) io_env_scheme \<Rightarrow> IO_INTERFACE_DESCRIPTION option \<Rightarrow> ptr \<Rightarrow> 'z xmem_scheme \<Rightarrow>
   (ptr \<times> 'z xmem_scheme) option" where
  "xio_create env description xio_create_parameters m =
     (case description of
        None \<Rightarrow> Some (None, m)
      | Some d \<Rightarrow>
          if concrete_io_retrieveoptions d = None \<or> concrete_io_create d = None \<or> concrete_io_destroy d = None \<or>
             concrete_io_open d = None \<or> concrete_io_close d = None \<or> concrete_io_send d = None \<or>
             concrete_io_dowork d = None \<or> concrete_io_setoption d = None
          then Some (None, m)
          else do {
            (xio_instance, m) \<leftarrow> malloc_struct sizeof_XIO_INSTANCE m;
            case xio_instance of
              None \<Rightarrow> Some (None, m)
            | Some x \<Rightarrow> do {
                f \<leftarrow> concrete_io_create d;
                let m = set_xio x \<lparr>io_interface_description = d, concrete_xio_handle = None\<rparr> m;
                (h, m) \<leftarrow> io_create env f xio_create_parameters m;
                i \<leftarrow> xios m x;
                let m = set_xio x (i\<lparr>concrete_xio_handle := h\<rparr>) m;
                if h = None then do {
                  m \<leftarrow> free_xio x m;
                  Some (None, m) }
                else Some (Some x, m) } })"

definition xio_destroy ::
  "('z xmem_scheme, 'e) io_env_scheme \<Rightarrow> ptr \<Rightarrow> 'z xmem_scheme \<Rightarrow> 'z xmem_scheme option" where
  "xio_destroy env xio m =
     (case xio of
        None \<Rightarrow> Some m
      | Some x \<Rightarrow> do {
          i \<leftarrow> xios m x;
          f \<leftarrow> concrete_io_destroy (io_interface_description i);
          m \<leftarrow> io_destroy env f (concrete_xio_handle i) m;
          free_xio x m })"

definition xio_open ::
  "('z xmem_scheme, 'e) io_env_scheme \<Rightarrow> ptr \<Rightarrow> fptr \<times> ptr \<Rightarrow> fptr \<times> ptr \<Rightarrow> fptr \<times> ptr \<Rightarrow> 'z xmem_scheme \<Rightarrow>
   (int \<times> 'z xmem_scheme) option" where
  "xio_open env xio on_io_open_complete on_bytes_received on_io_error m =
     (case xio of
        None \<Rightarrow> Some (FAILURE, m)
      | Some x \<Rightarrow> do {
          i \<leftarrow> xios m x;
          f \<leftarrow> concrete_io_open (io_interface_description i);
          (r, m) \<leftarrow> io_open env f (concrete_xio_handle i) on_io_open_complete on_bytes_received on_io_error m;
          Some (if r \<noteq> 0 then FAILURE else 0, m) })"

definition xio_close ::
  "('z xmem_scheme, 'e) io_env_scheme \<Rightarrow> ptr \<Rightarrow> fptr \<times> ptr \<Rightarrow> 'z xmem_scheme \<Rightarrow> (int \<times> 'z xmem_scheme) option" where
  "xio_close env xio on_io_close_complete m =
     (case xio of
        None \<Rightarrow> Some (FAILURE, m)
      | Some x \<Rightarrow> do {
          i \<leftarrow> xios m x;
          f \<leftarrow> concrete_io_close (io_interface_description i);
          (r, m) \<leftarrow> io_close env f (concrete_xio_handle i) on_io_close_complete m;
          Some (if r \<noteq> 0 then FAILURE else 0, m) })"

definition xio_send ::
  "('z xmem_scheme, 'e) io_env_scheme \<Rightarrow> ptr \<Rightarrow> bptr option \<Rightarrow> u32 \<Rightarrow> fptr \<times> ptr \<Rightarrow> 'z xmem_scheme \<Rightarrow>
   (int \<times> 'z xmem_scheme) option" where
  "xio_send env xio buf siz on_send_complete m =
     (case xio of
        None \<Rightarrow> Some (FAILURE, m)
      | Some x \<Rightarrow> do {
          i \<leftarrow> xios m x;
          f \<leftarrow> concrete_io_send (io_interface_description i);
          io_send env f (concrete_xio_handle i) buf siz on_send_complete m })"

definition xio_dowork ::
  "('z xmem_scheme, 'e) io_env_scheme \<Rightarrow> ptr \<Rightarrow> 'z xmem_scheme \<Rightarrow> 'z xmem_scheme option" where
  "xio_dowork env xio m =
     (case xio of
        None \<Rightarrow> Some m
      | Some x \<Rightarrow> do {
          i \<leftarrow> xios m x;
          f \<leftarrow> concrete_io_dowork (io_interface_description i);
          io_dowork env f (concrete_xio_handle i) m })"

end
