(* ===== verification/List_Rules.thy ===== *)
theory List_Rules
  imports Linked_List
begin

text \<open>
  The representation of linked lists and what each operation of \<^theory_text>\<open>Linked_List\<close> does to it.
  \<open>lseg\<close> is a segment of items between two pointers, \<open>list_at\<close> one list of the heap, and
  \<open>list_inv\<close> relates the whole heap to the lists it holds.
\<close>

section \<open>Segments\<close>

abbreviation handles :: "(addr \<times> ptr) list \<Rightarrow> addr set" where
  "handles xs \<equiv> fst ` set xs"

fun first_or :: "(addr \<times> ptr) list \<Rightarrow> ptr \<Rightarrow> ptr" where
  "first_or [] q = q"
| "first_or (x # xs) q = Some (fst x)"

definition last_handle :: "(addr \<times> ptr) list \<Rightarrow> ptr" where
  "last_handle xs = (if xs = [] then None else Some (fst (last xs)))"

lemma last_handle_simps [simp]:
  "last_handle [] = None" "last_handle (xs @ [x]) = Some (fst x)"
  "last_handle xs = None \<longleftrightarrow> xs = []" "ys \<noteq> [] \<Longrightarrow> last_handle (xs @ ys) = last_handle ys"
  "last_handle (x # ys) = (if ys = [] then Some (fst x) else last_handle ys)"
  by (simp_all add: last_handle_def)

fun lseg :: "(addr \<rightharpoonup> LIST_ITEM_INSTANCE) \<Rightarrow> ptr \<Rightarrow> (addr \<times> ptr) list \<Rightarrow> ptr \<Rightarrow> bool" where
  "lseg h p [] q \<longleftrightarrow> p = q"
| "lseg h p (x # xs) q \<longleftrightarrow>
     p = Some (fst x) \<and> h (fst x) = Some \<lparr>item = snd x, next_item = first_or xs q\<rparr> \<and>
     lseg h (first_or xs q) xs q"

lemma lseg_first: "lseg h p xs q \<Longrightarrow> p = first_or xs q"
  by (cases xs) auto

lemma first_or_append [simp]: "first_or (xs @ ys) q = first_or xs (first_or ys q)"
  by (cases xs) auto

lemma lseg_append [simp]:
  "lseg h p (xs @ ys) q \<longleftrightarrow> lseg h p xs (first_or ys q) \<and> lseg h (first_or ys q) ys q"
proof (induction xs arbitrary: p)
  case Nil
  then show ?case using lseg_first [of h p ys q] by auto
qed (auto simp: first_or_append)

lemma lseg_cong: "(\<And>a. a \<in> handles xs \<Longrightarrow> h' a = h a) \<Longrightarrow> lseg h' p xs q = lseg h p xs q"
  by (induction xs arbitrary: p) auto

lemma lseg_live: "lseg h p xs q \<Longrightarrow> handles xs \<subseteq> dom h"
  by (induction xs arbitrary: p) auto

lemma lseg_upd [simp]: "a \<notin> handles xs \<Longrightarrow> lseg (h(a := z)) p xs q = lseg h p xs q"
  by (rule lseg_cong) (metis fun_upd_other)

lemma lseg_relink:
  assumes "lseg h p (xs @ [x]) q" "distinct (map fst (xs @ [x]))"
  shows "lseg (h(fst x \<mapsto> \<lparr>item = snd x, next_item = r\<rparr>)) p (xs @ [x]) r"
  using assms by simp

section \<open>Lists of a heap\<close>

definition list_at :: "'z lmem_scheme \<Rightarrow> addr \<Rightarrow> (addr \<times> ptr) list \<Rightarrow> bool" where
  "list_at m l xs \<longleftrightarrow>
     distinct (map fst xs) \<and>
     lists m l = Some \<lparr>head = first_or xs None, tail = last_handle xs\<rparr> \<and>
     lseg (list_items m) (first_or xs None) xs None"

type_synonym contents = "addr \<rightharpoonup> (addr \<times> ptr) list"

text \<open>No item is in two lists.\<close>

definition apart :: "contents \<Rightarrow> bool" where
  "apart C \<longleftrightarrow> (\<forall>l l' xs xs'. C l = Some xs \<longrightarrow> C l' = Some xs' \<longrightarrow> l \<noteq> l' \<longrightarrow> handles xs \<inter> handles xs' = {})"

definition list_inv :: "'z lmem_scheme \<Rightarrow> contents \<Rightarrow> bool" where
  "list_inv m C \<longleftrightarrow>
     dom (lists m) = dom C \<and>
     (\<forall>l xs. C l = Some xs \<longrightarrow> list_at m l xs) \<and>
     apart C \<and>
     (\<forall>a. list_items m a \<noteq> None \<longleftrightarrow> (\<exists>k ys. C k = Some ys \<and> a \<in> handles ys)) \<and>
     (\<forall>a \<ge> brk m. list_items m a = None \<and> lists m a = None)"

text \<open>What no list operation changes.\<close>

definition list_frame :: "'z lmem_scheme \<Rightarrow> 'z lmem_scheme \<Rightarrow> bool" where
  "list_frame m m' \<longleftrightarrow>
     grants m' = grants m \<and> blocks m' = blocks m \<and> chars m' = chars m \<and> brk m \<le> brk m' \<and>
     buffers m' = buffers m \<and> strs m' = strs m \<and> codecs m' = codecs m \<and> messages m' = messages m \<and>
     tick_counters m' = tick_counters m \<and> xios m' = xios m \<and> lmem.more m' = lmem.more m"

lemma list_frame_refl [simp]: "list_frame m m"
  by (simp add: list_frame_def)

lemma list_frame_trans [trans]: "list_frame m m' \<Longrightarrow> list_frame m' m'' \<Longrightarrow> list_frame m m''"
  by (simp add: list_frame_def)

lemma list_invD:
  assumes "list_inv m C" "C l = Some xs"
  shows "lists m l = Some \<lparr>head = first_or xs None, tail = last_handle xs\<rparr>"
    and "lseg (list_items m) (first_or xs None) xs None" and "distinct (map fst xs)"
    and "\<And>a. a \<in> handles xs \<Longrightarrow> a < brk m"
proof -
  have "list_at m l xs" using assms by (simp add: list_inv_def)
  then show "lists m l = Some \<lparr>head = first_or xs None, tail = last_handle xs\<rparr>"
    and s: "lseg (list_items m) (first_or xs None) xs None" and "distinct (map fst xs)"
    by (simp_all add: list_at_def)
  show "a < brk m" if "a \<in> handles xs" for a
  proof (rule ccontr)
    assume "\<not> a < brk m"
    then have "list_items m a = None" using assms(1) by (simp add: list_inv_def)
    then show False using lseg_live [OF s] that by auto
  qed
qed

lemma list_inv_fresh:
  "list_inv m C \<Longrightarrow> brk m \<le> a \<Longrightarrow> list_items m a = None \<and> lists m a = None \<and> C a = None"
  by (metis domIff list_inv_def)

lemma list_inv_disjoint:
  "list_inv m C \<Longrightarrow> C l = Some xs \<Longrightarrow> C k = Some ys \<Longrightarrow> k \<noteq> l \<Longrightarrow> a \<in> handles ys \<Longrightarrow> a \<notin> handles xs"
  unfolding list_inv_def apart_def by blast

lemma list_inv_items:
  "list_inv m C \<Longrightarrow> list_items m a \<noteq> None \<longleftrightarrow> (\<exists>k ys. C k = Some ys \<and> a \<in> handles ys)"
  unfolding list_inv_def by blast

lemma list_inv_dom: "list_inv m C \<Longrightarrow> lists m k = None \<longleftrightarrow> C k = None"
  unfolding list_inv_def by (metis domIff)

text \<open>One list changes: its items, among them at most fresh ones, and nothing else.\<close>

lemma list_inv_replace:
  assumes inv: "list_inv m C" and l: "C l = Some xs" and at: "list_at m' l xs'"
    and other: "\<And>a. a \<notin> handles xs \<Longrightarrow> a \<notin> handles xs' \<Longrightarrow> list_items m' a = list_items m a"
    and gone: "\<And>a. a \<in> handles xs \<Longrightarrow> a \<notin> handles xs' \<Longrightarrow> list_items m' a = None"
    and new: "\<And>a. a \<in> handles xs' \<Longrightarrow> a \<in> handles xs \<or> brk m \<le> a \<and> a < brk m'"
    and lists: "\<And>k. k \<noteq> l \<Longrightarrow> lists m' k = lists m k" and brk: "brk m \<le> brk m'"
  shows "list_inv m' (C(l \<mapsto> xs'))"
proof -
  note apart = list_inv_disjoint [OF inv l]
  have apart': "a \<notin> handles xs'" if "C k = Some ys" "k \<noteq> l" "a \<in> handles ys" for k ys a
    using new [of a] apart [OF that] list_invD(4) [OF inv that(1,3)] by auto
  have same: "list_items m' a = list_items m a" if "C k = Some ys" "k \<noteq> l" "a \<in> handles ys" for k ys a
    using other apart [OF that] apart' [OF that] by simp
  have head: "lists m' l = Some \<lparr>head = first_or xs' None, tail = last_handle xs'\<rparr>"
    and seg: "lseg (list_items m') (first_or xs' None) xs' None"
    using at by (simp_all add: list_at_def)
  have d: "k \<in> dom (lists m') \<longleftrightarrow> k \<in> dom (C(l \<mapsto> xs'))" for k
    using head lists [of k] list_inv_dom [OF inv, of k] by (cases "k = l") (simp_all add: domIff)
  have ats: "list_at m' k ys" if "(C(l \<mapsto> xs')) k = Some ys" for k ys
  proof (cases "k = l")
    case True
    then show ?thesis using that at by simp
  next
    case False
    then have k: "C k = Some ys" using that by simp
    have "lseg (list_items m') p ys None = lseg (list_items m) p ys None" for p
      by (rule lseg_cong) (rule same [OF k False])
    then show ?thesis using list_invD(1-3) [OF inv k] False by (simp add: list_at_def lists)
  qed
  have items: "list_items m' a \<noteq> None \<longleftrightarrow> (\<exists>k ys. (C(l \<mapsto> xs')) k = Some ys \<and> a \<in> handles ys)" for a
  proof (cases "a \<in> handles xs'")
    case True
    then have "list_items m' a \<noteq> None" using lseg_live [OF seg] by blast
    then show ?thesis using True by (metis fun_upd_same)
  next
    case False
    then have 1: "(\<exists>k ys. (C(l \<mapsto> xs')) k = Some ys \<and> a \<in> handles ys) \<longleftrightarrow>
        (\<exists>k ys. C k = Some ys \<and> k \<noteq> l \<and> a \<in> handles ys)"
      by (metis fun_upd_apply option.inject)
    show ?thesis
    proof (cases "a \<in> handles xs")
      case True
      then show ?thesis using gone [OF True False] apart unfolding 1 by blast
    next
      case out: False
      then have "(\<exists>k ys. C k = Some ys \<and> k \<noteq> l \<and> a \<in> handles ys) \<longleftrightarrow> list_items m a \<noteq> None"
        unfolding list_inv_items [OF inv] using l by (metis option.inject)
      then show ?thesis unfolding 1 using other [OF out False] by simp
    qed
  qed
  have fresh: "list_items m' a = None \<and> lists m' a = None" if "brk m' \<le> a" for a
  proof -
    have a: "brk m \<le> a" using that brk by simp
    have "a \<notin> handles xs" using list_invD(4) [OF inv l, of a] a by auto
    moreover have "a \<notin> handles xs'" using new [of a] that calculation by auto
    moreover have "a \<noteq> l" using list_inv_fresh [OF inv a] l by auto
    ultimately show ?thesis using other lists list_inv_fresh [OF inv a] by simp
  qed
  have disj: "handles ys \<inter> handles ys' = {}"
    if "(C(l \<mapsto> xs')) k = Some ys" "(C(l \<mapsto> xs')) k' = Some ys'" "k \<noteq> k'" for k k' ys ys'
  proof (cases "k = l")
    case True
    then show ?thesis using that apart' [of k' ys'] by auto
  next
    case False
    then show ?thesis
      using that apart' [of k ys] list_inv_disjoint [OF inv, of k ys k' ys'] by (auto split: if_splits)
  qed
  then have "apart (C(l \<mapsto> xs'))" unfolding apart_def by blast
  moreover have "dom (lists m') = dom (C(l \<mapsto> xs'))" using d by (rule set_eqI)
  ultimately show ?thesis unfolding list_inv_def using ats items fresh by (intro conjI) blast+
qed


lemmas list_writes = upd_list_def upd_item_def free_item_def free_list_def

section \<open>Creation and destruction\<close>

lemma list_create_spec:
  assumes "list_inv m C"
  shows "ok (singlylinkedlist_create m) (\<lambda>(r, m'). list_frame m m' \<and>
    (case r of None \<Rightarrow> list_inv m' C | Some l \<Rightarrow> C l = None \<and> list_inv m' (C(l \<mapsto> []))))"
proof -
  let ?l = "brk m"
  have n: "list_items m ?l = None" "lists m ?l = None" "C ?l = None"
    using list_inv_fresh [OF assms] by simp_all
  have items: "(\<exists>k ys. (C(?l \<mapsto> [])) k = Some ys \<and> a \<in> handles ys) \<longleftrightarrow>
      (\<exists>k ys. C k = Some ys \<and> a \<in> handles ys)" for a
  proof
    assume "\<exists>k ys. C k = Some ys \<and> a \<in> handles ys"
    then obtain k ys where k: "C k = Some ys" "a \<in> handles ys" by blast
    then have "k \<noteq> ?l" using n by auto
    with k show "\<exists>k ys. (C(?l \<mapsto> [])) k = Some ys \<and> a \<in> handles ys"
      by (intro exI [of _ k] exI [of _ ys]) simp
  qed (auto split: if_splits)
  have "list_inv (m\<lparr>brk := Suc ?l, lists := (lists m)(?l \<mapsto> \<lparr>head = None, tail = None\<rparr>)\<rparr>) (C(?l \<mapsto> []))"
    using assms n items unfolding list_inv_def apart_def by (auto simp: list_at_def)
  moreover have "list_inv (m\<lparr>brk := Suc ?l\<rparr>) C"
    using assms by (simp add: list_inv_def list_at_def)
  ultimately show ?thesis
    using n by (simp add: singlylinkedlist_create_def list_frame_def)
qed

lemma destroy_loop_spec:
  assumes "lists m l = Some s" "head s = first_or xs None" "lseg (list_items m) (first_or xs None) xs None"
    "distinct (map fst xs)"
  shows "destroy_loop l m =
    Some (m\<lparr>lists := (lists m)(l \<mapsto> s\<lparr>head := None\<rparr>), list_items := list_items m |` (- handles xs)\<rparr>)"
  using assms
proof (induction xs arbitrary: m s)
  case Nil
  have "(lists m)(l \<mapsto> s\<lparr>head := None\<rparr>) = lists m" using Nil by (auto simp: fun_eq_iff)
  moreover have "list_items m |` UNIV = list_items m" by (auto simp: fun_eq_iff restrict_map_def)
  ultimately show ?case using Nil by (simp add: destroy_loop.simps [of l m])
next
  case (Cons x xs)
  let ?m = "m\<lparr>lists := (lists m)(l \<mapsto> s\<lparr>head := first_or xs None\<rparr>), list_items := (list_items m)(fst x := None)\<rparr>"
  have seg: "lseg (list_items ?m) (first_or xs None) xs None"
    using Cons.prems(3,4) by simp
  have "destroy_loop l m = destroy_loop l ?m"
    using Cons.prems by (subst destroy_loop.simps) (simp add: list_writes)
  also have "\<dots> = Some (?m\<lparr>lists := (lists ?m)(l \<mapsto> s\<lparr>head := first_or xs None, head := None\<rparr>),
      list_items := list_items ?m |` (- handles xs)\<rparr>)"
    by (rule Cons.IH [of ?m "s\<lparr>head := first_or xs None\<rparr>"]) (simp, simp, rule seg, use Cons.prems(4) in simp)
  also have "list_items ?m |` (- handles xs) = list_items m |` (- handles (x # xs))"
    by (auto simp: fun_eq_iff restrict_map_def)
  finally show ?case by (simp add: fun_upd_def cong: if_cong)
qed

lemma list_destroy_spec:
  assumes "list_inv m C" "C l = Some xs"
  shows "ok (singlylinkedlist_destroy (Some l) m) (\<lambda>m'. list_inv m' (C(l := None)) \<and> list_frame m m')"
proof -
  let ?m = "m\<lparr>lists := (lists m)(l := None), list_items := list_items m |` (- handles xs)\<rparr>"
  note inv = list_invD [OF assms]
  have run: "singlylinkedlist_destroy (Some l) m = Some ?m"
    using inv destroy_loop_spec [OF inv(1) _ inv(2,3)]
    by (simp add: singlylinkedlist_destroy_def list_writes)
  have ats: "list_at ?m k ys" if "(C(l := None)) k = Some ys" for k ys
  proof -
    have k: "C k = Some ys" "k \<noteq> l" using that by (auto split: if_splits)
    have "lseg (list_items ?m) p ys None = lseg (list_items m) p ys None" for p
      by (rule lseg_cong) (use list_inv_disjoint [OF assms k] in \<open>simp add: restrict_map_def\<close>)
    then show ?thesis using list_invD(1-3) [OF assms(1) k(1)] k(2) by (simp add: list_at_def)
  qed
  have items: "list_items ?m a \<noteq> None \<longleftrightarrow> (\<exists>k ys. (C(l := None)) k = Some ys \<and> a \<in> handles ys)" for a
  proof (cases "a \<in> handles xs")
    case True
    then show ?thesis using list_inv_disjoint [OF assms, of _ _ a]
      by (auto simp: restrict_map_def split: if_splits)
  next
    case False
    then have "(\<exists>k ys. (C(l := None)) k = Some ys \<and> a \<in> handles ys) \<longleftrightarrow>
        (\<exists>k ys. C k = Some ys \<and> a \<in> handles ys)"
      using assms(2) by (metis fun_upd_apply option.distinct(1) option.inject)
    then show ?thesis using list_inv_items [OF assms(1), of a] False by simp
  qed
  have "apart (C(l := None))" using assms(1) unfolding list_inv_def apart_def by auto
  moreover have "dom (lists ?m) = dom (C(l := None))"
    using list_inv_dom [OF assms(1)] by (auto simp: domIff set_eq_iff)
  moreover have "list_items ?m a = None \<and> lists ?m a = None" if "brk ?m \<le> a" for a
    using list_inv_fresh [OF assms(1), of a] that assms(2) by (auto simp: restrict_map_def)
  ultimately have "list_inv ?m (C(l := None))"
    unfolding list_inv_def using ats items by blast
  then show ?thesis by (simp add: run list_frame_def)
qed

section \<open>Adding\<close>

lemma add_spec:
  assumes inv: "list_inv m C" and l: "C l = Some xs"
  shows "ok (singlylinkedlist_add (Some l) (Some v) m) (\<lambda>(r, m'). list_frame m m' \<and>
    (case r of None \<Rightarrow> list_inv m' C
     | Some a \<Rightarrow> (\<forall>k ys. C k = Some ys \<longrightarrow> a \<notin> handles ys) \<and> list_inv m' (C(l \<mapsto> xs @ [(a, Some v)]))))"
proof -
  let ?a = "brk m" and ?x = "(brk m, Some v)"
  note I = list_invD [OF inv l]
  have new: "\<forall>k ys. C k = Some ys \<longrightarrow> ?a \<notin> handles ys" using list_invD(4) [OF inv] by blast
  have none: "list_inv (m\<lparr>brk := Suc ?a\<rparr>) C" using inv by (simp add: list_inv_def list_at_def)
  define m' where "m' = (case rev xs of
      [] \<Rightarrow> m\<lparr>brk := Suc ?a, list_items := (list_items m)(?a \<mapsto> \<lparr>item = Some v, next_item = None\<rparr>),
            lists := (lists m)(l \<mapsto> \<lparr>head = Some ?a, tail = Some ?a\<rparr>)\<rparr>
    | x # _ \<Rightarrow> m\<lparr>brk := Suc ?a,
            list_items := (list_items m)(?a \<mapsto> \<lparr>item = Some v, next_item = None\<rparr>,
              fst x \<mapsto> \<lparr>item = snd x, next_item = Some ?a\<rparr>),
            lists := (lists m)(l \<mapsto> \<lparr>head = first_or xs None, tail = Some ?a\<rparr>)\<rparr>)"
  have run: "grants m ?a 8 \<Longrightarrow> singlylinkedlist_add (Some l) (Some v) m = Some (Some ?a, m')"
  proof (cases xs rule: rev_cases)
    case Nil
    then show "grants m ?a 8 \<Longrightarrow> ?thesis" using I(1)
      by (simp add: singlylinkedlist_add_def malloc_struct_def sizeof_LIST_ITEM_INSTANCE_def list_writes m'_def)
  next
    case (snoc ys x)
    have x: "list_items m (fst x) = Some \<lparr>item = snd x, next_item = None\<rparr>" using I(2) snoc by simp
    have "fst x \<noteq> ?a" using I(4) [of "fst x"] snoc by auto
    then show "grants m ?a 8 \<Longrightarrow> ?thesis" using I(1) snoc x
      by (cases ys) (simp_all add: singlylinkedlist_add_def malloc_struct_def sizeof_LIST_ITEM_INSTANCE_def
          list_writes m'_def)
  qed
  have frame: "list_frame m m'" "brk m' = Suc ?a" "list_frame m (m\<lparr>brk := Suc ?a\<rparr>)"
    by (simp_all add: m'_def list_frame_def split: list.split)
  have "list_inv m' (C(l \<mapsto> xs @ [?x]))"
  proof (rule list_inv_replace [OF inv l])
    have d: "distinct (map fst (xs @ [?x]))" using I(3,4) by fastforce
    show "list_at m' l (xs @ [?x])"
    proof (cases xs rule: rev_cases)
      case Nil
      then show ?thesis by (simp add: list_at_def m'_def)
    next
      case (snoc ys x)
      let ?h = "(list_items m)(?a \<mapsto> \<lparr>item = Some v, next_item = None\<rparr>)"
      have "lseg ?h (first_or xs None) xs None"
        using I(2,4) by (subst lseg_upd) auto
      then have "lseg (?h(fst x \<mapsto> \<lparr>item = snd x, next_item = Some ?a\<rparr>)) (first_or xs None) xs (Some ?a)"
        using lseg_relink [of ?h _ ys x None "Some ?a"] I(3) snoc by simp
      moreover have "fst x \<noteq> ?a" using I(4) [of "fst x"] snoc by auto
      ultimately show ?thesis using d snoc by (cases ys) (simp_all add: list_at_def m'_def)
    qed
    show "list_items m' a = list_items m a" if "a \<notin> handles xs" "a \<notin> handles (xs @ [?x])" for a
      using that by (cases xs rule: rev_cases) (auto simp: m'_def)
    show "a \<in> handles xs \<or> brk m \<le> a \<and> a < brk m'" if "a \<in> handles (xs @ [?x])" for a
      using that frame(2) by auto
    show "lists m' k = lists m k" if "k \<noteq> l" for k
      using that by (simp add: m'_def split: list.split)
  qed (use frame in auto)
  then show ?thesis
    using run none frame new
    by (cases "grants m ?a 8") (simp_all add: singlylinkedlist_add_def malloc_struct_def sizeof_LIST_ITEM_INSTANCE_def)
qed

section \<open>Unlinking\<close>

text \<open>
  The step that \<open>remove\<close> and \<open>remove_if\<close> share: \<open>c\<close> is unlinked from between the items
  \<open>ys\<close> before it and \<open>zs\<close> after it, and freed.
\<close>

lemma unlink_spec:
  assumes inv: "list_inv m C" and l: "C l = Some (ys @ c # zs)"
  obtains m' where "unlink_item l (last_handle ys) (fst c) (first_or zs None) m = Some m'"
    "list_inv m' (C(l \<mapsto> ys @ zs))" "list_frame m m'" "brk m' = brk m"
    "\<And>z. z \<in> set zs \<Longrightarrow> list_items m' (fst z) = list_items m (fst z)"
proof -
  note I = list_invD [OF inv l]
  define t where "t = (if zs = [] then last_handle ys else last_handle zs)"
  define m' where "m' = (case rev ys of
      [] \<Rightarrow> m\<lparr>list_items := (list_items m)(fst c := None),
             lists := (lists m)(l \<mapsto> \<lparr>head = first_or zs None, tail = t\<rparr>)\<rparr>
    | y # _ \<Rightarrow> m\<lparr>list_items := (list_items m)
                 (fst y \<mapsto> \<lparr>item = snd y, next_item = first_or zs None\<rparr>, fst c := None),
             lists := (lists m)(l \<mapsto> \<lparr>head = first_or (ys @ c # zs) None, tail = t\<rparr>)\<rparr>)"
  have c: "list_items m (fst c) = Some \<lparr>item = snd c, next_item = first_or zs None\<rparr>"
    "fst c \<notin> handles ys" "fst c \<notin> handles zs" using I(2,3) by auto
  have last: "Some (fst c) = last_handle (ys @ c # zs) \<longleftrightarrow> zs = []"
    using c(3) by (cases zs rule: rev_cases) auto
  have run: "unlink_item l (last_handle ys) (fst c) (first_or zs None) m = Some m'"
  proof (cases ys rule: rev_cases)
    case Nil
    then show ?thesis using I(1) c last
      by (cases "zs = []") (simp_all add: unlink_item_def list_writes m'_def t_def)
  next
    case (snoc ws y)
    have "list_items m (fst y) = Some \<lparr>item = snd y, next_item = Some (fst c)\<rparr>" "fst c \<noteq> fst y"
      using I(2) c(2) snoc by auto
    then show ?thesis using I(1) c last snoc
      by (cases m; cases "zs = []")
        (simp_all add: unlink_item_def list_writes m'_def t_def fun_upd_twist map_upd_triv)
  qed
  have frame: "list_frame m m'" "brk m' = brk m"
    by (simp_all add: m'_def list_frame_def split: list.split)
  have inv': "list_inv m' (C(l \<mapsto> ys @ zs))"
  proof (rule list_inv_replace [OF inv l])
    show "list_at m' l (ys @ zs)"
    proof (cases ys rule: rev_cases)
      case Nil
      then show ?thesis using I(2,3) by (simp add: list_at_def m'_def t_def)
    next
      case (snoc ws y)
      let ?h = "(list_items m)(fst y \<mapsto> \<lparr>item = snd y, next_item = first_or zs None\<rparr>)"
      have "lseg ?h (first_or ys (Some (fst c))) ys (first_or zs None)"
        using lseg_relink [of "list_items m" _ ws y "Some (fst c)" "first_or zs None"] I(2,3) snoc by simp
      moreover have "lseg ?h (first_or zs None) zs None" using I(2,3) snoc by auto
      ultimately show ?thesis using I(3) snoc c(2,3)
        by (cases "ws") (auto simp: list_at_def m'_def t_def)
    qed
    show "list_items m' a = list_items m a"
      if "a \<notin> handles (ys @ c # zs)" "a \<notin> handles (ys @ zs)" for a
      using that by (cases ys rule: rev_cases) (auto simp: m'_def)
    show "list_items m' a = None" if "a \<in> handles (ys @ c # zs)" "a \<notin> handles (ys @ zs)" for a
      using that by (cases ys rule: rev_cases) (auto simp: m'_def)
    show "lists m' k = lists m k" if "k \<noteq> l" for k using that by (simp add: m'_def split: list.split)
  qed (use frame in auto)
  have "list_items m' (fst z) = list_items m (fst z)" if "z \<in> set zs" for z
  proof -
    have "fst z \<in> handles zs" "handles ys \<inter> handles zs = {}" using that I(3) by auto
    then have "fst z \<notin> handles ys" "fst z \<noteq> fst c" using c(3) by (blast, metis)
    then show ?thesis by (cases ys rule: rev_cases) (simp_all add: m'_def)
  qed
  then show thesis using that run inv' frame by blast
qed

section \<open>Removing by handle\<close>

lemma split_at_handle:
  assumes "a \<in> handles xs" "distinct (map fst xs)"
  obtains ys c zs where "xs = ys @ c # zs" "fst c = a" "a \<notin> handles ys"
    "filter (\<lambda>x. fst x \<noteq> a) xs = ys @ zs"
proof -
  obtain c where "c \<in> set xs" "fst c = a" using assms(1) by auto
  moreover obtain ys zs where x: "xs = ys @ c # zs" using split_list [OF \<open>c \<in> set xs\<close>] by blast
  moreover have "a \<notin> handles ys" "a \<notin> handles zs" using assms(2) x \<open>fst c = a\<close> by auto
  moreover have "filter (\<lambda>x. fst x \<noteq> a) us = us" if "a \<notin> handles us" for us :: "(addr \<times> ptr) list"
    using that by (induction us) auto
  ultimately show thesis using that by simp
qed

lemma remove_loop_walk:
  assumes "lseg (list_items m) p ys q" "a \<notin> handles ys"
  shows "remove_loop l a r p m = remove_loop l a (if ys = [] then r else last_handle ys) q m"
  using assms
proof (induction ys arbitrary: p r)
  case (Cons x xs)
  then show ?case by (subst remove_loop.simps) auto
qed simp

lemma remove_spec:
  assumes inv: "list_inv m C" and l: "C l = Some xs"
  shows "ok (singlylinkedlist_remove (Some l) (Some a) m) (\<lambda>(r, m').
    (r = 0 \<longleftrightarrow> a \<in> handles xs) \<and> list_frame m m' \<and> brk m' = brk m \<and> (a \<notin> handles xs \<longrightarrow> m' = m) \<and>
    list_inv m' (C(l \<mapsto> filter (\<lambda>x. fst x \<noteq> a) xs)))"
proof (cases "a \<in> handles xs")
  case True
  note I = list_invD [OF inv l]
  obtain ys c zs where x: "xs = ys @ c # zs" "fst c = a" "a \<notin> handles ys"
    "filter (\<lambda>x. fst x \<noteq> a) xs = ys @ zs" using split_at_handle [OF True I(3)] .
  obtain m' where u: "unlink_item l (last_handle ys) (fst c) (first_or zs None) m = Some m'"
    "list_inv m' (C(l \<mapsto> ys @ zs))" "list_frame m m'" "brk m' = brk m"
    using unlink_spec [OF inv l [unfolded x(1)]] by blast
  have "remove_loop l a None (first_or xs None) m = remove_loop l a (last_handle ys) (Some (fst c)) m"
    using remove_loop_walk [of m "first_or xs None" ys "Some (fst c)" a l None] I(2) x
    by (auto simp: last_handle_def split: if_splits)
  also have "\<dots> = Some (0, m')"
    using I(2) x u(1) by (subst remove_loop.simps) simp
  finally show ?thesis
    using True I(1) u(2-) x(4) by (simp add: singlylinkedlist_remove_def)
next
  case False
  note I = list_invD [OF inv l]
  have f: "filter (\<lambda>x. fst x \<noteq> a) xs = xs" using False by (induction xs) auto
  have "remove_loop l a None (first_or xs None) m =
      remove_loop l a (if xs = [] then None else last_handle xs) None m"
    by (rule remove_loop_walk) (use I(2) False in simp_all)
  also have "\<dots> = Some (FAILURE, m)" by (subst remove_loop.simps) simp
  finally show ?thesis
    using False I(1) f inv l by (simp add: singlylinkedlist_remove_def map_upd_triv)
qed

section \<open>Looking up\<close>

lemma find_loop_spec:
  assumes "lseg (list_items m) p xs None"
    "\<And>x. x \<in> set xs \<Longrightarrow> f (Some (fst x)) ctx m = Some (P x, m)"
  shows "find_loop f ctx p m = Some (map_option fst (List.find P xs), m)"
  using assms
proof (induction xs arbitrary: p)
  case Nil
  then show ?case by (simp add: find_loop.simps)
next
  case (Cons x xs)
  then show ?case by (subst find_loop.simps) auto
qed

lemma find_spec:
  assumes "list_inv m C" "C l = Some xs"
    "\<And>x. x \<in> set xs \<Longrightarrow> f (Some (fst x)) ctx m = Some (P x, m)"
  shows "singlylinkedlist_find (Some l) (Some f) ctx m = Some (map_option fst (List.find P xs), m)"
  using list_invD [OF assms(1,2)] find_loop_spec [of m _ xs f ctx P, OF _ assms(3)]
  by (simp add: singlylinkedlist_find_def)

lemma list_inv_split:
  assumes "list_inv m C" "C l = Some (ys @ x # zs)"
  shows "list_items m (fst x) = Some \<lparr>item = snd x, next_item = first_or zs None\<rparr>"
  using list_invD(2) [OF assms] by simp

lemma accessors_spec:
  assumes "list_inv m C" "C l = Some xs"
  shows "singlylinkedlist_get_head_item (Some l) m = Some (first_or xs None)"
    "xs = ys @ x # zs \<Longrightarrow> singlylinkedlist_get_next_item (Some (fst x)) m = Some (first_or zs None)"
    "xs = ys @ x # zs \<Longrightarrow> singlylinkedlist_item_get_value (Some (fst x)) m = Some (snd x)"
  using list_invD(1) [OF assms] list_inv_split [of m C l ys x zs] assms
  by (simp_all add: singlylinkedlist_get_head_item_def singlylinkedlist_get_next_item_def
      singlylinkedlist_item_get_value_def)

section \<open>Visiting\<close>

text \<open>
  What \<open>foreach\<close> computes, over the values of the list; the action may change the memory as
  long as it leaves the lists alone.
\<close>

fun visit :: "'m action_function \<Rightarrow> ptr \<Rightarrow> ptr list \<Rightarrow> 'm \<Rightarrow> 'm option" where
  "visit action ctx [] m = Some m"
| "visit action ctx (v # vs) m = do {
     (continue_processing, m) \<leftarrow> action v ctx m;
     if continue_processing then visit action ctx vs m else Some m }"

definition keeps_lists :: "'z lmem_scheme action_function \<Rightarrow> ptr \<Rightarrow> contents \<Rightarrow> bool" where
  "keeps_lists action ctx C \<longleftrightarrow>
     (\<forall>v m. list_inv m C \<longrightarrow> ok (action v ctx m) (\<lambda>(_, m'). list_inv m' C))"

lemma foreach_loop_spec:
  assumes "list_inv m C" "C l = Some (ys @ xs)" "keeps_lists action ctx C"
  shows "ok (visit action ctx (map snd xs) m) (\<lambda>m'. list_inv m' C \<and>
    foreach_loop action ctx (first_or xs None) m = Some m')"
  using assms
proof (induction xs arbitrary: m ys)
  case Nil
  then show ?case by (simp add: foreach_loop.simps)
next
  case (Cons x xs)
  have i: "list_items m' (fst x) = Some \<lparr>item = snd x, next_item = first_or xs None\<rparr>"
    if "list_inv m' C" for m' :: "'a lmem_scheme"
    by (rule list_inv_split [OF that Cons.prems(2)])
  have "ok (action (snd x) ctx m) (\<lambda>(_, m'). list_inv m' C)"
    using Cons.prems(1,3) by (simp add: keeps_lists_def)
  then obtain b m' where a: "action (snd x) ctx m = Some (b, m')" "list_inv m' C"
    by (cases "action (snd x) ctx m") auto
  have "C l = Some ((ys @ [x]) @ xs)" using Cons.prems(2) by simp
  from Cons.IH [OF a(2) this Cons.prems(3)] show ?case
    using a i [OF Cons.prems(1)] i [OF a(2)] by (subst foreach_loop.simps) simp
qed

lemma foreach_spec:
  assumes "list_inv m C" "C l = Some xs" "keeps_lists action ctx C"
  shows "ok (visit action ctx (map snd xs) m) (\<lambda>m'. list_inv m' C \<and>
    singlylinkedlist_foreach (Some l) (Some action) ctx m = Some (0, m'))"
proof -
  have "C l = Some ([] @ xs)" using assms(2) by simp
  from foreach_loop_spec [OF assms(1) this assms(3)] show ?thesis
    by (rule ok_mono) (simp add: singlylinkedlist_foreach_def list_invD(1) [OF assms(1,2)])
qed

section \<open>Removing by condition\<close>

text \<open>
  \<open>remove_if\<close> over the sequence: \<open>f\<close> says, for a value and the state \<open>z\<close> of the caller, whether
  the item goes and whether the walk goes on.
\<close>

fun sweep :: "(ptr \<Rightarrow> 'z \<Rightarrow> (bool \<times> bool) \<times> 'z) \<Rightarrow> (addr \<times> ptr) list \<Rightarrow> 'z \<Rightarrow> (addr \<times> ptr) list \<times> 'z" where
  "sweep f [] z = ([], z)"
| "sweep f (x # xs) z =
     (let ((b, continue_processing), z') = f (snd x) z;
          (xs', z'') = if continue_processing then sweep f xs z' else (xs, z')
      in (if b then xs' else x # xs', z''))"

text \<open>A condition function that works on the caller's part of the memory only.\<close>

definition acts_as ::
  "'z lmem_scheme condition_function \<Rightarrow> ptr \<Rightarrow> (ptr \<Rightarrow> 'z \<Rightarrow> (bool \<times> bool) \<times> 'z) \<Rightarrow> bool" where
  "acts_as cond ctx f \<longleftrightarrow>
     (\<forall>v m. cond v ctx m =
        Some (fst (f v (lmem.more m)), lmem.more_update (\<lambda>_. snd (f v (lmem.more m))) m))"

lemma list_inv_more [simp]: "list_inv (lmem.more_update g m) C = list_inv m C"
  by (simp add: list_inv_def list_at_def)

lemma remove_if_loop_spec:
  assumes "list_inv m C" "C l = Some (ys @ xs)" "acts_as cond ctx f"
  shows "ok (remove_if_loop cond ctx l (last_handle ys) (first_or xs None) m) (\<lambda>m'.
    list_inv m' (C(l \<mapsto> ys @ fst (sweep f xs (lmem.more m)))) \<and>
    lmem.more m' = snd (sweep f xs (lmem.more m)) \<and>
    grants m' = grants m \<and> blocks m' = blocks m \<and> chars m' = chars m \<and> brk m' = brk m \<and>
    buffers m' = buffers m \<and> strs m' = strs m \<and> codecs m' = codecs m \<and> messages m' = messages m \<and>
    tick_counters m' = tick_counters m \<and> xios m' = xios m)"
  using assms
proof (induction xs arbitrary: m ys C)
  case Nil
  then show ?case by (subst remove_if_loop.simps) (simp add: map_upd_triv)
next
  case (Cons x xs)
  obtain b go z where f: "f (snd x) (lmem.more m) = ((b, go), z)" by (metis surj_pair)
  let ?m = "lmem.more_update (\<lambda>_. z) m"
  have i: "list_items m (fst x) = Some \<lparr>item = snd x, next_item = first_or xs None\<rparr>"
    by (rule list_inv_split [OF Cons.prems(1,2)])
  have c: "cond (snd x) ctx m = Some ((b, go), ?m)" using Cons.prems(3) f by (simp add: acts_as_def)
  show ?case
  proof (cases b)
    case True
    obtain m' where u: "unlink_item l (last_handle ys) (fst x) (first_or xs None) ?m = Some m'"
      "list_inv m' (C(l \<mapsto> ys @ xs))" "list_frame ?m m'" "brk m' = brk ?m"
      using unlink_spec [of ?m C l ys x xs] Cons.prems by (metis list_inv_more)
    have run: "remove_if_loop cond ctx l (last_handle ys) (first_or (x # xs) None) m =
        (if go then remove_if_loop cond ctx l (last_handle ys) (first_or xs None) m' else Some m')"
      using True i c u(1) by (subst remove_if_loop.simps) simp
    have "lmem.more m' = z" using u(3) by (simp add: list_frame_def)
    then show ?thesis
      using Cons.IH [OF u(2) _ Cons.prems(3), of ys] u True f unfolding run
      by (cases go) (simp_all add: list_frame_def case_prod_beta fun_upd_def cong: if_cong)
  next
    case False
    have run: "remove_if_loop cond ctx l (last_handle ys) (first_or (x # xs) None) m =
        (if go then remove_if_loop cond ctx l (last_handle (ys @ [x])) (first_or xs None) ?m else Some ?m)"
      using False i c by (subst remove_if_loop.simps) simp
    show ?thesis
      using Cons.IH [of ?m C "ys @ [x]"] Cons.prems False f unfolding run
      by (cases go) (simp_all add: case_prod_beta map_upd_triv)
  qed
qed

lemma remove_if_spec:
  assumes "list_inv m C" "C l = Some xs" "acts_as cond ctx f"
  shows "ok (singlylinkedlist_remove_if (Some l) (Some cond) ctx m) (\<lambda>(r, m'). r = 0 \<and>
    list_inv m' (C(l \<mapsto> fst (sweep f xs (lmem.more m)))) \<and>
    lmem.more m' = snd (sweep f xs (lmem.more m)) \<and>
    grants m' = grants m \<and> blocks m' = blocks m \<and> chars m' = chars m \<and> brk m' = brk m \<and>
    buffers m' = buffers m \<and> strs m' = strs m \<and> codecs m' = codecs m \<and> messages m' = messages m \<and>
    tick_counters m' = tick_counters m \<and> xios m' = xios m)"
  using remove_if_loop_spec [OF assms(1) _ assms(3), of l "[]" xs] list_invD(1) [OF assms(1,2)] assms(2)
  by (simp add: singlylinkedlist_remove_if_def)

lemma sweep_all: "sweep (\<lambda>v z. ((P v, True), z)) xs z = (filter (\<lambda>x. \<not> P (snd x)) xs, z)"
  by (induction xs) simp_all

end
