(* ===== verification/List_Properties.thy ===== *)
theory List_Properties
  imports List_Rules
begin

text \<open>
  The properties of the singly linked list, over the sequences of items that the heap holds
  (\<open>list_inv\<close> of \<^theory_text>\<open>List_Rules\<close>), with a sample heap of two lists for the witnesses.
\<close>

section \<open>A sample heap\<close>

definition two_lists :: "'z \<Rightarrow> 'z lmem_scheme" where
  "two_lists z = \<lparr>grants = \<lambda>_ _. True, brk = 9, blocks = Map.empty, chars = Map.empty, buffers = Map.empty, strs = Map.empty,
     codecs = Map.empty, messages = Map.empty, tick_counters = Map.empty, xios = Map.empty,
     list_items = [1 \<mapsto> \<lparr>item = Some 70, next_item = Some 2\<rparr>, 2 \<mapsto> \<lparr>item = Some 71, next_item = Some 3\<rparr>,
                   3 \<mapsto> \<lparr>item = Some 70, next_item = None\<rparr>],
     lists = [5 \<mapsto> \<lparr>head = Some 1, tail = Some 3\<rparr>, 6 \<mapsto> \<lparr>head = None, tail = None\<rparr>], \<dots> = z\<rparr>"

definition two_contents :: contents where
  "two_contents = [5 \<mapsto> [(1, Some 70), (2, Some 71), (3, Some 70)], 6 \<mapsto> []]"

lemma two_lists_inv: "list_inv (two_lists z) two_contents"
proof -
  have "dom (lists (two_lists z)) = dom two_contents"
    by (auto simp: two_lists_def two_contents_def)
  moreover have "list_at (two_lists z) l xs" if "two_contents l = Some xs" for l xs
    using that by (auto simp: two_lists_def two_contents_def list_at_def split: if_splits)
  moreover have "apart two_contents"
    by (auto simp: two_contents_def apart_def)
  moreover have "list_items (two_lists z) a \<noteq> None \<longleftrightarrow>
      (\<exists>k ys. two_contents k = Some ys \<and> a \<in> handles ys)" for a
    by (auto simp: two_lists_def two_contents_def)
  moreover have "list_items (two_lists z) a = None \<and> lists (two_lists z) a = None"
    if "brk (two_lists z) \<le> a" for a
    using that by (auto simp: two_lists_def)
  ultimately show ?thesis unfolding list_inv_def by blast
qed

lemma two_contents_5: "two_contents 5 = Some [(1, Some 70), (2, Some 71), (3, Some 70)]"
  by (simp add: two_contents_def)

lemma two_contents_6: "two_contents 6 = Some []"
  by (simp add: two_contents_def)

section \<open>Properties\<close>

text \<open>
  \<open>singlylinkedlist_add\<close> appends the item at the tail of the list and returns its handle, which
  no item of any list had; when the allocation fails it returns NULL and every list is as it was.
  The other lists, and all the rest of the memory, do not change.
\<close>
theorem list_add:
  assumes "list_inv m C" "C l = Some xs"
  shows "ok (singlylinkedlist_add (Some l) (Some v) m) (\<lambda>(r, m'). list_frame m m' \<and>
    (case r of None \<Rightarrow> list_inv m' C
     | Some a \<Rightarrow> (\<forall>k ys. C k = Some ys \<longrightarrow> a \<notin> handles ys) \<and> list_inv m' (C(l \<mapsto> xs @ [(a, Some v)]))))"
  by (rule add_spec [OF assms])

lemma list_add_witness:
  "ok (singlylinkedlist_add (Some 6) (Some 4) (two_lists ())) (\<lambda>(r, m').
     list_frame (two_lists ()) m' \<and> (case r of None \<Rightarrow> list_inv m' two_contents
     | Some a \<Rightarrow> (\<forall>k ys. two_contents k = Some ys \<longrightarrow> a \<notin> handles ys) \<and>
         list_inv m' (two_contents(6 \<mapsto> [] @ [(a, Some 4)]))))"
  by (rule list_add [OF two_lists_inv two_contents_6])

text \<open>
  \<open>singlylinkedlist_remove\<close> of a handle takes the item with that handle out of its list,
  frees it and returns 0; for a handle that is not in the list it fails and changes nothing.
\<close>
theorem list_remove:
  assumes "list_inv m C" "C l = Some xs"
  shows "ok (singlylinkedlist_remove (Some l) (Some a) m) (\<lambda>(r, m').
    (r = 0 \<longleftrightarrow> a \<in> handles xs) \<and> list_frame m m' \<and> (a \<notin> handles xs \<longrightarrow> m' = m) \<and>
    list_inv m' (C(l \<mapsto> filter (\<lambda>x. fst x \<noteq> a) xs)))"
  by (rule ok_mono [OF remove_spec [OF assms]]) auto

lemma list_remove_witness:
  "ok (singlylinkedlist_remove (Some 5) (Some 3) (two_lists ())) (\<lambda>(r, m').
     (r = 0 \<longleftrightarrow> 3 \<in> handles [(1, Some 70), (2, Some 71), (3, Some 70)]) \<and> list_frame (two_lists ()) m' \<and>
     (3 \<notin> handles [(1, Some 70), (2, Some 71), (3, Some 70)] \<longrightarrow> m' = two_lists ()) \<and>
     list_inv m' (two_contents(5 \<mapsto> filter (\<lambda>x. fst x \<noteq> 3) [(1, Some 70), (2, Some 71), (3, Some 70)])))"
  by (rule list_remove [OF two_lists_inv two_contents_5])

text \<open>
  C24: Removing with the handle that \<open>singlylinkedlist_add\<close> returned gives
  back the lists as they were before, whatever the list held.
\<close>
theorem list_add_remove:
  assumes "list_inv m C" "C l = Some xs"
  shows "ok (do {
      (a, m) \<leftarrow> singlylinkedlist_add (Some l) (Some v) m;
      (r, m) \<leftarrow> singlylinkedlist_remove (Some l) a m;
      Some (a, r, m) }) (\<lambda>(a, r, m'). (r = 0 \<longleftrightarrow> a \<noteq> None) \<and> list_inv m' C \<and> list_frame m m')"
proof (rule ok_bind2I [OF add_spec [OF assms]], goal_cases)
  case (1 r m1)
  show ?case
  proof (cases r)
    case None
    then show ?thesis using 1 by (simp add: singlylinkedlist_remove_def)
  next
    case (Some a)
    have a: "a \<notin> handles xs" using 1 Some assms(2) by auto
    then have f: "filter (\<lambda>x. fst x \<noteq> a) xs = xs" by (induction xs) auto
    have inv: "list_inv m1 (C(l \<mapsto> xs @ [(a, Some v)]))" using 1 Some by simp
    have "ok (singlylinkedlist_remove (Some l) (Some a) m1) (\<lambda>(r, m'). r = 0 \<and> list_frame m1 m' \<and> list_inv m' C)"
      by (rule ok_mono2 [OF remove_spec [OF inv]]) (use f assms(2) in \<open>auto simp: map_upd_triv\<close>)
    then show ?thesis using 1 Some list_frame_trans by (auto simp: ok_iff)
  qed
qed

lemma list_add_remove_witness:
  "ok (do {
      (a, m) \<leftarrow> singlylinkedlist_add (Some 5) (Some 4) (two_lists ());
      (r, m) \<leftarrow> singlylinkedlist_remove (Some 5) a m;
      Some (a, r, m) }) (\<lambda>(a, r, m'). (r = 0 \<longleftrightarrow> a \<noteq> None) \<and> list_inv m' two_contents \<and>
        list_frame (two_lists ()) m')"
  by (rule list_add_remove [OF two_lists_inv two_contents_5])

text \<open>
  \<open>singlylinkedlist_destroy\<close> frees the list and every item of it, and nothing else: afterwards
  the heap holds exactly the other lists, with no item lost.
\<close>
theorem list_destroy:
  assumes "list_inv m C" "C l = Some xs"
  shows "ok (singlylinkedlist_destroy (Some l) m) (\<lambda>m'. list_inv m' (C(l := None)) \<and> list_frame m m')"
  by (rule list_destroy_spec [OF assms])

lemma list_destroy_witness:
  "ok (singlylinkedlist_destroy (Some 5) (two_lists ())) (\<lambda>m'.
     list_inv m' (two_contents(5 := None)) \<and> list_frame (two_lists ()) m')"
  by (rule list_destroy [OF two_lists_inv two_contents_5])

text \<open>
  \<open>singlylinkedlist_remove_if\<close> with a condition function that always asks to go on keeps, in
  their order, exactly the items whose values do not satisfy the condition.
\<close>
theorem list_remove_if:
  assumes "list_inv m C" "C l = Some xs" "acts_as cond ctx (\<lambda>v z. ((P v, True), z))"
  shows "ok (singlylinkedlist_remove_if (Some l) (Some cond) ctx m) (\<lambda>(r, m').
    r = 0 \<and> list_inv m' (C(l \<mapsto> filter (\<lambda>x. \<not> P (snd x)) xs)) \<and> list_frame m m')"
  by (rule ok_mono2 [OF remove_if_spec [OF assms]]) (simp add: sweep_all list_frame_def)

lemma list_remove_if_witness:
  "ok (singlylinkedlist_remove_if (Some 5) (Some (\<lambda>v ctx m. Some ((v = ctx, True), m))) (Some 70) (two_lists ()))
    (\<lambda>(r, m'). r = 0 \<and>
      list_inv m' (two_contents(5 \<mapsto> filter (\<lambda>x. \<not> snd x = Some 70) [(1, Some 70), (2, Some 71), (3, Some 70)])) \<and>
      list_frame (two_lists ()) m')"
  by (rule list_remove_if [OF two_lists_inv two_contents_5]) (simp add: acts_as_def)

text \<open>
  \<open>singlylinkedlist_find\<close> with a match function that only looks returns the handle of the first
  item that matches, NULL when none does, and changes nothing.
\<close>
theorem list_find:
  assumes "list_inv m C" "C l = Some xs"
    "\<And>x. x \<in> set xs \<Longrightarrow> f (Some (fst x)) ctx m = Some (P x, m)"
  shows "singlylinkedlist_find (Some l) (Some f) ctx m = Some (map_option fst (List.find P xs), m)"
  by (rule find_spec [of m C l xs f ctx P, OF assms])

lemma list_find_witness:
  "singlylinkedlist_find (Some 5)
     (Some (\<lambda>h ctx m. do { v \<leftarrow> singlylinkedlist_item_get_value h m; Some (v = ctx, m) })) (Some 71)
     (two_lists ()) = Some (Some 2, two_lists ())"
proof -
  have "singlylinkedlist_find (Some 5)
     (Some (\<lambda>h ctx m. do { v \<leftarrow> singlylinkedlist_item_get_value h m; Some (v = ctx, m) })) (Some 71)
     (two_lists ()) =
     Some (map_option fst (List.find (\<lambda>x :: addr \<times> ptr. snd x = Some 71) [(1, Some 70), (2, Some 71), (3, Some 70)]), two_lists ())"
    by (rule list_find [OF two_lists_inv two_contents_5])
      (auto simp: singlylinkedlist_item_get_value_def two_lists_def)
  then show ?thesis by simp
qed

text \<open>
  \<open>singlylinkedlist_foreach\<close> ends and is the loop over the values of the list, in order and up to
  the first one whose action does not ask to go on, for any action that leaves the lists alone.
\<close>
theorem list_foreach:
  assumes "list_inv m C" "C l = Some xs" "keeps_lists action ctx C"
  shows "ok (visit action ctx (map snd xs) m) (\<lambda>m'. list_inv m' C \<and>
    singlylinkedlist_foreach (Some l) (Some action) ctx m = Some (0, m'))"
  by (rule foreach_spec [OF assms])

lemma list_foreach_witness:
  "ok (visit (\<lambda>v ctx m. Some (v \<noteq> ctx, lmem.more_update (\<lambda>vs. vs @ [v]) m)) (Some 71)
      (map snd [(1 :: addr, Some 70), (2, Some 71), (3, Some 70)]) (two_lists []))
    (\<lambda>m'. list_inv m' two_contents \<and>
      singlylinkedlist_foreach (Some 5) (Some (\<lambda>v ctx m. Some (v \<noteq> ctx, lmem.more_update (\<lambda>vs. vs @ [v]) m)))
        (Some 71) (two_lists []) = Some (0, m'))"
  by (rule list_foreach [OF two_lists_inv two_contents_5]) (simp add: keeps_lists_def)

end
