(* ===== verification/Crt_Rules.thy ===== *)
theory Crt_Rules
  imports Crt
begin

text \<open>
  What the conversions of \<^theory_text>\<open>Crt\<close> compute: the decimal digits of a number, and the
  value of a sequence of digits.
\<close>

section \<open>Decimal digits\<close>

definition digit_char :: "nat \<Rightarrow> u8" where
  "digit_char n = of_char (CHR ''0'') + of_nat n"

text \<open>The decimal representation, and the digits as the loop of the source finds them.\<close>

fun decimal :: "nat \<Rightarrow> cstring" where
  "decimal n = (if n < 10 then [digit_char n] else decimal (n div 10) @ [digit_char (n mod 10)])"

fun rev_digits :: "nat \<Rightarrow> cstring" where
  "rev_digits n = digit_char (n mod 10) # (if n div 10 = 0 then [] else rev_digits (n div 10))"

declare decimal.simps [simp del] rev_digits.simps [simp del]

lemma rev_digits_decimal: "rev_digits n = rev (decimal n)"
  by (induction n rule: decimal.induct) (subst rev_digits.simps, subst decimal.simps, auto)

lemma decimal_not_Nil [simp]: "decimal n \<noteq> []"
  by (subst decimal.simps) simp

lemma length_decimal_pos: "0 < length (decimal n)"
  by simp

lemma digit_char_unat: "n < 10 \<Longrightarrow> unat (digit_char n) = 48 + n"
  by (simp add: digit_char_def unat_word_ariths unat_of_nat take_bit_nat_eq_self)

lemma digit_char_nonzero: "n < 10 \<Longrightarrow> digit_char n \<noteq> 0"
  using digit_char_unat [of n] by (metis add_is_0 unsigned_0 zero_neq_numeral)

lemma decimal_chars: "c \<in> set (decimal n) \<Longrightarrow> \<exists>k < 10. c = digit_char k"
proof (induction n rule: decimal.induct)
  case (1 n)
  then show ?case
    by (subst (asm) (2) decimal.simps) (auto split: if_splits, metis mod_less_divisor zero_less_numeral)
qed

lemma decimal_nonzero: "0 \<notin> set (decimal n)"
  using decimal_chars digit_char_nonzero by metis

lemma length_rev_digits: "0 < length (rev_digits n)"
  by (subst rev_digits.simps) simp

lemma write_at_step:
  "k + Suc (length xs) \<le> length ys \<Longrightarrow> write_at (Suc k) xs (write_at k [x] ys) = write_at k (x # xs) ys"
  by (simp add: write_at_def add.commute)

lemma unat_minus_1: "0 < unat (n :: u32) \<Longrightarrow> unat (n - 1) = unat n - 1"
  by (metis One_nat_def Suc_le_eq unat_1 unat_sub word_le_nat_alt)

lemma digit_written: "48 + (ucast (v mod 10 :: u32) :: u8) = digit_char (unat v mod 10)"
proof -
  have "(ucast (v mod 10) :: u8) = of_nat (unat (v mod 10))" by (simp add: of_nat_unat)
  then show ?thesis by (simp add: digit_char_def unat_mod)
qed

text \<open>The number of digits that fit between the position \<open>p\<close> and the last byte of the array.\<close>

definition fitting :: "u32 \<Rightarrow> u32 \<Rightarrow> u32 \<Rightarrow> nat" where
  "fitting n v p = min (length (rev_digits (unat v))) (unat n - 1 - unat p)"

lemma put_digits_spec:
  assumes "chars m a = Some bs" "i + unat n \<le> length bs" "unat p + 1 < unat n"
  shows "put_digits (a, i) n v p m = Some (of_nat (unat v div 10 ^ fitting n v p), of_nat (unat p + fitting n v p),
    m\<lparr>chars := (chars m)(a \<mapsto>
      write_at (i + unat p) (map Some (take (fitting n v p) (rev_digits (unat v)))) bs)\<rparr>)"
  using assms
proof (induction "unat v" arbitrary: v p m bs rule: less_induct)
  case less
  let ?d = "digit_char (unat v mod 10)"
  let ?bs = "write_at (i + unat p) [Some ?d] bs"
  let ?m = "m\<lparr>chars := (chars m)(a \<mapsto> ?bs)\<rparr>"
  have wr: "cwrite (a, i + unat p) [Some ?d] m = Some ?m" using less.prems by simp
  have p1: "unat (p + 1) = unat p + 1"
  proof -
    have "unat p + 1 < 4294967296" using less.prems(3) unat_lt_u32 [of n] by linarith
    then show ?thesis by (simp add: unat_add_u32)
  qed
  have n1: "unat (n - 1) = unat n - 1" using less.prems(3) by (intro unat_minus_1) simp
  have v1: "unat (v div 10) = unat v div 10" by (simp add: unat_div)
  show ?case
  proof (cases "v div 10 > 0 \<and> p + 1 < n - 1")
    case True
    then have more: "0 < unat v div 10" and room: "unat (p + 1) + 1 < unat n"
      using n1 p1 by (simp_all add: word_less_nat_alt v1 less_diff_conv)
    have k: "fitting n v p = Suc (fitting n (v div 10) (p + 1))"
      using more room p1 by (subst fitting_def, subst rev_digits.simps) (simp add: fitting_def v1)
    have "unat (v div 10) < unat v" using more by (simp add: v1)
    note IH = less.hyps [OF this, of ?m ?bs "p + 1"]
    have "put_digits (a, i) n v p m = put_digits (a, i) n (v div 10) (p + 1) ?m"
      using True by (subst put_digits.simps) (simp add: wr digit_written)
    also have "\<dots> = Some (of_nat (unat v div 10 ^ fitting n v p), of_nat (unat p + fitting n v p),
      m\<lparr>chars := (chars m)(a \<mapsto>
        write_at (i + unat p) (map Some (take (fitting n v p) (rev_digits (unat v)))) bs)\<rparr>)"
    proof -
      have "rev_digits (unat v) = ?d # rev_digits (unat v div 10)"
        using more by (subst rev_digits.simps) simp
      then have t: "map Some (take (fitting n v p) (rev_digits (unat v))) =
          Some ?d # map Some (take (fitting n (v div 10) (p + 1)) (rev_digits (unat v div 10)))"
        using k by simp
      have "fitting n (v div 10) (p + 1) + unat p + 1 \<le> unat n"
        using room p1 by (simp add: fitting_def)
      then have "write_at (i + unat (p + 1)) (map Some (take (fitting n (v div 10) (p + 1)) (rev_digits (unat v div 10)))) ?bs
          = write_at (i + unat p) (map Some (take (fitting n v p) (rev_digits (unat v)))) bs"
        unfolding t using less.prems(2) p1
        by (subst write_at_step [symmetric]) (auto simp: min_def)
      then show ?thesis
        using IH room less.prems(1,2) k by (simp add: v1 p1 div_mult2_eq)
    qed
    finally show ?thesis .
  next
    case False
    have k: "fitting n v p = 1"
    proof (cases "unat v div 10 = 0")
      case True
      then show ?thesis using less.prems(3) by (subst fitting_def, subst rev_digits.simps) simp
    next
      case more: False
      then have "\<not> unat p + 1 < unat n - 1" using False n1 p1 by (simp add: word_less_nat_alt v1)
      then have "unat n - 1 - unat p = 1" using less.prems(3) by linarith
      then show ?thesis using length_rev_digits [of "unat v"] unfolding fitting_def by linarith
    qed
    have "take 1 (rev_digits (unat v)) = [?d]" by (subst rev_digits.simps) simp
    moreover have "of_nat (unat p + 1) = p + 1" by simp
    moreover have "of_nat (unat v div 10) = v div 10" using v1 by (metis of_nat_unat_u32)
    ultimately show ?thesis
      using False by (subst put_digits.simps) (auto simp: wr digit_written k Let_def add.commute)
  qed
qed

section \<open>Reversal\<close>

lemma swap_loop_spec:
  assumes "chars m a = Some (xs @ as @ mid @ bs @ ys)" "length xs = i" "length as = unat w" "length bs = unat w"
    "unat pos = length (as @ mid @ bs)" "0 < unat pos"
  shows "swap_loop (a, i) pos w m = Some (m\<lparr>chars := (chars m)(a \<mapsto> xs @ as @ rev mid @ bs @ ys)\<rparr>)"
  using assms
proof (induction "length mid" arbitrary: as mid bs w m rule: less_induct)
  case less
  have half: "unat (drop_bit 1 (pos - 1)) = (unat pos - 1) div 2"
  proof -
    have "unat (pos - 1) = unat pos - 1"
      using less.prems(6) by (metis One_nat_def Suc_le_eq unat_1 unat_sub word_le_nat_alt)
    then show ?thesis by (simp add: drop_bit_eq_div unat_div)
  qed
  have go: "w \<le> drop_bit 1 (pos - 1) \<longleftrightarrow> mid \<noteq> []"
    using less.prems(3-6) unfolding word_le_nat_alt half by (cases mid) auto
  show ?case
  proof (cases "mid = []")
    case True
    then show ?thesis using go less.prems(1)
      by (subst swap_loop.simps) (simp add: map_upd_triv)
  next
    case False
    have w1: "unat (w + 1) = Suc (unat w)"
    proof -
      have "unat w < unat pos" using False less.prems(3,5) by (cases mid) auto
      then have "unat w + 1 < 4294967296" using unat_lt_u32 [of pos] by linarith
      then show ?thesis by (simp add: unat_add_u32)
    qed
    have last: "unat (pos - 1 - w) = unat w + length mid - 1"
    proof -
      have "1 \<le> pos" using less.prems(6) by (simp add: word_le_nat_alt)
      moreover have "unat w \<le> (unat pos - 1) div 2"
        using go False by (simp only: word_le_nat_alt half) simp
      then have "w \<le> pos - 1"
        unfolding word_le_nat_alt unat_minus_1 [OF less.prems(6)] by (meson div_le_dividend le_trans)
      ultimately show ?thesis using less.prems(3-5) by (simp add: unat_sub)
    qed
    show ?thesis
    proof (cases "length mid = 1")
      case True
      then obtain x where x: "mid = [x]" by (auto simp: length_Suc_conv)
      have "swap_loop (a, i) pos w m = swap_loop (a, i) pos (w + 1) m"
        using go False less.prems(1-4)
        by (subst swap_loop.simps) (simp add: cread_def last x write_at_def map_upd_triv)
      also have "\<dots> = Some m"
      proof -
        have "\<not> w + 1 \<le> drop_bit 1 (pos - 1)"
          unfolding word_le_nat_alt half w1 using less.prems(3-5) x by simp
        then show ?thesis by (subst swap_loop.simps) simp
      qed
      finally show ?thesis using less.prems(1) by (simp add: x map_upd_triv)
    next
      case two: False
      then obtain x mid' y where mid: "mid = x # mid' @ [y]"
        using False by (metis append_butlast_last_id length_Cons list.size(3) neq_Nil_conv One_nat_def)
      let ?as = "as @ [y]" and ?bs = "x # bs"
      let ?m = "m\<lparr>chars := (chars m)(a \<mapsto> xs @ ?as @ mid' @ ?bs @ ys)\<rparr>"
      have "swap_loop (a, i) pos w m = swap_loop (a, i) pos (w + 1) ?m"
        using go False less.prems(1-4)
        by (subst swap_loop.simps) (simp add: cread_def last mid write_at_def)
      also have "\<dots> = Some (?m\<lparr>chars := (chars ?m)(a \<mapsto> xs @ ?as @ rev mid' @ ?bs @ ys)\<rparr>)"
        by (rule less.hyps) (use less.prems mid w1 in simp_all)
      finally show ?thesis by (simp add: mid)
    qed
  qed
qed

section \<open>Printing\<close>

lemma rev_digits_left: "n div 10 ^ length (rev_digits n) = 0 \<and>
    (k < length (rev_digits n) \<longrightarrow> k \<noteq> 0 \<longrightarrow> n div 10 ^ k \<noteq> 0)"
proof (induction n arbitrary: k rule: rev_digits.induct)
  case (1 n)
  show ?case
  proof (cases "n div 10 = 0")
    case True
    then show ?thesis by (subst (1 2) rev_digits.simps) simp
  next
    case False
    have d: "n div 10 ^ Suc j = n div 10 div 10 ^ j" for j by (simp add: div_mult2_eq)
    have l: "length (rev_digits n) = Suc (length (rev_digits (n div 10)))"
      using False by (subst rev_digits.simps) simp
    have IH: "n div 10 div 10 ^ length (rev_digits (n div 10)) = 0"
      "j < length (rev_digits (n div 10)) \<Longrightarrow> j \<noteq> 0 \<Longrightarrow> n div 10 div 10 ^ j \<noteq> 0" for j
      using 1 [OF False] by blast+
    show ?thesis
    proof (intro conjI impI)
      show "n div 10 ^ length (rev_digits n) = 0" unfolding l d by (rule IH)
      assume "k < length (rev_digits n)" "k \<noteq> 0"
      then obtain j where j: "k = Suc j" "j < length (rev_digits (n div 10))"
        unfolding l by (cases k) auto
      show "n div 10 ^ k \<noteq> 0" unfolding j(1) d using IH(2) [OF j(2)] False by (cases "j = 0") simp_all
    qed
  qed
qed

lemma to_string_spec:
  assumes bs: "chars m a = Some bs" and room: "i + unat n \<le> length bs" and n: "2 \<le> unat n"
  shows "unsignedIntToString (Some (a, i)) n v m =
    (if length (decimal (unat v)) < unat n
     then Some (0, m\<lparr>chars := (chars m)(a \<mapsto> write_at i (cstr (decimal (unat v))) bs)\<rparr>)
     else Some (FAILURE, m\<lparr>chars := (chars m)(a \<mapsto>
       write_at i (map Some (take (unat n - 1) (rev_digits (unat v)))) bs)\<rparr>))"
proof -
  let ?k = "fitting n v 0" and ?ds = "rev_digits (unat v)"
  have len: "length ?ds = length (decimal (unat v))" by (simp add: rev_digits_decimal)
  have small: "unat v div 10 ^ j < 4294967296" for j
    using unat_lt_u32 [of v] div_le_dividend [of "unat v" "10 ^ j"] by linarith
  have pd: "put_digits (a, i) n v 0 m = Some (of_nat (unat v div 10 ^ ?k), of_nat ?k,
      m\<lparr>chars := (chars m)(a \<mapsto> write_at i (map Some (take ?k ?ds)) bs)\<rparr>)"
    using put_digits_spec [OF bs room, of 0 v] n by simp
  have guard: "\<not> n < 2" using n by (simp add: word_less_nat_alt)
  show ?thesis
  proof (cases "length (decimal (unat v)) < unat n")
    case True
    then have k: "?k = length ?ds" by (simp add: fitting_def len)
    have left: "unat v div 10 ^ ?k = 0" unfolding k using rev_digits_left by blast
    define pos where "pos = (of_nat ?k :: u32)"
    have "length ?ds < 4294967296" using True unat_lt_u32 [of n] len by linarith
    then have pos: "unat pos = length ?ds" by (simp add: pos_def k)
    let ?bs = "take i bs @ map Some ?ds @ Some 0 # drop (i + Suc (length ?ds)) bs"
    have w1: "write_at (i + unat pos) [Some 0] (write_at i (map Some ?ds) bs) = ?bs"
      using room True len pos by (simp add: write_at_def)
    have rev: "take i bs @ [] @ rev (map Some ?ds) @ [] @ Some 0 # drop (i + Suc (length ?ds)) bs =
        write_at i (cstr (decimal (unat v))) bs"
      by (simp add: write_at_def cstr_def rev_map [symmetric] rev_digits_decimal)
    have swap: "swap_loop (a, i) pos 0 (m\<lparr>chars := (chars m)(a \<mapsto> ?bs)\<rparr>) =
        Some (m\<lparr>chars := (chars m)(a \<mapsto> write_at i (cstr (decimal (unat v))) bs)\<rparr>)"
      unfolding rev [symmetric] using room True len pos length_rev_digits [of "unat v"]
      by (subst swap_loop_spec [where xs = "take i bs" and as = "[]" and bs = "[]" and mid = "map Some ?ds"]) simp_all
    have pd': "put_digits (a, i) n v 0 m =
        Some (0, pos, m\<lparr>chars := (chars m)(a \<mapsto> write_at i (map Some ?ds) bs)\<rparr>)"
      using pd left by (simp add: pos_def k)
    have "cwrite (a, i + unat pos) [Some 0] (m\<lparr>chars := (chars m)(a \<mapsto> write_at i (map Some ?ds) bs)\<rparr>) =
        Some (m\<lparr>chars := (chars m)(a \<mapsto> ?bs)\<rparr>)"
      using w1 room True len pos by simp
    then show ?thesis
      using True guard swap by (simp add: unsignedIntToString_def pd')
  next
    case False
    then have k: "?k = unat n - 1" by (simp add: fitting_def len)
    have "unat v div 10 ^ ?k \<noteq> 0"
      using rev_digits_left [of "unat v" ?k] k False n len by simp
    then have "(of_nat (unat v div 10 ^ ?k) :: u32) \<noteq> 0"
      using small [of ?k] by (metis unsigned_0 unat_of_nat_u32')
    then show ?thesis using False pd guard k by (simp add: unsignedIntToString_def)
  qed
qed

section \<open>Parsing\<close>

text \<open>The value of a sequence of digits in a base.\<close>

definition digits_value :: "nat \<Rightarrow> cstring \<Rightarrow> nat" where
  "digits_value b ds = foldl (\<lambda>v d. v * b + nat (DIGIT_VAL d)) 0 ds"

definition saturated :: "int \<Rightarrow> nat \<Rightarrow> u64 \<times> int" where
  "saturated e v = (if v < 2 ^ 64 then (of_nat v, e) else (ULLONG_MAX, ERANGE))"

definition in_base :: "nat \<Rightarrow> u8 \<Rightarrow> bool" where
  "in_base b c \<longleftrightarrow> IN_BASE_RANGE (DIGIT_VAL c) (int b)"

lemma unat_of_nat_u64: "n < 2 ^ 64 \<Longrightarrow> unat (of_nat n :: u64) = n"
  by (simp add: unat_of_nat take_bit_nat_eq_self)

lemma saturated_step:
  assumes "d < b" "2 \<le> b" "b \<le> 36"
  shows "(let r = fst (saturated e v); e' = snd (saturated e v) in
      if (ULLONG_MAX - of_nat d) div of_nat b < r then (ULLONG_MAX, ERANGE)
      else (r * of_nat b + of_nat d, e')) = saturated e (v * b + d)"
proof -
  have b: "unat (of_nat b :: u64) = b" using assms by (simp add: unat_of_nat_u64)
  have d: "unat (of_nat d :: u64) = d" using assms by (simp add: unat_of_nat_u64)
  have m: "unat ULLONG_MAX = 2 ^ 64 - 1" by (simp add: ULLONG_MAX_def unsigned_minus_1_eq_mask mask_eq_exp_minus_1)
  have "unat (ULLONG_MAX - of_nat d) = 2 ^ 64 - 1 - d"
    using assms d m by (subst unat_sub) (simp_all add: word_le_nat_alt)
  then have test: "(ULLONG_MAX - of_nat d) div of_nat b < r \<longleftrightarrow> 2 ^ 64 - 1 < unat r * b + d" for r
    using assms by (simp add: word_less_nat_alt unat_div b div_less_iff_less_mult) arith
  show ?thesis
  proof (cases "v < 2 ^ 64")
    case True
    then show ?thesis by (simp add: saturated_def test unat_of_nat_u64 Let_def)
  next
    case False
    have "v * 1 \<le> v * b" using assms by (intro mult_le_mono) simp_all
    then have "\<not> v * b + d < 2 ^ 64" using False by linarith
    then show ?thesis using assms False by (simp add: saturated_def test m Let_def)
  qed
qed

lemma digits_loop_spec:
  assumes "\<forall>c \<in> set ds. in_base b c" "\<not> in_base b c" "2 \<le> b" "b \<le> 36"
  shows "digits_loop (int b) (fst (saturated e v)) (snd (saturated e v)) (map Some ds @ Some c # bs) =
    (let (r, e') = saturated e (foldl (\<lambda>v d. v * b + nat (DIGIT_VAL d)) v ds) in Some (r, e', Some c # bs))"
  using assms(1)
proof (induction ds arbitrary: v)
  case Nil
  then show ?case using assms(2) by (simp add: in_base_def case_prod_beta Let_def)
next
  case (Cons x ds)
  obtain d where x: "DIGIT_VAL x = int d" "d < b"
    using Cons.prems by (auto simp: in_base_def IN_BASE_RANGE_def elim: nonneg_int_cases)
  have "digits_loop (int b) (fst (saturated e v)) (snd (saturated e v)) (map Some (x # ds) @ Some c # bs) =
      digits_loop (int b) (fst (saturated e (v * b + d))) (snd (saturated e (v * b + d))) (map Some ds @ Some c # bs)"
    using x(2) saturated_step [OF x(2) assms(3,4), of e v, symmetric]
    by (simp add: x(1) IN_BASE_RANGE_def Let_def)
  also have "\<dots> = (let (r, e') = saturated e (foldl (\<lambda>v d. v * b + nat (DIGIT_VAL d)) (v * b + d) ds)
      in Some (r, e', Some c # bs))"
    by (rule Cons.IH) (use Cons.prems in simp)
  finally show ?case by (simp add: x(1))
qed

lemma DIGIT_VAL_digit_char: "k < 10 \<Longrightarrow> DIGIT_VAL (digit_char k) = int k"
  using digit_char_unat [of k]
  by (simp add: DIGIT_VAL_def word_le_nat_alt uint_nat)

lemma decimal_in_base: "c \<in> set (decimal n) \<Longrightarrow> in_base 10 c"
  using decimal_chars [of c n] by (auto simp: in_base_def IN_BASE_RANGE_def DIGIT_VAL_digit_char)

lemma nul_not_in_base: "\<not> in_base b 0"
  by (simp add: in_base_def IN_BASE_RANGE_def DIGIT_VAL_def)

lemma decimal_value: "digits_value 10 (decimal n) = n"
proof (induction n rule: decimal.induct)
  case (1 n)
  show ?case
  proof (cases "n < 10")
    case True
    then show ?thesis by (subst decimal.simps) (simp add: digits_value_def DIGIT_VAL_digit_char)
  next
    case False
    then show ?thesis
      using 1 [OF False] by (subst decimal.simps) (simp add: digits_value_def DIGIT_VAL_digit_char)
  qed
qed

lemma skip_spaces_spec:
  assumes "\<forall>c \<in> set sp. IS_SPACE c" "\<not> IS_SPACE d"
  shows "skip_spaces (map Some sp @ Some d # bs) = Some (Some d # bs)"
  using assms(1) by (induction sp) (simp_all add: assms(2))

lemma in_base_char:
  assumes "in_base b c"
  shows "\<not> IS_SPACE c" "c \<noteq> of_char (CHR ''+'')" "c \<noteq> of_char (CHR ''-'')"
  using assms by (auto simp: in_base_def IN_BASE_RANGE_def DIGIT_VAL_def IS_SPACE_def)

text \<open>The three forms of the optional sign.\<close>

definition is_sign :: "cstring \<Rightarrow> bool" where
  "is_sign sg \<longleftrightarrow> sg = [] \<or> sg = [of_char (CHR ''+'')] \<or> sg = [of_char (CHR ''-'')]"

definition negate :: "cstring \<Rightarrow> u64 \<Rightarrow> u64" where
  "negate sg r = (if sg = [of_char (CHR ''-'')] then ULLONG_MAX - r + 1 else r)"

lemma strtoull_spec:
  assumes "char_bytes p m = Some (map Some (sp @ sg @ ds) @ Some c # rest)"
    and sp: "\<forall>x \<in> set sp. IS_SPACE x" and sg: "is_sign sg" and ds: "ds \<noteq> []" "\<forall>x \<in> set ds. in_base b x"
    and c: "\<not> in_base b c" and b: "2 \<le> b" "b \<le> 36" "b \<noteq> 8" "b \<noteq> 16"
  shows "strtoull_s (Some p) (int b) e m =
    Some (negate sg (fst (saturated 0 (digits_value b ds))), Some (length (sp @ sg @ ds)),
      snd (saturated 0 (digits_value b ds)))"
proof -
  obtain d ds' where d: "ds = d # ds'" using ds(1) by (cases ds) auto
  have d': "in_base b d" using ds(2) d by simp
  note no = in_base_char [OF d']
  let ?tail = "map Some ds @ Some c # rest"
  have skip: "skip_spaces (map Some (sp @ sg @ ds) @ Some c # rest) = Some (map Some sg @ ?tail)"
    using sg no(1) d skip_spaces_spec [OF sp, of "of_char (CHR ''+'')"]
      skip_spaces_spec [OF sp, of "of_char (CHR ''-'')"] skip_spaces_spec [OF sp no(1)]
    by (auto simp: is_sign_def IS_SPACE_def)
  have dl: "digits_loop (int b) 0 0 ?tail =
      Some (fst (saturated 0 (digits_value b ds)), snd (saturated 0 (digits_value b ds)), Some c # rest)"
    using digits_loop_spec [OF ds(2) c b(1,2), of 0 0 rest]
    by (simp add: digits_value_def case_prod_beta Let_def saturated_def split: if_splits)
  obtain y where y: "deref (map Some ds' @ Some c # rest) = Some y" by (cases ds') simp_all
  have range: "IN_BASE_RANGE (DIGIT_VAL d) (int b)" using d' by (simp add: in_base_def)
  define V where "V = saturated 0 (digits_value b ds)"
  obtain r err where V: "V = (r, err)" by (cases V)
  have final: "strtoull_s (Some p) (int b) e m =
      Some (if sg = [of_char (CHR ''-'')] then ULLONG_MAX - r + 1 else r, Some (length (sp @ sg @ ds)), err)"
    using sg skip dl y range no b
    by (auto simp: strtoull_s_def assms(1) is_sign_def d V_def [symmetric, unfolded d] V Let_def
        simp del: digits_loop.simps)
  show ?thesis using final by (simp add: V_def [symmetric] V negate_def)
qed

section \<open>Copying\<close>

lemma strncpy_bytes_spec:
  assumes "until_nul bs = Some s"
  shows "strncpy_bytes n bs = Some (take n (map Some s @ replicate n (Some 0)), min n (Suc (length s)))"
proof -
  from assms obtain r where "bs = map Some s @ Some 0 # r" "0 \<notin> set s" by (auto simp: until_nul_iff)
  then show ?thesis
  proof (induction s arbitrary: bs n)
    case Nil
    then show ?case by (cases n) simp_all
  next
    case (Cons x s)
    have pad: "take (n - k) (Some 0 # replicate n (Some (0 :: u8))) = replicate (n - k) (Some 0)" for n k
      by (simp flip: replicate_Suc)
    show ?case using Cons by (cases n) (auto simp: pad)
  qed
qed

text \<open>A source string that does not lie in the array of the destination.\<close>

definition source :: "addr \<Rightarrow> char_ptr \<Rightarrow> 'z mem_scheme \<Rightarrow> cstring \<Rightarrow> bool" where
  "source a p m s \<longleftrightarrow>
     c_string p m = Some s \<and> length s < 2 ^ 32 - 1 \<and> (case p of Literal _ \<Rightarrow> True | Chars b _ \<Rightarrow> b \<noteq> a)"

lemma source_apart:
  "source a p m s \<Longrightarrow> \<not> ranges_meet (a, i) n p r \<and> \<not> overlaps (a, i) p r"
  by (cases p) (auto simp: source_def)

lemma source_string: "source a p m s \<Longrightarrow> c_string p m = Some s \<and> strlen p m = Some (of_nat (length s))"
  by (simp add: source_def)

lemma strncpy_spec:
  assumes "source a p m s" "chars m a = Some bs" "i + n \<le> length bs"
  shows "strncpy (a, i) p n m =
    Some (m\<lparr>chars := (chars m)(a \<mapsto> write_at i (take n (map Some s @ replicate n (Some 0))) bs)\<rparr>)"
proof -
  obtain cs where "char_bytes p m = Some cs" "until_nul cs = Some s"
    using source_string [OF assms(1)] by (auto simp: c_string_def bind_eq_Some_conv)
  then show ?thesis
    using strncpy_bytes_spec [of cs s n] source_apart [OF assms(1)] assms(2,3) by (simp add: strncpy_def)
qed

lemma strcpy_s_spec:
  assumes "source a p m s" "chars m a = Some bs" "i + unat n \<le> length bs" "0 < n"
  shows "strcpy_s (Some (a, i)) n (Some p) m = Some
    (if length s < unat n then (0, m\<lparr>chars := (chars m)(a \<mapsto> write_at i (cstr s) bs)\<rparr>)
     else (ERANGE, m\<lparr>chars := (chars m)(a \<mapsto> write_at i [Some 0] bs)\<rparr>))"
proof -
  have len: "length s < 4294967295" using assms(1) by (simp add: source_def)
  then have l: "unat (of_nat (length s) + 1 :: u32) = Suc (length s)" by (simp add: unat_add_u32)
  have n: "0 < unat n" "n \<noteq> 0" using assms(4) by (auto simp: word_less_nat_alt)
  have fits: "of_nat (length s) + 1 > n \<longleftrightarrow> \<not> length s < unat n"
    by (auto simp: word_less_nat_alt l)
  have "cread p (Suc (length s)) m = Some (cstr s)"
    using source_string [OF assms(1)] cread_c_string(2) by blast
  then show ?thesis
    using source_string [OF assms(1)] source_apart [OF assms(1), of i _ "Suc (length s)"] assms(2,3) n fits l
    by (auto simp: strcpy_s_def cmemcpy_def cmemmove_def)
qed

lemma mallocAndStrcpy_spec:
  assumes "c_string p m = Some s" "length s < 2 ^ 32 - 1" "wf_mem m"
  shows "mallocAndStrcpy_s (Some old) (Some p) m =
    (if grants m (brk m) (Suc (length s))
     then Some ((0, Some (Some (brk m))), m\<lparr>brk := Suc (brk m), chars := (chars m)(brk m \<mapsto> cstr s)\<rparr>)
     else None)"
proof -
  let ?m = "m\<lparr>brk := Suc (brk m), chars := (chars m)(brk m \<mapsto> replicate (Suc (length s)) (Some 0))\<rparr>"
  have l: "unat (of_nat (length s) + 1 :: u32) = Suc (length s)" using assms(2) by (simp add: unat_add_u32)
  have fresh: "case p of Literal _ \<Rightarrow> True | Chars b _ \<Rightarrow> b \<noteq> brk m"
    using assms(1) wf_mem_fresh [OF assms(3)] by (cases p) (auto simp: c_string_def)
  then have "char_bytes p ?m = char_bytes p m" by (cases p) simp_all
  then have "c_string p ?m = Some s" using assms(1) by (simp only: c_string_def)
  then have src: "source (brk m) p ?m s" using assms(2) fresh by (simp only: source_def simp_thms)
  let ?n = "of_nat (length s) + 1 :: u32"
  have a: "chars ?m (brk m) = Some (replicate (Suc (length s)) (Some 0))" by simp
  have room: "0 + unat ?n \<le> length (replicate (Suc (length s)) (Some (0 :: u8)))" by (simp add: l)
  have "0 < ?n" unfolding word_less_nat_alt l by simp
  note copy = strcpy_s_spec [OF src a room this]
  have "write_at 0 (cstr s) (replicate (Suc (length s)) (Some 0)) = cstr s"
    by (rule write_at_all) simp
  then have copied: "strcpy_s (Some (brk m, 0)) ?n (Some p) ?m =
      Some (0, m\<lparr>brk := Suc (brk m), chars := (chars m)(brk m \<mapsto> cstr s)\<rparr>)"
    unfolding copy l by simp
  let ?blank = "m\<lparr>brk := Suc (brk m), chars := (chars m)(brk m \<mapsto> replicate (Suc (length s)) None)\<rparr>"
  have "cwrite (brk m, 0) (replicate (unat ?n) (Some 0)) ?blank = Some ?m"
    by (simp add: l write_at_all del: replicate.simps)
  then show ?thesis
    unfolding mallocAndStrcpy_s_def cmalloc_def using source_string [OF src] assms(1) l copied
    by (simp del: replicate.simps cwrite_Some)
qed

lemma bounded_len_spec:
  assumes "bs = map Some s @ Some 0 # r" "0 \<notin> set s"
  shows "length s < n \<Longrightarrow> bounded_len bs n = Some (length s)"
  using assms
proof (induction s arbitrary: bs n)
  case Nil
  then show ?case by (cases n) simp_all
next
  case (Cons x s)
  then show ?case by (cases n) simp_all
qed

lemma c_string_at: "chars m a = Some bs \<Longrightarrow> drop i bs = map Some s @ Some 0 # r \<Longrightarrow> 0 \<notin> set s \<Longrightarrow>
    i \<le> length bs \<Longrightarrow> c_string (Chars a i) m = Some s"
  by (simp add: c_string_def until_nul_cstr)

lemma drop_write_at: "i + length xs \<le> length bs \<Longrightarrow> drop i (write_at i xs bs) = xs @ drop (i + length xs) bs"
  by (simp add: write_at_def)

lemma strcat_s_spec:
  assumes src: "source a p m s" and bs: "chars m a = Some bs" and room: "i + unat n \<le> length bs"
    and d: "drop i bs = map Some d @ Some 0 # r" "0 \<notin> set d" "length d < unat n"
  shows "ok (strcat_s (Some (a, i)) n (Some p) m) (\<lambda>(res, m').
    (res = 0 \<longleftrightarrow> length d + length s < unat n) \<and> c_string (Chars a i) m' = Some (if res = 0 then d @ s else []) \<and>
    (\<exists>xs. length xs = unat n \<and> m' = m\<lparr>chars := (chars m)(a \<mapsto> write_at i xs bs)\<rparr>))"
proof -
  let ?k = "unat n - length d"
  define tail where "tail = take ?k (map Some s @ replicate ?k (Some (0 :: u8)))"
  define xs where "xs = map Some d @ tail"
  have xs: "length xs = unat n" using d(3) by (simp add: xs_def tail_def)
  have pre: "take (i + length d) bs = take i bs @ map Some d"
    using d(1) by (simp add: take_add)
  have w: "write_at (i + length d) tail bs = write_at i xs bs"
    using pre by (simp add: write_at_def xs_def tail_def ac_simps)
  have z: "0 \<notin> set s" using source_string [OF src] c_string_bytes by blast
  have len: "bounded_len (drop i bs) (unat n) = Some (length d)"
    by (rule bounded_len_spec [OF d])
  let ?cat = "m\<lparr>chars := (chars m)(a \<mapsto> write_at i xs bs)\<rparr>"
  have copy: "strncpy (a, i + length d) p ?k m = Some ?cat"
    unfolding w [symmetric] tail_def by (rule strncpy_spec [OF src bs]) (use d(3) room in simp)
  have read: "cread (Chars a i) (unat n) ?cat = Some xs"
    using room xs by (simp add: cread_def drop_write_at)
  have n0: "n \<noteq> 0" using d(3) by auto
  show ?thesis
  proof (cases "length d + length s < unat n")
    case True
    then have "tail = map Some s @ Some 0 # replicate (?k - Suc (length s)) (Some 0)"
      by (simp add: tail_def flip: replicate_Suc)
    then have t: "xs = map Some (d @ s) @ Some 0 # replicate (?k - Suc (length s)) (Some 0)"
      by (simp add: xs_def)
    then have "last xs = Some 0" by (simp add: last_append split: if_splits)
    moreover have "c_string (Chars a i) ?cat = Some (d @ s)"
      by (rule c_string_at [where bs = "write_at i xs bs"]) (use room xs d(2) z t in \<open>simp_all add: drop_write_at\<close>)
    ultimately show ?thesis
      using True d(3) len copy read n0 bs room xs by (auto simp: strcat_s_def)
  next
    case False
    then have t: "xs = map Some (d @ take ?k s)" by (simp add: xs_def tail_def take_map)
    then have "xs \<noteq> []" using xs d(3) by auto
    then have "last xs \<in> set xs" by simp
    then have "last xs \<in> Some ` set (d @ take ?k s)" by (simp only: t set_map)
    then obtain c where c: "last xs = Some c" "c \<in> set (d @ take ?k s)" by auto
    then have c0: "c \<noteq> 0" using z d(2) set_take_subset [of ?k s] by auto
    have w0: "write_at i [Some 0] (write_at i xs bs) = write_at i (Some 0 # tl xs) bs"
      using \<open>xs \<noteq> []\<close> room xs by (cases xs) (simp_all add: write_at_def)
    let ?out = "m\<lparr>chars := (chars m)(a \<mapsto> write_at i (Some 0 # tl xs) bs)\<rparr>"
    have l: "length (Some 0 # tl xs) = unat n" using xs \<open>xs \<noteq> []\<close> by (cases xs) simp_all
    have "drop i (write_at i (Some 0 # tl xs) bs) = (Some 0 # tl xs) @ drop (i + unat n) bs"
      using room by (subst drop_write_at) (simp_all only: l)
    moreover have "length (write_at i (Some 0 # tl xs) bs) = length bs"
      using room by (subst length_write_at) (simp_all only: l)
    ultimately have "c_string (Chars a i) ?out = Some []"
      using room by (simp add: c_string_def)
    moreover note l
    moreover have "strcat_s (Some (a, i)) n (Some p) m = Some (ERANGE, ?out)"
      using False d(3) len copy read n0 bs room xs c(1) c0 \<open>xs \<noteq> []\<close> by (simp add: strcat_s_def w0)
    ultimately show ?thesis using False by (auto simp: ERANGE_def intro!: exI [of _ "Some 0 # tl xs"])
  qed
qed

lemma copy_prefix:
  assumes src: "source a p m s" and bs: "chars m a = Some bs" and j: "j \<le> length s" "i + j < length bs"
  shows "strncpy (a, i) p j m \<bind> cwrite (a, i + j) [Some 0] =
    Some (m\<lparr>chars := (chars m)(a \<mapsto> write_at i (map Some (take j s) @ [Some 0]) bs)\<rparr>)"
proof -
  have "take j (map Some s @ replicate j (Some 0)) = map Some (take j s)"
    using j(1) by (simp add: take_map)
  moreover have "write_at (i + j) [Some 0] (write_at i (map Some (take j s)) bs) =
      write_at i (map Some (take j s) @ [Some 0]) bs"
    using j by (simp add: write_at_def)
  ultimately show ?thesis
    using strncpy_spec [OF src bs, of i j] j by simp
qed

lemma copied_string:
  assumes "0 \<notin> set s" "i + length s < length bs"
  shows "c_string (Chars a i) (m\<lparr>chars := (chars m)(a \<mapsto> write_at i (map Some s @ [Some 0]) bs)\<rparr>) = Some s"
  by (rule c_string_at [where bs = "write_at i (map Some s @ [Some 0]) bs"])
    (use assms in \<open>simp_all add: drop_write_at\<close>)

lemma strncpy_s_spec:
  assumes src: "source a p m s" and bs: "chars m a = Some bs" and room: "i + unat n \<le> length bs" and n: "n \<noteq> 0"
  shows "ok (strncpy_s (Some (a, i)) n (Some p) k m) (\<lambda>(res, m').
    (if k = TRUNCATE then res = (if length s < unat n then 0 else STRUNCATE) \<and>
       c_string (Chars a i) m' = Some (take (unat n - 1) s)
     else if min (unat k) (length s) < unat n then res = 0 \<and> c_string (Chars a i) m' = Some (take (unat k) s)
     else res = ERANGE \<and> c_string (Chars a i) m' = Some []) \<and>
    (\<exists>xs. length xs \<le> unat n \<and> m' = m\<lparr>chars := (chars m)(a \<mapsto> write_at i xs bs)\<rparr>))"
proof -
  have n': "0 < unat n" using n by (simp add: unat_gt_0)
  have len: "length s < 4294967295" using src by (simp add: source_def)
  have z: "0 \<notin> set (take j s)" for j
    using source_string [OF src] c_string_bytes set_take_subset by (metis subsetD)
  define L where "L = (of_nat (length s) :: u32)"
  have L: "strlen p m = Some L" "unat L = length s" using source_string [OF src] len by (simp_all add: L_def)
  have step: "unat (x + 1) = Suc (unat x)" if "x \<le> L" for x
    using that L(2) len by (simp add: word_le_nat_alt unat_add_u32)
  have too_long: "x + 1 > n \<longleftrightarrow> \<not> unat x < unat n" if "x \<le> L" for x
    using step [OF that] by (auto simp: word_less_nat_alt)
  have copy: "strncpy (a, i) p j m \<bind> cwrite (a, i + j) [Some 0] =
      Some (m\<lparr>chars := (chars m)(a \<mapsto> write_at i (map Some (take j s) @ [Some 0]) bs)\<rparr>)"
    "c_string (Chars a i) (m\<lparr>chars := (chars m)(a \<mapsto> write_at i (map Some (take j s) @ [Some 0]) bs)\<rparr>)
      = Some (take j s)" if "j \<le> length s" "j < unat n" for j
    using copy_prefix [OF src bs that(1)] copied_string [OF z, of i j bs] that room by auto
  show ?thesis
  proof (cases "k = TRUNCATE")
    case True
    define x where "x = (if L + 1 > n then n - 1 else L)"
    have x: "unat x = min (unat n - 1) (length s)" "unat x \<le> length s" "unat x < unat n"
      using too_long [of L] L(2) n' unat_minus_1 [of n] by (auto simp: x_def)
    have "strncpy_s (Some (a, i)) n (Some p) k m = Some (if L + 1 > n then STRUNCATE else 0,
          m\<lparr>chars := (chars m)(a \<mapsto> write_at i (map Some (take (unat x) s) @ [Some 0]) bs)\<rparr>)"
      using copy(1) [OF x(2,3)] n True L(1)
      by (auto simp: strncpy_s_def x_def bind_eq_Some_conv split: if_splits)
    moreover have "take (unat x) s = take (unat n - 1) s" using x(1) by (simp add: min_def)
    ultimately show ?thesis
      using copy(2) [OF x(2,3)] True x too_long [of L] L(2)
      by (auto intro!: exI [of _ "map Some (take (unat x) s) @ [Some 0]"])
  next
    case False
    define x where "x = (if L > k then k else L)"
    have x: "x \<le> L" "unat x = min (unat k) (length s)"
      using L(2) by (auto simp: x_def word_le_nat_alt word_less_nat_alt)
    show ?thesis
    proof (cases "unat x < unat n")
      case True
      then have "strncpy_s (Some (a, i)) n (Some p) k m = Some (0,
          m\<lparr>chars := (chars m)(a \<mapsto> write_at i (map Some (take (unat x) s) @ [Some 0]) bs)\<rparr>)"
        using copy(1) [of "unat x"] x too_long [OF x(1)] n False L(1)
        by (simp add: strncpy_s_def x_def [symmetric] bind_eq_Some_conv)
      moreover have "take (unat x) s = take (unat k) s" using x(2) by (simp add: min_def)
      ultimately show ?thesis
        using copy(2) [of "unat x"] True False x
        by (auto intro!: exI [of _ "map Some (take (unat x) s) @ [Some 0]"])
    next
      case long: False
      then have "strncpy_s (Some (a, i)) n (Some p) k m = Some (ERANGE,
          m\<lparr>chars := (chars m)(a \<mapsto> write_at i [Some 0] bs)\<rparr>)"
        using x too_long [OF x(1)] n False L(1) bs room n'
        by (simp add: strncpy_s_def x_def [symmetric])
      then show ?thesis
        using copy(2) [of 0] long False x n' by (auto intro!: exI [of _ "[Some 0]"])
    qed
  qed
qed

end
