(* ===== verification/Crt_Properties.thy ===== *)
theory Crt_Properties
  imports Crt_Rules
begin

text \<open>
  The properties of the C library shims, with their witnesses on a heap of one array of 16
  bytes that holds the string \<open>ab\<close>.
\<close>

definition array_heap :: mem where
  "array_heap = \<lparr>grants = \<lambda>_ _. True, brk = 9, blocks = Map.empty,
     chars = [4 \<mapsto> cstr [0x61, 0x62] @ replicate 13 (Some 7)]\<rparr>"

lemma array_heap_4: "chars array_heap 4 = Some (cstr [0x61, 0x62] @ replicate 13 (Some 7))"
  by (simp add: array_heap_def)

lemma array_heap_wf: "wf_mem array_heap"
  by (simp add: wf_mem_def array_heap_def)

text \<open>
  Printing and parsing agree: when \<open>unsignedIntToString\<close> succeeds, which it does when the array
  has room for the decimal digits and a zero, the array holds the decimal representation
  followed by a zero and is otherwise as it was, and \<open>strtoull_s\<close> in base 10 reads the number back
  up to the zero with no error; otherwise it fails and nothing behind the given size is written.
\<close>
theorem to_string_roundtrip:
  assumes "chars m a = Some bs" "i + unat n \<le> length bs" "2 \<le> unat n"
  shows "ok (unsignedIntToString (Some (a, i)) n v m) (\<lambda>(r, m'). (r = 0 \<longleftrightarrow> length (decimal (unat v)) < unat n) \<and>
    (if r = 0
     then m' = m\<lparr>chars := (chars m)(a \<mapsto> write_at i (cstr (decimal (unat v))) bs)\<rparr> \<and>
       strtoull_s (Some (Chars a i)) 10 e m' = Some (of_nat (unat v), Some (length (decimal (unat v))), 0)
     else \<exists>xs. length xs = unat n - 1 \<and> m' = m\<lparr>chars := (chars m)(a \<mapsto> write_at i xs bs)\<rparr>))"
proof (cases "length (decimal (unat v)) < unat n")
  case True
  let ?ds = "decimal (unat v)"
  let ?m = "m\<lparr>chars := (chars m)(a \<mapsto> write_at i (cstr ?ds) bs)\<rparr>"
  have room: "i + length (cstr ?ds) \<le> length bs" using True assms(2) by simp
  have "char_bytes (Chars a i) ?m = Some (cstr ?ds @ drop (i + length (cstr ?ds)) bs)"
    using room drop_write_at [OF room] by simp
  then have bytes: "char_bytes (Chars a i) ?m =
      Some (map Some ([] @ [] @ ?ds) @ Some 0 # drop (i + length (cstr ?ds)) bs)"
    by (simp add: cstr_def)
  have "strtoull_s (Some (Chars a i)) (int 10) e ?m =
      Some (negate [] (fst (saturated 0 (digits_value 10 ?ds))), Some (length ([] @ [] @ ?ds)),
        snd (saturated 0 (digits_value 10 ?ds)))"
    by (rule strtoull_spec [OF bytes])
      (auto simp: is_sign_def decimal_in_base nul_not_in_base)
  moreover have "unat v < 18446744073709551616" using unat_lt_u32 [of v] by linarith
  ultimately have "strtoull_s (Some (Chars a i)) 10 e ?m = Some (of_nat (unat v), Some (length ?ds), 0)"
    by (simp add: negate_def saturated_def decimal_value)
  then show ?thesis using to_string_spec [OF assms] True by simp
next
  case False
  then show ?thesis
    using to_string_spec [OF assms, of v]
    by (auto simp: rev_digits_decimal intro!: exI [of _ "map Some (take (unat n - 1) (rev (decimal (unat v))))"])
qed

lemma to_string_roundtrip_witness:
  "ok (unsignedIntToString (Some (4, 1)) 5 2026 array_heap) (\<lambda>(r, m').
     r = 0 \<and> chars m' 4 = Some (write_at 1 (cstr (decimal 2026)) (cstr [0x61, 0x62] @ replicate 13 (Some 7))) \<and>
     strtoull_s (Some (Chars 4 1)) 10 0 m' = Some (2026, Some 4, 0))"
proof -
  have d: "decimal 2026 = [digit_char 2, digit_char 0, digit_char 2, digit_char 6]"
    by (simp add: decimal.simps)
  show ?thesis
    by (rule ok_mono2 [OF to_string_roundtrip [OF array_heap_4, of 1 5 2026 0]]) (simp_all add: d)
qed



text \<open>
  A number out of range with a minus sign gives 1, not \<open>ULLONG_MAX\<close> as the requirement 21_014
  in the source says.
\<close>
lemma strtoull_negative_overflow:
  assumes "char_bytes p m = Some (map Some (of_char (CHR ''-'') # ds) @ Some c # rest)"
    "ds \<noteq> []" "\<forall>x \<in> set ds. in_base 10 x" "\<not> in_base 10 c" "2 ^ 64 \<le> digits_value 10 ds"
  shows "strtoull_s (Some p) 10 e m = Some (1, Some (Suc (length ds)), ERANGE)"
proof -
  have "char_bytes p m = Some (map Some ([] @ [of_char (CHR ''-'')] @ ds) @ Some c # rest)"
    using assms(1) by simp
  from strtoull_spec [OF this _ _ assms(2-4), of e] show ?thesis
    using assms(5) by (simp add: is_sign_def negate_def saturated_def ULLONG_MAX_def)
qed

text \<open>The octal prefix swallows a lone zero: \<open>0\<close> in base 0 is reported as no number at all.\<close>

lemma strtoull_lone_zero: "strtoull_s (Some (Literal (lit ''0''))) 0 e m = Some (0, Some 0, e)"
  by (simp add: strtoull_s_def lit_def cstr_def IS_SPACE_def DIGIT_VAL_def IN_BASE_RANGE_def)

text \<open>
  \<open>mallocAndStrcpy_s\<close> stores a new array with exactly the source string in the destination and
  returns 0, and changes nothing else; but when the allocation fails it is undefined, since the
  null pointer is written to before it is tested.
\<close>
theorem mallocAndStrcpy_copies:
  assumes "c_string p m = Some s" "length s < 2 ^ 32 - 1" "wf_mem m"
  shows "mallocAndStrcpy_s (Some old) (Some p) m =
    (if grants m (brk m) (Suc (length s))
     then Some ((0, Some (Some (brk m))), m\<lparr>brk := Suc (brk m), chars := (chars m)(brk m \<mapsto> cstr s)\<rparr>)
     else None)"
  by (rule mallocAndStrcpy_spec [OF assms])

lemma mallocAndStrcpy_copies_witness:
  "mallocAndStrcpy_s (Some None) (Some (Chars 4 0)) array_heap =
    Some ((0, Some (Some 9)), array_heap\<lparr>brk := 10, chars := (chars array_heap)(9 \<mapsto> cstr [0x61, 0x62])\<rparr>) \<and>
   mallocAndStrcpy_s (Some None) (Some (Literal [0x61])) (array_heap\<lparr>grants := \<lambda>_ _. False\<rparr>) = None"
proof -
  have s: "c_string (Chars 4 0) array_heap = Some [0x61, 0x62]"
    by (simp add: c_string_def array_heap_def cstr_def)
  have s': "c_string (Literal [0x61]) (array_heap\<lparr>grants := \<lambda>_ _. False\<rparr>) = Some [0x61]" by simp
  show ?thesis
    using mallocAndStrcpy_copies [OF s _ array_heap_wf, of None]
      mallocAndStrcpy_copies [OF s', of None]
    by (simp add: array_heap_def wf_mem_def)
qed

text \<open>
  \<open>strcat_s\<close> appends the source string when both strings and the zero fit the given size, and
  otherwise leaves the empty string and fails; in both cases it writes within the given size only.
\<close>
theorem strcat_bounded:
  assumes "source a p m s" "chars m a = Some bs" "i + unat n \<le> length bs"
    "drop i bs = map Some d @ Some 0 # r" "0 \<notin> set d" "length d < unat n"
  shows "ok (strcat_s (Some (a, i)) n (Some p) m) (\<lambda>(res, m').
    (res = 0 \<longleftrightarrow> length d + length s < unat n) \<and> c_string (Chars a i) m' = Some (if res = 0 then d @ s else []) \<and>
    (\<exists>xs. length xs = unat n \<and> m' = m\<lparr>chars := (chars m)(a \<mapsto> write_at i xs bs)\<rparr>))"
  by (rule strcat_s_spec [OF assms])

lemma strcat_bounded_witness:
  "ok (strcat_s (Some (4, 0)) 6 (Some (Literal [0x63, 0x64, 0x65])) array_heap) (\<lambda>(res, m').
     res = 0 \<and> c_string (Chars 4 0) m' = Some [0x61, 0x62, 0x63, 0x64, 0x65])"
proof -
  have "source 4 (Literal [0x63, 0x64, 0x65]) array_heap [0x63, 0x64, 0x65]" by (simp add: source_def)
  from strcat_bounded [OF this array_heap_4, of 0 6 "[0x61, 0x62]" "replicate 13 (Some 7)"]
  show ?thesis by (rule ok_mono2) (auto simp: cstr_def)
qed

end
