(* ===== verification/Message_Rules.thy ===== *)
theory Message_Rules
  imports Message Crt_Rules
begin

text \<open>
  What the operations on messages do, exactly; a message is read as the client reads it,
  through its accessors (\<open>message_view\<close>).
\<close>

record message_content =
  v_id :: u16
  v_topic :: cstring
  v_qos :: QOS_VALUE
  v_payload :: "mbyte list"
  v_dup :: bool
  v_retained :: bool

definition payload_bytes :: "APP_PAYLOAD \<Rightarrow> 'z mem_scheme \<Rightarrow> mbyte list option" where
  "payload_bytes p m =
     (if payload_length p = 0 then Some []
      else do { q \<leftarrow> message p; read_bytes q (unat (payload_length p)) m })"

definition message_view :: "'z gmem_scheme \<Rightarrow> addr \<Rightarrow> message_content option" where
  "message_view m h = do {
     i \<leftarrow> mqttmessage_getPacketId (Some h) m;
     t \<leftarrow> mqttmessage_getTopicName (Some h) m;
     p \<leftarrow> t;
     s \<leftarrow> c_string p m;
     q \<leftarrow> mqttmessage_getQosType (Some h) m;
     pl \<leftarrow> mqttmessage_getApplicationMsg (Some h) m;
     pl \<leftarrow> pl;
     xs \<leftarrow> payload_bytes pl m;
     d \<leftarrow> mqttmessage_getIsDuplicateMsg (Some h) m;
     r \<leftarrow> mqttmessage_getIsRetained (Some h) m;
     Some \<lparr>v_id = i, v_topic = s, v_qos = q, v_payload = xs, v_dup = d, v_retained = r\<rparr> }"

lemmas accessor_defs = mqttmessage_getPacketId_def mqttmessage_getTopicName_def mqttmessage_getQosType_def
  mqttmessage_getApplicationMsg_def mqttmessage_getIsDuplicateMsg_def mqttmessage_getIsRetained_def

text \<open>No message lives at an address that was not given out yet.\<close>

definition wf_gmem :: "'z gmem_scheme \<Rightarrow> bool" where
  "wf_gmem m \<longleftrightarrow> wf_mem m \<and> (\<forall>a \<ge> brk m. messages m a = None)"

lemma wf_gmemD:
  assumes "wf_gmem m" "brk m \<le> a"
  shows "messages m a = None" "chars m a = None" "blocks m a = None"
  using assms wf_mem_fresh [of m a] by (auto simp: wf_gmem_def)

text \<open>The struct of a message that owns its topic \<open>t\<close> and its payload \<open>p\<close>.\<close>

definition owner :: "u16 \<Rightarrow> QOS_VALUE \<Rightarrow> addr \<Rightarrow> bptr option \<Rightarrow> u32 \<Rightarrow> MQTT_MESSAGE" where
  "owner i q t p n = \<lparr>packetId = i, qosInfo = q, topicName = Some t,
     appPayload = \<lparr>message = p, payload_length = n\<rparr>, const_topic_name = None, const_payload = zero_payload,
     isDuplicateMsg = False, isMessageRetained = False\<rparr>"

definition made :: "u16 \<Rightarrow> QOS_VALUE \<Rightarrow> cstring \<Rightarrow> u32 \<Rightarrow> mbyte list \<Rightarrow> 'z gmem_scheme \<Rightarrow> 'z gmem_scheme" where
  "made i q s n xs m =
     (let a = brk m in
      if n = 0
      then m\<lparr>brk := a + 2, chars := (chars m)(a + 1 \<mapsto> cstr s),
             messages := (messages m)(a \<mapsto> owner i q (a + 1) None 0)\<rparr>
      else m\<lparr>brk := a + 3, chars := (chars m)(a + 1 \<mapsto> cstr s), blocks := (blocks m)(a + 2 \<mapsto> xs),
             messages := (messages m)(a \<mapsto> owner i q (a + 1) (Some (a + 2, 0)) n)\<rparr>)"

lemma word_gt_0_u32: "(n :: u32) > 0 \<longleftrightarrow> n \<noteq> 0"
  by (simp add: word_neq_0_conv)

lemma message_create_spec:
  assumes str: "c_string p m = Some s" and len: "length s < 2 ^ 32 - 1" and wf: "wf_gmem m"
    and pl: "n \<noteq> 0 \<Longrightarrow> \<exists>q. src = Some q \<and> read_bytes q (unat n) m = Some xs"
  shows "mqttmessage_create i (Some p) qos src n m =
    (if \<not> grants m (brk m) sizeof_MQTT_MESSAGE then Some (None, m\<lparr>brk := brk m + 1\<rparr>)
     else if \<not> grants m (brk m + 1) (Suc (length s)) then None
     else if n \<noteq> 0 \<and> \<not> grants m (brk m + 2) (unat n) then Some (None, m\<lparr>brk := brk m + 3\<rparr>)
     else Some (Some (brk m), made i qos s n xs m))"
proof -
  let ?a = "brk m"
  define m1 where "m1 = set_message ?a zero_message (m\<lparr>brk := Suc ?a\<rparr>)"
  have fresh: "messages m ?a = None" "chars m (Suc ?a) = None" "blocks m (Suc (Suc ?a)) = None"
    using wf_gmemD [OF wf, of ?a] wf_gmemD [OF wf, of "Suc ?a"] wf_gmemD [OF wf, of "Suc (Suc ?a)"] by simp_all
  have m1: "brk m1 = Suc ?a" "grants m1 = grants m" "chars m1 = chars m" "blocks m1 = blocks m"
    "messages m1 = (messages m)(?a \<mapsto> zero_message)" by (simp_all add: m1_def set_message_def)
  have "char_bytes p m1 = char_bytes p m" by (cases p) (simp_all add: m1)
  then have str1: "c_string p m1 = Some s" using str by (simp add: c_string_def)
  have "wf_mem m1" using wf by (auto simp: wf_gmem_def wf_mem_def m1)
  note copy = mallocAndStrcpy_spec [OF str1 len this, of None]
  have z: "topicName zero_message = None" by (simp add: zero_message_def)
  show ?thesis
  proof (cases "grants m ?a sizeof_MQTT_MESSAGE \<and> grants m (Suc ?a) (Suc (length s))")
    case False
    then show ?thesis
      using copy by (auto simp: mqttmessage_create_def malloc_struct_def m1_def [symmetric] m1 z)
  next
    case True
    define m2 where "m2 = m1\<lparr>brk := Suc (Suc ?a), chars := (chars m)(Suc ?a \<mapsto> cstr s)\<rparr>"
    have copied: "mallocAndStrcpy_s (Some None) (Some p) m1 = Some ((0, Some (Some (Suc ?a))), m2)"
      using copy True by (simp add: m1 m2_def)
    have m2: "messages m2 = (messages m)(?a \<mapsto> zero_message)" by (simp add: m2_def m1)
    have start: "mqttmessage_create i (Some p) qos src n m = do {
        m \<leftarrow> upd_message ?a (\<lambda>i. i\<lparr>topicName := Some (Suc ?a)\<rparr>) m2;
        m \<leftarrow> upd_message ?a (\<lambda>x. x\<lparr>packetId := i, isDuplicateMsg := False, isMessageRetained := False, qosInfo := qos\<rparr>) m;
        m \<leftarrow> upd_message ?a (\<lambda>i. i\<lparr>appPayload := (appPayload i)\<lparr>payload_length := n\<rparr>\<rparr>) m;
        i \<leftarrow> messages m ?a;
        if payload_length (appPayload i) > 0 then do {
          (p, m) \<leftarrow> malloc (unat n) m;
          m \<leftarrow> upd_message ?a (\<lambda>i. i\<lparr>appPayload := (appPayload i)\<lparr>message := map_option (\<lambda>a. (a, 0)) p\<rparr>\<rparr>) m;
          case p of
            None \<Rightarrow> do {
              m \<leftarrow> cfree (topicName i) m;
              m \<leftarrow> free_message ?a m;
              Some (None, m) }
          | Some a \<Rightarrow> do {
              src \<leftarrow> src;
              xs \<leftarrow> read_bytes src (unat n) m;
              m \<leftarrow> write_bytes (a, 0) xs m;
              Some (Some ?a, m) } }
        else do {
          m \<leftarrow> upd_message ?a (\<lambda>i. i\<lparr>appPayload := (appPayload i)\<lparr>message := None\<rparr>\<rparr>) m;
          Some (Some ?a, m) } }"
      using True copied
      by (simp add: mqttmessage_create_def malloc_struct_def m1_def [symmetric] m1 z m2)
    define m3 where "m3 = m2\<lparr>messages := (messages m)(?a \<mapsto> owner i qos (Suc ?a) None n)\<rparr>"
    have m3: "messages m3 = (messages m)(?a \<mapsto> owner i qos (Suc ?a) None n)" "brk m3 = Suc (Suc ?a)"
      "grants m3 = grants m" "chars m3 = (chars m)(Suc ?a \<mapsto> cstr s)" "blocks m3 = blocks m"
      by (simp_all add: m3_def m2_def m1)
    have m3_eq: "m3 = m\<lparr>brk := Suc (Suc ?a), chars := (chars m)(Suc ?a \<mapsto> cstr s),
        messages := (messages m)(?a \<mapsto> owner i qos (Suc ?a) None n)\<rparr>"
      by (simp add: m3_def m2_def m1_def set_message_def)
    have o: "payload_length (appPayload (owner i qos t x k)) = k" "topicName (owner i qos t x k) = Some t"
      "owner i qos t x k\<lparr>appPayload := (appPayload (owner i qos t x k))\<lparr>message := y\<rparr>\<rparr> = owner i qos t y k" for t x y k
      by (simp_all add: owner_def)
    have run: "mqttmessage_create i (Some p) qos src n m = (
        if n > 0 then do {
          (p, m) \<leftarrow> malloc (unat n) m3;
          m \<leftarrow> upd_message ?a (\<lambda>i. i\<lparr>appPayload := (appPayload i)\<lparr>message := map_option (\<lambda>a. (a, 0)) p\<rparr>\<rparr>) m;
          case p of
            None \<Rightarrow> do {
              m \<leftarrow> cfree (Some (Suc ?a)) m;
              m \<leftarrow> free_message ?a m;
              Some (None, m) }
          | Some a \<Rightarrow> do {
              src \<leftarrow> src;
              xs \<leftarrow> read_bytes src (unat n) m;
              m \<leftarrow> write_bytes (a, 0) xs m;
              Some (Some ?a, m) } }
        else Some (Some ?a, m3))"
    proof -
      let ?ma = "m2\<lparr>messages := (messages m)(?a \<mapsto> zero_message\<lparr>topicName := Some (Suc ?a)\<rparr>)\<rparr>"
      let ?mb = "m2\<lparr>messages := (messages m)(?a \<mapsto> owner i qos (Suc ?a) None 0)\<rparr>"
      have u1: "upd_message ?a (\<lambda>i. i\<lparr>topicName := Some (Suc ?a)\<rparr>) m2 = Some ?ma"
        by (simp add: upd_message_def set_message_def m2)
      have u2: "upd_message ?a (\<lambda>x. x\<lparr>packetId := i, isDuplicateMsg := False, isMessageRetained := False,
          qosInfo := qos\<rparr>) ?ma = Some ?mb"
        by (simp add: upd_message_def set_message_def owner_def zero_message_def zero_payload_def)
      have u3: "upd_message ?a (\<lambda>i. i\<lparr>appPayload := (appPayload i)\<lparr>payload_length := n\<rparr>\<rparr>) ?mb = Some m3"
        by (simp add: upd_message_def set_message_def owner_def m3_def)
      have u4: "upd_message ?a (\<lambda>i. i\<lparr>appPayload := (appPayload i)\<lparr>message := None\<rparr>\<rparr>) m3 = Some m3"
        by (simp add: upd_message_def set_message_def owner_def m3_def)
      have get: "messages m3 ?a = Some (owner i qos (Suc ?a) None n)" by (simp add: m3)
      show ?thesis by (simp only: start u1 u2 u3 u4 get Option.bind.bind_lunit o)
    qed
    show ?thesis
    proof (cases "n = 0")
      case True
      then show ?thesis using \<open>grants m ?a _ \<and> _\<close> run
        by (simp add: made_def m3_eq Let_def)
    next
      case False
      then obtain q where q: "src = Some q" "read_bytes q (unat n) m = Some xs" using pl by blast
      have pos: "n > 0" using False by (simp add: word_gt_0_u32)
      show ?thesis
      proof (cases "grants m (Suc (Suc ?a)) (unat n)")
        case fail: False
        have "malloc (unat n) m3 = Some (None, m3\<lparr>brk := Suc (Suc (Suc ?a))\<rparr>)"
          using fail by (simp add: malloc_def m3)
        then show ?thesis using True False fail pos fresh
          by (simp add: run upd_message_def free_message_def set_message_def m3 o cfree_def)
            (simp add: m3_eq fun_upd_idem)
      next
        case ok: True
        let ?b = "Suc (Suc ?a)"
        let ?mx = "m3\<lparr>brk := Suc ?b, blocks := (blocks m)(?b \<mapsto> replicate (unat n) None)\<rparr>"
        let ?my = "?mx\<lparr>messages := (messages m)(?a \<mapsto> owner i qos (Suc ?a) (Some (?b, 0)) n)\<rparr>"
        have "fst q \<noteq> ?b" using q(2) fresh(3) by (auto simp: read_bytes_def)
        have s1: "malloc (unat n) m3 = Some (Some ?b, ?mx)" using ok by (simp add: malloc_def m3)
        have s2: "upd_message ?a (\<lambda>i. i\<lparr>appPayload := (appPayload i)\<lparr>message := map_option (\<lambda>a. (a, 0)) (Some ?b)\<rparr>\<rparr>) ?mx
            = Some ?my"
          by (simp add: upd_message_def set_message_def m3 o)
        have s3: "read_bytes q (unat n) ?my = Some xs"
          using q(2) \<open>fst q \<noteq> ?b\<close> by (simp add: read_bytes_def)
        have "length xs = unat n" using q(2) by (auto simp: read_bytes_def split: option.splits if_splits)
        then have s4: "write_bytes (?b, 0) xs ?my = Some (?my\<lparr>blocks := (blocks m)(?b \<mapsto> xs)\<rparr>)"
          by (simp add: write_at_all)
        have "mqttmessage_create i (Some p) qos src n m = Some (Some ?a, ?my\<lparr>blocks := (blocks m)(?b \<mapsto> xs)\<rparr>)"
          unfolding run using pos by (simp only: if_True s1 s2 s3 s4 q(1) Option.bind.bind_lunit prod.case option.case)
        then show ?thesis using True False ok by (simp add: made_def Let_def m3_eq)
      qed
    qed
  qed
qed

section \<open>What the accessors see\<close>

lemma made_messages:
  "messages (made i q s n xs m) =
    (messages m)(brk m \<mapsto> owner i q (brk m + 1) (if n = 0 then None else Some (brk m + 2, 0)) n)"
  by (simp add: made_def Let_def)

lemma view_made:
  assumes "0 \<notin> set s" "n \<noteq> 0 \<longrightarrow> length xs = unat n"
  shows "message_view (made i q s n xs m) (brk m) =
    Some \<lparr>v_id = i, v_topic = s, v_qos = q, v_payload = (if n = 0 then [] else xs), v_dup = False, v_retained = False\<rparr>"
  using assms by (simp add: message_view_def accessor_defs made_def Let_def owner_def zero_payload_def payload_bytes_def
      c_string_def cstr_def until_nul_cstr)

text \<open>A message whose topic and payload lie in arrays that the memory \<open>m'\<close> has unchanged.\<close>

lemma view_cong:
  assumes "messages m' h = messages m h" "\<And>a. a < k \<Longrightarrow> chars m' a = chars m a" "\<And>a. a < k \<Longrightarrow> blocks m' a = blocks m a"
    and wf: "wf_gmem m" "k = brk m" and v: "message_view m h = Some v"
  shows "message_view m' h = Some v"
proof -
  obtain i where i: "messages m h = Some i" using v by (cases "messages m h") (auto simp: message_view_def accessor_defs)
  have live: "chars m a \<noteq> None \<Longrightarrow> a < k" "blocks m a \<noteq> None \<Longrightarrow> a < k" for a
    using wf_gmemD(2,3) [OF wf(1), of a] wf(2) by (meson not_le)+
  have str: "c_string p m' = c_string p m" if "c_string p m \<noteq> None" for p
  proof (rule c_string_cong)
    show "char_bytes p m' = char_bytes p m"
    proof (cases p)
      case (Chars a j)
      then have "chars m a \<noteq> None" using that by (cases "chars m a") (auto simp: c_string_def)
      then have "a < k" by (rule live(1))
      then show ?thesis using Chars assms(2) by simp
    qed simp
  qed
  have pl: "payload_bytes p m' = payload_bytes p m" if "payload_bytes p m \<noteq> None" for p
  proof (cases "message p")
    case (Some q)
    have "read_bytes q (unat (payload_length p)) m' = read_bytes q (unat (payload_length p)) m"
      if "read_bytes q (unat (payload_length p)) m \<noteq> None"
    proof (rule read_bytes_cong)
      have "blocks m (fst q) \<noteq> None" using that by (cases "blocks m (fst q)") (auto simp: read_bytes_def)
      then have "fst q < k" by (rule live(2))
      then show "blocks m' (fst q) = blocks m (fst q)" using assms(3) by simp
    qed
    then show ?thesis using that Some by (auto simp: payload_bytes_def split: if_splits)
  qed (simp add: payload_bytes_def)
  show ?thesis
    using v i assms(1) str pl
    by (auto simp: message_view_def accessor_defs bind_eq_Some_conv)
qed

lemma view_made_other:
  assumes "wf_gmem m" "h \<noteq> brk m" "message_view m h = Some v"
  shows "message_view (made i q s n xs m) h = Some v"
  by (rule view_cong [OF _ _ _ assms(1) refl assms(3)])
    (use assms(2) in \<open>auto simp: made_def Let_def\<close>)

lemma made_wf: "wf_gmem m \<Longrightarrow> wf_gmem (made i q s n xs m)"
  by (auto simp: wf_gmem_def wf_mem_def made_def Let_def)

section \<open>Destruction\<close>

text \<open>The destruction of a message that owns its parts gives back exactly what the creation took.\<close>

lemma destroy_made:
  assumes "wf_gmem m"
  shows "mqttmessage_destroy (Some (brk m)) (made i q s n xs m) =
    Some (m\<lparr>brk := brk m + (if n = 0 then 2 else 3)\<rparr>)"
proof -
  have "messages m (brk m) = None" "chars m (Suc (brk m)) = None" "blocks m (Suc (Suc (brk m))) = None"
    using wf_gmemD [OF assms, of "brk m"] wf_gmemD [OF assms, of "Suc (brk m)"]
      wf_gmemD [OF assms, of "Suc (Suc (brk m))"] by simp_all
  then show ?thesis
    by (cases m) (auto simp: mqttmessage_destroy_def made_def Let_def owner_def free_message_def free_bytes_def
        cfree_def free_def fun_upd_idem)
qed

section \<open>Cloning\<close>

lemma view_flags:
  fixes d r :: bool
  assumes j: "messages m h = Some j" and v: "message_view m h = Some v"
  defines "m' \<equiv> m\<lparr>messages := (messages m)(h \<mapsto> j\<lparr>isDuplicateMsg := d, isMessageRetained := r\<rparr>)\<rparr>"
  shows "message_view m' h = Some (v\<lparr>v_dup := d, v_retained := r\<rparr>)"
    and "g \<noteq> h \<Longrightarrow> message_view m' g = message_view m g"
proof -
  have str: "c_string p m' = c_string p m" for p by (rule c_string_cong) (cases p; simp add: m'_def)
  have pls: "payload_bytes p m' = payload_bytes p m" for p by (simp add: payload_bytes_def read_bytes_def m'_def)
  have g: "messages m' h = Some (j\<lparr>isDuplicateMsg := d, isMessageRetained := r\<rparr>)" by (simp add: m'_def)
  show "message_view m' h = Some (v\<lparr>v_dup := d, v_retained := r\<rparr>)"
    using v by (cases "topicName j"; cases "payload_length (const_payload j) > 0")
      (auto simp: message_view_def accessor_defs j g str pls bind_eq_Some_conv)
  show "g \<noteq> h \<Longrightarrow> message_view m' g = message_view m g"
    by (simp add: message_view_def accessor_defs str pls) (simp add: m'_def)
qed

lemma clone_spec:
  assumes wf: "wf_gmem m" and total: "alloc_total m" and v: "message_view m h = Some v"
    and i: "messages m h = Some i" and own: "topicName i = Some t" "payload_length (const_payload i) = 0"
    and len: "length (v_topic v) < 2 ^ 32 - 1"
  shows "ok (mqttmessage_clone (Some h) m) (\<lambda>(r, m'). \<exists>h'. r = Some h' \<and> messages m h' = None \<and> wf_gmem m' \<and>
    message_view m' h' = Some v \<and> message_view m' h = Some v)"
proof -
  let ?p = "appPayload i" and ?a = "brk m"
  obtain xs where s: "c_string (Chars t 0) m = Some (v_topic v)" and xs: "payload_bytes ?p m = Some xs"
    and vv: "v = \<lparr>v_id = packetId i, v_topic = v_topic v, v_qos = qosInfo i, v_payload = xs,
      v_dup = isDuplicateMsg i, v_retained = isMessageRetained i\<rparr>"
    using v i own by (auto simp: message_view_def accessor_defs bind_eq_Some_conv)
  have z: "0 \<notin> set (v_topic v)" using c_string_bytes [OF s] by blast
  have pl: "payload_length ?p \<noteq> 0 \<Longrightarrow> \<exists>q. message ?p = Some q \<and> read_bytes q (unat (payload_length ?p)) m = Some xs"
    using xs by (auto simp: payload_bytes_def bind_eq_Some_conv)
  have lxs: "payload_length ?p \<noteq> 0 \<longrightarrow> length xs = unat (payload_length ?p)"
    using pl read_bytes_len by blast
  let ?m1 = "made (packetId i) (qosInfo i) (v_topic v) (payload_length ?p) xs m"
  have run: "mqttmessage_create (packetId i) (Some (Chars t 0)) (qosInfo i) (message ?p) (payload_length ?p) m =
      Some (Some ?a, ?m1)"
    using message_create_spec [OF s len wf pl] total by (simp add: alloc_total_def)
  have ha: "h \<noteq> ?a" using i wf_gmemD(1) [OF wf, of ?a] by auto
  have v1: "message_view ?m1 h = Some v" by (rule view_made_other [OF wf ha v])
  have v2: "message_view ?m1 ?a = Some (v\<lparr>v_dup := False, v_retained := False\<rparr>)"
  proof -
    have "(if payload_length ?p = 0 then [] else xs) = xs" using xs by (auto simp: payload_bytes_def)
    then have "message_view ?m1 ?a = Some \<lparr>v_id = packetId i, v_topic = v_topic v, v_qos = qosInfo i,
        v_payload = xs, v_dup = False, v_retained = False\<rparr>"
      using view_made [OF z lxs, of "packetId i" "qosInfo i" m] by simp
    also have "\<dots> = Some (v\<lparr>v_dup := False, v_retained := False\<rparr>)"
      by (subst (2) vv) simp
    finally show ?thesis .
  qed
  obtain j where j: "messages ?m1 ?a = Some j" by (simp add: made_messages)
  have ih: "messages ?m1 h = Some i" using i ha by (simp add: made_messages)
  let ?j = "j\<lparr>isDuplicateMsg := isDuplicateMsg i, isMessageRetained := isMessageRetained i\<rparr>"
  let ?m2 = "?m1\<lparr>messages := (messages ?m1)(?a \<mapsto> ?j)\<rparr>"
  have clone: "mqttmessage_clone (Some h) m = Some (Some ?a, ?m2)"
    using i run own(1) j ih ha
    by (simp add: mqttmessage_clone_def mqttmessage_setIsDuplicateMsg_def mqttmessage_setIsRetained_def
        upd_message_def set_message_def)
  have "message_view ?m2 h = Some v" using view_flags(2) [OF j v2 ha] v1 by simp
  moreover have "message_view ?m2 ?a = Some (v\<lparr>v_dup := isDuplicateMsg i, v_retained := isMessageRetained i\<rparr>)"
    using view_flags(1) [OF j v2] by simp
  moreover have "v\<lparr>v_dup := isDuplicateMsg i, v_retained := isMessageRetained i\<rparr> = v"
    by (subst (1 2) vv) simp
  moreover have "wf_gmem ?m2"
    using made_wf [OF wf] j by (auto simp: wf_gmem_def wf_mem_def)
  ultimately show ?thesis
    using clone wf_gmemD(1) [OF wf, of ?a] by simp
qed

end
