(* ===== verification/Message_Properties.thy ===== *)
theory Message_Properties
  imports Message_Rules
begin

text \<open>The properties of the messages, with their witnesses on a heap with a topic and a payload.\<close>

definition message_heap :: gmem where
  "message_heap = \<lparr>grants = \<lambda>_ _. True, brk = 9, blocks = [2 \<mapsto> [Some 1, Some 2, Some 3]],
     chars = [4 \<mapsto> cstr [0x61, 0x62]], buffers = Map.empty, strs = Map.empty, codecs = Map.empty,
     messages = [6 \<mapsto> \<lparr>packetId = 7, qosInfo = 1, topicName = Some 4,
       appPayload = \<lparr>message = Some (2, 0), payload_length = 3\<rparr>, const_topic_name = None,
       const_payload = zero_payload, isDuplicateMsg = True, isMessageRetained = False\<rparr>]\<rparr>"

lemma message_heap_wf: "wf_gmem message_heap"
  by (auto simp: wf_gmem_def wf_mem_def message_heap_def)

lemma message_heap_view: "message_view message_heap 6 =
    Some \<lparr>v_id = 7, v_topic = [0x61, 0x62], v_qos = 1, v_payload = [Some 1, Some 2, Some 3], v_dup = True, v_retained = False\<rparr>"
  by (simp add: message_view_def accessor_defs message_heap_def zero_payload_def payload_bytes_def c_string_def cstr_def
      read_bytes_def)

lemma message_heap_total: "alloc_total message_heap"
  by (simp add: alloc_total_def message_heap_def)

text \<open>
  \<open>mqttmessage_create\<close>, unless the copy of the topic cannot be allocated, returns a message
  whose accessors give back the id, the QoS, the topic and the payload it was created with, and
  neither flag; every other message reads as before, and destroying it gives back the memory as it
  was.  When another allocation fails it returns NULL and leaves nothing allocated.
\<close>
theorem message_create:
  assumes "c_string p m = Some s" "length s < 2 ^ 32 - 1" "wf_gmem m"
    "n \<noteq> 0 \<Longrightarrow> \<exists>q. src = Some q \<and> read_bytes q (unat n) m = Some xs"
    "grants m (brk m + 1) (Suc (length s))"
  shows "ok (mqttmessage_create i (Some p) qos src n m) (\<lambda>(r, m').
    case r of None \<Rightarrow> \<exists>k. m' = m\<lparr>brk := k\<rparr>
    | Some h \<Rightarrow> message_view m' h = Some \<lparr>v_id = i, v_topic = s, v_qos = qos,
          v_payload = (if n = 0 then [] else xs), v_dup = False, v_retained = False\<rparr> \<and>
        (\<forall>h v. message_view m h = Some v \<longrightarrow> message_view m' h = Some v) \<and>
        (\<exists>k. mqttmessage_destroy (Some h) m' = Some (m\<lparr>brk := k\<rparr>)))"
proof -
  have z: "0 \<notin> set s" using c_string_bytes [OF assms(1)] by blast
  have l: "n \<noteq> 0 \<longrightarrow> length xs = unat n" using assms(4) read_bytes_len by blast
  have other: "message_view (made i qos s n xs m) h = Some v" if "message_view m h = Some v" for h v
  proof (rule view_made_other [OF assms(3) _ that])
    show "h \<noteq> brk m"
      using that wf_gmemD(1) [OF assms(3), of "brk m"] by (auto simp: message_view_def accessor_defs)
  qed
  show ?thesis
    using message_create_spec [OF assms(1-4), of i qos] view_made [OF z l, of i qos m] other assms(5)
      destroy_made [OF assms(3), of i qos s n xs]
    by auto
qed

lemma message_create_witness:
  "ok (mqttmessage_create 9 (Some (Chars 4 1)) 2 (Some (2, 1)) 2 message_heap) (\<lambda>(r, m').
     r = Some 9 \<and> message_view m' 9 = Some \<lparr>v_id = 9, v_topic = [0x62], v_qos = 2, v_payload = [Some 2, Some 3],
       v_dup = False, v_retained = False\<rparr> \<and>
     (\<exists>k. mqttmessage_destroy (Some 9) m' = Some (message_heap\<lparr>brk := k\<rparr>)))"
proof -
  have s: "c_string (Chars 4 1) message_heap = Some [0x62]" by (simp add: c_string_def message_heap_def cstr_def)
  have xs: "read_bytes (2, 1) (unat (2 :: u32)) message_heap = Some [Some 2, Some 3]"
    by (simp add: read_bytes_def message_heap_def)
  have r: "ok (mqttmessage_create 9 (Some (Chars 4 1)) 2 (Some (2, 1)) 2 message_heap) (\<lambda>(r, m'). r = Some 9)"
    using xs by (subst message_create_spec [OF s _ message_heap_wf, of 2 "Some (2, 1)" "[Some 2, Some 3]"])
      (simp_all add: message_heap_def)
  have "ok (mqttmessage_create 9 (Some (Chars 4 1)) 2 (Some (2, 1)) 2 message_heap) (\<lambda>(r, m').
    case r of None \<Rightarrow> \<exists>k. m' = message_heap\<lparr>brk := k\<rparr>
    | Some h \<Rightarrow> message_view m' h = Some \<lparr>v_id = 9, v_topic = [0x62], v_qos = 2,
          v_payload = (if (2 :: u32) = 0 then [] else [Some 2, Some 3]), v_dup = False, v_retained = False\<rparr> \<and>
        (\<forall>h v. message_view message_heap h = Some v \<longrightarrow> message_view m' h = Some v) \<and>
        (\<exists>k. mqttmessage_destroy (Some h) m' = Some (message_heap\<lparr>brk := k\<rparr>)))"
    by (rule message_create [OF s _ message_heap_wf]) (use xs message_heap_total in \<open>simp_all add: alloc_total_def\<close>)
  then show ?thesis using r by (auto simp: ok_iff)
qed

text \<open>
  C26: \<open>mqttmessage_clone\<close> of a message that owns its topic and payload returns another message with
  the same id, topic, payload, QoS and flags, and leaves the original as it was.
\<close>
theorem message_clone:
  assumes "wf_gmem m" "alloc_total m" "message_view m h = Some v" "messages m h = Some i"
    "topicName i = Some t" "payload_length (const_payload i) = 0" "length (v_topic v) < 2 ^ 32 - 1"
  shows "ok (mqttmessage_clone (Some h) m) (\<lambda>(r, m'). \<exists>h'. r = Some h' \<and> messages m h' = None \<and>
    message_view m' h' = Some v \<and> message_view m' h = Some v)"
  by (rule ok_mono2 [OF clone_spec [OF assms]]) auto

lemma message_clone_witness:
  "ok (mqttmessage_clone (Some 6) message_heap) (\<lambda>(r, m'). \<exists>h'. r = Some h' \<and> messages message_heap h' = None \<and>
     message_view m' h' = message_view message_heap 6 \<and> message_view m' 6 = message_view message_heap 6)"
proof -
  have "messages message_heap 6 = Some \<lparr>packetId = 7, qosInfo = 1, topicName = Some 4,
       appPayload = \<lparr>message = Some (2, 0), payload_length = 3\<rparr>, const_topic_name = None,
       const_payload = zero_payload, isDuplicateMsg = True, isMessageRetained = False\<rparr>"
    by (simp add: message_heap_def)
  from message_clone [OF message_heap_wf message_heap_total message_heap_view this] show ?thesis
    by (simp add: message_heap_view zero_payload_def)
qed

text \<open>
  A message created in place reads as the topic and the payload of the caller's memory, and
  destroying it touches neither; but it cannot be cloned: \<open>mqttmessage_clone\<close> returns NULL.
\<close>
theorem message_in_place:
  assumes "wf_gmem m" "c_string p m = Some s" "n \<noteq> 0" "read_bytes q (unat n) m = Some xs"
    "grants m (brk m) sizeof_MQTT_MESSAGE"
  shows "ok (mqttmessage_create_in_place i (Some p) qos (Some q) n m) (\<lambda>(r, m'). \<exists>h. r = Some h \<and>
    message_view m' h = Some \<lparr>v_id = i, v_topic = s, v_qos = qos, v_payload = xs, v_dup = False, v_retained = False\<rparr> \<and>
    mqttmessage_destroy r m' = Some (m\<lparr>brk := Suc (brk m)\<rparr>) \<and>
    mqttmessage_clone r m' = Some (None, m'))"
proof -
  let ?m = "m\<lparr>brk := Suc (brk m), messages := (messages m)(brk m \<mapsto>
      \<lparr>packetId = i, qosInfo = qos, topicName = None, appPayload = zero_payload, const_topic_name = Some p,
        const_payload = \<lparr>message = Some q, payload_length = n\<rparr>, isDuplicateMsg = False, isMessageRetained = False\<rparr>)\<rparr>"
  have run: "mqttmessage_create_in_place i (Some p) qos (Some q) n m = Some (Some (brk m), ?m)"
    using assms(3,5) by (simp add: mqttmessage_create_in_place_def malloc_struct_def set_message_def upd_message_def
        zero_message_def zero_payload_def word_gt_0_u32)
  have "c_string p ?m = c_string p m" by (rule c_string_cong) (cases p; simp)
  moreover have "read_bytes q (unat n) ?m = Some xs" using assms(4) by (simp add: read_bytes_def)
  ultimately have "message_view ?m (brk m) =
      Some \<lparr>v_id = i, v_topic = s, v_qos = qos, v_payload = xs, v_dup = False, v_retained = False\<rparr>"
    using assms(2,3) by (simp add: message_view_def accessor_defs payload_bytes_def word_gt_0_u32)
  moreover have "mqttmessage_destroy (Some (brk m)) ?m = Some (m\<lparr>brk := Suc (brk m)\<rparr>)"
    using wf_gmemD(1) [OF assms(1), of "brk m"]
    by (cases m) (simp add: mqttmessage_destroy_def free_message_def zero_payload_def fun_upd_idem)
  moreover have "mqttmessage_clone (Some (brk m)) ?m = Some (None, ?m)"
    by (simp add: mqttmessage_clone_def mqttmessage_create_def)
  ultimately show ?thesis by (simp add: run)
qed

lemma message_in_place_witness:
  "ok (mqttmessage_create_in_place 9 (Some (Literal [0x61])) 2 (Some (2, 1)) 2 message_heap) (\<lambda>(r, m'). \<exists>h. r = Some h \<and>
    message_view m' h = Some \<lparr>v_id = 9, v_topic = [0x61], v_qos = 2, v_payload = [Some 2, Some 3], v_dup = False, v_retained = False\<rparr> \<and>
    mqttmessage_destroy r m' = Some (message_heap\<lparr>brk := Suc (brk message_heap)\<rparr>) \<and>
    mqttmessage_clone r m' = Some (None, m'))"
  by (rule message_in_place [OF message_heap_wf]) (simp_all add: message_heap_def read_bytes_def)

text \<open>When the copy of the topic cannot be allocated, the creation is undefined.\<close>

lemma message_create_no_memory:
  assumes "c_string p m = Some s" "length s < 2 ^ 32 - 1" "wf_gmem m" "grants m (brk m) sizeof_MQTT_MESSAGE"
    "\<not> grants m (brk m + 1) (Suc (length s))"
  shows "mqttmessage_create i (Some p) qos src 0 m = None"
  using message_create_spec [OF assms(1-3), of 0 src "[]" i qos] assms(4,5) by simp

end
