(* ===== verification/Client.thy ===== *)
theory Client
  imports Xio
begin

text \<open>
  The MQTT client of \<^verbatim>\<open>uMQTT/src/mqtt_client.c\<close>.  Every function of the file is here except the
  three that only write to the log; of those, the reads of the data they print are kept.

  The callbacks of the user are function pointers in the client, and what they do, with the
  whole memory, is the record \<open>client_env\<close>; it contains the concrete ios and the clock, as
  they are parameters of the layers below.  The functions the client hands to the io layer
  and to the decoder are numbers, the constants whose names end in \<open>fn\<close>.
\<close>

section \<open>Data\<close>

datatype MQTT_CLIENT_EVENT_RESULT =
    MQTT_CLIENT_ON_CONNACK
  | MQTT_CLIENT_ON_PUBLISH_ACK
  | MQTT_CLIENT_ON_PUBLISH_RECV
  | MQTT_CLIENT_ON_PUBLISH_REL
  | MQTT_CLIENT_ON_PUBLISH_COMP
  | MQTT_CLIENT_ON_SUBSCRIBE_ACK
  | MQTT_CLIENT_ON_UNSUBSCRIBE_ACK
  | MQTT_CLIENT_ON_PING_RESPONSE
  | MQTT_CLIENT_ON_DISCONNECT

datatype MQTT_CLIENT_EVENT_ERROR =
    MQTT_CLIENT_CONNECTION_ERROR
  | MQTT_CLIENT_PARSE_ERROR
  | MQTT_CLIENT_MEMORY_ERROR
  | MQTT_CLIENT_COMMUNICATION_ERROR
  | MQTT_CLIENT_NO_PING_RESPONSE
  | MQTT_CLIENT_UNKNOWN_ERROR

text \<open>What the \<open>msgInfo\<close> argument of the operation callback points to.\<close>

datatype msg_info =
    No_info
  | Info_connack CONNECT_ACK
  | Info_puback PUBLISH_ACK
  | Info_suback SUBSCRIBE_ACK
  | Info_unsuback UNSUBSCRIBE_ACK

definition RETAIN_FLAG_MASK :: int where "RETAIN_FLAG_MASK = 0x1"
definition QOS_LEAST_ONCE_FLAG_MASK :: int where "QOS_LEAST_ONCE_FLAG_MASK = 0x2"
definition DUPLICATE_FLAG_MASK :: int where "DUPLICATE_FLAG_MASK = 0x8"
definition CONNECT_PACKET_MASK :: u8 where "CONNECT_PACKET_MASK = 0xf0"
definition DEFAULT_MAX_PING_RESPONSE_TIME :: u16 where "DEFAULT_MAX_PING_RESPONSE_TIME = 80"
definition MAX_CLOSE_RETRIES :: nat where "MAX_CLOSE_RETRIES = 2"

record MQTT_CLIENT =
  xioHandle :: ptr
  codec_handle :: ptr
  packetState :: CONTROL_PACKET_TYPE
  packetTickCntr :: ptr
  packetSendTimeMs :: u32
  fnOperationCallback :: fptr
  fnMessageRecv :: fptr
  op_ctx :: ptr
  fnOnErrorCallBack :: fptr
  errorCBCtx :: ptr
  disconnect_cb :: fptr
  disconnect_ctx :: ptr
  client_qosValue :: QOS_VALUE
  client_keepAlive :: u16
  mqttOptions :: MQTT_CLIENT_OPTIONS
  clientConnected :: bool
  socketConnected :: bool
  logTrace :: bool
  rawBytesTrace :: bool
  timeSincePing :: u32
  maxPingRespTime :: u16

record kmem = xmem +
  clients :: "addr \<rightharpoonup> MQTT_CLIENT"

record 'm client_env = "'m io_env" +
  on_operation :: "nat \<Rightarrow> ptr \<Rightarrow> MQTT_CLIENT_EVENT_RESULT \<Rightarrow> msg_info \<Rightarrow> ptr \<Rightarrow> 'm \<Rightarrow> 'm option"
  on_message :: "nat \<Rightarrow> ptr \<Rightarrow> ptr \<Rightarrow> 'm \<Rightarrow> 'm option"
  on_error :: "nat \<Rightarrow> ptr \<Rightarrow> MQTT_CLIENT_EVENT_ERROR \<Rightarrow> ptr \<Rightarrow> 'm \<Rightarrow> 'm option"
  on_disconnected :: "nat \<Rightarrow> ptr \<Rightarrow> 'm \<Rightarrow> 'm option"

type_synonym 'z env = "'z kmem_scheme client_env"

definition on_connection_closed_fn :: nat where "on_connection_closed_fn = 0"
definition sendComplete_fn :: nat where "sendComplete_fn = 1"
definition onOpenComplete_fn :: nat where "onOpenComplete_fn = 2"
definition onBytesReceived_fn :: nat where "onBytesReceived_fn = 3"
definition onIoError_fn :: nat where "onIoError_fn = 4"
definition recvCompleteCallback_fn :: nat where "recvCompleteCallback_fn = 5"

definition sizeof_MQTT_CLIENT :: nat where "sizeof_MQTT_CLIENT = 92"

definition upd_client ::
  "addr \<Rightarrow> (MQTT_CLIENT \<Rightarrow> MQTT_CLIENT) \<Rightarrow> 'z kmem_scheme \<Rightarrow> 'z kmem_scheme option" where
  "upd_client h f m = do { c \<leftarrow> clients m h; Some (m\<lparr>clients := (clients m)(h \<mapsto> f c)\<rparr>) }"

definition free_client :: "addr \<Rightarrow> 'z kmem_scheme \<Rightarrow> 'z kmem_scheme option" where
  "free_client h m = do { _ \<leftarrow> clients m h; Some (m\<lparr>clients := (clients m)(h := None)\<rparr>) }"

text \<open>\<open>free\<close> of a \<open>char*\<close>, which must point to the start of an array.\<close>

fun free_chars :: "char_ptr option \<Rightarrow> 'z mem_scheme \<Rightarrow> 'z mem_scheme option" where
  "free_chars None m = Some m"
| "free_chars (Some (Chars a i)) m = (if i = 0 then cfree (Some a) m else None)"
| "free_chars (Some (Literal _)) m = None"

section \<open>Closing and errors\<close>

definition call_disconnect_cb :: "'z env \<Rightarrow> addr \<Rightarrow> 'z kmem_scheme \<Rightarrow> 'z kmem_scheme option" where
  "call_disconnect_cb env h m = do {
     c \<leftarrow> clients m h;
     case disconnect_cb c of
       None \<Rightarrow> Some m
     | Some f \<Rightarrow> on_disconnected env f (disconnect_ctx c) m }"

definition on_connection_closed :: "'z env \<Rightarrow> ptr \<Rightarrow> 'z kmem_scheme \<Rightarrow> 'z kmem_scheme option" where
  "on_connection_closed env context m =
     (case context of
        None \<Rightarrow> Some m
      | Some h \<Rightarrow> do {
          m \<leftarrow> upd_client h (\<lambda>c. c\<lparr>socketConnected := False, clientConnected := False\<rparr>) m;
          call_disconnect_cb env h m })"

text \<open>The wait loop of \<open>close_connection\<close>; the first argument counts the rounds that are left.\<close>

fun close_loop :: "nat \<Rightarrow> 'z env \<Rightarrow> addr \<Rightarrow> 'z kmem_scheme \<Rightarrow> 'z kmem_scheme option" where
  "close_loop 0 env h m = Some m"
| "close_loop (Suc k) env h m = do {
     c \<leftarrow> clients m h;
     m \<leftarrow> xio_dowork env (xioHandle c) m;
     m \<leftarrow> ThreadAPI_Sleep env 2 m;
     c \<leftarrow> clients m h;
     if clientConnected c \<and> k > 0 then close_loop k env h m else Some m }"

definition close_connection :: "'z env \<Rightarrow> addr \<Rightarrow> 'z kmem_scheme \<Rightarrow> 'z kmem_scheme option" where
  "close_connection env h m = do {
     c \<leftarrow> clients m h;
     if socketConnected c then do {
       (_, m) \<leftarrow> xio_close env (xioHandle c) (Some on_connection_closed_fn, Some h) m;
       c \<leftarrow> clients m h;
       m \<leftarrow> (if disconnect_cb c = None then close_loop MAX_CLOSE_RETRIES env h m else Some m);
       upd_client h (\<lambda>c. c\<lparr>xioHandle := None\<rparr>) m }
     else call_disconnect_cb env h m }"

definition set_error_callback ::
  "'z env \<Rightarrow> addr \<Rightarrow> MQTT_CLIENT_EVENT_ERROR \<Rightarrow> 'z kmem_scheme \<Rightarrow> 'z kmem_scheme option" where
  "set_error_callback env h error_type m = do {
     c \<leftarrow> clients m h;
     m \<leftarrow> (case fnOnErrorCallBack c of
            None \<Rightarrow> Some m
          | Some f \<Rightarrow> on_error env f (Some h) error_type (errorCBCtx c) m);
     close_connection env h m }"

section \<open>Helpers\<close>

definition construct_trace_log_handle :: "addr \<Rightarrow> 'z kmem_scheme \<Rightarrow> (ptr \<times> 'z kmem_scheme) option" where
  "construct_trace_log_handle h m = do {
     c \<leftarrow> clients m h;
     if logTrace c then STRING_new m else Some (None, m) }"

text \<open>
  The readers of a received packet.  The argument \<open>buffer\<close> is a pointer to the iterator:
  \<open>None\<close> is a null pointer, \<open>Some it\<close> points to the iterator \<open>it\<close>, whose new value is
  returned.  An iterator that is read is inside its array; the last reader but one does not
  compare the length it reads with the bytes that are left.
\<close>

fun advance :: "nat \<Rightarrow> bptr \<Rightarrow> bptr" where
  "advance n (a, i) = (a, i + n)"

definition byteutil_read_uint16 ::
  "bptr option option \<Rightarrow> u32 \<Rightarrow> 'z mem_scheme \<Rightarrow> (u16 \<times> bptr option option) option" where
  "byteutil_read_uint16 buf len m =
     (case buf of
        Some (Some it) \<Rightarrow>
          if len \<ge> 2 then do {
            hi \<leftarrow> read_byte it m;
            lo \<leftarrow> read_byte (advance 1 it) m;
            Some (256 * ucast hi + ucast lo, Some (Some (advance 2 it))) }
          else Some (0, buf)
      | _ \<Rightarrow> Some (0, buf))"

definition byteutil_readUTF ::
  "bptr option option \<Rightarrow> u32 option \<Rightarrow> 'z mem_scheme \<Rightarrow>
   ((ptr \<times> bptr option option \<times> u32 option) \<times> 'z mem_scheme) option" where
  "byteutil_readUTF buf byteLen m =
     (if buf = None then Some ((None, buf, byteLen), m)
      else do {
        n \<leftarrow> byteLen;
        (len, buf) \<leftarrow> byteutil_read_uint16 buf n m;
        if len > 0 then do {
          (result, m) \<leftarrow> cmalloc (unat len + 1) m;
          case result of
            None \<Rightarrow> Some ((None, buf, byteLen), m)
          | Some a \<Rightarrow> do {
              b \<leftarrow> buf;
              it \<leftarrow> b;
              xs \<leftarrow> read_bytes it (unat len) m;
              m \<leftarrow> cwrite (a, 0) xs m;
              m \<leftarrow> cwrite (a, unat len) [Some 0] m;
              Some ((Some a, Some (Some (advance (unat len) it)), Some (ucast len)), m) } }
        else Some ((None, buf, byteLen), m) })"

definition byteutil_readByte :: "bptr option option \<Rightarrow> 'z mem_scheme \<Rightarrow> (u8 \<times> bptr option option) option" where
  "byteutil_readByte buf m =
     (case buf of
        None \<Rightarrow> Some (0, buf)
      | Some b \<Rightarrow> do {
          it \<leftarrow> b;
          result \<leftarrow> read_byte it m;
          Some (result, Some (Some (advance 1 it))) })"

definition retrievePacketType :: "CONTROL_PACKET_TYPE \<Rightarrow> cstring" where
  "retrievePacketType pkt =
     (let p = pkt AND CONNECT_PACKET_MASK in
      if p = CONNECT_TYPE then lit ''CONNECT''
      else if p = CONNACK_TYPE then lit ''CONNACK''
      else if p = PUBLISH_TYPE then lit ''PUBLISH''
      else if p = PUBACK_TYPE then lit ''PUBACK''
      else if p = PUBREC_TYPE then lit ''PUBREC''
      else if p = PUBREL_TYPE then lit ''PUBREL''
      else if p = SUBSCRIBE_TYPE then lit ''SUBSCRIBE''
      else if p = SUBACK_TYPE then lit ''SUBACK''
      else if p = UNSUBSCRIBE_TYPE then lit ''UNSUBSCRIBE''
      else if p = UNSUBACK_TYPE then lit ''UNSUBACK''
      else if p = PINGREQ_TYPE then lit ''PINGREQ''
      else if p = PINGRESP_TYPE then lit ''PINGRESP''
      else if p = DISCONNECT_TYPE then lit ''DISCONNECT''
      else lit ''UNKNOWN'')"

section \<open>Logging\<close>

text \<open>
  The text that the log functions print is not modelled; that they read the string or the
  bytes they print is, since the reads can be undefined.
\<close>

definition print_string :: "addr \<Rightarrow> ptr \<Rightarrow> 'z kmem_scheme \<Rightarrow> unit option" where
  "print_string h trace_log m = do {
     c \<leftarrow> clients m h;
     if logTrace c \<and> trace_log \<noteq> None then do {
       p \<leftarrow> STRING_c_str trace_log m;
       a \<leftarrow> p;
       _ \<leftarrow> c_string (Chars a 0) m;
       Some () }
     else Some () }"

definition log_outgoing_trace :: "ptr \<Rightarrow> ptr \<Rightarrow> 'z kmem_scheme \<Rightarrow> unit option" where
  "log_outgoing_trace client trace_log m =
     (case client of None \<Rightarrow> Some () | Some h \<Rightarrow> print_string h trace_log m)"

definition log_incoming_trace :: "ptr \<Rightarrow> ptr \<Rightarrow> 'z kmem_scheme \<Rightarrow> unit option" where
  "log_incoming_trace client trace_log m =
     (case client of None \<Rightarrow> Some () | Some h \<Rightarrow> print_string h trace_log m)"

fun print_bytes :: "bptr \<Rightarrow> nat \<Rightarrow> 'z mem_scheme \<Rightarrow> unit option" where
  "print_bytes q 0 m = Some ()"
| "print_bytes q (Suc n) m = do { _ \<leftarrow> read_byte q m; print_bytes (advance 1 q) n m }"

definition logOutgoingRawTrace :: "ptr \<Rightarrow> bptr option \<Rightarrow> u32 \<Rightarrow> 'z kmem_scheme \<Rightarrow> unit option" where
  "logOutgoingRawTrace client data len m =
     (case (client, data) of
        (Some h, Some q) \<Rightarrow>
          if len > 0 then do {
            c \<leftarrow> clients m h;
            if rawBytesTrace c then print_bytes q (unat len) m else Some () }
          else Some ()
      | _ \<Rightarrow> Some ())"

definition logIncomingRawTrace ::
  "ptr \<Rightarrow> CONTROL_PACKET_TYPE \<Rightarrow> u8 \<Rightarrow> bptr option \<Rightarrow> u32 \<Rightarrow> 'z kmem_scheme \<Rightarrow> unit option" where
  "logIncomingRawTrace client pkt flags data len m =
     (case client of
        None \<Rightarrow> Some ()
      | Some h \<Rightarrow> do {
          c \<leftarrow> clients m h;
          if rawBytesTrace c then
            (case data of
               Some q \<Rightarrow> if len > 0 then print_bytes q (unat len) m else Some ()
             | None \<Rightarrow> Some ())
          else Some () })"

section \<open>Sending\<close>

definition sendComplete :: "'z env \<Rightarrow> ptr \<Rightarrow> IO_SEND_RESULT \<Rightarrow> 'z kmem_scheme \<Rightarrow> 'z kmem_scheme option" where
  "sendComplete env context send_result m =
     (case context of
        None \<Rightarrow> Some m
      | Some h \<Rightarrow>
          if send_result = IO_SEND_OK then do {
            c \<leftarrow> clients m h;
            if packetState c = DISCONNECT_TYPE then do {
              m \<leftarrow> (case fnOperationCallback c of
                     None \<Rightarrow> Some m
                   | Some f \<Rightarrow> on_operation env f (Some h) MQTT_CLIENT_ON_DISCONNECT No_info (op_ctx c) m);
              close_connection env h m }
            else Some m }
          else if send_result = IO_SEND_ERROR then set_error_callback env h MQTT_CLIENT_COMMUNICATION_ERROR m
          else Some m)"

definition sendPacketItem ::
  "'z env \<Rightarrow> addr \<Rightarrow> bptr option \<Rightarrow> u32 \<Rightarrow> 'z kmem_scheme \<Rightarrow> (int \<times> 'z kmem_scheme) option" where
  "sendPacketItem env h data len m = do {
     c \<leftarrow> clients m h;
     ((r, ms), m) \<leftarrow> tickcounter_get_current_ms env (packetTickCntr c) (Some (packetSendTimeMs c)) m;
     if r \<noteq> 0 then Some (FAILURE, m)
     else do {
       now \<leftarrow> ms;
       m \<leftarrow> upd_client h (\<lambda>c. c\<lparr>packetSendTimeMs := now\<rparr>) m;
       c \<leftarrow> clients m h;
       (result, m) \<leftarrow> xio_send env (xioHandle c) data len (Some sendComplete_fn, Some h) m;
       if result \<noteq> 0 then Some (FAILURE, m)
       else do {
         _ \<leftarrow> logOutgoingRawTrace (Some h) data len m;
         Some (result, m) } } }"

text \<open>The recurring \<open>BUFFER_length\<close>, \<open>BUFFER_u_char\<close> and \<open>sendPacketItem\<close> of a packet.\<close>

definition send_buffer :: "'z env \<Rightarrow> addr \<Rightarrow> ptr \<Rightarrow> 'z kmem_scheme \<Rightarrow> (int \<times> 'z kmem_scheme) option" where
  "send_buffer env h pkt m = do {
     siz \<leftarrow> BUFFER_length pkt m;
     data \<leftarrow> BUFFER_u_char pkt m;
     sendPacketItem env h (map_option (\<lambda>a. (a, 0)) data) siz m }"

end
