(* ===== verification/Client_Receive.thy ===== *)
theory Client_Receive
  imports Client
begin

text \<open>
  The packets the client receives: \<^verbatim>\<open>recvCompleteCallback\<close>, one definition for each case of its
  switch, and the callbacks the client gives to the io layer.
\<close>

section \<open>Formatted text\<close>

definition hex_digit :: "nat \<Rightarrow> u8" where
  "hex_digit n = of_nat (if n < 10 then 48 + n else 87 + n)"

text \<open>\<open>%x\<close>\<close>

fun fmt_hex :: "nat \<Rightarrow> cstring" where
  "fmt_hex n = (if n < 16 then [hex_digit n] else fmt_hex (n div 16) @ [hex_digit (n mod 16)])"

declare fmt_hex.simps [simp del]

definition fmt_bool :: "bool \<Rightarrow> cstring" where
  "fmt_bool b = (if b then lit ''true'' else lit ''false'')"

text \<open>\<open>ENUM_TO_STRING (QOS_VALUE, ...)\<close> of the three values the client uses.\<close>

definition qos_string :: "QOS_VALUE \<Rightarrow> cstring" where
  "qos_string q =
     (if q = DELIVER_AT_MOST_ONCE then lit ''DELIVER_AT_MOST_ONCE = 0x00''
      else if q = DELIVER_AT_LEAST_ONCE then lit ''DELIVER_AT_LEAST_ONCE = 0x01''
      else lit ''DELIVER_EXACTLY_ONCE = 0x02'')"

text \<open>The recurring \<open>if (mqtt_client->logTrace) STRING_sprintf (trace_log, ...)\<close>.\<close>

definition trace_append :: "addr \<Rightarrow> ptr \<Rightarrow> cstring option \<Rightarrow> 'z kmem_scheme \<Rightarrow> 'z kmem_scheme option" where
  "trace_append h trace_log txt m = do {
     c \<leftarrow> clients m h;
     if logTrace c then do {
       t \<leftarrow> txt;
       (_, m) \<leftarrow> STRING_sprintf trace_log (Some (Some t)) m;
       Some m }
     else Some m }"

text \<open>The recurring construction, printing and deletion of a trace that is complete.\<close>

definition trace_line :: "addr \<Rightarrow> cstring \<Rightarrow> 'z kmem_scheme \<Rightarrow> 'z kmem_scheme option" where
  "trace_line h txt m = do {
     c \<leftarrow> clients m h;
     if logTrace c then do {
       (trace_log, m) \<leftarrow> STRING_construct_sprintf (Some (Some txt)) m;
       _ \<leftarrow> log_incoming_trace (Some h) trace_log m;
       STRING_delete trace_log m }
     else Some m }"

definition delete_trace :: "ptr \<Rightarrow> 'z kmem_scheme \<Rightarrow> 'z kmem_scheme option" where
  "delete_trace trace_log m = (if trace_log \<noteq> None then STRING_delete trace_log m else Some m)"

section \<open>The cases of the switch\<close>

text \<open>\<open>mqtt_client->fnOperationCallback (mqtt_client, ..., mqtt_client->ctx)\<close>\<close>

definition call_operation ::
  "'z env \<Rightarrow> addr \<Rightarrow> MQTT_CLIENT_EVENT_RESULT \<Rightarrow> msg_info \<Rightarrow> 'z kmem_scheme \<Rightarrow> 'z kmem_scheme option" where
  "call_operation env h action info m = do {
     c \<leftarrow> clients m h;
     f \<leftarrow> fnOperationCallback c;
     on_operation env f (Some h) action info (op_ctx c) m }"

text \<open>The recurring end of a case: the reply, if there is one, is sent and deleted.\<close>

definition send_reply :: "'z env \<Rightarrow> addr \<Rightarrow> ptr \<Rightarrow> 'z kmem_scheme \<Rightarrow> 'z kmem_scheme option" where
  "send_reply env h pubRel m =
     (if pubRel \<noteq> None then do {
        (_, m) \<leftarrow> send_buffer env h pubRel m;
        BUFFER_delete pubRel m }
      else Some m)"

text \<open>The recurring test of the packet that a builder returned.\<close>

definition check_packet :: "'z env \<Rightarrow> addr \<Rightarrow> ptr \<Rightarrow> 'z kmem_scheme \<Rightarrow> 'z kmem_scheme option" where
  "check_packet env h pubRel m =
     (if pubRel = None then set_error_callback env h MQTT_CLIENT_MEMORY_ERROR m else Some m)"

definition recv_connack :: "'z env \<Rightarrow> addr \<Rightarrow> bptr option \<Rightarrow> 'z kmem_scheme \<Rightarrow> 'z kmem_scheme option" where
  "recv_connack env h iterator m = do {
     c \<leftarrow> clients m h;
     if fnOperationCallback c \<noteq> None then do {
       (b, it) \<leftarrow> byteutil_readByte (Some iterator) m;
       (code, it) \<leftarrow> byteutil_readByte it m;
       let connack = \<lparr>isSessionPresent = (b = 0x1), returnCode = code\<rparr>;
       m \<leftarrow> trace_line h (lit ''CONNACK | SESSION_PRESENT: '' @ fmt_bool (isSessionPresent connack) @
              lit '' | RETURN_CODE: 0x'' @ fmt_hex (unat (returnCode connack))) m;
       m \<leftarrow> call_operation env h MQTT_CLIENT_ON_CONNACK (Info_connack connack) m;
       if returnCode connack = CONNECTION_ACCEPTED
       then upd_client h (\<lambda>c. c\<lparr>clientConnected := True\<rparr>) m
       else Some m }
     else Some m }"

definition publish_qos :: "int \<Rightarrow> QOS_VALUE" where
  "publish_qos flags =
     (if flags = 0 then DELIVER_AT_MOST_ONCE
      else if flags AND QOS_LEAST_ONCE_FLAG_MASK \<noteq> 0 then DELIVER_AT_LEAST_ONCE
      else DELIVER_EXACTLY_ONCE)"

text \<open>\<open>len - (iterator - initialPos)\<close>\<close>

definition bytes_left :: "u32 \<Rightarrow> bptr \<Rightarrow> bptr \<Rightarrow> u32" where
  "bytes_left len initialPos iterator = len - of_nat (snd iterator - snd initialPos)"

text \<open>What is done with a message: the callback of the user and the reply.\<close>

definition deliver_message ::
  "'z env \<Rightarrow> addr \<Rightarrow> addr \<Rightarrow> QOS_VALUE \<Rightarrow> u16 \<Rightarrow> 'z kmem_scheme \<Rightarrow> 'z kmem_scheme option" where
  "deliver_message env h msgHandle qosValue pktId m = do {
     c \<leftarrow> clients m h;
     f \<leftarrow> fnMessageRecv c;
     m \<leftarrow> on_message env f (Some msgHandle) (op_ctx c) m;
     (pubRel, m) \<leftarrow>
       (if qosValue = DELIVER_EXACTLY_ONCE then do {
          (pubRel, m) \<leftarrow> mqtt_codec_publishReceived pktId m;
          m \<leftarrow> check_packet env h pubRel m;
          Some (pubRel, m) }
        else if qosValue = DELIVER_AT_LEAST_ONCE then do {
          (pubRel, m) \<leftarrow> mqtt_codec_publishAck pktId m;
          m \<leftarrow> check_packet env h pubRel m;
          Some (pubRel, m) }
        else Some (None, m));
     send_reply env h pubRel m }"

definition recv_publish ::
  "'z env \<Rightarrow> addr \<Rightarrow> int \<Rightarrow> bptr \<Rightarrow> u32 \<Rightarrow> 'z kmem_scheme \<Rightarrow> 'z kmem_scheme option" where
  "recv_publish env h flags initialPos len m = do {
     c \<leftarrow> clients m h;
     if fnMessageRecv c = None then Some m
     else do {
       let isDuplicateMsg = (flags AND DUPLICATE_FLAG_MASK \<noteq> 0);
       let isRetainMsg = (flags AND RETAIN_FLAG_MASK \<noteq> 0);
       let qosValue = publish_qos flags;
       (trace_log, m) \<leftarrow>
         (if logTrace c
          then STRING_construct_sprintf (Some (Some
            (lit ''PUBLISH | IS_DUP: '' @ fmt_bool isDuplicateMsg @ lit '' | RETAIN: '' @
             fmt_nat (if isRetainMsg then 1 else 0) @ lit '' | QOS: '' @ qos_string qosValue))) m
          else Some (None, m));
       ((topic, iterator, _), m) \<leftarrow>
         byteutil_readUTF (Some (Some initialPos)) (Some (bytes_left len initialPos initialPos)) m;
       case topic of
         None \<Rightarrow> do {
           m \<leftarrow> set_error_callback env h MQTT_CLIENT_PARSE_ERROR m;
           delete_trace trace_log m }
       | Some t \<Rightarrow> do {
           m \<leftarrow> trace_append h trace_log (fmt_s '' | TOPIC_NAME: '' (Some (Chars t 0)) m) m;
           p \<leftarrow> iterator;
           it \<leftarrow> p;
           (pktId, iterator) \<leftarrow>
             (if qosValue \<noteq> DELIVER_AT_MOST_ONCE
              then byteutil_read_uint16 iterator (bytes_left len initialPos it) m
              else Some (0, iterator));
           m \<leftarrow> (if qosValue \<noteq> DELIVER_AT_MOST_ONCE
                then trace_append h trace_log (Some (lit '' | PACKET_ID: '' @ fmt_nat (unat pktId))) m
                else Some m);
           p \<leftarrow> iterator;
           it \<leftarrow> p;
           let len = bytes_left len initialPos it;
           (msgHandle, m) \<leftarrow> mqttmessage_create pktId (Some (Chars t 0)) qosValue (Some it) len m;
           m \<leftarrow> (case msgHandle of
                  None \<Rightarrow> do {
                    m \<leftarrow> set_error_callback env h MQTT_CLIENT_MEMORY_ERROR m;
                    delete_trace trace_log m }
                | Some g \<Rightarrow> do {
                    (r1, m) \<leftarrow> mqttmessage_setIsDuplicateMsg msgHandle isDuplicateMsg m;
                    (r2, m) \<leftarrow> (if r1 \<noteq> 0 then Some (r1, m) else mqttmessage_setIsRetained msgHandle isRetainMsg m);
                    m \<leftarrow> (if r2 \<noteq> 0 then do {
                           m \<leftarrow> set_error_callback env h MQTT_CLIENT_MEMORY_ERROR m;
                           delete_trace trace_log m }
                         else do {
                           c \<leftarrow> clients m h;
                           m \<leftarrow> (if logTrace c then do {
                                  (_, m) \<leftarrow> STRING_sprintf trace_log
                                    (Some (Some (lit '' | PAYLOAD_LEN: '' @ fmt_nat (unat len)))) m;
                                  _ \<leftarrow> log_incoming_trace (Some h) trace_log m;
                                  STRING_delete trace_log m }
                                else Some m);
                           deliver_message env h g qosValue pktId m });
                    mqttmessage_destroy msgHandle m });
           cfree (Some t) m } } }"

definition puback_action :: "CONTROL_PACKET_TYPE \<Rightarrow> MQTT_CLIENT_EVENT_RESULT" where
  "puback_action pkt =
     (if pkt = PUBACK_TYPE then MQTT_CLIENT_ON_PUBLISH_ACK
      else if pkt = PUBREC_TYPE then MQTT_CLIENT_ON_PUBLISH_RECV
      else if pkt = PUBREL_TYPE then MQTT_CLIENT_ON_PUBLISH_REL
      else MQTT_CLIENT_ON_PUBLISH_COMP)"

definition recv_puback ::
  "'z env \<Rightarrow> addr \<Rightarrow> CONTROL_PACKET_TYPE \<Rightarrow> bptr option \<Rightarrow> u32 \<Rightarrow> 'z kmem_scheme \<Rightarrow> 'z kmem_scheme option" where
  "recv_puback env h pkt iterator len m = do {
     c \<leftarrow> clients m h;
     if fnOperationCallback c \<noteq> None then do {
       let action = puback_action pkt;
       (pktId, _) \<leftarrow> byteutil_read_uint16 (Some iterator) len m;
       m \<leftarrow> trace_line h ((if pkt = PUBACK_TYPE then lit ''PUBACK'' else if pkt = PUBREC_TYPE then lit ''PUBREC''
              else if pkt = PUBREL_TYPE then lit ''PUBREL'' else lit ''PUBCOMP'') @
              lit '' | PACKET_ID: '' @ fmt_nat (unat pktId)) m;
       m \<leftarrow> call_operation env h action (Info_puback \<lparr>puback_packetId = pktId\<rparr>) m;
       (pubRel, m) \<leftarrow>
         (if pkt = PUBREC_TYPE then do {
            (pubRel, m) \<leftarrow> mqtt_codec_publishRelease pktId m;
            m \<leftarrow> check_packet env h pubRel m;
            Some (pubRel, m) }
          else if pkt = PUBREL_TYPE then do {
            (pubRel, m) \<leftarrow> mqtt_codec_publishComplete pktId m;
            m \<leftarrow> check_packet env h pubRel m;
            Some (pubRel, m) }
          else Some (None, m));
       send_reply env h pubRel m }
     else Some m }"

text \<open>The loop over the return codes; the first argument is \<open>remainLen\<close>.\<close>

fun suback_loop ::
  "nat \<Rightarrow> addr \<Rightarrow> addr \<Rightarrow> ptr \<Rightarrow> bptr option option \<Rightarrow> u32 \<Rightarrow> 'z kmem_scheme \<Rightarrow> (u32 \<times> 'z kmem_scheme) option" where
  "suback_loop 0 h a trace_log iterator count m = Some (count, m)"
| "suback_loop (Suc n) h a trace_log iterator count m = do {
     (b, iterator) \<leftarrow> byteutil_readByte iterator m;
     m \<leftarrow> write_bytes (a, unat count) [Some b] m;
     m \<leftarrow> trace_append h trace_log (Some (lit '' | RETURN_CODE: '' @ fmt_nat (unat b))) m;
     suback_loop n h a trace_log iterator (count + 1) m }"

definition recv_suback ::
  "'z env \<Rightarrow> addr \<Rightarrow> bptr option \<Rightarrow> u32 \<Rightarrow> 'z kmem_scheme \<Rightarrow> 'z kmem_scheme option" where
  "recv_suback env h iterator len m = do {
     c \<leftarrow> clients m h;
     if fnOperationCallback c \<noteq> None then do {
       (pktId, it) \<leftarrow> byteutil_read_uint16 (Some iterator) len m;
       let remainLen = len - 2;
       (trace_log, m) \<leftarrow>
         (if logTrace c
          then STRING_construct_sprintf (Some (Some (lit ''SUBACK | PACKET_ID: '' @ fmt_nat (unat pktId)))) m
          else Some (None, m));
       (p, m) \<leftarrow> malloc (unat remainLen) m;
       case p of
         Some a \<Rightarrow> do {
           (count, m) \<leftarrow> suback_loop (unat remainLen) h a trace_log it 0 m;
           c \<leftarrow> clients m h;
           m \<leftarrow> (if logTrace c then do {
                  _ \<leftarrow> log_incoming_trace (Some h) trace_log m;
                  STRING_delete trace_log m }
                else Some m);
           m \<leftarrow> call_operation env h MQTT_CLIENT_ON_SUBSCRIBE_ACK
                (Info_suback \<lparr>suback_packetId = pktId, suback_qosReturn = Some a, qosCount = count\<rparr>) m;
           free (Some a) m }
       | None \<Rightarrow> set_error_callback env h MQTT_CLIENT_MEMORY_ERROR m }
     else Some m }"

definition recv_unsuback ::
  "'z env \<Rightarrow> addr \<Rightarrow> bptr option \<Rightarrow> u32 \<Rightarrow> 'z kmem_scheme \<Rightarrow> 'z kmem_scheme option" where
  "recv_unsuback env h iterator len m = do {
     c \<leftarrow> clients m h;
     if fnOperationCallback c \<noteq> None then do {
       (pktId, _) \<leftarrow> byteutil_read_uint16 (Some iterator) len m;
       m \<leftarrow> trace_line h (lit ''UNSUBACK | PACKET_ID: '' @ fmt_nat (unat pktId)) m;
       call_operation env h MQTT_CLIENT_ON_UNSUBSCRIBE_ACK (Info_unsuback \<lparr>unsuback_packetId = pktId\<rparr>) m }
     else Some m }"

definition recv_pingresp :: "'z env \<Rightarrow> addr \<Rightarrow> 'z kmem_scheme \<Rightarrow> 'z kmem_scheme option" where
  "recv_pingresp env h m = do {
     m \<leftarrow> upd_client h (\<lambda>c. c\<lparr>timeSincePing := 0\<rparr>) m;
     m \<leftarrow> trace_line h (lit ''PINGRESP'') m;
     c \<leftarrow> clients m h;
     if fnOperationCallback c \<noteq> None then call_operation env h MQTT_CLIENT_ON_PING_RESPONSE No_info m
     else Some m }"

definition recvCompleteCallback ::
  "'z env \<Rightarrow> ptr \<Rightarrow> CONTROL_PACKET_TYPE \<Rightarrow> int \<Rightarrow> ptr \<Rightarrow> 'z kmem_scheme \<Rightarrow> 'z kmem_scheme option" where
  "recvCompleteCallback env context pkt flags hdr m =
     (if (context \<noteq> None \<and> hdr \<noteq> None) \<or> pkt = PINGRESP_TYPE then do {
        len \<leftarrow> BUFFER_length hdr m;
        data \<leftarrow> BUFFER_u_char hdr m;
        let iterator = map_option (\<lambda>a. (a, 0)) data;
        _ \<leftarrow> logIncomingRawTrace context pkt (word_of_int flags) iterator len m;
        if (iterator \<noteq> None \<and> len > 0) \<or> pkt = PINGRESP_TYPE then do {
          h \<leftarrow> context;
          if pkt = CONNACK_TYPE then recv_connack env h iterator m
          else if pkt = PUBLISH_TYPE then do { it \<leftarrow> iterator; recv_publish env h flags it len m }
          else if pkt = PUBACK_TYPE \<or> pkt = PUBREC_TYPE \<or> pkt = PUBREL_TYPE \<or> pkt = PUBCOMP_TYPE
            then recv_puback env h pkt iterator len m
          else if pkt = SUBACK_TYPE then recv_suback env h iterator len m
          else if pkt = UNSUBACK_TYPE then recv_unsuback env h iterator len m
          else if pkt = PINGRESP_TYPE then recv_pingresp env h m
          else Some m }
        else Some m }
      else Some m)"

section \<open>The callbacks for the io layer\<close>

text \<open>The client gives only its own callback to the decoder.\<close>

definition client_call :: "'z env \<Rightarrow> nat \<Rightarrow> ptr \<Rightarrow> CONTROL_PACKET_TYPE \<Rightarrow> int \<Rightarrow> ptr \<Rightarrow> 'z kmem_scheme \<Rightarrow> 'z kmem_scheme option" where
  "client_call env f context pkt flags hdr m =
     (if f = recvCompleteCallback_fn then recvCompleteCallback env context pkt flags hdr m else None)"

definition onOpenComplete :: "'z env \<Rightarrow> ptr \<Rightarrow> IO_OPEN_RESULT \<Rightarrow> 'z kmem_scheme \<Rightarrow> 'z kmem_scheme option" where
  "onOpenComplete env context open_result m =
     (case context of
        None \<Rightarrow> Some m
      | Some h \<Rightarrow> do {
          c \<leftarrow> clients m h;
          if open_result = IO_OPEN_OK \<and> \<not> socketConnected c then do {
            m \<leftarrow> upd_client h (\<lambda>c. c\<lparr>packetState := CONNECT_TYPE, socketConnected := True\<rparr>) m;
            (trace_log, m) \<leftarrow> construct_trace_log_handle h m;
            c \<leftarrow> clients m h;
            (connPacket, m) \<leftarrow> mqtt_codec_connect (Some (mqttOptions c)) trace_log m;
            m \<leftarrow> (if connPacket = None then Some m
                 else do {
                   (r, m) \<leftarrow> send_buffer env h connPacket m;
                   _ \<leftarrow> (if r \<noteq> 0 then Some () else log_outgoing_trace (Some h) trace_log m);
                   BUFFER_delete connPacket m });
            delete_trace trace_log m }
          else do {
            m \<leftarrow> (case fnOnErrorCallBack c of
                   Some f \<Rightarrow>
                     if \<not> socketConnected c
                     then on_error env f (Some h) MQTT_CLIENT_CONNECTION_ERROR (errorCBCtx c) m
                     else Some m
                 | None \<Rightarrow> Some m);
            close_connection env h m } })"

definition onBytesReceived :: "'z env \<Rightarrow> ptr \<Rightarrow> bptr option \<Rightarrow> u32 \<Rightarrow> 'z kmem_scheme \<Rightarrow> 'z kmem_scheme option" where
  "onBytesReceived env context buf siz m =
     (case context of
        None \<Rightarrow> Some m
      | Some h \<Rightarrow> do {
          c \<leftarrow> clients m h;
          (r, m) \<leftarrow> mqtt_codec_bytesReceived (client_call env) (codec_handle c) buf siz m;
          if r \<noteq> 0 then set_error_callback env h MQTT_CLIENT_PARSE_ERROR m else Some m })"

definition onIoError :: "'z env \<Rightarrow> ptr \<Rightarrow> 'z kmem_scheme \<Rightarrow> 'z kmem_scheme option" where
  "onIoError env context m =
     (case context of
        None \<Rightarrow> Some m
      | Some h \<Rightarrow> do {
          c \<leftarrow> clients m h;
          if fnOperationCallback c \<noteq> None then set_error_callback env h MQTT_CLIENT_CONNECTION_ERROR m
          else Some m })"

end
