(* ===== verification/Client_Api.thy ===== *)
theory Client_Api
  imports Client_Receive
begin

text \<open>The interface of the client: the functions \<^verbatim>\<open>mqtt_client_*\<close>.\<close>

section \<open>Options\<close>

text \<open>The recurring \<open>if (... != NULL) { free (...); ... = NULL; }\<close> for a string of the options.\<close>

definition clear_string ::
  "addr \<Rightarrow> (MQTT_CLIENT_OPTIONS \<Rightarrow> char_ptr option) \<Rightarrow>
   ((char_ptr option \<Rightarrow> char_ptr option) \<Rightarrow> MQTT_CLIENT_OPTIONS \<Rightarrow> MQTT_CLIENT_OPTIONS) \<Rightarrow>
   'z kmem_scheme \<Rightarrow> 'z kmem_scheme option" where
  "clear_string h get upd m = do {
     c \<leftarrow> clients m h;
     if get (mqttOptions c) \<noteq> None then do {
       m \<leftarrow> free_chars (get (mqttOptions c)) m;
       upd_client h (\<lambda>c. c\<lparr>mqttOptions := upd (\<lambda>_. None) (mqttOptions c)\<rparr>) m }
     else Some m }"

definition clear_mqtt_options :: "addr \<Rightarrow> 'z kmem_scheme \<Rightarrow> 'z kmem_scheme option" where
  "clear_mqtt_options h m = do {
     m \<leftarrow> clear_string h clientId clientId_update m;
     m \<leftarrow> clear_string h willTopic willTopic_update m;
     m \<leftarrow> clear_string h willMessage willMessage_update m;
     m \<leftarrow> clear_string h username username_update m;
     clear_string h password password_update m }"

text \<open>The recurring copy of a string of the options, when there is one and no copy before it failed.\<close>

definition clone_string ::
  "addr \<Rightarrow> (MQTT_CLIENT_OPTIONS \<Rightarrow> char_ptr option) \<Rightarrow>
   ((char_ptr option \<Rightarrow> char_ptr option) \<Rightarrow> MQTT_CLIENT_OPTIONS \<Rightarrow> MQTT_CLIENT_OPTIONS) \<Rightarrow>
   MQTT_CLIENT_OPTIONS \<Rightarrow> int \<Rightarrow> 'z kmem_scheme \<Rightarrow> (int \<times> 'z kmem_scheme) option" where
  "clone_string h get upd opts result m =
     (if result = 0 \<and> get opts \<noteq> None then do {
        ((r, dest), m) \<leftarrow> mallocAndStrcpy_s (Some None) (get opts) m;
        if r \<noteq> 0 then Some (FAILURE, m)
        else do {
          c \<leftarrow> clients m h;
          m \<leftarrow> (if get (mqttOptions c) \<noteq> None then free_chars (get (mqttOptions c)) m else Some m);
          copy \<leftarrow> dest;
          m \<leftarrow> upd_client h (\<lambda>c. c\<lparr>mqttOptions :=
                upd (\<lambda>_. map_option (\<lambda>a. Chars a 0) copy) (mqttOptions c)\<rparr>) m;
          Some (0, m) } }
      else Some (result, m))"

definition cloneMqttOptions ::
  "addr \<Rightarrow> MQTT_CLIENT_OPTIONS \<Rightarrow> 'z kmem_scheme \<Rightarrow> (int \<times> 'z kmem_scheme) option" where
  "cloneMqttOptions h opts m = do {
     (result, m) \<leftarrow> clone_string h clientId clientId_update opts 0 m;
     (result, m) \<leftarrow> clone_string h willTopic willTopic_update opts result m;
     (result, m) \<leftarrow> clone_string h willMessage willMessage_update opts result m;
     (result, m) \<leftarrow> clone_string h username username_update opts result m;
     (result, m) \<leftarrow> clone_string h password password_update opts result m;
     if result = 0 then do {
       m \<leftarrow> upd_client h (\<lambda>c. c\<lparr>mqttOptions := (mqttOptions c)
             \<lparr>keepAliveInterval := keepAliveInterval opts, messageRetain := messageRetain opts,
              useCleanSession := useCleanSession opts, qualityOfServiceValue := qualityOfServiceValue opts\<rparr>\<rparr>) m;
       Some (result, m) }
     else do {
       m \<leftarrow> clear_mqtt_options h m;
       Some (result, m) } }"

section \<open>Creation and destruction\<close>

text \<open>\<open>memset (result, 0, sizeof (MQTT_CLIENT))\<close>\<close>

definition zero_options :: MQTT_CLIENT_OPTIONS where
  "zero_options = \<lparr>clientId = None, willTopic = None, willMessage = None, username = None, password = None,
     keepAliveInterval = 0, messageRetain = False, useCleanSession = False, qualityOfServiceValue = 0,
     log_trace = False\<rparr>"

definition zero_client :: MQTT_CLIENT where
  "zero_client = \<lparr>xioHandle = None, codec_handle = None, packetState = 0, packetTickCntr = None,
     packetSendTimeMs = 0, fnOperationCallback = None, fnMessageRecv = None, op_ctx = None,
     fnOnErrorCallBack = None, errorCBCtx = None, disconnect_cb = None, disconnect_ctx = None,
     client_qosValue = 0, client_keepAlive = 0, mqttOptions = zero_options, clientConnected = False,
     socketConnected = False, logTrace = False, rawBytesTrace = False, timeSincePing = 0, maxPingRespTime = 0\<rparr>"

definition mqtt_client_init ::
  "'z env \<Rightarrow> fptr \<Rightarrow> fptr \<Rightarrow> ptr \<Rightarrow> fptr \<Rightarrow> ptr \<Rightarrow> 'z kmem_scheme \<Rightarrow> (ptr \<times> 'z kmem_scheme) option" where
  "mqtt_client_init env msgRecv opCallback opCallbackCtx onErrorCallBack errorCtx m =
     (if msgRecv = None then Some (None, m)
      else do {
        (result, m) \<leftarrow> malloc_struct sizeof_MQTT_CLIENT m;
        case result of
          None \<Rightarrow> Some (None, m)
        | Some h \<Rightarrow> do {
            let m = m\<lparr>clients := (clients m)(h \<mapsto> zero_client)\<rparr>;
            m \<leftarrow> upd_client h (\<lambda>c. c\<lparr>packetState := UNKNOWN_TYPE, fnOperationCallback := opCallback,
                   op_ctx := opCallbackCtx, fnMessageRecv := msgRecv, fnOnErrorCallBack := onErrorCallBack,
                   errorCBCtx := errorCtx, client_qosValue := DELIVER_AT_MOST_ONCE\<rparr>) m;
            (t, m) \<leftarrow> tickcounter_create env m;
            m \<leftarrow> upd_client h (\<lambda>c. c\<lparr>packetTickCntr := t, maxPingRespTime := DEFAULT_MAX_PING_RESPONSE_TIME\<rparr>) m;
            if t = None then do {
              m \<leftarrow> free_client h m;
              Some (None, m) }
            else do {
              (d, m) \<leftarrow> mqtt_codec_create (Some recvCompleteCallback_fn) (Some h) m;
              m \<leftarrow> upd_client h (\<lambda>c. c\<lparr>codec_handle := d\<rparr>) m;
              if d = None then do {
                c \<leftarrow> clients m h;
                m \<leftarrow> tickcounter_destroy (packetTickCntr c) m;
                m \<leftarrow> free_client h m;
                Some (None, m) }
              else Some (Some h, m) } } })"

definition mqtt_client_deinit :: "ptr \<Rightarrow> 'z kmem_scheme \<Rightarrow> 'z kmem_scheme option" where
  "mqtt_client_deinit handle m =
     (case handle of
        None \<Rightarrow> Some m
      | Some h \<Rightarrow> do {
          c \<leftarrow> clients m h;
          m \<leftarrow> tickcounter_destroy (packetTickCntr c) m;
          m \<leftarrow> mqtt_codec_destroy (codec_handle c) m;
          m \<leftarrow> clear_mqtt_options h m;
          free_client h m })"

section \<open>Connection\<close>

definition ping_limit :: "u16 \<Rightarrow> u16" where
  "ping_limit keepAlive =
     (if DEFAULT_MAX_PING_RESPONSE_TIME < keepAlive div 2 then DEFAULT_MAX_PING_RESPONSE_TIME else keepAlive div 2)"

definition mqtt_client_connect ::
  "'z env \<Rightarrow> ptr \<Rightarrow> ptr \<Rightarrow> MQTT_CLIENT_OPTIONS option \<Rightarrow> 'z kmem_scheme \<Rightarrow> (int \<times> 'z kmem_scheme) option" where
  "mqtt_client_connect env handle xio options m =
     (case (handle, options) of
        (Some h, Some opts) \<Rightarrow>
          if xio = None then Some (FAILURE, m)
          else do {
            m \<leftarrow> upd_client h (\<lambda>c. c\<lparr>xioHandle := xio, packetState := UNKNOWN_TYPE,
                   client_qosValue := qualityOfServiceValue opts, client_keepAlive := keepAliveInterval opts,
                   maxPingRespTime := ping_limit (keepAliveInterval opts)\<rparr>) m;
            (r, m) \<leftarrow> cloneMqttOptions h opts m;
            if r \<noteq> 0 then Some (FAILURE, m)
            else do {
              (r, m) \<leftarrow> xio_open env xio (Some onOpenComplete_fn, Some h) (Some onBytesReceived_fn, Some h)
                (Some onIoError_fn, Some h) m;
              if r \<noteq> 0 then do {
                m \<leftarrow> clear_mqtt_options h m;
                Some (FAILURE, m) }
              else Some (0, m) } }
      | _ \<Rightarrow> Some (FAILURE, m))"

definition mqtt_client_disconnect ::
  "'z env \<Rightarrow> ptr \<Rightarrow> fptr \<Rightarrow> ptr \<Rightarrow> 'z kmem_scheme \<Rightarrow> (int \<times> 'z kmem_scheme) option" where
  "mqtt_client_disconnect env handle callback callback_ctx m =
     (case handle of
        None \<Rightarrow> Some (FAILURE, m)
      | Some h \<Rightarrow> do {
          c \<leftarrow> clients m h;
          if clientConnected c then do {
            (disconnectPacket, m) \<leftarrow> mqtt_codec_disconnect m;
            (result, m) \<leftarrow>
              (if disconnectPacket = None then do {
                 m \<leftarrow> upd_client h (\<lambda>c. c\<lparr>packetState := PACKET_TYPE_ERROR\<rparr>) m;
                 Some (FAILURE, m) }
               else do {
                 m \<leftarrow> upd_client h (\<lambda>c. c\<lparr>disconnect_cb := callback, disconnect_ctx := callback_ctx,
                        packetState := DISCONNECT_TYPE\<rparr>) m;
                 (r, m) \<leftarrow> send_buffer env h disconnectPacket m;
                 (result, m) \<leftarrow>
                   (if r \<noteq> 0 then Some (FAILURE, m)
                    else do {
                      c \<leftarrow> clients m h;
                      m \<leftarrow> (if logTrace c then do {
                             (trace_log, m) \<leftarrow> STRING_construct (Some (Literal (lit ''DISCONNECT''))) m;
                             _ \<leftarrow> log_outgoing_trace (Some h) trace_log m;
                             STRING_delete trace_log m }
                           else Some m);
                      Some (0, m) });
                 m \<leftarrow> BUFFER_delete disconnectPacket m;
                 Some (result, m) });
            m \<leftarrow> clear_mqtt_options h m;
            m \<leftarrow> upd_client h (\<lambda>c. c\<lparr>xioHandle := None\<rparr>) m;
            Some (result, m) }
          else do {
            m \<leftarrow> upd_client h (\<lambda>c. c\<lparr>disconnect_cb := callback, disconnect_ctx := callback_ctx\<rparr>) m;
            m \<leftarrow> close_connection env h m;
            m \<leftarrow> clear_mqtt_options h m;
            Some (0, m) } })"

section \<open>Packets\<close>

text \<open>
  The common end of publish, subscribe and unsubscribe: the packet is sent and deleted, or
  the builder failed.
\<close>

definition send_request ::
  "'z env \<Rightarrow> addr \<Rightarrow> CONTROL_PACKET_TYPE \<Rightarrow> ptr \<Rightarrow> ptr \<Rightarrow> 'z kmem_scheme \<Rightarrow> (int \<times> 'z kmem_scheme) option" where
  "send_request env h pkt packetBuffer trace_log m = do {
     (result, m) \<leftarrow>
       (if packetBuffer = None then Some (FAILURE, m)
        else do {
          m \<leftarrow> upd_client h (\<lambda>c. c\<lparr>packetState := pkt\<rparr>) m;
          (r, m) \<leftarrow> send_buffer env h packetBuffer m;
          result \<leftarrow> (if r \<noteq> 0 then Some FAILURE
                    else do { _ \<leftarrow> log_outgoing_trace (Some h) trace_log m; Some 0 });
          m \<leftarrow> BUFFER_delete packetBuffer m;
          Some (result, m) });
     m \<leftarrow> delete_trace trace_log m;
     Some (result, m) }"

definition mqtt_client_publish ::
  "'z env \<Rightarrow> ptr \<Rightarrow> ptr \<Rightarrow> 'z kmem_scheme \<Rightarrow> (int \<times> 'z kmem_scheme) option" where
  "mqtt_client_publish env handle msgHandle m =
     (if msgHandle = None then Some (FAILURE, m)
      else case handle of
        None \<Rightarrow> Some (FAILURE, m)
      | Some h \<Rightarrow> do {
          payload \<leftarrow> mqttmessage_getApplicationMsg msgHandle m;
          case payload of
            None \<Rightarrow> Some (FAILURE, m)
          | Some p \<Rightarrow> do {
              (trace_log, m) \<leftarrow> construct_trace_log_handle h m;
              qos \<leftarrow> mqttmessage_getQosType msgHandle m;
              isDuplicate \<leftarrow> mqttmessage_getIsDuplicateMsg msgHandle m;
              isRetained \<leftarrow> mqttmessage_getIsRetained msgHandle m;
              pktId \<leftarrow> mqttmessage_getPacketId msgHandle m;
              topic \<leftarrow> mqttmessage_getTopicName msgHandle m;
              (publishPacket, m) \<leftarrow>
                mqtt_codec_publish qos isDuplicate isRetained pktId topic (message p) (payload_length p) trace_log m;
              send_request env h PUBLISH_TYPE publishPacket trace_log m } })"

definition mqtt_client_subscribe ::
  "'z env \<Rightarrow> ptr \<Rightarrow> u16 \<Rightarrow> SUBSCRIBE_PAYLOAD list option \<Rightarrow> u32 \<Rightarrow> 'z kmem_scheme \<Rightarrow> (int \<times> 'z kmem_scheme) option" where
  "mqtt_client_subscribe env handle pktId subscribeList count m =
     (case handle of
        None \<Rightarrow> Some (FAILURE, m)
      | Some h \<Rightarrow>
          if subscribeList = None \<or> count = 0 \<or> pktId = 0 then Some (FAILURE, m)
          else do {
            (trace_log, m) \<leftarrow> construct_trace_log_handle h m;
            (subPacket, m) \<leftarrow> mqtt_codec_subscribe pktId subscribeList count trace_log m;
            send_request env h SUBSCRIBE_TYPE subPacket trace_log m })"

definition mqtt_client_unsubscribe ::
  "'z env \<Rightarrow> ptr \<Rightarrow> u16 \<Rightarrow> char_ptr option list option \<Rightarrow> u32 \<Rightarrow> 'z kmem_scheme \<Rightarrow> (int \<times> 'z kmem_scheme) option" where
  "mqtt_client_unsubscribe env handle pktId unsubscribeList count m =
     (case handle of
        None \<Rightarrow> Some (FAILURE, m)
      | Some h \<Rightarrow>
          if unsubscribeList = None \<or> count = 0 \<or> pktId = 0 then Some (FAILURE, m)
          else do {
            (trace_log, m) \<leftarrow> construct_trace_log_handle h m;
            (unsubPacket, m) \<leftarrow> mqtt_codec_unsubscribe pktId unsubscribeList count trace_log m;
            send_request env h UNSUBSCRIBE_TYPE unsubPacket trace_log m })"

section \<open>Keep alive\<close>

text \<open>The PINGREQ of \<open>mqtt_client_dowork\<close>.\<close>

definition send_ping :: "'z env \<Rightarrow> addr \<Rightarrow> 'z kmem_scheme \<Rightarrow> 'z kmem_scheme option" where
  "send_ping env h m = do {
     (pingPacket, m) \<leftarrow> mqtt_codec_ping m;
     if pingPacket \<noteq> None then do {
       (_, m) \<leftarrow> send_buffer env h pingPacket m;
       m \<leftarrow> BUFFER_delete pingPacket m;
       c \<leftarrow> clients m h;
       ((_, ms), m) \<leftarrow> tickcounter_get_current_ms env (packetTickCntr c) (Some (timeSincePing c)) m;
       now \<leftarrow> ms;
       m \<leftarrow> upd_client h (\<lambda>c. c\<lparr>timeSincePing := now\<rparr>) m;
       c \<leftarrow> clients m h;
       if logTrace c then do {
         (trace_log, m) \<leftarrow> STRING_construct (Some (Literal (lit ''PINGREQ''))) m;
         _ \<leftarrow> log_outgoing_trace (Some h) trace_log m;
         STRING_delete trace_log m }
       else Some m }
     else Some m }"

text \<open>The part of \<open>mqtt_client_dowork\<close> after \<open>xio_dowork\<close>, for a connected client.\<close>

definition keep_alive :: "'z env \<Rightarrow> addr \<Rightarrow> 'z kmem_scheme \<Rightarrow> 'z kmem_scheme option" where
  "keep_alive env h m = do {
     c \<leftarrow> clients m h;
     ((r, ms), m) \<leftarrow> tickcounter_get_current_ms env (packetTickCntr c) (Some 0) m;
     if r \<noteq> 0 then Some m
     else do {
       current_ms \<leftarrow> ms;
       c \<leftarrow> clients m h;
       if timeSincePing c > 0 \<and> (current_ms - timeSincePing c) div 1000 > ucast (maxPingRespTime c) then do {
         m \<leftarrow> set_error_callback env h MQTT_CLIENT_NO_PING_RESPONSE m;
         upd_client h (\<lambda>c. c\<lparr>timeSincePing := 0, packetSendTimeMs := 0, packetState := UNKNOWN_TYPE\<rparr>) m }
       else if (current_ms - packetSendTimeMs c) div 1000 \<ge> ucast (client_keepAlive c) then send_ping env h m
       else Some m } }"

definition mqtt_client_dowork :: "'z env \<Rightarrow> ptr \<Rightarrow> 'z kmem_scheme \<Rightarrow> 'z kmem_scheme option" where
  "mqtt_client_dowork env handle m =
     (case handle of
        None \<Rightarrow> Some m
      | Some h \<Rightarrow> do {
          c \<leftarrow> clients m h;
          if xioHandle c \<noteq> None then do {
            m \<leftarrow> xio_dowork env (xioHandle c) m;
            c \<leftarrow> clients m h;
            if socketConnected c \<and> clientConnected c \<and> client_keepAlive c > 0 then keep_alive env h m
            else Some m }
          else Some m })"

definition mqtt_client_set_trace :: "ptr \<Rightarrow> bool \<Rightarrow> bool \<Rightarrow> 'z kmem_scheme \<Rightarrow> 'z kmem_scheme option" where
  "mqtt_client_set_trace handle traceOn rawBytesOn m =
     (case handle of
        None \<Rightarrow> Some m
      | Some h \<Rightarrow> upd_client h (\<lambda>c. c\<lparr>logTrace := traceOn, rawBytesTrace := rawBytesOn\<rparr>) m)"

end
