(* ===== verification/Client_Spec.thy ===== *)
theory Client_Spec
  imports Client_Api Message_Rules Packet_Link
begin

text \<open>
  What the client promises, as a machine without a heap: its state is the struct and the
  world outside, and each operation is a function on them.  The world is a parameter: what
  the clock shows, what the io does and returns, and what the callbacks of the user do to it.
  \<open>env_of\<close> is the environment of the code that a world describes: callbacks that do not call
  the library back and do not touch its memory.
\<close>

section \<open>The world\<close>

datatype event =
    Connack bool u8
  | Puback MQTT_CLIENT_EVENT_RESULT u16
  | Suback u16 "u8 list"
  | Unsuback u16
  | Pingresp
  | Disconnected

text \<open>A function of the user is called with its number and its context.\<close>

record 'w world_ops =
  w_tick :: "'w \<Rightarrow> u32 \<times> 'w"
  w_delay :: "u32 \<Rightarrow> 'w \<Rightarrow> 'w"
  w_open :: "fptr \<times> ptr \<Rightarrow> fptr \<times> ptr \<Rightarrow> fptr \<times> ptr \<Rightarrow> 'w \<Rightarrow> int \<times> 'w"
  w_close :: "fptr \<times> ptr \<Rightarrow> 'w \<Rightarrow> int \<times> 'w"
  w_send :: "u8 list \<Rightarrow> fptr \<times> ptr \<Rightarrow> 'w \<Rightarrow> int \<times> 'w"
  w_work :: "'w \<Rightarrow> 'w"
  w_operation :: "nat \<Rightarrow> ptr \<Rightarrow> event \<Rightarrow> 'w \<Rightarrow> 'w"
  w_message :: "nat \<Rightarrow> ptr \<Rightarrow> message_content \<Rightarrow> 'w \<Rightarrow> 'w"
  w_error :: "nat \<Rightarrow> ptr \<Rightarrow> MQTT_CLIENT_EVENT_ERROR \<Rightarrow> 'w \<Rightarrow> 'w"
  w_disconnected :: "nat \<Rightarrow> ptr \<Rightarrow> 'w \<Rightarrow> 'w"

record 'w wmem = kmem +
  world :: 'w

text \<open>What the operation callback is told, with the return codes read from their array.\<close>

fun event_of :: "MQTT_CLIENT_EVENT_RESULT \<Rightarrow> msg_info \<Rightarrow> 'z mem_scheme \<Rightarrow> event option" where
  "event_of action No_info m =
     Some (if action = MQTT_CLIENT_ON_PING_RESPONSE then Pingresp else Disconnected)"
| "event_of action (Info_connack a) m = Some (Connack (isSessionPresent a) (returnCode a))"
| "event_of action (Info_puback a) m = Some (Puback action (puback_packetId a))"
| "event_of action (Info_suback a) m = do {
     p \<leftarrow> suback_qosReturn a;
     xs \<leftarrow> read_bytes (p, 0) (unat (qosCount a)) m;
     bs \<leftarrow> those xs;
     Some (Suback (suback_packetId a) bs) }"
| "event_of action (Info_unsuback a) m = Some (Unsuback (unsuback_packetId a))"

definition env_of :: "'w world_ops \<Rightarrow> 'w wmem client_env" where
  "env_of W =
     \<lparr>xTaskGetTickCount = (\<lambda>m. let (t, w) = w_tick W (world m) in (t, m\<lparr>world := w\<rparr>)),
      vTaskDelay = (\<lambda>n m. Some (m\<lparr>world := w_delay W n (world m)\<rparr>)),
      io_create = (\<lambda>_ _ m. Some (None, m)),
      io_destroy = (\<lambda>_ _ m. Some m),
      io_open = (\<lambda>_ _ f g e m. let (r, w) = w_open W f g e (world m) in Some (r, m\<lparr>world := w\<rparr>)),
      io_close = (\<lambda>_ _ f m. let (r, w) = w_close W f (world m) in Some (r, m\<lparr>world := w\<rparr>)),
      io_send = (\<lambda>_ _ q n f m. do {
        q \<leftarrow> q;
        xs \<leftarrow> read_bytes q (unat n) m;
        bs \<leftarrow> those xs;
        let (r, w) = w_send W bs f (world m);
        Some (r, m\<lparr>world := w\<rparr>) }),
      io_dowork = (\<lambda>_ _ m. Some (m\<lparr>world := w_work W (world m)\<rparr>)),
      on_operation = (\<lambda>f _ action info p m. do {
        e \<leftarrow> event_of action info m;
        Some (m\<lparr>world := w_operation W f p e (world m)\<rparr>) }),
      on_message = (\<lambda>f g p m. do {
        g \<leftarrow> g;
        v \<leftarrow> message_view m g;
        Some (m\<lparr>world := w_message W f p v (world m)\<rparr>) }),
      on_error = (\<lambda>f _ e p m. Some (m\<lparr>world := w_error W f p e (world m)\<rparr>)),
      on_disconnected = (\<lambda>f p m. Some (m\<lparr>world := w_disconnected W f p (world m)\<rparr>))\<rparr>"

section \<open>Closing and errors\<close>

definition spec_disconnected :: "'w world_ops \<Rightarrow> MQTT_CLIENT \<Rightarrow> 'w \<Rightarrow> 'w" where
  "spec_disconnected W c w =
     (case disconnect_cb c of None \<Rightarrow> w | Some f \<Rightarrow> w_disconnected W f (disconnect_ctx c) w)"

text \<open>The close is waited for one round, or two while the client counts as connected.\<close>

definition spec_wait :: "'w world_ops \<Rightarrow> MQTT_CLIENT \<Rightarrow> 'w \<Rightarrow> 'w" where
  "spec_wait W c w =
     (let round = \<lambda>w. w_delay W 2 (if xioHandle c = None then w else w_work W w)
      in if clientConnected c then round (round w) else round w)"

definition spec_close :: "'w world_ops \<Rightarrow> addr \<Rightarrow> MQTT_CLIENT \<Rightarrow> 'w \<Rightarrow> MQTT_CLIENT \<times> 'w" where
  "spec_close W h c w =
     (if socketConnected c
      then let w = (if xioHandle c = None then w else snd (w_close W (Some on_connection_closed_fn, Some h) w));
               w = (if disconnect_cb c = None then spec_wait W c w else w)
           in (c\<lparr>xioHandle := None\<rparr>, w)
      else (c, spec_disconnected W c w))"

definition spec_error ::
  "'w world_ops \<Rightarrow> addr \<Rightarrow> MQTT_CLIENT_EVENT_ERROR \<Rightarrow> MQTT_CLIENT \<Rightarrow> 'w \<Rightarrow> MQTT_CLIENT \<times> 'w" where
  "spec_error W h e c w =
     spec_close W h c (case fnOnErrorCallBack c of None \<Rightarrow> w | Some f \<Rightarrow> w_error W f (errorCBCtx c) e w)"

section \<open>Sending\<close>

text \<open>\<open>u\<close> is the tick count at which the client's tick counter was created.\<close>

definition spec_send ::
  "'w world_ops \<Rightarrow> addr \<Rightarrow> u32 \<Rightarrow> u8 list \<Rightarrow> MQTT_CLIENT \<Rightarrow> 'w \<Rightarrow> int \<times> MQTT_CLIENT \<times> 'w" where
  "spec_send W h u bs c w =
     (let (t, w) = w_tick W w;
          c = c\<lparr>packetSendTimeMs := ticks_to_ms (t - u)\<rparr>
      in if xioHandle c = None then (FAILURE, c, w)
         else let (r, w) = w_send W bs (Some sendComplete_fn, Some h) w
              in (if r \<noteq> 0 then FAILURE else 0, c, w))"

definition spec_operation :: "'w world_ops \<Rightarrow> event \<Rightarrow> MQTT_CLIENT \<Rightarrow> 'w \<Rightarrow> 'w" where
  "spec_operation W e c w =
     (case fnOperationCallback c of None \<Rightarrow> w | Some f \<Rightarrow> w_operation W f (op_ctx c) e w)"

section \<open>Received packets\<close>

fun read16 :: "u8 list \<Rightarrow> u16" where
  "read16 (hi # lo # _) = 256 * ucast hi + ucast lo"
| "read16 _ = 0"

text \<open>A PUBLISH packet as the client reads it; \<open>Overrun\<close> is a topic longer than the packet.\<close>

datatype publish_packet = No_topic | Overrun | Publish cstring u16 "u8 list"

definition parse_publish :: "int \<Rightarrow> u8 list \<Rightarrow> publish_packet" where
  "parse_publish flags body =
     (let n = unat (read16 body); rest = drop 2 body
      in if n = 0 then No_topic
         else if length rest < n then Overrun
         else let topic = take n rest; rest = drop n rest
              in if publish_qos flags = DELIVER_AT_MOST_ONCE \<or> length rest < 2 then Publish topic 0 rest
                 else Publish topic (read16 rest) (drop 2 rest))"

definition received_message :: "int \<Rightarrow> cstring \<Rightarrow> u16 \<Rightarrow> u8 list \<Rightarrow> message_content" where
  "received_message flags topic pid payload =
     \<lparr>v_id = pid, v_topic = takeWhile (\<lambda>b. b \<noteq> 0) topic, v_qos = publish_qos flags,
      v_payload = map Some payload, v_dup = (flags AND DUPLICATE_FLAG_MASK \<noteq> 0),
      v_retained = (flags AND RETAIN_FLAG_MASK \<noteq> 0)\<rparr>"

definition spec_publish ::
  "'w world_ops \<Rightarrow> addr \<Rightarrow> u32 \<Rightarrow> int \<Rightarrow> u8 list \<Rightarrow> MQTT_CLIENT \<Rightarrow> 'w \<Rightarrow> (MQTT_CLIENT \<times> 'w) option" where
  "spec_publish W h u flags body c w =
     (case fnMessageRecv c of
        None \<Rightarrow> Some (c, w)
      | Some f \<Rightarrow>
          (case parse_publish flags body of
             No_topic \<Rightarrow> Some (spec_error W h MQTT_CLIENT_PARSE_ERROR c w)
           | Overrun \<Rightarrow> None
           | Publish topic pid payload \<Rightarrow>
               (let w = w_message W f (op_ctx c) (received_message flags topic pid payload) w;
                    q = publish_qos flags
                in Some (if q = DELIVER_EXACTLY_ONCE
                         then snd (spec_send W h u (packet PUBREC_TYPE 0 (be16 pid)) c w)
                         else if q = DELIVER_AT_LEAST_ONCE
                         then snd (spec_send W h u (packet PUBACK_TYPE 0 (be16 pid)) c w)
                         else (c, w)))))"

definition spec_puback ::
  "'w world_ops \<Rightarrow> addr \<Rightarrow> u32 \<Rightarrow> CONTROL_PACKET_TYPE \<Rightarrow> u16 \<Rightarrow> MQTT_CLIENT \<Rightarrow> 'w \<Rightarrow> MQTT_CLIENT \<times> 'w" where
  "spec_puback W h u type pid c w =
     (if fnOperationCallback c = None then (c, w)
      else let w = spec_operation W (Puback (puback_action type) pid) c w
           in if type = PUBREC_TYPE then snd (spec_send W h u (packet PUBREL_TYPE 2 (be16 pid)) c w)
              else if type = PUBREL_TYPE then snd (spec_send W h u (packet PUBCOMP_TYPE 0 (be16 pid)) c w)
              else (c, w))"

text \<open>A packet with a body; \<open>None\<close> where the code reads beyond it.\<close>

definition spec_packet ::
  "'w world_ops \<Rightarrow> addr \<Rightarrow> u32 \<Rightarrow> CONTROL_PACKET_TYPE \<Rightarrow> int \<Rightarrow> u8 list \<Rightarrow> MQTT_CLIENT \<Rightarrow> 'w \<Rightarrow>
   (MQTT_CLIENT \<times> 'w) option" where
  "spec_packet W h u type flags body c w =
     (if type = PUBLISH_TYPE then spec_publish W h u flags body c w
      else if fnOperationCallback c = None then Some (c, w)
      else if type = CONNACK_TYPE then
        (case body of
           b # code # _ \<Rightarrow>
             Some (if code = CONNECTION_ACCEPTED then c\<lparr>clientConnected := True\<rparr> else c,
                   spec_operation W (Connack (b = 1) code) c w)
         | _ \<Rightarrow> None)
      else if type \<in> {PUBACK_TYPE, PUBREC_TYPE, PUBREL_TYPE, PUBCOMP_TYPE} then
        Some (spec_puback W h u type (read16 body) c w)
      else if type = SUBACK_TYPE then
        (if length body < 2 then None else Some (c, spec_operation W (Suback (read16 body) (drop 2 body)) c w))
      else if type = UNSUBACK_TYPE then Some (c, spec_operation W (Unsuback (read16 body)) c w)
      else Some (c, w))"

text \<open>
  A delivery of the decoder.  A PINGRESP may be delivered with a body that was not filled,
  which is read only when the raw bytes are traced.
\<close>

definition body_of :: "mbyte list option \<Rightarrow> u8 list option" where
  "body_of data = (case data of None \<Rightarrow> Some [] | Some xs \<Rightarrow> those xs)"

fun spec_delivery ::
  "'w world_ops \<Rightarrow> addr \<Rightarrow> u32 \<Rightarrow> delivery \<Rightarrow> MQTT_CLIENT \<times> 'w \<Rightarrow> (MQTT_CLIENT \<times> 'w) option" where
  "spec_delivery W h u (Delivery type flags data) (c, w) =
     (if type = PINGRESP_TYPE then
        (if rawBytesTrace c \<and> body_of data = None then None
         else Some (c\<lparr>timeSincePing := 0\<rparr>, spec_operation W Pingresp c w))
      else do {
        body \<leftarrow> body_of data;
        if body = [] then Some (c, w) else spec_packet W h u type flags body c w })"

fun spec_deliveries ::
  "'w world_ops \<Rightarrow> addr \<Rightarrow> u32 \<Rightarrow> delivery list \<Rightarrow> MQTT_CLIENT \<times> 'w \<Rightarrow> (MQTT_CLIENT \<times> 'w) option" where
  "spec_deliveries W h u [] s = Some s"
| "spec_deliveries W h u (e # es) s = do { s \<leftarrow> spec_delivery W h u e s; spec_deliveries W h u es s }"

section \<open>Keep alive\<close>

definition spec_ping ::
  "'w world_ops \<Rightarrow> addr \<Rightarrow> u32 \<Rightarrow> MQTT_CLIENT \<Rightarrow> 'w \<Rightarrow> MQTT_CLIENT \<times> 'w" where
  "spec_ping W h u c w =
     (let (_, c, w) = spec_send W h u [PINGREQ_TYPE, 0] c w;
          (t, w) = w_tick W w
      in (c\<lparr>timeSincePing := ticks_to_ms (t - u)\<rparr>, w))"

definition spec_keep_alive ::
  "'w world_ops \<Rightarrow> addr \<Rightarrow> u32 \<Rightarrow> MQTT_CLIENT \<Rightarrow> 'w \<Rightarrow> MQTT_CLIENT \<times> 'w" where
  "spec_keep_alive W h u c w =
     (let (t, w) = w_tick W w; now = ticks_to_ms (t - u)
      in if timeSincePing c > 0 \<and> (now - timeSincePing c) div 1000 > ucast (maxPingRespTime c)
         then let (c, w) = spec_error W h MQTT_CLIENT_NO_PING_RESPONSE c w
              in (c\<lparr>timeSincePing := 0, packetSendTimeMs := 0, packetState := UNKNOWN_TYPE\<rparr>, w)
         else if (now - packetSendTimeMs c) div 1000 \<ge> ucast (client_keepAlive c) then spec_ping W h u c w
         else (c, w))"

definition spec_dowork ::
  "'w world_ops \<Rightarrow> addr \<Rightarrow> u32 \<Rightarrow> MQTT_CLIENT \<Rightarrow> 'w \<Rightarrow> MQTT_CLIENT \<times> 'w" where
  "spec_dowork W h u c w =
     (if xioHandle c = None then (c, w)
      else let w = w_work W w
           in if socketConnected c \<and> clientConnected c \<and> client_keepAlive c > 0
              then spec_keep_alive W h u c w else (c, w))"

section \<open>Requests\<close>

text \<open>The packet \<open>bs\<close> of a request of the user is sent.\<close>

definition spec_request ::
  "'w world_ops \<Rightarrow> addr \<Rightarrow> u32 \<Rightarrow> CONTROL_PACKET_TYPE \<Rightarrow> u8 list \<Rightarrow> MQTT_CLIENT \<Rightarrow> 'w \<Rightarrow> int \<times> MQTT_CLIENT \<times> 'w" where
  "spec_request W h u type bs c w = spec_send W h u bs (c\<lparr>packetState := type\<rparr>) w"

definition spec_send_complete ::
  "'w world_ops \<Rightarrow> addr \<Rightarrow> IO_SEND_RESULT \<Rightarrow> MQTT_CLIENT \<Rightarrow> 'w \<Rightarrow> MQTT_CLIENT \<times> 'w" where
  "spec_send_complete W h r c w =
     (case r of
        IO_SEND_OK \<Rightarrow>
          if packetState c = DISCONNECT_TYPE then spec_close W h c (spec_operation W Disconnected c w) else (c, w)
      | IO_SEND_ERROR \<Rightarrow> spec_error W h MQTT_CLIENT_COMMUNICATION_ERROR c w
      | IO_SEND_CANCELLED \<Rightarrow> (c, w))"

end
