(* ===== verification/Client_Rules.thy ===== *)
theory Client_Rules
  imports Client_Spec
begin

text \<open>
  The code of the client implements the machine of \<^verbatim>\<open>Client_Spec\<close>: one lemma for each
  operation.  What only calls the environment is an equation of memories (\<open>put\<close>); what
  builds packets or messages has an effect that leaves the heap as it was (\<open>client_effect\<close>).
\<close>

section \<open>Stores above the heap\<close>

lemma heap_views_cong:
  fixes m m' :: "'z smem_scheme"
  assumes "brk m' = brk m" "blocks m' = blocks m" "chars m' = chars m" "buffers m' = buffers m" "strs m' = strs m"
  shows "heap_inv m' = heap_inv m" "buf_bytes m' = buf_bytes m" "foreign m' = foreign m"
    "str_vals m' = str_vals m" "str_rest m' = str_rest m" "buf_at m' = buf_at m"
proof -
  show B: "buf_bytes m' = buf_bytes m" by (rule ext, rule buf_bytes_cong) (simp_all add: assms)
  show "heap_inv m' = heap_inv m" using assms B by (simp add: heap_inv_def buf_inv_def str_inv_def wf_mem_def)
  show "foreign m' = foreign m" "str_vals m' = str_vals m" "str_rest m' = str_rest m" "buf_at m' = buf_at m"
    by (rule ext, simp only: foreign_def owned_def assms)
      (simp only: str_vals_def assms, simp only: str_rest_def assms, intro ext, simp only: buf_at_def assms)
qed

lemma heap_views_messages [simp]:
  fixes m :: "'z gmem_scheme"
  shows "heap_inv (m\<lparr>messages := x\<rparr>) = heap_inv m" "buf_bytes (m\<lparr>messages := x\<rparr>) = buf_bytes m"
    "foreign (m\<lparr>messages := x\<rparr>) = foreign m" "str_vals (m\<lparr>messages := x\<rparr>) = str_vals m"
    "str_rest (m\<lparr>messages := x\<rparr>) = str_rest m" "buf_at (m\<lparr>messages := x\<rparr>) = buf_at m"
  by (rule heap_views_cong; simp)+

lemma heap_views_clients [simp]:
  fixes m :: "'z kmem_scheme"
  shows "heap_inv (m\<lparr>clients := x\<rparr>) = heap_inv m" "buf_bytes (m\<lparr>clients := x\<rparr>) = buf_bytes m"
    "foreign (m\<lparr>clients := x\<rparr>) = foreign m" "str_vals (m\<lparr>clients := x\<rparr>) = str_vals m"
    "str_rest (m\<lparr>clients := x\<rparr>) = str_rest m" "buf_at (m\<lparr>clients := x\<rparr>) = buf_at m"
  by (rule heap_views_cong; simp)+

lemma heap_views_ticks [simp]:
  fixes m :: "'z tmem_scheme"
  shows "heap_inv (m\<lparr>tick_counters := x\<rparr>) = heap_inv m" "buf_bytes (m\<lparr>tick_counters := x\<rparr>) = buf_bytes m"
    "foreign (m\<lparr>tick_counters := x\<rparr>) = foreign m" "str_vals (m\<lparr>tick_counters := x\<rparr>) = str_vals m"
    "str_rest (m\<lparr>tick_counters := x\<rparr>) = str_rest m" "buf_at (m\<lparr>tick_counters := x\<rparr>) = buf_at m"
  by (rule heap_views_cong; simp)+

lemma heap_views_world [simp]:
  fixes m :: "('w, 'z) wmem_scheme"
  shows "heap_inv (m\<lparr>world := x\<rparr>) = heap_inv m" "buf_bytes (m\<lparr>world := x\<rparr>) = buf_bytes m"
    "foreign (m\<lparr>world := x\<rparr>) = foreign m" "str_vals (m\<lparr>world := x\<rparr>) = str_vals m"
    "str_rest (m\<lparr>world := x\<rparr>) = str_rest m" "buf_at (m\<lparr>world := x\<rparr>) = buf_at m"
  by (rule heap_views_cong; simp)+

lemma smem_more_client:
  fixes m m' :: "'w wmem"
  shows "smem.more m' = smem.more m \<Longrightarrow> codecs m' = codecs m \<and> messages m' = messages m \<and>
    tick_counters m' = tick_counters m \<and> xios m' = xios m \<and> clients m' = clients m \<and> world m' = world m"
  by (cases m, cases m') simp

lemma read_bytes_above [simp]:
  "read_bytes q n (m\<lparr>messages := x1\<rparr>) = read_bytes q n m" "read_bytes q n (m'\<lparr>clients := x2\<rparr>) = read_bytes q n m'"
  "read_bytes q n (m''\<lparr>world := x3\<rparr>) = read_bytes q n m''"
  by (simp_all add: read_bytes_def)

lemma those_Some [simp]: "those (map Some xs) = Some xs"
  by (induction xs) simp_all

lemma those_SomeD: "those xs = Some ys \<Longrightarrow> xs = map Some ys"
  by (induction xs arbitrary: ys) (auto split: option.splits)

section \<open>A client and its world\<close>

definition io_complete :: "IO_INTERFACE_DESCRIPTION \<Rightarrow> bool" where
  "io_complete d \<longleftrightarrow> concrete_io_open d \<noteq> None \<and> concrete_io_close d \<noteq> None \<and>
     concrete_io_send d \<noteq> None \<and> concrete_io_dowork d \<noteq> None"

text \<open>
  The client \<open>h\<close> is \<open>c\<close>, its tick counter was created at the tick \<open>u\<close>, its io is live, and it
  does not trace.
\<close>

definition attached :: "'w wmem \<Rightarrow> addr \<Rightarrow> u32 \<Rightarrow> MQTT_CLIENT \<Rightarrow> bool" where
  "attached m h u c \<longleftrightarrow> clients m h = Some c \<and> \<not> logTrace c \<and>
     (\<exists>t. packetTickCntr c = Some t \<and> tick_counters m t = Some \<lparr>original_tick_count = u\<rparr>) \<and>
     (\<forall>x. xioHandle c = Some x \<longrightarrow> (\<exists>i. xios m x = Some i \<and> io_complete (io_interface_description i)))"

definition put :: "addr \<Rightarrow> MQTT_CLIENT \<times> 'w \<Rightarrow> 'w wmem \<Rightarrow> 'w wmem" where
  "put h s m = m\<lparr>clients := (clients m)(h \<mapsto> fst s), world := snd s\<rparr>"

text \<open>What the operations keep of a client.\<close>

definition kept :: "MQTT_CLIENT \<Rightarrow> MQTT_CLIENT \<Rightarrow> bool" where
  "kept c c' \<longleftrightarrow> packetTickCntr c' = packetTickCntr c \<and> logTrace c' = logTrace c \<and>
     codec_handle c' = codec_handle c \<and> mqttOptions c' = mqttOptions c \<and> (xioHandle c' = xioHandle c \<or> xioHandle c' = None)"

lemma kept_refl [simp]: "kept c c"
  by (simp add: kept_def)

lemma kept_trans: "kept c1 c2 \<Longrightarrow> kept c2 c3 \<Longrightarrow> kept c1 c3"
  by (auto simp: kept_def)

lemma put_simps [simp]:
  "clients (put h s m) = (clients m)(h \<mapsto> fst s)" "world (put h s m) = snd s"
  "grants (put h s m) = grants m" "brk (put h s m) = brk m" "blocks (put h s m) = blocks m" "chars (put h s m) = chars m"
  "buffers (put h s m) = buffers m" "strs (put h s m) = strs m" "codecs (put h s m) = codecs m"
  "messages (put h s m) = messages m" "tick_counters (put h s m) = tick_counters m" "xios (put h s m) = xios m"
  "put h s' (put h s m) = put h s' m"
  by (simp_all add: put_def)

lemma put_views [simp]:
  "heap_inv (put h s m) = heap_inv m" "buf_bytes (put h s m) = buf_bytes m" "foreign (put h s m) = foreign m"
  "str_vals (put h s m) = str_vals m" "str_rest (put h s m) = str_rest m" "buf_at (put h s m) = buf_at m"
  by (rule heap_views_cong; simp)+

lemma put_same: "clients m h = Some c \<Longrightarrow> put h (c, world m) m = m"
  by (simp add: put_def fun_upd_idem)

lemma attached_put: "attached m h u c \<Longrightarrow> kept c (fst s) \<Longrightarrow> attached (put h s m) h u (fst s)"
  by (auto simp: attached_def kept_def)

lemma upd_client_put: "clients m h = Some c \<Longrightarrow> upd_client h f m = Some (put h (f c, world m) m)"
  by (simp add: upd_client_def put_def)

lemma attached_client: "attached m h u c \<Longrightarrow> clients m h = Some c"
  by (simp add: attached_def)

section \<open>Closing and errors\<close>

lemma env_of_simps [simp]:
  "vTaskDelay (env_of W) n m = Some (m\<lparr>world := w_delay W n (world m)\<rparr>)"
  "io_dowork (env_of W) f p m = Some (m\<lparr>world := w_work W (world m)\<rparr>)"
  "on_error (env_of W) f' p' e x m = Some (m\<lparr>world := w_error W f' x e (world m)\<rparr>)"
  "on_disconnected (env_of W) f' x m = Some (m\<lparr>world := w_disconnected W f' x (world m)\<rparr>)"
  "xTaskGetTickCount (env_of W) m = (fst (w_tick W (world m)), m\<lparr>world := snd (w_tick W (world m))\<rparr>)"
  "io_close (env_of W) f p k m = Some (fst (w_close W k (world m)), m\<lparr>world := snd (w_close W k (world m))\<rparr>)"
  "io_open (env_of W) f p k1 k2 k3 m =
     Some (fst (w_open W k1 k2 k3 (world m)), m\<lparr>world := snd (w_open W k1 k2 k3 (world m))\<rparr>)"
  by (simp_all add: env_of_def split_def Let_def)

lemma put_world: "clients m h = Some c \<Longrightarrow> m\<lparr>world := w\<rparr> = put h (c, w) m"
  by (simp add: put_def fun_upd_idem)

lemma call_disconnect_cb_eq:
  assumes "clients m h = Some c"
  shows "call_disconnect_cb (env_of W) h m = Some (put h (c, spec_disconnected W c (world m)) m)"
  using assms put_same [OF assms]
  by (simp add: call_disconnect_cb_def spec_disconnected_def put_world split: option.splits)

lemma xio_dowork_eq:
  assumes "attached m h u c"
  shows "xio_dowork (env_of W) (xioHandle c) m =
    Some (put h (c, if xioHandle c = None then world m else w_work W (world m)) m)"
proof (cases "xioHandle c")
  case None
  then show ?thesis using attached_client [OF assms] by (simp add: xio_dowork_def put_same)
next
  case (Some x)
  then obtain i f where "xios m x = Some i" "concrete_io_dowork (io_interface_description i) = Some f"
    using assms by (auto simp: attached_def io_complete_def)
  then show ?thesis using Some attached_client [OF assms] by (simp add: xio_dowork_def put_world)
qed

lemma xio_close_eq:
  assumes "attached m h u c"
  shows "\<exists>r. xio_close (env_of W) (xioHandle c) k m =
    Some (r, put h (c, if xioHandle c = None then world m else snd (w_close W k (world m))) m)"
proof (cases "xioHandle c")
  case None
  then show ?thesis using attached_client [OF assms] by (simp add: xio_close_def put_same)
next
  case (Some x)
  then obtain i f where "xios m x = Some i" "concrete_io_close (io_interface_description i) = Some f"
    using assms by (auto simp: attached_def io_complete_def)
  then show ?thesis using Some attached_client [OF assms] by (simp add: xio_close_def put_world)
qed

text \<open>A round of the wait loop.\<close>

definition wait_round :: "'w world_ops \<Rightarrow> MQTT_CLIENT \<Rightarrow> 'w \<Rightarrow> 'w" where
  "wait_round W c w = w_delay W 2 (if xioHandle c = None then w else w_work W w)"

lemma close_round:
  assumes "attached m h u c"
  shows "close_loop (Suc k) (env_of W) h m =
    (let m' = put h (c, wait_round W c (world m)) m
     in if clientConnected c \<and> k > 0 then close_loop k (env_of W) h m' else Some m')"
  using attached_client [OF assms] xio_dowork_eq [OF assms, of W]
  by (simp add: ThreadAPI_Sleep_def CONFIG_FREERTOS_HZ_def wait_round_def Let_def put_def)

lemma close_loop_eq:
  assumes "attached m h u c"
  shows "close_loop MAX_CLOSE_RETRIES (env_of W) h m = Some (put h (c, spec_wait W c (world m)) m)"
proof -
  have a: "attached (put h (c, w) m) h u c" for w using attached_put [OF assms, of "(c, w)"] by simp
  show ?thesis
    using close_round [OF assms, of 1 W] close_round [OF a, of 0 W]
    by (simp add: MAX_CLOSE_RETRIES_def numeral_2_eq_2 spec_wait_def wait_round_def Let_def)
qed

lemma close_connection_eq:
  assumes "attached m h u c"
  shows "close_connection (env_of W) h m = Some (put h (spec_close W h c (world m)) m)"
proof -
  note c = attached_client [OF assms]
  obtain r where close: "xio_close (env_of W) (xioHandle c) (Some on_connection_closed_fn, Some h) m =
      Some (r, put h (c, if xioHandle c = None then world m
        else snd (w_close W (Some on_connection_closed_fn, Some h) (world m))) m)"
    using xio_close_eq [OF assms] by blast
  have a: "attached (put h (c, w) m) h u c" for w using attached_put [OF assms, of "(c, w)"] by simp
  show ?thesis
    using c close close_loop_eq [OF a]
    by (simp add: close_connection_def spec_close_def Let_def call_disconnect_cb_eq upd_client_put)
qed

lemma set_error_callback_eq:
  assumes "attached m h u c"
  shows "set_error_callback (env_of W) h e m = Some (put h (spec_error W h e c (world m)) m)"
proof -
  have a: "attached (put h (c, w) m) h u c" for w using attached_put [OF assms, of "(c, w)"] by simp
  show ?thesis
    using attached_client [OF assms] close_connection_eq [OF a, of W] close_connection_eq [OF assms, of W]
    by (simp add: set_error_callback_def spec_error_def put_world split: option.splits)
qed

lemma spec_close_kept [simp]: "kept c (fst (spec_close W h c w))"
  by (simp add: spec_close_def kept_def Let_def)

lemma spec_error_kept [simp]: "kept c (fst (spec_error W h e c w))"
  by (simp add: spec_error_def)

section \<open>Sending\<close>

lemma tick_eq:
  assumes "attached m h u c"
  shows "tickcounter_get_current_ms (env_of W) (packetTickCntr c) (Some v) m =
    Some ((0, Some (ticks_to_ms (fst (w_tick W (world m)) - u))), put h (c, snd (w_tick W (world m))) m)"
  using assms by (auto simp: tickcounter_get_current_ms_def attached_def put_world)

lemma read_bytes_put [simp]: "read_bytes q n (put h s m) = read_bytes q n m"
  by (simp add: read_bytes_def)

lemma print_bytes_ok:
  "read_bytes (a, i) n m = Some (map Some bs) \<Longrightarrow> length bs = n \<Longrightarrow> print_bytes (a, i) n m = Some ()"
proof (induction n arbitrary: i bs)
  case (Suc n)
  then obtain b bs' where bs: "bs = b # bs'" by (cases bs) auto
  obtain xs where xs: "blocks m a = Some xs" "i + Suc n \<le> length xs" "take (Suc n) (drop i xs) = Some b # map Some bs'"
    using Suc.prems bs by (auto simp: read_bytes_def split: option.splits if_splits)
  have d: "drop i xs = xs ! i # drop (Suc i) xs" using xs(2) by (simp add: Cons_nth_drop_Suc)
  have "read_bytes (a, Suc i) n m = Some (map Some bs')" "read_byte (a, i) m = Some b"
    using xs d by (simp_all add: read_byte_def)
  then show ?case using Suc.IH [of "Suc i" bs'] Suc.prems bs by simp
qed simp

lemma sendPacketItem_eq:
  fixes m :: "'w wmem"
  assumes A: "attached m h u c" and rd: "read_bytes (a, i) (unat n) m = Some (map Some bs)"
  shows "sendPacketItem (env_of W) h (Some (a, i)) n m =
    (let (r, s) = spec_send W h u bs c (world m) in Some (r, put h s m))"
proof -
  note c = attached_client [OF A]
  let ?w = "snd (w_tick W (world m))" and ?c = "c\<lparr>packetSendTimeMs := ticks_to_ms (fst (w_tick W (world m)) - u)\<rparr>"
  have len: "length bs = unat n" using read_bytes_len [OF rd] by simp
  have log: "logOutgoingRawTrace (Some h) (Some (a, i)) n (put h (?c, w) m) = Some ()" for w :: 'w
    using print_bytes_ok [of a i "unat n" "put h (?c, w) m" bs] rd len by (simp add: logOutgoingRawTrace_def)
  then show ?thesis
  proof (cases "xioHandle c")
    case None
    then show ?thesis
      using c by (simp add: sendPacketItem_def tick_eq [OF A] upd_client_put spec_send_def xio_send_def split_def Let_def)
  next
    case (Some x)
    then obtain d f where x: "xios m x = Some d" "concrete_io_send (io_interface_description d) = Some f"
      using A by (auto simp: attached_def io_complete_def)
    have send: "xio_send (env_of W) (Some x) (Some (a, i)) n k (put h (?c, ?w) m) =
        Some (fst (w_send W bs k ?w), put h (?c, snd (w_send W bs k ?w)) m)" for k
      using x rd by (simp add: xio_send_def env_of_def split_def Let_def put_def)
    show ?thesis
      using c Some send log
      by (simp add: sendPacketItem_def tick_eq [OF A] upd_client_put spec_send_def split_def Let_def)
  qed
qed

lemma spec_send_kept [simp]: "kept c (fst (snd (spec_send W h u bs c w)))"
  by (simp add: spec_send_def kept_def split_def Let_def)

lemma send_buffer_eq:
  assumes A: "attached m h u c" and B: "buf_bytes m p = Some (map Some bs)" and ne: "bs \<noteq> []"
  shows "send_buffer (env_of W) h (Some p) m =
    (let (r, s) = spec_send W h u bs c (world m) in Some (r, put h s m))"
proof -
  have "ok (BUFFER_u_char (Some p) m) (\<lambda>q. \<exists>a. q = Some a \<and> buf_at m p a)"
    using BUFFER_u_char_spec [OF B] ne by simp
  then obtain a where a: "BUFFER_u_char (Some p) m = Some (Some a)" "buf_at m p a" by (auto simp: ok_iff)
  have l: "length bs < 2 ^ 32" using buf_bytes_bound [OF B] by simp
  have "read_bytes (a, 0) (unat (of_nat (length bs) :: u32)) m = Some (map Some bs)"
    using read_buf [OF B a(2), of 0 "length bs"] l by simp
  then show ?thesis
    using sendPacketItem_eq [OF A] a BUFFER_length_spec [OF B] by (simp add: send_buffer_def)
qed

end
