(* ===== verification/Client_Effects.thy ===== *)
theory Client_Effects
  imports Client_Rules
begin

text \<open>
  The operations of the client that build packets: what they leave in memory is what they
  found, but for the client, the world and the addresses given out.
\<close>

section \<open>Effects\<close>

text \<open>\<open>B\<close> are the contents of the buffers after the step.\<close>

definition client_step ::
  "'w wmem \<Rightarrow> (addr \<rightharpoonup> mbyte list) \<Rightarrow> addr \<Rightarrow> MQTT_CLIENT \<times> 'w \<Rightarrow> 'w wmem \<Rightarrow> bool" where
  "client_step m B h s m' \<longleftrightarrow> heap_inv m' \<and> grants m' = grants m \<and> brk m \<le> brk m' \<and> foreign m' = foreign m \<and>
     str_rest m' = str_rest m \<and> buf_bytes m' = B \<and> str_vals m' = str_vals m \<and> codecs m' = codecs m \<and>
     messages m' = messages m \<and> tick_counters m' = tick_counters m \<and> xios m' = xios m \<and>
     clients m' = (clients m)(h \<mapsto> fst s) \<and> world m' = snd s"

abbreviation client_effect :: "'w wmem \<Rightarrow> addr \<Rightarrow> MQTT_CLIENT \<times> 'w \<Rightarrow> 'w wmem \<Rightarrow> bool" where
  "client_effect m \<equiv> client_step m (buf_bytes m)"

lemma client_step_put: "heap_inv m \<Longrightarrow> client_effect m h s (put h s m)"
  by (simp add: client_step_def)

lemma client_step_trans: "client_step m B h s m1 \<Longrightarrow> client_step m1 B' h s' m2 \<Longrightarrow> client_step m B' h s' m2"
  by (auto simp: client_step_def)

lemma client_step_put_left: "client_step m B h s m1 \<Longrightarrow> client_step m B h s' (put h s' m1)"
  by (auto simp: client_step_def)

lemma client_stepD:
  assumes "client_step m B h s m'"
  shows "heap_inv m'" "buf_bytes m' = B" "clients m' h = Some (fst s)" "world m' = snd s" "codecs m' = codecs m"
    "alloc_total m' \<longleftrightarrow> alloc_total m"
  using assms by (simp_all add: client_step_def alloc_total_def)

lemma attached_step:
  "attached m h u c \<Longrightarrow> client_step m B h s m' \<Longrightarrow> kept c (fst s) \<Longrightarrow> attached m' h u (fst s)"
  by (auto simp: attached_def kept_def client_step_def)

lemma heap_effect_step:
  assumes "heap_effect m B (str_vals m) m'" "clients m h = Some c"
  shows "client_step m B h (c, world m) m'"
  using assms smem_more_client [of m' m]
  by (auto simp: heap_effect_def heap_frame_def client_step_def fun_upd_idem)

lemma enc_effect_step:
  assumes "enc_effect None m B m'" "clients m h = Some c"
  shows "client_step m B h (c, world m) m'"
  using assms by (intro heap_effect_step) (simp_all add: enc_effect_def heap_effect_def)

section \<open>A packet that is sent and deleted\<close>

lemma delete_step:
  assumes "heap_inv m" "buf_bytes m p = Some xs" "clients m h = Some c"
  shows "ok (BUFFER_delete (Some p) m) (client_step m ((buf_bytes m)(p := None)) h (c, world m))"
proof -
  have "ok (BUFFER_delete (Some p) m) (buf_effect m ((buf_bytes m)(p := None)))"
    using BUFFER_delete_spec [of m p xs] assms by (simp add: heap_inv_def)
  then show ?thesis
    by (rule ok_mono) (auto intro: heap_effect_step buf_effect_heap assms)
qed

lemma send_delete:
  fixes m :: "'w wmem"
  assumes A: "attached m h u c" and inv: "heap_inv m" and B: "buf_bytes m p = Some (map Some bs)" and ne: "bs \<noteq> []"
  shows "\<exists>m1. send_buffer (env_of W) h (Some p) m = Some (fst (spec_send W h u bs c (world m)), m1) \<and>
    ok (BUFFER_delete (Some p) m1)
      (client_step m ((buf_bytes m)(p := None)) h (snd (spec_send W h u bs c (world m))))"
proof (intro exI conjI)
  let ?s = "snd (spec_send W h u bs c (world m))"
  show "send_buffer (env_of W) h (Some p) m = Some (fst (spec_send W h u bs c (world m)), put h ?s m)"
    using send_buffer_eq [OF A B ne, of W] by (simp add: split_def Let_def)
  show "ok (BUFFER_delete (Some p) (put h ?s m)) (client_step m ((buf_bytes m)(p := None)) h ?s)"
    by (rule ok_mono [OF delete_step [of _ p "map Some bs" h "fst ?s"]])
      (use inv B client_step_put [OF inv, of h ?s] in \<open>auto intro: client_step_trans\<close>)
qed

text \<open>A builder of a packet that cannot be refused, with memory for it.\<close>

lemma build_total:
  assumes "ok (build m) (built None m bs True)" "alloc_total m" "clients m h = Some c"
  shows "ok (build m) (\<lambda>(r, m'). \<exists>p. r = Some p \<and> buf_bytes m p = None \<and>
    client_step m ((buf_bytes m)(p \<mapsto> map Some bs)) h (c, world m) m')"
  by (rule ok_mono2 [OF assms(1)]) (use assms(2,3) in \<open>auto simp: built_def intro: enc_effect_step\<close>)

lemma reply_spec:
  assumes A: "attached m h u c" and tot: "alloc_total m" and B: "ok (build m) (built None m bs True)" and ne: "bs \<noteq> []"
  shows "ok (build m \<bind> (\<lambda>(p, m). check_packet (env_of W) h p m \<bind> (\<lambda>m. Some (p, m))) \<bind>
      (\<lambda>(p, m). send_reply (env_of W) h p m))
    (client_effect m h (snd (spec_send W h u bs c (world m))))"
proof -
  have "ok (check_packet (env_of W) h r m' \<bind> (\<lambda>m. Some (r, m)) \<bind> (\<lambda>(p, m). send_reply (env_of W) h p m))
      (client_effect m h (snd (spec_send W h u bs c (world m))))"
    if r: "\<exists>p. r = Some p \<and> buf_bytes m p = None \<and>
      client_step m ((buf_bytes m)(p \<mapsto> map Some bs)) h (c, world m) m'" for r m'
  proof -
    obtain p where p: "r = Some p" "buf_bytes m p = None"
      and S: "client_step m ((buf_bytes m)(p \<mapsto> map Some bs)) h (c, world m) m'" using r by blast
    note D = client_stepD [OF S]
    have A': "attached m' h u c" using attached_step [OF A S] by simp
    have same: "(buf_bytes m')(p := None) = buf_bytes m" using D(2) p(2) by (simp add: fun_eq_iff)
    obtain m1 where m1: "send_buffer (env_of W) h (Some p) m' = Some (fst (spec_send W h u bs c (world m)), m1)"
      and del: "ok (BUFFER_delete (Some p) m1) (client_step m' (buf_bytes m) h (snd (spec_send W h u bs c (world m))))"
      using send_delete [OF A' D(1) _ ne, of p W] D(2,4) same by auto
    have "ok (BUFFER_delete (Some p) m1) (client_effect m h (snd (spec_send W h u bs c (world m))))"
      by (rule ok_mono [OF del]) (rule client_step_trans [OF S])
    with m1 show ?thesis using p by (simp add: check_packet_def send_reply_def split_def)
  qed
  then show ?thesis
    by (simp only: Option.bind_assoc split_def)
      (rule ok_bindI [OF build_total [where build = build, OF B tot attached_client [OF A]]], auto simp: split_def)
qed

section \<open>Keep alive\<close>

lemma send_ping_spec:
  assumes A: "attached m h u c" and inv: "heap_inv m" and tot: "alloc_total m"
  shows "ok (send_ping (env_of W) h m) (client_effect m h (spec_ping W h u c (world m)))"
  unfolding send_ping_def
proof (rule ok_bind2I [OF build_total [where build = mqtt_codec_ping, OF Ping_spec [OF inv] tot attached_client [OF A]]],
    goal_cases)
  case (1 r m2)
  let ?s = "spec_send W h u [PINGREQ_TYPE, 0] c (world m)"
  obtain p where p: "r = Some p" "buf_bytes m p = None"
    and S: "client_step m ((buf_bytes m)(p \<mapsto> map Some [PINGREQ_TYPE, 0])) h (c, world m) m2" using 1 by auto
  note D = client_stepD [OF S]
  have A2: "attached m2 h u c" using attached_step [OF A S] by simp
  have same: "(buf_bytes m2)(p := None) = buf_bytes m" using D(2) p(2) by (simp add: fun_eq_iff)
  obtain m3 where m3: "send_buffer (env_of W) h (Some p) m2 = Some (fst ?s, m3)"
    and del: "ok (BUFFER_delete (Some p) m3) (client_step m2 (buf_bytes m) h (snd ?s))"
    using send_delete [OF A2 D(1), of p "[PINGREQ_TYPE, 0]" W] D(2,4) same by auto
  have "ok (BUFFER_delete (Some p) m3) (client_effect m h (snd ?s))"
    by (rule ok_mono [OF del]) (rule client_step_trans [OF S])
  then obtain m4 where m4: "BUFFER_delete (Some p) m3 = Some m4" and S4: "client_effect m h (snd ?s) m4"
    by (auto simp: ok_iff)
  have A4: "attached m4 h u (fst (snd ?s))" using attached_step [OF A S4] by simp
  have nolog: "\<not> logTrace (fst (snd ?s))" using A4 by (simp add: attached_def)
  have w4: "world m4 = snd (snd ?s)" using S4 by (simp add: client_step_def)
  have "client_effect m h (spec_ping W h u c (world m)) (put h (spec_ping W h u c (world m)) m4)"
    by (rule client_step_put_left [OF S4])
  then show ?case
    using attached_client [OF A4]
    by (simp add: p(1) m3 m4 tick_eq [OF A4] upd_client_put nolog w4 spec_ping_def split_def Let_def)
qed

lemma keep_alive_spec:
  assumes A: "attached m h u c" and inv: "heap_inv m" and tot: "alloc_total m"
  shows "ok (keep_alive (env_of W) h m) (client_effect m h (spec_keep_alive W h u c (world m)))"
proof -
  note c = attached_client [OF A]
  let ?w = "snd (w_tick W (world m))" and ?now = "ticks_to_ms (fst (w_tick W (world m)) - u)"
  let ?late = "timeSincePing c > 0 \<and> (?now - timeSincePing c) div 1000 > ucast (maxPingRespTime c)"
  let ?due = "(?now - packetSendTimeMs c) div 1000 \<ge> ucast (client_keepAlive c)"
  let ?reset = "\<lambda>c. c\<lparr>timeSincePing := 0, packetSendTimeMs := 0, packetState := UNKNOWN_TYPE\<rparr>"
  define m1 where "m1 = put h (c, ?w) m"
  have A1: "attached m1 h u c" using attached_put [OF A, of "(c, ?w)"] by (simp add: m1_def)
  have m1: "clients m1 h = Some c" "heap_inv m1" "alloc_total m1" "world m1 = ?w" "buf_bytes m1 = buf_bytes m"
    using inv tot by (simp_all add: m1_def alloc_total_def)
  have S0: "client_effect m h (c, ?w) m1" using client_step_put [OF inv] by (simp add: m1_def)
  have tick: "tickcounter_get_current_ms (env_of W) (packetTickCntr c) (Some 0) m = Some ((0, Some ?now), m1)"
    using tick_eq [OF A] by (simp add: m1_def)
  have step: "keep_alive (env_of W) h m =
      (if ?late then set_error_callback (env_of W) h MQTT_CLIENT_NO_PING_RESPONSE m1 \<bind> upd_client h ?reset
       else if ?due then send_ping (env_of W) h m1 else Some m1)"
    by (simp add: keep_alive_def c tick m1)
  have spec: "spec_keep_alive W h u c (world m) =
      (if ?late then (?reset (fst (spec_error W h MQTT_CLIENT_NO_PING_RESPONSE c ?w)),
         snd (spec_error W h MQTT_CLIENT_NO_PING_RESPONSE c ?w))
       else if ?due then spec_ping W h u c ?w else (c, ?w))"
    by (simp only: spec_keep_alive_def split_def Let_def)
  have late: "ok (set_error_callback (env_of W) h MQTT_CLIENT_NO_PING_RESPONSE m1 \<bind> upd_client h ?reset)
      (client_effect m h (?reset (fst (spec_error W h MQTT_CLIENT_NO_PING_RESPONSE c ?w)),
         snd (spec_error W h MQTT_CLIENT_NO_PING_RESPONSE c ?w)))"
    using set_error_callback_eq [OF A1, of W MQTT_CLIENT_NO_PING_RESPONSE] m1 client_step_put_left [OF S0]
    by (simp add: upd_client_put)
  have due: "ok (send_ping (env_of W) h m1) (client_effect m h (spec_ping W h u c ?w))"
    by (rule ok_mono [OF send_ping_spec [OF A1 m1(2,3)]]) (use m1 client_step_trans [OF S0] in auto)
  show ?thesis unfolding step spec using late due S0 by (simp only: ok_if ok_Some split: if_split) blast
qed

lemma dowork_spec:
  assumes A: "attached m h u c" and inv: "heap_inv m" and tot: "alloc_total m"
  shows "ok (mqtt_client_dowork (env_of W) (Some h) m) (client_effect m h (spec_dowork W h u c (world m)))"
proof (cases "xioHandle c")
  case None
  then show ?thesis
    using attached_client [OF A] client_step_put [OF inv, of h "(c, world m)"]
    by (simp add: mqtt_client_dowork_def spec_dowork_def put_same)
next
  case (Some x)
  let ?m1 = "put h (c, w_work W (world m)) m"
  have A1: "attached ?m1 h u c" using attached_put [OF A, of "(c, w_work W (world m))"] by simp
  have run: "mqtt_client_dowork (env_of W) (Some h) m =
    (if socketConnected c \<and> clientConnected c \<and> client_keepAlive c > 0 then keep_alive (env_of W) h ?m1 else Some ?m1)"
    using Some attached_client [OF A] xio_dowork_eq [OF A, of W] by (simp add: mqtt_client_dowork_def)
  show ?thesis
  proof (cases "socketConnected c \<and> clientConnected c \<and> client_keepAlive c > 0")
    case True
    then show ?thesis
      unfolding run if_P [OF True]
      by (intro ok_mono [OF keep_alive_spec [OF A1]])
        (use inv tot Some client_step_trans [OF client_step_put [OF inv, of h "(c, w_work W (world m))"]] in
          \<open>auto simp: spec_dowork_def alloc_total_def\<close>)
  next
    case False
    then show ?thesis
      unfolding run if_not_P [OF False]
      using client_step_put [OF inv, of h "(c, w_work W (world m))"] Some by (auto simp: spec_dowork_def)
  qed
qed

end
