(* ===== verification/Private_Arrays.thy ===== *)
theory Private_Arrays
  imports Effects
begin

text \<open>
  Arrays that neither a buffer nor a string owns: allocating, filling or freeing one changes
  \<open>foreign\<close> or \<open>str_rest\<close> at its address and nothing else.
\<close>

lemma heap_put_chars:
  fixes m :: "'z smem_scheme"
  assumes inv: "heap_inv m" and un: "\<And>h b. strs m h = Some b \<Longrightarrow> str_s b \<noteq> Some a"
    and n: "brk m \<le> n" "x \<noteq> None \<Longrightarrow> a < n"
  defines "m' \<equiv> m\<lparr>brk := n, chars := (chars m)(a := x)\<rparr>"
  shows "heap_inv m'" "buf_bytes m' = buf_bytes m" "foreign m' = foreign m" "str_vals m' = str_vals m"
    "str_rest m' = (str_rest m)(a := x)" "buf_at m' = buf_at m"
proof -
  have in_range: "x = None" if "n \<le> a" using n(2) that by (cases x) auto
  have vals: "own_vals str_s str_val (strs m) ((chars m)(a := x)) = own_vals str_s str_val (strs m) (chars m)"
  proof
    fix h
    show "own_vals str_s str_val (strs m) ((chars m)(a := x)) h = own_vals str_s str_val (strs m) (chars m) h"
    proof (cases "strs m h")
      case (Some b)
      then show ?thesis using un [OF Some] by (cases "str_s b") (auto simp: own_vals_def array_of_def)
    qed (simp add: own_vals_def)
  qed
  show B: "buf_bytes m' = buf_bytes m" by (rule ext, rule buf_bytes_cong) (simp_all add: m'_def)
  show "str_vals m' = str_vals m" using vals by (simp add: str_vals_def m'_def)
  show "str_rest m' = (str_rest m)(a := x)"
    using un by (auto simp: str_rest_def own_rest_def m'_def fun_eq_iff)
  have o: "owned m' y = owned m y" for y by (simp add: owned_def m'_def)
  show "foreign m' = foreign m" by (rule ext, simp only: foreign_def o) (simp add: m'_def)
  show "buf_at m' = buf_at m"
    by (intro ext) (simp add: buf_at_def m'_def)
  have "own_inv str_s str_val (strs m) ((chars m)(a := x))"
    using inv vals unfolding heap_inv_def str_inv_def own_inv_def by simp
  then have "str_inv m'" "wf_mem m'"
    using inv n(1) in_range by (auto simp: heap_inv_def str_inv_def wf_mem_def m'_def)
  moreover have "buf_inv m'"
    using inv B n \<open>wf_mem m'\<close> unfolding heap_inv_def buf_inv_def by (auto simp: m'_def)
  ultimately show "heap_inv m'" by (simp add: heap_inv_def)
qed

lemma buf_bytes_unowned:
  fixes m m' :: "'z bmem_scheme"
  assumes "buffers m' = buffers m" "\<And>b. buffers m h = Some b \<Longrightarrow> buffer b \<noteq> Some a" "\<And>y. y \<noteq> a \<Longrightarrow> blocks m' y = blocks m y"
  shows "buf_bytes m' h = buf_bytes m h"
proof (cases "buffers m h")
  case (Some b)
  then show ?thesis using assms by (cases "buffer b") (auto simp: buf_bytes_def)
qed (simp add: buf_bytes_def assms)

lemma heap_put_block:
  fixes m :: "'z smem_scheme"
  assumes inv: "heap_inv m" and un: "\<not> owned m a" and n: "brk m \<le> n" "x \<noteq> None \<Longrightarrow> a < n"
  defines "m' \<equiv> m\<lparr>brk := n, blocks := (blocks m)(a := x)\<rparr>"
  shows "heap_inv m'" "buf_bytes m' = buf_bytes m" "foreign m' = (foreign m)(a := x)" "str_vals m' = str_vals m"
    "str_rest m' = str_rest m" "buf_at m' = buf_at m"
proof -
  have in_range: "x = None" if "n \<le> a" using n(2) that by (cases x) auto
  show B: "buf_bytes m' = buf_bytes m"
    by (rule ext, rule buf_bytes_unowned) (use un in \<open>auto simp: owned_def m'_def\<close>)
  show "str_vals m' = str_vals m" "str_rest m' = str_rest m" by (simp_all add: str_vals_def str_rest_def m'_def)
  have o: "owned m' y \<longleftrightarrow> owned m y" for y by (simp add: owned_def m'_def)
  show "foreign m' = (foreign m)(a := x)" 
    by (rule ext, simp only: foreign_def o fun_upd_apply) (use un in \<open>auto simp: m'_def\<close>)
  show "buf_at m' = buf_at m" by (intro ext) (simp add: buf_at_def m'_def)
  have "wf_mem m'" using inv n(1) in_range by (auto simp: heap_inv_def str_inv_def wf_mem_def m'_def)
  then have "str_inv m'" using inv n by (auto simp: heap_inv_def str_inv_def m'_def)
  moreover have "buf_inv m'"
    using inv B n \<open>wf_mem m'\<close> unfolding heap_inv_def buf_inv_def by (auto simp: m'_def)
  ultimately show "heap_inv m'" by (simp add: heap_inv_def)
qed

text \<open>An address that was not given out has no owner.\<close>

lemma fresh_unowned:
  fixes m :: "'z smem_scheme"
  assumes inv: "heap_inv m" and a: "brk m \<le> a"
  shows "\<not> owned m a" "strs m h = Some b \<Longrightarrow> str_s b \<noteq> Some a"
proof -
  have none: "blocks m a = None" "chars m a = None"
    using inv a by (auto simp: heap_inv_def str_inv_def wf_mem_def)
  show "\<not> owned m a"
  proof
    assume "owned m a"
    then obtain h b where b: "buffers m h = Some b" "buffer b = Some a" by (auto simp: owned_def)
    then have "buf_bytes m h \<noteq> None" using inv by (auto simp: heap_inv_def buf_inv_def)
    then show False using b none by (simp add: buf_bytes_def)
  qed
  show "str_s b \<noteq> Some a" if "strs m h = Some b"
    using str_own.valid [of "strs m" "chars m" h b] inv that none by (auto simp: heap_inv_def str_inv_def)
qed

lemma foreign_unowned: "foreign m a = Some x \<Longrightarrow> \<not> owned m a \<and> blocks m a = Some x"
  by (simp add: foreign_def split: if_splits)

lemma str_rest_unowned: "str_rest m a = Some x \<Longrightarrow> chars m a = Some x \<and> (strs m h = Some b \<longrightarrow> str_s b \<noteq> Some a)"
  by (auto simp: str_rest_def own_rest_def split: if_splits)

text \<open>Freeing such an array.\<close>

lemma cfree_private:
  fixes m :: "'z smem_scheme"
  assumes inv: "heap_inv m" and x: "str_rest m a = Some x"
  shows "cfree (Some a) m = Some (m\<lparr>chars := (chars m)(a := None)\<rparr>)"
    and "heap_inv (m\<lparr>chars := (chars m)(a := None)\<rparr>)" "buf_bytes (m\<lparr>chars := (chars m)(a := None)\<rparr>) = buf_bytes m"
    "foreign (m\<lparr>chars := (chars m)(a := None)\<rparr>) = foreign m" "str_vals (m\<lparr>chars := (chars m)(a := None)\<rparr>) = str_vals m"
    "str_rest (m\<lparr>chars := (chars m)(a := None)\<rparr>) = (str_rest m)(a := None)"
  using str_rest_unowned [OF x] heap_put_chars [OF inv, of a "brk m" None] by (auto simp: cfree_def)

lemma free_private:
  fixes m :: "'z smem_scheme"
  assumes inv: "heap_inv m" and x: "foreign m a = Some x"
  shows "free (Some a) m = Some (m\<lparr>blocks := (blocks m)(a := None)\<rparr>)"
    and "heap_inv (m\<lparr>blocks := (blocks m)(a := None)\<rparr>)" "buf_bytes (m\<lparr>blocks := (blocks m)(a := None)\<rparr>) = buf_bytes m"
    "foreign (m\<lparr>blocks := (blocks m)(a := None)\<rparr>) = (foreign m)(a := None)"
    "str_vals (m\<lparr>blocks := (blocks m)(a := None)\<rparr>) = str_vals m"
    "str_rest (m\<lparr>blocks := (blocks m)(a := None)\<rparr>) = str_rest m"
  using foreign_unowned [OF x] heap_put_block [OF inv, of a "brk m" None] by (auto simp: free_def)

end
