(* ===== verification/Client_Handler.thy ===== *)
theory Client_Handler
  imports Client_Effects Private_Arrays
begin

text \<open>
  How the client reads a packet in the buffer of the decoder, and what it does with each
  acknowledgement: the cases of \<^verbatim>\<open>recvCompleteCallback\<close> but PUBLISH implement the machine.
\<close>

section \<open>Reading a packet\<close>

text \<open>The packet \<open>body\<close> lies at \<open>a\<close>, in the buffer \<open>p\<close>.\<close>

definition packet_at :: "'z smem_scheme \<Rightarrow> addr \<Rightarrow> addr \<Rightarrow> u8 list \<Rightarrow> bool" where
  "packet_at m p a body \<longleftrightarrow> buf_bytes m p = Some (map Some body) \<and> buf_at m p a"

lemma packet_at_read:
  "packet_at m p a body \<Longrightarrow> i + n \<le> length body \<Longrightarrow> read_bytes (a, i) n m = Some (map Some (take n (drop i body)))"
  using read_buf [of m p "map Some body" a i n] by (simp add: packet_at_def take_map drop_map)

lemma packet_at_byte: "packet_at m p a body \<Longrightarrow> i < length body \<Longrightarrow> read_byte (a, i) m = Some (body ! i)"
  using packet_at_read [of m p a body i 1] by (simp add: read_byte_def take_Suc_conv_app_nth hd_drop_conv_nth take_Suc)

lemma packet_at_length: "packet_at m p a body \<Longrightarrow> length body < 2 ^ 32"
  using buf_bytes_bound [of m p "map Some body"] by (simp add: packet_at_def)

lemma read16_drop: "i + 1 < length body \<Longrightarrow> read16 (drop i body) = 256 * ucast (body ! i) + ucast (body ! (i + 1))"
  by (simp add: Cons_nth_drop_Suc [symmetric])

lemma read16_short: "length bs < 2 \<Longrightarrow> read16 bs = 0"
  by (cases bs rule: read16.cases) simp_all

lemma read_uint16_eq:
  assumes P: "packet_at m p a body" and i: "i \<le> length body"
  shows "byteutil_read_uint16 (Some (Some (a, i))) (of_nat (length body - i)) m =
    Some (read16 (drop i body), Some (Some (a, if length body - i < 2 then i else i + 2)))"
proof -
  have l: "unat (of_nat (length body - i) :: u32) = length body - i"
    using packet_at_length [OF P] by (intro unat_eq_of_nat [OF refl]) simp
  have two: "(of_nat (length body - i) :: u32) \<ge> 2 \<longleftrightarrow> \<not> length body - i < 2"
    by (simp add: word_le_nat_alt l not_less)
  show ?thesis
  proof (cases "length body - i < 2")
    case True
    then show ?thesis using two read16_short [of "drop i body"] by (simp add: byteutil_read_uint16_def)
  next
    case False
    then have "i + 1 < length body" by simp
    then show ?thesis
      using two False packet_at_byte [OF P, of i] packet_at_byte [OF P, of "Suc i"] read16_drop [of i body]
      by (simp add: byteutil_read_uint16_def)
  qed
qed

section \<open>Without a trace\<close>

lemma trace_line_off: "clients m h = Some c \<Longrightarrow> \<not> logTrace c \<Longrightarrow> trace_line h txt m = Some m"
  by (simp add: trace_line_def)

lemma trace_append_off: "clients m h = Some c \<Longrightarrow> \<not> logTrace c \<Longrightarrow> trace_append h t txt m = Some m"
  by (simp add: trace_append_def)

lemma call_operation_eq:
  assumes "clients m h = Some c" "fnOperationCallback c \<noteq> None" "event_of action info m = Some e"
  shows "call_operation (env_of W) h action info m = Some (put h (c, spec_operation W e c (world m)) m)"
  using assms by (auto simp: call_operation_def env_of_def spec_operation_def put_world)

lemma spec_operation_None [simp]: "fnOperationCallback c = None \<Longrightarrow> spec_operation W e c w = w"
  by (simp add: spec_operation_def)

section \<open>The acknowledgements\<close>

lemma recv_connack_spec:
  assumes A: "attached m h u c" and P: "packet_at m p a body" and cb: "fnOperationCallback c \<noteq> None"
    and S: "body = b # code # rest"
  shows "recv_connack (env_of W) h (Some (a, 0)) m =
    Some (put h (if code = CONNECTION_ACCEPTED then c\<lparr>clientConnected := True\<rparr> else c,
      spec_operation W (Connack (b = 1) code) c (world m)) m)"
proof -
  have c: "clients m h = Some c" "\<not> logTrace c" using A by (auto simp: attached_def)
  have "read_byte (a, 0) m = Some b" "read_byte (a, 1) m = Some code"
    using packet_at_byte [OF P, of 0] packet_at_byte [OF P, of 1] S by simp_all
  then show ?thesis
    using c cb call_operation_eq [OF c(1) cb, of MQTT_CLIENT_ON_CONNACK "Info_connack \<lparr>isSessionPresent = (b = 1), returnCode = code\<rparr>"
        "Connack (b = 1) code" W]
    by (simp add: recv_connack_def byteutil_readByte_def trace_line_off upd_client_put)
qed

lemma recv_unsuback_spec:
  assumes A: "attached m h u c" and P: "packet_at m p a body" and cb: "fnOperationCallback c \<noteq> None"
  shows "recv_unsuback (env_of W) h (Some (a, 0)) (of_nat (length body)) m =
    Some (put h (c, spec_operation W (Unsuback (read16 body)) c (world m)) m)"
proof -
  have c: "clients m h = Some c" "\<not> logTrace c" using A by (auto simp: attached_def)
  show ?thesis
    using c cb read_uint16_eq [OF P, of 0] call_operation_eq [OF c(1) cb, of MQTT_CLIENT_ON_UNSUBSCRIBE_ACK
        "Info_unsuback \<lparr>unsuback_packetId = read16 body\<rparr>" "Unsuback (read16 body)" W]
    by (simp add: recv_unsuback_def trace_line_off)
qed

lemma recv_pingresp_spec:
  assumes A: "attached m h u c"
  shows "recv_pingresp (env_of W) h m = Some (put h (c\<lparr>timeSincePing := 0\<rparr>, spec_operation W Pingresp c (world m)) m)"
proof -
  let ?c = "c\<lparr>timeSincePing := 0\<rparr>"
  let ?m = "put h (?c, world m) m"
  have c: "clients m h = Some c" "\<not> logTrace c" using A by (auto simp: attached_def)
  have m: "clients ?m h = Some ?c" "\<not> logTrace ?c" using c by simp_all
  have "event_of MQTT_CLIENT_ON_PING_RESPONSE No_info ?m = Some Pingresp" by simp
  note call = call_operation_eq [OF m(1) _ this, of W]
  have same: "spec_operation W Pingresp ?c w = spec_operation W Pingresp c w" for w
    by (simp add: spec_operation_def split: option.split)
  show ?thesis
    using c(1) m call by (simp add: recv_pingresp_def upd_client_put [OF c(1)] trace_line_off [OF m] same del: put_simps(1))
qed

lemma recv_puback_spec:
  assumes A: "attached m h u c" and P: "packet_at m p a body" and cb: "fnOperationCallback c \<noteq> None"
    and inv: "heap_inv m" and tot: "alloc_total m"
  shows "ok (recv_puback (env_of W) h type (Some (a, 0)) (of_nat (length body)) m)
    (client_effect m h (spec_puback W h u type (read16 body) c (world m)))"
proof -
  let ?id = "read16 body"
  define w where "w = spec_operation W (Puback (puback_action type) ?id) c (world m)"
  define m1 where "m1 = put h (c, w) m"
  have c: "clients m h = Some c" "\<not> logTrace c" using A by (auto simp: attached_def)
  have A1: "attached m1 h u c" using attached_put [OF A, of "(c, w)"] by (simp add: m1_def)
  have m1: "heap_inv m1" "alloc_total m1" "world m1 = w" "buf_bytes m1 = buf_bytes m"
    using inv tot by (simp_all add: m1_def alloc_total_def)
  have S1: "client_effect m h (c, w) m1" using client_step_put [OF inv] by (simp add: m1_def)
  have call: "call_operation (env_of W) h (puback_action type) (Info_puback \<lparr>puback_packetId = ?id\<rparr>) m = Some m1"
    using call_operation_eq [OF c(1) cb, of "puback_action type" "Info_puback \<lparr>puback_packetId = ?id\<rparr>"]
    by (simp add: m1_def w_def)
  have run: "recv_puback (env_of W) h type (Some (a, 0)) (of_nat (length body)) m =
     (if type = PUBREC_TYPE
      then mqtt_codec_publishRelease ?id m1 \<bind> (\<lambda>(p, m). check_packet (env_of W) h p m \<bind> (\<lambda>m. Some (p, m)))
      else if type = PUBREL_TYPE
      then mqtt_codec_publishComplete ?id m1 \<bind> (\<lambda>(p, m). check_packet (env_of W) h p m \<bind> (\<lambda>m. Some (p, m)))
      else Some (None, m1)) \<bind> (\<lambda>(p, m). send_reply (env_of W) h p m)"
    using c cb read_uint16_eq [OF P, of 0] call by (simp add: recv_puback_def trace_line_off)
  have rel: "ok (mqtt_codec_publishRelease ?id m1) (built None m1 (packet PUBREL_TYPE 2 (be16 ?id)) True)"
    using pubrel.builds [of m1 None] m1(1) by simp
  have comp: "ok (mqtt_codec_publishComplete ?id m1) (built None m1 (packet PUBCOMP_TYPE 0 (be16 ?id)) True)"
    using pubcomp.builds [of m1 None] m1(1) by simp
  have ne: "packet t f bs \<noteq> []" for t f bs by (simp add: packet_def fixed_header_def)
  have lift: "ok x (client_effect m1 h s) \<Longrightarrow> ok x (client_effect m h s)" for x s
    by (rule ok_mono, assumption) (use m1(4) client_step_trans [OF S1] in auto)
  have none: "send_reply (env_of W) h None m1 = Some m1" by (simp add: send_reply_def)
  show ?thesis
    using lift [OF reply_spec [where build = "mqtt_codec_publishRelease ?id", OF A1 m1(2) rel ne, of W]]
      lift [OF reply_spec [where build = "mqtt_codec_publishComplete ?id", OF A1 m1(2) comp ne, of W]] S1 none cb
    unfolding run spec_puback_def Let_def if_not_P [OF cb] w_def [symmetric] m1(3) by (simp del: ok_bind)
qed

section \<open>SUBACK\<close>

lemma suback_loop_eq:
  assumes "clients m h = Some c" "\<not> logTrace c" "q \<noteq> a"
  shows "blocks m a = Some (map Some got @ replicate (length rest) None) \<Longrightarrow> length got + length rest < 2 ^ 32 \<Longrightarrow>
    (\<And>k. k < length rest \<Longrightarrow> read_byte (q, i + k) m = Some (rest ! k)) \<Longrightarrow>
    suback_loop (length rest) h a t (Some (Some (q, i))) (of_nat (length got)) m =
      Some (of_nat (length got + length rest), m\<lparr>blocks := (blocks m)(a \<mapsto> map Some (got @ rest))\<rparr>)"
  using assms
proof (induction rest arbitrary: m got i)
  case Nil
  then show ?case by (simp add: fun_upd_idem)
next
  case (Cons b rest)
  let ?m = "m\<lparr>blocks := (blocks m)(a \<mapsto> map Some (got @ [b]) @ replicate (length rest) None)\<rparr>"
  have rd: "read_byte (q, i) m = Some b" using Cons.prems(3) [of 0] by simp
  have n: "unat (of_nat (length got) :: u32) = length got" using Cons.prems(2) by (intro unat_eq_of_nat [OF refl]) simp
  have wr: "write_bytes (a, length got) [Some b] m = Some ?m"
    using Cons.prems(1) write_at_append [of "map Some got" "[Some b]" "None # replicate (length rest) None"]
    by (simp add: write_at_def)
  have rds: "read_byte (q, Suc i + k) ?m = Some (rest ! k)" if "k < length rest" for k
    using Cons.prems(3) [of "Suc k"] that Cons.prems(6) by (simp add: read_byte_def read_bytes_def)
  have "suback_loop (length rest) h a t (Some (Some (q, Suc i))) (of_nat (length (got @ [b]))) ?m =
      Some (of_nat (length (got @ [b]) + length rest), ?m\<lparr>blocks := (blocks ?m)(a \<mapsto> map Some ((got @ [b]) @ rest))\<rparr>)"
    by (rule Cons.IH) (use Cons.prems rds in simp_all)
  then show ?case
    using rd n wr Cons.prems(4,5) by (simp add: byteutil_readByte_def trace_append_off add.commute fun_upd_def cong: if_cong)
qed

lemma recv_suback_spec:
  assumes A: "attached m h u c" and P: "packet_at m p a body" and cb: "fnOperationCallback c \<noteq> None"
    and inv: "heap_inv m" and tot: "alloc_total m" and len: "2 \<le> length body"
  shows "ok (recv_suback (env_of W) h (Some (a, 0)) (of_nat (length body)) m)
    (client_effect m h (c, spec_operation W (Suback (read16 body) (drop 2 body)) c (world m)))"
proof -
  define rest where "rest = drop 2 body"
  let ?b = "brk m" and ?w = "spec_operation W (Suback (read16 body) rest) c (world m)"
  have c: "clients m h = Some c" "\<not> logTrace c" using A by (auto simp: attached_def)
  have l32: "length body < 2 ^ 32" by (rule packet_at_length [OF P])
  have n: "length body = length rest + 2" using len by (simp add: rest_def)
  have l: "(of_nat (length body) - 2 :: u32) = of_nat (length rest)" by (simp add: n)
  have un: "unat (of_nat (length rest) :: u32) = length rest" using l32 n by (intro unat_eq_of_nat [OF refl]) simp
  define m1 where "m1 = m\<lparr>brk := Suc ?b, blocks := (blocks m)(?b \<mapsto> replicate (length rest) None)\<rparr>"
  define m2 where "m2 = m\<lparr>brk := Suc ?b, blocks := (blocks m)(?b \<mapsto> map Some rest)\<rparr>"
  have none: "blocks m ?b = None" using inv by (simp add: heap_inv_def str_inv_def wf_mem_def)
  have a: "a \<noteq> ?b"
  proof
    assume "a = ?b"
    then have "owned m ?b" using P by (auto simp: packet_at_def buf_at_def owned_def)
    then show False using fresh_unowned(1) [OF inv order.refl] by simp
  qed
  have rd: "read_byte (a, 2 + k) m1 = Some (rest ! k)" if "k < length rest" for k
  proof -
    have "read_byte (a, 2 + k) m1 = read_byte (a, 2 + k) m" using a by (simp add: read_byte_def read_bytes_def m1_def)
    also have "\<dots> = Some (body ! (2 + k))" by (rule packet_at_byte [OF P]) (use that n in linarith)
    finally show ?thesis using that by (simp add: rest_def)
  qed
  have m1: "clients m1 h = Some c" "blocks m1 ?b = Some (map Some [] @ replicate (length rest) None)"
    using c by (simp_all add: m1_def)
  have "suback_loop (length rest) h ?b None (Some (Some (a, 2))) (of_nat (length ([] :: u8 list))) m1 =
      Some (of_nat (length ([] :: u8 list) + length rest), m1\<lparr>blocks := (blocks m1)(?b \<mapsto> map Some ([] @ rest))\<rparr>)"
  proof (rule suback_loop_eq [OF m1(1) c(2) a m1(2)])
    show "length ([] :: u8 list) + length rest < 2 ^ 32" using l32 n by simp
  qed (rule rd)
  moreover have "m1\<lparr>blocks := (blocks m1)(?b \<mapsto> map Some ([] @ rest))\<rparr> = m2" by (simp add: m1_def m2_def)
  ultimately have loop: "suback_loop (length rest) h ?b None (Some (Some (a, 2))) 0 m1 = Some (of_nat (length rest), m2)"
    by simp
  have rest: "read_bytes (?b, 0) (length rest) m2 = Some (map Some rest)" by (simp add: m2_def)
  have ev: "event_of MQTT_CLIENT_ON_SUBSCRIBE_ACK
      (Info_suback \<lparr>suback_packetId = read16 body, suback_qosReturn = Some ?b, qosCount = of_nat (length rest)\<rparr>) m2 =
      Some (Suback (read16 body) rest)"
    using rest un by simp
  have m2: "clients m2 h = Some c" "world m2 = world m" using c by (simp_all add: m2_def)
  note call = call_operation_eq [OF m2(1) cb ev, of W, unfolded m2(2)]
  have mal: "malloc (length rest) m = Some (Some ?b, m1)" using tot by (simp add: malloc_def alloc_totalD m1_def)
  have id: "byteutil_read_uint16 (Some (Some (a, 0))) (of_nat (length body)) m =
      Some (read16 body, Some (Some (a, 2)))"
    using read_uint16_eq [OF P, of 0] len by simp
  have run: "recv_suback (env_of W) h (Some (a, 0)) (of_nat (length body)) m = free (Some ?b) (put h (c, ?w) m2)"
    by (simp only: recv_suback_def c(1) cb Option.bind.bind_lunit id prod.case Let_def l un c(2) if_False
        mal option.case loop m2(1) call if_True not_False_eq_True)
  have "free (Some ?b) (put h (c, ?w) m2) = Some (put h (c, ?w) (m\<lparr>brk := Suc ?b\<rparr>))"
    using none by (simp add: free_def put_def m2_def fun_upd_idem)
  note run = run [unfolded this]
  have F: "m\<lparr>brk := Suc ?b, blocks := (blocks m)(?b := None)\<rparr> = m\<lparr>brk := Suc ?b\<rparr>"
    using none by (simp add: fun_upd_idem)
  have H: "heap_inv (m\<lparr>brk := Suc ?b\<rparr>)" "buf_bytes (m\<lparr>brk := Suc ?b\<rparr>) = buf_bytes m"
    "str_vals (m\<lparr>brk := Suc ?b\<rparr>) = str_vals m" "str_rest (m\<lparr>brk := Suc ?b\<rparr>) = str_rest m"
    "foreign (m\<lparr>brk := Suc ?b\<rparr>) = foreign m"
    using heap_put_block [OF inv fresh_unowned(1) [OF inv order.refl], of "Suc ?b" None, unfolded F] none
    by (simp_all add: foreign_def fun_upd_idem)
  show ?thesis
    unfolding run rest_def [symmetric] using H c by (simp add: client_step_def)
qed

end
