(* ===== verification/Client_Publish.thy ===== *)
theory Client_Publish
  imports Client_Handler
begin

text \<open>
  PUBLISH: the client copies the topic, makes a message, passes it to the callback of the user,
  replies, and gives back the message and the topic.
\<close>

section \<open>The topic\<close>

text \<open>A zero byte ends the topic for the reader of the message.\<close>

lemma until_nul_takeWhile: "until_nul (cstr xs) = Some (takeWhile (\<lambda>b. b \<noteq> 0) xs)"
  by (induction xs) (simp_all add: cstr_def)

lemma readUTF_spec:
  fixes m :: "'z smem_scheme"
  assumes P: "packet_at m p a body" and tot: "alloc_total m" and len: "unat (read16 body) \<le> length (drop 2 body)"
  defines "n \<equiv> unat (read16 body)"
  shows "byteutil_readUTF (Some (Some (a, 0))) (Some (of_nat (length body))) m =
    (if n = 0 then Some ((None, Some (Some (a, 0 + (if length body < 2 then 0 else 2))), Some (of_nat (length body))), m)
     else Some ((Some (brk m), Some (Some (a, 2 + n)), Some (of_nat n)),
       m\<lparr>brk := Suc (brk m), chars := (chars m)(brk m \<mapsto> cstr (take n (drop 2 body)))\<rparr>))"
proof -
  have id: "byteutil_read_uint16 (Some (Some (a, 0))) (of_nat (length body)) m =
      Some (read16 body, Some (Some (a, if length body < 2 then 0 else 2)))"
    using read_uint16_eq [OF P, of 0] by simp
  show ?thesis
  proof (cases "n = 0")
    case True
    then show ?thesis using id by (simp add: byteutil_readUTF_def n_def unat_eq_0)
  next
    case False
    let ?xs = "take n (drop 2 body)"
    define m1 where "m1 = m\<lparr>brk := Suc (brk m), chars := (chars m)(brk m \<mapsto> replicate (n + 1) None)\<rparr>"
    define m2 where "m2 = m1\<lparr>chars := (chars m1)(brk m \<mapsto> map Some ?xs @ [None])\<rparr>"
    have pos: "read16 body > 0" using False by (cases "read16 body = 0") (simp_all add: n_def word_neq_0_conv)
    have l: "n \<le> length body - 2" using len by (simp add: n_def)
    then have two: "\<not> length body < 2" using False by simp
    have al: "cmalloc (n + 1) m = Some (Some (brk m), m1)" using tot by (simp add: cmalloc_def alloc_totalD m1_def)
    have lx: "length ?xs = n" using l two by simp
    have "read_bytes (a, 2) n m = Some (map Some ?xs)"
      by (rule packet_at_read [OF P]) (use l two in simp)
    then have rd: "read_bytes (a, 2) n m1 = Some (map Some ?xs)" by (simp add: read_bytes_def m1_def)
    have w1: "cwrite (brk m, 0) (map Some ?xs) m1 = Some m2"
      using lx l two by (simp add: m1_def m2_def write_at_def replicate_append_same [symmetric])
    have w2: "cwrite (brk m, n) [Some 0] m2 =
        Some (m\<lparr>brk := Suc (brk m), chars := (chars m)(brk m \<mapsto> cstr ?xs)\<rparr>)"
      using lx by (simp add: m1_def m2_def write_at_def cstr_def)
    have u: "ucast (read16 body) = (of_nat n :: u32)" by (simp add: n_def)
    show ?thesis
      using False two pos by (simp only: byteutil_readUTF_def option.distinct if_False if_True Option.bind.bind_lunit id
          prod.case n_def [symmetric] al option.case rd w1 w2 u advance.simps)
  qed
qed

section \<open>Memory that a handler holds\<close>

text \<open>
  \<open>holding\<close> is \<open>client_effect\<close> for a handler that holds arrays and a message: the arrays that
  belong to no buffer and no string are \<open>F\<close> and \<open>S\<close>, the messages are \<open>G\<close>.
\<close>

definition holding ::
  "'w wmem \<Rightarrow> (addr \<rightharpoonup> mbyte list) \<Rightarrow> (addr \<rightharpoonup> mbyte list) \<Rightarrow> (addr \<rightharpoonup> MQTT_MESSAGE) \<Rightarrow>
   addr \<Rightarrow> MQTT_CLIENT \<times> 'w \<Rightarrow> 'w wmem \<Rightarrow> bool" where
  "holding m F S G h s m' \<longleftrightarrow> heap_inv m' \<and> grants m' = grants m \<and> brk m \<le> brk m' \<and> foreign m' = F \<and>
     str_rest m' = S \<and> buf_bytes m' = buf_bytes m \<and> str_vals m' = str_vals m \<and> codecs m' = codecs m \<and>
     messages m' = G \<and> tick_counters m' = tick_counters m \<and> xios m' = xios m \<and>
     clients m' = (clients m)(h \<mapsto> fst s) \<and> world m' = snd s"

lemma holding_start: "heap_inv m \<Longrightarrow> clients m h = Some c \<Longrightarrow> holding m (foreign m) (str_rest m) (messages m) h (c, world m) m"
  by (simp add: holding_def fun_upd_idem)

lemma holding_effect: "holding m (foreign m) (str_rest m) (messages m) h s m' \<longleftrightarrow> client_effect m h s m'"
  by (simp add: holding_def client_step_def)

lemma holding_step: "holding m F S G h s m1 \<Longrightarrow> client_effect m1 h s' m2 \<Longrightarrow> holding m F S G h s' m2"
  by (auto simp: holding_def client_step_def)

lemma holding_chars:
  assumes "holding m F S G h s m1" "brk m1 \<le> a" "a < n"
  shows "holding m F (S(a \<mapsto> x)) G h s (m1\<lparr>brk := n, chars := (chars m1)(a \<mapsto> x)\<rparr>)"
  using assms heap_put_chars [of m1 a n "Some x"] fresh_unowned(2) [of m1 a] by (simp add: holding_def)

lemma holding_block:
  assumes "holding m F S G h s m1" "brk m1 \<le> a" "a < n"
  shows "holding m (F(a \<mapsto> x)) S G h s (m1\<lparr>brk := n, blocks := (blocks m1)(a \<mapsto> x)\<rparr>)"
  using assms heap_put_block [of m1 a n "Some x"] fresh_unowned(1) [of m1 a] by (simp add: holding_def)

lemma holding_messages: "holding m F S G h s m1 \<Longrightarrow> holding m F S G' h s (m1\<lparr>messages := G'\<rparr>)"
  by (simp add: holding_def)

lemma holding_cfree:
  assumes "holding m F S G h s m1" "S a = Some x"
  shows "\<exists>m2. cfree (Some a) m1 = Some m2 \<and> messages m2 = messages m1 \<and> holding m F (S(a := None)) G h s m2"
  using assms cfree_private [of m1 a x] by (auto simp: holding_def)

lemma holding_free:
  assumes "holding m F S G h s m1" "F a = Some x"
  shows "\<exists>m2. free (Some a) m1 = Some m2 \<and> messages m2 = messages m1 \<and> holding m (F(a := None)) S G h s m2"
  using assms free_private [of m1 a x] by (auto simp: holding_def)

lemma fresh_rest:
  assumes "heap_inv m" "brk m \<le> a"
  shows "str_rest m a = None" "foreign m a = None" "chars m a = None" "blocks m a = None"
  using assms by (auto simp: str_rest_def own_rest_def foreign_def heap_inv_def str_inv_def wf_mem_def)

section \<open>The message\<close>

lemma deliver_spec:
  fixes W :: "'w world_ops"
  assumes A: "attached m h u c" and inv: "heap_inv m" and tot: "alloc_total m"
    and f: "fnMessageRecv c = Some f" and v: "message_view m g = Some v"
  defines "w \<equiv> w_message W f (op_ctx c) v (world m)"
  shows "ok (deliver_message (env_of W) h g q i m) (client_effect m h
    (if q = DELIVER_EXACTLY_ONCE then snd (spec_send W h u (packet PUBREC_TYPE 0 (be16 i)) c w)
     else if q = DELIVER_AT_LEAST_ONCE then snd (spec_send W h u (packet PUBACK_TYPE 0 (be16 i)) c w)
     else (c, w)))"
proof -
  define m1 where "m1 = put h (c, w) m"
  have c: "clients m h = Some c" by (rule attached_client [OF A])
  have A1: "attached m1 h u c" using attached_put [OF A, of "(c, w)"] by (simp add: m1_def)
  have m1: "heap_inv m1" "alloc_total m1" "world m1 = w" "buf_bytes m1 = buf_bytes m"
    using inv tot by (simp_all add: m1_def alloc_total_def)
  have S1: "client_effect m h (c, w) m1" using client_step_put [OF inv] by (simp add: m1_def)
  have call: "on_message (env_of W) f (Some g) (op_ctx c) m = Some m1"
    using v c by (simp add: env_of_def m1_def w_def put_world)
  have run: "deliver_message (env_of W) h g q i m =
     (if q = DELIVER_EXACTLY_ONCE
      then mqtt_codec_publishReceived i m1 \<bind> (\<lambda>(p, m). check_packet (env_of W) h p m \<bind> (\<lambda>m. Some (p, m)))
      else if q = DELIVER_AT_LEAST_ONCE
      then mqtt_codec_publishAck i m1 \<bind> (\<lambda>(p, m). check_packet (env_of W) h p m \<bind> (\<lambda>m. Some (p, m)))
      else Some (None, m1)) \<bind> (\<lambda>(p, m). send_reply (env_of W) h p m)"
    by (simp add: deliver_message_def c f call)
  have rel: "ok (mqtt_codec_publishReceived i m1) (built None m1 (packet PUBREC_TYPE 0 (be16 i)) True)"
    using pubrec.builds [of m1 None] m1(1) by simp
  have ack: "ok (mqtt_codec_publishAck i m1) (built None m1 (packet PUBACK_TYPE 0 (be16 i)) True)"
    using puback.builds [of m1 None] m1(1) by simp
  have ne: "packet t f bs \<noteq> []" for t f bs by (simp add: packet_def fixed_header_def)
  have lift: "ok x (client_effect m1 h s) \<Longrightarrow> ok x (client_effect m h s)" for x s
    by (rule ok_mono, assumption) (use m1(4) client_step_trans [OF S1] in auto)
  have none: "send_reply (env_of W) h None m1 = Some m1" by (simp add: send_reply_def)
  show ?thesis
    using lift [OF reply_spec [where build = "mqtt_codec_publishReceived i", OF A1 m1(2) rel ne, of W]]
      lift [OF reply_spec [where build = "mqtt_codec_publishAck i", OF A1 m1(2) ack ne, of W]] S1 none
    unfolding run m1(3) by (simp del: ok_bind)
qed

lemma holding_made:
  assumes H: "holding m F S G h s m1"
  defines "g \<equiv> brk m1"
  shows "holding m (if n = 0 then F else F(g + 2 \<mapsto> xs)) (S(g + 1 \<mapsto> cstr t))
    (G(g \<mapsto> owner i q (g + 1) (if n = 0 then None else Some (g + 2, 0)) n)) h s (made i q t n xs m1)"
proof -
  have G: "messages m1 = G" using H by (simp add: holding_def)
  let ?m2 = "m1\<lparr>brk := g + 2, chars := (chars m1)(g + 1 \<mapsto> cstr t)\<rparr>"
  have H2: "holding m F (S(g + 1 \<mapsto> cstr t)) G h s ?m2"
    by (rule holding_chars [OF H]) (simp_all add: g_def)
  let ?m3 = "?m2\<lparr>brk := g + 3, blocks := (blocks ?m2)(g + 2 \<mapsto> xs)\<rparr>"
  have H3: "holding m (F(g + 2 \<mapsto> xs)) (S(g + 1 \<mapsto> cstr t)) G h s ?m3"
    by (rule holding_block [OF H2]) simp_all
  show ?thesis
  proof (cases "n = 0")
    case True
    then have "made i q t n xs m1 = ?m2\<lparr>messages := G(g \<mapsto> owner i q (g + 1) None n)\<rparr>"
      by (simp add: made_def Let_def g_def G)
    then show ?thesis using True holding_messages [OF H2] by simp
  next
    case False
    then have "made i q t n xs m1 = ?m3\<lparr>messages := G(g \<mapsto> owner i q (g + 1) (Some (g + 2, 0)) n)\<rparr>"
      by (simp add: made_def Let_def g_def G)
    then show ?thesis using False holding_messages [OF H3] by simp
  qed
qed

lemma holding_destroy:
  assumes H: "holding m F S G h s m1" and g: "G g = Some j" "topicName j = Some t" "S t = Some x"
    and p: "message (appPayload j) = (if e then None else Some (b, 0))" "\<not> e \<Longrightarrow> F b = Some y"
  shows "\<exists>m2. mqttmessage_destroy (Some g) m1 = Some m2 \<and>
    holding m (if e then F else F(b := None)) (S(t := None)) (G(g := None)) h s m2"
proof -
  have G: "messages m1 = G" using H by (simp add: holding_def)
  obtain m2 where m2: "cfree (Some t) m1 = Some m2" "messages m2 = G" "holding m F (S(t := None)) G h s m2"
    using holding_cfree [OF H g(3)] G by auto
  obtain m3 where m3: "free_bytes (message (appPayload j)) m2 = Some m3" "messages m3 = G"
    "holding m (if e then F else F(b := None)) (S(t := None)) G h s m3"
    using holding_free [OF m2(3), of b y] p m2 by (cases e) (auto simp: free_bytes_def)
  have "mqttmessage_destroy (Some g) m1 = Some (m3\<lparr>messages := G(g := None)\<rparr>)"
    using G g(1,2) m2(1) m3(1,2) p(1) by (cases e) (simp_all add: mqttmessage_destroy_def free_message_def free_bytes_def)
  then show ?thesis using holding_messages [OF m3(3)] by blast
qed

section \<open>The packet\<close>

lemma publish_cursor:
  assumes P: "packet_at m p a body" and S: "parse_publish flags body = Publish topic i payload"
  defines "n \<equiv> unat (read16 body)"
  shows "n \<noteq> 0" "n \<le> length (drop 2 body)" "topic = take n (drop 2 body)"
    "\<exists>j. j \<le> length body \<and> payload = drop j body \<and>
      (if publish_qos flags \<noteq> DELIVER_AT_MOST_ONCE
       then byteutil_read_uint16 (Some (Some (a, 2 + n))) (bytes_left (of_nat (length body)) (a, 0) (a, 2 + n)) m
       else Some (0, Some (Some (a, 2 + n)))) = Some (i, Some (Some (a, j)))"
proof -
  have body: "n \<noteq> 0" "\<not> length (drop 2 body) < n" "topic = take n (drop 2 body)"
    "if publish_qos flags = DELIVER_AT_MOST_ONCE \<or> length (drop n (drop 2 body)) < 2
     then i = 0 \<and> payload = drop n (drop 2 body)
     else i = read16 (drop n (drop 2 body)) \<and> payload = drop 2 (drop n (drop 2 body))"
    using S by (auto simp: parse_publish_def Let_def n_def simp del: drop_drop length_drop split: if_splits)
  then show "n \<noteq> 0" "n \<le> length (drop 2 body)" "topic = take n (drop 2 body)" by simp_all
  have l: "2 + n \<le> length body" using body(1,2) by simp
  have left: "bytes_left (of_nat (length body)) (a, 0) (a, 2 + n) = of_nat (length body - (2 + n))"
    using l by (simp add: bytes_left_def of_nat_diff)
  have short: "read16 (drop (2 + n) body) = 0" if "length body - (2 + n) < 2"
    by (rule read16_short) (use that in simp)
  show "\<exists>j. j \<le> length body \<and> payload = drop j body \<and>
      (if publish_qos flags \<noteq> DELIVER_AT_MOST_ONCE
       then byteutil_read_uint16 (Some (Some (a, 2 + n))) (bytes_left (of_nat (length body)) (a, 0) (a, 2 + n)) m
       else Some (0, Some (Some (a, 2 + n)))) = Some (i, Some (Some (a, j)))"
  proof (cases "publish_qos flags = DELIVER_AT_MOST_ONCE \<or> length body - (2 + n) < 2")
    case True
    then show ?thesis
      using body(4) l short read_uint16_eq [OF P l] unfolding left by (intro exI [of _ "2 + n"]) (auto simp: add.commute)
  next
    case False
    then show ?thesis
      using body(4) l read_uint16_eq [OF P l] unfolding left
      by (intro exI [of _ "2 + n + 2"]) (auto simp: add.commute)
  qed
qed

lemma recv_publish_spec:
  assumes A: "attached m h u c" and P: "packet_at m p a body" and inv: "heap_inv m" and tot: "alloc_total m"
    and G: "\<forall>a \<ge> brk m. messages m a = None" and S: "spec_publish W h u flags body c (world m) = Some s"
  shows "ok (recv_publish (env_of W) h flags (a, 0) (of_nat (length body)) m) (client_effect m h s)"
proof (cases "fnMessageRecv c")
  case None
  then show ?thesis
    using S client_step_put [OF inv, of h s] attached_client [OF A]
    by (auto simp: spec_publish_def recv_publish_def put_same)
next
  case (Some f)
  define n where "n = unat (read16 body)"
  have c: "clients m h = Some c" "\<not> logTrace c" using A by (auto simp: attached_def)
  have len0: "bytes_left (of_nat (length body)) (a, 0) (a, 0) = of_nat (length body)" by (simp add: bytes_left_def)
  show ?thesis
  proof (cases "parse_publish flags body")
    case No_topic
    then have n: "n = 0" by (auto simp: parse_publish_def Let_def n_def split: if_splits)
    have s: "s = spec_error W h MQTT_CLIENT_PARSE_ERROR c (world m)" using S Some No_topic by (simp add: spec_publish_def)
    have "recv_publish (env_of W) h flags (a, 0) (of_nat (length body)) m = Some (put h s m)"
      using readUTF_spec [OF P tot] n c Some set_error_callback_eq [OF A, of W]
      by (simp add: recv_publish_def len0 n_def [symmetric] s delete_trace_def Let_def)
    then show ?thesis using client_step_put [OF inv, of h s] by simp
  next
    case Overrun
    then show ?thesis using S Some by (simp add: spec_publish_def)
  next
    case (Publish topic i payload)
    let ?q = "publish_qos flags" and ?t = "brk m" and ?g = "Suc (brk m)"
    define w where "w = w_message W f (op_ctx c) (received_message flags topic i payload) (world m)"
    have s: "s = (if ?q = DELIVER_EXACTLY_ONCE then snd (spec_send W h u (packet PUBREC_TYPE 0 (be16 i)) c w)
       else if ?q = DELIVER_AT_LEAST_ONCE then snd (spec_send W h u (packet PUBACK_TYPE 0 (be16 i)) c w)
       else (c, w))"
      using S by (simp only: spec_publish_def Some Publish option.case publish_packet.case Let_def w_def option.inject)
    note T = publish_cursor(1-3) [OF P Publish, folded n_def]
    define m0 where "m0 = m\<lparr>brk := ?g, chars := (chars m)(?t \<mapsto> cstr topic)\<rparr>"
    have H0: "holding m (foreign m) ((str_rest m)(?t \<mapsto> cstr topic)) (messages m) h (c, world m) m0"
      unfolding m0_def by (rule holding_chars [OF holding_start [OF inv c(1)]]) simp_all
    have m0: "clients m0 h = Some c" "heap_inv m0" "alloc_total m0" "brk m0 = ?g"
      using H0 tot c(1) by (simp_all add: holding_def alloc_total_def m0_def)
    have P0: "packet_at m0 p a body"
      using P heap_put_chars(2,6) [OF inv fresh_unowned(2) [OF inv order.refl], where n = ?g and x = "Some (cstr topic)"]
      by (simp add: packet_at_def m0_def)
    obtain j where j: "j \<le> length body" "payload = drop j body"
      and cur: "(if ?q \<noteq> DELIVER_AT_MOST_ONCE
       then byteutil_read_uint16 (Some (Some (a, 2 + n))) (bytes_left (of_nat (length body)) (a, 0) (a, 2 + n)) m0
       else Some (0, Some (Some (a, 2 + n)))) = Some (i, Some (Some (a, j)))"
      using publish_cursor(4) [OF P0 Publish] unfolding n_def by blast
    have left: "bytes_left (of_nat (length body)) (a, 0) (a, j) = of_nat (length payload)"
      using j by (simp add: bytes_left_def of_nat_diff)
    have pl: "unat (of_nat (length payload) :: u32) = length payload"
      using packet_at_length [OF P] j by (intro unat_eq_of_nat [OF refl]) simp
    have utf: "byteutil_readUTF (Some (Some (a, 0))) (Some (of_nat (length body))) m =
        Some ((Some ?t, Some (Some (a, 2 + n)), Some (of_nat n)), m0)"
      using readUTF_spec [OF P tot] T by (simp add: n_def [symmetric] m0_def)
    let ?s = "takeWhile (\<lambda>b. b \<noteq> 0) topic" and ?k = "of_nat (length payload) :: u32" and ?xs = "map Some payload"
    define m1 where "m1 = made i ?q ?s ?k ?xs m0"
    have wf: "wf_gmem m0" using G m0(2) by (auto simp: wf_gmem_def heap_inv_def str_inv_def m0_def)
    have str: "c_string (Chars ?t 0) m0 = Some ?s" by (simp add: c_string_def m0_def until_nul_takeWhile)
    have ls: "length ?s < 2 ^ 32 - 1"
    proof -
      have "length ?s \<le> length topic" by (rule length_takeWhile_le)
      also have "\<dots> \<le> length body - 2" using T by simp
      also have "\<dots> < 2 ^ 32 - 1" using packet_at_length [OF P] by simp
      finally show ?thesis .
    qed
    have new: "mqttmessage_create i (Some (Chars ?t 0)) ?q (Some (a, j)) ?k m0 = Some (Some ?g, m1)"
    proof -
      have "read_bytes (a, j) (unat ?k) m0 = Some ?xs"
        using packet_at_read [OF P0, of j "length payload"] j pl by simp
      then show ?thesis
        using message_create_spec [OF str ls wf, of ?k "Some (a, j)" ?xs i ?q] m0(3,4)
        by (simp add: alloc_totalD m1_def)
    qed
    define o1 where "o1 = owner i ?q (?g + 1) (if ?k = 0 then None else Some (?g + 2, 0)) ?k"
    define o2 where "o2 = o1\<lparr>isDuplicateMsg := (flags AND DUPLICATE_FLAG_MASK \<noteq> 0),
      isMessageRetained := (flags AND RETAIN_FLAG_MASK \<noteq> 0)\<rparr>"
    have g1: "messages m1 ?g = Some o1" by (simp add: m1_def made_messages m0(4) o1_def)
    define m2 where "m2 = m1\<lparr>messages := (messages m1)(?g \<mapsto> o2)\<rparr>"
    let ?F = "if ?k = 0 then foreign m else (foreign m)(?g + 2 \<mapsto> ?xs)"
    let ?S = "(str_rest m)(?t \<mapsto> cstr topic, ?g + 1 \<mapsto> cstr ?s)"
    have H2: "holding m ?F ?S ((messages m)(?g \<mapsto> o2)) h (c, world m) m2"
    proof -
      have G1: "(messages m1)(?g \<mapsto> o2) = (messages m)(?g \<mapsto> o2)"
        by (simp add: m1_def made_messages m0(4)) (simp add: m0_def)
      show ?thesis
        unfolding m2_def G1
        by (rule holding_messages [OF holding_made [OF H0, of ?k ?xs ?s i ?q, unfolded m0(4), folded m1_def]])
    qed
    define m1' where "m1' = m1\<lparr>messages := (messages m1)(?g \<mapsto> o1\<lparr>isDuplicateMsg := (flags AND DUPLICATE_FLAG_MASK \<noteq> 0)\<rparr>)\<rparr>"
    have set1: "mqttmessage_setIsDuplicateMsg (Some ?g) (flags AND DUPLICATE_FLAG_MASK \<noteq> 0) m1 = Some (0, m1')"
      using g1 by (simp add: mqttmessage_setIsDuplicateMsg_def upd_message_def set_message_def m1'_def)
    have set2: "mqttmessage_setIsRetained (Some ?g) (flags AND RETAIN_FLAG_MASK \<noteq> 0) m1' = Some (0, m2)"
      using g1 by (simp add: mqttmessage_setIsRetained_def upd_message_def set_message_def m2_def m1'_def o2_def)
    have v: "message_view m2 ?g = Some (received_message flags topic i payload)"
    proof -
      have "0 \<notin> set ?s" using set_takeWhileD [of 0 "\<lambda>b. b \<noteq> 0" topic] by blast
      from view_made [OF this, of ?k ?xs i ?q m0] have "message_view m1 ?g =
          Some \<lparr>v_id = i, v_topic = ?s, v_qos = ?q, v_payload = ?xs, v_dup = False, v_retained = False\<rparr>"
        using pl by (auto simp: m1_def m0(4) unat_eq_0)
      from view_flags(1) [OF g1 this] show ?thesis by (simp add: m2_def o2_def received_message_def)
    qed
    have A2: "attached m2 h u c" and m2: "heap_inv m2" "alloc_total m2" "world m2 = world m" "clients m2 h = Some c"
      using A H2 tot by (auto simp: attached_def holding_def alloc_total_def)
    have del: "ok (deliver_message (env_of W) h ?g ?q i m2) (client_effect m2 h s)"
      using deliver_spec [OF A2 m2(1,2) Some v, of W ?q i] by (simp only: m2(3) w_def [symmetric] s)
    obtain m3 where m3: "deliver_message (env_of W) h ?g ?q i m2 = Some m3" "client_effect m2 h s m3"
      using del by (auto simp: ok_iff)
    have H3: "holding m ?F ?S ((messages m)(?g \<mapsto> o2)) h s m3" by (rule holding_step [OF H2 m3(2)])
    have own: "topicName o2 = Some (?g + 1)" "message (appPayload o2) = (if ?k = 0 then None else Some (?g + 2, 0))"
      by (simp_all add: o2_def o1_def owner_def)
    note rest = fresh_rest [OF inv, of ?t] fresh_rest [OF inv, of "?g + 1"] fresh_rest [OF inv, of "?g + 2"]
    obtain m4 where m4: "mqttmessage_destroy (Some ?g) m3 = Some m4"
      and H4: "holding m (if ?k = 0 then ?F else ?F(?g + 2 := None)) (?S(?g + 1 := None))
        (((messages m)(?g \<mapsto> o2))(?g := None)) h s m4"
      using holding_destroy [OF H3 _ own(1) _ own(2), where g = ?g and x = "cstr ?s" and y = ?xs] by auto
    have "(if ?k = 0 then ?F else ?F(?g + 2 := None)) = foreign m" "?S(?g + 1 := None) = (str_rest m)(?t \<mapsto> cstr topic)"
      "((messages m)(?g \<mapsto> o2))(?g := None) = messages m"
      using rest G by (auto simp: fun_eq_iff)
    from H4 [unfolded this] have H4: "holding m (foreign m) ((str_rest m)(?t \<mapsto> cstr topic)) (messages m) h s m4" .
    obtain m5 where m5: "cfree (Some ?t) m4 = Some m5"
      and H5: "holding m (foreign m) (((str_rest m)(?t \<mapsto> cstr topic))(?t := None)) (messages m) h s m5"
      using holding_cfree [OF H4, of ?t] by auto
    have "((str_rest m)(?t \<mapsto> cstr topic))(?t := None) = str_rest m" using rest by (simp add: fun_upd_idem)
    with H5 have "client_effect m h s m5" by (simp add: holding_effect)
    moreover have "recv_publish (env_of W) h flags (a, 0) (of_nat (length body)) m = Some m5"
      by (simp only: recv_publish_def c Some option.distinct if_False if_True Option.bind.bind_lunit Let_def len0 utf
          prod.case option.case trace_append_off [OF m0(1) c(2)] cur if_cancel left new set1 set2 simp_thms m2(4) m3(1) m4 m5)
    ultimately show ?thesis by simp
  qed
qed

end
