(* ===== verification/Client_Stream.thy ===== *)
theory Client_Stream
  imports Client_Publish
begin

text \<open>
  The callback of the decoder, \<^verbatim>\<open>recvCompleteCallback\<close>, implements \<open>spec_delivery\<close>; with it the
  client is a \<open>receiver\<close> of the decoder, and \<^verbatim>\<open>onBytesReceived\<close> runs the machine of the client on
  what the machine of the decoder delivers.
\<close>

section \<open>A delivery\<close>

lemma body_of_Some: "body_of (Some xs) = Some body \<longleftrightarrow> xs = map Some body"
  using those_SomeD by (auto simp: body_of_def)

lemma type_cases:
  "CONNACK_TYPE \<noteq> PUBLISH_TYPE" "CONNACK_TYPE \<noteq> PINGRESP_TYPE" "PUBLISH_TYPE \<noteq> PINGRESP_TYPE"
  "CONNACK_TYPE \<notin> {PUBACK_TYPE, PUBREC_TYPE, PUBREL_TYPE, PUBCOMP_TYPE}"
  "PUBLISH_TYPE \<notin> {PUBACK_TYPE, PUBREC_TYPE, PUBREL_TYPE, PUBCOMP_TYPE}"
  "SUBACK_TYPE \<notin> {CONNACK_TYPE, PUBLISH_TYPE, PUBACK_TYPE, PUBREC_TYPE, PUBREL_TYPE, PUBCOMP_TYPE}"
  "UNSUBACK_TYPE \<notin> {CONNACK_TYPE, PUBLISH_TYPE, PUBACK_TYPE, PUBREC_TYPE, PUBREL_TYPE, PUBCOMP_TYPE, SUBACK_TYPE}"
  "PINGRESP_TYPE \<notin> {CONNACK_TYPE, PUBLISH_TYPE, PUBACK_TYPE, PUBREC_TYPE, PUBREL_TYPE, PUBCOMP_TYPE, SUBACK_TYPE, UNSUBACK_TYPE}"
  by (simp_all add: c_consts)

text \<open>The switch, for a packet that has a body.\<close>

definition dispatch :: "'z env \<Rightarrow> addr \<Rightarrow> CONTROL_PACKET_TYPE \<Rightarrow> int \<Rightarrow> addr \<Rightarrow> nat \<Rightarrow> 'z kmem_scheme \<Rightarrow> 'z kmem_scheme option" where
  "dispatch env h pkt flags a n m =
     (let iterator = Some (a, 0); len = of_nat n in
      if pkt = CONNACK_TYPE then recv_connack env h iterator m
      else if pkt = PUBLISH_TYPE then recv_publish env h flags (a, 0) len m
      else if pkt = PUBACK_TYPE \<or> pkt = PUBREC_TYPE \<or> pkt = PUBREL_TYPE \<or> pkt = PUBCOMP_TYPE
        then recv_puback env h pkt iterator len m
      else if pkt = SUBACK_TYPE then recv_suback env h iterator len m
      else if pkt = UNSUBACK_TYPE then recv_unsuback env h iterator len m
      else Some m)"

lemma no_operation_callback:
  assumes "clients m h = Some c" "fnOperationCallback c = None"
  shows "recv_connack env h it m = Some m" "recv_puback env h pkt it len m = Some m"
    "recv_suback env h it len m = Some m" "recv_unsuback env h it len m = Some m"
  using assms by (simp_all add: recv_connack_def recv_puback_def recv_suback_def recv_unsuback_def)

lemma dispatch_spec:
  assumes A: "attached m h u c" and P: "packet_at m p a body" and inv: "heap_inv m" and tot: "alloc_total m"
    and G: "\<forall>a \<ge> brk m. messages m a = None" and type: "type \<noteq> PINGRESP_TYPE"
    and S: "spec_packet W h u type flags body c (world m) = Some s"
  shows "ok (dispatch (env_of W) h type flags a (length body) m) (client_effect m h s)"
proof (cases "type = PUBLISH_TYPE")
  case True
  then show ?thesis
    using recv_publish_spec [OF A P inv tot G, of W flags s] S type_cases(1) by (simp add: dispatch_def spec_packet_def)
next
  case pub: False
  note c = attached_client [OF A]
  have stay: "ok (Some m) (client_effect m h (c, world m))"
    using client_step_put [OF inv, of h "(c, world m)"] c by (simp add: put_same)
  have putI: "ok (Some (put h s m)) (client_effect m h s)" for s using client_step_put [OF inv] by simp
  show ?thesis
  proof (cases "fnOperationCallback c")
    case None
    then have "s = (c, world m)" using S pub by (simp add: spec_packet_def)
    then show ?thesis using stay pub no_operation_callback [OF c None] by (simp add: dispatch_def Let_def)
  next
    case (Some f)
    then have cb: "fnOperationCallback c \<noteq> None" by simp
    note S = S [unfolded spec_packet_def if_not_P [OF pub] if_not_P [OF cb]]
    consider (connack) "type = CONNACK_TYPE"
      | (puback) "type \<in> {PUBACK_TYPE, PUBREC_TYPE, PUBREL_TYPE, PUBCOMP_TYPE}" "type \<noteq> CONNACK_TYPE"
      | (suback) "type = SUBACK_TYPE" | (unsuback) "type = UNSUBACK_TYPE"
      | (other) "type \<notin> {CONNACK_TYPE, PUBLISH_TYPE, PUBACK_TYPE, PUBREC_TYPE, PUBREL_TYPE, PUBCOMP_TYPE, SUBACK_TYPE, UNSUBACK_TYPE}"
      using pub by blast
    then show ?thesis
    proof cases
      case connack
      then obtain b code r where body: "body = b # code # r"
        and s: "s = (if code = CONNECTION_ACCEPTED then c\<lparr>clientConnected := True\<rparr> else c,
          spec_operation W (Connack (b = 1) code) c (world m))"
        using S by (auto split: list.splits)
      show ?thesis using recv_connack_spec [OF A P cb body, of W] connack putI [of s] s by (simp add: dispatch_def)
    next
      case puback
      have "s = spec_puback W h u type (read16 body) c (world m)"
        using S puback by (simp only: if_False if_True option.inject)
      then show ?thesis
        using recv_puback_spec [OF A P cb inv tot, of W type] puback pub by (simp add: dispatch_def)
    next
      case suback
      then have s: "2 \<le> length body" "s = (c, spec_operation W (Suback (read16 body) (drop 2 body)) c (world m))"
        using S type_cases(6) by (auto split: if_splits)
      show ?thesis
        using recv_suback_spec [OF A P cb inv tot s(1), of W] suback type_cases(6) by (simp add: dispatch_def s(2))
    next
      case unsuback
      then have s: "s = (c, spec_operation W (Unsuback (read16 body)) c (world m))"
        using S type_cases(7) by (auto split: if_splits)
      show ?thesis
        using recv_unsuback_spec [OF A P cb, of W] unsuback type_cases(7) putI [of s] by (simp add: dispatch_def s)
    next
      case other
      then have "s = (c, world m)" using S by simp
      then show ?thesis using stay other by (simp add: dispatch_def)
    qed
  qed
qed

text \<open>The data of a packet lies in the buffer \<open>hdr\<close>, or there is none.\<close>

definition data_at :: "'z smem_scheme \<Rightarrow> ptr \<Rightarrow> mbyte list option" where
  "data_at m hdr = (case hdr of None \<Rightarrow> None | Some x \<Rightarrow> buf_bytes m x)"

lemma raw_trace_ok:
  assumes c: "clients m h = Some c" and off: "\<not> rawBytesTrace c \<or> packet_at m p a body"
  shows "logIncomingRawTrace (Some h) pkt flags (Some (a, 0)) (of_nat (length body)) m = Some ()"
proof (cases "rawBytesTrace c")
  case True
  then have P: "packet_at m p a body" using off by simp
  have "unat (of_nat (length body) :: u32) = length body"
    using packet_at_length [OF P] by (intro unat_eq_of_nat [OF refl]) simp
  then show ?thesis
    using c True print_bytes_ok [OF packet_at_read [OF P, of 0 "length body"]] by (simp add: logIncomingRawTrace_def)
qed (use c in \<open>simp add: logIncomingRawTrace_def\<close>)

lemma recvCompleteCallback_spec:
  assumes A: "attached m h u c" and inv: "heap_inv m" and tot: "alloc_total m"
    and G: "\<forall>a \<ge> brk m. messages m a = None" and live: "\<And>x. hdr = Some x \<Longrightarrow> buf_bytes m x \<noteq> None"
    and S: "spec_delivery W h u (Delivery type flags (data_at m hdr)) (c, world m) = Some s"
  shows "ok (recvCompleteCallback (env_of W) (Some h) type flags hdr m) (client_effect m h s)"
proof -
  note c = attached_client [OF A]
  have stay: "ok (Some m) (client_effect m h (c, world m))"
    using client_step_put [OF inv, of h "(c, world m)"] c by (simp add: put_same)
  have ping: "ok (recv_pingresp (env_of W) h m) (client_effect m h s)" if "type = PINGRESP_TYPE"
    using S that recv_pingresp_spec [OF A, of W] client_step_put [OF inv] by (auto split: if_splits)
  show ?thesis
  proof (cases hdr)
    case None
    have log: "logIncomingRawTrace (Some h) type (word_of_int flags) None 0 m = Some ()"
      using c by (simp add: logIncomingRawTrace_def)
    show ?thesis
    proof (cases "type = PINGRESP_TYPE")
      case True
      then have "recvCompleteCallback (env_of W) (Some h) type flags hdr m = recv_pingresp (env_of W) h m"
        using None log type_cases(8) by (simp add: recvCompleteCallback_def BUFFER_length_def BUFFER_u_char_def)
      then show ?thesis using ping [OF True] by simp
    next
      case False
      then show ?thesis using S stay None by (simp add: recvCompleteCallback_def data_at_def body_of_def)
    qed
  next
    case (Some x)
    then obtain xs where xs: "buf_bytes m x = Some xs" using live by auto
    have D: "data_at m hdr = Some xs" using Some xs by (simp add: data_at_def)
    have len: "BUFFER_length hdr m = Some (of_nat (length xs))" using BUFFER_length_spec [OF xs] Some by simp
    have l0: "(of_nat (length xs) :: u32) = 0 \<longleftrightarrow> xs = []"
    proof -
      have "unat (of_nat (length xs) :: u32) = length xs" using buf_bytes_bound [OF xs] by (intro unat_eq_of_nat [OF refl]) simp
      then show ?thesis using unat_eq_0_u32 [of "of_nat (length xs)"] by simp
    qed
    show ?thesis
    proof (cases "xs = []")
      case True
      have "BUFFER_u_char hdr m = Some None" using BUFFER_u_char_spec [OF xs] True Some by (auto simp: ok_iff)
      then have run: "recvCompleteCallback (env_of W) (Some h) type flags hdr m =
          (if type = PINGRESP_TYPE then recv_pingresp (env_of W) h m else Some m)"
        using True c type_cases(8) len Some by (simp add: recvCompleteCallback_def logIncomingRawTrace_def)
      have "s = (c, world m)" if "type \<noteq> PINGRESP_TYPE" using S D True that by (simp add: body_of_def)
      then show ?thesis using ping stay run by simp
    next
      case ne: False
      obtain a where a: "BUFFER_u_char hdr m = Some (Some a)" "buf_at m x a"
        using BUFFER_u_char_spec [OF xs] ne Some by (auto simp: ok_iff)
      have run: "recvCompleteCallback (env_of W) (Some h) type flags hdr m = do {
          _ \<leftarrow> logIncomingRawTrace (Some h) type (word_of_int flags) (Some (a, 0)) (of_nat (length xs)) m;
          if type = PINGRESP_TYPE then recv_pingresp (env_of W) h m
          else dispatch (env_of W) h type flags a (length xs) m }"
      proof -
        have pos: "(of_nat (length xs) :: u32) > 0" using ne l0 word_gt_0_u32 [of "of_nat (length xs)"] by simp
        have ptr: "map_option (\<lambda>a. (a, 0)) (Some a) = Some (a, 0 :: nat)" by simp
        have sw: "(if type = CONNACK_TYPE then A else if type = PUBLISH_TYPE then B
            else if type = PUBACK_TYPE \<or> type = PUBREC_TYPE \<or> type = PUBREL_TYPE \<or> type = PUBCOMP_TYPE then C
            else if type = SUBACK_TYPE then D else if type = UNSUBACK_TYPE then E
            else if type = PINGRESP_TYPE then F else G) =
           (if type = PINGRESP_TYPE then F else
            if type = CONNACK_TYPE then A else if type = PUBLISH_TYPE then B
            else if type = PUBACK_TYPE \<or> type = PUBREC_TYPE \<or> type = PUBREL_TYPE \<or> type = PUBCOMP_TYPE then C
            else if type = SUBACK_TYPE then D else if type = UNSUBACK_TYPE then E else G)" for A B C D E F G :: "'a wmem option"
          using type_cases(8) by auto
        show ?thesis
          unfolding dispatch_def Let_def sw [symmetric]
          by (simp only: recvCompleteCallback_def len [unfolded Some] a(1) [unfolded Some] Let_def ptr pos Some simp_thms option.distinct if_True Option.bind.bind_lunit)
      qed
      show ?thesis
      proof (cases "type = PINGRESP_TYPE")
        case True
        then have "\<not> rawBytesTrace c \<or> (\<exists>body. xs = map Some body)"
          using S D by (auto split: if_splits simp: body_of_Some)
        then have "logIncomingRawTrace (Some h) type (word_of_int flags) (Some (a, 0)) (of_nat (length xs)) m = Some ()"
        proof
          assume "\<not> rawBytesTrace c"
          then show ?thesis using c by (simp add: logIncomingRawTrace_def)
        next
          assume "\<exists>body. xs = map Some body"
          then obtain body where "xs = map Some body" by blast
          then show ?thesis
            using raw_trace_ok [OF c, of x a body] xs a(2) by (simp add: packet_at_def)
        qed
        then show ?thesis using run True ping by simp
      next
        case False
        then obtain body where body: "xs = map Some body" using S D body_of_Some [of xs] by (auto simp: bind_eq_Some_conv)
        have P: "packet_at m x a body" using xs a(2) body by (simp add: packet_at_def)
        have "spec_packet W h u type flags body c (world m) = Some s"
        proof -
          have "body_of (Some xs) = Some body" "body \<noteq> []" using body_of_Some [of xs body] body ne by auto
          then show ?thesis using S False unfolding D by simp
        qed
        from dispatch_spec [OF A P inv tot G False this] show ?thesis
          using run False body raw_trace_ok [OF c, of x a body] P by simp
      qed
    qed
  qed
qed

lemma kept_updates [simp]: "kept c (c\<lparr>clientConnected := b\<rparr>)" "kept c (c\<lparr>timeSincePing := t\<rparr>)"
  by (simp_all add: kept_def)

lemma spec_packet_kept: "spec_packet W h u type flags body c w = Some s \<Longrightarrow> kept c (fst s)"
  by (auto simp: spec_packet_def spec_publish_def spec_puback_def Let_def
      split: if_splits option.splits publish_packet.splits list.splits)

lemma spec_delivery_kept: "spec_delivery W h u e (c, w) = Some s \<Longrightarrow> kept c (fst s)"
  by (cases e) (auto simp: bind_eq_Some_conv dest: spec_packet_kept split: if_splits)

section \<open>The client as a receiver\<close>

text \<open>
  The contract is about the part of the state above the decoders.  \<open>above w\<close> is a memory with
  the part \<open>w\<close> and nothing below it.
\<close>

definition above :: "'z \<Rightarrow> 'z cmem_scheme" where
  "above w = cmem.extend \<lparr>grants = (\<lambda>_ _. True), brk = 0, blocks = Map.empty, chars = Map.empty,
     buffers = Map.empty, strs = Map.empty, codecs = Map.empty\<rparr> w"

definition client_ready :: "'w wmem \<Rightarrow> bool" where
  "client_ready m \<longleftrightarrow> alloc_total m \<and> (\<forall>a \<ge> brk m. messages m a = None)"

definition may_deliver :: "'w world_ops \<Rightarrow> addr \<Rightarrow> u32 \<Rightarrow> call \<Rightarrow> 'w wmem \<Rightarrow> bool" where
  "may_deliver W h u e m \<longleftrightarrow> (\<exists>d c s. e = (recvCompleteCallback_fn, Some h, d) \<and> attached m h u c \<and>
     spec_delivery W h u d (c, world m) = Some s)"

definition delivers :: "'w world_ops \<Rightarrow> addr \<Rightarrow> u32 \<Rightarrow> call \<Rightarrow> 'w wmem \<Rightarrow> 'w wmem \<Rightarrow> bool" where
  "delivers W h u e m m' \<longleftrightarrow> (\<exists>c s. clients m h = Some c \<and>
     spec_delivery W h u (snd (snd e)) (c, world m) = Some s \<and> m' = put h s m)"

lemma above_simps [simp]:
  fixes m :: "'w wmem"
  shows "clients (above (cmem.more m)) = clients m" "tick_counters (above (cmem.more m)) = tick_counters m"
    "xios (above (cmem.more m)) = xios m" "world (above (cmem.more m)) = world m"
    "messages (above (cmem.more m)) = messages m"
  by (cases m; simp add: above_def cmem.defs)+

lemma above_attached [simp]: "attached (above (cmem.more m)) h u c \<longleftrightarrow> attached m h u c"
  by (simp add: attached_def)

lemma above_put:
  fixes m m' :: "'w wmem"
  assumes "clients m' = (clients m)(h \<mapsto> fst s)" "world m' = snd s" "messages m' = messages m"
    "tick_counters m' = tick_counters m" "xios m' = xios m"
  shows "above (cmem.more m') = put h s (above (cmem.more m))"
  using assms by (cases m, cases m') (simp add: above_def put_def cmem.defs)

lemma client_accepts:
  fixes m :: "'w wmem"
  assumes inv: "heap_inv m" and R: "client_ready m" and live: "\<And>x. hdr = Some x \<Longrightarrow> buf_bytes m x \<noteq> None"
    and e: "e = (f, ctx, Delivery type flags (case hdr of None \<Rightarrow> None | Some x \<Rightarrow> buf_bytes m x))"
    and P: "may_deliver W h u e (above (cmem.more m))"
  shows "ok (client_call (env_of W) f ctx type flags hdr m) (\<lambda>m'. heap_inv m' \<and> grants m' = grants m \<and> brk m \<le> brk m' \<and>
    foreign m' = foreign m \<and> str_rest m' = str_rest m \<and> codecs m' = codecs m \<and> buf_bytes m' = buf_bytes m \<and>
    client_ready m' \<and> delivers W h u e (above (cmem.more m)) (above (cmem.more m')))"
proof -
  obtain c s where c: "f = recvCompleteCallback_fn" "ctx = Some h" "attached m h u c"
    "spec_delivery W h u (Delivery type flags (data_at m hdr)) (c, world m) = Some s"
    using P e by (auto simp: may_deliver_def data_at_def)
  have tot: "alloc_total m" and G: "\<forall>a \<ge> brk m. messages m a = None" using R by (auto simp: client_ready_def)
  have "client_call (env_of W) f ctx type flags hdr m = recvCompleteCallback (env_of W) (Some h) type flags hdr m"
    using c by (simp add: client_call_def)
  moreover have "heap_inv m' \<and> grants m' = grants m \<and> brk m \<le> brk m' \<and> foreign m' = foreign m \<and> str_rest m' = str_rest m \<and> codecs m' = codecs m \<and>
      buf_bytes m' = buf_bytes m \<and> client_ready m' \<and> delivers W h u e (above (cmem.more m)) (above (cmem.more m'))"
    if S: "client_effect m h s m'" for m'
  proof -
    have "above (cmem.more m') = put h s (above (cmem.more m))"
      by (rule above_put) (use S in \<open>simp_all add: client_step_def\<close>)
    then have "delivers W h u e (above (cmem.more m)) (above (cmem.more m'))"
      using c e attached_client [OF c(3)] by (cases s) (auto simp: delivers_def data_at_def simp del: spec_delivery.simps)
    moreover have "client_ready m'"
      using S R by (auto simp: client_step_def client_ready_def alloc_total_def)
    ultimately show ?thesis using S by (simp add: client_step_def)
  qed
  ultimately show ?thesis using ok_mono [OF recvCompleteCallback_spec [OF c(3) inv tot G live c(4)]] by simp
qed

lemma client_ready_stable:
  fixes m m' :: "'w wmem"
  assumes "client_ready m" "grants m' = grants m" "brk m \<le> brk m'" "cmem.more m' = cmem.more m"
  shows "client_ready m'"
proof -
  have "messages m' = messages m" using assms(4) by (cases m, cases m') simp
  then show ?thesis using assms by (auto simp: client_ready_def alloc_total_def)
qed

interpretation client: receiver "client_call (env_of W)" client_ready
    "\<lambda>e w. may_deliver W h u e (above w)" "\<lambda>e w w'. delivers W h u e (above w) (above w')"
  for W :: "'w world_ops" and h u
  by unfold_locales (blast intro: client_accepts, blast intro: client_ready_stable)

section \<open>Received bytes\<close>

lemma deliveries_safe:
  "attached (above w) h u c \<Longrightarrow> spec_deliveries W h u es (c, world (above w)) = Some s \<Longrightarrow>
   call_safe (\<lambda>e w. may_deliver W h u e (above w)) (\<lambda>e w w'. delivers W h u e (above w) (above w'))
     (calls (Some recvCompleteCallback_fn) (Some h) es) w"
proof (induction es arbitrary: w c)
  case (Cons e es)
  obtain c1 w1 where e: "spec_delivery W h u e (c, world (above w)) = Some (c1, w1)"
    and es: "spec_deliveries W h u es (c1, w1) = Some s" using Cons.prems(2) by (auto split: Option.bind_splits)
  have "call_safe (\<lambda>e w. may_deliver W h u e (above w)) (\<lambda>e w w'. delivers W h u e (above w) (above w'))
      (calls (Some recvCompleteCallback_fn) (Some h) es) v"
    if T: "delivers W h u (recvCompleteCallback_fn, Some h, e) (above w) (above v)" for v
  proof -
    have v: "above v = put h (c1, w1) (above w)"
      using T e attached_client [OF Cons.prems(1)] by (auto simp: delivers_def)
    show ?thesis
      by (rule Cons.IH [of v c1])
        (use v es attached_put [OF Cons.prems(1), of "(c1, w1)"] spec_delivery_kept [OF e] in simp_all)
  qed
  then show ?case using Cons.prems(1) e by (auto simp: calls_def may_deliver_def)
qed (simp add: calls_def)

lemma deliveries_run:
  "call_run (\<lambda>e w w'. delivers W h u e (above w) (above w')) (calls (Some recvCompleteCallback_fn) (Some h) es) w w' \<Longrightarrow>
   clients (above w) h = Some c \<Longrightarrow> spec_deliveries W h u es (c, world (above w)) = Some s \<Longrightarrow>
   above w' = put h s (above w)"
proof (induction es arbitrary: w c)
  case Nil
  then show ?case using put_same [of "above w" h c] by (simp add: calls_def)
next
  case (Cons e es)
  obtain c1 w1 where e: "spec_delivery W h u e (c, world (above w)) = Some (c1, w1)"
    and es: "spec_deliveries W h u es (c1, w1) = Some s" using Cons.prems(3) by (auto split: Option.bind_splits)
  obtain v where v: "delivers W h u (recvCompleteCallback_fn, Some h, e) (above w) (above v)"
    and r: "call_run (\<lambda>e w w'. delivers W h u e (above w) (above w')) (calls (Some recvCompleteCallback_fn) (Some h) es) v w'"
    using Cons.prems(1) by (auto simp: calls_def)
  have v: "above v = put h (c1, w1) (above w)" using v e Cons.prems(2) by (auto simp: delivers_def)
  show ?case using Cons.IH [OF r, of c1] v es by simp
qed

lemma spec_deliveries_kept: "spec_deliveries W h u es (c, w) = Some s \<Longrightarrow> kept c (fst s)"
proof (induction es arbitrary: c w)
  case (Cons e es)
  then obtain c1 w1 where "spec_delivery W h u e (c, w) = Some (c1, w1)" "spec_deliveries W h u es (c1, w1) = Some s"
    by (auto split: Option.bind_splits)
  then show ?case using Cons.IH spec_delivery_kept kept_trans by fastforce
qed auto

lemma other_bufs_put: "other_bufs cd (put h s m) = other_bufs cd m"
  unfolding other_bufs_def put_simps put_views by (rule refl)

lemma codec_at_put: "codec_at (put h s m) cd f ctx d = codec_at m cd f ctx d"
  unfolding codec_at_def represents_def put_simps put_views by (rule refl)

lemma onBytesReceived_spec:
  fixes m :: "'w wmem"
  assumes A: "attached m h u c" and inv: "heap_inv m" and R: "client_ready m" and cd: "codec_handle c = Some cd"
    and C: "codec_at m cd (Some recvCompleteCallback_fn) (Some h) d"
    and bs: "ext_bytes m q (unat n) = Some (map Some bs)" "n \<noteq> 0"
    and D: "decoder_run d bs = Some (d', es, good)" and S: "spec_deliveries W h u es (c, world m) = Some s"
  defines "s' \<equiv> if good then s else spec_error W h MQTT_CLIENT_PARSE_ERROR (fst s) (snd s)"
  shows "ok (onBytesReceived (env_of W) (Some h) (Some q) n m) (\<lambda>m'. receiving cd m m' \<and> client_ready m' \<and>
    codec_at m' cd (Some recvCompleteCallback_fn) (Some h) d' \<and> attached m' h u (fst s') \<and> world m' = snd s' \<and>
    clients m' = (clients m)(h \<mapsto> fst s'))"
proof -
  have run: "onBytesReceived (env_of W) (Some h) (Some q) n m =
      mqtt_codec_bytesReceived (client_call (env_of W)) (Some cd) (Some q) n m \<bind>
        (\<lambda>(r, m). if r \<noteq> 0 then set_error_callback (env_of W) h MQTT_CLIENT_PARSE_ERROR m else Some m)"
    using attached_client [OF A] cd by (simp add: onBytesReceived_def)
  have safe: "call_safe (\<lambda>e w. may_deliver W h u e (above w)) (\<lambda>e w w'. delivers W h u e (above w) (above w'))
      (calls (Some recvCompleteCallback_fn) (Some h) es) (cmem.more m)"
    by (rule deliveries_safe [of _ _ _ c _ _ s]) (use A S in simp_all)
  show ?thesis
    unfolding run
  proof (rule ok_bind2I [OF client.bytesReceived_handled [OF inv R safe C bs D]], goal_cases)
    case (1 r m1)
    have tot: "alloc_total m" using R by (simp add: client_ready_def)
    have H: "receiving cd m m1" "client_ready m1" "codec_at m1 cd (Some recvCompleteCallback_fn) (Some h) d'" "r = 0 \<longleftrightarrow> good"
      and T: "call_run (\<lambda>e w w'. delivers W h u e (above w) (above w'))
        (calls (Some recvCompleteCallback_fn) (Some h) es) (cmem.more m) (cmem.more m1)"
      using 1 tot unfolding client.handled_def by auto
    have eq: "above (cmem.more m1) = put h s (above (cmem.more m))"
      using deliveries_run [OF T, of c s] attached_client [OF A] S by simp
    have A1: "attached m1 h u (fst s)"
      using attached_put [of "above (cmem.more m)" h u c s] A spec_deliveries_kept [OF S] eq [symmetric] by simp
    have m1: "world m1 = snd s" "clients m1 = (clients m)(h \<mapsto> fst s)"
      using arg_cong [OF eq, of world] arg_cong [OF eq, of clients] by simp_all
    have R1: "receiving cd m (put h s' m1)" "client_ready (put h s' m1)"
      using H by (simp_all add: receiving_def client_ready_def alloc_total_def other_bufs_put)
    have C1: "codec_at (put h s' m1) cd (Some recvCompleteCallback_fn) (Some h) d'"
      using H(3) by (simp add: codec_at_put)
    show ?case
    proof (cases good)
      case True
      then show ?thesis using H A1 m1 by (simp add: s'_def)
    next
      case False
      then show ?thesis
        using set_error_callback_eq [OF A1, of W] H(4) R1 C1 attached_put [OF A1, of s'] m1
        by (simp add: s'_def split: if_splits)
    qed
  qed
qed

end
