(* ===== verification/Client_Requests.thy ===== *)
theory Client_Requests
  imports Client_Stream
begin

text \<open>
  The requests of the user: publish, subscribe, unsubscribe and disconnect build one packet,
  send it and delete it.
\<close>

section \<open>A packet that is sent\<close>

lemma send_request_spec:
  fixes m :: "'w wmem" and W :: "'w world_ops"
  assumes A: "attached m h u c" and inv: "heap_inv m" and B: "buf_bytes m p = Some (map Some bs)" and ne: "bs \<noteq> []"
  shows "ok (send_request (env_of W) h type (Some p) None m) (\<lambda>(r, m').
    r = fst (spec_request W h u type bs c (world m)) \<and>
    client_step m ((buf_bytes m)(p := None)) h (snd (spec_request W h u type bs c (world m))) m')"
proof -
  let ?c = "c\<lparr>packetState := type\<rparr>" and ?S = "spec_request W h u type bs c (world m)"
  let ?m = "put h (?c, world m) m"
  have A1: "attached ?m h u ?c" using attached_put [OF A, of "(?c, world m)"] by (simp add: kept_def)
  obtain m1 where m1: "send_buffer (env_of W) h (Some p) ?m = Some (fst ?S, m1)"
    and del: "ok (BUFFER_delete (Some p) m1) (client_step ?m ((buf_bytes m)(p := None)) h (snd ?S))"
    using send_delete [OF A1 _ _ ne, of p W] inv B by (auto simp: spec_request_def)
  have r: "fst ?S = FAILURE \<or> fst ?S = 0" by (simp add: spec_request_def spec_send_def split_def Let_def)
  obtain m2 where m2: "BUFFER_delete (Some p) m1 = Some m2" "client_step ?m ((buf_bytes m)(p := None)) h (snd ?S) m2"
    using del by (auto simp: ok_iff)
  have c1: "\<exists>c. clients m1 h = Some c" if "fst ?S = 0"
    using m1 send_buffer_eq [OF A1 _ ne, of p W] B by (auto simp: split_def Let_def)
  have log: "log_outgoing_trace (Some h) None m1 = Some ()" if "fst ?S = 0"
    using c1 [OF that] by (auto simp: log_outgoing_trace_def print_string_def)
  have "send_request (env_of W) h type (Some p) None m = Some (fst ?S, m2)"
    using attached_client [OF A] m1 m2(1) r log
    by (auto simp: send_request_def upd_client_put delete_trace_def FAILURE_def)
  then show ?thesis using m2(2) client_step_trans [OF client_step_put [OF inv]] by simp
qed

text \<open>A builder and the sending of its packet; a packet that is not valid is not sent.\<close>

lemma request_spec:
  assumes A: "attached m h u c" and inv: "heap_inv m" and tot: "alloc_total m"
    and B: "ok (build m) (built None m bs valid)" and ne: "bs \<noteq> []"
  shows "ok (build m \<bind> (\<lambda>(p, m). send_request (env_of W) h type p None m)) (\<lambda>(r, m').
    if valid then r = fst (spec_request W h u type bs c (world m)) \<and>
      client_effect m h (snd (spec_request W h u type bs c (world m))) m'
    else r = FAILURE \<and> client_effect m h (c, world m) m')"
proof (rule ok_bind2I [OF B], goal_cases)
  case (1 r m1)
  note c = attached_client [OF A]
  show ?case
  proof (cases r)
    case None
    then have "\<not> valid" "client_effect m h (c, world m) m1"
      using 1 tot enc_effect_step [OF _ c] by (auto simp: built_def)
    then show ?thesis using None by (simp add: send_request_def delete_trace_def)
  next
    case (Some p)
    then have v: valid and p: "buf_bytes m p = None"
      and S: "client_step m ((buf_bytes m)(p \<mapsto> map Some bs)) h (c, world m) m1"
      using 1 enc_effect_step [OF _ c] by (auto simp: built_def)
    note D = client_stepD [OF S]
    have A1: "attached m1 h u c" using attached_step [OF A S] by simp
    have same: "(buf_bytes m1)(p := None) = buf_bytes m" using D(2) p by (simp add: fun_eq_iff)
    have "ok (send_request (env_of W) h type (Some p) None m1) (\<lambda>(r, m').
      r = fst (spec_request W h u type bs c (world m)) \<and>
      client_step m1 (buf_bytes m) h (snd (spec_request W h u type bs c (world m))) m')"
      using send_request_spec [OF A1 D(1) _ ne, of p W type] D(2,4) same by simp
    then show ?thesis using v Some by (auto simp: ok_iff dest: client_step_trans [OF S])
  qed
qed

lemma no_trace: "clients m h = Some c \<Longrightarrow> \<not> logTrace c \<Longrightarrow> construct_trace_log_handle h m = Some (None, m)"
  by (simp add: construct_trace_log_handle_def)

lemma packet_ne: "packet type flags body \<noteq> []"
  by (simp add: packet_def fixed_header_def)

section \<open>Publish\<close>

text \<open>The message \<open>g\<close> reads as \<open>v\<close>, with the payload \<open>bs\<close>, from arrays of the user or its own.\<close>

definition message_source :: "'z gmem_scheme \<Rightarrow> addr \<Rightarrow> message_content \<Rightarrow> u8 list \<Rightarrow> bool" where
  "message_source m g v bs \<longleftrightarrow> message_view m g = Some v \<and> v_payload v = map Some bs \<and>
     (\<exists>p pl. mqttmessage_getTopicName (Some g) m = Some (Some p) \<and> mqttmessage_getApplicationMsg (Some g) m = Some (Some pl) \<and>
       publish_source p (v_topic v) (message pl) (payload_length pl) bs m)"

text \<open>The PUBLISH packet of a message.\<close>

definition message_packet :: "message_content \<Rightarrow> u8 list \<Rightarrow> u8 list" where
  "message_packet v bs = packet PUBLISH_TYPE (publish_flags (v_qos v) (v_dup v) (v_retained v))
     (publish_header (v_topic v) (v_qos v) (v_id v) @ bs)"

lemma client_publish_spec:
  fixes m :: "'w wmem" and W :: "'w world_ops"
  assumes A: "attached m h u c" and inv: "heap_inv m" and tot: "alloc_total m" and M: "message_source m g v bs"
  defines "S \<equiv> spec_request W h u PUBLISH_TYPE (message_packet v bs) c (world m)"
  shows "ok (mqtt_client_publish (env_of W) (Some h) (Some g) m) (\<lambda>(r, m').
    if length (v_topic v) \<le> 65535 then r = fst S \<and> client_effect m h (snd S) m'
    else r = FAILURE \<and> client_effect m h (c, world m) m')"
proof -
  have c: "clients m h = Some c" "\<not> logTrace c" using A by (auto simp: attached_def)
  obtain p pl where acc: "mqttmessage_getTopicName (Some g) m = Some (Some p)"
    "mqttmessage_getApplicationMsg (Some g) m = Some (Some pl)"
    and src: "publish_source p (v_topic v) (message pl) (payload_length pl) bs m"
    using M by (auto simp: message_source_def)
  have "message_view m g = Some v" using M by (simp add: message_source_def)
  then have view: "mqttmessage_getQosType (Some g) m = Some (v_qos v)" "mqttmessage_getPacketId (Some g) m = Some (v_id v)"
    "mqttmessage_getIsDuplicateMsg (Some g) m = Some (v_dup v)" "mqttmessage_getIsRetained (Some g) m = Some (v_retained v)"
    by (auto simp: message_view_def bind_eq_Some_conv)
  have B: "ok (mqtt_codec_publish (v_qos v) (v_dup v) (v_retained v) (v_id v) (Some p) (message pl) (payload_length pl) None m)
      (built None m (message_packet v bs) (length (v_topic v) \<le> 65535))"
    using publish.builds [OF inv log_ok_NULL src] by (simp add: message_packet_def)
  have run: "mqtt_client_publish (env_of W) (Some h) (Some g) m =
      mqtt_codec_publish (v_qos v) (v_dup v) (v_retained v) (v_id v) (Some p) (message pl) (payload_length pl) None m \<bind>
        (\<lambda>(p, m). send_request (env_of W) h PUBLISH_TYPE p None m)"
    using acc view no_trace [OF c] by (simp add: mqtt_client_publish_def)
  show ?thesis
    unfolding run S_def
    by (rule request_spec [where build = "\<lambda>m. mqtt_codec_publish (v_qos v) (v_dup v) (v_retained v) (v_id v) (Some p)
        (message pl) (payload_length pl) None m", OF A inv tot B]) (simp add: message_packet_def packet_ne)
qed

section \<open>Subscribe and unsubscribe\<close>

lemma client_subscribe_spec:
  fixes m :: "'w wmem" and W :: "'w world_ops"
  assumes A: "attached m h u c" and inv: "heap_inv m" and tot: "alloc_total m" and M: "subscribe_source items ss m"
    and pid: "pid \<noteq> 0"
  defines "S \<equiv> spec_request W h u SUBSCRIBE_TYPE (packet SUBSCRIBE_TYPE SUBSCRIBE_FIXED_HEADER_FLAG
     (be16 pid @ subscribe_payload (zip ss (map qosReturn items)))) c (world m)"
  shows "ok (mqtt_client_subscribe (env_of W) (Some h) pid (Some items) (of_nat (length items)) m) (\<lambda>(r, m').
    if topics_fit ss then r = fst S \<and> client_effect m h (snd S) m'
    else r = FAILURE \<and> client_effect m h (c, world m) m')"
proof -
  have c: "clients m h = Some c" "\<not> logTrace c" using A by (auto simp: attached_def)
  have n: "(of_nat (length items) :: u32) \<noteq> 0"
    using M by (simp add: subscribe_source_def unat_eq_of_nat [OF refl] flip: unat_eq_0_u32)
  note B = subscribe.builds [OF inv log_ok_NULL M, of pid]
  have run: "mqtt_client_subscribe (env_of W) (Some h) pid (Some items) (of_nat (length items)) m =
      mqtt_codec_subscribe pid (Some items) (of_nat (length items)) None m \<bind>
        (\<lambda>(p, m). send_request (env_of W) h SUBSCRIBE_TYPE p None m)"
    using no_trace [OF c] pid n by (simp add: mqtt_client_subscribe_def)
  show ?thesis
    unfolding run S_def
    by (rule request_spec [where build = "mqtt_codec_subscribe pid (Some items) (of_nat (length items)) None",
        OF A inv tot B packet_ne])
qed

lemma client_unsubscribe_spec:
  fixes m :: "'w wmem" and W :: "'w world_ops"
  assumes A: "attached m h u c" and inv: "heap_inv m" and tot: "alloc_total m" and M: "unsubscribe_source items ss m"
    and pid: "pid \<noteq> 0"
  defines "S \<equiv> spec_request W h u UNSUBSCRIBE_TYPE (packet UNSUBSCRIBE_TYPE UNSUBSCRIBE_FIXED_HEADER_FLAG
     (be16 pid @ unsubscribe_payload ss)) c (world m)"
  shows "ok (mqtt_client_unsubscribe (env_of W) (Some h) pid (Some items) (of_nat (length items)) m) (\<lambda>(r, m').
    if topics_fit ss then r = fst S \<and> client_effect m h (snd S) m'
    else r = FAILURE \<and> client_effect m h (c, world m) m')"
proof -
  have c: "clients m h = Some c" "\<not> logTrace c" using A by (auto simp: attached_def)
  have n: "(of_nat (length items) :: u32) \<noteq> 0"
    using M by (simp add: unsubscribe_source_def unat_eq_of_nat [OF refl] flip: unat_eq_0_u32)
  note B = unsubscribe.builds [OF inv log_ok_NULL M, of pid]
  have run: "mqtt_client_unsubscribe (env_of W) (Some h) pid (Some items) (of_nat (length items)) m =
      mqtt_codec_unsubscribe pid (Some items) (of_nat (length items)) None m \<bind>
        (\<lambda>(p, m). send_request (env_of W) h UNSUBSCRIBE_TYPE p None m)"
    using no_trace [OF c] pid n by (simp add: mqtt_client_unsubscribe_def)
  show ?thesis
    unfolding run S_def
    by (rule request_spec [where build = "mqtt_codec_unsubscribe pid (Some items) (of_nat (length items)) None",
        OF A inv tot B packet_ne])
qed

end
