(* ===== verification/Client_Options.thy ===== *)
theory Client_Options
  imports Client_Requests
begin

text \<open>
  The client keeps its own copies of the strings of the options: \<open>cloneMqttOptions\<close> makes them
  when the client connects, \<open>clear_mqtt_options\<close> frees them.
\<close>

section \<open>The strings of the options\<close>

fun array_id :: "char_ptr option \<Rightarrow> addr option" where
  "array_id (Some (Chars a i)) = (if i = 0 then Some a else None)"
| "array_id _ = None"

definition strings_of :: "MQTT_CLIENT_OPTIONS \<Rightarrow> char_ptr option list" where
  "strings_of o1 = [clientId o1, willTopic o1, willMessage o1, username o1, password o1]"

definition no_strings :: "MQTT_CLIENT_OPTIONS \<Rightarrow> MQTT_CLIENT_OPTIONS" where
  "no_strings o1 = o1\<lparr>clientId := None, willTopic := None, willMessage := None, username := None, password := None\<rparr>"

text \<open>Each pointer is null or the start of an array in \<open>S\<close>, and no array occurs twice.\<close>

definition owns :: "(addr \<rightharpoonup> mbyte list) \<Rightarrow> char_ptr option list \<Rightarrow> bool" where
  "owns S ps \<longleftrightarrow> (\<forall>p \<in> set ps. p \<noteq> None \<longrightarrow> (\<exists>a. array_id p = Some a \<and> S a \<noteq> None)) \<and>
     distinct (List.map_filter array_id ps)"

definition without :: "char_ptr option list \<Rightarrow> (addr \<rightharpoonup> mbyte list) \<Rightarrow> addr \<rightharpoonup> mbyte list" where
  "without ps S a = (if a \<in> set (List.map_filter array_id ps) then None else S a)"

lemma without_simps [simp]:
  "without [] S = S" "without (None # ps) S = without ps S"
  by (simp_all add: without_def fun_eq_iff List.map_filter_simps)

lemma without_Some: "array_id p = Some a \<Longrightarrow> without (p # ps) S = without ps (S(a := None))"
  by (simp add: without_def fun_eq_iff List.map_filter_simps)

lemma array_idD: "array_id p = Some a \<Longrightarrow> p = Some (Chars a 0)"
  by (cases p rule: array_id.cases) (auto split: if_splits)

lemma in_map_filter: "p \<in> set ps \<Longrightarrow> array_id p = Some a \<Longrightarrow> a \<in> set (List.map_filter array_id ps)"
  by (induction ps) (auto simp: List.map_filter_simps split: option.split)

lemma owns_Cons:
  assumes "owns S (p # ps)"
  shows "p = None \<and> owns S ps \<or> (\<exists>a x. p = Some (Chars a 0) \<and> array_id p = Some a \<and> S a = Some x \<and> owns (S(a := None)) ps)"
proof (cases "array_id p")
  case None
  then show ?thesis using assms by (auto simp: owns_def List.map_filter_simps)
next
  case (Some a)
  then have "a \<notin> set (List.map_filter array_id ps)" using assms by (simp add: owns_def List.map_filter_simps)
  then have "array_id q \<noteq> Some a" if "q \<in> set ps" for q using in_map_filter [OF that, of a] by auto
  then show ?thesis
    using assms Some array_idD [OF Some] by (fastforce simp: owns_def List.map_filter_simps)
qed

lemma ext_string_put: "ext_string (put h s m) p = ext_string m p"
  by (simp only: ext_string_def put_views)

lemma opt_is_put: "opt_is (put h s m) p x = opt_is m p x"
  by (simp only: opt_is_def ext_string_put)

section \<open>Clearing\<close>

lemma clear_string_held:
  assumes H: "holding m F S G h (c, w) m1" and own: "owns S (get (mqttOptions c) # ps)"
    and none: "get (mqttOptions c) = None \<Longrightarrow> upd (\<lambda>_. None) (mqttOptions c) = mqttOptions c"
  shows "\<exists>m2. clear_string h get upd m1 = Some m2 \<and>
    owns (without [get (mqttOptions c)] S) ps \<and>
    holding m F (without [get (mqttOptions c)] S) G h (c\<lparr>mqttOptions := upd (\<lambda>_. None) (mqttOptions c)\<rparr>, w) m2"
proof -
  have c: "clients m1 h = Some c" using H by (simp add: holding_def)
  show ?thesis
    using owns_Cons [OF own]
  proof (elim disjE exE conjE)
    assume "get (mqttOptions c) = None" "owns S ps"
    then show ?thesis using c H none by (simp add: clear_string_def)
  next
    fix a x
    assume p: "get (mqttOptions c) = Some (Chars a 0)" "array_id (get (mqttOptions c)) = Some a"
      and S: "S a = Some x" "owns (S(a := None)) ps"
    obtain m2 where m2: "cfree (Some a) m1 = Some m2" "holding m F (S(a := None)) G h (c, w) m2"
      using holding_cfree [OF H S(1)] by blast
    have c2: "clients m2 h = Some c" using m2 by (simp add: holding_def)
    let ?c = "c\<lparr>mqttOptions := upd (\<lambda>_. None) (mqttOptions c)\<rparr>"
    have "holding m F (S(a := None)) G h (?c, w) (put h (?c, w) m2)"
      using m2(2) by (simp add: holding_def)
    moreover have "world m2 = w" using m2(2) by (simp add: holding_def)
    ultimately show ?thesis
      using c p S m2(1) c2 by (simp add: clear_string_def without_Some upd_client_put)
  qed
qed

lemma clear_options_held:
  assumes H: "holding m F S G h (c, w) m1" and own: "owns S (strings_of (mqttOptions c))"
  shows "\<exists>m2. clear_mqtt_options h m1 = Some m2 \<and>
    holding m F (without (strings_of (mqttOptions c)) S) G h (c\<lparr>mqttOptions := no_strings (mqttOptions c)\<rparr>, w) m2"
proof -
  let ?o = "mqttOptions c"
  obtain m2 where 2: "clear_string h clientId clientId_update m1 = Some m2"
    "owns (without [clientId ?o] S) [willTopic ?o, willMessage ?o, username ?o, password ?o]"
    "holding m F (without [clientId ?o] S) G h (c\<lparr>mqttOptions := ?o\<lparr>clientId := None\<rparr>\<rparr>, w) m2"
    using clear_string_held [OF H, of clientId _ clientId_update] own by (auto simp: strings_of_def)
  obtain m3 where 3: "clear_string h willTopic willTopic_update m2 = Some m3"
    "owns (without [willTopic ?o] (without [clientId ?o] S)) [willMessage ?o, username ?o, password ?o]"
    "holding m F (without [willTopic ?o] (without [clientId ?o] S)) G h
      (c\<lparr>mqttOptions := ?o\<lparr>clientId := None, willTopic := None\<rparr>\<rparr>, w) m3"
    using clear_string_held [OF 2(3), of willTopic _ willTopic_update] 2(2) by auto
  obtain m4 where 4: "clear_string h willMessage willMessage_update m3 = Some m4"
    "owns (without [willMessage ?o] (without [willTopic ?o] (without [clientId ?o] S))) [username ?o, password ?o]"
    "holding m F (without [willMessage ?o] (without [willTopic ?o] (without [clientId ?o] S))) G h
      (c\<lparr>mqttOptions := ?o\<lparr>clientId := None, willTopic := None, willMessage := None\<rparr>\<rparr>, w) m4"
    using clear_string_held [OF 3(3), of willMessage _ willMessage_update] 3(2) by auto
  obtain m5 where 5: "clear_string h username username_update m4 = Some m5"
    "owns (without [username ?o] (without [willMessage ?o] (without [willTopic ?o] (without [clientId ?o] S)))) [password ?o]"
    "holding m F (without [username ?o] (without [willMessage ?o] (without [willTopic ?o] (without [clientId ?o] S)))) G h
      (c\<lparr>mqttOptions := ?o\<lparr>clientId := None, willTopic := None, willMessage := None, username := None\<rparr>\<rparr>, w) m5"
    using clear_string_held [OF 4(3), of username _ username_update] 4(2) by auto
  obtain m6 where 6: "clear_string h password password_update m5 = Some m6"
    "holding m F (without [password ?o] (without [username ?o] (without [willMessage ?o] (without [willTopic ?o]
        (without [clientId ?o] S))))) G h (c\<lparr>mqttOptions := no_strings ?o\<rparr>, w) m6"
    using clear_string_held [OF 5(3), of password "[]" password_update] 5(2) by (auto simp: no_strings_def)
  have app: "without ps (without qs S) = without (qs @ ps) S" for ps qs S
    by (simp add: without_def fun_eq_iff List.map_filter_def)
  have "holding m F (without (strings_of ?o) S) G h (c\<lparr>mqttOptions := no_strings ?o\<rparr>, w) m6"
    using 6(2) by (simp only: app strings_of_def append.simps)
  then show ?thesis using 2(1) 3(1) 4(1) 5(1) 6(1) by (simp add: clear_mqtt_options_def)
qed

lemma without_snoc:
  "without (ps @ [None]) S = without ps S"
  "S a = None \<Longrightarrow> without (ps @ [Some (Chars a 0)]) (S(a \<mapsto> x)) = without ps S"
  by (auto simp: without_def fun_eq_iff List.map_filter_def)

section \<open>Cloning\<close>

text \<open>\<open>p'\<close> is null like \<open>p\<close>, or points to a copy of \<open>s\<close> in \<open>S\<close>.\<close>

definition copied :: "(addr \<rightharpoonup> mbyte list) \<Rightarrow> char_ptr option \<Rightarrow> char_ptr option \<Rightarrow> cstring \<Rightarrow> bool" where
  "copied S p p' s \<longleftrightarrow> p = None \<and> p' = None \<or> p \<noteq> None \<and> (\<exists>a. p' = Some (Chars a 0) \<and> S a = Some (cstr s))"

lemma map_leD: "S \<subseteq>\<^sub>m S' \<Longrightarrow> S a = Some x \<Longrightarrow> S' a = Some x"
  unfolding map_le_def dom_def by simp

lemma copied_mono:
  assumes "copied S p p' s" "S \<subseteq>\<^sub>m S'"
  shows "copied S' p p' s"
  using assms(1) map_leD [OF assms(2), of _ "cstr s"] by (auto simp: copied_def)

lemma owns_snoc:
  "owns S ps \<Longrightarrow> owns S (ps @ [None])"
  "owns S ps \<Longrightarrow> S a = None \<Longrightarrow> owns (S(a \<mapsto> x)) (ps @ [Some (Chars a 0)])"
proof -
  show "owns S ps \<Longrightarrow> owns S (ps @ [None])" by (auto simp: owns_def List.map_filter_def)
  assume own: "owns S ps" and a: "S a = None"
  have "a \<notin> set (List.map_filter array_id ps)"
  proof
    assume "a \<in> set (List.map_filter array_id ps)"
    then obtain p where p: "p \<in> set ps" "array_id p = Some a" by (auto simp: List.map_filter_def)
    from p(2) have "p \<noteq> None" by (auto dest: array_idD)
    then show False using own a p unfolding owns_def by fastforce
  qed
  moreover have "\<exists>b. array_id p = Some b \<and> (S(a \<mapsto> x)) b \<noteq> None" if "p \<in> set ps" "p \<noteq> None" for p
    using own that unfolding owns_def by (metis fun_upd_apply option.distinct(1))
  ultimately show "owns (S(a \<mapsto> x)) (ps @ [Some (Chars a 0)])"
    using own by (fastforce simp: owns_def List.map_filter_def)
qed

lemma clone_string_held:
  assumes H: "holding m F S G h (c, w) m1" and tot: "alloc_total m" and keep: "str_rest m \<subseteq>\<^sub>m S"
    and none: "get (mqttOptions c) = None" "upd (\<lambda>_. None) (mqttOptions c) = mqttOptions c" and own: "owns S ps"
    and src: "\<And>q. get opts = Some q \<Longrightarrow> ext_string m q = Some s" and len: "length s < 2 ^ 28"
  shows "\<exists>m2 S' p. clone_string h get upd opts 0 m1 = Some (0, m2) \<and> S \<subseteq>\<^sub>m S' \<and> owns S' (ps @ [p]) \<and>
    without (ps @ [p]) S' = without ps S \<and>
    copied S' (get opts) p s \<and> holding m F S' G h (c\<lparr>mqttOptions := upd (\<lambda>_. p) (mqttOptions c)\<rparr>, w) m2"
proof (cases "get opts")
  case None
  then show ?thesis
    using H none owns_snoc(1) [OF own] by (intro exI [of _ m1] exI [of _ S] exI [of _ None]) (simp add: clone_string_def copied_def without_snoc)
next
  case (Some q)
  have inv: "heap_inv m1" and S: "str_rest m1 = S" and c: "clients m1 h = Some c" and w: "world m1 = w"
    and g: "grants m1 = grants m"
    using H by (auto simp: holding_def)
  have "ext_string m1 q = Some s"
    using src [OF Some] keep S
    by (auto simp: ext_string_def map_le_def dom_def split: char_ptr.splits option.splits if_splits)
  then have str: "c_string q m1 = Some s" by (rule ext_stringD)
  have wf: "wf_mem m1" using inv by (simp add: heap_inv_def str_inv_def)
  let ?a = "brk m1"
  let ?m2 = "m1\<lparr>brk := Suc ?a, chars := (chars m1)(?a \<mapsto> cstr s)\<rparr>"
  have "Suc (length s) \<le> 2 ^ 28" using len by simp
  then have "length s < 2 ^ 32 - 1" by simp
  then have copy: "mallocAndStrcpy_s (Some None) (Some q) m1 = Some ((0, Some (Some ?a)), ?m2)"
    using mallocAndStrcpy_spec [OF str _ wf] tot g by (simp add: alloc_total_def)
  have H2: "holding m F (S(?a \<mapsto> cstr s)) G h (c, w) ?m2" by (rule holding_chars [OF H]) simp_all
  let ?c = "c\<lparr>mqttOptions := upd (\<lambda>_. Some (Chars ?a 0)) (mqttOptions c)\<rparr>"
  have fresh: "S ?a = None" using fresh_rest(1) [OF inv order.refl] S by simp
  have "clone_string h get upd opts 0 m1 = Some (0, put h (?c, w) ?m2)"
    using Some copy c none w by (simp add: clone_string_def upd_client_put)
  moreover have "holding m F (S(?a \<mapsto> cstr s)) G h (?c, w) (put h (?c, w) ?m2)" using H2 by (simp add: holding_def)
  moreover have "S \<subseteq>\<^sub>m S(?a \<mapsto> cstr s)" using fresh by (simp add: map_le_def dom_def)
  moreover have "copied (S(?a \<mapsto> cstr s)) (get opts) (Some (Chars ?a 0)) s" using Some by (simp add: copied_def)
  ultimately show ?thesis using owns_snoc(2) [OF own fresh] without_snoc(2) [of S, OF fresh] by blast
qed

lemma copied_is: "opt_is m p s \<Longrightarrow> copied (str_rest m') p p' s \<Longrightarrow> opt_is m' p' s"
proof (cases p)
  case (Some q)
  assume "opt_is m p s" "copied (str_rest m') p p' s"
  then obtain a where "s \<noteq> []" "ext_string m q = Some s" "p' = Some (Chars a 0)" "str_rest m' a = Some (cstr s)"
    using Some by (auto simp: opt_is_def copied_def)
  then show ?thesis using ext_stringD(2) [of m q s] by (simp add: opt_is_def ext_string_def)
qed (simp add: opt_is_def copied_def)

lemma clone_options_held:
  assumes H: "holding m F (str_rest m) G h (c, w) m1" and tot: "alloc_total m"
    and none: "no_strings (mqttOptions c) = mqttOptions c" and O: "options_are m opts cs"
  shows "\<exists>m2 S o'. cloneMqttOptions h opts m1 = Some (0, m2) \<and> str_rest m \<subseteq>\<^sub>m S \<and> owns S (strings_of o') \<and>
    without (strings_of o') S = str_rest m \<and>
    options_are m2 o' cs \<and> keepAliveInterval o' = keepAliveInterval opts \<and> messageRetain o' = messageRetain opts \<and>
    useCleanSession o' = useCleanSession opts \<and> qualityOfServiceValue o' = qualityOfServiceValue opts \<and>
    holding m F S G h (c\<lparr>mqttOptions := o'\<rparr>, w) m2"
proof -
  let ?o = "mqttOptions c"
  have n: "clientId ?o = None" "willTopic ?o = None" "willMessage ?o = None" "username ?o = None" "password ?o = None"
    using arg_cong [OF none, of clientId] arg_cong [OF none, of willTopic] arg_cong [OF none, of willMessage]
      arg_cong [OF none, of username] arg_cong [OF none, of password] by (simp_all add: no_strings_def)
  have src: "clientId opts = Some q \<Longrightarrow> ext_string m q = Some (cs_client cs)"
    "willTopic opts = Some q \<Longrightarrow> ext_string m q = Some (cs_topic cs)"
    "willMessage opts = Some q \<Longrightarrow> ext_string m q = Some (cs_message cs)"
    "username opts = Some q \<Longrightarrow> ext_string m q = Some (cs_user cs)"
    "password opts = Some q \<Longrightarrow> ext_string m q = Some (cs_password cs)" for q
    using O by (auto simp: options_are_def opt_is_def)
  have len: "length (cs_client cs) < 2 ^ 28" "length (cs_topic cs) < 2 ^ 28" "length (cs_message cs) < 2 ^ 28"
    "length (cs_user cs) < 2 ^ 28" "length (cs_password cs) < 2 ^ 28"
    using O unfolding options_are_def by blast+
  have own: "owns (str_rest m) []" by (simp add: owns_def List.map_filter_simps)
  obtain m2 S2 p1 where 2: "clone_string h clientId clientId_update opts 0 m1 = Some (0, m2)" "str_rest m \<subseteq>\<^sub>m S2"
    "owns S2 [p1]" "without [p1] S2 = str_rest m" "copied S2 (clientId opts) p1 (cs_client cs)"
    "holding m F S2 G h (c\<lparr>mqttOptions := ?o\<lparr>clientId := p1\<rparr>\<rparr>, w) m2"
    using clone_string_held [where get = clientId and upd = clientId_update and opts = opts, OF H tot map_le_refl _ _ own src(1) len(1)] n(1) by auto
  obtain m3 S3 p2 where 3: "clone_string h willTopic willTopic_update opts 0 m2 = Some (0, m3)" "S2 \<subseteq>\<^sub>m S3"
    "owns S3 [p1, p2]" "without [p1, p2] S3 = without [p1] S2" "copied S3 (willTopic opts) p2 (cs_topic cs)"
    "holding m F S3 G h (c\<lparr>mqttOptions := ?o\<lparr>clientId := p1, willTopic := p2\<rparr>\<rparr>, w) m3"
    using clone_string_held [where get = willTopic and upd = willTopic_update and opts = opts, OF 2(6) tot 2(2) _ _ 2(3) src(2) len(2)] n(2) by auto
  have le3: "str_rest m \<subseteq>\<^sub>m S3" using 2(2) 3(2) by (rule map_le_trans)
  obtain m4 S4 p3 where 4: "clone_string h willMessage willMessage_update opts 0 m3 = Some (0, m4)" "S3 \<subseteq>\<^sub>m S4"
    "owns S4 [p1, p2, p3]" "without [p1, p2, p3] S4 = without [p1, p2] S3" "copied S4 (willMessage opts) p3 (cs_message cs)"
    "holding m F S4 G h (c\<lparr>mqttOptions := ?o\<lparr>clientId := p1, willTopic := p2, willMessage := p3\<rparr>\<rparr>, w) m4"
    using clone_string_held [where get = willMessage and upd = willMessage_update and opts = opts, OF 3(6) tot le3 _ _ 3(3) src(3) len(3)] n(3) by auto
  have le4: "str_rest m \<subseteq>\<^sub>m S4" using le3 4(2) by (rule map_le_trans)
  obtain m5 S5 p4 where 5: "clone_string h username username_update opts 0 m4 = Some (0, m5)" "S4 \<subseteq>\<^sub>m S5"
    "owns S5 [p1, p2, p3, p4]" "without [p1, p2, p3, p4] S5 = without [p1, p2, p3] S4" "copied S5 (username opts) p4 (cs_user cs)"
    "holding m F S5 G h (c\<lparr>mqttOptions := ?o\<lparr>clientId := p1, willTopic := p2, willMessage := p3, username := p4\<rparr>\<rparr>, w) m5"
    using clone_string_held [where get = username and upd = username_update and opts = opts, OF 4(6) tot le4 _ _ 4(3) src(4) len(4)] n(4) by auto
  have le5: "str_rest m \<subseteq>\<^sub>m S5" using le4 5(2) by (rule map_le_trans)
  obtain m6 S6 p5 where 6: "clone_string h password password_update opts 0 m5 = Some (0, m6)" "S5 \<subseteq>\<^sub>m S6"
    "owns S6 [p1, p2, p3, p4, p5]" "without [p1, p2, p3, p4, p5] S6 = without [p1, p2, p3, p4] S5" "copied S6 (password opts) p5 (cs_password cs)"
    "holding m F S6 G h (c\<lparr>mqttOptions := ?o\<lparr>clientId := p1, willTopic := p2, willMessage := p3, username := p4,
       password := p5\<rparr>\<rparr>, w) m6"
    using clone_string_held [where get = password and upd = password_update and opts = opts, OF 5(6) tot le5 _ _ 5(3) src(5) len(5)] n(5) by auto
  have le6: "str_rest m \<subseteq>\<^sub>m S6" using le5 6(2) by (rule map_le_trans)
  have le: "S5 \<subseteq>\<^sub>m S6" "S4 \<subseteq>\<^sub>m S6" "S3 \<subseteq>\<^sub>m S6" "S2 \<subseteq>\<^sub>m S6"
    using 3(2) 4(2) 5(2) 6(2) by (blast intro: map_le_trans)+
  let ?o' = "?o\<lparr>clientId := p1, willTopic := p2, willMessage := p3, username := p4, password := p5,
     keepAliveInterval := keepAliveInterval opts, messageRetain := messageRetain opts,
     useCleanSession := useCleanSession opts, qualityOfServiceValue := qualityOfServiceValue opts\<rparr>"
  let ?s = "(c\<lparr>mqttOptions := ?o'\<rparr>, w)"
  have c6: "clients m6 h = Some (c\<lparr>mqttOptions := ?o\<lparr>clientId := p1, willTopic := p2, willMessage := p3, username := p4,
       password := p5\<rparr>\<rparr>)" "world m6 = w" "str_rest m6 = S6"
    using 6(6) by (auto simp: holding_def)
  have run: "cloneMqttOptions h opts m1 = Some (0, put h ?s m6)"
    using 2(1) 3(1) 4(1) 5(1) 6(1) c6 by (simp add: cloneMqttOptions_def upd_client_put)
  have O6: "opt_is m6 p2 (cs_topic cs)" "opt_is m6 p3 (cs_message cs)" "opt_is m6 p4 (cs_user cs)" "opt_is m6 p5 (cs_password cs)"
    using O copied_is [of m _ _ m6] copied_mono [OF 3(5) le(3)] copied_mono [OF 4(5) le(2)] copied_mono [OF 5(5) le(1)] 6(5) c6(3)
    by (auto simp: options_are_def)
  have id6: "\<exists>q. p1 = Some q \<and> ext_string m6 q = Some (cs_client cs)"
  proof -
    obtain q where q: "clientId opts = Some q" "ext_string m q = Some (cs_client cs)" using O by (auto simp: options_are_def)
    then obtain a where "p1 = Some (Chars a 0)" "str_rest m6 a = Some (cstr (cs_client cs))"
      using copied_mono [OF 2(5) le(4)] c6(3) by (auto simp: copied_def)
    then show ?thesis using ext_stringD(2) [OF q(2)] by (simp add: ext_string_def)
  qed
  have "options_are (put h ?s m6) ?o' cs"
    using O6 id6 len by (simp add: options_are_def opt_is_put ext_string_put)
  moreover have "holding m F S6 G h ?s (put h ?s m6)" using 6(6) by (simp add: holding_def)
  moreover have "owns S6 (strings_of ?o')" using 6(3) by (simp add: strings_of_def)
  moreover have "without (strings_of ?o') S6 = str_rest m"
    using 2(4) 3(4) 4(4) 5(4) 6(4) by (simp only: strings_of_def) simp
  ultimately show ?thesis using run le6 by (intro exI [of _ "put h ?s m6"] exI [of _ S6] exI [of _ ?o']) simp
qed

end
