(* ===== verification/Client_Connection.thy ===== *)
theory Client_Connection
  imports Client_Options
begin

text \<open>
  The life of a connection: creation of a client, connecting, the callbacks of the io layer,
  disconnecting.
\<close>

section \<open>What the machine does\<close>

definition connecting :: "addr \<Rightarrow> MQTT_CLIENT_OPTIONS \<Rightarrow> MQTT_CLIENT \<Rightarrow> MQTT_CLIENT" where
  "connecting x opts c = c\<lparr>xioHandle := Some x, packetState := UNKNOWN_TYPE,
     client_qosValue := qualityOfServiceValue opts, client_keepAlive := keepAliveInterval opts,
     maxPingRespTime := ping_limit (keepAliveInterval opts)\<rparr>"

definition spec_open :: "'w world_ops \<Rightarrow> addr \<Rightarrow> 'w \<Rightarrow> int \<times> 'w" where
  "spec_open W h = w_open W (Some onOpenComplete_fn, Some h) (Some onBytesReceived_fn, Some h) (Some onIoError_fn, Some h)"

definition same_settings :: "MQTT_CLIENT_OPTIONS \<Rightarrow> MQTT_CLIENT_OPTIONS \<Rightarrow> bool" where
  "same_settings o1 o2 \<longleftrightarrow> keepAliveInterval o1 = keepAliveInterval o2 \<and> messageRetain o1 = messageRetain o2 \<and>
     useCleanSession o1 = useCleanSession o2 \<and> qualityOfServiceValue o1 = qualityOfServiceValue o2"

definition connect_packet :: "MQTT_CLIENT_OPTIONS \<Rightarrow> connect_strings \<Rightarrow> u8 list" where
  "connect_packet opts cs = packet CONNECT_TYPE 0 (connect_body opts cs)"

lemma connect_packet_settings: "same_settings o1 o2 \<Longrightarrow> connect_packet o1 cs = connect_packet o2 cs"
  by (simp add: connect_packet_def connect_body_def connect_fields_def same_settings_def)

definition spec_opened ::
  "'w world_ops \<Rightarrow> addr \<Rightarrow> u32 \<Rightarrow> connect_strings \<Rightarrow> MQTT_CLIENT \<Rightarrow> 'w \<Rightarrow> MQTT_CLIENT \<times> 'w" where
  "spec_opened W h u cs c w =
     (let c = c\<lparr>packetState := CONNECT_TYPE, socketConnected := True\<rparr>
      in if connect_valid cs then snd (spec_send W h u (connect_packet (mqttOptions c) cs) c w) else (c, w))"

definition spec_open_failed :: "'w world_ops \<Rightarrow> addr \<Rightarrow> MQTT_CLIENT \<Rightarrow> 'w \<Rightarrow> MQTT_CLIENT \<times> 'w" where
  "spec_open_failed W h c w =
     spec_close W h c (case fnOnErrorCallBack c of
        Some f \<Rightarrow> if socketConnected c then w else w_error W f (errorCBCtx c) MQTT_CLIENT_CONNECTION_ERROR w
      | None \<Rightarrow> w)"

definition spec_closed :: "'w world_ops \<Rightarrow> MQTT_CLIENT \<Rightarrow> 'w \<Rightarrow> MQTT_CLIENT \<times> 'w" where
  "spec_closed W c w = (let c = c\<lparr>socketConnected := False, clientConnected := False\<rparr> in (c, spec_disconnected W c w))"

definition spec_disconnect ::
  "'w world_ops \<Rightarrow> addr \<Rightarrow> u32 \<Rightarrow> fptr \<Rightarrow> ptr \<Rightarrow> MQTT_CLIENT \<Rightarrow> 'w \<Rightarrow> int \<times> MQTT_CLIENT \<times> 'w" where
  "spec_disconnect W h u cb ctx c w =
     (let clear = \<lambda>c. c\<lparr>mqttOptions := no_strings (mqttOptions c)\<rparr>
      in if clientConnected c
         then let c = c\<lparr>disconnect_cb := cb, disconnect_ctx := ctx, packetState := DISCONNECT_TYPE\<rparr>;
                  (r, c, w) = spec_send W h u [DISCONNECT_TYPE, 0] c w
              in (r, (clear c)\<lparr>xioHandle := None\<rparr>, w)
         else let c = c\<lparr>disconnect_cb := cb, disconnect_ctx := ctx\<rparr>; (c, w) = spec_close W h c w
              in (0, clear c, w))"

section \<open>Callbacks of the io layer\<close>

lemma on_connection_closed_eq:
  assumes "attached m h u c"
  shows "on_connection_closed (env_of W) (Some h) m = Some (put h (spec_closed W c (world m)) m)"
  using attached_client [OF assms]
  by (simp add: on_connection_closed_def upd_client_put spec_closed_def Let_def call_disconnect_cb_eq)

lemma onIoError_eq:
  assumes "attached m h u c"
  shows "onIoError (env_of W) (Some h) m =
    Some (put h (if fnOperationCallback c = None then (c, world m)
      else spec_error W h MQTT_CLIENT_CONNECTION_ERROR c (world m)) m)"
  using attached_client [OF assms] set_error_callback_eq [OF assms, of W]
  by (simp add: onIoError_def put_same)

lemma sendComplete_eq:
  assumes "attached m h u c"
  shows "sendComplete (env_of W) (Some h) r m = Some (put h (spec_send_complete W h r c (world m)) m)"
proof (cases r)
  case IO_SEND_OK
  note c = attached_client [OF assms]
  show ?thesis
  proof (cases "packetState c = DISCONNECT_TYPE")
    case True
    have A: "attached (put h (c, w) m) h u c" for w using attached_put [OF assms, of "(c, w)"] by simp
    show ?thesis
      using IO_SEND_OK True c close_connection_eq [OF A, of W] close_connection_eq [OF assms, of W]
      by (cases "fnOperationCallback c")
        (simp_all add: sendComplete_def spec_send_complete_def spec_operation_def env_of_def put_world)
  next
    case False
    then show ?thesis using IO_SEND_OK c by (simp add: sendComplete_def spec_send_complete_def put_same)
  qed
next
  case IO_SEND_ERROR
  then show ?thesis using set_error_callback_eq [OF assms, of W] by (simp add: sendComplete_def spec_send_complete_def)
next
  case IO_SEND_CANCELLED
  then show ?thesis
    using attached_client [OF assms] by (simp add: sendComplete_def spec_send_complete_def put_same)
qed

lemma onOpenComplete_failed_eq:
  assumes A: "attached m h u c" and bad: "r \<noteq> IO_OPEN_OK \<or> socketConnected c"
  shows "onOpenComplete (env_of W) (Some h) r m = Some (put h (spec_open_failed W h c (world m)) m)"
proof -
  have B: "attached (put h (c, w) m) h u c" for w using attached_put [OF A, of "(c, w)"] by simp
  have n: "\<not> (r = IO_OPEN_OK \<and> \<not> socketConnected c)" using bad by blast
  show ?thesis
    using attached_client [OF A] close_connection_eq [OF B, of W] close_connection_eq [OF A, of W]
    by (auto simp: onOpenComplete_def if_not_P [OF n] spec_open_failed_def put_world simp del: de_Morgan_conj split: option.split)
qed

lemma delete_no_trace: "delete_trace None = Some"
  by (rule ext) (simp add: delete_trace_def)

lemma onOpenComplete_spec:
  fixes m :: "'w wmem"
  assumes A: "attached m h u c" and inv: "heap_inv m" and tot: "alloc_total m"
    and new: "\<not> socketConnected c" and O: "options_are m (mqttOptions c) cs"
  shows "ok (onOpenComplete (env_of W) (Some h) IO_OPEN_OK m) (client_effect m h (spec_opened W h u cs c (world m)))"
proof -
  let ?c = "c\<lparr>packetState := CONNECT_TYPE, socketConnected := True\<rparr>"
  let ?S = "spec_send W h u (connect_packet (mqttOptions c) cs) ?c (world m)"
  define m1 where "m1 = put h (?c, world m) m"
  have A1: "attached m1 h u ?c" using attached_put [OF A, of "(?c, world m)"] by (simp add: m1_def kept_def)
  have c1: "clients m1 h = Some ?c" "\<not> logTrace ?c" using A1 by (auto simp: attached_def)
  have m1: "heap_inv m1" "alloc_total m1" "world m1 = world m" "buf_bytes m1 = buf_bytes m"
    using inv tot by (simp_all add: m1_def alloc_total_def)
  have S1: "client_effect m h (?c, world m) m1" using client_step_put [OF inv] by (simp add: m1_def)
  have O1: "options_are m1 (mqttOptions c) cs"
    using O by (simp add: options_are_def opt_is_put ext_string_put m1_def)
  have run: "onOpenComplete (env_of W) (Some h) IO_OPEN_OK m =
      mqtt_codec_connect (Some (mqttOptions c)) None m1 \<bind> (\<lambda>(p, m).
        if p = None then Some m else send_buffer (env_of W) h p m \<bind> (\<lambda>(r, m).
          (if r \<noteq> 0 then Some () else log_outgoing_trace (Some h) None m) \<bind> (\<lambda>_. BUFFER_delete p m)))"
    using attached_client [OF A] new c1 no_trace [OF c1]
    by (simp add: delete_no_trace onOpenComplete_def upd_client_put m1_def [symmetric] split_def cong: if_cong)
  have spec: "spec_opened W h u cs c (world m) = (if connect_valid cs then snd ?S else (?c, world m))"
    by (simp add: spec_opened_def Let_def)
  have B: "ok (mqtt_codec_connect (Some (mqttOptions c)) None m1)
      (built None m1 (connect_packet (mqttOptions c) cs) (connect_valid cs))"
    by (rule ok_mono [OF Connect_spec [OF m1(1) log_ok_NULL O1]])
      (use m1(2) in \<open>auto simp: connected_def connect_packet_def\<close>)
  show ?thesis
    unfolding run spec
  proof (rule ok_bind2I [OF B], goal_cases)
    case (1 r m2)
    show ?case
    proof (cases r)
      case None
      then have "\<not> connect_valid cs" "client_effect m1 h (?c, world m) m2"
        using 1 m1 enc_effect_step [OF _ c1(1)] by (auto simp: built_def)
      then show ?thesis using None m1(4) client_step_trans [OF S1] by auto
    next
      case (Some p)
      then have v: "connect_valid cs" and p: "buf_bytes m p = None"
        and S2: "client_step m1 ((buf_bytes m)(p \<mapsto> map Some (connect_packet (mqttOptions c) cs))) h (?c, world m) m2"
        using 1 enc_effect_step [OF _ c1(1)] m1 by (auto simp: built_def)
      note D = client_stepD [OF S2]
      have A2: "attached m2 h u ?c" using attached_step [OF A1 S2] by simp
      have same: "(buf_bytes m2)(p := None) = buf_bytes m" using D(2) p by (simp add: fun_eq_iff)
      have bs: "buf_bytes m2 p = Some (map Some (connect_packet (mqttOptions c) cs))" using D(2) by simp
      have ne: "connect_packet (mqttOptions c) cs \<noteq> []" by (simp add: connect_packet_def packet_ne)
      obtain m3 where m3: "send_buffer (env_of W) h (Some p) m2 = Some (fst ?S, m3)"
        and del: "ok (BUFFER_delete (Some p) m3) (client_step m2 (buf_bytes m) h (snd ?S))"
        using send_delete [OF A2 D(1) bs ne, of W] D(4) same by auto
      have c3: "\<exists>c. clients m3 h = Some c"
        using m3 send_buffer_eq [OF A2 bs ne, of W] by (auto simp: split_def Let_def)
      then have log: "log_outgoing_trace (Some h) None m3 = Some ()"
        by (auto simp: log_outgoing_trace_def print_string_def)
      have "ok (BUFFER_delete (Some p) m3) (client_effect m h (snd ?S))"
        by (rule ok_mono [OF del]) (rule client_step_trans [OF client_step_trans [OF S1 S2]])
      then show ?thesis using Some v m3 log by simp
    qed
  qed
qed

section \<open>Connecting\<close>

lemma holding_put: "holding m F S G h s m1 \<Longrightarrow> holding m F S G h s' (put h s' m1)"
  by (simp add: holding_def)

lemma holding_left: "client_effect m h s m1 \<Longrightarrow> holding m1 F S G h s' m2 \<Longrightarrow> holding m F S G h s' m2"
  by (auto simp: holding_def client_step_def)

text \<open>The io \<open>x\<close> is live.\<close>

definition io_live :: "'w wmem \<Rightarrow> addr \<Rightarrow> bool" where
  "io_live m x \<longleftrightarrow> (\<exists>i. xios m x = Some i \<and> io_complete (io_interface_description i))"

lemma xio_open_eq:
  assumes "clients m h = Some c" "io_live m x"
  shows "xio_open (env_of W) (Some x) k1 k2 k3 m =
    Some (if fst (w_open W k1 k2 k3 (world m)) = 0 then 0 else FAILURE, put h (c, snd (w_open W k1 k2 k3 (world m))) m)"
  using assms by (auto simp: xio_open_def io_live_def io_complete_def put_world)

lemma connect_spec:
  fixes m :: "'w wmem" and W :: "'w world_ops"
  assumes A: "attached m h u c" and x: "io_live m x" and inv: "heap_inv m" and tot: "alloc_total m"
    and none: "no_strings (mqttOptions c) = mqttOptions c" and O: "options_are m opts cs"
  defines "r \<equiv> fst (spec_open W h (world m))" and "w \<equiv> snd (spec_open W h (world m))"
  shows "ok (mqtt_client_connect (env_of W) (Some h) (Some x) (Some opts) m) (\<lambda>(r', m'). \<exists>o' S.
    same_settings o' opts \<and>
    (if r = 0 then r' = 0 \<and> owns S (strings_of o') \<and> without (strings_of o') S = str_rest m \<and> options_are m' o' cs \<and>
       holding m (foreign m) S (messages m) h ((connecting x opts c)\<lparr>mqttOptions := o'\<rparr>, w) m'
     else r' = FAILURE \<and>
       client_effect m h ((connecting x opts c)\<lparr>mqttOptions := no_strings o'\<rparr>, w) m'))"
proof -
  let ?c = "connecting x opts c"
  define m1 where "m1 = put h (?c, world m) m"
  have c: "clients m h = Some c" by (rule attached_client [OF A])
  have S1: "client_effect m h (?c, world m) m1" using client_step_put [OF inv] by (simp add: m1_def)
  have m1: "heap_inv m1" "alloc_total m1" "clients m1 h = Some ?c" "str_rest m1 = str_rest m" "world m1 = world m"
    "foreign m1 = foreign m" "messages m1 = messages m"
    using inv tot by (simp_all add: m1_def alloc_total_def)
  have H1: "holding m1 (foreign m) (str_rest m1) (messages m) h (?c, world m) m1"
    using holding_start [OF m1(1,3)] m1 by simp
  have none1: "no_strings (mqttOptions ?c) = mqttOptions ?c" using none by (simp add: connecting_def)
  have O1: "options_are m1 opts cs" using O by (simp add: options_are_def opt_is_put ext_string_put m1_def)
  obtain m2 S o' where clone: "cloneMqttOptions h opts m1 = Some (0, m2)" and own: "owns S (strings_of o')"
    and rest: "without (strings_of o') S = str_rest m" and O2: "options_are m2 o' cs" and same: "same_settings o' opts"
    and H2: "holding m1 (foreign m) S (messages m) h (?c\<lparr>mqttOptions := o'\<rparr>, world m) m2"
    using clone_options_held [OF H1 m1(2) none1 O1] m1(4) by (auto simp: same_settings_def)
  let ?c2 = "?c\<lparr>mqttOptions := o'\<rparr>"
  have c2: "clients m2 h = Some ?c2" "world m2 = world m" "io_live m2 x"
    using H2 x by (simp_all add: holding_def io_live_def m1_def)
  define m3 where "m3 = put h (?c2, w) m2"
  have open_: "xio_open (env_of W) (Some x) (Some onOpenComplete_fn, Some h) (Some onBytesReceived_fn, Some h)
      (Some onIoError_fn, Some h) m2 = Some (if r = 0 then 0 else FAILURE, m3)"
    using xio_open_eq [OF c2(1,3)] c2(2) by (simp add: r_def w_def spec_open_def m3_def)
  have H3: "holding m1 (foreign m) S (messages m) h (?c2, w) m3" using holding_put [OF H2] by (simp add: m3_def)
  have O3: "options_are m3 o' cs" using O2 by (simp add: options_are_def opt_is_put ext_string_put m3_def)
  have run: "mqtt_client_connect (env_of W) (Some h) (Some x) (Some opts) m =
      (if r \<noteq> 0 then clear_mqtt_options h m3 \<bind> (\<lambda>m. Some (FAILURE, m)) else Some (0, m3))"
    using c clone open_ by (simp add: FAILURE_def mqtt_client_connect_def upd_client_put connecting_def [symmetric] m1_def [symmetric])
  show ?thesis
  proof (cases "r = 0")
    case True
    then show ?thesis using run same own rest O3 holding_left [OF S1 H3] by auto
  next
    case False
    obtain m4 where m4: "clear_mqtt_options h m3 = Some m4"
      and H4: "holding m1 (foreign m) (str_rest m) (messages m) h (?c\<lparr>mqttOptions := no_strings o'\<rparr>, w) m4"
      using clear_options_held [OF H3] own rest by auto
    show ?thesis using False run m4 same holding_left [OF S1 H4] by (auto simp: holding_effect)
  qed
qed

section \<open>Disconnecting\<close>

lemma disconnect_spec:
  fixes m :: "'w wmem" and W :: "'w world_ops" and cb :: fptr and ctx :: ptr
  assumes A: "attached m h u c" and inv: "heap_inv m" and tot: "alloc_total m"
    and own: "owns (str_rest m) (strings_of (mqttOptions c))"
  defines "D \<equiv> spec_disconnect W h u cb ctx c (world m)"
  shows "ok (mqtt_client_disconnect (env_of W) (Some h) cb ctx m) (\<lambda>(r, m'). r = fst D \<and>
    holding m (foreign m) (without (strings_of (mqttOptions c)) (str_rest m)) (messages m) h (snd D) m')"
proof (cases "clientConnected c")
  case False
  let ?c = "c\<lparr>disconnect_cb := cb, disconnect_ctx := ctx\<rparr>"
  let ?s = "spec_close W h ?c (world m)"
  have c: "clients m h = Some c" by (rule attached_client [OF A])
  have A1: "attached (put h (?c, world m) m) h u ?c" using attached_put [OF A, of "(?c, world m)"] by (simp add: kept_def)
  have H: "holding m (foreign m) (str_rest m) (messages m) h (fst ?s, snd ?s) (put h ?s m)"
    using client_step_put [OF inv, of h ?s] by (simp add: holding_effect)
  have o1: "mqttOptions (fst ?s) = mqttOptions c" by (simp add: spec_close_def Let_def)
  obtain m2 where "clear_mqtt_options h (put h ?s m) = Some m2"
    "holding m (foreign m) (without (strings_of (mqttOptions c)) (str_rest m)) (messages m) h
      ((fst ?s)\<lparr>mqttOptions := no_strings (mqttOptions c)\<rparr>, snd ?s) m2"
    using clear_options_held [OF H] own o1 by auto
  then show ?thesis
    using False c close_connection_eq [OF A1, of W] o1
    by (simp add: mqtt_client_disconnect_def upd_client_put D_def spec_disconnect_def split_def Let_def)
next
  case True
  note c = attached_client [OF A]
  let ?c = "c\<lparr>disconnect_cb := cb, disconnect_ctx := ctx, packetState := DISCONNECT_TYPE\<rparr>"
  let ?S = "spec_send W h u [DISCONNECT_TYPE, 0] ?c (world m)"
  let ?clear = "\<lambda>c. c\<lparr>mqttOptions := no_strings (mqttOptions c)\<rparr>"
  have D: "D = (fst ?S, (?clear (fst (snd ?S)))\<lparr>xioHandle := None\<rparr>, snd (snd ?S))"
    using True by (simp add: D_def spec_disconnect_def split_def Let_def)
  have B: "ok (mqtt_codec_disconnect m) (built None m [DISCONNECT_TYPE, 0] True)" by (rule Disconnect_spec [OF inv])
  show ?thesis
    unfolding mqtt_client_disconnect_def option.case c Option.bind.bind_lunit if_P [OF True] Option.bind_assoc
  proof (rule ok_bind2I [OF build_total [where build = mqtt_codec_disconnect, OF B tot c]], goal_cases)
    case (1 r m1)
    obtain p where p: "r = Some p" "buf_bytes m p = None"
      and S1: "client_step m ((buf_bytes m)(p \<mapsto> map Some [DISCONNECT_TYPE, 0])) h (c, world m) m1" using 1 by auto
    note D1 = client_stepD [OF S1]
    let ?m1 = "put h (?c, world m) m1"
    have A1: "attached ?m1 h u ?c"
      using attached_put [OF attached_step [OF A S1], of "(?c, world m)"] by (simp add: kept_def)
    have same: "(buf_bytes m1)(p := None) = buf_bytes m" using D1(2) p(2) by (simp add: fun_eq_iff)
    have bs: "buf_bytes ?m1 p = Some (map Some [DISCONNECT_TYPE, 0])" using D1(2) by simp
    obtain m2 where m2: "send_buffer (env_of W) h (Some p) ?m1 = Some (fst ?S, m2)"
      and del: "ok (BUFFER_delete (Some p) m2) (client_step ?m1 (buf_bytes m) h (snd ?S))"
      using send_delete [OF A1 _ bs, of W] D1(1,2) same by auto
    have m2_eq: "m2 = put h (snd ?S) ?m1"
      using m2 send_buffer_eq [OF A1 bs, of W] by (simp add: split_def Let_def)
    obtain m3 where m3: "BUFFER_delete (Some p) m2 = Some m3" and S3: "client_step ?m1 (buf_bytes m) h (snd ?S) m3"
      using del by (auto simp: ok_iff)
    have S13: "client_effect m h (snd ?S) m3"
      using S1 S3 by (auto simp: client_step_def)
    have nolog: "\<not> logTrace (fst (snd ?S))"
      using A1 by (auto simp: spec_send_def split_def Let_def attached_def)
    have o1: "mqttOptions (fst (snd ?S)) = mqttOptions c" by (simp add: spec_send_def split_def Let_def)
    have H3: "holding m (foreign m) (str_rest m) (messages m) h (fst (snd ?S), snd (snd ?S)) m3"
      using S13 by (simp add: holding_effect)
    obtain m4 where m4: "clear_mqtt_options h m3 = Some m4"
      and H4: "holding m (foreign m) (without (strings_of (mqttOptions c)) (str_rest m)) (messages m) h
        (?clear (fst (snd ?S)), snd (snd ?S)) m4"
      using clear_options_held [OF H3] own o1 by auto
    have c4: "clients m4 h = Some (?clear (fst (snd ?S)))" "world m4 = snd (snd ?S)" using H4 by (auto simp: holding_def)
    have r: "fst ?S = FAILURE \<or> fst ?S = 0" by (simp add: spec_send_def split_def Let_def)
    show ?case
      using p(1) D1(3) m2 m3 m4 c4 r nolog holding_put [OF H4] m2_eq
      by (auto simp: upd_client_put D1(4) D FAILURE_def)
  qed
qed

section \<open>Creation and destruction\<close>

definition new_client :: "fptr \<Rightarrow> fptr \<Rightarrow> ptr \<Rightarrow> fptr \<Rightarrow> ptr \<Rightarrow> ptr \<Rightarrow> ptr \<Rightarrow> MQTT_CLIENT" where
  "new_client msgRecv opCallback opCtx onError errorCtx tick codec = zero_client\<lparr>packetState := UNKNOWN_TYPE,
     fnOperationCallback := opCallback, op_ctx := opCtx, fnMessageRecv := msgRecv, fnOnErrorCallBack := onError,
     errorCBCtx := errorCtx, client_qosValue := DELIVER_AT_MOST_ONCE, packetTickCntr := tick,
     maxPingRespTime := DEFAULT_MAX_PING_RESPONSE_TIME, codec_handle := codec\<rparr>"

definition new_codec :: "addr \<Rightarrow> MQTTCODEC_INSTANCE" where
  "new_codec h = \<lparr>currPacket = UNKNOWN_TYPE, codecState = CODEC_STATE_FIXED_HEADER, bufferOffset = 0, headerFlags = 0,
     headerData = None, packetComplete = Some recvCompleteCallback_fn, callContext = Some h,
     storeRemainLen = replicate 4 0, remainLenIndex = 0\<rparr>"

lemma heap_brk:
  fixes m :: "'z smem_scheme"
  assumes inv: "heap_inv m" and n: "brk m \<le> n"
  shows "heap_inv (m\<lparr>brk := n\<rparr>)" "buf_bytes (m\<lparr>brk := n\<rparr>) = buf_bytes m" "foreign (m\<lparr>brk := n\<rparr>) = foreign m"
    "str_vals (m\<lparr>brk := n\<rparr>) = str_vals m" "str_rest (m\<lparr>brk := n\<rparr>) = str_rest m"
proof -
  have "chars m (brk m) = None" using fresh_rest [OF inv order.refl] by simp
  then have e: "m\<lparr>brk := n, chars := (chars m)(brk m := None)\<rparr> = m\<lparr>brk := n\<rparr>"
    "(str_rest m)(brk m := None) = str_rest m" using fresh_rest [OF inv order.refl] by (simp_all add: fun_upd_idem)
  show "heap_inv (m\<lparr>brk := n\<rparr>)" "buf_bytes (m\<lparr>brk := n\<rparr>) = buf_bytes m" "foreign (m\<lparr>brk := n\<rparr>) = foreign m"
    "str_vals (m\<lparr>brk := n\<rparr>) = str_vals m" "str_rest (m\<lparr>brk := n\<rparr>) = str_rest m"
    using heap_put_chars [OF inv fresh_unowned(2) [OF inv order.refl] n, where x = None, unfolded e] by simp_all
qed

lemma init_eq:
  fixes m :: "'w wmem"
  assumes tot: "alloc_total m"
  defines "a \<equiv> brk m"
  shows "mqtt_client_init (env_of W) (Some f) op opctx err errctx m = Some (Some a,
    m\<lparr>brk := a + 3, codecs := (codecs m)(a + 2 \<mapsto> new_codec a),
      tick_counters := (tick_counters m)(a + 1 \<mapsto> \<lparr>original_tick_count = fst (w_tick W (world m))\<rparr>),
      clients := (clients m)(a \<mapsto> new_client (Some f) op opctx err errctx (Some (a + 1)) (Some (a + 2))),
      world := snd (w_tick W (world m))\<rparr>)"
  using tot
  by (cases m) (simp add: mqtt_client_init_def malloc_struct_def alloc_total_def tickcounter_create_def upd_client_def
      mqtt_codec_create_def new_client_def new_codec_def a_def split_def Let_def)

lemma init_attached:
  fixes m :: "'w wmem" and W :: "'w world_ops" and f :: nat and op err :: fptr and opctx errctx :: ptr
  assumes inv: "heap_inv m" and R: "client_ready m"
  defines "a \<equiv> brk m" and "u \<equiv> fst (w_tick W (world m))"
  defines "c \<equiv> new_client (Some f) op opctx err errctx (Some (a + 1)) (Some (a + 2))"
  shows "ok (mqtt_client_init (env_of W) (Some f) op opctx err errctx m) (\<lambda>(r, m'). r = Some a \<and>
    attached m' a u c \<and> heap_inv m' \<and> client_ready m' \<and>
    codec_at m' (a + 2) (Some recvCompleteCallback_fn) (Some a) idle \<and> no_strings (mqttOptions c) = mqttOptions c \<and>
    world m' = snd (w_tick W (world m)))"
proof -
  have tot: "alloc_total m" and G: "\<forall>b \<ge> brk m. messages m b = None" using R by (simp_all add: client_ready_def)
  note H = heap_brk [OF inv, of "a + 3"]
  have "codec_at m' (a + 2) (Some recvCompleteCallback_fn) (Some a) idle"
    if "codecs m' (a + 2) = Some (new_codec a)" for m' :: "'w wmem"
    using that by (simp add: codec_at_def represents_def new_codec_def idle_def decoder_inv_def)
  then show ?thesis
    using H(1) tot G init_eq [OF tot, of W f op opctx err errctx]
    by (auto simp: a_def u_def c_def attached_def new_client_def zero_client_def zero_options_def no_strings_def client_ready_def alloc_total_def)
qed

lemma deinit_spec:
  fixes m :: "'w wmem"
  assumes A: "attached m h u c" and inv: "heap_inv m" and cd: "codec_handle c = Some cd" and C: "codec_at m cd f ctx d"
    and own: "owns (str_rest m) (strings_of (mqttOptions c))"
  shows "ok (mqtt_client_deinit (Some h) m) (\<lambda>m'. heap_inv m' \<and> clients m' = (clients m)(h := None) \<and>
    tick_counters m' = (tick_counters m)(the (packetTickCntr c) := None) \<and> codecs m' = (codecs m)(cd := None) \<and>
    buf_bytes m' = other_bufs cd m \<and> foreign m' = foreign m \<and>
    str_rest m' = without (strings_of (mqttOptions c)) (str_rest m) \<and> messages m' = messages m \<and> xios m' = xios m \<and>
    world m' = world m)"
proof -
  have c: "clients m h = Some c" by (rule attached_client [OF A])
  obtain t where t: "packetTickCntr c = Some t" "tick_counters m t \<noteq> None" using A by (auto simp: attached_def)
  define m1 where "m1 = m\<lparr>tick_counters := (tick_counters m)(t := None)\<rparr>"
  have m1: "heap_inv m1" "codecs m1 = codecs m" "clients m1 = clients m" "buf_bytes m1 = buf_bytes m" "foreign m1 = foreign m"
    "str_rest m1 = str_rest m" "messages m1 = messages m" "xios m1 = xios m" "world m1 = world m"
    "tick_counters m1 = (tick_counters m)(t := None)"
    using inv by (simp_all add: m1_def)
  obtain i where i: "codecs m1 cd = Some i" and R: "represents m i d" using C m1 by (auto simp: codec_at_def)
  have D: "ok (BUFFER_delete (headerData i) m1) (buf_effect m1 (other_bufs cd m))"
  proof (cases "headerData i")
    case None
    then show ?thesis
      using buf_effect_refl [of m1] m1 i by (simp add: BUFFER_delete_def other_bufs_def heap_inv_def)
  next
    case (Some x)
    then obtain xs where "buf_bytes m1 x = Some xs" using R m1 by (auto simp: represents_def)
    from BUFFER_delete_spec [OF _ this] show ?thesis using Some m1 i by (simp add: other_bufs_def heap_inv_def)
  qed
  obtain m2 where m2: "BUFFER_delete (headerData i) m1 = Some m2" and E: "buf_effect m1 (other_bufs cd m) m2"
    using D by (auto simp: ok_iff)
  have F: "heap_effect m1 (other_bufs cd m) (str_vals m1) m2" by (rule buf_effect_heap [OF m1(1) E])
  define m3 where "m3 = m2\<lparr>codecs := (codecs m2)(cd := None)\<rparr>"
  have m3: "heap_inv m3" "codecs m3 = (codecs m)(cd := None)" "clients m3 = clients m" "buf_bytes m3 = other_bufs cd m"
    "foreign m3 = foreign m" "str_rest m3 = str_rest m" "messages m3 = messages m" "xios m3 = xios m" "world m3 = world m"
    "tick_counters m3 = (tick_counters m)(t := None)"
    using F smem_more_client [of m2 m1] m1 by (auto simp: heap_effect_def heap_frame_def m3_def)
  have c3: "clients m3 h = Some c" using c m3 by simp
  have H: "holding m3 (foreign m) (str_rest m) (messages m) h (c, world m) m3"
    using holding_start [OF m3(1) c3] m3 by simp
  obtain m4 where m4: "clear_mqtt_options h m3 = Some m4" and H4: "holding m3 (foreign m)
      (without (strings_of (mqttOptions c)) (str_rest m)) (messages m) h (c\<lparr>mqttOptions := no_strings (mqttOptions c)\<rparr>, world m) m4"
    using clear_options_held [OF H own] by auto
  have "mqtt_client_deinit (Some h) m = Some (m4\<lparr>clients := (clients m4)(h := None)\<rparr>)"
    using c t i m2 m4 H4 cd
    by (auto simp: mqtt_client_deinit_def tickcounter_destroy_def m1_def [symmetric] mqtt_codec_destroy_def m3_def [symmetric]
        free_client_def holding_def)
  then show ?thesis using H4 m3 t(1) by (auto simp: holding_def)
qed

text \<open>A client that was created and destroyed leaves only the addresses it used.\<close>

lemma init_deinit_eq:
  fixes m :: "'w wmem"
  assumes inv: "heap_inv m" and tot: "alloc_total m"
    and fresh: "clients m (brk m) = None" "tick_counters m (brk m + 1) = None" "codecs m (brk m + 2) = None"
  shows "mqtt_client_init (env_of W) (Some f) op opctx err errctx m \<bind> (\<lambda>(r, m). mqtt_client_deinit r m) =
    Some (m\<lparr>brk := brk m + 3, world := snd (w_tick W (world m))\<rparr>)"
  using fresh
  by (simp add: init_eq [OF tot] mqtt_client_deinit_def tickcounter_destroy_def mqtt_codec_destroy_def new_client_def new_codec_def
      zero_client_def zero_options_def BUFFER_delete_def clear_mqtt_options_def clear_string_def free_client_def fun_upd_idem)

end
