(* ===== verification/Client_Machine.thy ===== *)
theory Client_Machine
  imports Client_Connection
begin

text \<open>
  The client as one machine: its state is the struct, the decoder and the world, its steps are
  the calls of the user and of the io layer.  \<open>client_op\<close> are the steps of the code, in memory;
  the theorems say that each of them is a step of the machine, and what every run keeps.
\<close>

section \<open>The machine\<close>

datatype client_call =
    Do_work
  | Do_publish message_content "u8 list"
  | Do_subscribe u16 "cstring list" "QOS_VALUE list"
  | Do_unsubscribe u16 "cstring list"
  | Do_disconnect fptr ptr
  | Opened connect_strings
  | Open_failed IO_OPEN_RESULT
  | Bytes "u8 list"
  | Send_completed IO_SEND_RESULT
  | Io_error
  | Closed

type_synonym 'w state = "MQTT_CLIENT \<times> decoder \<times> 'w"

text \<open>A call that the machine does not define is one the code may not survive.\<close>

fun spec_call :: "'w world_ops \<Rightarrow> addr \<Rightarrow> u32 \<Rightarrow> client_call \<Rightarrow> 'w state \<Rightarrow> 'w state option" where
  "spec_call W h u Do_work (c, d, w) = (let (c, w) = spec_dowork W h u c w in Some (c, d, w))"
| "spec_call W h u (Do_publish v bs) (c, d, w) =
     (if length (v_topic v) \<le> 65535
      then let (_, c, w) = spec_request W h u PUBLISH_TYPE (message_packet v bs) c w in Some (c, d, w)
      else Some (c, d, w))"
| "spec_call W h u (Do_subscribe pid ss qs) (c, d, w) =
     (if topics_fit ss
      then let (_, c, w) = spec_request W h u SUBSCRIBE_TYPE
             (packet SUBSCRIBE_TYPE SUBSCRIBE_FIXED_HEADER_FLAG (be16 pid @ subscribe_payload (zip ss qs))) c w
           in Some (c, d, w)
      else Some (c, d, w))"
| "spec_call W h u (Do_unsubscribe pid ss) (c, d, w) =
     (if topics_fit ss
      then let (_, c, w) = spec_request W h u UNSUBSCRIBE_TYPE
             (packet UNSUBSCRIBE_TYPE UNSUBSCRIBE_FIXED_HEADER_FLAG (be16 pid @ unsubscribe_payload ss)) c w
           in Some (c, d, w)
      else Some (c, d, w))"
| "spec_call W h u (Do_disconnect cb ctx) (c, d, w) =
     (let (_, c, w) = spec_disconnect W h u cb ctx c w in Some (c, d, w))"
| "spec_call W h u (Opened cs) (c, d, w) =
     (if socketConnected c then None else let (c, w) = spec_opened W h u cs c w in Some (c, d, w))"
| "spec_call W h u (Open_failed r) (c, d, w) =
     (if r = IO_OPEN_OK \<and> \<not> socketConnected c then None
      else let (c, w) = spec_open_failed W h c w in Some (c, d, w))"
| "spec_call W h u (Bytes bs) (c, d, w) = do {
     (d, es, good) \<leftarrow> decoder_run d bs;
     (c, w) \<leftarrow> spec_deliveries W h u es (c, w);
     let (c, w) = (if good then (c, w) else spec_error W h MQTT_CLIENT_PARSE_ERROR c w);
     Some (c, d, w) }"
| "spec_call W h u (Send_completed r) (c, d, w) = (let (c, w) = spec_send_complete W h r c w in Some (c, d, w))"
| "spec_call W h u Io_error (c, d, w) =
     (if fnOperationCallback c = None then Some (c, d, w)
      else let (c, w) = spec_error W h MQTT_CLIENT_CONNECTION_ERROR c w in Some (c, d, w))"
| "spec_call W h u Closed (c, d, w) = (let (c, w) = spec_closed W c w in Some (c, d, w))"

section \<open>The steps of the code\<close>

text \<open>
  A call in memory: the arguments lie in arrays of the user, and the function of the code
  returns the memory \<open>m'\<close>.
\<close>

inductive client_op :: "'w world_ops \<Rightarrow> addr \<Rightarrow> 'w wmem \<Rightarrow> client_call \<Rightarrow> 'w wmem \<Rightarrow> bool" for W h where
  Work: "mqtt_client_dowork (env_of W) (Some h) m = Some m' \<Longrightarrow> client_op W h m Do_work m'"
| Publish: "message_source m g v bs \<Longrightarrow> mqtt_client_publish (env_of W) (Some h) (Some g) m = Some (r, m') \<Longrightarrow>
    client_op W h m (Do_publish v bs) m'"
| Subscribe: "subscribe_source items ss m \<Longrightarrow> pid \<noteq> 0 \<Longrightarrow>
    mqtt_client_subscribe (env_of W) (Some h) pid (Some items) (of_nat (length items)) m = Some (r, m') \<Longrightarrow>
    client_op W h m (Do_subscribe pid ss (map qosReturn items)) m'"
| Unsubscribe: "unsubscribe_source items ss m \<Longrightarrow> pid \<noteq> 0 \<Longrightarrow>
    mqtt_client_unsubscribe (env_of W) (Some h) pid (Some items) (of_nat (length items)) m = Some (r, m') \<Longrightarrow>
    client_op W h m (Do_unsubscribe pid ss) m'"
| Disconnect: "mqtt_client_disconnect (env_of W) (Some h) cb ctx m = Some (r, m') \<Longrightarrow>
    client_op W h m (Do_disconnect cb ctx) m'"
| Opened: "clients m h = Some c \<Longrightarrow> options_are m (mqttOptions c) cs \<Longrightarrow>
    onOpenComplete (env_of W) (Some h) IO_OPEN_OK m = Some m' \<Longrightarrow> client_op W h m (Opened cs) m'"
| Open_failed: "onOpenComplete (env_of W) (Some h) r m = Some m' \<Longrightarrow> client_op W h m (Open_failed r) m'"
| Bytes: "ext_bytes m q (unat n) = Some (map Some bs) \<Longrightarrow> n \<noteq> 0 \<Longrightarrow>
    onBytesReceived (env_of W) (Some h) (Some q) n m = Some m' \<Longrightarrow> client_op W h m (Bytes bs) m'"
| Send_completed: "sendComplete (env_of W) (Some h) r m = Some m' \<Longrightarrow> client_op W h m (Send_completed r) m'"
| Io_error: "onIoError (env_of W) (Some h) m = Some m' \<Longrightarrow> client_op W h m Io_error m'"
| Closed: "on_connection_closed (env_of W) (Some h) m = Some m' \<Longrightarrow> client_op W h m Closed m'"

section \<open>Simulation\<close>

text \<open>The memory \<open>m\<close> holds the client \<open>h\<close> in the state of the machine.\<close>

definition client_at :: "addr \<Rightarrow> u32 \<Rightarrow> 'w wmem \<Rightarrow> 'w state \<Rightarrow> bool" where
  "client_at h u m = (\<lambda>(c, d, w). attached m h u c \<and> heap_inv m \<and> client_ready m \<and> world m = w \<and>
     owns (str_rest m) (strings_of (mqttOptions c)) \<and>
     (\<exists>cd. codec_handle c = Some cd \<and> codec_at m cd (Some recvCompleteCallback_fn) (Some h) d))"

text \<open>What a step that does not free keeps.\<close>

definition same_owner :: "MQTT_CLIENT \<Rightarrow> MQTT_CLIENT \<Rightarrow> bool" where
  "same_owner c c' \<longleftrightarrow> packetTickCntr c' = packetTickCntr c \<and> logTrace c' = logTrace c \<and>
     codec_handle c' = codec_handle c \<and> (xioHandle c' = xioHandle c \<or> xioHandle c' = None)"

lemma kept_owner: "kept c c' \<Longrightarrow> same_owner c c' \<and> mqttOptions c' = mqttOptions c"
  by (simp add: kept_def same_owner_def)

lemma codec_at_cong:
  fixes m m' :: "'z cmem_scheme"
  assumes "codecs m' = codecs m" "buf_bytes m' = buf_bytes m"
  shows "codec_at m' = codec_at m"
  by (intro ext) (simp only: codec_at_def represents_def assms)

lemma client_at_holding:
  assumes M: "client_at h u m (c, d, w)" and H: "holding m F S (messages m) h (c', w') m'"
    and k: "same_owner c c'" and S: "owns S (strings_of (mqttOptions c'))"
  shows "client_at h u m' (c', d, w')"
proof -
  obtain cd where cd: "codec_handle c = Some cd" and C: "codec_at m cd (Some recvCompleteCallback_fn) (Some h) d"
    using M by (auto simp: client_at_def)
  have "codec_at m' cd (Some recvCompleteCallback_fn) (Some h) d"
    using C H codec_at_cong [of m' m] by (simp add: holding_def)
  then show ?thesis
    using M H k S cd
    by (auto simp: client_at_def attached_def same_owner_def holding_def client_ready_def alloc_total_def)
qed

lemma client_at_effect:
  assumes "client_at h u m (c, d, w)" "client_effect m h (c', w') m'" "kept c c'"
  shows "client_at h u m' (c', d, w')"
  using client_at_holding [OF assms(1), of "foreign m" "str_rest m" c' w' m'] assms kept_owner [OF assms(3)]
  by (auto simp: holding_effect client_at_def)

lemma client_at_put:
  assumes "client_at h u m (c, d, w)" "kept c c'"
  shows "client_at h u (put h (c', w') m) (c', d, w')"
  by (rule client_at_effect [OF assms(1) client_step_put assms(2)]) (use assms(1) in \<open>simp add: client_at_def\<close>)

text \<open>The arguments of a call are in memory.\<close>

fun args_in :: "addr \<Rightarrow> 'w wmem \<Rightarrow> client_call \<Rightarrow> bool" where
  "args_in h m (Do_publish v bs) \<longleftrightarrow> (\<exists>g. message_source m g v bs)"
| "args_in h m (Do_subscribe pid ss qs) \<longleftrightarrow> pid \<noteq> 0 \<and> (\<exists>items. subscribe_source items ss m \<and> qs = map qosReturn items)"
| "args_in h m (Do_unsubscribe pid ss) \<longleftrightarrow> pid \<noteq> 0 \<and> (\<exists>items. unsubscribe_source items ss m)"
| "args_in h m (Opened cs) \<longleftrightarrow> (\<exists>c. clients m h = Some c \<and> options_are m (mqttOptions c) cs)"
| "args_in h m (Bytes bs) \<longleftrightarrow> (\<exists>q n. ext_bytes m q (unat n) = Some (map Some bs) \<and> (n :: u32) \<noteq> 0)"
| "args_in h m _ \<longleftrightarrow> True"

section \<open>What the steps keep of the struct\<close>

lemma kept_writes [simp]:
  "kept c (c\<lparr>packetSendTimeMs := t\<rparr>)" "kept c (c\<lparr>packetState := p\<rparr>)"
  "kept c (c\<lparr>socketConnected := b\<rparr>)" "kept c (c\<lparr>disconnect_cb := cb\<rparr>)" "kept c (c\<lparr>disconnect_ctx := ctx\<rparr>)"
  by (simp_all add: kept_def)

lemma spec_keep_alive_kept: "kept c (fst (spec_keep_alive W h u c w))"
  using spec_error_kept [of c W h MQTT_CLIENT_NO_PING_RESPONSE "snd (w_tick W w)"]
    spec_send_kept [of c W h u "[PINGREQ_TYPE, 0]" "snd (w_tick W w)"]
  by (auto simp: spec_keep_alive_def spec_ping_def split_def Let_def kept_def)

lemma spec_dowork_kept: "kept c (fst (spec_dowork W h u c w))"
  by (simp add: spec_dowork_def spec_keep_alive_kept Let_def)

lemma spec_request_kept: "kept c (fst (snd (spec_request W h u type bs c w)))"
  unfolding spec_request_def by (rule kept_trans [OF _ spec_send_kept]) simp

lemma kept_opening: "kept c (c\<lparr>packetState := p, socketConnected := b\<rparr>)" "kept c (c\<lparr>socketConnected := b, clientConnected := b'\<rparr>)"
  by (simp_all add: kept_def)

lemma spec_opened_kept: "kept c (fst (spec_opened W h u cs c w))"
proof -
  have "kept c (fst (snd (spec_send W h u bs (c\<lparr>packetState := CONNECT_TYPE, socketConnected := True\<rparr>) w)))" for bs
    by (rule kept_trans [OF kept_opening(1) spec_send_kept])
  then show ?thesis by (simp add: spec_opened_def Let_def kept_opening)
qed

lemma spec_open_failed_kept: "kept c (fst (spec_open_failed W h c w))"
  by (simp add: spec_open_failed_def)

lemma spec_send_complete_kept: "kept c (fst (spec_send_complete W h r c w))"
  by (cases r) (simp_all add: spec_send_complete_def)

lemma spec_closed_kept: "kept c (fst (spec_closed W c w))"
  by (simp add: spec_closed_def Let_def kept_opening)

lemma spec_disconnect_owner:
  "same_owner c (fst (snd (spec_disconnect W h u cb ctx c w)))"
  "strings_of (mqttOptions (fst (snd (spec_disconnect W h u cb ctx c w)))) = [None, None, None, None, None]"
proof -
  let ?c1 = "c\<lparr>disconnect_cb := cb, disconnect_ctx := ctx, packetState := DISCONNECT_TYPE\<rparr>"
  let ?c2 = "c\<lparr>disconnect_cb := cb, disconnect_ctx := ctx\<rparr>"
  have k: "kept ?c1 (fst (snd (spec_send W h u [DISCONNECT_TYPE, 0] ?c1 w)))" "kept ?c2 (fst (spec_close W h ?c2 w))"
    by (rule spec_send_kept spec_close_kept)+
  show "same_owner c (fst (snd (spec_disconnect W h u cb ctx c w)))"
    using k by (simp add: spec_disconnect_def split_def Let_def kept_def same_owner_def)
  show "strings_of (mqttOptions (fst (snd (spec_disconnect W h u cb ctx c w)))) = [None, None, None, None, None]"
    by (simp add: spec_disconnect_def split_def Let_def strings_of_def no_strings_def)
qed

section \<open>Each call\<close>

text \<open>A run of the code that ends in the state \<open>t\<close> of the machine.\<close>

abbreviation ends_at :: "addr \<Rightarrow> u32 \<Rightarrow> 'w wmem option \<Rightarrow> 'w state \<Rightarrow> bool" where
  "ends_at h u x t \<equiv> ok x (\<lambda>m'. client_at h u m' t)"

abbreviation returns_at :: "addr \<Rightarrow> u32 \<Rightarrow> ('r \<times> 'w wmem) option \<Rightarrow> 'w state \<Rightarrow> bool" where
  "returns_at h u x t \<equiv> ok x (\<lambda>(r, m'). client_at h u m' t)"

lemma client_atD:
  assumes "client_at h u m (c, d, w)"
  shows "attached m h u c" "heap_inv m" "client_ready m" "alloc_total m" "world m = w"
    "owns (str_rest m) (strings_of (mqttOptions c))"
  using assms by (auto simp: client_at_def client_ready_def)

lemma effect_at:
  "client_at h u m (c, d, w) \<Longrightarrow> client_effect m h t m' \<Longrightarrow> kept c (fst t) \<Longrightarrow> client_at h u m' (fst t, d, snd t)"
  by (rule client_at_effect) simp_all

lemma put_at: "client_at h u m (c, d, w) \<Longrightarrow> kept c (fst t) \<Longrightarrow> client_at h u (put h t m) (fst t, d, snd t)"
  using client_at_put [of h u m c d w "fst t" "snd t"] by simp

lemma work_refines:
  assumes M: "client_at h u m (c, d, w)" and S: "spec_call W h u Do_work (c, d, w) = Some s"
  shows "ends_at h u (mqtt_client_dowork (env_of W) (Some h) m) s"
  by (rule ok_mono [OF dowork_spec [OF client_atD(1,2,4) [OF M]]])
    (use S client_atD(5) [OF M] effect_at [OF M _ spec_dowork_kept] in \<open>auto simp: split_def Let_def\<close>)

lemma request_at:
  assumes M: "client_at h u m (c, d, w)"
    and S: "(if v then let (_, c, w) = spec_request W h u type bs c w in Some (c, d, w) else Some (c, d, w)) = Some s"
    and R: "if v then r = fst (spec_request W h u type bs c w) \<and> client_effect m h (snd (spec_request W h u type bs c w)) m'
      else r = FAILURE \<and> client_effect m h (c, w) m'"
  shows "client_at h u m' s"
  using S R effect_at [OF M, of "snd (spec_request W h u type bs c w)" m'] effect_at [OF M, of "(c, w)" m']
  by (auto simp: split_def Let_def spec_request_kept split: if_splits)

lemma publish_refines:
  assumes M: "client_at h u m (c, d, w)" and S: "spec_call W h u (Do_publish v bs) (c, d, w) = Some s"
    and src: "message_source m g v bs"
  shows "returns_at h u (mqtt_client_publish (env_of W) (Some h) (Some g) m) s"
  by (rule ok_mono2 [OF client_publish_spec [OF client_atD(1,2,4) [OF M] src]])
    (simp only: prod.case client_atD(5) [OF M], rule request_at [OF M S [unfolded spec_call.simps]])

lemma subscribe_refines:
  assumes M: "client_at h u m (c, d, w)" and S: "spec_call W h u (Do_subscribe pid ss (map qosReturn items)) (c, d, w) = Some s"
    and src: "subscribe_source items ss m" and pid: "pid \<noteq> 0"
  shows "returns_at h u (mqtt_client_subscribe (env_of W) (Some h) pid (Some items) (of_nat (length items)) m) s"
  by (rule ok_mono2 [OF client_subscribe_spec [OF client_atD(1,2,4) [OF M] src pid]])
    (simp only: prod.case client_atD(5) [OF M], rule request_at [OF M S [unfolded spec_call.simps]])

lemma unsubscribe_refines:
  assumes M: "client_at h u m (c, d, w)" and S: "spec_call W h u (Do_unsubscribe pid ss) (c, d, w) = Some s"
    and src: "unsubscribe_source items ss m" and pid: "pid \<noteq> 0"
  shows "returns_at h u (mqtt_client_unsubscribe (env_of W) (Some h) pid (Some items) (of_nat (length items)) m) s"
  by (rule ok_mono2 [OF client_unsubscribe_spec [OF client_atD(1,2,4) [OF M] src pid]])
    (simp only: prod.case client_atD(5) [OF M], rule request_at [OF M S [unfolded spec_call.simps]])

lemma disconnect_refines:
  assumes M: "client_at h u m (c, d, w)" and S: "spec_call W h u (Do_disconnect cb ctx) (c, d, w) = Some s"
  shows "returns_at h u (mqtt_client_disconnect (env_of W) (Some h) cb ctx m) s"
proof (rule ok_mono2 [OF disconnect_spec [OF client_atD(1,2,4,6) [OF M]]], goal_cases)
  case (1 r m')
  let ?s = "snd (spec_disconnect W h u cb ctx c w)"
  have own: "owns F (strings_of (mqttOptions (fst ?s)))" for F
    by (simp add: spec_disconnect_owner owns_def List.map_filter_def)
  have "holding m (foreign m) (without (strings_of (mqttOptions c)) (str_rest m)) (messages m) h (fst ?s, snd ?s) m'"
    using 1 client_atD(5) [OF M] by simp
  from client_at_holding [OF M this spec_disconnect_owner(1) own] have "client_at h u m' (fst ?s, d, snd ?s)" .
  then show ?case using S by (simp add: split_def Let_def)
qed

lemma opened_refines:
  assumes M: "client_at h u m (c, d, w)" and S: "spec_call W h u (Opened cs) (c, d, w) = Some s"
    and O: "options_are m (mqttOptions c) cs"
  shows "ends_at h u (onOpenComplete (env_of W) (Some h) IO_OPEN_OK m) s"
proof -
  have new: "\<not> socketConnected c" using S by (auto split: if_splits)
  show ?thesis
    by (rule ok_mono [OF onOpenComplete_spec [OF client_atD(1,2,4) [OF M] new O]])
      (use S new client_atD(5) [OF M] effect_at [OF M _ spec_opened_kept] in \<open>auto simp: split_def Let_def\<close>)
qed

lemma open_failed_refines:
  assumes M: "client_at h u m (c, d, w)" and S: "spec_call W h u (Open_failed r) (c, d, w) = Some s"
  shows "ends_at h u (onOpenComplete (env_of W) (Some h) r m) s"
proof -
  have bad: "r \<noteq> IO_OPEN_OK \<or> socketConnected c" using S by (auto split: if_splits)
  then have n: "\<not> (r = IO_OPEN_OK \<and> \<not> socketConnected c)" by blast
  have "s = (fst (spec_open_failed W h c w), d, snd (spec_open_failed W h c w))"
    using S unfolding spec_call.simps if_not_P [OF n] by (simp add: split_def Let_def)
  then show ?thesis
    using onOpenComplete_failed_eq [OF client_atD(1) [OF M] bad, of W] client_atD(5) [OF M] put_at [OF M spec_open_failed_kept]
    by simp
qed

lemma bytes_refines:
  assumes M: "client_at h u m (c, d, w)" and S: "spec_call W h u (Bytes bs) (c, d, w) = Some s"
    and bs: "ext_bytes m q (unat n) = Some (map Some bs)" "n \<noteq> 0"
  shows "ends_at h u (onBytesReceived (env_of W) (Some h) (Some q) n m) s"
proof -
  obtain d1 es good t where D: "decoder_run d bs = Some (d1, es, good)" and E: "spec_deliveries W h u es (c, w) = Some t"
    using S by (auto split: Option.bind_splits)
  let ?t = "if good then t else spec_error W h MQTT_CLIENT_PARSE_ERROR (fst t) (snd t)"
  have s: "s = (fst ?t, d1, snd ?t)" using S D E by (cases good) (simp_all add: split_def Let_def)
  have k: "kept c (fst ?t)"
    using spec_deliveries_kept [OF E] by (auto intro: kept_trans [OF spec_deliveries_kept [OF E] spec_error_kept])
  obtain cd where cd: "codec_handle c = Some cd" "codec_at m cd (Some recvCompleteCallback_fn) (Some h) d"
    using M by (auto simp: client_at_def)
  have E': "spec_deliveries W h u es (c, world m) = Some t" using E client_atD(5) [OF M] by simp
  show ?thesis
    unfolding s
    by (rule ok_mono [OF onBytesReceived_spec [OF client_atD(1-3) [OF M] cd bs D E']])
      (use k client_atD(6) [OF M] cd(1) in \<open>auto simp: client_at_def receiving_def kept_def simp del: split_paired_Ex\<close>)
qed

lemma callback_refines:
  assumes M: "client_at h u m (c, d, w)"
  shows "spec_call W h u (Send_completed r) (c, d, w) = Some s \<Longrightarrow> ends_at h u (sendComplete (env_of W) (Some h) r m) s"
    and "spec_call W h u Io_error (c, d, w) = Some s \<Longrightarrow> ends_at h u (onIoError (env_of W) (Some h) m) s"
    and "spec_call W h u Closed (c, d, w) = Some s \<Longrightarrow> ends_at h u (on_connection_closed (env_of W) (Some h) m) s"
proof -
  note A = client_atD(1) [OF M] and w = client_atD(5) [OF M]
  show "spec_call W h u (Send_completed r) (c, d, w) = Some s \<Longrightarrow> ends_at h u (sendComplete (env_of W) (Some h) r m) s"
    using sendComplete_eq [OF A, of W r] put_at [OF M spec_send_complete_kept] w by (auto simp: split_def Let_def)
  show "spec_call W h u Io_error (c, d, w) = Some s \<Longrightarrow> ends_at h u (onIoError (env_of W) (Some h) m) s"
    using onIoError_eq [OF A, of W] put_at [OF M spec_error_kept] put_at [OF M, of "(c, w)"] w
    by (auto simp: split_def Let_def split: if_splits)
  show "spec_call W h u Closed (c, d, w) = Some s \<Longrightarrow> ends_at h u (on_connection_closed (env_of W) (Some h) m) s"
    using on_connection_closed_eq [OF A, of W] put_at [OF M spec_closed_kept] w by (auto simp: split_def Let_def)
qed

section \<open>Runs\<close>

lemma client_at_client: "client_at h u m (c, d, w) \<Longrightarrow> clients m h = Some c' \<Longrightarrow> c' = c"
  by (auto simp: client_at_def attached_def)

lemma client_op_refines:
  assumes M: "client_at h u m s" and S: "spec_call W h u a s = Some s'" and op: "client_op W h m a m'"
  shows "client_at h u m' s'"
proof -
  obtain c d w where s: "s = (c, d, w)" by (cases s)
  note M = M [unfolded s] and S = S [unfolded s]
  show ?thesis
    using op
  proof cases
    case Work
    then show ?thesis using work_refines [OF M] S by fastforce
  next
    case (Publish g v bs r)
    then show ?thesis using publish_refines [OF M, of W v bs s' g] S by simp
  next
    case (Subscribe items ss pid r)
    then show ?thesis using subscribe_refines [OF M, of W pid ss items s'] S by simp
  next
    case (Unsubscribe items ss pid r)
    then show ?thesis using unsubscribe_refines [OF M, of W pid ss s' items] S by simp
  next
    case (Disconnect cb ctx r)
    then show ?thesis using disconnect_refines [OF M, of W cb ctx s'] S by simp
  next
    case (Opened c' cs)
    have "ends_at h u (onOpenComplete (env_of W) (Some h) IO_OPEN_OK m) s'"
      by (rule opened_refines [OF M S [unfolded Opened(1)]])
        (use Opened(3) client_at_client [OF M Opened(2)] in simp)
    then show ?thesis using Opened(4) by simp
  next
    case (Open_failed r)
    then show ?thesis using open_failed_refines [OF M, of W r s'] S by simp
  next
    case (Bytes q n bs)
    then show ?thesis using bytes_refines [OF M, of W bs s' q n] S by simp
  next
    case (Send_completed r)
    then show ?thesis using callback_refines(1) [OF M, of W r s'] S by simp
  next
    case Io_error
    then show ?thesis using callback_refines(2) [OF M, of W s'] S by simp
  next
    case Closed
    then show ?thesis using callback_refines(3) [OF M, of W s'] S by simp
  qed
qed

lemma returnsD: "returns_at h u x s \<Longrightarrow> \<exists>r m'. x = Some (r, m')"
  by (cases x) auto

lemma endsD: "ends_at h u x s \<Longrightarrow> \<exists>m'. x = Some m'"
  by (cases x) auto

lemma client_op_progress:
  assumes M: "client_at h u m s" and S: "spec_call W h u a s = Some s'" and args: "args_in h m a"
  shows "\<exists>m'. client_op W h m a m'"
proof -
  obtain c d w where s: "s = (c, d, w)" by (cases s)
  note M = M [unfolded s] and S = S [unfolded s]
  have c: "clients m h = Some c" using M by (simp add: client_at_def attached_def)
  show ?thesis
  proof (cases a)
    case Do_work
    then show ?thesis using endsD [OF work_refines [OF M]] S by (blast intro: client_op.Work)
  next
    case (Do_publish v bs)
    then obtain g where "message_source m g v bs" using args by auto
    then show ?thesis using returnsD [OF publish_refines [OF M]] S Do_publish by (blast intro: client_op.Publish)
  next
    case (Do_subscribe pid ss qs)
    then obtain items where "subscribe_source items ss m" "pid \<noteq> 0" "qs = map qosReturn items" using args by auto
    then show ?thesis using returnsD [OF subscribe_refines [OF M]] S Do_subscribe by (blast intro: client_op.Subscribe)
  next
    case (Do_unsubscribe pid ss)
    then obtain items where "unsubscribe_source items ss m" "pid \<noteq> 0" using args by auto
    then show ?thesis using returnsD [OF unsubscribe_refines [OF M]] S Do_unsubscribe by (blast intro: client_op.Unsubscribe)
  next
    case (Do_disconnect cb ctx)
    then show ?thesis using returnsD [OF disconnect_refines [OF M]] S by (blast intro: client_op.Disconnect)
  next
    case (Opened cs)
    then have "options_are m (mqttOptions c) cs" using args c by simp
    then show ?thesis using endsD [OF opened_refines [OF M]] S c Opened by (blast intro: client_op.Opened)
  next
    case (Open_failed r)
    then show ?thesis using endsD [OF open_failed_refines [OF M]] S by (blast intro: client_op.Open_failed)
  next
    case (Bytes bs)
    then obtain q n where "ext_bytes m q (unat n) = Some (map Some bs)" "(n :: u32) \<noteq> 0" using args by auto
    then show ?thesis using endsD [OF bytes_refines [OF M]] S Bytes by (blast intro: client_op.Bytes)
  next
    case (Send_completed r)
    then show ?thesis using endsD [OF callback_refines(1) [OF M]] S by (blast intro: client_op.Send_completed)
  next
    case Io_error
    then show ?thesis using endsD [OF callback_refines(2) [OF M]] S by (blast intro: client_op.Io_error)
  next
    case Closed
    then show ?thesis using endsD [OF callback_refines(3) [OF M]] S by (blast intro: client_op.Closed)
  qed
qed

text \<open>A run of the code and of the machine.\<close>

inductive client_runs :: "'w world_ops \<Rightarrow> addr \<Rightarrow> 'w wmem \<Rightarrow> client_call list \<Rightarrow> 'w wmem \<Rightarrow> bool" for W h where
  Stop: "client_runs W h m [] m"
| Step: "client_op W h m a m1 \<Longrightarrow> client_runs W h m1 as m' \<Longrightarrow> client_runs W h m (a # as) m'"

inductive_cases client_runs_NilE: "client_runs W h m [] m'"
inductive_cases client_runs_ConsE: "client_runs W h m (a # as) m'"

fun spec_calls :: "'w world_ops \<Rightarrow> addr \<Rightarrow> u32 \<Rightarrow> client_call list \<Rightarrow> 'w state \<Rightarrow> 'w state option" where
  "spec_calls W h u [] s = Some s"
| "spec_calls W h u (a # as) s = do { s \<leftarrow> spec_call W h u a s; spec_calls W h u as s }"

lemma client_runs_refine:
  "client_runs W h m as m' \<Longrightarrow> client_at h u m s \<Longrightarrow> spec_calls W h u as s = Some s' \<Longrightarrow> client_at h u m' s'"
proof (induction arbitrary: s rule: client_runs.induct)
  case (Step m a m1 as m')
  then obtain s1 where "spec_call W h u a s = Some s1" "spec_calls W h u as s1 = Some s'"
    by (auto split: Option.bind_splits)
  then show ?case using Step.IH client_op_refines [OF Step.prems(1) _ Step.hyps(1)] by blast
qed simp

end
