(* ===== verification/Client_Wire.thy ===== *)
theory Client_Wire
  imports Client_Machine
begin

text \<open>
  From one client to another: the bytes that publishing a message sends, read by the machine of
  a client that receives them.
\<close>

section \<open>Reading what was written\<close>

lemma read16_be16: "read16 (be16 v @ r) = v"
proof -
  have b: "unat v < 65536" using unsigned_less [of v] by simp
  then have d: "unat v div 256 < 256" by (simp add: less_mult_imp_div_less)
  have "unat (ucast (v div 256) :: u8) = unat v div 256" "unat (ucast (v mod 256) :: u8) = unat v mod 256"
    using b d by (simp_all add: unsigned_ucast_eq take_bit_eq_mod unat_div unat_mod)
  then have "unat (256 * ucast (ucast (v div 256) :: u8) + ucast (ucast (v mod 256) :: u8) :: u16) = unat v"
    using b d by (simp add: unat_word_ariths unsigned_ucast_eq take_bit_eq_mod unat_div unat_mod)
  then show ?thesis by (simp add: be16_def word_unat_eq_iff)
qed

lemma read16_utf: "length s \<le> 65535 \<Longrightarrow> unat (read16 (utf s @ r)) = length s"
  by (simp add: utf_def read16_be16 unat_of_nat)

definition qos_ok :: "QOS_VALUE \<Rightarrow> bool" where
  "qos_ok q \<longleftrightarrow> q \<in> {DELIVER_AT_MOST_ONCE, DELIVER_AT_LEAST_ONCE, DELIVER_EXACTLY_ONCE}"

text \<open>A flag that is not a QoS flag makes a packet without one count as EXACTLY_ONCE.\<close>

lemma received_flags:
  assumes "qos_ok q"
  shows "publish_qos (uint (publish_flags q dup retain)) =
      (if q = DELIVER_AT_MOST_ONCE \<and> (dup \<or> retain) then DELIVER_EXACTLY_ONCE else q)"
    and "uint (publish_flags q dup retain) AND DUPLICATE_FLAG_MASK \<noteq> 0 \<longleftrightarrow> dup"
    and "uint (publish_flags q dup retain) AND RETAIN_FLAG_MASK \<noteq> 0 \<longleftrightarrow> retain"
  using assms unfolding qos_ok_def
  by (cases dup; cases retain; auto simp: publish_flags_def publish_qos_def c_consts QOS_LEAST_ONCE_FLAG_MASK_def
      DUPLICATE_FLAG_MASK_def RETAIN_FLAG_MASK_def)+

lemma parse_topic:
  assumes "length topic \<le> 65535" "topic \<noteq> []"
  shows "parse_publish flags (utf topic @ r) =
    (if publish_qos flags = DELIVER_AT_MOST_ONCE \<or> length r < 2 then Publish topic 0 r
     else Publish topic (read16 r) (drop 2 r))"
proof -
  have "drop 2 (utf topic) = topic" by (simp add: utf_def)
  then show ?thesis using read16_utf [OF assms(1), of r] assms(2) by (simp add: parse_publish_def Let_def del: drop_drop)
qed

lemma parse_published:
  assumes "length (v_topic v) \<le> 65535" "v_topic v \<noteq> []" "qos_ok (v_qos v)"
    and "v_qos v \<noteq> DELIVER_AT_MOST_ONCE \<or> \<not> v_dup v \<and> \<not> v_retained v"
  shows "parse_publish (uint (publish_flags (v_qos v) (v_dup v) (v_retained v)))
      (publish_header (v_topic v) (v_qos v) (v_id v) @ bs) =
    Publish (v_topic v) (if v_qos v = DELIVER_AT_MOST_ONCE then 0 else v_id v) bs"
  using assms parse_topic [OF assms(1,2)] received_flags(1) [OF assms(3), of "v_dup v" "v_retained v"]
    read16_be16 [of "v_id v" bs]
  by (auto simp: publish_header_def)

text \<open>A duplicate or retained message without QoS: the payload is read as beginning with a packet id.\<close>

lemma parse_published_flagged:
  assumes "length (v_topic v) \<le> 65535" "v_topic v \<noteq> []" "v_qos v = DELIVER_AT_MOST_ONCE" "v_dup v \<or> v_retained v"
  shows "parse_publish (uint (publish_flags (v_qos v) (v_dup v) (v_retained v)))
      (publish_header (v_topic v) (v_qos v) (v_id v) @ bs) =
    (if length bs < 2 then Publish (v_topic v) 0 bs else Publish (v_topic v) (read16 bs) (drop 2 bs))"
  using assms parse_topic [OF assms(1,2)] received_flags(1) [of "v_qos v" "v_dup v" "v_retained v"]
  by (auto simp: publish_header_def qos_ok_def c_consts)

lemma run_message_packet:
  assumes "length (publish_header (v_topic v) (v_qos v) (v_id v) @ bs) < 2 ^ 21"
  shows "decoder_run idle (message_packet v bs) = Some (idle,
    [Delivery PUBLISH_TYPE (uint (publish_flags (v_qos v) (v_dup v) (v_retained v)))
      (Some (map Some (publish_header (v_topic v) (v_qos v) (v_id v) @ bs)))], True)"
  unfolding message_packet_def
  by (rule run_packet [OF builder_types(1) small_flags(3) _ assms]) (simp add: publish_header_def utf_def be16_def)

lemma publish_body_ne: "publish_header t q i @ bs \<noteq> []"
  by (simp add: publish_header_def utf_def be16_def)

text \<open>What a client that listens for messages does with the bytes of a message.\<close>

lemma spec_receive:
  fixes W :: "'w world_ops" and w :: 'w
  assumes len: "length (publish_header (v_topic v) (v_qos v) (v_id v) @ bs) < 2 ^ 21"
    and f: "fnMessageRecv c = Some f"
    and P: "parse_publish (uint (publish_flags (v_qos v) (v_dup v) (v_retained v)))
      (publish_header (v_topic v) (v_qos v) (v_id v) @ bs) = Publish topic i payload"
  defines "w1 \<equiv> w_message W f (op_ctx c)
      (received_message (uint (publish_flags (v_qos v) (v_dup v) (v_retained v))) topic i payload) w"
    and "q \<equiv> publish_qos (uint (publish_flags (v_qos v) (v_dup v) (v_retained v)))"
  shows "spec_call W h u (Bytes (message_packet v bs)) (c, idle, w) =
    (let s = (if q = DELIVER_EXACTLY_ONCE then snd (spec_send W h u (packet PUBREC_TYPE 0 (be16 i)) c w1)
              else if q = DELIVER_AT_LEAST_ONCE then snd (spec_send W h u (packet PUBACK_TYPE 0 (be16 i)) c w1)
              else (c, w1))
     in Some (fst s, idle, snd s))"
proof -
  have t: "PUBLISH_TYPE \<noteq> PINGRESP_TYPE" by (simp add: c_consts)
  have b: "body_of (Some (map Some (publish_header (v_topic v) (v_qos v) (v_id v) @ bs))) =
      Some (publish_header (v_topic v) (v_qos v) (v_id v) @ bs)"
    by (simp only: body_of_Some)
  show ?thesis
    using run_message_packet [OF len] f P
    by (simp only: spec_call.simps Option.bind.bind_lunit prod.case spec_deliveries.simps spec_delivery.simps t if_False b
        publish_body_ne spec_packet_def if_True spec_publish_def option.case publish_packet.case w1_def q_def Let_def)
      (simp add: split_def)
qed

lemma received_is_sent:
  assumes "qos_ok (v_qos v)" "v_qos v \<noteq> DELIVER_AT_MOST_ONCE \<or> \<not> v_dup v \<and> \<not> v_retained v"
    and "0 \<notin> set (v_topic v)" "v_payload v = map Some bs"
    and "i = (if v_qos v = DELIVER_AT_MOST_ONCE then 0 else v_id v)"
  shows "received_message (uint (publish_flags (v_qos v) (v_dup v) (v_retained v))) (v_topic v) i bs = v\<lparr>v_id := i\<rparr>"
proof -
  have "takeWhile (\<lambda>b. b \<noteq> 0) (v_topic v) = v_topic v" using assms(3) by (auto simp: takeWhile_eq_all_conv)
  then show ?thesis
    using assms received_flags [OF assms(1), of "v_dup v" "v_retained v"]
    by (cases v) (auto simp: received_message_def)
qed

end
