(* ===== verification/Client_Invariants.thy ===== *)
theory Client_Invariants
  imports Client_Wire
begin

text \<open>What every run of a client keeps, and the arithmetic of its clock.\<close>

section \<open>Fields\<close>

text \<open>The fields that only some steps change.\<close>

definition same_fields :: "MQTT_CLIENT \<Rightarrow> MQTT_CLIENT \<Rightarrow> bool" where
  "same_fields c c' \<longleftrightarrow> packetState c' = packetState c \<and> maxPingRespTime c' = maxPingRespTime c \<and>
     client_keepAlive c' = client_keepAlive c \<and> client_qosValue c' = client_qosValue c \<and> socketConnected c' = socketConnected c"

lemma same_fields_refl [simp]: "same_fields c c"
  by (simp add: same_fields_def)

lemma same_fields_trans: "same_fields c1 c2 \<Longrightarrow> same_fields c2 c3 \<Longrightarrow> same_fields c1 c3"
  by (simp add: same_fields_def)

lemma same_fields_updates [simp]:
  "same_fields c (c\<lparr>clientConnected := b\<rparr>)" "same_fields c (c\<lparr>timeSincePing := t\<rparr>)"
  by (simp_all add: same_fields_def)

lemma spec_close_fields [simp]:
  "same_fields c (fst (spec_close W h c w))" "clientConnected (fst (spec_close W h c w)) = clientConnected c"
  by (simp_all add: spec_close_def same_fields_def Let_def)

lemma spec_error_fields [simp]:
  "same_fields c (fst (spec_error W h e c w))" "clientConnected (fst (spec_error W h e c w)) = clientConnected c"
  by (simp_all add: spec_error_def)

lemma spec_send_fields [simp]:
  "same_fields c (fst (snd (spec_send W h u bs c w)))" "clientConnected (fst (snd (spec_send W h u bs c w))) = clientConnected c"
  by (simp_all add: spec_send_def same_fields_def split_def Let_def)

lemma spec_delivery_fields: "spec_delivery W h u e (c, w) = Some s \<Longrightarrow> same_fields c (fst s)"
  by (cases e) (auto simp: bind_eq_Some_conv spec_packet_def spec_publish_def spec_puback_def Let_def
      split: if_splits option.splits publish_packet.splits list.splits)

lemma spec_deliveries_fields: "spec_deliveries W h u es (c, w) = Some s \<Longrightarrow> same_fields c (fst s)"
proof (induction es arbitrary: c w)
  case (Cons e es)
  then obtain c1 w1 where 1: "spec_delivery W h u e (c, w) = Some (c1, w1)" "spec_deliveries W h u es (c1, w1) = Some s"
    by (auto split: Option.bind_splits)
  then show ?case using same_fields_trans [OF spec_delivery_fields [OF 1(1)]] Cons.IH by simp
qed auto

section \<open>The range of the fields\<close>

definition client_types :: "MQTT_CLIENT \<Rightarrow> bool" where
  "client_types c \<longleftrightarrow> maxPingRespTime c \<le> DEFAULT_MAX_PING_RESPONSE_TIME \<and>
     packetState c \<in> {UNKNOWN_TYPE, CONNECT_TYPE, PUBLISH_TYPE, SUBSCRIBE_TYPE, UNSUBSCRIBE_TYPE, DISCONNECT_TYPE}"

lemma client_types_new: "client_types (new_client f op opctx err errctx t d)"
  by (simp add: client_types_def new_client_def)

lemma client_types_connecting: "client_types (connecting x opts c)"
  by (auto simp: client_types_def connecting_def ping_limit_def not_less)

lemma client_types_fields: "same_fields c c' \<Longrightarrow> client_types c' = client_types c"
  by (simp add: same_fields_def client_types_def)

lemma client_types_state:
  "p \<in> {UNKNOWN_TYPE, CONNECT_TYPE, PUBLISH_TYPE, SUBSCRIBE_TYPE, UNSUBSCRIBE_TYPE, DISCONNECT_TYPE} \<Longrightarrow> client_types c \<Longrightarrow>
   client_types (c\<lparr>packetState := p\<rparr>)"
  by (simp add: client_types_def)

lemma client_types_updates [simp]:
  "client_types (c\<lparr>clientConnected := b\<rparr>) = client_types c" "client_types (c\<lparr>socketConnected := b\<rparr>) = client_types c"
  "client_types (c\<lparr>timeSincePing := t\<rparr>) = client_types c" "client_types (c\<lparr>packetSendTimeMs := t\<rparr>) = client_types c"
  "client_types (c\<lparr>disconnect_cb := cb\<rparr>) = client_types c" "client_types (c\<lparr>disconnect_ctx := ctx\<rparr>) = client_types c"
  "client_types (c\<lparr>mqttOptions := o1\<rparr>) = client_types c" "client_types (c\<lparr>xioHandle := x\<rparr>) = client_types c"
  by (simp_all add: client_types_def)

lemma spec_types [simp]:
  "client_types (fst (spec_close W h c w)) = client_types c"
  "client_types (fst (spec_error W h e c w)) = client_types c"
  "client_types (fst (snd (spec_send W h u bs c w))) = client_types c"
  by (rule client_types_fields; simp)+

lemma spec_call_types:
  assumes T: "client_types c" and S: "spec_call W h u a (c, d, w) = Some s"
  shows "client_types (fst s)"
proof (cases a)
  case Do_work
  have "client_types (fst (spec_keep_alive W h u c w))" for w
    using T by (auto simp: spec_keep_alive_def spec_ping_def split_def Let_def intro!: client_types_state)
  then show ?thesis using S T Do_work by (auto simp: spec_dowork_def split_def Let_def)
qed (use assms in \<open>auto simp: spec_request_def spec_opened_def spec_open_failed_def spec_closed_def
    spec_send_complete_def spec_disconnect_def split_def Let_def client_types_state
    split: if_splits Option.bind_splits IO_SEND_RESULT.splits dest!: spec_deliveries_fields client_types_fields\<close>)

lemma spec_calls_types: "spec_calls W h u as s = Some s' \<Longrightarrow> client_types (fst s) \<Longrightarrow> client_types (fst s')"
proof (induction as arbitrary: s)
  case (Cons a as)
  then obtain s1 where "spec_call W h u a s = Some s1" "spec_calls W h u as s1 = Some s'"
    by (auto split: Option.bind_splits)
  then show ?case using Cons spec_call_types [of "fst s" W h u a "fst (snd s)" "snd (snd s)" s1] by simp
qed simp

section \<open>Connected clients\<close>

text \<open>The io layer delivers bytes only while the connection is open.\<close>

fun io_ordered :: "'w world_ops \<Rightarrow> addr \<Rightarrow> u32 \<Rightarrow> client_call list \<Rightarrow> 'w state \<Rightarrow> bool" where
  "io_ordered W h u [] s \<longleftrightarrow> True"
| "io_ordered W h u (a # as) s \<longleftrightarrow> (case a of Bytes bs \<Rightarrow> socketConnected (fst s) | _ \<Rightarrow> True) \<and>
     (case spec_call W h u a s of None \<Rightarrow> True | Some s1 \<Rightarrow> io_ordered W h u as s1)"

definition connected_open :: "MQTT_CLIENT \<Rightarrow> bool" where
  "connected_open c \<longleftrightarrow> (clientConnected c \<longrightarrow> socketConnected c)"

lemma connected_open_new: "connected_open (new_client f op opctx err errctx t d)"
  by (simp add: connected_open_def new_client_def zero_client_def)

lemma same_open: "same_fields c c' \<Longrightarrow> clientConnected c' = clientConnected c \<Longrightarrow> connected_open c' = connected_open c"
  by (simp add: connected_open_def same_fields_def)

lemma connected_open_fields [simp]:
  "connected_open (fst (spec_close W h c w)) = connected_open c"
  "connected_open (fst (spec_error W h e c w)) = connected_open c"
  "connected_open (fst (snd (spec_send W h u bs c w))) = connected_open c"
  by (rule same_open; simp)+

lemma connected_open_updates [simp]:
  "connected_open (c\<lparr>packetState := p\<rparr>) = connected_open c" "connected_open (c\<lparr>packetSendTimeMs := t\<rparr>) = connected_open c"
  "connected_open (c\<lparr>timeSincePing := t\<rparr>) = connected_open c" "connected_open (c\<lparr>mqttOptions := o1\<rparr>) = connected_open c"
  "connected_open (c\<lparr>disconnect_cb := cb\<rparr>) = connected_open c" "connected_open (c\<lparr>disconnect_ctx := ctx\<rparr>) = connected_open c"
  "connected_open (c\<lparr>xioHandle := x\<rparr>) = connected_open c" "connected_open (c\<lparr>socketConnected := True\<rparr>)"
  "connected_open (c\<lparr>clientConnected := False\<rparr>)"
  by (simp_all add: connected_open_def)

lemma spec_call_connected:
  assumes T: "connected_open c" and O: "\<And>bs. a = Bytes bs \<Longrightarrow> socketConnected c" and S: "spec_call W h u a (c, d, w) = Some s"
  shows "connected_open (fst s)"
proof (cases a)
  case (Bytes bs)
  then obtain d1 es good t where D: "decoder_run d bs = Some (d1, es, good)" and E: "spec_deliveries W h u es (c, w) = Some t"
    using S by (auto split: Option.bind_splits)
  have s: "fst s = fst (if good then t else spec_error W h MQTT_CLIENT_PARSE_ERROR (fst t) (snd t))"
    using S Bytes D E by (cases good) (auto simp: split_def Let_def)
  have "socketConnected (fst s)"
    using spec_deliveries_fields [OF E] O [OF Bytes] spec_error_fields(1) [of "fst t" W h MQTT_CLIENT_PARSE_ERROR "snd t"]
    by (auto simp: s same_fields_def)
  then show ?thesis by (simp add: connected_open_def)
next
  case Do_work
  have "connected_open (fst (spec_keep_alive W h u c w))" for w
    using T by (auto simp: spec_keep_alive_def spec_ping_def split_def Let_def)
  then show ?thesis using S T Do_work by (auto simp: spec_dowork_def split_def Let_def)
qed (use assms in \<open>auto simp: spec_request_def spec_opened_def spec_open_failed_def spec_closed_def
    spec_send_complete_def spec_disconnect_def split_def Let_def
    split: if_splits Option.bind_splits IO_SEND_RESULT.splits\<close>)

lemma spec_calls_connected:
  "spec_calls W h u as s = Some s' \<Longrightarrow> io_ordered W h u as s \<Longrightarrow> connected_open (fst s) \<Longrightarrow> connected_open (fst s')"
proof (induction as arbitrary: s)
  case (Cons a as)
  then obtain s1 where "spec_call W h u a s = Some s1" "spec_calls W h u as s1 = Some s'"
    by (auto split: Option.bind_splits)
  moreover have "connected_open (fst s1)"
    by (rule spec_call_connected [of "fst s" a W h u "fst (snd s)" "snd (snd s)"]) (use Cons.prems calculation in auto)
  ultimately show ?case using Cons.IH [of s1] Cons.prems(2) by simp
qed simp

lemma client_at_read: "client_at h u m (c, d, w) \<Longrightarrow> clients m h = Some c \<and> world m = w"
  by (auto simp: client_at_def attached_def)

lemma init_client_at:
  fixes m :: "'w wmem" and W :: "'w world_ops"
  assumes "heap_inv m" "client_ready m"
  shows "ok (mqtt_client_init (env_of W) (Some f) op opctx err errctx m) (\<lambda>(r, m'). r = Some (brk m) \<and>
    client_at (brk m) (fst (w_tick W (world m))) m'
      (new_client (Some f) op opctx err errctx (Some (brk m + 1)) (Some (brk m + 2)), idle, world m'))"
  by (rule ok_mono [OF init_attached [OF assms, of W f op opctx err errctx]])
    (auto simp: client_at_def owns_def strings_of_def new_client_def zero_client_def zero_options_def List.map_filter_def)

lemma publish_sent:
  fixes m :: "'w wmem" and W :: "'w world_ops"
  assumes "client_at h u m (c, d, w)" "message_source m g v bs" "length (v_topic v) \<le> 65535" "xioHandle c = Some x"
  shows "ok (mqtt_client_publish (env_of W) (Some h) (Some g) m) (\<lambda>(r, m').
    let (t, w) = w_tick W w; (e, w) = w_send W (message_packet v bs) (Some sendComplete_fn, Some h) w
    in r = (if e = 0 then 0 else FAILURE) \<and> world m' = w \<and> buf_bytes m' = buf_bytes m \<and>
       clients m' h = Some (c\<lparr>packetState := PUBLISH_TYPE, packetSendTimeMs := ticks_to_ms (t - u)\<rparr>))"
  by (rule ok_mono [OF client_publish_spec [OF client_atD(1,2,4) [OF assms(1)] assms(2)]])
    (use assms(3,4) client_atD(5) [OF assms(1)] in
      \<open>auto simp: spec_request_def spec_send_def client_step_def split_def Let_def\<close>)

section \<open>The clock\<close>

text \<open>
  The tick count is that of a clock of milliseconds modulo \<open>2^32\<close>, and the differences the
  client takes are right across the wrap-around.
\<close>

lemma ticks_to_ms_id: "ticks_to_ms d = d"
  by (simp add: ticks_to_ms_def CONFIG_FREERTOS_HZ_def)

lemma elapsed:
  assumes "T0 \<le> T1" "T1 - T0 < 2 ^ 32"
  shows "unat (ticks_to_ms (of_nat T1 - u) - ticks_to_ms (of_nat T0 - u)) = T1 - T0"
proof -
  have "(of_nat T1 :: u32) - u - (of_nat T0 - u) = of_nat (T1 - T0)" using assms(1) by simp
  then show ?thesis using assms(2) by (simp add: ticks_to_ms_id unat_of_nat take_bit_eq_mod)
qed

end
