(* ===== verification/Client_Sample.thy ===== *)
theory Client_Sample
  imports Client_Invariants
begin

text \<open>A world that records what the client does, and a client on a small heap, for the witnesses.\<close>

datatype entry =
    Io_opened | Io_closed | Sent "u8 list" | Told event | Got message_content
  | Failed MQTT_CLIENT_EVENT_ERROR | Gone

definition log_world :: "(u32 \<times> entry list) world_ops" where
  "log_world = \<lparr>w_tick = (\<lambda>s. (fst s, s)), w_delay = (\<lambda>n s. (fst s + n, snd s)),
     w_open = (\<lambda>f g e s. (0, (fst s, snd s @ [Io_opened]))), w_close = (\<lambda>f s. (0, (fst s, snd s @ [Io_closed]))),
     w_send = (\<lambda>bs f s. (0, (fst s, snd s @ [Sent bs]))), w_work = (\<lambda>s. s),
     w_operation = (\<lambda>f p e s. (fst s, snd s @ [Told e])), w_message = (\<lambda>f p v s. (fst s, snd s @ [Got v])),
     w_error = (\<lambda>f p e s. (fst s, snd s @ [Failed e])), w_disconnected = (\<lambda>f p s. (fst s, snd s @ [Gone]))\<rparr>"

text \<open>A world in which the io cannot be opened.\<close>

definition no_io :: "(u32 \<times> entry list) world_ops" where
  "no_io = log_world\<lparr>w_open := \<lambda>f g e s. (1, s)\<rparr>"

lemma log_world_simps [simp]:
  "w_tick log_world s = (fst s, s)" "w_delay log_world n s = (fst s + n, snd s)"
  "w_open log_world k1 k2 k3 s = (0, (fst s, snd s @ [Io_opened]))" "w_close log_world k s = (0, (fst s, snd s @ [Io_closed]))"
  "w_send log_world bs k s = (0, (fst s, snd s @ [Sent bs]))" "w_work log_world s = s"
  "w_operation log_world f p e s = (fst s, snd s @ [Told e])" "w_message log_world f p v s = (fst s, snd s @ [Got v])"
  "w_error log_world f p er s = (fst s, snd s @ [Failed er])" "w_disconnected log_world f p s = (fst s, snd s @ [Gone])"
  "w_open no_io k1 k2 k3 s = (1, s)"
  by (simp_all add: log_world_def no_io_def)

definition idle_client :: MQTT_CLIENT where
  "idle_client = new_client (Some 1) (Some 2) None (Some 3) None (Some 2) (Some 4)"

definition live_client :: MQTT_CLIENT where
  "live_client = idle_client\<lparr>xioHandle := Some 3, clientConnected := True, socketConnected := True,
     packetState := CONNECT_TYPE, client_keepAlive := 60, maxPingRespTime := 30\<rparr>"

lemma client_fields [simp]:
  "xioHandle idle_client = None" "codec_handle idle_client = Some 4" "packetTickCntr idle_client = Some 2"
  "fnOperationCallback idle_client = Some 2" "fnMessageRecv idle_client = Some 1" "op_ctx idle_client = None"
  "fnOnErrorCallBack idle_client = Some 3" "errorCBCtx idle_client = None" "disconnect_cb idle_client = None"
  "disconnect_ctx idle_client = None" "mqttOptions idle_client = zero_options" "\<not> clientConnected idle_client"
  "\<not> socketConnected idle_client" "\<not> logTrace idle_client" "\<not> rawBytesTrace idle_client" "timeSincePing idle_client = 0"
  "packetSendTimeMs idle_client = 0"
  by (simp_all add: idle_client_def new_client_def zero_client_def)

lemma live_fields [simp]:
  "xioHandle live_client = Some 3" "codec_handle live_client = Some 4" "packetTickCntr live_client = Some 2"
  "fnOperationCallback live_client = Some 2" "fnMessageRecv live_client = Some 1" "op_ctx live_client = None"
  "fnOnErrorCallBack live_client = Some 3" "errorCBCtx live_client = None" "disconnect_cb live_client = None"
  "disconnect_ctx live_client = None" "mqttOptions live_client = zero_options" "clientConnected live_client"
  "socketConnected live_client" "\<not> logTrace live_client" "\<not> rawBytesTrace live_client" "timeSincePing live_client = 0"
  "packetSendTimeMs live_client = 0" "client_keepAlive live_client = 60" "maxPingRespTime live_client = 30"
  "packetState live_client = CONNECT_TYPE"
  by (simp_all add: live_client_def)

definition live_io :: XIO_INSTANCE where
  "live_io = \<lparr>io_interface_description = \<lparr>concrete_io_retrieveoptions = Some 1, concrete_io_create = Some 2,
     concrete_io_destroy = Some 3, concrete_io_open = Some 4, concrete_io_close = Some 5, concrete_io_send = Some 6,
     concrete_io_dowork = Some 7, concrete_io_setoption = Some 8\<rparr>, concrete_xio_handle = Some 9\<rparr>"

text \<open>The client is at 8, the bytes \<open>bs\<close> are an array of the user, and 6 is a message of its own with them.\<close>

definition sample_message :: "QOS_VALUE \<Rightarrow> bool \<Rightarrow> u8 list \<Rightarrow> MQTT_MESSAGE" where
  "sample_message q r bs = \<lparr>packetId = 7, qosInfo = q, topicName = None, appPayload =
     \<lparr>message = Some (0, 0), payload_length = of_nat (length bs)\<rparr>, const_topic_name = Some (Literal [0x74]),
     const_payload = zero_payload, isDuplicateMsg = False, isMessageRetained = r\<rparr>"

definition client_heap :: "MQTT_CLIENT \<Rightarrow> u32 \<Rightarrow> MQTT_MESSAGE \<Rightarrow> u8 list \<Rightarrow> (u32 \<times> entry list) wmem" where
  "client_heap c t g bs = \<lparr>grants = \<lambda>_ _. True, brk = 10, blocks = [0 \<mapsto> map Some bs], chars = Map.empty,
     buffers = Map.empty, strs = Map.empty, codecs = [4 \<mapsto> new_codec 8], messages = [6 \<mapsto> g],
     tick_counters = [2 \<mapsto> \<lparr>original_tick_count = 0\<rparr>], xios = [3 \<mapsto> live_io], clients = [8 \<mapsto> c], world = (t, [])\<rparr>"

abbreviation bytes_heap :: "MQTT_CLIENT \<Rightarrow> u32 \<Rightarrow> u8 list \<Rightarrow> (u32 \<times> entry list) wmem" where
  "bytes_heap c t bs \<equiv> client_heap c t (sample_message DELIVER_AT_LEAST_ONCE False bs) bs"

lemma client_heap_inv [simp]:
  "heap_inv (client_heap c t g bs)" "alloc_total (client_heap c t g bs)" "client_ready (client_heap c t g bs)"
  "world (client_heap c t g bs) = (t, [])" "clients (client_heap c t g bs) 8 = Some c" "io_live (client_heap c t g bs) 3"
  "str_rest (client_heap c t g bs) = Map.empty" "brk (client_heap c t g bs) = 10"
  "buf_bytes (client_heap c t g bs) = Map.empty"
  "codec_at (client_heap c t g bs) 4 (Some recvCompleteCallback_fn) (Some 8) idle"
  by (simp_all add: heap_inv_def buf_inv_def str_inv_def wf_mem_def client_heap_def own_inv_def alloc_total_def buf_bytes_def
      client_ready_def io_live_def io_complete_def live_io_def codec_at_def represents_def idle_def decoder_inv_def new_codec_def
      str_rest_def own_rest_def fun_eq_iff)

lemma client_heap_bytes: "length bs = n \<Longrightarrow> ext_bytes (client_heap c t g bs) (0, 0) n = Some (map Some bs)"
  by (simp add: ext_bytes_def foreign_def owned_def client_heap_def)

lemma client_heap_at:
  assumes "\<not> logTrace c" "packetTickCntr c = Some 2" "xioHandle c \<in> {None, Some 3}" "codec_handle c = Some 4"
    "strings_of (mqttOptions c) = [None, None, None, None, None]"
  shows "client_at 8 0 (client_heap c t g bs) (c, idle, (t, []))"
proof -
  have a: "attached (client_heap c t g bs) 8 0 c"
    using assms by (auto simp: attached_def client_heap_def live_io_def io_complete_def)
  show ?thesis using assms a by (simp add: client_at_def owns_def List.map_filter_def)
qed

lemma zero_strings [simp]: "strings_of zero_options = [None, None, None, None, None]" "no_strings zero_options = zero_options"
  by (simp_all add: strings_of_def no_strings_def zero_options_def)

lemma live_at [simp]: "client_at 8 0 (client_heap live_client t g bs) (live_client, idle, (t, []))"
  "client_at 8 0 (client_heap idle_client t g bs) (idle_client, idle, (t, []))"
  by (rule client_heap_at; simp)+

definition sample_view :: "QOS_VALUE \<Rightarrow> bool \<Rightarrow> u8 list \<Rightarrow> message_content" where
  "sample_view q r bs = \<lparr>v_id = 7, v_topic = [0x74], v_qos = q, v_payload = map Some bs, v_dup = False, v_retained = r\<rparr>"

lemma sample_source:
  assumes "length bs < 2 ^ 20" "bs \<noteq> []"
  shows "message_source (client_heap c t (sample_message q r bs) bs) 6 (sample_view q r bs) bs"
proof -
  have n: "unat (of_nat (length bs) :: u32) = length bs" using assms(1) by (simp add: unat_of_nat take_bit_eq_mod)
  then have "(of_nat (length bs) :: u32) \<noteq> 0" using assms(2) by (metis length_0_conv unat_0)
  then show ?thesis
    using n assms client_heap_bytes [OF refl, of c t _ bs]
    by (simp add: message_source_def publish_source_def ext_string_def message_view_def accessor_defs payload_bytes_def
        c_string_def cstr_def read_bytes_def sample_view_def sample_message_def zero_payload_def client_heap_def)
qed

end
