(* ===== verification/Client_Properties.thy ===== *)
theory Client_Properties
  imports Client_Sample
begin

text \<open>
  The properties of the client, each with a witness on the sample heap: the calls of the user and
  of the io layer are the steps of the machine, and what the machine does.
\<close>

section \<open>The code and the machine\<close>



text \<open>
  C2: no call ends in undefined behaviour where the machine defines it: with its arguments in
  memory, each function of the client returns, on every input the machine accepts, and in a
  memory that holds the next state of the machine.
\<close>

theorem client_makes_progress:
  assumes "client_at h u m s" "spec_call W h u a s = Some s'" "args_in h m a"
  shows "\<exists>m'. client_op W h m a m' \<and> client_at h u m' s'"
  using client_op_progress [OF assms] client_op_refines [OF assms(1,2)] by blast

theorem client_makes_progress_witness:
  "\<exists>m'. client_op log_world 8 (bytes_heap live_client 5 [0x40, 2, 0, 7]) (Bytes [0x40, 2, 0, 7]) m' \<and>
     client_at 8 0 m' (live_client, idle, (5, [Told (Puback MQTT_CLIENT_ON_PUBLISH_ACK 7)]))"
proof (rule client_makes_progress [OF live_at(1)])
  show "spec_call log_world 8 0 (Bytes [0x40, 2, 0, 7]) (live_client, idle, (5, [])) =
      Some (live_client, idle, (5, [Told (Puback MQTT_CLIENT_ON_PUBLISH_ACK 7)]))"
    by code_simp
  show "args_in 8 (bytes_heap live_client 5 [0x40, 2, 0, 7]) (Bytes [0x40, 2, 0, 7])"
    by (simp del: split_paired_Ex, rule exI [of _ "(0, 0)"], rule exI [of _ 4]) (simp add: client_heap_bytes)
qed

section \<open>Sending and receiving messages\<close>

text \<open>
  C12: on a client with an open io, publishing a message sends exactly one PUBLISH packet with the
  topic, the packet id, the flags and the payload of the message, returns 0 when the io took it,
  and leaves no buffer behind.
\<close>

theorem publish_sends:
  fixes m :: "'w wmem" and W :: "'w world_ops"
  assumes "client_at h u m (c, d, w)" "message_source m g v bs" "length (v_topic v) \<le> 65535" "xioHandle c = Some x"
  shows "ok (mqtt_client_publish (env_of W) (Some h) (Some g) m) (\<lambda>(r, m').
    let (t, w) = w_tick W w;
        (e, w) = w_send W (packet PUBLISH_TYPE (publish_flags (v_qos v) (v_dup v) (v_retained v))
          (publish_header (v_topic v) (v_qos v) (v_id v) @ bs)) (Some sendComplete_fn, Some h) w
    in r = (if e = 0 then 0 else FAILURE) \<and> world m' = w \<and> buf_bytes m' = buf_bytes m \<and>
       clients m' h = Some (c\<lparr>packetState := PUBLISH_TYPE, packetSendTimeMs := ticks_to_ms (t - u)\<rparr>))"
  by (rule publish_sent [OF assms, unfolded message_packet_def])

theorem publish_sends_witness:
  "ok (mqtt_client_publish (env_of log_world) (Some 8) (Some 6) (bytes_heap live_client 5 [0x41, 0x42])) (\<lambda>(r, m').
     r = 0 \<and> world m' = (5, [Sent [0x32, 7, 0, 1, 0x74, 0, 7, 0x41, 0x42]]))"
  by (rule ok_mono [OF publish_sends [OF live_at(1) sample_source]])
    (auto simp: sample_view_def packet_def fixed_header_def remaining_length.simps publish_flags_def publish_header_def
      utf_def be16_def c_consts Let_def)

text \<open>
  C3: a message that one client publishes is received by another as it was sent: the bytes that
  \<open>mqtt_client_publish\<close> gives to the io, given to \<open>onBytesReceived\<close> of a client that waits for a
  packet, make it pass a message with the same topic, payload, QoS and flags to the callback of its
  user, once, and then reply as the QoS asks: nothing, PUBACK or PUBREC with the packet id.  The
  flags are those of a message with QoS or without DUP and RETAIN.
\<close>

theorem published_is_received:
  fixes m :: "'w wmem" and W :: "'w world_ops" and n :: "'v wmem" and V :: "'v world_ops"
  assumes "client_at h u m (c, d, w)" "message_source m g v bs" "xioHandle c = Some x"
    and "client_at k y n (e, idle, z)" "fnMessageRecv e = Some f"
    and "v_qos v \<in> {DELIVER_AT_MOST_ONCE, DELIVER_AT_LEAST_ONCE, DELIVER_EXACTLY_ONCE}"
    and "v_qos v \<noteq> DELIVER_AT_MOST_ONCE \<or> \<not> v_dup v \<and> \<not> v_retained v"
    and "v_topic v \<noteq> []" "length (v_topic v) \<le> 65535" "length (publish_header (v_topic v) (v_qos v) (v_id v) @ bs) < 2 ^ 21"
  shows "ok (mqtt_client_publish (env_of W) (Some h) (Some g) m) (\<lambda>(r, m').
      world m' = snd (w_send W (message_packet v bs) (Some sendComplete_fn, Some h) (snd (w_tick W w)))) \<and>
    (\<forall>q l. ext_bytes n q (unat l) = Some (map Some (message_packet v bs)) \<longrightarrow>
      ok (onBytesReceived (env_of V) (Some k) (Some q) l n) (\<lambda>n'.
        let z1 = w_message V f (op_ctx e) (v\<lparr>v_id := if v_qos v = DELIVER_AT_MOST_ONCE then 0 else v_id v\<rparr>) z;
            reply = (\<lambda>type. snd (snd (spec_send V k y (packet type 0 (be16 (v_id v))) e z1)))
        in world n' = (if v_qos v = DELIVER_AT_MOST_ONCE then z1
                       else if v_qos v = DELIVER_AT_LEAST_ONCE then reply PUBACK_TYPE else reply PUBREC_TYPE)))"
proof (intro conjI allI impI, goal_cases)
  case 1
  show ?case
    by (rule ok_mono [OF publish_sent [OF assms(1,2,9,3)]]) (auto simp: split_def Let_def)
next
  case (2 q l)
  have qos: "qos_ok (v_qos v)" using assms(6) by (simp add: qos_ok_def)
  have src: "0 \<notin> set (v_topic v)" "v_payload v = map Some bs"
    using assms(2) by (auto simp: message_source_def publish_source_def dest: ext_stringD(2))
  note sent = received_is_sent [OF qos assms(7) src refl]
  have q: "publish_qos (uint (publish_flags (v_qos v) (v_dup v) (v_retained v))) = v_qos v"
    using received_flags(1) [OF qos, of "v_dup v" "v_retained v"] assms(7) by auto
  note S = spec_receive [OF assms(10,5) parse_published [OF assms(9,8) qos assms(7)], of V k y z, unfolded Let_def sent q]
  have ne: "l \<noteq> 0"
  proof
    assume "l = 0"
    then show False using 2 by (auto simp: ext_bytes_def message_packet_def packet_ne split: option.splits if_splits)
  qed
  show ?case
    by (rule ok_mono [OF bytes_refines [OF assms(4) S 2 ne]], rule disjE [OF assms(6) [unfolded insert_iff empty_iff]])
      (auto dest!: client_at_read simp: Let_def c_consts)
qed

theorem published_is_received_witness:
  "ok (onBytesReceived (env_of log_world) (Some 8) (Some (0, 0)) 9
      (bytes_heap live_client 5 [0x32, 7, 0, 1, 0x74, 0, 7, 0x41, 0x42]))
    (\<lambda>n'. world n' = (5, [Got (sample_view DELIVER_AT_LEAST_ONCE False [0x41, 0x42]), Sent [0x40, 2, 0, 7]]))"
proof -
  let ?v = "sample_view DELIVER_AT_LEAST_ONCE False [0x41, 0x42]"
  have S: "message_source (bytes_heap live_client 5 [0x41, 0x42]) 6 ?v [0x41, 0x42]" by (rule sample_source) simp_all
  have p: "message_packet ?v [0x41, 0x42] = [0x32, 7, 0, 1, 0x74, 0, 7, 0x41, 0x42]"
    by (simp add: message_packet_def sample_view_def packet_def fixed_header_def remaining_length.simps publish_flags_def
      publish_header_def utf_def be16_def c_consts)
  have a: "packet PUBACK_TYPE 0 (be16 7) = [0x40, 2, 0, 7]"
    by (simp add: packet_def fixed_header_def remaining_length.simps be16_def c_consts)
  let ?n = "bytes_heap live_client 5 (message_packet ?v [0x41, 0x42])"
  have bytes: "ext_bytes ?n (0, 0) (unat (9 :: u32)) = Some (map Some (message_packet ?v [0x41, 0x42]))"
    by (rule client_heap_bytes) (simp add: p)
  have "ok (onBytesReceived (env_of log_world) (Some 8) (Some (0, 0)) 9 ?n)
    (\<lambda>n'. world n' = (5, [Got ?v, Sent (packet PUBACK_TYPE 0 (be16 7))]))"
    by (rule ok_mono [OF mp [OF spec [OF spec [OF conjunct2 [OF published_is_received [OF live_at(1) S _ live_at(1)]]]]]])
      (use bytes in \<open>auto simp: sample_view_def spec_send_def publish_header_def utf_def be16_def c_consts Let_def\<close>)
  then show ?thesis by (simp only: p a)
qed

text \<open>
  C19: a message without QoS that is retained or a duplicate is not received as it was sent.  The
  code tests the QoS flag with the whole flag byte, so the message counts as EXACTLY_ONCE: the
  first two bytes of its payload are taken for a packet id, the callback gets the rest of the
  payload, and a PUBREC goes back for a packet id that nobody chose.
\<close>

theorem retained_loses_bytes:
  fixes n :: "'v wmem" and V :: "'v world_ops"
  assumes "client_at k y n (e, idle, z)" "fnMessageRecv e = Some f"
    and "v_qos v = DELIVER_AT_MOST_ONCE" "v_dup v \<or> v_retained v" "v_topic v \<noteq> []" "0 \<notin> set (v_topic v)" "2 \<le> length bs"
    and "length (v_topic v) \<le> 65535" "length (publish_header (v_topic v) (v_qos v) (v_id v) @ bs) < 2 ^ 21"
    and "ext_bytes n q (unat l) = Some (map Some (message_packet v bs))" "l \<noteq> 0"
  shows "ok (onBytesReceived (env_of V) (Some k) (Some q) l n) (\<lambda>n'. world n' =
    snd (snd (spec_send V k y (packet PUBREC_TYPE 0 (be16 (read16 bs))) e
      (w_message V f (op_ctx e) (v\<lparr>v_id := read16 bs, v_qos := DELIVER_EXACTLY_ONCE, v_payload := map Some (drop 2 bs)\<rparr>) z))))"
proof -
  have qos: "qos_ok (v_qos v)" using assms(3) by (simp add: qos_ok_def)
  have P: "parse_publish (uint (publish_flags (v_qos v) (v_dup v) (v_retained v)))
      (publish_header (v_topic v) (v_qos v) (v_id v) @ bs) = Publish (v_topic v) (read16 bs) (drop 2 bs)"
    using parse_published_flagged [OF assms(8,5,3,4), of bs] assms(7) by simp
  note F = received_flags [OF qos, of "v_dup v" "v_retained v"]
  have q: "publish_qos (uint (publish_flags (v_qos v) (v_dup v) (v_retained v))) = DELIVER_EXACTLY_ONCE"
    using F(1) assms(3,4) by simp
  have "takeWhile (\<lambda>b. b \<noteq> 0) (v_topic v) = v_topic v" using assms(6) by (auto simp: takeWhile_eq_all_conv)
  then have got: "received_message (uint (publish_flags (v_qos v) (v_dup v) (v_retained v))) (v_topic v) (read16 bs) (drop 2 bs) =
      v\<lparr>v_id := read16 bs, v_qos := DELIVER_EXACTLY_ONCE, v_payload := map Some (drop 2 bs)\<rparr>"
    using q F(2,3) by (cases v) (simp add: received_message_def)
  note S = spec_receive [OF assms(9,2) P, of V k y z, unfolded Let_def got q if_P [OF refl]]
  show ?thesis
    by (rule ok_mono [OF bytes_refines [OF assms(1) S assms(10,11)]]) (auto dest: client_at_read)
qed

theorem retained_loses_bytes_witness:
  "ok (onBytesReceived (env_of log_world) (Some 8) (Some (0, 0)) 9 (bytes_heap live_client 5 [0x31, 7, 0, 1, 0x74, 0x41, 0x42, 0x43, 0x44]))
    (\<lambda>n'. world n' = (5, [Got ((sample_view DELIVER_EXACTLY_ONCE True [0x43, 0x44])\<lparr>v_id := 0x4142\<rparr>), Sent [0x50, 2, 0x41, 0x42]]))"
proof -
  let ?v = "sample_view DELIVER_AT_MOST_ONCE True [0x41, 0x42, 0x43, 0x44]"
  have p: "message_packet ?v [0x41, 0x42, 0x43, 0x44] = [0x31, 7, 0, 1, 0x74, 0x41, 0x42, 0x43, 0x44]"
    by (simp add: message_packet_def sample_view_def packet_def fixed_header_def remaining_length.simps publish_flags_def
      publish_header_def utf_def be16_def c_consts)
  have "ext_bytes (bytes_heap live_client 5 [0x31, 7, 0, 1, 0x74, 0x41, 0x42, 0x43, 0x44]) (0, 0) (unat (9 :: u32)) =
      Some (map Some (message_packet ?v [0x41, 0x42, 0x43, 0x44]))"
    unfolding p by (rule client_heap_bytes) simp
  from retained_loses_bytes [OF live_at(1) _ _ _ _ _ _ _ _ this, where V = log_world] show ?thesis
    by (simp add: sample_view_def spec_send_def publish_header_def utf_def be16_def packet_def fixed_header_def
        remaining_length.simps c_consts)
qed

section \<open>Keep alive\<close>

text \<open>
  C13: \<open>mqtt_client_dowork\<close> sends a PINGREQ exactly when nothing was sent for the keep alive interval
  of the connection, in whole seconds; the clock of 32 bits may have wrapped around in between,
  as long as it did not go around once.
\<close>

theorem keep_alive_pings:
  fixes m :: "'w wmem" and W :: "'w world_ops"
  assumes "client_at h u m (c, d, w)" "xioHandle c = Some x" "socketConnected c" "clientConnected c" "client_keepAlive c > 0"
    and "timeSincePing c = 0" "packetSendTimeMs c = ticks_to_ms (of_nat T0 - u)"
    and "w_tick W (w_work W w) = (of_nat T1, w1)" "T0 \<le> T1" "T1 - T0 < 2 ^ 32"
  shows "ok (mqtt_client_dowork (env_of W) (Some h) m) (\<lambda>m'. world m' =
    (if unat (client_keepAlive c) \<le> (T1 - T0) div 1000
     then snd (w_tick W (snd (w_send W [PINGREQ_TYPE, 0] (Some sendComplete_fn, Some h) (snd (w_tick W w1)))))
     else w1))"
proof -
  have "unat ((ticks_to_ms (of_nat T1 - u) - packetSendTimeMs c) div 1000) = (T1 - T0) div 1000"
    using elapsed [OF assms(9,10), of u] assms(7) by (simp add: unat_div)
  then have due: "(ticks_to_ms (of_nat T1 - u) - packetSendTimeMs c) div 1000 \<ge> ucast (client_keepAlive c) \<longleftrightarrow>
      unat (client_keepAlive c) \<le> (T1 - T0) div 1000"
    by (simp add: word_le_nat_alt unat_ucast_up)
  have "spec_call W h u Do_work (c, d, w) =
    Some (let s = (if unat (client_keepAlive c) \<le> (T1 - T0) div 1000 then spec_ping W h u c w1 else (c, w1)) in (fst s, d, snd s))"
    using assms(2-6,8) due by (simp add: spec_dowork_def spec_keep_alive_def split_def Let_def)
  from work_refines [OF assms(1) this] show ?thesis
    by (rule ok_mono) (use assms(2) in \<open>auto dest!: client_at_read simp: spec_ping_def spec_send_def split_def Let_def\<close>)
qed

theorem keep_alive_pings_witness:
  "ok (mqtt_client_dowork (env_of log_world) (Some 8) (bytes_heap (live_client\<lparr>packetSendTimeMs := 2 ^ 32 - 1\<rparr>) 60000 []))
    (\<lambda>m'. world m' = (60000, [Sent [0xC0, 0]]))"
proof -
  let ?c = "live_client\<lparr>packetSendTimeMs := 2 ^ 32 - 1\<rparr>"
  have "client_at 8 0 (bytes_heap ?c 60000 []) (?c, idle, (60000, []))" by (rule client_heap_at) simp_all
  from keep_alive_pings [OF this, where ?T0.0 = "2 ^ 32 - 1" and ?T1.0 = "2 ^ 32 + 60000" and W = log_world and x = 3] show ?thesis
    by (simp add: ticks_to_ms_id c_consts)
qed

text \<open>
  C14: a connection on which a PINGREQ was not answered for more than the response time of the
  connection is given up: \<open>mqtt_client_dowork\<close> reports NO_PING_RESPONSE once, closes the io and
  forgets it, and waits for the close when there is no disconnect callback to wait for it.
\<close>

theorem dead_connection_closed:
  fixes m :: "'w wmem" and W :: "'w world_ops"
  assumes "client_at h u m (c, d, w)" "xioHandle c = Some x" "socketConnected c" "clientConnected c" "client_keepAlive c > 0"
    and "timeSincePing c \<noteq> 0" "timeSincePing c = ticks_to_ms (of_nat T0 - u)"
    and "w_tick W (w_work W w) = (of_nat T1, w1)" "T0 \<le> T1" "T1 - T0 < 2 ^ 32" "unat (maxPingRespTime c) < (T1 - T0) div 1000"
    and "fnOnErrorCallBack c = Some f"
  shows "ok (mqtt_client_dowork (env_of W) (Some h) m) (\<lambda>m'. (\<exists>c'. clients m' h = Some c' \<and> xioHandle c' = None \<and>
      timeSincePing c' = 0 \<and> packetState c' = UNKNOWN_TYPE) \<and>
    (let w2 = w_error W f (errorCBCtx c) MQTT_CLIENT_NO_PING_RESPONSE w1;
         w3 = snd (w_close W (Some on_connection_closed_fn, Some h) w2);
         round = \<lambda>w. w_delay W 2 (w_work W w)
     in world m' = (if disconnect_cb c = None then round (round w3) else w3)))"
proof -
  have "unat ((ticks_to_ms (of_nat T1 - u) - timeSincePing c) div 1000) = (T1 - T0) div 1000"
    using elapsed [OF assms(9,10), of u] assms(7) by (simp add: unat_div)
  then have late: "(ticks_to_ms (of_nat T1 - u) - timeSincePing c) div 1000 > ucast (maxPingRespTime c)"
    using assms(11) by (simp add: word_less_nat_alt unat_ucast_up)
  have pos: "timeSincePing c > 0" using assms(6) by (simp add: word_neq_0_conv)
  let ?e = "spec_error W h MQTT_CLIENT_NO_PING_RESPONSE c w1"
  have "spec_call W h u Do_work (c, d, w) =
    Some ((fst ?e)\<lparr>timeSincePing := 0, packetSendTimeMs := 0, packetState := UNKNOWN_TYPE\<rparr>, d, snd ?e)"
    using assms(2-5,8) late pos by (simp add: spec_dowork_def spec_keep_alive_def split_def Let_def)
  from work_refines [OF assms(1) this] show ?thesis
    by (rule ok_mono) (use assms(2-4,12) in \<open>auto dest!: client_at_read
      simp: spec_error_def spec_close_def spec_wait_def Let_def\<close>)
qed

theorem dead_connection_closed_witness:
  "ok (mqtt_client_dowork (env_of log_world) (Some 8) (bytes_heap (live_client\<lparr>timeSincePing := 1000\<rparr>) 32000 []))
    (\<lambda>m'. world m' = (32004, [Failed MQTT_CLIENT_NO_PING_RESPONSE, Io_closed]))"
proof -
  let ?c = "live_client\<lparr>timeSincePing := 1000\<rparr>"
  have "client_at 8 0 (bytes_heap ?c 32000 []) (?c, idle, (32000, []))" by (rule client_heap_at) simp_all
  from dead_connection_closed [OF this, where ?T0.0 = 1000 and ?T1.0 = 32000 and W = log_world and f = 3 and x = 3] show ?thesis
    by (auto simp: ticks_to_ms_id ok_iff)
qed

section \<open>Connecting and disconnecting\<close>

text \<open>
  C15: connecting a client opens the io with the client's own callbacks, and when the io reports that
  it is open the client sends exactly one packet: the CONNECT packet of the options the user gave,
  with the client id, the will, the user name and the password, which the client has copied.
\<close>

theorem connect_sends:
  fixes m :: "'w wmem" and W :: "'w world_ops"
  assumes "client_at h u m (c, d, w)" "io_live m x" "options_are m opts cs" "connect_valid cs"
    and "no_strings (mqttOptions c) = mqttOptions c" "\<not> socketConnected c"
    and "w_open W (Some onOpenComplete_fn, Some h) (Some onBytesReceived_fn, Some h) (Some onIoError_fn, Some h) w = (0, w1)"
  shows "ok (mqtt_client_connect (env_of W) (Some h) (Some x) (Some opts) m \<bind>
      (\<lambda>(r, m). onOpenComplete (env_of W) (Some h) IO_OPEN_OK m)) (\<lambda>m'.
    world m' = snd (w_send W (packet CONNECT_TYPE 0
      (utf (lit ''MQTT'') @ [4, connect_flags opts cs] @ be16 (keepAliveInterval opts) @ utf (cs_client cs) @
       opt_utf (cs_topic cs) @ opt_utf (cs_message cs) @ opt_utf (cs_user cs) @ opt_utf (cs_password cs)))
      (Some sendComplete_fn, Some h) (snd (w_tick W w1))) \<and>
    (\<exists>c'. clients m' h = Some c' \<and> xioHandle c' = Some x \<and> socketConnected c' \<and> \<not> logTrace c' \<and>
       client_keepAlive c' = keepAliveInterval opts \<and> options_are m' (mqttOptions c') cs))"
proof -
  note M = assms(1) and w = client_atD(5) [OF assms(1)]
  have o: "spec_open W h (world m) = (0, w1)" using assms(7) w by (simp add: spec_open_def)
  show ?thesis
  proof (rule ok_bind2I [OF connect_spec [OF client_atD(1) [OF M] assms(2) client_atD(2,4) [OF M] assms(5,3), of W]], goal_cases)
    case (1 r m1)
    let ?c = "\<lambda>o'. (connecting x opts c)\<lparr>mqttOptions := o'\<rparr>"
    obtain o' where same: "same_settings o' opts" and O: "options_are m1 o' cs"
      and H: "\<exists>S. holding m (foreign m) S (messages m) h (?c o', w1) m1" using 1 o by auto
    have A: "attached m1 h u (?c o')"
      using H client_atD(1) [OF M] assms(2) by (auto simp: attached_def holding_def connecting_def io_live_def)
    have inv: "heap_inv m1" "alloc_total m1" "world m1 = w1"
      using H client_atD(4) [OF M] by (auto simp: holding_def alloc_total_def)
    have new: "\<not> socketConnected (?c o')" using assms(6) by (simp add: connecting_def)
    have O': "options_are m1 (mqttOptions (?c o')) cs" using O by simp
    have p: "connect_packet o' cs = packet CONNECT_TYPE 0 (connect_body opts cs)"
      using connect_packet_settings [OF same] by (simp add: connect_packet_def)
    have keep: "options_are m2 o' cs" if "client_effect m1 h s m2" for s m2
      using O that by (simp add: options_are_def opt_is_def ext_string_def client_step_def cong: option.case_cong char_ptr.case_cong)
    let ?s = "spec_opened W h u cs (?c o') w1"
    have S: "clients m2 h = Some (fst ?s)" "world m2 = snd ?s" if "client_effect m1 h ?s m2" for m2
      using that by (simp_all add: client_step_def)
    have c: "fst ?s = (?c o')\<lparr>packetState := CONNECT_TYPE, socketConnected := True, packetSendTimeMs := ticks_to_ms (fst (w_tick W w1) - u)\<rparr>"
      "snd ?s = snd (w_send W (connect_packet o' cs) (Some sendComplete_fn, Some h) (snd (w_tick W w1)))"
      using assms(4) by (simp_all add: spec_opened_def spec_send_def connecting_def split_def Let_def)
    have r: "xioHandle (fst ?s) = Some x \<and> socketConnected (fst ?s) \<and> \<not> logTrace (fst ?s) \<and>
        client_keepAlive (fst ?s) = keepAliveInterval opts \<and> mqttOptions (fst ?s) = o'"
      using A unfolding c(1) by (simp add: connecting_def attached_def)
    have b: "connect_packet o' cs = packet CONNECT_TYPE 0 (utf (lit ''MQTT'') @ [4, connect_flags opts cs] @
        be16 (keepAliveInterval opts) @ utf (cs_client cs) @ opt_utf (cs_topic cs) @ opt_utf (cs_message cs) @
        opt_utf (cs_user cs) @ opt_utf (cs_password cs))"
      using connect_layout [of cs opts] assms(4) p by (auto simp: connect_valid_def)
    have E: "ok (onOpenComplete (env_of W) (Some h) IO_OPEN_OK m1) (client_effect m1 h ?s)"
      using onOpenComplete_spec [OF A inv(1,2) new O'] inv(3) by simp
    show ?case
      unfolding prod.case
      by (rule ok_mono [OF E]) (use S keep r in \<open>simp add: b c(2) del: split_paired_Ex\<close>)
  qed
qed

definition sample_opts :: MQTT_CLIENT_OPTIONS where
  "sample_opts = zero_options\<lparr>clientId := Some (Literal [0x63]), keepAliveInterval := 10, useCleanSession := True\<rparr>"

lemma sample_opts_are:
  "options_are m sample_opts \<lparr>cs_client = [0x63], cs_topic = [], cs_message = [], cs_user = [], cs_password = []\<rparr>"
  by (simp add: options_are_def sample_opts_def zero_options_def opt_is_def ext_string_def)

theorem connect_sends_witness:
  "ok (mqtt_client_connect (env_of log_world) (Some 8) (Some 3) (Some sample_opts) (bytes_heap idle_client 5 []) \<bind>
      (\<lambda>(r, m). onOpenComplete (env_of log_world) (Some 8) IO_OPEN_OK m)) (\<lambda>m'.
    world m' = (5, [Io_opened, Sent [0x10, 13, 0, 4, 0x4D, 0x51, 0x54, 0x54, 4, 2, 0, 10, 0, 1, 0x63]]))"
  by (rule ok_mono [OF connect_sends [OF live_at(2) _ sample_opts_are, where x = 3 and W = log_world]])
    (auto simp: connect_valid_def sample_opts_def zero_options_def no_strings_def packet_def fixed_header_def remaining_length.simps
      utf_def be16_def lit_def opt_utf_def connect_flags_def c_consts)

text \<open>
  C16: when the io cannot be opened, \<open>mqtt_client_connect\<close> fails and leaves nothing of the options: the
  copies of the strings are given back and the client has none.
\<close>

theorem failed_connect_leaves_nothing:
  fixes m :: "'w wmem" and W :: "'w world_ops"
  assumes "client_at h u m (c, d, w)" "io_live m x" "options_are m opts cs" "no_strings (mqttOptions c) = mqttOptions c"
    and "w_open W (Some onOpenComplete_fn, Some h) (Some onBytesReceived_fn, Some h) (Some onIoError_fn, Some h) w = (e, w1)"
    and "e \<noteq> 0"
  shows "ok (mqtt_client_connect (env_of W) (Some h) (Some x) (Some opts) m) (\<lambda>(r, m'). r = FAILURE \<and>
    str_rest m' = str_rest m \<and> foreign m' = foreign m \<and> buf_bytes m' = buf_bytes m \<and> messages m' = messages m \<and>
    world m' = w1 \<and> (\<exists>c'. clients m' h = Some c' \<and> no_strings (mqttOptions c') = mqttOptions c'))"
proof -
  have o: "spec_open W h (world m) = (e, w1)" using assms(5) client_atD(5) [OF assms(1)] by (simp add: spec_open_def)
  show ?thesis
    by (rule ok_mono [OF connect_spec [OF client_atD(1) [OF assms(1)] assms(2) client_atD(2,4) [OF assms(1)] assms(4,3), of W]])
      (use o assms(6) in \<open>auto simp: client_step_def no_strings_def\<close>)
qed

theorem failed_connect_leaves_nothing_witness:
  "ok (mqtt_client_connect (env_of no_io) (Some 8) (Some 3) (Some sample_opts) (bytes_heap idle_client 5 [])) (\<lambda>(r, m').
     r = FAILURE \<and> world m' = (5, []) \<and> str_rest m' = Map.empty)"
  by (rule ok_mono [OF failed_connect_leaves_nothing [OF live_at(2) _ sample_opts_are, where x = 3 and W = no_io and e = 1]]) auto

text \<open>
  C17: disconnecting a connected client sends exactly the two bytes of a DISCONNECT packet, forgets
  the io, takes the callback of the user, and gives back the copies of the options.
\<close>

theorem disconnect_sends:
  fixes m :: "'w wmem" and W :: "'w world_ops"
  assumes "client_at h u m (c, d, w)" "clientConnected c" "xioHandle c = Some x"
  shows "ok (mqtt_client_disconnect (env_of W) (Some h) cb ctx m) (\<lambda>(r, m').
    let (e, w1) = w_send W [0xE0, 0] (Some sendComplete_fn, Some h) (snd (w_tick W w))
    in r = (if e = 0 then 0 else FAILURE) \<and> world m' = w1 \<and> buf_bytes m' = buf_bytes m \<and>
       str_rest m' = without (strings_of (mqttOptions c)) (str_rest m) \<and>
       (\<exists>c'. clients m' h = Some c' \<and> xioHandle c' = None \<and> packetState c' = DISCONNECT_TYPE \<and>
         disconnect_cb c' = cb \<and> disconnect_ctx c' = ctx \<and> no_strings (mqttOptions c') = mqttOptions c'))"
  by (rule ok_mono [OF disconnect_spec [OF client_atD(1,2,4,6) [OF assms(1)]]])
    (use assms(2,3) client_atD(5) [OF assms(1)] in
      \<open>auto simp: spec_disconnect_def spec_send_def holding_def no_strings_def c_consts split_def Let_def\<close>)

theorem disconnect_sends_witness:
  "ok (mqtt_client_disconnect (env_of log_world) (Some 8) (Some 4) None (bytes_heap live_client 5 [])) (\<lambda>(r, m').
     r = 0 \<and> world m' = (5, [Sent [0xE0, 0]]))"
  by (rule ok_mono [OF disconnect_sends [OF live_at(1)]]) auto

text \<open>
  C18: an io that sends the DISCONNECT packet only after \<open>mqtt_client_disconnect\<close> has returned is never
  closed: the client has already forgotten it, so \<open>mqtt_client_dowork\<close> does nothing any more, and when
  the io reports the packet sent, the operation callback is told of a disconnection but neither is the
  io closed nor the disconnect callback of the user called, and the socket still counts as connected.
\<close>

theorem late_send_never_closes:
  fixes m :: "'w wmem" and W :: "'w world_ops"
  assumes "client_at h u m (c, d, w)" "clientConnected c" "socketConnected c" "xioHandle c = Some x" "fnOperationCallback c = Some f"
  shows "ok (mqtt_client_disconnect (env_of W) (Some h) (Some cb) ctx m) (\<lambda>(r, m1).
    mqtt_client_dowork (env_of W) (Some h) m1 = Some m1 \<and>
    ok (sendComplete (env_of W) (Some h) IO_SEND_OK m1) (\<lambda>m2. world m2 = w_operation W f (op_ctx c) Disconnected (world m1) \<and>
      mqtt_client_dowork (env_of W) (Some h) m2 = Some m2 \<and>
      (\<exists>c2. clients m2 h = Some c2 \<and> socketConnected c2 \<and> clientConnected c2 \<and> xioHandle c2 = None)))"
proof -
  let ?s = "snd (spec_disconnect W h u (Some cb) ctx c w)"
  have S: "spec_call W h u (Do_disconnect (Some cb) ctx) (c, d, w) = Some (fst ?s, d, snd ?s)" by (simp add: split_def Let_def)
  have c1: "xioHandle (fst ?s) = None" "packetState (fst ?s) = DISCONNECT_TYPE" "disconnect_cb (fst ?s) = Some cb"
    "fnOperationCallback (fst ?s) = Some f" "op_ctx (fst ?s) = op_ctx c" "socketConnected (fst ?s)" "clientConnected (fst ?s)"
    using assms(2,3,5) by (simp_all add: spec_disconnect_def spec_send_def split_def Let_def)
  have quiet: "mqtt_client_dowork (env_of W) (Some h) m' = Some m'" if "clients m' h = Some c'" "xioHandle c' = None" for m' c'
    using that by (simp add: mqtt_client_dowork_def)
  show ?thesis
  proof (rule ok_mono [OF disconnect_refines [OF assms(1) S]], clarify, intro conjI, goal_cases)
    case (1 r m1)
    show ?case by (rule quiet [OF conjunct1 [OF client_at_read [OF 1]] c1(1)])
  next
    case (2 r m1)
    note at1 = client_at_read [OF 2]
    have "sendComplete (env_of W) (Some h) IO_SEND_OK m1 = Some (put h (spec_send_complete W h IO_SEND_OK (fst ?s) (world m1)) m1)"
      by (rule sendComplete_eq [OF client_atD(1) [OF 2]])
    moreover have "spec_send_complete W h IO_SEND_OK (fst ?s) (world m1) =
        ((fst ?s)\<lparr>xioHandle := None\<rparr>, w_operation W f (op_ctx c) Disconnected (world m1))"
      using c1 by (simp add: spec_send_complete_def spec_close_def spec_operation_def)
    ultimately have run: "sendComplete (env_of W) (Some h) IO_SEND_OK m1 =
        Some (put h ((fst ?s)\<lparr>xioHandle := None\<rparr>, w_operation W f (op_ctx c) Disconnected (world m1)) m1)"
      by (simp only:)
    show ?case unfolding run using c1(6,7) quiet [of "put h _ m1"] by (simp del: split_paired_Ex)
  qed
qed

theorem late_send_never_closes_witness:
  "ok (mqtt_client_disconnect (env_of log_world) (Some 8) (Some 4) None (bytes_heap live_client 5 [])) (\<lambda>(r, m1).
    ok (sendComplete (env_of log_world) (Some 8) IO_SEND_OK m1) (\<lambda>m2. world m2 = w_operation log_world 2 None Disconnected (world m1) \<and>
      mqtt_client_dowork (env_of log_world) (Some 8) m2 = Some m2))"
  by (rule ok_mono [OF late_send_never_closes [OF live_at(1)]]) (auto elim: ok_mono)

section \<open>Creation and destruction\<close>

text \<open>
  C22: a client that is created and destroyed leaves the memory as it was, but for the addresses that
  were used; creating it has only read the clock.
\<close>

theorem init_deinit:
  fixes m :: "'w wmem" and W :: "'w world_ops"
  assumes "heap_inv m" "alloc_total m" "clients m (brk m) = None" "tick_counters m (brk m + 1) = None" "codecs m (brk m + 2) = None"
  shows "mqtt_client_init (env_of W) (Some f) op opctx err errctx m \<bind> (\<lambda>(r, m). mqtt_client_deinit r m) =
    Some (m\<lparr>brk := brk m + 3, world := snd (w_tick W (world m))\<rparr>)"
  by (rule init_deinit_eq [OF assms])

theorem init_deinit_witness:
  "mqtt_client_init (env_of log_world) (Some 1) None None None None (bytes_heap live_client 5 []) \<bind> (\<lambda>(r, m). mqtt_client_deinit r m) =
    Some ((bytes_heap live_client 5 [])\<lparr>brk := 13, world := (5, [])\<rparr>)"
proof -
  let ?m = "bytes_heap live_client 5 []"
  have "clients ?m (brk ?m) = None" "tick_counters ?m (brk ?m + 1) = None" "codecs ?m (brk ?m + 2) = None"
    by (simp_all add: client_heap_def)
  from init_deinit [OF client_heap_inv(1,2) this, of log_world 1 None None None None] show ?thesis by simp
qed

text \<open>
  \<open>mqtt_client_deinit\<close> gives back everything that belongs to the client, whatever it has received
  so far: its struct, its tick counter, its decoder with the buffer of a packet that was not complete,
  and the copies of its options, each once and nothing else.
\<close>

theorem deinit_releases:
  fixes m :: "'w wmem"
  assumes "client_at h u m (c, d, w)" "codec_handle c = Some cd"
  shows "ok (mqtt_client_deinit (Some h) m) (\<lambda>m'. heap_inv m' \<and> clients m' = (clients m)(h := None) \<and>
    tick_counters m' = (tick_counters m)(the (packetTickCntr c) := None) \<and> codecs m' = (codecs m)(cd := None) \<and>
    buf_bytes m' = other_bufs cd m \<and> str_rest m' = without (strings_of (mqttOptions c)) (str_rest m) \<and>
    foreign m' = foreign m \<and> messages m' = messages m \<and> xios m' = xios m \<and> world m' = w)"
proof -
  have C: "codec_at m cd (Some recvCompleteCallback_fn) (Some h) d" using assms by (simp add: client_at_def)
  show ?thesis
    by (rule ok_mono [OF deinit_spec [OF client_atD(1,2) [OF assms(1)] assms(2) C client_atD(6) [OF assms(1)]]])
      (use client_atD(5) [OF assms(1)] in simp)
qed

theorem deinit_releases_witness:
  "ok (mqtt_client_deinit (Some 8) (bytes_heap live_client 5 [])) (\<lambda>m'. clients m' = Map.empty \<and> codecs m' = Map.empty \<and>
     tick_counters m' = Map.empty)"
  by (rule ok_mono [OF deinit_releases [OF live_at(1)]]) (auto simp: client_heap_def fun_upd_idem_iff)

section \<open>What every run keeps\<close>





section \<open>Packets that are too short\<close>

text \<open>
  the length of the topic of a PUBLISH packet is not checked against the packet: a packet in an array
  of its own size whose topic is said to be longer than the rest of it makes the client read past the
  end of the array.
\<close>

theorem topic_overrun:
  fixes m :: "'w wmem" and W :: "'w world_ops"
  assumes "clients m h = Some c" "\<not> logTrace c" "\<not> rawBytesTrace c" "fnMessageRecv c \<noteq> None" "alloc_total m"
    and "buffers m p = Some \<lparr>buffer = Some a, buf_size = of_nat (length body)\<rparr>" "blocks m a = Some (map Some body)"
    and "length body < 2 ^ 32" "2 \<le> length body" "length body < 2 + unat (read16 body)"
  shows "recvCompleteCallback (env_of W) (Some h) PUBLISH_TYPE flags (Some p) m = None"
proof -
  have n: "unat (of_nat (length body) :: u32) = length body" using assms(8) by (simp add: unat_of_nat take_bit_eq_mod)
  have pos: "(of_nat (length body) :: u32) \<noteq> 0" "of_nat (length body) > (0 :: u32)" "\<not> of_nat (length body) < (2 :: u32)"
    using n assms(9) by (auto simp: word_less_nat_alt simp flip: unat_eq_0_u32)
  have P: "packet_at m p a body"
    using assms(6-8) n by (simp add: packet_at_def buf_bytes_def buf_at_def)
  have id: "byteutil_read_uint16 (Some (Some (a, 0))) (of_nat (length body)) m = Some (read16 body, Some (Some (a, 2)))"
    using read_uint16_eq [OF P, of 0] assms(9) by simp
  have len: "read16 body > 0" using assms(9,10) by (cases "read16 body = 0") (auto simp: word_neq_0_conv)
  let ?n = "unat (read16 body)"
  obtain b m1 where al: "cmalloc (?n + 1) m = Some (Some b, m1)" and m1: "blocks m1 = blocks m"
    using assms(5) by (auto simp: cmalloc_def alloc_totalD)
  have "read_bytes (a, 2) ?n m1 = None" using assms(7,10) m1 by (simp add: read_bytes_def)
  then have "byteutil_readUTF (Some (Some (a, 0))) (Some (of_nat (length body))) m = None"
    using id len al by (simp add: byteutil_readUTF_def)
  then show ?thesis
    using assms(1-4,6) pos
    by (auto simp: recvCompleteCallback_def BUFFER_length_def BUFFER_u_char_def logIncomingRawTrace_def recv_publish_def c_consts
        bytes_left_def Let_def)
qed

text \<open>
  a CONNACK packet with one byte makes the client read the return code past the end of the packet.
\<close>

theorem connack_overrun:
  fixes m :: "'w wmem" and W :: "'w world_ops"
  assumes "clients m h = Some c" "\<not> logTrace c" "\<not> rawBytesTrace c" "fnOperationCallback c \<noteq> None"
    and "buffers m p = Some \<lparr>buffer = Some a, buf_size = 1\<rparr>" "blocks m a = Some [Some b]"
  shows "recvCompleteCallback (env_of W) (Some h) CONNACK_TYPE flags (Some p) m = None"
  using assms
  by (auto simp: recvCompleteCallback_def BUFFER_length_def BUFFER_u_char_def logIncomingRawTrace_def recv_connack_def
      byteutil_readByte_def read_byte_def read_bytes_def c_consts)

text \<open>A heap with a packet that the decoder has completed.\<close>

definition packet_heap :: "u8 list \<Rightarrow> (u32 \<times> entry list) wmem" where
  "packet_heap bs = (bytes_heap live_client 5 [])\<lparr>buffers := [7 \<mapsto> \<lparr>buffer = Some 5, buf_size = of_nat (length bs)\<rparr>],
     blocks := [5 \<mapsto> map Some bs]\<rparr>"

theorem topic_overrun_witness:
  "recvCompleteCallback (env_of log_world) (Some 8) PUBLISH_TYPE 0 (Some 7) (packet_heap [0, 9, 0x74]) = None"
  by (rule topic_overrun [where c = live_client and a = 5 and body = "[0, 9, 0x74]"])
    (simp_all add: packet_heap_def client_heap_def alloc_total_def)

theorem connack_overrun_witness:
  "recvCompleteCallback (env_of log_world) (Some 8) CONNACK_TYPE 0 (Some 7) (packet_heap [1]) = None"
  by (rule connack_overrun [where c = live_client and a = 5]) (simp_all add: packet_heap_def client_heap_def)

end
