(* ===== verification/Vector.thy ===== *)
theory Vector
  imports Linked_List
begin

text \<open>
  The vector of \<^verbatim>\<open>uMQTT/ports/src/vector.c\<close>: a struct with a byte array that holds the elements one
  after the other.  An element is its bytes, so the model is that of the source, with the products
  of sizes at 32 bits.

  What is proved is a refinement of sequences: \<open>vector_at m h k xs\<close> says that the vector \<open>h\<close> holds
  the elements \<open>xs\<close> of \<open>k\<close> bytes each.
\<close>

section \<open>Structs\<close>

record VECTOR =
  vec_storage :: ptr
  vec_count :: u32
  elementSize :: u32

record vmem = lmem +
  vectors :: "addr \<rightharpoonup> VECTOR"

definition sizeof_VECTOR :: nat where "sizeof_VECTOR = 12"

definition upd_vector :: "addr \<Rightarrow> (VECTOR \<Rightarrow> VECTOR) \<Rightarrow> 'z vmem_scheme \<Rightarrow> 'z vmem_scheme option" where
  "upd_vector h f m = do { v \<leftarrow> vectors m h; Some (m\<lparr>vectors := (vectors m)(h \<mapsto> f v)\<rparr>) }"

definition free_vector :: "addr \<Rightarrow> 'z vmem_scheme \<Rightarrow> 'z vmem_scheme option" where
  "free_vector h m = do { _ \<leftarrow> vectors m h; Some (m\<lparr>vectors := (vectors m)(h := None)\<rparr>) }"

text \<open>
  The elements that are pushed lie in an array of the heap or in a local variable of the caller,
  which is given by its bytes.
\<close>

datatype elements_ptr = Local "mbyte list" | Heap bptr

fun read_elements :: "elements_ptr \<Rightarrow> nat \<Rightarrow> 'z mem_scheme \<Rightarrow> mbyte list option" where
  "read_elements (Local bs) n m = (if n \<le> length bs then Some (take n bs) else None)"
| "read_elements (Heap q) n m = read_bytes q n m"

section \<open>Operations\<close>

definition VECTOR_create :: "u32 \<Rightarrow> 'z vmem_scheme \<Rightarrow> (ptr \<times> 'z vmem_scheme) option" where
  "VECTOR_create element_size m =
     (if element_size = 0 then Some (None, m)
      else do {
        (result, m) \<leftarrow> malloc_struct sizeof_VECTOR m;
        case result of
          None \<Rightarrow> Some (None, m)
        | Some h \<Rightarrow> Some (Some h, m\<lparr>vectors := (vectors m)(h \<mapsto>
            \<lparr>vec_storage = None, vec_count = 0, elementSize = element_size\<rparr>)\<rparr>) })"

definition VECTOR_destroy :: "ptr \<Rightarrow> 'z vmem_scheme \<Rightarrow> 'z vmem_scheme option" where
  "VECTOR_destroy handle m =
     (case handle of
        None \<Rightarrow> Some m
      | Some h \<Rightarrow> do { v \<leftarrow> vectors m h; m \<leftarrow> free (vec_storage v) m; free_vector h m })"

definition VECTOR_move :: "ptr \<Rightarrow> 'z vmem_scheme \<Rightarrow> (ptr \<times> 'z vmem_scheme) option" where
  "VECTOR_move handle m =
     (case handle of
        None \<Rightarrow> Some (None, m)
      | Some h \<Rightarrow> do {
          (result, m) \<leftarrow> malloc_struct sizeof_VECTOR m;
          case result of
            None \<Rightarrow> Some (None, m)
          | Some r \<Rightarrow> do {
              v \<leftarrow> vectors m h;
              let m = m\<lparr>vectors := (vectors m)(r \<mapsto> \<lparr>vec_storage = vec_storage v, vec_count = vec_count v,
                         elementSize = elementSize v\<rparr>)\<rparr>;
              m \<leftarrow> upd_vector h (\<lambda>v. v\<lparr>vec_storage := None, vec_count := 0\<rparr>) m;
              Some (Some r, m) } })"

definition VECTOR_push_back ::
  "ptr \<Rightarrow> elements_ptr option \<Rightarrow> u32 \<Rightarrow> 'z vmem_scheme \<Rightarrow> (int \<times> 'z vmem_scheme) option" where
  "VECTOR_push_back handle elements numElements m =
     (if handle = None \<or> elements = None \<or> numElements = 0 then Some (FAILURE, m)
      else do {
        h \<leftarrow> handle;
        p \<leftarrow> elements;
        v \<leftarrow> vectors m h;
        let curSize = elementSize v * vec_count v;
        let appendSize = elementSize v * numElements;
        (temp, m) \<leftarrow> realloc (vec_storage v) (unat (curSize + appendSize)) m;
        case temp of
          None \<Rightarrow> Some (FAILURE, m)
        | Some a \<Rightarrow> do {
            xs \<leftarrow> read_elements p (unat appendSize) m;
            m \<leftarrow> write_bytes (a, unat curSize) xs m;
            m \<leftarrow> upd_vector h (\<lambda>v. v\<lparr>vec_storage := Some a, vec_count := vec_count v + numElements\<rparr>) m;
            Some (0, m) } })"

text \<open>
  A pointer into another array than the storage may not be compared with it; pointers into the
  same array are compared by their offsets.
\<close>

definition VECTOR_erase :: "ptr \<Rightarrow> bptr option \<Rightarrow> u32 \<Rightarrow> 'z vmem_scheme \<Rightarrow> 'z vmem_scheme option" where
  "VECTOR_erase handle elements numElements m =
     (if handle = None \<or> elements = None \<or> numElements = 0 then Some m
      else do {
        h \<leftarrow> handle;
        (b, i) \<leftarrow> elements;
        v \<leftarrow> vectors m h;
        a \<leftarrow> vec_storage v;
        if b \<noteq> a \<or> elementSize v = 0 then None
        else if of_nat i mod elementSize v \<noteq> 0 then Some m
        else do {
          let src = i + unat (elementSize v * numElements);
          let srcEnd = unat (elementSize v * vec_count v);
          if src > srcEnd then Some m
          else do {
            m \<leftarrow> upd_vector h (\<lambda>v. v\<lparr>vec_count := vec_count v - numElements\<rparr>) m;
            v \<leftarrow> vectors m h;
            if vec_count v = 0 then do {
              m \<leftarrow> free (vec_storage v) m;
              upd_vector h (\<lambda>v. v\<lparr>vec_storage := None\<rparr>) m }
            else do {
              xs \<leftarrow> read_bytes (a, src) (srcEnd - src) m;
              m \<leftarrow> write_bytes (a, i) xs m;
              (tmp, m) \<leftarrow> realloc (vec_storage v) (unat (elementSize v * vec_count v)) m;
              if tmp = None then Some m else upd_vector h (\<lambda>v. v\<lparr>vec_storage := tmp\<rparr>) m } } } })"

definition VECTOR_clear :: "ptr \<Rightarrow> 'z vmem_scheme \<Rightarrow> 'z vmem_scheme option" where
  "VECTOR_clear handle m =
     (case handle of
        None \<Rightarrow> Some m
      | Some h \<Rightarrow> do {
          v \<leftarrow> vectors m h;
          m \<leftarrow> free (vec_storage v) m;
          upd_vector h (\<lambda>v. v\<lparr>vec_storage := None, vec_count := 0\<rparr>) m })"

text \<open>A pointer that is computed from the storage; from a null pointer none may be.\<close>

definition element_at :: "VECTOR \<Rightarrow> u32 \<Rightarrow> bptr option" where
  "element_at v i = do { a \<leftarrow> vec_storage v; Some (a, unat (elementSize v * i)) }"

definition VECTOR_element :: "ptr \<Rightarrow> u32 \<Rightarrow> 'z vmem_scheme \<Rightarrow> bptr option option" where
  "VECTOR_element handle index m =
     (case handle of
        None \<Rightarrow> Some None
      | Some h \<Rightarrow> do {
          v \<leftarrow> vectors m h;
          if index \<ge> vec_count v then Some None
          else do { p \<leftarrow> element_at v index; Some (Some p) } })"

definition VECTOR_front :: "ptr \<Rightarrow> 'z vmem_scheme \<Rightarrow> bptr option option" where
  "VECTOR_front handle m =
     (case handle of
        None \<Rightarrow> Some None
      | Some h \<Rightarrow> do {
          v \<leftarrow> vectors m h;
          if vec_count v = 0 then Some None
          else Some (map_option (\<lambda>a. (a, 0)) (vec_storage v)) })"

definition VECTOR_back :: "ptr \<Rightarrow> 'z vmem_scheme \<Rightarrow> bptr option option" where
  "VECTOR_back handle m =
     (case handle of
        None \<Rightarrow> Some None
      | Some h \<Rightarrow> do {
          v \<leftarrow> vectors m h;
          if vec_count v = 0 then Some None
          else do { p \<leftarrow> element_at v (vec_count v - 1); Some (Some p) } })"

text \<open>The search from the element \<open>i\<close>, with \<open>n\<close> elements to go; the result is the index where it stops.\<close>

fun find_if_loop :: "(bptr \<Rightarrow> bool option) \<Rightarrow> VECTOR \<Rightarrow> u32 \<Rightarrow> nat \<Rightarrow> u32 option" where
  "find_if_loop pred v i 0 = Some i"
| "find_if_loop pred v i (Suc n) = do {
     p \<leftarrow> element_at v i;
     b \<leftarrow> pred p;
     if b then Some i else find_if_loop pred v (i + 1) n }"

definition VECTOR_find_if ::
  "ptr \<Rightarrow> ('v \<Rightarrow> 'z vmem_scheme \<Rightarrow> bptr \<Rightarrow> bool option) option \<Rightarrow> 'v \<Rightarrow> 'z vmem_scheme \<Rightarrow> bptr option option" where
  "VECTOR_find_if handle pred value m =
     (if handle = None \<or> pred = None then Some None
      else do {
        h \<leftarrow> handle;
        f \<leftarrow> pred;
        v \<leftarrow> vectors m h;
        i \<leftarrow> find_if_loop (f value m) v 0 (unat (vec_count v));
        if i = vec_count v then Some None else do { p \<leftarrow> element_at v i; Some (Some p) } })"

definition VECTOR_size :: "ptr \<Rightarrow> 'z vmem_scheme \<Rightarrow> u32 option" where
  "VECTOR_size handle m = (case handle of None \<Rightarrow> Some 0 | Some h \<Rightarrow> do { v \<leftarrow> vectors m h; Some (vec_count v) })"

end
