(* ===== verification/Vector_Rules.thy ===== *)
theory Vector_Rules
  imports Vector
begin

text \<open>The sequence that a vector holds, and what each operation does to it and to nothing else.\<close>

section \<open>Chunks\<close>

definition chunks :: "nat \<Rightarrow> 'a list list \<Rightarrow> bool" where
  "chunks k xs \<longleftrightarrow> (\<forall>x \<in> set xs. length x = k)"

lemma chunks_simps [simp]:
  "chunks k []" "chunks k (x # xs) \<longleftrightarrow> length x = k \<and> chunks k xs" "chunks k (xs @ ys) \<longleftrightarrow> chunks k xs \<and> chunks k ys"
  by (auto simp: chunks_def)

lemma chunks_take [simp]: "chunks k xs \<Longrightarrow> chunks k (take n xs)" "chunks k xs \<Longrightarrow> chunks k (drop n xs)"
  by (auto simp: chunks_def dest: in_set_takeD in_set_dropD)

lemma length_chunks: "chunks k xs \<Longrightarrow> length (concat xs) = k * length xs"
  by (induction xs) auto

lemma take_chunks: "chunks k xs \<Longrightarrow> take (k * n) (concat xs) = concat (take n xs)"
proof (induction xs arbitrary: n)
  case (Cons x xs)
  then show ?case by (cases n) auto
qed simp

lemma drop_chunks: "chunks k xs \<Longrightarrow> drop (k * n) (concat xs) = concat (drop n xs)"
proof (induction xs arbitrary: n)
  case (Cons x xs)
  then show ?case by (cases n) auto
qed simp

lemma chunk_at:
  assumes "chunks k xs" "i < length xs"
  shows "take k (drop (k * i) (concat xs @ r)) = xs ! i" "k * i + k \<le> length (concat xs @ r)"
proof -
  have d: "drop i xs = xs ! i # drop (Suc i) xs" by (rule Cons_nth_drop_Suc [OF assms(2), symmetric])
  have "k * Suc i \<le> k * length xs" using assms(2) by (intro mult_le_mono2) simp
  then have n: "k * i + k \<le> length (concat xs)" by (simp add: length_chunks [OF assms(1)])
  then show "k * i + k \<le> length (concat xs @ r)" by simp
  have "take k (drop (k * i) (concat xs @ r)) = take k (drop (k * i) (concat xs))" using n by simp
  also have "\<dots> = take k (concat (drop i xs))" by (simp only: drop_chunks [OF assms(1)])
  also have "\<dots> = xs ! i" using assms by (simp add: d chunks_def)
  finally show "take k (drop (k * i) (concat xs @ r)) = xs ! i" .
qed

section \<open>The sequence of a vector\<close>

definition vector_at :: "'z vmem_scheme \<Rightarrow> addr \<Rightarrow> nat \<Rightarrow> mbyte list list \<Rightarrow> bool" where
  "vector_at m h k xs \<longleftrightarrow> 0 < k \<and> chunks k xs \<and> k * length xs < 2 ^ 32 \<and>
     (\<exists>v. vectors m h = Some v \<and> unat (elementSize v) = k \<and> unat (vec_count v) = length xs \<and>
       (case vec_storage v of
          None \<Rightarrow> xs = []
        | Some a \<Rightarrow> xs \<noteq> [] \<and> (\<exists>r. blocks m a = Some (concat xs @ r))))"

definition storage_of :: "'z vmem_scheme \<Rightarrow> addr \<Rightarrow> ptr" where
  "storage_of m h = (case vectors m h of None \<Rightarrow> None | Some v \<Rightarrow> vec_storage v)"

text \<open>The vector \<open>h\<close> and its storage may change, and new arrays may be its storage.\<close>

definition vec_effect :: "'z vmem_scheme \<Rightarrow> addr \<Rightarrow> 'z vmem_scheme \<Rightarrow> bool" where
  "vec_effect m h m' \<longleftrightarrow> (\<exists>n B V. m' = m\<lparr>brk := n, blocks := B, vectors := V\<rparr> \<and> brk m \<le> n \<and>
     (\<forall>x. x \<noteq> h \<longrightarrow> V x = vectors m x) \<and> (\<forall>b < brk m. Some b \<noteq> storage_of m h \<longrightarrow> B b = blocks m b) \<and>
     (\<forall>b \<ge> n. B b = None) \<and> (storage_of m' h = None \<or> storage_of m' h = storage_of m h \<or> (\<exists>b \<ge> brk m. storage_of m' h = Some b)))"

text \<open>The pushed elements are not in the storage, which moves.\<close>

definition elements_are :: "'z vmem_scheme \<Rightarrow> addr \<Rightarrow> elements_ptr \<Rightarrow> mbyte list list \<Rightarrow> bool" where
  "elements_are m h p ys \<longleftrightarrow> (case p of
       Local bs \<Rightarrow> bs = concat ys
     | Heap q \<Rightarrow> Some (fst q) \<noteq> storage_of m h \<and> fst q < brk m \<and> read_bytes q (length (concat ys)) m = Some (concat ys))"

lemma unat_times: "unat a * unat b < 2 ^ 32 \<Longrightarrow> unat (a * b :: u32) = unat a * unat b"
  by (simp add: unat_word_ariths)

lemma vector_atE:
  assumes "vector_at m h k xs"
  obtains v where "0 < k" "chunks k xs" "k * length xs < 2 ^ 32" "vectors m h = Some v" "unat (elementSize v) = k"
    "unat (vec_count v) = length xs" "elementSize v \<noteq> 0" "unat (elementSize v * vec_count v) = k * length xs"
    "vec_storage v = storage_of m h" "storage_of m h = None \<Longrightarrow> xs = []"
    "\<And>a. storage_of m h = Some a \<Longrightarrow> xs \<noteq> [] \<and> (\<exists>r. blocks m a = Some (concat xs @ r))"
proof -
  obtain v where v: "0 < k" "chunks k xs" "k * length xs < 2 ^ 32" "vectors m h = Some v" "unat (elementSize v) = k"
    "unat (vec_count v) = length xs"
    "case vec_storage v of None \<Rightarrow> xs = [] | Some a \<Rightarrow> xs \<noteq> [] \<and> (\<exists>r. blocks m a = Some (concat xs @ r))"
    using assms by (auto simp: vector_at_def)
  have n: "unat (elementSize v * vec_count v) = k * length xs" "elementSize v \<noteq> 0" using v(1,3,5,6) by (auto simp: unat_times)
  have S: "vec_storage v = storage_of m h" using v(4) by (simp add: storage_of_def)
  have none: "xs = []" if "storage_of m h = None" using v(7) S that by simp
  have some: "xs \<noteq> [] \<and> (\<exists>r. blocks m a = Some (concat xs @ r))" if "storage_of m h = Some a" for a using v(7) S that by simp
  show thesis by (rule that [OF v(1-6) n(2,1) S none some])
qed

section \<open>Reading\<close>

lemma VECTOR_size_spec: "vector_at m h k xs \<Longrightarrow> VECTOR_size (Some h) m = Some (of_nat (length xs))"
proof (elim vector_atE)
  fix v assume v: "vectors m h = Some v" "unat (vec_count v) = length xs"
  have "vec_count v = of_nat (length xs)" using of_nat_unat_u32 [of "vec_count v"] v(2) by simp
  then show ?thesis using v(1) by (simp add: VECTOR_size_def)
qed

definition element_ptr :: "'z vmem_scheme \<Rightarrow> addr \<Rightarrow> nat \<Rightarrow> nat \<Rightarrow> bptr" where
  "element_ptr m h k i = (the (storage_of m h), k * i)"

lemma element_at_eq:
  assumes V: "vector_at m h k xs" and v: "vectors m h = Some v" and i: "i < length xs" "unat w = i"
  shows "element_at v w = Some (element_ptr m h k i)"
proof -
  have le: "k * i \<le> k * length xs" using i by (intro mult_le_mono2) simp
  obtain v' where "vectors m h = Some v'" and b: "k * length xs < 2 ^ 32" and k: "unat (elementSize v') = k"
    and S: "vec_storage v' = storage_of m h" "storage_of m h = None \<Longrightarrow> xs = []"
    by (rule vector_atE [OF V]) (rule that; (assumption | simp))
  then have v': "v' = v" using v by simp
  have "k * i < 2 ^ 32" using le b by linarith
  then have "unat (elementSize v * w) = k * i" using k i(2) v' by (simp add: unat_times)
  moreover obtain a where "storage_of m h = Some a" using S(2) i(1) by (cases "storage_of m h") auto
  ultimately show ?thesis using S(1) v' by (simp add: element_at_def element_ptr_def)
qed

lemma read_element:
  assumes "vector_at m h k xs" "i < length xs"
  shows "read_bytes (element_ptr m h k i) k m = Some (xs ! i)"
  using assms chunk_at [of k xs i]
  by (elim vector_atE) (cases "storage_of m h"; auto simp: element_ptr_def read_bytes_def)

lemma VECTOR_element_spec:
  assumes V: "vector_at m h k xs"
  shows "VECTOR_element (Some h) w m = Some (if unat w < length xs then Some (element_ptr m h k (unat w)) else None)"
proof -
  obtain v where v: "vectors m h = Some v" "unat (vec_count v) = length xs" using V by (auto elim: vector_atE)
  then show ?thesis
    using element_at_eq [OF V v(1) _ refl, of w] by (simp add: VECTOR_element_def word_le_nat_alt not_le)
qed

lemma find_if_loop_spec:
  assumes V: "vector_at m h k xs" and v: "vectors m h = Some v"
    and P: "\<And>i. i < length xs \<Longrightarrow> f (element_ptr m h k i) = Some (P (xs ! i))"
  shows "i + n = length xs \<Longrightarrow> unat w = i \<Longrightarrow>
    \<exists>j. find_if_loop f v w n = Some j \<and> i \<le> unat j \<and> unat j \<le> length xs \<and>
      (\<forall>t. i \<le> t \<and> t < unat j \<longrightarrow> \<not> P (xs ! t)) \<and> (unat j < length xs \<longrightarrow> P (xs ! unat j))"
proof (induction n arbitrary: i w)
  case (Suc n)
  then have i: "i < length xs" by simp
  have lim: "length xs < 4294967296"
    using V by (elim vector_atE) (metis unat_lt_u32)
  have e: "element_at v w = Some (element_ptr m h k i)" by (rule element_at_eq [OF V v i Suc.prems(2)])
  show ?case
  proof (cases "P (xs ! i)")
    case True
    then show ?thesis using e P [OF i] i Suc.prems by auto
  next
    case False
    have "unat (w + 1) = Suc i" using Suc.prems(2) i lim by (simp add: unat_word_ariths)
    then obtain j where "find_if_loop f v (w + 1) n = Some j" "Suc i \<le> unat j" "unat j \<le> length xs"
      "\<forall>t. Suc i \<le> t \<and> t < unat j \<longrightarrow> \<not> P (xs ! t)" "unat j < length xs \<longrightarrow> P (xs ! unat j)"
      using Suc.IH [of "Suc i" "w + 1"] Suc.prems by auto
    moreover have "\<not> P (xs ! t)" if "i \<le> t" "t < unat j" for t
      using that calculation(4) False by (cases "t = i") auto
    ultimately show ?thesis using e P [OF i] False by auto
  qed
qed auto

lemma VECTOR_find_if_spec:
  assumes V: "vector_at m h k xs" and P: "\<And>i. i < length xs \<Longrightarrow> f value m (element_ptr m h k i) = Some (P (xs ! i))"
  shows "VECTOR_find_if (Some h) (Some f) value m = Some (if \<exists>x \<in> set xs. P x
    then Some (element_ptr m h k (length (takeWhile (\<lambda>x. \<not> P x) xs))) else None)"
proof -
  obtain v where v: "vectors m h = Some v" and c: "unat (vec_count v) = length xs" using V by (auto elim: vector_atE)
  obtain j where j: "find_if_loop (f value m) v 0 (length xs) = Some j" "unat j \<le> length xs"
    "\<forall>t < unat j. \<not> P (xs ! t)" "unat j < length xs \<longrightarrow> P (xs ! unat j)"
    using find_if_loop_spec [OF V v, where f = "f value m" and P = P and i = 0 and n = "length xs" and w = 0] P by auto
  have w: "length (takeWhile (\<lambda>x. \<not> P x) xs) = unat j"
  proof (cases "unat j < length xs")
    case True
    then have "takeWhile (\<lambda>x. \<not> P x) xs = take (unat j) xs" using j by (intro takeWhile_eq_take_P_nth) auto
    then show ?thesis using True by simp
  next
    case False
    then have all: "takeWhile (\<lambda>x. \<not> P x) xs = xs" using j(2,3) by (auto simp: takeWhile_eq_all_conv in_set_conv_nth)
    show ?thesis unfolding all using False j(2) by simp
  qed
  have ex: "(\<exists>x \<in> set xs. P x) \<longleftrightarrow> unat j < length xs"
  proof
    assume "\<exists>x \<in> set xs. P x"
    then show "unat j < length xs" using j(2,3) by (metis in_set_conv_nth le_neq_implies_less)
  next
    assume "unat j < length xs"
    then show "\<exists>x \<in> set xs. P x" using j(4) by (blast intro: nth_mem)
  qed
  have e: "j = vec_count v \<longleftrightarrow> \<not> unat j < length xs" using j(2) c by (auto simp: word_unat_eq_iff)
  show ?thesis
    using v c j(1) ex e w element_at_eq [OF V v _ refl, of j] by (auto simp: VECTOR_find_if_def)
qed

lemma VECTOR_front_spec:
  assumes "vector_at m h k xs"
  shows "VECTOR_front (Some h) m = Some (if xs = [] then None else Some (element_ptr m h k 0))"
  using assms by (elim vector_atE) (cases "storage_of m h"; auto simp: VECTOR_front_def element_ptr_def simp flip: unat_eq_0_u32)

lemma VECTOR_back_spec:
  assumes V: "vector_at m h k xs"
  shows "VECTOR_back (Some h) m = Some (if xs = [] then None else Some (element_ptr m h k (length xs - 1)))"
proof -
  obtain v where v: "vectors m h = Some v" and c: "unat (vec_count v) = length xs" using V by (auto elim: vector_atE)
  show ?thesis
  proof (cases "xs = []")
    case True
    then show ?thesis using v c by (simp add: VECTOR_back_def unat_eq_0)
  next
    case False
    then have "vec_count v \<noteq> 0" using c by auto
    moreover from this have "unat (vec_count v - 1) = length xs - 1" using c by (simp add: unat_minus_one)
    ultimately show ?thesis
      using v False element_at_eq [OF V v, of "length xs - 1" "vec_count v - 1"] by (simp add: VECTOR_back_def)
  qed
qed

section \<open>Changing\<close>

lemma vec_effectI:
  assumes "m' = m\<lparr>brk := n, blocks := B, vectors := (vectors m)(h := v)\<rparr>" "brk m \<le> n"
    "\<forall>b < brk m. Some b \<noteq> storage_of m h \<longrightarrow> B b = blocks m b" "\<forall>b \<ge> n. B b = None"
    "vec_storage (the v) \<in> {None, storage_of m h} \<or> (\<exists>b \<ge> brk m. vec_storage (the v) = Some b)"
  shows "vec_effect m h m'"
  unfolding vec_effect_def
  by (rule exI [of _ n], rule exI [of _ B], rule exI [of _ "(vectors m)(h := v)"])
    (use assms in \<open>auto simp: storage_of_def split: option.splits\<close>)

text \<open>An array of a vector is live, so its address was given out.\<close>

lemma storage_old: "vector_at m h k xs \<Longrightarrow> wf_mem m \<Longrightarrow> storage_of m h = Some a \<Longrightarrow> a < brk m"
  by (elim vector_atE) (metis wf_mem_fresh not_le option.distinct(1))

lemma vec_effect_other:
  assumes "vec_effect m h m'" "vector_at m x k xs" "wf_mem m" "x \<noteq> h"
    "storage_of m x = None \<or> storage_of m x \<noteq> storage_of m h"
  shows "vector_at m' x k xs" "storage_of m' x = storage_of m x" "storage_of m' x = None \<or> storage_of m' x \<noteq> storage_of m' h"
proof -
  obtain n B V where m': "m' = m\<lparr>brk := n, blocks := B, vectors := V\<rparr>" and V: "V x = vectors m x"
    and B: "\<forall>b < brk m. Some b \<noteq> storage_of m h \<longrightarrow> B b = blocks m b"
    and S: "storage_of m' h = None \<or> storage_of m' h = storage_of m h \<or> (\<exists>b \<ge> brk m. storage_of m' h = Some b)"
    using assms(1,4) unfolding vec_effect_def by blast
  show s: "storage_of m' x = storage_of m x" using V by (simp add: m' storage_of_def)
  have old: "a < brk m" if "storage_of m x = Some a" for a by (rule storage_old [OF assms(2,3) that])
  then have "B a = blocks m a" if "storage_of m x = Some a" for a using B assms(5) that by auto
  then show "vector_at m' x k xs"
    using assms(2) V by (auto simp: vector_at_def m' storage_of_def split: option.splits)
  show "storage_of m' x = None \<or> storage_of m' x \<noteq> storage_of m' h"
    using S s assms(5) old by (cases "storage_of m x") auto
qed

lemma VECTOR_create_spec:
  assumes "0 < unat k" "\<And>a. brk m \<le> a \<Longrightarrow> vectors m a = None"
  shows "ok (VECTOR_create k m) (\<lambda>(r, m').
    if grants m (brk m) sizeof_VECTOR
    then r = Some (brk m) \<and> m' = m\<lparr>brk := Suc (brk m), vectors := (vectors m)(brk m \<mapsto>
        \<lparr>vec_storage = None, vec_count = 0, elementSize = k\<rparr>)\<rparr> \<and> vector_at m' (brk m) (unat k) []
    else r = None \<and> m' = m\<lparr>brk := Suc (brk m)\<rparr>)"
  using assms by (auto simp: VECTOR_create_def vector_at_def)

lemma VECTOR_destroy_spec:
  assumes "vector_at m h k xs"
  shows "VECTOR_destroy (Some h) m = Some (m\<lparr>vectors := (vectors m)(h := None),
    blocks := (case storage_of m h of None \<Rightarrow> blocks m | Some a \<Rightarrow> (blocks m)(a := None))\<rparr>)"
  using assms by (elim vector_atE) (cases "storage_of m h"; auto simp: VECTOR_destroy_def free_vector_def free_def)

lemma VECTOR_clear_spec:
  assumes "vector_at m h k xs" "wf_mem m"
  shows "ok (VECTOR_clear (Some h) m) (\<lambda>m'. vector_at m' h k [] \<and> vec_effect m h m')"
proof -
  obtain v where v: "0 < k" "vectors m h = Some v" "unat (elementSize v) = k" "vec_storage v = storage_of m h"
    "\<And>a. storage_of m h = Some a \<Longrightarrow> blocks m a \<noteq> None"
    by (rule vector_atE [OF assms(1)]) (rule that; fastforce)
  let ?m = "m\<lparr>blocks := (case storage_of m h of None \<Rightarrow> blocks m | Some a \<Rightarrow> (blocks m)(a := None)),
    vectors := (vectors m)(h \<mapsto> v\<lparr>vec_storage := None, vec_count := 0\<rparr>)\<rparr>"
  have "VECTOR_clear (Some h) m = Some ?m"
    using v by (cases "storage_of m h") (auto simp: VECTOR_clear_def free_def upd_vector_def)
  moreover have "vector_at ?m h k []" using v by (simp add: vector_at_def)
  moreover have "vec_effect m h ?m"
    by (rule vec_effectI [where n = "brk m" and B = "case storage_of m h of None \<Rightarrow> blocks m | Some a \<Rightarrow> (blocks m)(a := None)"
        and v = "Some (v\<lparr>vec_storage := None, vec_count := 0\<rparr>)"])
      (use assms(2) in \<open>auto simp: wf_mem_def split: option.splits\<close>)
  ultimately show ?thesis by simp
qed

lemma VECTOR_move_spec:
  assumes "vector_at m h k xs" "vectors m (brk m) = None"
  shows "ok (VECTOR_move (Some h) m) (\<lambda>(r, m').
    if grants m (brk m) sizeof_VECTOR
    then r = Some (brk m) \<and> vector_at m' (brk m) k xs \<and> vector_at m' h k [] \<and> blocks m' = blocks m
    else r = None \<and> m' = m\<lparr>brk := Suc (brk m)\<rparr>)"
proof -
  have "h \<noteq> brk m" using assms by (auto simp: vector_at_def)
  then show ?thesis using assms(1) by (auto simp: VECTOR_move_def vector_at_def upd_vector_def split: option.splits)
qed

lemma realloc_spec:
  assumes "case p of None \<Rightarrow> bs = [] | Some a \<Rightarrow> blocks m a = Some bs" "n \<noteq> 0"
  shows "ok (realloc p n m) (\<lambda>(r, m'). if grants m (brk m) n
    then r = Some (brk m) \<and> m' = m\<lparr>brk := Suc (brk m), blocks :=
      (case p of None \<Rightarrow> blocks m | Some a \<Rightarrow> (blocks m)(a := None))(brk m \<mapsto> resize n bs)\<rparr>
    else r = None \<and> m' = m\<lparr>brk := Suc (brk m)\<rparr>)"
  using assms by (cases p) (auto simp: resize_def)

lemma write_at_resize_end: "length xs + length ys = n \<Longrightarrow> write_at (length xs) ys (resize n (xs @ r)) = xs @ ys"
  by (auto simp: write_at_def resize_def)

lemma VECTOR_push_back_spec:
  assumes V: "vector_at m h k xs" and wf: "wf_mem m" and ys: "ys \<noteq> []" "chunks k ys" and p: "elements_are m h p ys"
    and fit: "k * (length xs + length ys) < 2 ^ 32"
  shows "ok (VECTOR_push_back (Some h) (Some p) (of_nat (length ys)) m) (\<lambda>(r, m'). vec_effect m h m' \<and>
    (if grants m (brk m) (k * (length xs + length ys)) then r = 0 \<and> vector_at m' h k (xs @ ys)
     else r = FAILURE \<and> m' = m\<lparr>brk := Suc (brk m)\<rparr>))"
proof -
  obtain v where k: "0 < k" "chunks k xs" and v: "vectors m h = Some v" "unat (elementSize v) = k" "unat (vec_count v) = length xs"
    and cur: "unat (elementSize v * vec_count v) = k * length xs" and S: "vec_storage v = storage_of m h"
    and some: "\<And>a. storage_of m h = Some a \<Longrightarrow> xs \<noteq> [] \<and> (\<exists>r. blocks m a = Some (concat xs @ r))"
      "storage_of m h = None \<Longrightarrow> xs = []"
    by (rule vector_atE [OF V]) (rule that; (assumption | simp))
  define n where "n = k * (length xs + length ys)"
  have n: "n = k * length xs + k * length ys" "n < 2 ^ 32" using fit by (simp_all add: n_def distrib_left)
  have ly: "length ys < 2 ^ 32" using n k(1) by (metis add_lessD1 add.commute le_less_trans le_square mult_le_mono1 nat_mult_1 One_nat_def Suc_leI)
  then have ny: "unat (of_nat (length ys) :: u32) = length ys" by simp
  then have num: "(of_nat (length ys) :: u32) \<noteq> 0" using ys(1) by (metis length_0_conv unat_0)
  have app: "unat (elementSize v * of_nat (length ys)) = k * length ys" using n v(2) ny by (simp add: unat_times)
  have tot: "unat (elementSize v * vec_count v + elementSize v * of_nat (length ys)) = n"
    using n cur app by (simp add: unat_word_ariths)
  have lc: "length (concat xs) = k * length xs" "length (concat ys) = k * length ys"
    using length_chunks k(2) ys(2) by blast+
  obtain bs where bs: "case storage_of m h of None \<Rightarrow> bs = [] | Some a \<Rightarrow> blocks m a = Some bs"
    and pre: "\<exists>r. bs = concat xs @ r" using some by (cases "storage_of m h") auto
  obtain r where r: "bs = concat xs @ r" using pre by blast
  have n0: "n \<noteq> 0" using n k(1) ys(1) by simp
  let ?B = "case storage_of m h of None \<Rightarrow> blocks m | Some a \<Rightarrow> (blocks m)(a := None)"
  show ?thesis
  proof (cases "grants m (brk m) n")
    case False
    then have "VECTOR_push_back (Some h) (Some p) (of_nat (length ys)) m = Some (FAILURE, m\<lparr>brk := Suc (brk m)\<rparr>)"
      using realloc_spec [OF bs n0] num v(1) S tot by (auto simp: VECTOR_push_back_def Let_def ok_iff)
    moreover have "vec_effect m h (m\<lparr>brk := Suc (brk m)\<rparr>)"
      by (rule vec_effectI [where n = "Suc (brk m)" and B = "blocks m" and v = "Some v"])
        (use v(1) S wf in \<open>auto simp: wf_mem_def fun_upd_idem\<close>)
    ultimately show ?thesis using False by (simp add: n_def)
  next
    case True
    let ?m1 = "m\<lparr>brk := Suc (brk m), blocks := ?B(brk m \<mapsto> resize n bs)\<rparr>"
    let ?v = "v\<lparr>vec_storage := Some (brk m), vec_count := vec_count v + of_nat (length ys)\<rparr>"
    let ?m2 = "m\<lparr>brk := Suc (brk m), blocks := ?B(brk m \<mapsto> concat (xs @ ys)), vectors := (vectors m)(h \<mapsto> ?v)\<rparr>"
    have re: "realloc (storage_of m h) n m = Some (Some (brk m), ?m1)"
      using realloc_spec [OF bs n0] True by (auto simp: ok_iff)
    have rd: "read_elements p (k * length ys) ?m1 = Some (concat ys)"
    proof (cases p)
      case (Local bs)
      then show ?thesis using p lc by (simp add: elements_are_def)
    next
      case (Heap q)
      then show ?thesis
        using p lc by (auto simp: elements_are_def read_bytes_def split: option.splits)
    qed
    have wr: "write_at (k * length xs) (concat ys) (resize n bs) = concat (xs @ ys)"
      using write_at_resize_end [of "concat xs" "concat ys" n r] lc n r by simp
    have "VECTOR_push_back (Some h) (Some p) (of_nat (length ys)) m = Some (0, ?m2)"
      using num v(1) S tot re rd cur app lc n wr
      by (simp add: VECTOR_push_back_def Let_def write_bytes_def upd_vector_def)
    moreover have "unat (vec_count v + of_nat (length ys)) = length (xs @ ys)"
    proof -
      have "length xs + length ys \<le> n" using k(1) by (cases k) (simp_all add: n_def)
      then show ?thesis using v(3) ny n(2) by (simp add: unat_word_ariths)
    qed
    then have "vector_at ?m2 h k (xs @ ys)"
      using k v(2) ys fit unfolding vector_at_def by simp
    moreover have "vec_effect m h ?m2"
      by (rule vec_effectI [where n = "Suc (brk m)" and B = "?B(brk m \<mapsto> concat (xs @ ys))" and v = "Some ?v"])
        (use wf in \<open>auto simp: wf_mem_def split: option.splits\<close>)
    ultimately show ?thesis using True by (simp add: n_def)
  qed
qed

text \<open>The elements \<open>i\<close> to \<open>i + n - 1\<close> are erased by moving the rest down over them.\<close>

lemma move_down:
  assumes "chunks k xs" "i + n \<le> length xs"
  shows "take (k * length xs - k * (i + n)) (drop (k * (i + n)) (concat xs @ r)) = concat (drop (i + n) xs)"
    and "\<exists>r'. write_at (k * i) (concat (drop (i + n) xs)) (concat xs @ r) = concat (take i xs @ drop (i + n) xs) @ r'"
    and "k * (i + n) + (k * length xs - k * (i + n)) \<le> length (concat xs @ r)"
    and "k * i + length (concat (drop (i + n) xs)) \<le> length (concat xs @ r)"
proof -
  note lc = length_chunks [OF assms(1)]
  have le: "k * (i + n) \<le> k * length xs" "k * i \<le> k * length xs" using assms(2) by (simp_all add: mult_le_mono2)
  have d: "drop (k * (i + n)) (concat xs @ r) = concat (drop (i + n) xs) @ r"
    using le(1) drop_chunks [OF assms(1), of "i + n"] lc by simp
  have ld: "length (concat (drop (i + n) xs)) = k * length xs - k * (i + n)"
    using length_chunks [OF chunks_take(2) [OF assms(1)], of "i + n"] by (simp add: diff_mult_distrib2)
  show "take (k * length xs - k * (i + n)) (drop (k * (i + n)) (concat xs @ r)) = concat (drop (i + n) xs)"
    unfolding d ld [symmetric] by simp
  have "take (k * i) (concat xs @ r) = concat (take i xs)"
    using le(2) take_chunks [OF assms(1), of i] lc by simp
  then show "\<exists>r'. write_at (k * i) (concat (drop (i + n) xs)) (concat xs @ r) = concat (take i xs @ drop (i + n) xs) @ r'"
    by (auto simp: write_at_def)
  show "k * (i + n) + (k * length xs - k * (i + n)) \<le> length (concat xs @ r)" using le lc by simp
  show "k * i + length (concat (drop (i + n) xs)) \<le> length (concat xs @ r)"
    using le ld lc by (simp add: distrib_left)
qed

lemma VECTOR_erase_spec:
  assumes V: "vector_at m h k xs" and wf: "wf_mem m" and n: "n \<noteq> 0" "unat n \<le> length xs - i" "i < length xs"
  shows "ok (VECTOR_erase (Some h) (Some (element_ptr m h k i)) n m) (\<lambda>m'. vec_effect m h m' \<and>
    vector_at m' h k (take i xs @ drop (i + unat n) xs))"
proof -
  obtain v where k: "0 < k" "chunks k xs" and lim: "k * length xs < 2 ^ 32"
    and v: "vectors m h = Some v" "unat (elementSize v) = k" "unat (vec_count v) = length xs"
    and cur: "unat (elementSize v * vec_count v) = k * length xs" "elementSize v \<noteq> 0" and S: "vec_storage v = storage_of m h"
    and some: "\<And>a. storage_of m h = Some a \<Longrightarrow> xs \<noteq> [] \<and> (\<exists>r. blocks m a = Some (concat xs @ r))"
      "storage_of m h = None \<Longrightarrow> xs = []"
    by (rule vector_atE [OF V]) (rule that; (assumption | simp))
  obtain a where a: "storage_of m h = Some a" using some(2) n(3) by (cases "storage_of m h") auto
  obtain r where r: "blocks m a = Some (concat xs @ r)" using some(1) [OF a] by blast
  let ?n = "unat n" and ?xs = "take i xs @ drop (i + unat n) xs"
  have in_: "i + ?n \<le> length xs" using n by simp
  have le: "k * i \<le> k * length xs" "k * ?n \<le> k * length xs" "k * (i + ?n) \<le> k * length xs"
    using in_ by (simp_all add: mult_le_mono2)
  have lims: "k * ?n < 2 ^ 32" "k * i < 2 ^ 32" by (rule le_less_trans [OF le(2) lim] le_less_trans [OF le(1) lim])+
  have kn: "unat (elementSize v * n) = k * ?n" using lims(1) v(2) by (simp add: unat_times)
  have ki: "unat (of_nat (k * i) :: u32) = k * i" by (rule unat_of_nat_u32 [OF lims(2)])
  have al: "(of_nat (k * i) :: u32) mod elementSize v = 0"
    using ki v(2) by (simp add: word_unat_eq_iff unat_mod)
  have cnt: "unat (vec_count v - n) = length xs - ?n"
    using v(3) in_ by (simp add: unat_sub word_le_nat_alt)
  have src: "k * i + k * ?n = k * (i + ?n)" by (simp add: distrib_left)
  have p: "element_ptr m h k i = (a, k * i)" by (simp add: element_ptr_def a)
  have lx: "length ?xs = length xs - ?n" using in_ by simp
  let ?v = "v\<lparr>vec_count := vec_count v - n\<rparr>"
  have eff: "vec_effect m h (m\<lparr>brk := b, blocks := B, vectors := (vectors m)(h \<mapsto> ?v\<lparr>vec_storage := s\<rparr>)\<rparr>)"
    if "brk m \<le> b" "\<forall>x < brk m. x \<noteq> a \<longrightarrow> B x = blocks m x" "\<forall>x \<ge> b. B x = None" "s \<in> {None, Some a, Some (brk m)}" for b B s
    by (rule vec_effectI [where n = b and B = B and v = "Some (?v\<lparr>vec_storage := s\<rparr>)"]) (use that a in auto)
  have old: "a < brk m" by (rule storage_old [OF V wf a])
  show ?thesis
  proof (cases "length xs = ?n")
    case True
    then have c0: "vec_count v - n = 0" using cnt by (simp add: unat_eq_0)
    have i0: "i = 0" "?xs = []" using True in_ by simp_all
    let ?m = "m\<lparr>blocks := (blocks m)(a := None), vectors := (vectors m)(h \<mapsto> ?v\<lparr>vec_storage := None\<rparr>)\<rparr>"
    have "VECTOR_erase (Some h) (Some (element_ptr m h k i)) n m = Some ?m"
      using n v(1) a S cur kn al c0 True i0(1) r by (simp add: VECTOR_erase_def element_ptr_def upd_vector_def)
    moreover have "vec_effect m h ?m"
      using eff [of "brk m" "(blocks m)(a := None)" None] wf by (simp add: wf_mem_def)
    moreover have "vector_at ?m h k ?xs" using v(2) k c0 unfolding i0(2) by (simp add: vector_at_def)
    ultimately show ?thesis by simp
  next
    case False
    then have c0: "vec_count v - n \<noteq> 0" using cnt in_ by (metis diff_is_0_eq le_antisym le_add2 le_trans unat_0)
    have x0: "?xs \<noteq> []" using lx False in_ by auto
    note MD = move_down [OF k(2) in_, of r]
    obtain r' where w: "write_at (k * i) (concat (drop (i + ?n) xs)) (concat xs @ r) = concat ?xs @ r'" using MD(2) by blast
    have sz: "unat (elementSize v * (vec_count v - n)) = k * length ?xs"
      using cnt lx v(2) lim le(2) by (subst unat_times) (simp_all add: diff_mult_distrib2)
    have cx: "chunks k ?xs" "k * length ?xs < 2 ^ 32" using k(2) lim lx by (auto simp: diff_mult_distrib2)
    have lcx: "length (concat ?xs) = k * length ?xs" by (rule length_chunks [OF cx(1)])
    let ?m1 = "m\<lparr>vectors := (vectors m)(h \<mapsto> ?v)\<rparr>"
    let ?m2 = "?m1\<lparr>blocks := (blocks m)(a \<mapsto> concat ?xs @ r')\<rparr>"
    have b1: "blocks ?m1 a = Some (concat xs @ r)" using r by simp
    have rd: "read_bytes (a, k * (i + ?n)) (k * length xs - k * (i + ?n)) ?m1 = Some (concat (drop (i + ?n) xs))"
      using read_bytes_Some [OF b1 MD(3)] unfolding MD(1) .
    have wr: "write_bytes (a, k * i) (concat (drop (i + ?n) xs)) ?m1 = Some ?m2"
      using write_bytes_Some [OF b1 MD(4)] unfolding w by simp
    have run: "VECTOR_erase (Some h) (Some (element_ptr m h k i)) n m = realloc (Some a) (k * length ?xs) ?m2 \<bind>
        (\<lambda>(tmp, m). if tmp = None then Some m else upd_vector h (\<lambda>v. v\<lparr>vec_storage := tmp\<rparr>) m)"
      using n v(1) a S cur kn al c0 in_ sz src rd wr
      by (simp add: VECTOR_erase_def p upd_vector_def Let_def)
    have n0: "k * length ?xs \<noteq> 0" using k(1) x0 by (simp only: mult_eq_0_iff length_0_conv) simp
    show ?thesis
      unfolding run
    proof (rule ok_bind2I [OF realloc_spec [where bs = "concat ?xs @ r'" and n = "k * length ?xs", OF _ n0]], simp, goal_cases)
      case (1 tmp m3)
      show ?case
      proof (cases "grants m (brk m) (k * length ?xs)")
        case True
        let ?B = "(blocks m)(a := None, brk m \<mapsto> resize (k * length ?xs) (concat ?xs @ r'))"
        have rs: "resize (k * length ?xs) (concat ?xs @ r') = concat ?xs" using lcx by (simp add: resize_def)
        have t: "tmp = Some (brk m)" "m3 = m\<lparr>brk := Suc (brk m), blocks := ?B, vectors := (vectors m)(h \<mapsto> ?v)\<rparr>"
          using 1 True by simp_all
        have "vec_effect m h (m\<lparr>brk := Suc (brk m), blocks := ?B, vectors := (vectors m)(h \<mapsto> ?v\<lparr>vec_storage := Some (brk m)\<rparr>)\<rparr>)"
          by (rule eff) (use wf old in \<open>auto simp: wf_mem_def\<close>)
        then show ?thesis
          using t k cx v(2) cnt lx x0 rs by (simp add: upd_vector_def vector_at_def)
      next
        case False
        have t: "tmp = None" "m3 = m\<lparr>brk := Suc (brk m), blocks := (blocks m)(a \<mapsto> concat ?xs @ r'), vectors := (vectors m)(h \<mapsto> ?v)\<rparr>"
          using 1 False by simp_all
        have "vec_effect m h (m\<lparr>brk := Suc (brk m), blocks := (blocks m)(a \<mapsto> concat ?xs @ r'),
            vectors := (vectors m)(h \<mapsto> ?v\<lparr>vec_storage := Some a\<rparr>)\<rparr>)"
          by (rule eff) (use wf old in \<open>auto simp: wf_mem_def\<close>)
        moreover have "?v\<lparr>vec_storage := Some a\<rparr> = ?v" using S a by simp
        ultimately show ?thesis
          using t k cx v(2) cnt lx x0 S a by (simp add: vector_at_def)
      qed
    qed
  qed
qed

lemma VECTOR_erase_outside:
  assumes V: "vector_at m h k xs" and a: "storage_of m h = Some a" and n: "n \<noteq> 0" "k * unat n < 2 ^ 32"
    and bad: "of_nat i mod (of_nat k :: u32) \<noteq> 0 \<or> k * length xs < i + k * unat n"
  shows "VECTOR_erase (Some h) (Some (a, i)) n m = Some m"
proof -
  obtain v where v: "vectors m h = Some v" "unat (elementSize v) = k" "elementSize v \<noteq> 0" "vec_storage v = storage_of m h"
    "unat (elementSize v * vec_count v) = k * length xs"
    by (rule vector_atE [OF V]) (rule that; (assumption | simp))
  moreover have "of_nat k = elementSize v" using v(2) of_nat_unat_u32 [of "elementSize v"] by simp
  moreover have "unat (elementSize v * n) = k * unat n" using n(2) v(2) by (simp add: unat_times)
  ultimately show ?thesis using a n(1) bad by (auto simp: VECTOR_erase_def)
qed

end
