(* ===== verification/Option_Handler.thy ===== *)
theory Option_Handler
  imports Vector_Rules Crt_Rules
begin

text \<open>
  The option handler of \<^verbatim>\<open>uMQTT/ports/src/optionhandler.c\<close>: a list of options, each with a copy of
  its name and a value, in a vector.  The three functions that a module registers to clone,
  destroy and set its options are numbers; what they do is the record \<open>option_env\<close>, over the whole
  memory.
\<close>

section \<open>Structs\<close>

datatype OPTIONHANDLER_RESULT = OPTIONHANDLER_OK | OPTIONHANDLER_ERROR | OPTIONHANDLER_INVALIDARG

record OPTION =
  option_name :: ptr
  option_storage :: ptr

record OPTIONHANDLER_HANDLE_DATA =
  cloneOption :: fptr
  destroyOption :: fptr
  setOption :: fptr
  handler_storage :: ptr

record omem = vmem +
  handlers :: "addr \<rightharpoonup> OPTIONHANDLER_HANDLE_DATA"

record 'm option_env =
  clone_option :: "nat \<Rightarrow> char_ptr option \<Rightarrow> ptr \<Rightarrow> 'm \<Rightarrow> (ptr \<times> 'm) option"
  destroy_option :: "nat \<Rightarrow> char_ptr option \<Rightarrow> ptr \<Rightarrow> 'm \<Rightarrow> 'm option"
  set_option :: "nat \<Rightarrow> ptr \<Rightarrow> char_ptr option \<Rightarrow> ptr \<Rightarrow> 'm \<Rightarrow> (int \<times> 'm) option"

definition sizeof_OPTION :: u32 where "sizeof_OPTION = 8"
definition sizeof_OPTIONHANDLER_HANDLE_DATA :: nat where "sizeof_OPTIONHANDLER_HANDLE_DATA = 16"

section \<open>An option in a vector\<close>

text \<open>
  The bytes of a struct of two pointers: four bytes each, the low one first; the null pointer is
  zero, and the address \<open>a\<close> is the number \<open>a + 1\<close>.
\<close>

definition ptr_word :: "ptr \<Rightarrow> u32" where
  "ptr_word p = (case p of None \<Rightarrow> 0 | Some a \<Rightarrow> of_nat (Suc a))"

definition word_ptr :: "u32 \<Rightarrow> ptr" where
  "word_ptr w = (if w = 0 then None else Some (unat w - 1))"

definition word_bytes :: "u32 \<Rightarrow> u8 list" where
  "word_bytes w = [ucast w, ucast (w div 256), ucast (w div 65536), ucast (w div 16777216)]"

definition bytes_word :: "u8 list \<Rightarrow> u32" where
  "bytes_word bs = foldr (\<lambda>b w. ucast b + 256 * w) bs 0"

definition option_bytes :: "OPTION \<Rightarrow> mbyte list" where
  "option_bytes o1 = map Some (word_bytes (ptr_word (option_name o1)) @ word_bytes (ptr_word (option_storage o1)))"

text \<open>The struct that a pointer points to.\<close>

definition read_option :: "bptr option \<Rightarrow> 'z mem_scheme \<Rightarrow> OPTION option" where
  "read_option p m = do {
     q \<leftarrow> p;
     xs \<leftarrow> read_bytes q (unat sizeof_OPTION) m;
     bs \<leftarrow> those xs;
     Some \<lparr>option_name = word_ptr (bytes_word (take 4 bs)), option_storage = word_ptr (bytes_word (drop 4 bs))\<rparr> }"

definition name_ptr :: "ptr \<Rightarrow> char_ptr option" where
  "name_ptr p = map_option (\<lambda>a. Chars a 0) p"

definition free_handler :: "addr \<Rightarrow> 'z omem_scheme \<Rightarrow> 'z omem_scheme option" where
  "free_handler h m = do { _ \<leftarrow> handlers m h; Some (m\<lparr>handlers := (handlers m)(h := None)\<rparr>) }"

section \<open>Operations\<close>

definition CreateInternal :: "fptr \<Rightarrow> fptr \<Rightarrow> fptr \<Rightarrow> 'z omem_scheme \<Rightarrow> (ptr \<times> 'z omem_scheme) option" where
  "CreateInternal clone destroy setter m = do {
     (result, m) \<leftarrow> malloc_struct sizeof_OPTIONHANDLER_HANDLE_DATA m;
     case result of
       None \<Rightarrow> Some (None, m)
     | Some h \<Rightarrow> do {
         (s, m) \<leftarrow> VECTOR_create sizeof_OPTION m;
         let m = m\<lparr>handlers := (handlers m)(h \<mapsto> \<lparr>cloneOption = None, destroyOption = None, setOption = None,
                    handler_storage = s\<rparr>)\<rparr>;
         if s = None then do { m \<leftarrow> free_handler h m; Some (None, m) }
         else Some (Some h, m\<lparr>handlers := (handlers m)(h \<mapsto> \<lparr>cloneOption = clone, destroyOption = destroy,
                setOption = setter, handler_storage = s\<rparr>)\<rparr>) } }"

text \<open>\<open>cloneOfName\<close> is written by \<open>mallocAndStrcpy_s\<close> before it is read.\<close>

definition AddOptionInternal ::
  "('z omem_scheme, 'e) option_env_scheme \<Rightarrow> addr \<Rightarrow> char_ptr option \<Rightarrow> ptr \<Rightarrow> 'z omem_scheme \<Rightarrow>
   (OPTIONHANDLER_RESULT \<times> 'z omem_scheme) option" where
  "AddOptionInternal env h name val m = do {
     ((r, dest), m) \<leftarrow> mallocAndStrcpy_s (Some None) name m;
     if r \<noteq> 0 then Some (OPTIONHANDLER_ERROR, m)
     else do {
       cloneOfName \<leftarrow> dest;
       d \<leftarrow> handlers m h;
       f \<leftarrow> cloneOption d;
       (cloneOfValue, m) \<leftarrow> clone_option env f name val m;
       if cloneOfValue = None then do {
         m \<leftarrow> cfree cloneOfName m;
         Some (OPTIONHANDLER_ERROR, m) }
       else do {
         d \<leftarrow> handlers m h;
         (r, m) \<leftarrow> VECTOR_push_back (handler_storage d)
           (Some (Local (option_bytes \<lparr>option_name = cloneOfName, option_storage = cloneOfValue\<rparr>))) 1 m;
         if r \<noteq> 0 then do {
           d \<leftarrow> handlers m h;
           g \<leftarrow> destroyOption d;
           m \<leftarrow> destroy_option env g name cloneOfValue m;
           m \<leftarrow> cfree cloneOfName m;
           Some (OPTIONHANDLER_ERROR, m) }
         else Some (OPTIONHANDLER_OK, m) } } }"

text \<open>The loop over the options, from the option \<open>i\<close> with \<open>n\<close> to go.\<close>

fun destroy_options :: "('z omem_scheme, 'e) option_env_scheme \<Rightarrow> addr \<Rightarrow> u32 \<Rightarrow> nat \<Rightarrow> 'z omem_scheme \<Rightarrow> 'z omem_scheme option" where
  "destroy_options env h i 0 m = Some m"
| "destroy_options env h i (Suc n) m = do {
     d \<leftarrow> handlers m h;
     p \<leftarrow> VECTOR_element (handler_storage d) i m;
     opt \<leftarrow> read_option p m;
     f \<leftarrow> destroyOption d;
     m \<leftarrow> destroy_option env f (name_ptr (option_name opt)) (option_storage opt) m;
     m \<leftarrow> cfree (option_name opt) m;
     destroy_options env h (i + 1) n m }"

definition DestroyInternal :: "('z omem_scheme, 'e) option_env_scheme \<Rightarrow> addr \<Rightarrow> 'z omem_scheme \<Rightarrow> 'z omem_scheme option" where
  "DestroyInternal env h m = do {
     d \<leftarrow> handlers m h;
     nOptions \<leftarrow> VECTOR_size (handler_storage d) m;
     m \<leftarrow> destroy_options env h 0 (unat nOptions) m;
     d \<leftarrow> handlers m h;
     m \<leftarrow> VECTOR_destroy (handler_storage d) m;
     free_handler h m }"

definition OptionHandler_Create :: "fptr \<Rightarrow> fptr \<Rightarrow> fptr \<Rightarrow> 'z omem_scheme \<Rightarrow> (ptr \<times> 'z omem_scheme) option" where
  "OptionHandler_Create clone destroy setter m =
     (if clone = None \<or> destroy = None \<or> setter = None then Some (None, m)
      else CreateInternal clone destroy setter m)"

text \<open>The result of the loop is \<open>True\<close> when it was left before its end.\<close>

fun clone_options ::
  "('z omem_scheme, 'e) option_env_scheme \<Rightarrow> addr \<Rightarrow> addr \<Rightarrow> u32 \<Rightarrow> nat \<Rightarrow> 'z omem_scheme \<Rightarrow> (bool \<times> 'z omem_scheme) option" where
  "clone_options env h result i 0 m = Some (False, m)"
| "clone_options env h result i (Suc n) m = do {
     d \<leftarrow> handlers m h;
     p \<leftarrow> VECTOR_element (handler_storage d) i m;
     opt \<leftarrow> read_option p m;
     (r, m) \<leftarrow> AddOptionInternal env result (name_ptr (option_name opt)) (option_storage opt) m;
     if r \<noteq> OPTIONHANDLER_OK then do {
       name \<leftarrow> name_ptr (option_name opt);
       _ \<leftarrow> c_string name m;
       Some (True, m) }
     else clone_options env h result (i + 1) n m }"

definition OptionHandler_Clone ::
  "('z omem_scheme, 'e) option_env_scheme \<Rightarrow> ptr \<Rightarrow> 'z omem_scheme \<Rightarrow> (ptr \<times> 'z omem_scheme) option" where
  "OptionHandler_Clone env handler m =
     (case handler of
        None \<Rightarrow> Some (None, m)
      | Some h \<Rightarrow> do {
          d \<leftarrow> handlers m h;
          (result, m) \<leftarrow> CreateInternal (cloneOption d) (destroyOption d) (setOption d) m;
          case result of
            None \<Rightarrow> Some (None, m)
          | Some r \<Rightarrow> do {
              d \<leftarrow> handlers m h;
              option_count \<leftarrow> VECTOR_size (handler_storage d) m;
              (failed, m) \<leftarrow> clone_options env h r 0 (unat option_count) m;
              if failed then do { m \<leftarrow> DestroyInternal env r m; Some (None, m) }
              else Some (Some r, m) } })"

definition OptionHandler_AddOption ::
  "('z omem_scheme, 'e) option_env_scheme \<Rightarrow> ptr \<Rightarrow> char_ptr option \<Rightarrow> ptr \<Rightarrow> 'z omem_scheme \<Rightarrow>
   (OPTIONHANDLER_RESULT \<times> 'z omem_scheme) option" where
  "OptionHandler_AddOption env handle name val m =
     (case handle of
        None \<Rightarrow> Some (OPTIONHANDLER_INVALIDARG, m)
      | Some h \<Rightarrow>
          if name = None \<or> val = None then Some (OPTIONHANDLER_INVALIDARG, m)
          else AddOptionInternal env h name val m)"

fun feed_options ::
  "('z omem_scheme, 'e) option_env_scheme \<Rightarrow> addr \<Rightarrow> ptr \<Rightarrow> u32 \<Rightarrow> nat \<Rightarrow> 'z omem_scheme \<Rightarrow> (bool \<times> 'z omem_scheme) option" where
  "feed_options env h dest i 0 m = Some (False, m)"
| "feed_options env h dest i (Suc n) m = do {
     d \<leftarrow> handlers m h;
     p \<leftarrow> VECTOR_element (handler_storage d) i m;
     opt \<leftarrow> read_option p m;
     f \<leftarrow> setOption d;
     (r, m) \<leftarrow> set_option env f dest (name_ptr (option_name opt)) (option_storage opt) m;
     if r \<noteq> 0 then Some (True, m) else feed_options env h dest (i + 1) n m }"

definition OptionHandler_FeedOptions ::
  "('z omem_scheme, 'e) option_env_scheme \<Rightarrow> ptr \<Rightarrow> ptr \<Rightarrow> 'z omem_scheme \<Rightarrow> (OPTIONHANDLER_RESULT \<times> 'z omem_scheme) option" where
  "OptionHandler_FeedOptions env handle destinationHandle m =
     (case handle of
        None \<Rightarrow> Some (OPTIONHANDLER_INVALIDARG, m)
      | Some h \<Rightarrow>
          if destinationHandle = None then Some (OPTIONHANDLER_INVALIDARG, m)
          else do {
            d \<leftarrow> handlers m h;
            nOptions \<leftarrow> VECTOR_size (handler_storage d) m;
            (failed, m) \<leftarrow> feed_options env h destinationHandle 0 (unat nOptions) m;
            Some (if failed then OPTIONHANDLER_ERROR else OPTIONHANDLER_OK, m) })"

definition OptionHandler_Destroy :: "('z omem_scheme, 'e) option_env_scheme \<Rightarrow> ptr \<Rightarrow> 'z omem_scheme \<Rightarrow> 'z omem_scheme option" where
  "OptionHandler_Destroy env handle m = (case handle of None \<Rightarrow> Some m | Some h \<Rightarrow> DestroyInternal env h m)"

end
