(* ===== verification/Option_Rules.thy ===== *)
theory Option_Rules
  imports Option_Handler
begin

text \<open>
  What the option handler promises: it holds a list of names and values, and calls the functions
  of the module on them in order.  The functions are those of a module outside (\<open>option_calls\<close>), which
  sees the names as strings and the values as addresses.
\<close>

section \<open>Pointers as bytes\<close>

lemma nat_bytes:
  fixes n :: nat
  assumes "n < 2 ^ 32"
  shows "n mod 256 + 256 * (n div 256 mod 256 + 256 * (n div 65536 mod 256 + 256 * (n div 16777216 mod 256))) = n"
proof -
  have "n div 65536 = n div 256 div 256" "n div 16777216 = n div 256 div 256 div 256" by (simp_all add: div_mult2_eq [symmetric])
  moreover have "n div 256 div 256 div 256 mod 256 = n div 256 div 256 div 256"
    using assms by (intro mod_less) (simp add: div_mult2_eq [symmetric] less_mult_imp_div_less)
  ultimately show ?thesis by (simp only: mod_mult_div_eq)
qed

lemma bytes_word_bytes: "bytes_word (word_bytes w) = w"
proof -
  have byte: "(ucast (ucast x :: u8) :: u32) = of_nat (unat x mod 256)" for x :: u32
    by (simp add: word_unat_eq_iff unsigned_ucast_eq take_bit_eq_mod unat_of_nat unat_mod)
  have "bytes_word (word_bytes w) = of_nat (unat w mod 256 + 256 * (unat w div 256 mod 256 +
      256 * (unat w div 65536 mod 256 + 256 * (unat w div 16777216 mod 256))))"
    by (simp add: bytes_word_def word_bytes_def byte unat_div)
  also have "\<dots> = of_nat (unat w)" by (subst nat_bytes) simp_all
  finally show ?thesis by simp
qed

lemma length_word_bytes [simp]: "length (word_bytes w) = 4"
  by (simp add: word_bytes_def)

lemma length_option_bytes [simp]: "length (option_bytes o1) = 8"
  by (simp add: option_bytes_def)

definition small_ptr :: "ptr \<Rightarrow> bool" where
  "small_ptr p \<longleftrightarrow> (case p of None \<Rightarrow> True | Some a \<Rightarrow> Suc a < 2 ^ 32)"

lemma word_ptr_word: "small_ptr p \<Longrightarrow> word_ptr (ptr_word p) = p"
proof (cases p)
  case (Some a)
  assume "small_ptr p"
  then have u: "unat (of_nat (Suc a) :: u32) = Suc a" using Some unat_of_nat_u32 [of "Suc a"] by (simp add: small_ptr_def del: of_nat_Suc)
  then have "(of_nat (Suc a) :: u32) \<noteq> 0" by (metis nat.distinct(1) unat_0)
  then show ?thesis using Some u by (simp add: word_ptr_def ptr_word_def del: of_nat_Suc)
qed (simp add: word_ptr_def ptr_word_def)

lemma read_option_bytes:
  assumes "read_bytes q 8 m = Some (option_bytes o1)" "small_ptr (option_name o1)" "small_ptr (option_storage o1)"
  shows "read_option (Some q) m = Some o1"
proof -
  have "those (option_bytes o1) = Some (word_bytes (ptr_word (option_name o1)) @ word_bytes (ptr_word (option_storage o1)))"
    by (simp add: option_bytes_def word_bytes_def)
  then show ?thesis
    using assms by (simp add: read_option_def sizeof_OPTION_def bytes_word_bytes word_ptr_word)
qed

section \<open>The module\<close>

record 'w option_calls =
  c_clone :: "nat \<Rightarrow> cstring \<Rightarrow> addr \<Rightarrow> 'w \<Rightarrow> ptr \<times> 'w"
  c_destroy :: "nat \<Rightarrow> cstring \<Rightarrow> addr \<Rightarrow> 'w \<Rightarrow> 'w"
  c_set :: "nat \<Rightarrow> ptr \<Rightarrow> cstring \<Rightarrow> addr \<Rightarrow> 'w \<Rightarrow> int \<times> 'w"

record 'w owmem = omem +
  oworld :: 'w

text \<open>The contract of the registered functions: they see the name and the value and act outside.\<close>

locale option_module =
  fixes env :: "('w owmem, 'e) option_env_scheme" and C :: "'w option_calls"
  assumes clone_call: "c_string p m = Some n \<Longrightarrow>
      clone_option env f (Some p) (Some v) m = Some (fst (c_clone C f n v (oworld m)), m\<lparr>oworld := snd (c_clone C f n v (oworld m))\<rparr>)"
    and destroy_call: "c_string p m = Some n \<Longrightarrow>
      destroy_option env f (Some p) (Some v) m = Some (m\<lparr>oworld := c_destroy C f n v (oworld m)\<rparr>)"
    and set_call: "c_string p m = Some n \<Longrightarrow>
      set_option env f dest (Some p) (Some v) m = Some (fst (c_set C f dest n v (oworld m)), m\<lparr>oworld := snd (c_set C f dest n v (oworld m))\<rparr>)"

section \<open>The options of a handler\<close>

text \<open>An option is the array of its name, its name and its value.\<close>

definition option_of :: "addr \<times> cstring \<times> addr \<Rightarrow> OPTION" where
  "option_of o1 = \<lparr>option_name = Some (fst o1), option_storage = Some (snd (snd o1))\<rparr>"

definition options_at :: "'z omem_scheme \<Rightarrow> addr \<Rightarrow> OPTIONHANDLER_HANDLE_DATA \<Rightarrow> (addr \<times> cstring \<times> addr) list \<Rightarrow> bool" where
  "options_at m h d os \<longleftrightarrow> handlers m h = Some d \<and>
     (\<exists>s. handler_storage d = Some s \<and> vector_at m s 8 (map (option_bytes \<circ> option_of) os)) \<and>
     (\<forall>o1 \<in> set os. chars m (fst o1) = Some (cstr (fst (snd o1))) \<and> 0 \<notin> set (fst (snd o1)) \<and>
        Suc (fst o1) < 2 ^ 32 \<and> Suc (snd (snd o1)) < 2 ^ 32) \<and>
     distinct (map fst os)"

abbreviation contents :: "(addr \<times> cstring \<times> addr) list \<Rightarrow> (cstring \<times> addr) list" where
  "contents os \<equiv> map snd os"

lemma option_at:
  assumes "options_at m h d os" "unat i < length os"
  shows "VECTOR_element (handler_storage d) i m \<bind> (\<lambda>p. read_option p m) = Some (option_of (os ! unat i))"
    and "c_string (Chars (fst (os ! unat i)) 0) m = Some (fst (snd (os ! unat i)))"
proof -
  obtain s where s: "handler_storage d = Some s" "vector_at m s 8 (map (option_bytes \<circ> option_of) os)"
    and o1: "chars m (fst (os ! unat i)) = Some (cstr (fst (snd (os ! unat i))))" "0 \<notin> set (fst (snd (os ! unat i)))"
      "Suc (fst (os ! unat i)) < 2 ^ 32" "Suc (snd (snd (os ! unat i))) < 2 ^ 32"
    using assms unfolding options_at_def by (metis nth_mem)
  have "read_bytes (element_ptr m s 8 (unat i)) 8 m = Some (option_bytes (option_of (os ! unat i)))"
    using read_element [OF s(2), of "unat i"] assms(2) by simp
  then have "read_option (Some (element_ptr m s 8 (unat i))) m = Some (option_of (os ! unat i))"
    by (rule read_option_bytes) (use o1(3,4) in \<open>simp_all add: option_of_def small_ptr_def\<close>)
  then show "VECTOR_element (handler_storage d) i m \<bind> (\<lambda>p. read_option p m) = Some (option_of (os ! unat i))"
    using VECTOR_element_spec [OF s(2), of i] s(1) assms(2) by simp
  show "c_string (Chars (fst (os ! unat i)) 0) m = Some (fst (snd (os ! unat i)))"
    using o1(1,2) by (simp add: c_string_def)
qed

lemma options_at_world [simp]: "options_at (m\<lparr>oworld := w\<rparr>) h d os = options_at m h d os"
  by (simp add: options_at_def vector_at_def cong: option.case_cong)

lemma options_size:
  assumes "options_at m h d os"
  shows "VECTOR_size (handler_storage d) m = Some (of_nat (length os))" "length os < 2 ^ 32"
proof -
  obtain s where s: "handler_storage d = Some s" "vector_at m s 8 (map (option_bytes \<circ> option_of) os)"
    using assms by (auto simp: options_at_def)
  show "VECTOR_size (handler_storage d) m = Some (of_nat (length os))" using VECTOR_size_spec [OF s(2)] s(1) by simp
  show "length os < 2 ^ 32" using s(2) by (auto simp: vector_at_def)
qed

section \<open>Feeding the options to a destination\<close>

fun spec_feed :: "'w option_calls \<Rightarrow> nat \<Rightarrow> ptr \<Rightarrow> (cstring \<times> addr) list \<Rightarrow> 'w \<Rightarrow> OPTIONHANDLER_RESULT \<times> 'w" where
  "spec_feed C f dest [] w = (OPTIONHANDLER_OK, w)"
| "spec_feed C f dest ((n, v) # os) w =
     (let (r, w) = c_set C f dest n v w in if r \<noteq> 0 then (OPTIONHANDLER_ERROR, w) else spec_feed C f dest os w)"

lemma spec_feed_result:
  "spec_feed C f dest cs w = (r, w') \<Longrightarrow> r = OPTIONHANDLER_OK \<or> r = OPTIONHANDLER_ERROR"
  by (induction cs arbitrary: w) (auto split: prod.splits if_splits simp: Let_def)

context option_module
begin

lemma feed_options_eq:
  assumes "options_at m h d os" "setOption d = Some f"
  shows "unat i + n = length os \<Longrightarrow> feed_options env h dest i n (m\<lparr>oworld := w\<rparr>) =
    (let (r, w') = spec_feed C f dest (contents (drop (unat i) os)) w in Some (r \<noteq> OPTIONHANDLER_OK, m\<lparr>oworld := w'\<rparr>))"
proof (induction n arbitrary: i w)
  case (Suc n)
  let ?m = "m\<lparr>oworld := w\<rparr>"
  have i: "unat i < length os" using Suc.prems by simp
  have O: "options_at ?m h d os" using assms(1) by simp
  have h: "handlers ?m h = Some d" using assms(1) by (simp add: options_at_def)
  obtain a n1 v where o1: "os ! unat i = (a, n1, v)" by (cases "os ! unat i")
  have d: "drop (unat i) os = (a, n1, v) # drop (Suc (unat i)) os" using o1 Cons_nth_drop_Suc [OF i] by simp
  have nx: "unat (i + 1) = Suc (unat i)" using i options_size(2) [OF assms(1)] by (simp add: unat_word_ariths)
  have st: "feed_options env h dest i (Suc n) ?m =
      VECTOR_element (handler_storage d) i ?m \<bind> (\<lambda>p. read_option p ?m) \<bind> (\<lambda>opt.
        set_option env f dest (name_ptr (option_name opt)) (option_storage opt) ?m \<bind> (\<lambda>(r, m).
          if r \<noteq> 0 then Some (True, m) else feed_options env h dest (i + 1) n m))"
    using h assms(2) by (simp add: Option.bind_assoc)
  have c: "c_string (Chars a 0) ?m = Some n1" using option_at(2) [OF O i] o1 by simp
  show ?case
    unfolding st option_at(1) [OF O i] Option.bind.bind_lunit
    using set_call [OF c, of f dest v] Suc.IH [of "i + 1"] Suc.prems nx
    by (simp add: o1 option_of_def name_ptr_def d split_def Let_def)
qed (simp add: Let_def)

lemma FeedOptions_spec:
  assumes O: "options_at m h d os" and f: "setOption d = Some f"
  shows "OptionHandler_FeedOptions env (Some h) (Some dest) m =
    (let (r, w) = spec_feed C f (Some dest) (contents os) (oworld m) in Some (r, m\<lparr>oworld := w\<rparr>))"
proof -
  have n: "unat (of_nat (length os) :: u32) = length os" using options_size(2) [OF O] by simp
  have h: "handlers m h = Some d" using O by (simp add: options_at_def)
  show ?thesis
    using feed_options_eq [OF O f, of 0 "length os" "Some dest" "oworld m"] h options_size(1) [OF O] n
      spec_feed_result [of C f "Some dest" "contents os" "oworld m"]
    by (cases "spec_feed C f (Some dest) (contents os) (oworld m)"; cases "fst (spec_feed C f (Some dest) (contents os) (oworld m))")
      (auto simp: OptionHandler_FeedOptions_def Let_def)
qed

end

section \<open>Adding an option\<close>

lemma vector_at_cong:
  fixes m m' :: "'z vmem_scheme"
  assumes "vectors m' = vectors m" "blocks m' = blocks m"
  shows "vector_at m' = vector_at m" "storage_of m' = storage_of m"
  by (intro ext, simp only: vector_at_def assms) (intro ext, simp only: storage_of_def assms)

lemma c_string_alloc:
  fixes m :: "'z mem_scheme"
  assumes "c_string p m = Some n" "wf_mem m"
  shows "c_string p (m\<lparr>brk := b, chars := (chars m)(brk m := x)\<rparr>) = Some n"
  using assms by (cases p) (auto simp: c_string_def wf_mem_def split: option.splits)

lemma option_of_bytes: "map (option_bytes \<circ> option_of) os @ [option_bytes \<lparr>option_name = Some a, option_storage = Some v\<rparr>] =
    map (option_bytes \<circ> option_of) (os @ [(a, n, v)])"
  by (simp add: option_of_def)

context option_module
begin

lemma AddOption_spec:
  fixes m :: "'w owmem"
  assumes O: "options_at m h d os" and wf: "wf_mem m" and p: "c_string p m = Some n" "length n < 2 ^ 32 - 1"
    and copy: "grants m (brk m) (Suc (length n))" and f: "cloneOption d = Some f" "destroyOption d = Some g"
    and small: "Suc (brk m) < 2 ^ 32" "8 * Suc (length os) < 2 ^ 32"
      "\<And>v. fst (c_clone C f n val (oworld m)) = Some v \<Longrightarrow> Suc v < 2 ^ 32"
  defines "w \<equiv> snd (c_clone C f n val (oworld m))"
  shows "ok (OptionHandler_AddOption env (Some h) (Some p) (Some val) m) (\<lambda>(r, m').
    case fst (c_clone C f n val (oworld m)) of
      None \<Rightarrow> r = OPTIONHANDLER_ERROR \<and> m' = m\<lparr>brk := Suc (brk m), oworld := w\<rparr>
    | Some v \<Rightarrow>
        if grants m (Suc (brk m)) (8 * Suc (length os))
        then r = OPTIONHANDLER_OK \<and> options_at m' h d (os @ [(brk m, n, v)]) \<and> oworld m' = w
        else r = OPTIONHANDLER_ERROR \<and> m' = m\<lparr>brk := Suc (Suc (brk m)), oworld := c_destroy C g n v w\<rparr>)"
proof -
  obtain s where s: "handler_storage d = Some s" and V: "vector_at m s 8 (map (option_bytes \<circ> option_of) os)"
    and h: "handlers m h = Some d"
    and names: "\<And>o1. o1 \<in> set os \<Longrightarrow> chars m (fst o1) = Some (cstr (fst (snd o1))) \<and> 0 \<notin> set (fst (snd o1)) \<and>
        Suc (fst o1) < 2 ^ 32 \<and> Suc (snd (snd o1)) < 2 ^ 32"
    and dist: "distinct (map fst os)" using O by (auto simp: options_at_def)
  have z: "0 \<notin> set n" using c_string_bytes [OF p(1)] by blast
  have free0: "chars m (brk m) = None" using wf by (simp add: wf_mem_def)
  then have restore: "(chars m)(brk m := None) = chars m" by (simp add: fun_upd_idem)
  define m1 where "m1 = m\<lparr>brk := Suc (brk m), chars := (chars m)(brk m \<mapsto> cstr n)\<rparr>"
  define m2 where "m2 = m1\<lparr>oworld := w\<rparr>"
  have run1: "mallocAndStrcpy_s (Some None) (Some p) m = Some ((0, Some (Some (brk m))), m1)"
    using mallocAndStrcpy_spec [OF p wf, of None] copy by (simp add: m1_def)
  have p1: "c_string p m1 = Some n" using c_string_alloc [OF p(1) wf] by (simp add: m1_def)
  have m1: "handlers m1 = handlers m" "oworld m1 = oworld m" by (simp_all add: m1_def)
  have run2: "clone_option env f (Some p) (Some val) m1 = Some (fst (c_clone C f n val (oworld m)), m2)"
    using clone_call [OF p1, of f val] by (simp add: m1 w_def m2_def)
  have m2: "handlers m2 = handlers m" "brk m2 = Suc (brk m)" "vectors m2 = vectors m" "blocks m2 = blocks m"
    "grants m2 = grants m" "chars m2 = (chars m)(brk m \<mapsto> cstr n)" "oworld m2 = w"
    by (simp_all add: m2_def m1_def)
  show ?thesis
  proof (cases "fst (c_clone C f n val (oworld m))")
    case None
    then have "OptionHandler_AddOption env (Some h) (Some p) (Some val) m = Some (OPTIONHANDLER_ERROR, m2\<lparr>chars := chars m\<rparr>)"
      using run1 run2 h m1 f(1) m2(6) restore
      by (simp add: OptionHandler_AddOption_def AddOptionInternal_def cfree_def)
    then show ?thesis using None by (simp add: m2_def m1_def)
  next
    case (Some v)
    let ?b = "option_bytes \<lparr>option_name = Some (brk m), option_storage = Some v\<rparr>"
    have V2: "vector_at m2 s 8 (map (option_bytes \<circ> option_of) os)" using V vector_at_cong [OF m2(3,4)] by simp
    have wf2: "wf_mem m2" using wf by (simp add: wf_mem_def m2_def m1_def)
    have e: "elements_are m2 s (Local ?b) [?b]" by (simp add: elements_are_def)
    note P = VECTOR_push_back_spec [OF V2 wf2 _ _ e, simplified, unfolded m2(2,5)]
    obtain r3 m3 where run3: "VECTOR_push_back (Some s) (Some (Local ?b)) 1 m2 = Some (r3, m3)"
      and E: "vec_effect m2 s m3" and R: "if grants m (Suc (brk m)) (8 * Suc (length os))
        then r3 = 0 \<and> vector_at m3 s 8 (map (option_bytes \<circ> option_of) os @ [?b])
        else r3 = FAILURE \<and> m3 = m2\<lparr>brk := Suc (Suc (brk m))\<rparr>"
      using P small(2) by (auto simp: ok_iff split: if_splits)
    have m3: "handlers m3 = handlers m" "chars m3 = (chars m)(brk m \<mapsto> cstr n)" "oworld m3 = w"
      using E m2 by (auto simp: vec_effect_def)
    show ?thesis
    proof (cases "grants m (Suc (brk m)) (8 * Suc (length os))")
      case True
      have "OptionHandler_AddOption env (Some h) (Some p) (Some val) m = Some (OPTIONHANDLER_OK, m3)"
        using run1 run2 run3 R True h m1 m2(1) f(1) s Some by (simp add: OptionHandler_AddOption_def AddOptionInternal_def)
      moreover have "options_at m3 h d (os @ [(brk m, n, v)])"
        unfolding options_at_def
      proof (intro conjI ballI)
        show "handlers m3 h = Some d" using m3(1) h by simp
        show "\<exists>s. handler_storage d = Some s \<and> vector_at m3 s 8 (map (option_bytes \<circ> option_of) (os @ [(brk m, n, v)]))"
          using s R True option_of_bytes [of os "brk m" v n] by simp
        have ne: "fst o1 \<noteq> brk m" if "o1 \<in> set os" for o1 using names [OF that] free0 by auto
        then have "brk m \<notin> set (map fst os)" by (metis imageE list.set_map)
        then show "distinct (map fst (os @ [(brk m, n, v)]))" using dist by simp
        fix o1 assume "o1 \<in> set (os @ [(brk m, n, v)])"
        then consider "o1 \<in> set os" | "o1 = (brk m, n, v)" by auto
        then have "chars m3 (fst o1) = Some (cstr (fst (snd o1))) \<and> 0 \<notin> set (fst (snd o1)) \<and>
            Suc (fst o1) < 2 ^ 32 \<and> Suc (snd (snd o1)) < 2 ^ 32"
          by cases (use names ne z small(1) small(3) [OF Some] in \<open>auto simp: m3(2)\<close>)
        then show "chars m3 (fst o1) = Some (cstr (fst (snd o1)))" "0 \<notin> set (fst (snd o1))"
          "Suc (fst o1) < 2 ^ 32" "Suc (snd (snd o1)) < 2 ^ 32" by blast+
      qed
      ultimately show ?thesis using True Some m3(3) by simp
    next
      case False
      let ?m4 = "m3\<lparr>oworld := c_destroy C g n v w\<rparr>"
      have t: "m3 = m2\<lparr>brk := Suc (Suc (brk m))\<rparr>" "r3 = FAILURE" using R False by simp_all
      have p3: "c_string p m3 = Some n"
        using p1 c_string_cong [of p m3 m1] by (cases p) (simp_all add: t m2_def)
      have "OptionHandler_AddOption env (Some h) (Some p) (Some val) m = Some (OPTIONHANDLER_ERROR, ?m4\<lparr>chars := chars m\<rparr>)"
        using run1 run2 run3 t(2) h m1 m2(1) m3 f s Some destroy_call [OF p3, of g v] restore
        by (simp add: OptionHandler_AddOption_def AddOptionInternal_def cfree_def)
      then show ?thesis using False Some by (simp add: t m2_def m1_def)
    qed
  qed
qed

end

section \<open>Destroying\<close>

definition names_without :: "(addr \<times> cstring \<times> addr) list \<Rightarrow> (addr \<rightharpoonup> mbyte list) \<Rightarrow> addr \<rightharpoonup> mbyte list" where
  "names_without os S a = (if a \<in> set (map fst os) then None else S a)"

lemma names_without_Nil [simp]: "names_without [] S = S"
  by (rule ext) (simp add: names_without_def)

context option_module
begin

lemma destroy_options_eq:
  fixes m :: "'w owmem"
  assumes O: "options_at m h d os" and g: "destroyOption d = Some g"
  shows "unat i + n = length os \<Longrightarrow>
    destroy_options env h i n (m\<lparr>chars := names_without (take (unat i) os) (chars m), oworld := w\<rparr>) =
    Some (m\<lparr>chars := names_without os (chars m), oworld := fold (\<lambda>(n, v). c_destroy C g n v) (contents (drop (unat i) os)) w\<rparr>)"
proof (induction n arbitrary: i w)
  case (Suc n)
  let ?m = "\<lambda>i w. m\<lparr>chars := names_without (take i os) (chars m), oworld := w\<rparr>"
  have i: "unat i < length os" using Suc.prems by simp
  have h: "handlers m h = Some d" and dist: "distinct (map fst os)" using O by (auto simp: options_at_def)
  obtain a n1 v where o1: "os ! unat i = (a, n1, v)" by (cases "os ! unat i")
  have d: "drop (unat i) os = (a, n1, v) # drop (Suc (unat i)) os" using o1 Cons_nth_drop_Suc [OF i] by simp
  have nx: "unat (i + 1) = Suc (unat i)" using i options_size(2) [OF O] by (simp add: unat_word_ariths)
  have a: "a \<notin> set (map fst (take (unat i) os))"
    using dist o1 i by (metis (no_types, lifting) distinct_take fst_conv length_map list.set_map map_eq_conv
        not_distinct_conv_prefix nth_map take_Suc_conv_app_nth take_map distinct.simps(2) distinct_append list.simps(9)
        id_take_nth_drop)
  have c: "c_string (Chars a 0) m = Some n1" using option_at(2) [OF O i] o1 by simp
  then have c1: "c_string (Chars a 0) (?m (unat i) w) = Some n1" using a by (simp add: c_string_def names_without_def)
  have rd: "VECTOR_element (handler_storage d) i (?m (unat i) w) \<bind> (\<lambda>p. read_option p (?m (unat i) w)) = Some (option_of (a, n1, v))"
    using option_at(1) [OF O i] o1
    by (simp add: VECTOR_element_def read_option_def read_bytes_def cong: option.case_cong)
  have fr: "cfree (Some a) (?m (unat i) w') = Some (?m (Suc (unat i)) w')" for w'
  proof -
    have "chars m a \<noteq> None" using c by (auto simp: c_string_def split: option.splits)
    moreover have "(names_without (take (unat i) os) (chars m))(a := None) = names_without (take (Suc (unat i)) os) (chars m)"
      using o1 by (auto simp: names_without_def take_Suc_conv_app_nth [OF i] fun_eq_iff)
    ultimately show ?thesis using a by (auto simp: cfree_def names_without_def [of _ _ a])
  qed
  have st: "destroy_options env h i (Suc n) (?m (unat i) w) =
      VECTOR_element (handler_storage d) i (?m (unat i) w) \<bind> (\<lambda>p. read_option p (?m (unat i) w)) \<bind> (\<lambda>opt.
        destroy_option env g (name_ptr (option_name opt)) (option_storage opt) (?m (unat i) w) \<bind> (\<lambda>m.
          cfree (option_name opt) m \<bind> destroy_options env h (i + 1) n))"
    using h g by (simp add: Option.bind_assoc)
  show ?case
    unfolding st rd Option.bind.bind_lunit
    using destroy_call [OF c1, of g v] fr Suc.IH [of "i + 1"] Suc.prems nx
    by (simp add: option_of_def name_ptr_def d)
qed simp

lemma Destroy_spec:
  fixes m :: "'w owmem"
  assumes O: "options_at m h d os" and g: "destroyOption d = Some g" and s: "handler_storage d = Some s"
  shows "OptionHandler_Destroy env (Some h) m = Some (m\<lparr>chars := names_without os (chars m), vectors := (vectors m)(s := None),
    blocks := (case storage_of m s of None \<Rightarrow> blocks m | Some a \<Rightarrow> (blocks m)(a := None)), handlers := (handlers m)(h := None),
    oworld := fold (\<lambda>(n, v). c_destroy C g n v) (contents os) (oworld m)\<rparr>)"
proof -
  have h: "handlers m h = Some d" and V: "vector_at m s 8 (map (option_bytes \<circ> option_of) os)"
    using O s by (auto simp: options_at_def)
  have n: "unat (of_nat (length os) :: u32) = length os" using options_size(2) [OF O] by simp
  let ?m = "m\<lparr>chars := names_without os (chars m), oworld := fold (\<lambda>(n, v). c_destroy C g n v) (contents os) (oworld m)\<rparr>"
  have z: "m\<lparr>chars := names_without [] (chars m), oworld := oworld m\<rparr> = m"
    by simp
  have loop: "destroy_options env h 0 (length os) m = Some ?m"
    using destroy_options_eq [OF O g, of 0 "length os" "oworld m"] z by simp
  have V': "vector_at ?m s 8 (map (option_bytes \<circ> option_of) os)" "storage_of ?m s = storage_of m s"
    using V vector_at_cong [of ?m m] by simp_all
  show ?thesis
    using h loop n options_size(1) [OF O] s VECTOR_destroy_spec [OF V'(1)] V'(2)
    by (cases "storage_of m s") (simp_all add: OptionHandler_Destroy_def DestroyInternal_def free_handler_def)
qed

end

end
