(* ===== verification/Xio_Options.thy ===== *)
theory Xio_Options
  imports Option_Rules
begin

text \<open>
  The option functions of \<^verbatim>\<open>uMQTT/ports/src/xio.c\<close>: the options of an io are a handler with one option,
  whose value is the handler with the options of the concrete io.
\<close>

record 'm io_option_env = "'m option_env" +
  io_setoption :: "nat \<Rightarrow> ptr \<Rightarrow> char_ptr option \<Rightarrow> ptr \<Rightarrow> 'm \<Rightarrow> (int \<times> 'm) option"
  io_retrieveoptions :: "nat \<Rightarrow> ptr \<Rightarrow> 'm \<Rightarrow> (ptr \<times> 'm) option"

definition CONCRETE_OPTIONS :: cstring where
  "CONCRETE_OPTIONS = lit ''concreteOptions''"

definition xio_setoption ::
  "('z omem_scheme, 'e) io_option_env_scheme \<Rightarrow> ptr \<Rightarrow> char_ptr option \<Rightarrow> ptr \<Rightarrow> 'z omem_scheme \<Rightarrow>
   (int \<times> 'z omem_scheme) option" where
  "xio_setoption env xio optionName val m =
     (if xio = None \<or> optionName = None then Some (FAILURE, m)
      else do {
        x \<leftarrow> xio;
        p \<leftarrow> optionName;
        i \<leftarrow> xios m x;
        n \<leftarrow> c_string p m;
        if n = CONCRETE_OPTIONS then do {
          (r, m) \<leftarrow> OptionHandler_FeedOptions env val (concrete_xio_handle i) m;
          Some (if r \<noteq> OPTIONHANDLER_OK then FAILURE else 0, m) }
        else do {
          f \<leftarrow> concrete_io_setoption (io_interface_description i);
          io_setoption env f (concrete_xio_handle i) optionName val m } })"

definition xio_CloneOption :: "char_ptr option \<Rightarrow> ptr \<Rightarrow> 'z omem_scheme \<Rightarrow> (ptr \<times> 'z omem_scheme) option" where
  "xio_CloneOption name val m =
     (if name = None \<or> val = None then Some (None, m)
      else do {
        p \<leftarrow> name;
        n \<leftarrow> c_string p m;
        Some (if n = CONCRETE_OPTIONS then val else None, m) })"

definition xio_DestroyOption ::
  "('z omem_scheme, 'e) option_env_scheme \<Rightarrow> char_ptr option \<Rightarrow> ptr \<Rightarrow> 'z omem_scheme \<Rightarrow> 'z omem_scheme option" where
  "xio_DestroyOption env name val m =
     (if name = None \<or> val = None then Some m
      else do {
        p \<leftarrow> name;
        n \<leftarrow> c_string p m;
        if n = CONCRETE_OPTIONS then OptionHandler_Destroy env val m else Some m })"

text \<open>
  The functions that an io registers: their numbers, and the environment in which a call of them
  runs the code; the functions of the concrete io stay those of \<open>env\<close>.
\<close>

definition xio_CloneOption_fn :: nat where "xio_CloneOption_fn = 11"
definition xio_DestroyOption_fn :: nat where "xio_DestroyOption_fn = 12"
definition xio_setoption_fn :: nat where "xio_setoption_fn = 13"

definition xio_functions ::
  "('z omem_scheme, 'e) io_option_env_scheme \<Rightarrow> 'z omem_scheme option_env" where
  "xio_functions env =
     \<lparr>clone_option = (\<lambda>f. if f = xio_CloneOption_fn then xio_CloneOption else clone_option env f),
      destroy_option = (\<lambda>f. if f = xio_DestroyOption_fn then xio_DestroyOption env else destroy_option env f),
      set_option = (\<lambda>f. if f = xio_setoption_fn then xio_setoption env else set_option env f)\<rparr>"

definition xio_retrieveoptions ::
  "('z omem_scheme, 'e) io_option_env_scheme \<Rightarrow> ptr \<Rightarrow> 'z omem_scheme \<Rightarrow> (ptr \<times> 'z omem_scheme) option" where
  "xio_retrieveoptions env xio m =
     (case xio of
        None \<Rightarrow> Some (None, m)
      | Some x \<Rightarrow> do {
          (result, m) \<leftarrow> OptionHandler_Create (Some xio_CloneOption_fn) (Some xio_DestroyOption_fn) (Some xio_setoption_fn) m;
          if result = None then Some (None, m)
          else do {
            i \<leftarrow> xios m x;
            f \<leftarrow> concrete_io_retrieveoptions (io_interface_description i);
            (concreteOptions, m) \<leftarrow> io_retrieveoptions env f (concrete_xio_handle i) m;
            if concreteOptions = None then do {
              m \<leftarrow> OptionHandler_Destroy (xio_functions env) result m;
              Some (None, m) }
            else do {
              (r, m) \<leftarrow> OptionHandler_AddOption (xio_functions env) result (Some (Literal CONCRETE_OPTIONS)) concreteOptions m;
              if r \<noteq> OPTIONHANDLER_OK then do {
                m \<leftarrow> OptionHandler_Destroy (xio_functions env) concreteOptions m;
                m \<leftarrow> OptionHandler_Destroy (xio_functions env) result m;
                Some (None, m) }
              else Some (result, m) } } })"

end
