(* ===== verification/Xio_Option_Rules.thy ===== *)
theory Xio_Option_Rules
  imports Xio_Options
begin

text \<open>
  What an io does with its options: the handler that it gives holds the handler of the options of
  the concrete io, and feeding it to an io feeds that one to the concrete io.
\<close>

section \<open>The functions of a module outside\<close>

definition options_of :: "'w option_calls \<Rightarrow> 'w owmem io_option_env \<Rightarrow> 'w owmem io_option_env" where
  "options_of C E = E
     \<lparr>clone_option := (\<lambda>f p v m. do {
        q \<leftarrow> p; n \<leftarrow> c_string q m; a \<leftarrow> v;
        let (r, w) = c_clone C f n a (oworld m);
        Some (r, m\<lparr>oworld := w\<rparr>) }),
      destroy_option := (\<lambda>f p v m. do {
        q \<leftarrow> p; n \<leftarrow> c_string q m; a \<leftarrow> v;
        Some (m\<lparr>oworld := c_destroy C f n a (oworld m)\<rparr>) }),
      set_option := (\<lambda>f dest p v m. do {
        q \<leftarrow> p; n \<leftarrow> c_string q m; a \<leftarrow> v;
        let (r, w) = c_set C f dest n a (oworld m);
        Some (r, m\<lparr>oworld := w\<rparr>) })\<rparr>"

interpretation outside: option_module "options_of C E" C for C :: "'w option_calls" and E
  by unfold_locales (simp_all add: options_of_def split_def Let_def)

section \<open>Feeding\<close>

lemma feed_retrieved:
  fixes m :: "'w owmem"
  assumes "options_at m h d [(a, CONCRETE_OPTIONS, k)]" "setOption d = Some xio_setoption_fn"
    and "options_at m k dk os" "setOption dk = Some f" "xios m x = Some i" "concrete_xio_handle i = Some c"
  shows "OptionHandler_FeedOptions (xio_functions (options_of C E)) (Some h) (Some x) m =
    (let (r, w) = spec_feed C f (Some c) (contents os) (oworld m) in Some (r, m\<lparr>oworld := w\<rparr>))"
proof -
  have h: "handlers m h = Some d" using assms(1) by (simp add: options_at_def)
  have rd: "VECTOR_element (handler_storage d) 0 m \<bind> (\<lambda>p. read_option p m) = Some (option_of (a, CONCRETE_OPTIONS, k))"
    using option_at(1) [OF assms(1), of 0] by simp
  have s: "c_string (Chars a 0) m = Some CONCRETE_OPTIONS" using option_at(2) [OF assms(1), of 0] by simp
  have n: "VECTOR_size (handler_storage d) m = Some 1" using options_size(1) [OF assms(1)] by simp
  have F: "OptionHandler_FeedOptions (options_of C E) (Some k) (Some c) m =
      (let (r, w) = spec_feed C f (Some c) (contents os) (oworld m) in Some (r, m\<lparr>oworld := w\<rparr>))"
    by (rule outside.FeedOptions_spec [OF assms(3,4)])
  obtain r w where r: "spec_feed C f (Some c) (contents os) (oworld m) = (r, w)" by (cases "spec_feed C f (Some c) (contents os) (oworld m)")
  have "r = OPTIONHANDLER_OK \<or> r = OPTIONHANDLER_ERROR"
    by (rule spec_feed_result [OF r])
  obtain p where p: "VECTOR_element (handler_storage d) 0 m = Some p" "read_option p m = Some (option_of (a, CONCRETE_OPTIONS, k))"
    using rd by (auto simp: bind_eq_Some_conv)
  show ?thesis
    using h n p s F r spec_feed_result [OF r] assms(2,5,6)
    by (simp add: OptionHandler_FeedOptions_def xio_functions_def xio_setoption_def option_of_def name_ptr_def) auto
qed

section \<open>Retrieving\<close>

definition io_handler :: "addr \<Rightarrow> OPTIONHANDLER_HANDLE_DATA" where
  "io_handler s = \<lparr>cloneOption = Some xio_CloneOption_fn, destroyOption = Some xio_DestroyOption_fn,
     setOption = Some xio_setoption_fn, handler_storage = Some s\<rparr>"

text \<open>The memory in which the concrete io is asked for its options: the new handler is empty.\<close>

definition asking :: "'z omem_scheme \<Rightarrow> 'z omem_scheme" where
  "asking m = m\<lparr>brk := Suc (Suc (brk m)),
     vectors := (vectors m)(Suc (brk m) \<mapsto> \<lparr>vec_storage = None, vec_count = 0, elementSize = sizeof_OPTION\<rparr>),
     handlers := (handlers m)(brk m \<mapsto> io_handler (Suc (brk m)))\<rparr>"

lemma create_asking:
  assumes "grants m (brk m) sizeof_OPTIONHANDLER_HANDLE_DATA" "grants m (Suc (brk m)) sizeof_VECTOR"
  shows "OptionHandler_Create (Some xio_CloneOption_fn) (Some xio_DestroyOption_fn) (Some xio_setoption_fn) m =
    Some (Some (brk m), asking m)"
  using assms
  by (simp add: OptionHandler_Create_def CreateInternal_def VECTOR_create_def malloc_struct_def sizeof_OPTION_def asking_def
      io_handler_def)

lemma concrete_options_no_zero: "0 \<notin> set CONCRETE_OPTIONS"
  by (simp add: CONCRETE_OPTIONS_def lit_def)

lemma concrete_options_length: "length CONCRETE_OPTIONS = 15"
  by (simp add: CONCRETE_OPTIONS_def lit_def)

text \<open>What is done to a handler keeps the others, when they do not share a vector or its array.\<close>

lemma options_at_other:
  assumes O: "options_at m x d os" and wf: "wf_mem m" and E: "vec_effect m s m'" and S: "handler_storage d \<noteq> Some s"
    and new: "storage_of m s = None"
  shows "options_at m' x d os"
proof -
  obtain t where t: "handler_storage d = Some t" "vector_at m t 8 (map (option_bytes \<circ> option_of) os)"
    using O by (auto simp: options_at_def)
  have "storage_of m t = None \<or> storage_of m t \<noteq> storage_of m s" using new by auto
  then have "vector_at m' t 8 (map (option_bytes \<circ> option_of) os)"
    using vec_effect_other(1) [OF E t(2) wf] t(1) S by blast
  then show ?thesis using O t(1) E by (auto simp: options_at_def vec_effect_def)
qed

lemma options_at_copy:
  assumes O: "options_at m x d os" and wf: "wf_mem m"
  shows "options_at (m\<lparr>brk := b, chars := (chars m)(brk m \<mapsto> bs)\<rparr>) x d os"
proof -
  have ne: "fst o1 \<noteq> brk m" if "o1 \<in> set os" for o1
    using O that wf by (auto simp: options_at_def wf_mem_def)
  have "vector_at (m\<lparr>brk := b, chars := (chars m)(brk m \<mapsto> bs)\<rparr>) = vector_at m"
    by (rule vector_at_cong) simp_all
  then show ?thesis using O ne by (simp add: options_at_def)
qed

text \<open>The option of the io up to the point where it is appended to the vector.\<close>

lemma add_concrete:
  fixes m :: "'w owmem"
  assumes h: "handlers m h = Some (io_handler s)" and wf: "wf_mem m" and copy: "grants m (brk m) 16"
  defines "a \<equiv> brk m"
  defines "m2 \<equiv> m\<lparr>brk := Suc a, chars := (chars m)(a \<mapsto> cstr CONCRETE_OPTIONS)\<rparr>"
  shows "OptionHandler_AddOption (xio_functions env) (Some h) (Some (Literal CONCRETE_OPTIONS)) (Some k) m =
    do { (r, m) \<leftarrow> VECTOR_push_back (Some s)
           (Some (Local (option_bytes \<lparr>option_name = Some a, option_storage = Some k\<rparr>))) 1 m2;
         if r \<noteq> 0 then do {
           d \<leftarrow> handlers m h;
           g \<leftarrow> destroyOption d;
           m \<leftarrow> destroy_option (xio_functions env) g (Some (Literal CONCRETE_OPTIONS)) (Some k) m;
           m \<leftarrow> cfree (Some a) m;
           Some (OPTIONHANDLER_ERROR, m) }
         else Some (OPTIONHANDLER_OK, m) }"
proof -
  have c: "c_string (Literal CONCRETE_OPTIONS) m' = Some CONCRETE_OPTIONS" for m' :: "'w owmem"
    using concrete_options_no_zero by (simp add: c_string_def)
  have "mallocAndStrcpy_s (Some None) (Some (Literal CONCRETE_OPTIONS)) m = Some ((0, Some (Some a)), m2)"
    using mallocAndStrcpy_spec [OF c [of m] _ wf, of None] copy concrete_options_length by (simp add: m2_def a_def)
  moreover have "clone_option (xio_functions env) xio_CloneOption_fn (Some (Literal CONCRETE_OPTIONS)) (Some k) m2 = Some (Some k, m2)"
    using c [of m2] by (simp add: xio_functions_def xio_CloneOption_def)
  moreover have "handlers m2 h = Some (io_handler s)" using h by (simp add: m2_def)
  ultimately show ?thesis
    using h by (simp add: OptionHandler_AddOption_def AddOptionInternal_def io_handler_def)
qed

lemma add_concrete_stored:
  fixes m :: "'w owmem"
  assumes O: "options_at m h (io_handler s) []" and wf: "wf_mem m" and copy: "grants m (brk m) 16"
    and grow: "grants m (Suc (brk m)) 8" and small: "Suc (brk m) < 2 ^ 32" "Suc k < 2 ^ 32"
  shows "\<exists>m'. OptionHandler_AddOption (xio_functions env) (Some h) (Some (Literal CONCRETE_OPTIONS)) (Some k) m =
      Some (OPTIONHANDLER_OK, m') \<and> options_at m' h (io_handler s) [(brk m, CONCRETE_OPTIONS, k)] \<and>
    xios m' = xios m \<and> oworld m' = oworld m \<and>
    (\<forall>x d os. options_at m x d os \<longrightarrow> handler_storage d \<noteq> Some s \<longrightarrow> options_at m' x d os)"
proof -
  define m2 where "m2 = m\<lparr>brk := Suc (brk m), chars := (chars m)(brk m \<mapsto> cstr CONCRETE_OPTIONS)\<rparr>"
  let ?b = "option_bytes (option_of (brk m, CONCRETE_OPTIONS, k))"
  have h: "handlers m h = Some (io_handler s)" using O by (simp add: options_at_def)
  have keep: "options_at m2 x d os" if "options_at m x d os" for x d os
    unfolding m2_def by (rule options_at_copy [OF that wf])
  have V2: "vector_at m2 s 8 []" using keep [OF O] by (simp add: options_at_def io_handler_def)
  have S2: "storage_of m2 s = None" using V2 by (auto elim: vector_atE)
  have wf2: "wf_mem m2" using wf by (simp add: wf_mem_def m2_def)
  have e: "elements_are m2 s (Local ?b) [?b]" by (simp add: elements_are_def)
  obtain m3 where run: "VECTOR_push_back (Some s) (Some (Local ?b)) 1 m2 = Some (0, m3)"
    and E: "vec_effect m2 s m3" and V3: "vector_at m3 s 8 [?b]"
    using VECTOR_push_back_spec [OF V2 wf2 _ _ e] grow by (auto simp: ok_iff m2_def)
  have m3: "handlers m3 = handlers m" "chars m3 = (chars m)(brk m \<mapsto> cstr CONCRETE_OPTIONS)" "xios m3 = xios m" "oworld m3 = oworld m"
    using E by (auto simp: vec_effect_def m2_def)
  have "OptionHandler_AddOption (xio_functions env) (Some h) (Some (Literal CONCRETE_OPTIONS)) (Some k) m = Some (OPTIONHANDLER_OK, m3)"
    using run by (simp add: add_concrete [OF h wf copy] m2_def option_of_def)
  moreover have "options_at m3 h (io_handler s) [(brk m, CONCRETE_OPTIONS, k)]"
    using V3 h m3 small concrete_options_no_zero by (simp add: options_at_def io_handler_def)
  moreover have "options_at m3 x d os" if "options_at m x d os" "handler_storage d \<noteq> Some s" for x d os
    by (rule options_at_other [OF keep [OF that(1)] wf2 E that(2) S2])
  ultimately show ?thesis using m3 by blast
qed

lemma add_concrete_destroyed:
  fixes m :: "'w owmem"
  assumes O: "options_at m h (io_handler s) []" and wf: "wf_mem m" and copy: "grants m (brk m) 16"
    and grow: "\<not> grants m (Suc (brk m)) 8" and K: "options_at m k dk os" "destroyOption dk = Some g"
  shows "\<exists>m'. OptionHandler_AddOption (xio_functions (options_of C E)) (Some h) (Some (Literal CONCRETE_OPTIONS)) (Some k) m =
      Some (OPTIONHANDLER_ERROR, m') \<and> handlers m' k = None"
proof -
  define m2 where "m2 = m\<lparr>brk := Suc (brk m), chars := (chars m)(brk m \<mapsto> cstr CONCRETE_OPTIONS)\<rparr>"
  let ?b = "option_bytes (option_of (brk m, CONCRETE_OPTIONS, k))"
  let ?m3 = "m2\<lparr>brk := Suc (Suc (brk m))\<rparr>"
  have h: "handlers m h = Some (io_handler s)" using O by (simp add: options_at_def)
  have keep: "options_at m2 x d os" if "options_at m x d os" for x d os
    unfolding m2_def by (rule options_at_copy [OF that wf])
  have V2: "vector_at m2 s 8 []" using keep [OF O] by (simp add: options_at_def io_handler_def)
  have wf2: "wf_mem m2" using wf by (simp add: wf_mem_def m2_def)
  have e: "elements_are m2 s (Local ?b) [?b]" by (simp add: elements_are_def)
  have run: "VECTOR_push_back (Some s) (Some (Local ?b)) 1 m2 = Some (FAILURE, ?m3)"
    using VECTOR_push_back_spec [OF V2 wf2 _ _ e] grow by (auto simp: ok_iff m2_def)
  have eq: "?m3 = m\<lparr>brk := Suc (Suc (brk m)), chars := (chars m)(brk m \<mapsto> cstr CONCRETE_OPTIONS)\<rparr>" by (simp add: m2_def)
  have K3: "options_at ?m3 k dk os" unfolding eq by (rule options_at_copy [OF K(1) wf])
  obtain t where t: "handler_storage dk = Some t" using K(1) by (auto simp: options_at_def)
  have live: "brk m \<notin> set (map fst os)" using K(1) wf by (auto simp: options_at_def wf_mem_def)
  obtain m4 where d: "OptionHandler_Destroy (options_of C E) (Some k) ?m3 = Some m4" and m4: "handlers m4 k = None"
      "chars m4 (brk m) = Some (cstr CONCRETE_OPTIONS)"
    using outside.Destroy_spec [OF K3 K(2) t, of C E] live by (simp add: names_without_def m2_def)
  have "destroy_option (xio_functions (options_of C E)) xio_DestroyOption_fn (Some (Literal CONCRETE_OPTIONS)) (Some k) ?m3 = Some m4"
    using d concrete_options_no_zero by (simp add: xio_functions_def xio_DestroyOption_def c_string_def)
  moreover have "handlers ?m3 h = Some (io_handler s)" using h by (simp add: m2_def)
  ultimately show ?thesis
    using run m4 by (simp add: add_concrete [OF h wf copy] m2_def option_of_def io_handler_def cfree_def)
qed

end
