(* ===== verification/Option_Properties.thy ===== *)
theory Option_Properties
  imports Xio_Option_Rules
begin

text \<open>
  The properties of the vector, of the option handler and of the options of an io, with their
  witnesses on a heap with an io, its handler of options and that of its concrete io.
\<close>

section \<open>A heap\<close>

definition option_log :: "(nat \<times> cstring \<times> addr) list option_calls" where
  "option_log = \<lparr>c_clone = (\<lambda>f n v w. (Some v, w)), c_destroy = (\<lambda>f n v w. w @ [(f, n, v)]),
     c_set = (\<lambda>f dest n v w. (0, w @ [(f, n, v)]))\<rparr>"

definition sample_io_options :: "(nat \<times> cstring \<times> addr) list owmem io_option_env" where
  "sample_io_options = \<lparr>clone_option = \<lambda>_ _ _ _. None, destroy_option = \<lambda>_ _ _ _. None, set_option = \<lambda>_ _ _ _ _. None,
     io_setoption = \<lambda>_ _ _ _ _. None, io_retrieveoptions = \<lambda>_ _ m. Some (Some 3, m)\<rparr>"

definition sample_options :: "(addr \<times> cstring \<times> addr) list" where
  "sample_options = [(6, [0x61], 7), (10, [0x62], 11)]"

definition option_heap :: "(nat \<times> cstring \<times> addr) list owmem" where
  "option_heap = \<lparr>grants = \<lambda>_ _. True, brk = 20,
     blocks = [5 \<mapsto> concat (map (option_bytes \<circ> option_of) sample_options), 15 \<mapsto> option_bytes (option_of (16, CONCRETE_OPTIONS, 3))],
     chars = [6 \<mapsto> cstr [0x61], 10 \<mapsto> cstr [0x62], 16 \<mapsto> cstr CONCRETE_OPTIONS], buffers = Map.empty, strs = Map.empty, codecs = Map.empty,
     messages = Map.empty, tick_counters = Map.empty, xios = [8 \<mapsto> \<lparr>io_interface_description = \<lparr>concrete_io_retrieveoptions = Some 1,
       concrete_io_create = Some 2, concrete_io_destroy = Some 3, concrete_io_open = Some 4, concrete_io_close = Some 5,
       concrete_io_send = Some 6, concrete_io_dowork = Some 7, concrete_io_setoption = Some 8\<rparr>, concrete_xio_handle = Some 9\<rparr>],
     list_items = Map.empty, lists = Map.empty, vectors = [4 \<mapsto> \<lparr>vec_storage = Some 5, vec_count = 2, elementSize = 8\<rparr>, 14 \<mapsto> \<lparr>vec_storage = Some 15, vec_count = 1, elementSize = 8\<rparr>],
     handlers = [3 \<mapsto> \<lparr>cloneOption = Some 1, destroyOption = Some 2, setOption = Some 3, handler_storage = Some 4\<rparr>,
       13 \<mapsto> \<lparr>cloneOption = Some xio_CloneOption_fn, destroyOption = Some xio_DestroyOption_fn, setOption = Some xio_setoption_fn,
         handler_storage = Some 14\<rparr>], oworld = []\<rparr>"

definition concrete_handler :: OPTIONHANDLER_HANDLE_DATA where
  "concrete_handler = \<lparr>cloneOption = Some 1, destroyOption = Some 2, setOption = Some 3, handler_storage = Some 4\<rparr>"

lemma option_heap_wf: "wf_mem option_heap"
  by (simp add: wf_mem_def option_heap_def)

lemma option_heap_vector: "vector_at option_heap 4 8 (map (option_bytes \<circ> option_of) sample_options)"
  by (simp add: vector_at_def option_heap_def sample_options_def)

lemma option_heap_handlers:
  "options_at option_heap 3 concrete_handler sample_options"
  "options_at option_heap 13 (io_handler 14) [(16, CONCRETE_OPTIONS, 3)]"
  using option_heap_vector concrete_options_no_zero
  by (simp_all add: options_at_def option_heap_def concrete_handler_def io_handler_def sample_options_def vector_at_def)

section \<open>Vectors\<close>

text \<open>
  \<open>VECTOR_push_back\<close> appends the elements to those that the vector holds, from any array but its
  own, or fails when the storage cannot grow and leaves everything as it was; every other vector
  keeps its elements.
\<close>

theorem vector_push_back:
  assumes "vector_at m h k xs" "wf_mem m" "ys \<noteq> []" "chunks k ys" "elements_are m h p ys" "k * (length xs + length ys) < 2 ^ 32"
  shows "ok (VECTOR_push_back (Some h) (Some p) (of_nat (length ys)) m) (\<lambda>(r, m').
    (if grants m (brk m) (k * (length xs + length ys)) then r = 0 \<and> vector_at m' h k (xs @ ys)
     else r = FAILURE \<and> m' = m\<lparr>brk := Suc (brk m)\<rparr>) \<and>
    (\<forall>x j zs. vector_at m x j zs \<longrightarrow> x \<noteq> h \<longrightarrow> storage_of m x \<noteq> storage_of m h \<longrightarrow> vector_at m' x j zs))"
proof -
  let ?R = "\<lambda>r m'. if grants m (brk m) (k * (length xs + length ys)) then r = 0 \<and> vector_at m' h k (xs @ ys)
     else r = FAILURE \<and> m' = m\<lparr>brk := Suc (brk m)\<rparr>"
  obtain r m' where run: "VECTOR_push_back (Some h) (Some p) (of_nat (length ys)) m = Some (r, m')"
    and E: "vec_effect m h m'" and R: "?R r m'"
    using VECTOR_push_back_spec [OF assms] by (auto elim!: okE)
  have "vector_at m' x j zs" if "vector_at m x j zs" "x \<noteq> h" "storage_of m x \<noteq> storage_of m h" for x j zs
    using vec_effect_other(1) [OF E that(1) assms(2) that(2)] that(3) by simp
  then show ?thesis unfolding run using R by simp
qed

theorem vector_push_back_witness:
  "ok (VECTOR_push_back (Some 4) (Some (Local (option_bytes (option_of (1, [], 2))))) 1 option_heap) (\<lambda>(r, m').
    r = 0 \<and> vector_at m' 4 8 (map (option_bytes \<circ> option_of) (sample_options @ [(1, [], 2)])))"
proof -
  have e: "elements_are option_heap 4 (Local (option_bytes (option_of (1, [], 2)))) [option_bytes (option_of (1, [], 2))]"
    by (simp add: elements_are_def)
  have "ok (VECTOR_push_back (Some 4) (Some (Local (option_bytes (option_of (1, [], 2)))))
      (of_nat (length [option_bytes (option_of (1, [], 2))])) option_heap) (\<lambda>(r, m').
    r = 0 \<and> vector_at m' 4 8 (map (option_bytes \<circ> option_of) sample_options @ [option_bytes (option_of (1, [], 2))]))"
    by (rule ok_mono [OF vector_push_back [OF option_heap_vector option_heap_wf _ _ e]])
      (auto simp: sample_options_def option_heap_def)
  then show ?thesis by simp
qed

text \<open>
  \<open>VECTOR_erase\<close> of elements of the vector takes out exactly those and keeps the others in their
  order, whether its storage can be shrunk or not.
\<close>

theorem vector_erase:
  assumes "vector_at m h k xs" "wf_mem m" "n \<noteq> 0" "unat n \<le> length xs - i" "i < length xs"
  shows "ok (VECTOR_erase (Some h) (Some (element_ptr m h k i)) n m) (\<lambda>m'. vector_at m' h k (take i xs @ drop (i + unat n) xs))"
  by (rule ok_mono [OF VECTOR_erase_spec [OF assms]]) simp

theorem vector_erase_witness:
  "ok (VECTOR_erase (Some 4) (Some (5, 0)) 1 option_heap) (\<lambda>m'. vector_at m' 4 8 [option_bytes (option_of (10, [0x62], 11))])"
proof -
  have "element_ptr option_heap 4 8 0 = (5, 0)" by (simp add: element_ptr_def storage_of_def option_heap_def)
  then show ?thesis
    using vector_erase [OF option_heap_vector option_heap_wf, of 1 0] by (simp add: sample_options_def)
qed

text \<open>
  \<open>VECTOR_push_back\<close> does not check the product of the element size and the number of elements: when it is
  \<open>2 ^ 32\<close>, an empty vector reports success without storage for any of its elements.
\<close>

theorem push_back_overflow:
  assumes "vector_at m h k []" "wf_mem m" "k * unat n = 2 ^ 32" "grants m (brk m) 0"
  shows "ok (VECTOR_push_back (Some h) (Some (Local [])) n m) (\<lambda>(r, m'). r = 0 \<and> VECTOR_size (Some h) m' = Some n \<and>
    (\<exists>p. VECTOR_element (Some h) 0 m' = Some (Some p) \<and> read_bytes p k m' = None))"
proof -
  obtain v where v: "vectors m h = Some v" "unat (elementSize v) = k" "vec_count v = 0" "vec_storage v = None" "0 < k"
    using assms(1) by (auto simp: vector_at_def unat_eq_0 split: option.splits)
  have n: "n \<noteq> 0" "\<not> n \<le> 0" using assms(3) by auto
  have w: "elementSize v * n = 0"
    using assms(3) v(2) by (simp add: word_unat_eq_iff unat_word_ariths)
  show ?thesis
    using v n w assms(4)
    by (auto simp: VECTOR_push_back_def malloc_def write_bytes_def upd_vector_def VECTOR_size_def VECTOR_element_def element_at_def
        read_bytes_def)
qed

theorem push_back_overflow_witness:
  "ok (VECTOR_push_back (Some 4) (Some (Local [])) (2 ^ 16)
      (option_heap\<lparr>vectors := [4 \<mapsto> \<lparr>vec_storage = None, vec_count = 0, elementSize = 2 ^ 16\<rparr>]\<rparr>)) (\<lambda>(r, m'). r = 0 \<and> VECTOR_size (Some 4) m' = Some (2 ^ 16))"
proof -
  let ?m = "option_heap\<lparr>vectors := [4 \<mapsto> \<lparr>vec_storage = None, vec_count = 0, elementSize = 2 ^ 16\<rparr>]\<rparr>"
  have V: "vector_at ?m 4 (2 ^ 16) []" by (simp add: vector_at_def)
  show ?thesis
    by (rule ok_mono [OF push_back_overflow [OF V]]) (auto simp: option_heap_def wf_mem_def)
qed

section \<open>Option handlers\<close>

text \<open>
  \<open>OptionHandler_AddOption\<close> clones the value with the function of the module and appends a copy of the
  name with the clone to the options; when the value cannot be cloned or the vector cannot grow, it
  fails, gives back the copy of the name, and destroys the clone.
\<close>

theorem add_option:
  fixes m :: "'w owmem"
  assumes "options_at m h d os" "wf_mem m" "c_string p m = Some n" "length n < 2 ^ 32 - 1" "grants m (brk m) (Suc (length n))"
    and "cloneOption d = Some f" "destroyOption d = Some g" "Suc (brk m) < 2 ^ 32" "8 * Suc (length os) < 2 ^ 32"
    and "c_clone C f n val (oworld m) = (v, w)" "\<And>a. v = Some a \<Longrightarrow> Suc a < 2 ^ 32"
  shows "ok (OptionHandler_AddOption (options_of C E) (Some h) (Some p) (Some val) m) (\<lambda>(r, m'). case v of
      None \<Rightarrow> r = OPTIONHANDLER_ERROR \<and> m' = m\<lparr>brk := Suc (brk m), oworld := w\<rparr>
    | Some a \<Rightarrow>
        if grants m (Suc (brk m)) (8 * Suc (length os))
        then r = OPTIONHANDLER_OK \<and> options_at m' h d (os @ [(brk m, n, a)]) \<and> oworld m' = w
        else r = OPTIONHANDLER_ERROR \<and> m' = m\<lparr>brk := Suc (Suc (brk m)), oworld := c_destroy C g n a w\<rparr>)"
proof -
  have c: "fst (c_clone C f n val (oworld m)) = v" "snd (c_clone C f n val (oworld m)) = w" using assms(10) by simp_all
  show ?thesis
    using outside.AddOption_spec [OF assms(1-9), of C val E, unfolded c, OF assms(11)] by blast
qed

theorem add_option_witness:
  "ok (OptionHandler_AddOption (options_of option_log sample_io_options) (Some 3) (Some (Literal [0x63])) (Some 12) option_heap) (\<lambda>(r, m').
    r = OPTIONHANDLER_OK \<and> options_at m' 3 concrete_handler (sample_options @ [(20, [0x63], 12)]))"
proof -
  have c: "c_string (Literal [0x63]) option_heap = Some [0x63]" by simp
  show ?thesis
    by (rule ok_mono [OF add_option [OF option_heap_handlers(1) option_heap_wf c, where f = 1 and g = 2 and C = option_log and v = "Some 12" and w = "[]"]])
      (auto simp: option_heap_def concrete_handler_def sample_options_def option_log_def)
qed


section \<open>The options of an io\<close>

text \<open>
  C39: the options that are retrieved from an io and fed to an io reach the concrete io: the handler that
  \<open>xio_retrieveoptions\<close> gives holds the handler of the concrete io, and feeding it calls the
  function that the concrete module registered for each of its options, in their order, with the
  handle of the concrete io fed, until one is refused; the result says whether all were taken.
  The concrete io is asked in the memory with the new handler, which it keeps.
\<close>

theorem retrieved_options_reach_io:
  fixes m m1 :: "'w owmem"
  assumes i: "xios m x = Some i" "concrete_io_retrieveoptions (io_interface_description i) = Some f"
    and new: "grants m (brk m) 16" "grants m (Suc (brk m)) 12"
    and asked: "io_retrieveoptions E f (concrete_xio_handle i) (asking m) = Some (Some k, m1)"
    and kept: "options_at m1 (brk m) (io_handler (Suc (brk m))) []" "wf_mem m1"
    and K: "options_at m1 k dk os" "setOption dk = Some g" "handler_storage dk \<noteq> Some (Suc (brk m))"
    and grow: "grants m1 (brk m1) 16" "grants m1 (Suc (brk m1)) 8" "Suc (brk m1) < 2 ^ 32" "Suc k < 2 ^ 32"
    and y: "xios m1 y = Some j" "concrete_xio_handle j = Some c"
  shows "ok (do { (h, m) \<leftarrow> xio_retrieveoptions (options_of C E) (Some x) m;
                  OptionHandler_FeedOptions (xio_functions (options_of C E)) h (Some y) m })
    (\<lambda>(r, m'). (r, oworld m') = spec_feed C g (Some c) (contents os) (oworld m1))"
proof -
  obtain m2 where add: "OptionHandler_AddOption (xio_functions (options_of C E)) (Some (brk m)) (Some (Literal CONCRETE_OPTIONS)) (Some k) m1 =
      Some (OPTIONHANDLER_OK, m2)" and O: "options_at m2 (brk m) (io_handler (Suc (brk m))) [(brk m1, CONCRETE_OPTIONS, k)]"
    and m2: "xios m2 = xios m1" "oworld m2 = oworld m1" and K2: "options_at m2 k dk os"
    using add_concrete_stored [OF kept grow, of "options_of C E"] K(1,3) by blast
  have "xio_retrieveoptions (options_of C E) (Some x) m = Some (Some (brk m), m2)"
    using create_asking [of m] new i asked add
    by (simp add: xio_retrieveoptions_def sizeof_OPTIONHANDLER_HANDLE_DATA_def sizeof_VECTOR_def options_of_def asking_def)
  moreover have "setOption (io_handler (Suc (brk m))) = Some xio_setoption_fn" by (simp add: io_handler_def)
  ultimately show ?thesis
    using feed_retrieved [OF O _ K2 K(2), of y j c C E] y m2 by (simp add: split_def Let_def)
qed

lemma asking_heap:
  "options_at (asking option_heap) 20 (io_handler 21) []" "wf_mem (asking option_heap)"
  "options_at (asking option_heap) 3 concrete_handler sample_options"
  by (simp_all add: options_at_def vector_at_def asking_def option_heap_def wf_mem_def sizeof_OPTION_def io_handler_def
      concrete_handler_def sample_options_def)

theorem retrieved_options_reach_io_witness:
  "ok (do { (h, m) \<leftarrow> xio_retrieveoptions (options_of option_log sample_io_options) (Some 8) option_heap;
            OptionHandler_FeedOptions (xio_functions (options_of option_log sample_io_options)) h (Some 8) m })
    (\<lambda>(r, m'). (r, oworld m') = (OPTIONHANDLER_OK, [(3, [0x61], 7), (3, [0x62], 11)]))"
  using retrieved_options_reach_io [of option_heap 8 _ 1 sample_io_options 3 "asking option_heap" concrete_handler sample_options 3 8 _ 9
      option_log] asking_heap
  by (simp add: option_heap_def asking_def sample_io_options_def concrete_handler_def option_log_def sample_options_def)

text \<open>
  C40: when the vector of the new handler cannot grow, \<open>xio_retrieveoptions\<close> destroys the options of the concrete
  io twice: \<open>OptionHandler_AddOption\<close> destroys the clone of the value, which is the value itself, and
  \<open>xio_retrieveoptions\<close> destroys it again, which is undefined.
\<close>

theorem retrieve_options_destroys_twice:
  fixes m m1 :: "'w owmem"
  assumes i: "xios m x = Some i" "concrete_io_retrieveoptions (io_interface_description i) = Some f"
    and new: "grants m (brk m) 16" "grants m (Suc (brk m)) 12"
    and asked: "io_retrieveoptions E f (concrete_xio_handle i) (asking m) = Some (Some k, m1)"
    and kept: "options_at m1 (brk m) (io_handler (Suc (brk m))) []" "wf_mem m1"
    and K: "options_at m1 k dk os" "destroyOption dk = Some g"
    and grow: "grants m1 (brk m1) 16" "\<not> grants m1 (Suc (brk m1)) 8"
  shows "xio_retrieveoptions (options_of C E) (Some x) m = None"
proof -
  obtain m2 where add: "OptionHandler_AddOption (xio_functions (options_of C E)) (Some (brk m)) (Some (Literal CONCRETE_OPTIONS)) (Some k) m1 =
      Some (OPTIONHANDLER_ERROR, m2)" and gone: "handlers m2 k = None"
    using add_concrete_destroyed [OF kept grow K, of C E] by blast
  show ?thesis
    using create_asking [of m] new i asked add gone
    by (simp add: xio_retrieveoptions_def sizeof_OPTIONHANDLER_HANDLE_DATA_def sizeof_VECTOR_def options_of_def asking_def
        OptionHandler_Destroy_def DestroyInternal_def)
qed

lemma asking_grants:
  "asking (m\<lparr>grants := G\<rparr>) = (asking m)\<lparr>grants := G\<rparr>" "options_at (m\<lparr>grants := G\<rparr>) h d os = options_at m h d os"
  "wf_mem (m\<lparr>grants := G\<rparr>) = wf_mem m"
  by (simp_all add: asking_def options_at_def vector_at_def wf_mem_def cong: option.case_cong)

theorem retrieve_options_destroys_twice_witness:
  "xio_retrieveoptions (options_of option_log sample_io_options) (Some 8) (option_heap\<lparr>grants := \<lambda>a n. a \<noteq> 23\<rparr>) = None"
proof -
  let ?m = "option_heap\<lparr>grants := \<lambda>a n. a \<noteq> 23\<rparr>"
  have "options_at (asking ?m) 20 (io_handler 21) []" "wf_mem (asking ?m)" "options_at (asking ?m) 3 concrete_handler sample_options"
    using asking_heap by (simp_all add: asking_grants)
  then show ?thesis
    using retrieve_options_destroys_twice [of ?m 8 _ 1 sample_io_options 3 "asking ?m" concrete_handler sample_options 2 option_log]
    by (simp add: option_heap_def asking_def sample_io_options_def concrete_handler_def)
qed

end
