(* ===== verification/Socketio.thy ===== *)
theory Socketio
  imports Xio_Options List_Rules
begin

text \<open>
  The socket transport of \<^verbatim>\<open>uMQTT/ports/src/socketio_berkeley.c\<close>: an instance sends at once what the
  network takes and keeps the rest in a list, which \<^verbatim>\<open>socketio_dowork\<close> sends later.

  The socket functions of lwIP and the callbacks are the record \<open>socket_env\<close>, over the whole memory; a
  call that can fail returns its result with the value of \<^verbatim>\<open>errno\<close> after it.  The array
  \<^verbatim>\<open>recv_bytes\<close> of an instance is the array of bytes with the address of the instance.
\<close>

section \<open>Structs\<close>

datatype IO_STATE = IO_STATE_CLOSED | IO_STATE_OPENING | IO_STATE_OPEN | IO_STATE_CLOSING | IO_STATE_ERROR

record PENDING_SOCKET_IO =
  pending_bytes :: ptr
  pending_size :: u32
  on_send_complete :: fptr
  callback_context :: ptr
  pending_list :: ptr

record SOCKET_IO_INSTANCE =
  socket_fd :: int
  on_bytes_received :: fptr
  on_io_error :: fptr
  on_bytes_received_context :: ptr
  on_io_error_context :: ptr
  hostname :: ptr
  port :: int
  target_mac_address :: ptr
  io_state :: IO_STATE
  pending_io_list :: ptr

record SOCKETIO_CONFIG =
  config_hostname :: "char_ptr option"
  config_port :: int
  accepted_socket :: "int option"

record qmem = omem +
  sockets :: "addr \<rightharpoonup> SOCKET_IO_INSTANCE"
  pendings :: "addr \<rightharpoonup> PENDING_SOCKET_IO"

record 'm socket_env = "'m option_env" +
  sk_socket :: "'m \<Rightarrow> (int \<times> 'm) option"
  sk_close :: "int \<Rightarrow> 'm \<Rightarrow> 'm option"
  sk_shutdown :: "int \<Rightarrow> 'm \<Rightarrow> 'm option"
  sk_send :: "int \<Rightarrow> mbyte list \<Rightarrow> 'm \<Rightarrow> ((int \<times> int) \<times> 'm) option"
  sk_recv :: "int \<Rightarrow> u32 \<Rightarrow> 'm \<Rightarrow> ((int \<times> int \<times> u8 list) \<times> 'm) option"
  sk_getaddrinfo :: "cstring option \<Rightarrow> cstring \<Rightarrow> 'm \<Rightarrow> ((int \<times> ptr) \<times> 'm) option"
  sk_freeaddrinfo :: "ptr \<Rightarrow> 'm \<Rightarrow> 'm option"
  sk_fcntl :: "int \<Rightarrow> int \<Rightarrow> int \<Rightarrow> 'm \<Rightarrow> (int \<times> 'm) option"
  sk_connect :: "int \<Rightarrow> ptr \<Rightarrow> 'm \<Rightarrow> ((int \<times> int) \<times> 'm) option"
  sk_select :: "int \<Rightarrow> int \<Rightarrow> 'm \<Rightarrow> ((int \<times> int) \<times> 'm) option"
  sk_getsockopt :: "int \<Rightarrow> int \<Rightarrow> int \<Rightarrow> 'm \<Rightarrow> ((int \<times> int) \<times> 'm) option"
  sk_setsockopt :: "int \<Rightarrow> int \<Rightarrow> int \<Rightarrow> ptr \<Rightarrow> 'm \<Rightarrow> ((int \<times> int) \<times> 'm) option"
  call_open_complete :: "nat \<Rightarrow> ptr \<Rightarrow> IO_OPEN_RESULT \<Rightarrow> 'm \<Rightarrow> 'm option"
  call_close_complete :: "nat \<Rightarrow> ptr \<Rightarrow> 'm \<Rightarrow> 'm option"
  call_send_complete :: "nat \<Rightarrow> ptr \<Rightarrow> IO_SEND_RESULT \<Rightarrow> 'm \<Rightarrow> 'm option"
  call_bytes_received :: "nat \<Rightarrow> ptr \<Rightarrow> bptr option \<Rightarrow> u32 \<Rightarrow> 'm \<Rightarrow> 'm option"
  call_io_error :: "nat \<Rightarrow> ptr \<Rightarrow> 'm \<Rightarrow> 'm option"

definition INVALID_SOCKET :: int where "INVALID_SOCKET = - 1"
definition SOCKET_SUCCESS :: int where "SOCKET_SUCCESS = 0"
definition CONNECT_TIMEOUT :: int where "CONNECT_TIMEOUT = 10"
definition RECEIVE_BYTES_VALUE :: u32 where "RECEIVE_BYTES_VALUE = 64"
definition EINTR :: int where "EINTR = 4"
definition EAGAIN :: int where "EAGAIN = 11"
definition EINPROGRESS :: int where "EINPROGRESS = 115"
definition SOL_SOCKET :: int where "SOL_SOCKET = 0xfff"
definition SOL_TCP :: int where "SOL_TCP = 6"
definition SO_KEEPALIVE :: int where "SO_KEEPALIVE = 8"
definition SO_ERROR :: int where "SO_ERROR = 0x1007"
definition TCP_KEEPIDLE :: int where "TCP_KEEPIDLE = 3"
definition TCP_KEEPINTVL :: int where "TCP_KEEPINTVL = 4"
definition F_GETFL :: int where "F_GETFL = 3"
definition F_SETFL :: int where "F_SETFL = 4"
definition O_NONBLOCK :: int where "O_NONBLOCK = 1"

definition sizeof_SOCKET_IO_INSTANCE :: nat where "sizeof_SOCKET_IO_INSTANCE = 104"
definition sizeof_PENDING_SOCKET_IO :: nat where "sizeof_PENDING_SOCKET_IO = 20"

definition OPTION_NET_INT_MAC_ADDRESS :: cstring where
  "OPTION_NET_INT_MAC_ADDRESS = lit ''net_interface_mac_address''"

definition upd_socket :: "addr \<Rightarrow> (SOCKET_IO_INSTANCE \<Rightarrow> SOCKET_IO_INSTANCE) \<Rightarrow> 'z qmem_scheme \<Rightarrow> 'z qmem_scheme option" where
  "upd_socket s f m = do { i \<leftarrow> sockets m s; Some (m\<lparr>sockets := (sockets m)(s \<mapsto> f i)\<rparr>) }"

definition upd_pending :: "addr \<Rightarrow> (PENDING_SOCKET_IO \<Rightarrow> PENDING_SOCKET_IO) \<Rightarrow> 'z qmem_scheme \<Rightarrow> 'z qmem_scheme option" where
  "upd_pending p f m = do { x \<leftarrow> pendings m p; Some (m\<lparr>pendings := (pendings m)(p \<mapsto> f x)\<rparr>) }"

definition free_pending :: "addr \<Rightarrow> 'z qmem_scheme \<Rightarrow> 'z qmem_scheme option" where
  "free_pending p m = do { _ \<leftarrow> pendings m p; Some (m\<lparr>pendings := (pendings m)(p := None)\<rparr>) }"

definition free_socket :: "addr \<Rightarrow> 'z qmem_scheme \<Rightarrow> 'z qmem_scheme option" where
  "free_socket s m = do {
     _ \<leftarrow> sockets m s;
     free (Some s) (m\<lparr>sockets := (sockets m)(s := None)\<rparr>) }"

text \<open>\<open>strcpy\<close> copies the characters and the zero.\<close>

definition strcpy :: "bptr \<Rightarrow> char_ptr \<Rightarrow> 'z mem_scheme \<Rightarrow> 'z mem_scheme option" where
  "strcpy dst src m = do { s \<leftarrow> c_string src m; cwrite dst (cstr s) m }"

section \<open>Options\<close>

definition socketio_CloneOption :: "char_ptr option \<Rightarrow> ptr \<Rightarrow> 'z qmem_scheme \<Rightarrow> (ptr \<times> 'z qmem_scheme) option" where
  "socketio_CloneOption name val m =
     (case name of
        None \<Rightarrow> Some (None, m)
      | Some p \<Rightarrow> do {
          n \<leftarrow> c_string p m;
          if n = OPTION_NET_INT_MAC_ADDRESS then
            (case name_ptr val of
               None \<Rightarrow> Some (None, m)
             | Some v \<Rightarrow> do {
                 k \<leftarrow> strlen v m;
                 (result, m) \<leftarrow> cmalloc (unat (k + 1)) m;
                 case result of
                   None \<Rightarrow> Some (None, m)
                 | Some a \<Rightarrow> do { m \<leftarrow> strcpy (a, 0) v m; Some (Some a, m) } })
          else Some (None, m) })"

definition socketio_DestroyOption :: "char_ptr option \<Rightarrow> ptr \<Rightarrow> 'z qmem_scheme \<Rightarrow> 'z qmem_scheme option" where
  "socketio_DestroyOption name val m =
     (case name of
        None \<Rightarrow> Some m
      | Some p \<Rightarrow> do {
          n \<leftarrow> c_string p m;
          if n = OPTION_NET_INT_MAC_ADDRESS \<and> val \<noteq> None then cfree val m else Some m })"

text \<open>The loop over the characters of a string, which ends at its zero.\<close>

definition islower :: "u8 \<Rightarrow> bool" where "islower c \<longleftrightarrow> 0x61 \<le> c \<and> c \<le> 0x7a"
definition toupper :: "u8 \<Rightarrow> u8" where "toupper c = (if islower c then c - 0x20 else c)"

partial_function (option) strtoup_loop :: "addr \<Rightarrow> nat \<Rightarrow> 'z mem_scheme \<Rightarrow> 'z mem_scheme option" where
  "strtoup_loop a i m = do {
     xs \<leftarrow> cread (Chars a i) 1 m;
     c \<leftarrow> hd xs;
     if c = 0 then Some m
     else do {
       m \<leftarrow> (if islower c then cwrite (a, i) [Some (toupper c)] m else Some m);
       strtoup_loop a (Suc i) m } }"

definition strtoup :: "ptr \<Rightarrow> 'z mem_scheme \<Rightarrow> 'z mem_scheme option" where
  "strtoup str m = (case str of None \<Rightarrow> Some m | Some a \<Rightarrow> strtoup_loop a 0 m)"

definition set_socket_option ::
  "('z qmem_scheme, 'e) socket_env_scheme \<Rightarrow> SOCKET_IO_INSTANCE \<Rightarrow> int \<Rightarrow> int \<Rightarrow> ptr \<Rightarrow> 'z qmem_scheme \<Rightarrow>
   (int \<times> 'z qmem_scheme) option" where
  "set_socket_option env i level opt val m = do {
     ((result, errno), m) \<leftarrow> sk_setsockopt env (socket_fd i) level opt val m;
     Some (if result = - 1 then errno else result, m) }"

definition socketio_setoption ::
  "('z qmem_scheme, 'e) socket_env_scheme \<Rightarrow> ptr \<Rightarrow> char_ptr option \<Rightarrow> ptr \<Rightarrow> 'z qmem_scheme \<Rightarrow>
   (int \<times> 'z qmem_scheme) option" where
  "socketio_setoption env socket_io optionName val m =
     (if socket_io = None \<or> optionName = None \<or> val = None then Some (FAILURE, m)
      else do {
        s \<leftarrow> socket_io;
        p \<leftarrow> optionName;
        v \<leftarrow> name_ptr val;
        i \<leftarrow> sockets m s;
        n \<leftarrow> c_string p m;
        if n = lit ''tcp_keepalive'' then set_socket_option env i SOL_SOCKET SO_KEEPALIVE val m
        else if n = lit ''tcp_keepalive_time'' then set_socket_option env i SOL_TCP TCP_KEEPIDLE val m
        else if n = lit ''tcp_keepalive_interval'' then set_socket_option env i SOL_TCP TCP_KEEPINTVL val m
        else if n = OPTION_NET_INT_MAC_ADDRESS then do {
          k \<leftarrow> strlen v m;
          if k = 0 then Some (FAILURE, m)
          else do {
            (address, m) \<leftarrow> cmalloc (unat (k + 1)) m;
            m \<leftarrow> upd_socket s (\<lambda>i. i\<lparr>target_mac_address := address\<rparr>) m;
            case address of
              None \<Rightarrow> Some (FAILURE, m)
            | Some a \<Rightarrow> do {
                m \<leftarrow> strcpy (a, 0) v m;
                m \<leftarrow> strtoup (Some a) m;
                Some (0, m) } } }
        else Some (FAILURE, m) })"

definition socketio_CloneOption_fn :: nat where "socketio_CloneOption_fn = 21"
definition socketio_DestroyOption_fn :: nat where "socketio_DestroyOption_fn = 22"
definition socketio_setoption_fn :: nat where "socketio_setoption_fn = 23"

text \<open>The environment in which a call of the registered functions runs the code.\<close>

definition socket_functions :: "('z qmem_scheme, 'e) socket_env_scheme \<Rightarrow> 'z qmem_scheme option_env" where
  "socket_functions env =
     \<lparr>clone_option = (\<lambda>f. if f = socketio_CloneOption_fn then socketio_CloneOption else clone_option env f),
      destroy_option = (\<lambda>f. if f = socketio_DestroyOption_fn then socketio_DestroyOption else destroy_option env f),
      set_option = (\<lambda>f. if f = socketio_setoption_fn then socketio_setoption env else set_option env f)\<rparr>"

definition socketio_retrieveoptions ::
  "('z qmem_scheme, 'e) socket_env_scheme \<Rightarrow> ptr \<Rightarrow> 'z qmem_scheme \<Rightarrow> (ptr \<times> 'z qmem_scheme) option" where
  "socketio_retrieveoptions env handle m =
     (case handle of
        None \<Rightarrow> Some (None, m)
      | Some s \<Rightarrow> do {
          (result, m) \<leftarrow> OptionHandler_Create (Some socketio_CloneOption_fn) (Some socketio_DestroyOption_fn) (Some socketio_setoption_fn) m;
          if result = None then Some (None, m)
          else do {
            i \<leftarrow> sockets m s;
            if target_mac_address i = None then Some (result, m)
            else do {
              (r, m) \<leftarrow> OptionHandler_AddOption (socket_functions env) result (Some (Literal OPTION_NET_INT_MAC_ADDRESS)) (target_mac_address i) m;
              if r \<noteq> OPTIONHANDLER_OK then do {
                m \<leftarrow> OptionHandler_Destroy (socket_functions env) result m;
                Some (None, m) }
              else Some (result, m) } } })"

end
