(* ===== verification/Socketio_Io.thy ===== *)
theory Socketio_Io
  imports Socketio
begin

text \<open>
  The operations of the socket transport: creation, opening, sending, the work loop, closing.
  The loops that the network drives may run forever, so they are \<open>partial_function (option)\<close>.
\<close>

section \<open>Pending data\<close>

definition indicate_error :: "('z qmem_scheme, 'e) socket_env_scheme \<Rightarrow> addr \<Rightarrow> 'z qmem_scheme \<Rightarrow> 'z qmem_scheme option" where
  "indicate_error env s m = do {
     i \<leftarrow> sockets m s;
     case on_io_error i of
       None \<Rightarrow> Some m
     | Some f \<Rightarrow> call_io_error env f (on_io_error_context i) m }"

definition add_pending_io :: "addr \<Rightarrow> bptr \<Rightarrow> u32 \<Rightarrow> fptr \<times> ptr \<Rightarrow> 'z qmem_scheme \<Rightarrow> (int \<times> 'z qmem_scheme) option" where
  "add_pending_io s buf siz on_complete m = do {
     (pending_socket_io, m) \<leftarrow> malloc_struct sizeof_PENDING_SOCKET_IO m;
     case pending_socket_io of
       None \<Rightarrow> Some (FAILURE, m)
     | Some p \<Rightarrow> do {
         (bs, m) \<leftarrow> malloc (unat siz) m;
         let m = m\<lparr>pendings := (pendings m)(p \<mapsto> \<lparr>pending_bytes = bs, pending_size = 0, on_send_complete = None,
                    callback_context = None, pending_list = None\<rparr>)\<rparr>;
         case bs of
           None \<Rightarrow> do { m \<leftarrow> free_pending p m; Some (FAILURE, m) }
         | Some b \<Rightarrow> do {
             i \<leftarrow> sockets m s;
             m \<leftarrow> upd_pending p (\<lambda>x. x\<lparr>pending_size := siz, on_send_complete := fst on_complete,
                    callback_context := snd on_complete, pending_list := pending_io_list i\<rparr>) m;
             xs \<leftarrow> read_bytes buf (unat siz) m;
             m \<leftarrow> write_bytes (b, 0) xs m;
             (it, m) \<leftarrow> singlylinkedlist_add (pending_io_list i) (Some p) m;
             if it = None then do {
               x \<leftarrow> pendings m p;
               m \<leftarrow> free (pending_bytes x) m;
               m \<leftarrow> free_pending p m;
               Some (FAILURE, m) }
             else Some (0, m) } } }"

section \<open>Creation and destruction\<close>

definition socketio_create :: "SOCKETIO_CONFIG option \<Rightarrow> 'z qmem_scheme \<Rightarrow> (ptr \<times> 'z qmem_scheme) option" where
  "socketio_create io_create_parameters m =
     (case io_create_parameters of
        None \<Rightarrow> Some (None, m)
      | Some config \<Rightarrow> do {
          (result, m) \<leftarrow> malloc_struct sizeof_SOCKET_IO_INSTANCE m;
          case result of
            None \<Rightarrow> Some (None, m)
          | Some s \<Rightarrow> do {
              (l, m) \<leftarrow> singlylinkedlist_create m;
              let m = m\<lparr>blocks := (blocks m)(s \<mapsto> replicate (unat RECEIVE_BYTES_VALUE) None),
                        sockets := (sockets m)(s \<mapsto> \<lparr>socket_fd = 0, on_bytes_received = None, on_io_error = None,
                          on_bytes_received_context = None, on_io_error_context = None, hostname = None, port = 0,
                          target_mac_address = None, io_state = IO_STATE_CLOSED, pending_io_list = l\<rparr>)\<rparr>;
              if l = None then do { m \<leftarrow> free_socket s m; Some (None, m) }
              else do {
                m \<leftarrow> (case config_hostname config of
                        Some host \<Rightarrow> do {
                          n \<leftarrow> strlen host m;
                          (h, m) \<leftarrow> cmalloc (unat (n + 1)) m;
                          m \<leftarrow> (case h of None \<Rightarrow> Some m | Some a \<Rightarrow> strcpy (a, 0) host m);
                          upd_socket s (\<lambda>i. i\<lparr>hostname := h, socket_fd := INVALID_SOCKET\<rparr>) m }
                      | None \<Rightarrow> do {
                          fd \<leftarrow> accepted_socket config;
                          upd_socket s (\<lambda>i. i\<lparr>hostname := None, socket_fd := fd\<rparr>) m });
                i \<leftarrow> sockets m s;
                if hostname i = None \<and> socket_fd i = INVALID_SOCKET then do {
                  m \<leftarrow> singlylinkedlist_destroy (pending_io_list i) m;
                  m \<leftarrow> free_socket s m;
                  Some (None, m) }
                else do {
                  m \<leftarrow> upd_socket s (\<lambda>i. i\<lparr>port := config_port config, target_mac_address := None, on_bytes_received := None,
                         on_io_error := None, on_bytes_received_context := None, on_io_error_context := None,
                         io_state := IO_STATE_CLOSED\<rparr>) m;
                  Some (Some s, m) } } } })"

partial_function (option) destroy_pending_loop :: "addr \<Rightarrow> ptr \<Rightarrow> 'z qmem_scheme \<Rightarrow> 'z qmem_scheme option" where
  "destroy_pending_loop s first_pending_io m =
     (case first_pending_io of
        None \<Rightarrow> Some m
      | Some _ \<Rightarrow> do {
          pending_socket_io \<leftarrow> singlylinkedlist_item_get_value first_pending_io m;
          m \<leftarrow> (case pending_socket_io of
                  None \<Rightarrow> Some m
                | Some p \<Rightarrow> do { x \<leftarrow> pendings m p; m \<leftarrow> free (pending_bytes x) m; free_pending p m });
          i \<leftarrow> sockets m s;
          (_, m) \<leftarrow> singlylinkedlist_remove (pending_io_list i) first_pending_io m;
          first_pending_io \<leftarrow> singlylinkedlist_get_head_item (pending_io_list i) m;
          destroy_pending_loop s first_pending_io m })"

definition socketio_destroy ::
  "('z qmem_scheme, 'e) socket_env_scheme \<Rightarrow> ptr \<Rightarrow> 'z qmem_scheme \<Rightarrow> 'z qmem_scheme option" where
  "socketio_destroy env socket_io m =
     (case socket_io of
        None \<Rightarrow> Some m
      | Some s \<Rightarrow> do {
          i \<leftarrow> sockets m s;
          m \<leftarrow> (if socket_fd i \<noteq> INVALID_SOCKET then sk_close env (socket_fd i) m else Some m);
          i \<leftarrow> sockets m s;
          first_pending_io \<leftarrow> singlylinkedlist_get_head_item (pending_io_list i) m;
          m \<leftarrow> destroy_pending_loop s first_pending_io m;
          i \<leftarrow> sockets m s;
          m \<leftarrow> singlylinkedlist_destroy (pending_io_list i) m;
          m \<leftarrow> cfree (hostname i) m;
          m \<leftarrow> cfree (target_mac_address i) m;
          free_socket s m })"

section \<open>Opening and closing\<close>

definition close_socket :: "('z qmem_scheme, 'e) socket_env_scheme \<Rightarrow> addr \<Rightarrow> 'z qmem_scheme \<Rightarrow> (int \<times> 'z qmem_scheme) option" where
  "close_socket env s m = do {
     i \<leftarrow> sockets m s;
     m \<leftarrow> sk_close env (socket_fd i) m;
     m \<leftarrow> upd_socket s (\<lambda>i. i\<lparr>socket_fd := INVALID_SOCKET\<rparr>) m;
     Some (FAILURE, m) }"

definition socket_opened :: "addr \<Rightarrow> fptr \<times> ptr \<Rightarrow> fptr \<times> ptr \<Rightarrow> 'z qmem_scheme \<Rightarrow> (int \<times> 'z qmem_scheme) option" where
  "socket_opened s on_bytes on_error m = do {
     m \<leftarrow> upd_socket s (\<lambda>i. i\<lparr>on_bytes_received := fst on_bytes, on_bytes_received_context := snd on_bytes,
            on_io_error := fst on_error, on_io_error_context := snd on_error, io_state := IO_STATE_OPEN\<rparr>) m;
     Some (0, m) }"

partial_function (option) select_loop ::
  "('z qmem_scheme, 'e) socket_env_scheme \<Rightarrow> int \<Rightarrow> 'z qmem_scheme \<Rightarrow> (int \<times> 'z qmem_scheme) option" where
  "select_loop env fd m = do {
     ((retval, errno), m) \<leftarrow> sk_select env fd CONNECT_TIMEOUT m;
     if retval < 0 \<and> errno = EINTR then select_loop env fd m else Some (retval, m) }"

text \<open>The wait for a connection that is in progress; the result is false when it failed, and the socket is closed then.\<close>

definition wait_connected :: "('z qmem_scheme, 'e) socket_env_scheme \<Rightarrow> addr \<Rightarrow> 'z qmem_scheme \<Rightarrow> (bool \<times> 'z qmem_scheme) option" where
  "wait_connected env s m = do {
     i \<leftarrow> sockets m s;
     (retval, m) \<leftarrow> select_loop env (socket_fd i) m;
     if retval \<noteq> 1 then do { (_, m) \<leftarrow> close_socket env s m; Some (False, m) }
     else do {
       i \<leftarrow> sockets m s;
       ((err, so_error), m) \<leftarrow> sk_getsockopt env (socket_fd i) SOL_SOCKET SO_ERROR m;
       if err \<noteq> 0 \<or> so_error \<noteq> 0 then do { (_, m) \<leftarrow> close_socket env s m; Some (False, m) }
       else Some (True, m) } }"

text \<open>The connection to the address, from the flags of the socket on.\<close>

definition connect_socket ::
  "('z qmem_scheme, 'e) socket_env_scheme \<Rightarrow> addr \<Rightarrow> ptr \<Rightarrow> fptr \<times> ptr \<Rightarrow> fptr \<times> ptr \<Rightarrow> 'z qmem_scheme \<Rightarrow>
   (int \<times> 'z qmem_scheme) option" where
  "connect_socket env s addrInfo on_bytes on_error m = do {
     i \<leftarrow> sockets m s;
     (flags, m) \<leftarrow> sk_fcntl env (socket_fd i) F_GETFL 0 m;
     (failed, m) \<leftarrow> (if flags = - 1 then Some (True, m)
       else do {
         i \<leftarrow> sockets m s;
         (r, m) \<leftarrow> sk_fcntl env (socket_fd i) F_SETFL (flags OR O_NONBLOCK) m;
         Some (r = - 1, m) });
     if failed then close_socket env s m
     else do {
       i \<leftarrow> sockets m s;
       ((err, errno), m) \<leftarrow> sk_connect env (socket_fd i) addrInfo m;
       if err \<noteq> 0 \<and> errno \<noteq> EINPROGRESS then close_socket env s m
       else do {
         (connected, m) \<leftarrow> (if err \<noteq> 0 then wait_connected env s m else Some (True, m));
         if connected then socket_opened s on_bytes on_error m else Some (FAILURE, m) } } }"

definition socketio_open ::
  "('z qmem_scheme, 'e) socket_env_scheme \<Rightarrow> ptr \<Rightarrow> fptr \<times> ptr \<Rightarrow> fptr \<times> ptr \<Rightarrow> fptr \<times> ptr \<Rightarrow> 'z qmem_scheme \<Rightarrow>
   (int \<times> 'z qmem_scheme) option" where
  "socketio_open env socket_io on_io_open_complete on_bytes on_error m = do {
     (result, m) \<leftarrow>
       (case socket_io of
          None \<Rightarrow> Some (FAILURE, m)
        | Some s \<Rightarrow> do {
            i \<leftarrow> sockets m s;
            if io_state i \<noteq> IO_STATE_CLOSED then Some (FAILURE, m)
            else if socket_fd i \<noteq> INVALID_SOCKET then socket_opened s on_bytes on_error m
            else do {
              (fd, m) \<leftarrow> sk_socket env m;
              m \<leftarrow> upd_socket s (\<lambda>i. i\<lparr>socket_fd := fd\<rparr>) m;
              if fd < SOCKET_SUCCESS then Some (FAILURE, m)
              else do {
                i \<leftarrow> sockets m s;
                host \<leftarrow> (case name_ptr (hostname i) of None \<Rightarrow> Some None | Some p \<Rightarrow> map_option Some (c_string p m));
                ((err, addrInfo), m) \<leftarrow> sk_getaddrinfo env host (fmt_nat (unat (of_int (port i) :: u32))) m;
                if err \<noteq> 0 then close_socket env s m
                else do {
                  (result, m) \<leftarrow> connect_socket env s addrInfo on_bytes on_error m;
                  m \<leftarrow> sk_freeaddrinfo env addrInfo m;
                  Some (result, m) } } } });
     m \<leftarrow> (case fst on_io_open_complete of
             None \<Rightarrow> Some m
           | Some f \<Rightarrow> call_open_complete env f (snd on_io_open_complete) (if result = 0 then IO_OPEN_OK else IO_OPEN_ERROR) m);
     Some (result, m) }"

definition socketio_close ::
  "('z qmem_scheme, 'e) socket_env_scheme \<Rightarrow> ptr \<Rightarrow> fptr \<times> ptr \<Rightarrow> 'z qmem_scheme \<Rightarrow> (int \<times> 'z qmem_scheme) option" where
  "socketio_close env socket_io on_io_close_complete m =
     (case socket_io of
        None \<Rightarrow> Some (FAILURE, m)
      | Some s \<Rightarrow> do {
          i \<leftarrow> sockets m s;
          m \<leftarrow> (if io_state i \<noteq> IO_STATE_CLOSED \<and> io_state i \<noteq> IO_STATE_CLOSING then do {
                  m \<leftarrow> sk_shutdown env (socket_fd i) m;
                  i \<leftarrow> sockets m s;
                  m \<leftarrow> sk_close env (socket_fd i) m;
                  upd_socket s (\<lambda>i. i\<lparr>socket_fd := INVALID_SOCKET, io_state := IO_STATE_CLOSED\<rparr>) m }
                else Some m);
          m \<leftarrow> (case fst on_io_close_complete of
                  None \<Rightarrow> Some m
                | Some f \<Rightarrow> call_close_complete env f (snd on_io_close_complete) m);
          Some (0, m) })"

section \<open>Sending\<close>

text \<open>The result of \<open>send\<close> is compared with a size, as an unsigned number; a pointer moved by it.\<close>

definition move_ptr :: "bptr \<Rightarrow> int \<Rightarrow> bptr option" where
  "move_ptr q n = (if n < 0 then None else Some (fst q, snd q + nat n))"

definition complete_send :: "('z qmem_scheme, 'e) socket_env_scheme \<Rightarrow> fptr \<times> ptr \<Rightarrow> 'z qmem_scheme \<Rightarrow> 'z qmem_scheme option" where
  "complete_send env on_complete m =
     (case fst on_complete of None \<Rightarrow> Some m | Some f \<Rightarrow> call_send_complete env f (snd on_complete) IO_SEND_OK m)"

definition socketio_send ::
  "('z qmem_scheme, 'e) socket_env_scheme \<Rightarrow> ptr \<Rightarrow> bptr option \<Rightarrow> u32 \<Rightarrow> fptr \<times> ptr \<Rightarrow> 'z qmem_scheme \<Rightarrow>
   (int \<times> 'z qmem_scheme) option" where
  "socketio_send env socket_io buf siz on_complete m =
     (if socket_io = None \<or> buf = None \<or> siz = 0 then Some (FAILURE, m)
      else do {
        s \<leftarrow> socket_io;
        q \<leftarrow> buf;
        i \<leftarrow> sockets m s;
        if io_state i \<noteq> IO_STATE_OPEN then Some (FAILURE, m)
        else do {
          first_pending_io \<leftarrow> singlylinkedlist_get_head_item (pending_io_list i) m;
          if first_pending_io \<noteq> None then do {
            (r, m) \<leftarrow> add_pending_io s q siz on_complete m;
            Some (if r \<noteq> 0 then FAILURE else 0, m) }
          else do {
            xs \<leftarrow> read_bytes q (unat siz) m;
            ((send_result, errno), m) \<leftarrow> sk_send env (socket_fd i) xs m;
            if of_int send_result \<noteq> siz then
              if send_result = INVALID_SOCKET then
                Some (if errno = EAGAIN then 0 else FAILURE, m)
              else do {
                q \<leftarrow> move_ptr q send_result;
                (r, m) \<leftarrow> add_pending_io s q (siz - of_int send_result) on_complete m;
                Some (if r \<noteq> 0 then FAILURE else 0, m) }
            else do {
              m \<leftarrow> complete_send env on_complete m;
              Some (0, m) } } } })"

section \<open>Work\<close>

partial_function (option) send_pending_loop ::
  "('z qmem_scheme, 'e) socket_env_scheme \<Rightarrow> addr \<Rightarrow> ptr \<Rightarrow> 'z qmem_scheme \<Rightarrow> 'z qmem_scheme option" where
  "send_pending_loop env s first_pending_io m =
     (if first_pending_io = None then Some m
      else do {
        pending_socket_io \<leftarrow> singlylinkedlist_item_get_value first_pending_io m;
        case pending_socket_io of
          None \<Rightarrow> do {
            m \<leftarrow> upd_socket s (\<lambda>i. i\<lparr>io_state := IO_STATE_ERROR\<rparr>) m;
            indicate_error env s m }
        | Some p \<Rightarrow> do {
            i \<leftarrow> sockets m s;
            x \<leftarrow> pendings m p;
            a \<leftarrow> pending_bytes x;
            xs \<leftarrow> read_bytes (a, 0) (unat (pending_size x)) m;
            ((send_result, errno), m) \<leftarrow> sk_send env (socket_fd i) xs m;
            x \<leftarrow> pendings m p;
            if of_int send_result \<noteq> pending_size x then
              if send_result = INVALID_SOCKET then
                if errno = EAGAIN then Some m
                else do {
                  m \<leftarrow> free (pending_bytes x) m;
                  m \<leftarrow> free_pending p m;
                  i \<leftarrow> sockets m s;
                  (_, m) \<leftarrow> singlylinkedlist_remove (pending_io_list i) first_pending_io m;
                  m \<leftarrow> upd_socket s (\<lambda>i. i\<lparr>io_state := IO_STATE_ERROR\<rparr>) m;
                  m \<leftarrow> indicate_error env s m;
                  i \<leftarrow> sockets m s;
                  first_pending_io \<leftarrow> singlylinkedlist_get_head_item (pending_io_list i) m;
                  send_pending_loop env s first_pending_io m }
              else do {
                a \<leftarrow> pending_bytes x;
                q \<leftarrow> move_ptr (a, 0) send_result;
                xs \<leftarrow> read_bytes q (unat (pending_size x - of_int send_result)) m;
                m \<leftarrow> write_bytes (a, 0) xs m;
                upd_pending p (\<lambda>x. x\<lparr>pending_size := pending_size x - of_int send_result\<rparr>) m }
            else do {
              m \<leftarrow> complete_send env (on_send_complete x, callback_context x) m;
              x \<leftarrow> pendings m p;
              m \<leftarrow> free (pending_bytes x) m;
              m \<leftarrow> free_pending p m;
              i \<leftarrow> sockets m s;
              (r, m) \<leftarrow> singlylinkedlist_remove (pending_io_list i) first_pending_io m;
              m \<leftarrow> (if r \<noteq> 0 then do {
                      m \<leftarrow> upd_socket s (\<lambda>i. i\<lparr>io_state := IO_STATE_ERROR\<rparr>) m;
                      indicate_error env s m }
                    else Some m);
              i \<leftarrow> sockets m s;
              first_pending_io \<leftarrow> singlylinkedlist_get_head_item (pending_io_list i) m;
              send_pending_loop env s first_pending_io m } } })"

partial_function (option) recv_loop ::
  "('z qmem_scheme, 'e) socket_env_scheme \<Rightarrow> addr \<Rightarrow> 'z qmem_scheme \<Rightarrow> 'z qmem_scheme option" where
  "recv_loop env s m = do {
     i \<leftarrow> sockets m s;
     ((received, errno, bs), m) \<leftarrow> sk_recv env (socket_fd i) RECEIVE_BYTES_VALUE m;
     m \<leftarrow> write_bytes (s, 0) (map Some bs) m;
     i \<leftarrow> sockets m s;
     m \<leftarrow> (if received > 0 then
             (case on_bytes_received i of
                None \<Rightarrow> Some m
              | Some f \<Rightarrow> call_bytes_received env f (on_bytes_received_context i) (Some (s, 0)) (of_int received) m)
           else if received < 0 \<and> errno \<noteq> EAGAIN then indicate_error env s m
           else Some m);
     if received > 0 then do {
       i \<leftarrow> sockets m s;
       if io_state i = IO_STATE_OPEN then recv_loop env s m else Some m }
     else Some m }"

definition socketio_dowork ::
  "('z qmem_scheme, 'e) socket_env_scheme \<Rightarrow> ptr \<Rightarrow> 'z qmem_scheme \<Rightarrow> 'z qmem_scheme option" where
  "socketio_dowork env socket_io m =
     (case socket_io of
        None \<Rightarrow> Some m
      | Some s \<Rightarrow> do {
          i \<leftarrow> sockets m s;
          first_pending_io \<leftarrow> singlylinkedlist_get_head_item (pending_io_list i) m;
          m \<leftarrow> send_pending_loop env s first_pending_io m;
          i \<leftarrow> sockets m s;
          if io_state i = IO_STATE_OPEN then recv_loop env s m else Some m })"

section \<open>The interface\<close>

definition socketio_retrieveoptions_fn :: nat where "socketio_retrieveoptions_fn = 24"
definition socketio_create_fn :: nat where "socketio_create_fn = 25"
definition socketio_destroy_fn :: nat where "socketio_destroy_fn = 26"
definition socketio_open_fn :: nat where "socketio_open_fn = 27"
definition socketio_close_fn :: nat where "socketio_close_fn = 28"
definition socketio_send_fn :: nat where "socketio_send_fn = 29"
definition socketio_dowork_fn :: nat where "socketio_dowork_fn = 30"

definition socket_io_interface_description :: IO_INTERFACE_DESCRIPTION where
  "socket_io_interface_description =
     \<lparr>concrete_io_retrieveoptions = Some socketio_retrieveoptions_fn, concrete_io_create = Some socketio_create_fn,
      concrete_io_destroy = Some socketio_destroy_fn, concrete_io_open = Some socketio_open_fn,
      concrete_io_close = Some socketio_close_fn, concrete_io_send = Some socketio_send_fn,
      concrete_io_dowork = Some socketio_dowork_fn, concrete_io_setoption = Some socketio_setoption_fn\<rparr>"

definition socketio_get_interface_description :: "IO_INTERFACE_DESCRIPTION option" where
  "socketio_get_interface_description = Some socket_io_interface_description"

end
