(* ===== verification/Socketio_Spec.thy ===== *)
theory Socketio_Spec
  imports Socketio_Io Vector_Rules
begin

text \<open>
  What the socket transport promises: an instance is a queue of data, with a callback for each, in front of
  the network.  The network and the callbacks are a world outside (\<open>net_ops\<close>), which does not call the
  library back and does not write its memory.
\<close>

section \<open>The network\<close>

record 'w net_ops =
  n_send :: "int \<Rightarrow> mbyte list \<Rightarrow> 'w \<Rightarrow> (int \<times> int) \<times> 'w"
  n_recv :: "int \<Rightarrow> 'w \<Rightarrow> (int \<times> int \<times> u8 list) \<times> 'w"
  n_socket :: "'w \<Rightarrow> int \<times> 'w"
  n_close :: "int \<Rightarrow> 'w \<Rightarrow> 'w"
  n_lookup :: "cstring option \<Rightarrow> cstring \<Rightarrow> 'w \<Rightarrow> (int \<times> ptr) \<times> 'w"
  n_release :: "ptr \<Rightarrow> 'w \<Rightarrow> 'w"
  n_fcntl :: "int \<Rightarrow> int \<Rightarrow> int \<Rightarrow> 'w \<Rightarrow> int \<times> 'w"
  n_connect :: "int \<Rightarrow> ptr \<Rightarrow> 'w \<Rightarrow> (int \<times> int) \<times> 'w"
  n_select :: "int \<Rightarrow> int \<Rightarrow> 'w \<Rightarrow> (int \<times> int) \<times> 'w"
  n_getsockopt :: "int \<Rightarrow> int \<Rightarrow> int \<Rightarrow> 'w \<Rightarrow> (int \<times> int) \<times> 'w"
  n_setsockopt :: "int \<Rightarrow> int \<Rightarrow> int \<Rightarrow> ptr \<Rightarrow> 'w \<Rightarrow> (int \<times> int) \<times> 'w"
  n_opened :: "nat \<Rightarrow> ptr \<Rightarrow> IO_OPEN_RESULT \<Rightarrow> 'w \<Rightarrow> 'w"
  n_closed :: "nat \<Rightarrow> ptr \<Rightarrow> 'w \<Rightarrow> 'w"
  n_sent :: "nat \<Rightarrow> ptr \<Rightarrow> 'w \<Rightarrow> 'w"
  n_received :: "nat \<Rightarrow> ptr \<Rightarrow> u8 list \<Rightarrow> 'w \<Rightarrow> 'w"
  n_error :: "nat \<Rightarrow> ptr \<Rightarrow> 'w \<Rightarrow> 'w"

record 'w qwmem = qmem +
  qworld :: 'w

text \<open>The functions that a network describes; the option functions of other modules are those of \<open>E\<close>.\<close>

definition socket_env_of :: "'w net_ops \<Rightarrow> 'w qwmem socket_env \<Rightarrow> 'w qwmem socket_env" where
  "socket_env_of N E = E
     \<lparr>sk_socket := (\<lambda>m. let (r, w) = n_socket N (qworld m) in Some (r, m\<lparr>qworld := w\<rparr>)),
      sk_getaddrinfo := (\<lambda>h p m. let (r, w) = n_lookup N h p (qworld m) in Some (r, m\<lparr>qworld := w\<rparr>)),
      sk_freeaddrinfo := (\<lambda>a m. Some (m\<lparr>qworld := n_release N a (qworld m)\<rparr>)),
      sk_fcntl := (\<lambda>fd c x m. let (r, w) = n_fcntl N fd c x (qworld m) in Some (r, m\<lparr>qworld := w\<rparr>)),
      sk_connect := (\<lambda>fd a m. let (r, w) = n_connect N fd a (qworld m) in Some (r, m\<lparr>qworld := w\<rparr>)),
      sk_select := (\<lambda>fd t m. let (r, w) = n_select N fd t (qworld m) in Some (r, m\<lparr>qworld := w\<rparr>)),
      sk_getsockopt := (\<lambda>fd l x m. let (r, w) = n_getsockopt N fd l x (qworld m) in Some (r, m\<lparr>qworld := w\<rparr>)),
      sk_setsockopt := (\<lambda>fd l x v m. let (r, w) = n_setsockopt N fd l x v (qworld m) in Some (r, m\<lparr>qworld := w\<rparr>)),
      call_open_complete := (\<lambda>f c r m. Some (m\<lparr>qworld := n_opened N f c r (qworld m)\<rparr>)),
      call_close_complete := (\<lambda>f c m. Some (m\<lparr>qworld := n_closed N f c (qworld m)\<rparr>)),
      sk_close := (\<lambda>fd m. Some (m\<lparr>qworld := n_close N fd (qworld m)\<rparr>)),
      sk_shutdown := (\<lambda>fd m. Some m),
      sk_send := (\<lambda>fd xs m. let (r, w) = n_send N fd xs (qworld m) in Some (r, m\<lparr>qworld := w\<rparr>)),
      sk_recv := (\<lambda>fd n m. let (r, w) = n_recv N fd (qworld m) in Some (r, m\<lparr>qworld := w\<rparr>)),
      call_send_complete := (\<lambda>f c r m. Some (m\<lparr>qworld := n_sent N f c (qworld m)\<rparr>)),
      call_bytes_received := (\<lambda>f c q n m. do {
        q \<leftarrow> q;
        xs \<leftarrow> read_bytes q (unat n) m;
        bs \<leftarrow> those xs;
        Some (m\<lparr>qworld := n_received N f c bs (qworld m)\<rparr>) }),
      call_io_error := (\<lambda>f c m. Some (m\<lparr>qworld := n_error N f c (qworld m)\<rparr>))\<rparr>"

text \<open>What \<open>send\<close> and \<open>recv\<close> return: a number of bytes, or \<open>- 1\<close>.\<close>

definition net_contract :: "'w net_ops \<Rightarrow> bool" where
  "net_contract N \<longleftrightarrow>
     (\<forall>fd xs w. - 1 \<le> fst (fst (n_send N fd xs w)) \<and> fst (fst (n_send N fd xs w)) \<le> int (length xs)) \<and>
     (\<forall>fd w. length (snd (snd (fst (n_recv N fd w)))) \<le> 64 \<and>
        (0 < fst (fst (n_recv N fd w)) \<longrightarrow> fst (fst (n_recv N fd w)) = int (length (snd (snd (fst (n_recv N fd w)))))))"

section \<open>The queue\<close>

type_synonym queue = "(mbyte list \<times> fptr \<times> ptr) list"

definition spec_complete :: "'w net_ops \<Rightarrow> fptr \<times> ptr \<Rightarrow> 'w \<Rightarrow> 'w" where
  "spec_complete N cb w = (case fst cb of None \<Rightarrow> w | Some f \<Rightarrow> n_sent N f (snd cb) w)"

definition spec_io_error :: "'w net_ops \<Rightarrow> SOCKET_IO_INSTANCE \<Rightarrow> 'w \<Rightarrow> 'w" where
  "spec_io_error N i w = (case on_io_error i of None \<Rightarrow> w | Some f \<Rightarrow> n_error N f (on_io_error_context i) w)"

definition spec_socket_send ::
  "'w net_ops \<Rightarrow> SOCKET_IO_INSTANCE \<Rightarrow> queue \<Rightarrow> mbyte list \<Rightarrow> fptr \<times> ptr \<Rightarrow> 'w \<Rightarrow> int \<times> queue \<times> 'w" where
  "spec_socket_send N i q xs cb w =
     (if io_state i \<noteq> IO_STATE_OPEN then (FAILURE, q, w)
      else if q \<noteq> [] then (0, q @ [(xs, cb)], w)
      else let ((r, e), w) = n_send N (socket_fd i) xs w in
        if r = int (length xs) then (0, [], spec_complete N cb w)
        else if r = - 1 then (if e = EAGAIN then 0 else FAILURE, [], w)
        else (0, [(drop (nat r) xs, cb)], w))"

fun spec_flush :: "'w net_ops \<Rightarrow> SOCKET_IO_INSTANCE \<Rightarrow> queue \<Rightarrow> 'w \<Rightarrow> SOCKET_IO_INSTANCE \<times> queue \<times> 'w" where
  "spec_flush N i [] w = (i, [], w)"
| "spec_flush N i ((xs, cb) # q) w =
     (let ((r, e), w) = n_send N (socket_fd i) xs w in
        if r = int (length xs) then spec_flush N i q (spec_complete N cb w)
        else if r = - 1 then
          if e = EAGAIN then (i, (xs, cb) # q, w)
          else spec_flush N (i\<lparr>io_state := IO_STATE_ERROR\<rparr>) q (spec_io_error N i w)
        else (i, (drop (nat r) xs, cb) # q, w))"

partial_function (option) spec_receive :: "'w net_ops \<Rightarrow> SOCKET_IO_INSTANCE \<Rightarrow> 'w \<Rightarrow> 'w option" where
  "spec_receive N i w =
     (let ((r, e, bs), w) = n_recv N (socket_fd i) w in
        if r > 0 then spec_receive N i
          (case on_bytes_received i of None \<Rightarrow> w | Some f \<Rightarrow> n_received N f (on_bytes_received_context i) bs w)
        else if r < 0 \<and> e \<noteq> EAGAIN then Some (spec_io_error N i w)
        else Some w)"

definition spec_socket_work :: "'w net_ops \<Rightarrow> SOCKET_IO_INSTANCE \<Rightarrow> queue \<Rightarrow> 'w \<Rightarrow> (SOCKET_IO_INSTANCE \<times> queue \<times> 'w) option" where
  "spec_socket_work N i q w =
     (let (i, q, w) = spec_flush N i q w in
        if io_state i = IO_STATE_OPEN then do { w \<leftarrow> spec_receive N i w; Some (i, q, w) } else Some (i, q, w))"

section \<open>Its data in the heap\<close>

record entry =
  e_item :: addr
  e_pending :: addr
  e_array :: addr
  e_data :: "mbyte list"
  e_call :: "fptr \<times> ptr"

definition entry_at :: "'z qmem_scheme \<Rightarrow> addr \<Rightarrow> entry \<Rightarrow> bool" where
  "entry_at m l e \<longleftrightarrow>
     pendings m (e_pending e) = Some \<lparr>pending_bytes = Some (e_array e), pending_size = of_nat (length (e_data e)),
       on_send_complete = fst (e_call e), callback_context = snd (e_call e), pending_list = Some l\<rparr> \<and>
     (\<exists>r. blocks m (e_array e) = Some (e_data e @ r)) \<and> e_data e \<noteq> [] \<and> length (e_data e) < 2 ^ 32 - 1"

definition link :: "entry \<Rightarrow> addr \<times> ptr" where
  "link e = (e_item e, Some (e_pending e))"

definition entries_at :: "'z qmem_scheme \<Rightarrow> addr \<Rightarrow> entry list \<Rightarrow> bool" where
  "entries_at m l es \<longleftrightarrow>
     (\<forall>e \<in> set es. entry_at m l e) \<and> distinct (map e_pending es) \<and> distinct (map e_array es) \<and>
     (\<exists>C. list_inv m C \<and> C l = Some (map link es))"

definition socket_at :: "'z qmem_scheme \<Rightarrow> addr \<Rightarrow> SOCKET_IO_INSTANCE \<Rightarrow> entry list \<Rightarrow> bool" where
  "socket_at m s i es \<longleftrightarrow>
     sockets m s = Some i \<and> (\<exists>l. pending_io_list i = Some l \<and> entries_at m l es) \<and>
     (\<exists>rb. blocks m s = Some rb \<and> length rb = 64) \<and> s \<notin> e_array ` set es \<and>
     wf_mem m \<and> (\<forall>a \<ge> brk m. pendings m a = None)"

definition data_of :: "entry list \<Rightarrow> queue" where
  "data_of es = map (\<lambda>e. (e_data e, e_call e)) es"

lemma data_of_simps [simp]:
  "data_of [] = []" "data_of (e # es) = (e_data e, e_call e) # data_of es" "data_of (es @ fs) = data_of es @ data_of fs"
  "data_of es = [] \<longleftrightarrow> es = []"
  by (simp_all add: data_of_def)

end
