(* ===== verification/Socketio_Rules.thy ===== *)
theory Socketio_Rules
  imports Socketio_Spec
begin

text \<open>
  The operations of the socket transport implement their specification, on every heap in which
  the instance holds its queue.
\<close>

section \<open>Frames\<close>

lemma list_frame_above:
  fixes m m' :: "'z qmem_scheme"
  assumes "list_frame m m'"
  shows "sockets m' = sockets m" "pendings m' = pendings m" "blocks m' = blocks m" "grants m' = grants m" "chars m' = chars m"
    "brk m \<le> brk m'" "qmem.more m' = qmem.more m"
  using assms by (cases m, cases m', simp add: list_frame_def)+

lemma entry_at_cong:
  assumes "pendings m' (e_pending e) = pendings m (e_pending e)" "blocks m' (e_array e) = blocks m (e_array e)"
  shows "entry_at m' l e = entry_at m l e"
  using assms by (simp add: entry_at_def)

lemma list_inv_stores:
  fixes m m' :: "'z lmem_scheme"
  assumes "list_inv m C" "list_items m' = list_items m" "lists m' = lists m" "brk m \<le> brk m'"
  shows "list_inv m' C"
  using assms by (simp add: list_inv_def list_at_def)

lemma socket_atE:
  assumes "socket_at m s i es"
  obtains l C where "sockets m s = Some i" "pending_io_list i = Some l" "list_inv m C" "C l = Some (map link es)"
    "\<And>e. e \<in> set es \<Longrightarrow> entry_at m l e" "wf_mem m" "\<And>a. brk m \<le> a \<Longrightarrow> pendings m a = None"
  using assms by (auto simp: socket_at_def entries_at_def)

lemma entry_old:
  assumes "entry_at m l e" "wf_mem m" "\<And>a. brk m \<le> a \<Longrightarrow> pendings m a = None"
  shows "e_pending e < brk m" "e_array e < brk m"
proof -
  show "e_pending e < brk m" using assms(1,3) [unfolded entry_at_def] by (metis not_le option.distinct(1))
  show "e_array e < brk m" using assms(1,2) [unfolded entry_at_def] by (metis wf_mem_fresh not_le option.distinct(1))
qed

text \<open>A change that leaves the data of the instance, and the lists, as they are.\<close>

lemma socket_at_frame:
  fixes m m' :: "'z qmem_scheme"
  assumes S: "socket_at m s i es" and s: "sockets m' s = sockets m s" and b: "\<And>a. a < brk m \<Longrightarrow> blocks m' a = blocks m a"
    and p: "\<And>a. a < brk m \<Longrightarrow> pendings m' a = pendings m a"
    and C: "\<And>l. pending_io_list i = Some l \<Longrightarrow> \<exists>C. list_inv m' C \<and> C l = Some (map link es)" and wf: "wf_mem m'" "\<And>a. brk m' \<le> a \<Longrightarrow> pendings m' a = None"
  shows "socket_at m' s i es"
proof -
  obtain l where l: "pending_io_list i = Some l" and E: "entries_at m l es" and rb: "\<exists>rb. blocks m s = Some rb \<and> length rb = 64"
    and i: "sockets m s = Some i" and no: "s \<notin> e_array ` set es" and wf0: "wf_mem m" "\<And>a. brk m \<le> a \<Longrightarrow> pendings m a = None"
    using S by (auto simp: socket_at_def)
  have "entry_at m' l e" if "e \<in> set es" for e
  proof -
    have at: "entry_at m l e" using E that by (simp add: entries_at_def)
    note old = entry_old [OF at wf0]
    show ?thesis using at b [OF old(2)] p [OF old(1)] entry_at_cong [of m' e m l] by simp
  qed
  then have "entries_at m' l es" using E C [OF l] by (auto simp: entries_at_def)
  moreover have "s < brk m" using rb wf0(1) by (metis wf_mem_fresh not_le option.distinct(1))
  ultimately show ?thesis using i s l rb no wf b [of s] by (auto simp: socket_at_def)
qed

lemma distinct_first: "distinct (map f (e # es)) \<Longrightarrow> y \<in> set es \<Longrightarrow> f y \<noteq> f e"
  by (metis distinct.simps(2) image_eqI list.set_map list.simps(9))

lemma socket_at_brk: "socket_at m s i es \<Longrightarrow> brk m \<le> b \<Longrightarrow> socket_at (m\<lparr>brk := b\<rparr>) s i es"
proof -
  assume S: "socket_at m s i es" and b: "brk m \<le> b"
  obtain l C where i: "pending_io_list i = Some l" and C: "list_inv m C" "C l = Some (map link es)"
    and wf: "wf_mem m" "\<And>a. brk m \<le> a \<Longrightarrow> pendings m a = None"
    by (rule socket_atE [OF S]) (rule that; assumption)
  have "list_inv (m\<lparr>brk := b\<rparr>) C" by (rule list_inv_stores [OF C(1)]) (use b in simp_all)
  then show ?thesis
    by (intro socket_at_frame [OF S]) (use wf b C(2) i in \<open>auto simp: wf_mem_def\<close>)
qed

section \<open>Adding pending data\<close>

lemma write_at_start: "length xs = length ys \<Longrightarrow> write_at 0 xs ys = xs"
  by (simp add: write_at_def)

lemma add_granted:
  assumes "singlylinkedlist_add (Some l) (Some v) m = Some (r, m')"
  shows "r = None \<longleftrightarrow> \<not> grants m (brk m) sizeof_LIST_ITEM_INSTANCE"
  using assms by (auto simp: singlylinkedlist_add_def malloc_struct_def bind_eq_Some_conv Let_def split: option.splits if_splits)

definition room :: "'z mem_scheme \<Rightarrow> nat \<Rightarrow> bool" where
  "room m n \<longleftrightarrow> grants m (brk m) sizeof_PENDING_SOCKET_IO \<and> grants m (Suc (brk m)) n \<and>
     grants m (Suc (Suc (brk m))) sizeof_LIST_ITEM_INSTANCE"

definition only_new :: "'z qmem_scheme \<Rightarrow> 'z qmem_scheme \<Rightarrow> bool" where
  "only_new m m' \<longleftrightarrow> qmem.more m' = qmem.more m \<and> grants m' = grants m \<and> chars m' = chars m \<and> brk m \<le> brk m' \<and>
     (\<forall>a < brk m. blocks m' a = blocks m a)"

lemma add_pending_spec:
  fixes m :: "'z qmem_scheme"
  assumes S: "socket_at m s i es" and read: "read_bytes q (length xs) m = Some xs" and len: "xs \<noteq> []" "length xs < 2 ^ 32 - 1"
  shows "ok (add_pending_io s q (of_nat (length xs)) cb m) (\<lambda>(r, m'). only_new m m' \<and>
    (if room m (length xs) then r = 0 \<and> (\<exists>e. e_data e = xs \<and> e_call e = cb \<and> socket_at m' s i (es @ [e]))
     else r = FAILURE \<and> socket_at m' s i es))"
proof -
  obtain l C where i: "sockets m s = Some i" "pending_io_list i = Some l" and C: "list_inv m C" "C l = Some (map link es)"
    and at: "\<And>e. e \<in> set es \<Longrightarrow> entry_at m l e" and wf: "wf_mem m" and fresh: "\<And>a. brk m \<le> a \<Longrightarrow> pendings m a = None"
    by (rule socket_atE [OF S]) (rule that; assumption)
  let ?p = "brk m" and ?b = "Suc (brk m)" and ?n = "length xs"
  have u: "unat (of_nat ?n :: u32) = ?n" using len(2) by simp
  have none: "blocks m ?b = None" "pendings m ?p = None" using wf fresh by (auto simp: wf_mem_def)
  have q: "fst q < brk m" "fst q \<noteq> ?b"
    using read wf by (metis (no_types, lifting) linorder_not_le option.distinct(1) option.simps(4) read_bytes_def wf_mem_fresh less_SucI less_irrefl)+
  define m4 where "m4 = m\<lparr>brk := Suc ?b, pendings := (pendings m)(?p \<mapsto> \<lparr>pending_bytes = Some ?b, pending_size = of_nat ?n,
    on_send_complete = fst cb, callback_context = snd cb, pending_list = Some l\<rparr>), blocks := (blocks m)(?b \<mapsto> xs)\<rparr>"
  consider "\<not> grants m ?p sizeof_PENDING_SOCKET_IO" | "grants m ?p sizeof_PENDING_SOCKET_IO" "\<not> grants m ?b ?n"
    | "grants m ?p sizeof_PENDING_SOCKET_IO" "grants m ?b ?n" by blast
  then show ?thesis
  proof cases
    case 1
    then have "add_pending_io s q (of_nat ?n) cb m = Some (FAILURE, m\<lparr>brk := ?b\<rparr>)"
      by (simp add: add_pending_io_def malloc_struct_def)
    then show ?thesis using 1 socket_at_brk [OF S, of ?b] by (simp add: only_new_def room_def)
  next
    case 2
    have "(pendings m)(?p := None) = pendings m" using none by (simp add: fun_upd_idem)
    then have "add_pending_io s q (of_nat ?n) cb m = Some (FAILURE, m\<lparr>brk := Suc ?b\<rparr>)"
      using 2 u by (simp add: add_pending_io_def malloc_struct_def malloc_def free_pending_def)
    then show ?thesis using 2 socket_at_brk [OF S, of "Suc ?b"] by (simp add: only_new_def room_def)
  next
    case 3
    have "blocks m (fst q) \<noteq> None \<and> read_bytes q ?n (m\<lparr>brk := z, blocks := (blocks m)(?b \<mapsto> y), pendings := x\<rparr>) = Some xs" for x y z
      using read q(2) by (auto simp: read_bytes_def split: option.splits)
    then have run: "add_pending_io s q (of_nat ?n) cb m = do {
        (it, m) \<leftarrow> singlylinkedlist_add (Some l) (Some ?p) m4;
        if it = None then do {
          x \<leftarrow> pendings m ?p; m \<leftarrow> free (pending_bytes x) m; m \<leftarrow> free_pending ?p m; Some (FAILURE, m) }
        else Some (0, m) }"
      using 3 u i by (simp add: add_pending_io_def malloc_struct_def malloc_def upd_pending_def write_bytes_def write_at_start m4_def)
    have C4: "list_inv m4 C" by (rule list_inv_stores [OF C(1)]) (simp_all add: m4_def)
    have g4: "grants m4 (brk m4) sizeof_LIST_ITEM_INSTANCE \<longleftrightarrow> room m ?n" using 3 by (simp add: room_def m4_def)
    obtain r m5 where add: "singlylinkedlist_add (Some l) (Some ?p) m4 = Some (r, m5)" and F: "list_frame m4 m5"
      and R: "case r of None \<Rightarrow> list_inv m5 C
        | Some a \<Rightarrow> (\<forall>k ys. C k = Some ys \<longrightarrow> a \<notin> handles ys) \<and> list_inv m5 (C(l \<mapsto> map link es @ [(a, Some ?p)]))"
      using add_spec [OF C4 C(2), of ?p] by (auto simp: ok_iff)
    note F' = list_frame_above [OF F]
    have new: "only_new m m5" using F' by (simp add: only_new_def m4_def)
    have m5: "wf_mem m5" "\<And>a. brk m5 \<le> a \<Longrightarrow> pendings m5 a = None"
      using wf fresh F' by (auto simp: wf_mem_def m4_def)
    show ?thesis
    proof (cases r)
      case None
      let ?m6 = "m5\<lparr>blocks := (blocks m5)(?b := None), pendings := (pendings m5)(?p := None)\<rparr>"
      have "add_pending_io s q (of_nat ?n) cb m = Some (FAILURE, ?m6)"
        using run add None F' by (simp add: m4_def free_pending_def)
      moreover have "list_inv ?m6 C" by (rule list_inv_stores [of m5]) (use R None in simp_all)
      then have "socket_at ?m6 s i es"
        by (intro socket_at_frame [OF S]) (use F' m5 C(2) i in \<open>auto simp: m4_def wf_mem_def\<close>)
      moreover have "only_new m ?m6" using new by (simp add: only_new_def)
      moreover have "\<not> room m ?n" using g4 add_granted [OF add] None by simp
      ultimately show ?thesis by simp
    next
      case (Some a)
      let ?e = "\<lparr>e_item = a, e_pending = ?p, e_array = ?b, e_data = xs, e_call = cb\<rparr>"
      have "add_pending_io s q (of_nat ?n) cb m = Some (0, m5)" using run add Some by simp
      moreover have at5: "socket_at m5 s i (es @ [?e])"
      proof -
        have e: "entry_at m5 l ?e" using F' len by (simp add: entry_at_def m4_def)
        have old: "e_pending x < ?p" "e_array x < ?p" if "x \<in> set es" for x
          using entry_old [OF at [OF that] wf fresh] by blast+
        have "entry_at m5 l x" if "x \<in> set es" for x
          using at [OF that] old [OF that] entry_at_cong [of m5 x m l] F' by (simp add: m4_def)
        moreover have "\<exists>C. list_inv m5 C \<and> C l = Some (map link (es @ [?e]))"
          using R Some by (intro exI [of _ "C(l \<mapsto> map link es @ [(a, Some ?p)])"]) (simp add: link_def)
        moreover have "?p \<notin> e_pending ` set es" "?b \<notin> e_array ` set es" using old by fastforce+
        ultimately have E: "entries_at m5 l (es @ [?e])" using S i e by (auto simp: entries_at_def socket_at_def)
        obtain rb where rb: "blocks m s = Some rb" "length rb = 64" and no: "s \<notin> e_array ` set es"
          using S by (auto simp: socket_at_def)
        then have "s < brk m" using wf by (metis wf_mem_fresh not_le option.distinct(1))
        then show ?thesis using E rb no i m5 F' by (simp add: socket_at_def m4_def)
      qed
      moreover have "room m ?n" using g4 add_granted [OF add] Some by simp
      moreover have "\<exists>e. e_data e = xs \<and> e_call e = cb \<and> socket_at m5 s i (es @ [e])"
        by (rule exI [of _ ?e]) (simp add: at5)
      ultimately show ?thesis using new by simp
    qed
  qed
qed

section \<open>Sending\<close>

lemma socket_at_world [simp]:
  fixes m :: "'w qwmem"
  shows "socket_at (m\<lparr>qworld := w\<rparr>) s i es = socket_at m s i es"
  by (simp add: socket_at_def entries_at_def entry_at_def list_inv_def list_at_def wf_mem_def)

lemma socket_head:
  assumes "socket_at m s i es"
  shows "sockets m s = Some i" "singlylinkedlist_get_head_item (pending_io_list i) m = Some (first_or (map link es) None)"
proof -
  obtain l C where i: "sockets m s = Some i" "pending_io_list i = Some l" and C: "list_inv m C" "C l = Some (map link es)"
    by (rule socket_atE [OF assms]) (rule that; assumption)
  show "sockets m s = Some i" by (rule i(1))
  show "singlylinkedlist_get_head_item (pending_io_list i) m = Some (first_or (map link es) None)"
    using accessors_spec(1) [OF C] i(2) by simp
qed

lemma read_bytes_drop:
  "read_bytes q n m = Some xs \<Longrightarrow> k \<le> n \<Longrightarrow> read_bytes (fst q, snd q + k) (n - k) m = Some (drop k xs)"
  by (auto simp: read_bytes_def drop_take add.commute split: option.splits if_splits)

lemma send_result:
  fixes r :: int
  assumes "- 1 \<le> r" "r \<le> int n" "n < 2 ^ 32 - 1"
  shows "(of_int r :: u32) = of_nat n \<longleftrightarrow> r = int n"
    and "0 \<le> r \<Longrightarrow> (of_nat n :: u32) - of_int r = of_nat (n - nat r)"
proof -
  show "(of_int r :: u32) = of_nat n \<longleftrightarrow> r = int n"
  proof
    assume e: "(of_int r :: u32) = of_nat n"
    then have "uint (of_int r :: u32) = uint (of_nat n :: u32)" by simp
    then have "r mod 2 ^ 32 = int n mod 2 ^ 32" by (simp add: uint_word_of_int unsigned_of_nat take_bit_eq_mod zmod_int)
    moreover have "int n mod 2 ^ 32 = int n" using assms(3) by (intro mod_pos_pos_trivial) auto
    moreover have "r mod 2 ^ 32 = (if r = - 1 then 2 ^ 32 - 1 else r)" using assms by (auto intro: mod_pos_pos_trivial)
    ultimately show "r = int n" using assms(3) by (auto split: if_splits)
  qed simp
  assume "0 \<le> r"
  then show "(of_nat n :: u32) - of_int r = of_nat (n - nat r)" using assms(2) by (simp add: of_nat_diff)
qed

text \<open>What was in the memory before is not written.\<close>

definition kept :: "'z mem_scheme \<Rightarrow> 'z mem_scheme \<Rightarrow> bool" where
  "kept m m' \<longleftrightarrow> grants m' = grants m \<and> chars m' = chars m \<and> brk m \<le> brk m' \<and> (\<forall>a < brk m. blocks m' a = blocks m a)"

lemma only_new_world:
  fixes m m' :: "'w qwmem"
  assumes "only_new m m'"
  shows "qworld m' = qworld m" "kept m m'"
  using assms by (cases m, cases m', simp add: only_new_def) (use assms in \<open>simp add: only_new_def kept_def\<close>)

definition roomy :: "'z mem_scheme \<Rightarrow> bool" where
  "roomy m \<longleftrightarrow> (\<forall>a n. grants m a n)"

lemma room_roomy [simp]: "roomy m \<Longrightarrow> room m n"
  by (simp add: roomy_def room_def)

lemma send_call [simp]:
  fixes m :: "'w qwmem"
  shows "sk_send (socket_env_of N E) fd xs m = Some (fst (n_send N fd xs (qworld m)), m\<lparr>qworld := snd (n_send N fd xs (qworld m))\<rparr>)"
    "complete_send (socket_env_of N E) cb m = Some (m\<lparr>qworld := spec_complete N cb (qworld m)\<rparr>)"
  by (simp_all add: socket_env_of_def complete_send_def spec_complete_def split_def Let_def split: option.splits)

lemma socketio_send_spec:
  fixes m :: "'w qwmem"
  assumes S: "socket_at m s i es" and N: "net_contract N" and room: "roomy m"
    and read: "read_bytes q (length xs) m = Some xs" and len: "xs \<noteq> []" "length xs < 2 ^ 32 - 1"
  shows "ok (socketio_send (socket_env_of N E) (Some s) (Some q) (of_nat (length xs)) cb m) (\<lambda>(r, m'). kept m m' \<and>
    (\<exists>es'. (r, data_of es', qworld m') = spec_socket_send N i (data_of es) xs cb (qworld m) \<and> socket_at m' s i es'))"
proof -
  note H = socket_head [OF S]
  have u: "unat (of_nat (length xs) :: u32) = length xs" "(of_nat (length xs) :: u32) \<noteq> 0"
    using len by (simp_all add: word_of_nat_eq_0_iff nat_dvd_not_less)
  consider "io_state i \<noteq> IO_STATE_OPEN" | "io_state i = IO_STATE_OPEN" "es \<noteq> []" | "io_state i = IO_STATE_OPEN" "es = []" by blast
  then show ?thesis
  proof cases
    case 1
    then show ?thesis using H u S by (auto simp: socketio_send_def spec_socket_send_def kept_def)
  next
    case 2
    have f: "first_or (map link es) None \<noteq> None" using 2(2) by (cases es) simp_all
    obtain m' e where add: "add_pending_io s q (of_nat (length xs)) cb m = Some (0, m')" and new: "only_new m m'"
      and e: "e_data e = xs" "e_call e = cb" "socket_at m' s i (es @ [e])"
      using add_pending_spec [OF S read len, of cb] room by (auto simp: ok_iff)
    have run: "socketio_send (socket_env_of N E) (Some s) (Some q) (of_nat (length xs)) cb m = Some (0, m')"
      using H u 2 f add by (simp add: socketio_send_def)
    have "(0, data_of (es @ [e]), qworld m') = spec_socket_send N i (data_of es) xs cb (qworld m)"
      using 2 e only_new_world(1) [OF new] by (simp add: spec_socket_send_def)
    then have "\<exists>es'. (0, data_of es', qworld m') = spec_socket_send N i (data_of es) xs cb (qworld m) \<and> socket_at m' s i es'"
      using e(3) by (intro exI [of _ "es @ [e]"]) simp
    then show ?thesis using run only_new_world(2) [OF new] by simp
  next
  case 3
    obtain r e w where n: "n_send N (socket_fd i) xs (qworld m) = ((r, e), w)" by (metis surj_pair)
    have r: "- 1 \<le> r" "r \<le> int (length xs)" using N n unfolding net_contract_def by (metis fst_conv)+
    note R = send_result [OF r len(2)]
    let ?m = "m\<lparr>qworld := w\<rparr>"
    let ?run = "socketio_send (socket_env_of N E) (Some s) (Some q) (of_nat (length xs)) cb m"
    have run: "?run = (if r = int (length xs) then Some (0, ?m\<lparr>qworld := spec_complete N cb w\<rparr>)
        else if r = - 1 then Some (if e = EAGAIN then 0 else FAILURE, ?m)
        else do { q \<leftarrow> move_ptr q r; (r, m) \<leftarrow> add_pending_io s q (of_nat (length xs - nat r)) cb ?m; Some (if r \<noteq> 0 then FAILURE else 0, m) })"
      using H u 3 n read R r by (auto simp: socketio_send_def INVALID_SOCKET_def)
    consider "r = int (length xs)" | "r = - 1" | "0 \<le> r" "r < int (length xs)" using r by linarith
    then show ?thesis
    proof cases
      case 1
      then show ?thesis using run 3 n S by (auto simp: spec_socket_send_def kept_def)
    next
      case 2
      then show ?thesis using run 3 n S by (auto simp: spec_socket_send_def kept_def)
    next
      case part: 3
      let ?ys = "drop (nat r) xs"
      have S': "socket_at ?m s i []" using S 3 by simp
      have "read_bytes (fst q, snd q + nat r) (length xs - nat r) m = Some ?ys"
        by (rule read_bytes_drop [OF read]) (use part in simp)
      then have "read_bytes (fst q, snd q + nat r) (length ?ys) ?m = Some ?ys" by (simp add: read_bytes_def)
      moreover have "?ys \<noteq> []" "length ?ys < 2 ^ 32 - 1" using part len by simp_all
      moreover have "room ?m (length ?ys)" using room by (simp add: roomy_def room_def)
      ultimately obtain m' e where add: "add_pending_io s (fst q, snd q + nat r) (of_nat (length ?ys)) cb ?m = Some (0, m')"
        and new: "only_new ?m m'" and e': "e_data e = ?ys" "e_call e = cb" "socket_at m' s i [e]"
        using add_pending_spec [OF S', of "(fst q, snd q + nat r)" ?ys cb]
        by (auto simp: ok_iff simp del: length_drop of_nat_diff)
      have sent: "?run = Some (0, m')" using run part add by (simp add: move_ptr_def)
      have "(0, data_of [e], qworld m') = spec_socket_send N i (data_of es) xs cb (qworld m)"
        using 3 part n e' only_new_world(1) [OF new] by (simp add: spec_socket_send_def)
      then have "\<exists>es'. (0, data_of es', qworld m') = spec_socket_send N i (data_of es) xs cb (qworld m) \<and> socket_at m' s i es'"
        using e'(3) by (intro exI [of _ "[e]"]) simp
      moreover have "kept m m'" using only_new_world(2) [OF new] by (simp add: kept_def)
      ultimately show ?thesis using sent by simp
    qed
  qed
qed

section \<open>Sending what is pending\<close>

text \<open>The first entry is given back and taken out of the list.\<close>

lemma drop_first:
  fixes m :: "'w qwmem"
  assumes S: "socket_at m s i (e # es)"
  shows "\<exists>x m' m1 m2. pendings m (e_pending e) = Some x \<and> pending_bytes x = Some (e_array e) \<and>
    free (Some (e_array e)) m = Some m1 \<and> free_pending (e_pending e) m1 = Some m2 \<and>
    sockets m2 s = Some i \<and> singlylinkedlist_remove (pending_io_list i) (Some (e_item e)) m2 = Some (0, m') \<and>
    socket_at m' s i es \<and> qworld m' = qworld m \<and> grants m' = grants m \<and> blocks m' = (blocks m)(e_array e := None) \<and>
    pendings m' = (pendings m)(e_pending e := None) \<and> chars m' = chars m \<and> sockets m' = sockets m"
proof -
  obtain l C where i: "sockets m s = Some i" "pending_io_list i = Some l" and C: "list_inv m C" "C l = Some (map link (e # es))"
    and at: "\<And>x. x \<in> set (e # es) \<Longrightarrow> entry_at m l x" and wf: "wf_mem m" and fresh: "\<And>a. brk m \<le> a \<Longrightarrow> pendings m a = None"
    by (rule socket_atE [OF S]) (rule that; assumption)
  let ?p = "e_pending e" and ?b = "e_array e"
  let ?m1 = "m\<lparr>blocks := (blocks m)(?b := None)\<rparr>"
  let ?m2 = "?m1\<lparr>pendings := (pendings m)(?p := None)\<rparr>"
  obtain r x where x: "pendings m ?p = Some x" "pending_bytes x = Some ?b" and b: "blocks m ?b = Some (e_data e @ r)"
    using at [of e] by (auto simp: entry_at_def)
  have C2: "list_inv ?m2 C" by (rule list_inv_stores [OF C(1)]) simp_all
  have d: "distinct (map fst (map link (e # es)))" by (rule list_invD(3) [OF C])
  then have f: "filter (\<lambda>x. fst x \<noteq> e_item e) (map link (e # es)) = map link es"
    by (auto simp: link_def filter_id_conv) (metis imageI)
  obtain m' where rem: "singlylinkedlist_remove (Some l) (Some (e_item e)) ?m2 = Some (0, m')" and F: "list_frame ?m2 m'"
    and brk: "brk m' = brk m" and C': "list_inv m' (C(l \<mapsto> map link es))"
    using remove_spec [OF C2 C(2), of "e_item e"] f by (auto simp: ok_iff link_def)
  note F' = list_frame_above [OF F]
  have parts: "distinct (map e_pending (e # es))" "distinct (map e_array (e # es))" "s \<notin> e_array ` set (e # es)"
    using S i by (auto simp: socket_at_def entries_at_def)
  have "entry_at m' l y" if y: "y \<in> set es" for y
  proof -
    have "e_pending y \<noteq> ?p" "e_array y \<noteq> ?b" using distinct_first [OF _ y] parts by blast+
    then show ?thesis using at [of y] y F' entry_at_cong [of m' y m l] by simp
  qed
  then have "entries_at m' l es" using parts C' by (auto simp: entries_at_def)
  moreover have "\<exists>rb. blocks m' s = Some rb \<and> length rb = 64" using S parts(3) F' by (auto simp: socket_at_def)
  moreover have "wf_mem m'" "\<forall>a \<ge> brk m'. pendings m' a = None" using wf fresh F' brk by (auto simp: wf_mem_def)
  ultimately have "socket_at m' s i es" using i F' parts(3) by (simp add: socket_at_def)
  moreover have "qworld m' = qworld m" using F'(7) by (cases m, cases m') simp
  ultimately show ?thesis
    using x b rem i F' by (simp add: free_pending_def)
qed

text \<open>What is left of the first entry stays at the start of its array.\<close>

lemma keep_rest:
  fixes m :: "'w qwmem"
  assumes S: "socket_at m s i (e # es)" and k: "k < length (e_data e)"
  shows "\<exists>x m1. pendings m (e_pending e) = Some x \<and> read_bytes (e_array e, k) (length (e_data e) - k) m = Some (drop k (e_data e)) \<and>
    write_bytes (e_array e, 0) (drop k (e_data e)) m = Some m1 \<and>
    (\<exists>m'. upd_pending (e_pending e) (\<lambda>x. x\<lparr>pending_size := of_nat (length (e_data e) - k)\<rparr>) m1 = Some m' \<and>
      socket_at m' s i (e\<lparr>e_data := drop k (e_data e)\<rparr> # es) \<and> qworld m' = qworld m \<and> grants m' = grants m)"
proof -
  obtain l C where i: "sockets m s = Some i" "pending_io_list i = Some l" and C: "list_inv m C" "C l = Some (map link (e # es))"
    and at: "\<And>x. x \<in> set (e # es) \<Longrightarrow> entry_at m l x" and wf: "wf_mem m" and fresh: "\<And>a. brk m \<le> a \<Longrightarrow> pendings m a = None"
    by (rule socket_atE [OF S]) (rule that; assumption)
  let ?p = "e_pending e" and ?b = "e_array e" and ?e = "e\<lparr>e_data := drop k (e_data e)\<rparr>"
  obtain r x where x: "pendings m ?p = Some x" and b: "blocks m ?b = Some (e_data e @ r)" and e: "entry_at m l e"
    using at [of e] by (auto simp: entry_at_def)
  let ?m1 = "m\<lparr>blocks := (blocks m)(?b \<mapsto> write_at 0 (drop k (e_data e)) (e_data e @ r))\<rparr>"
  let ?m2 = "?m1\<lparr>pendings := (pendings m)(?p \<mapsto> x\<lparr>pending_size := of_nat (length (e_data e) - k)\<rparr>)\<rparr>"
  have parts: "distinct (map e_pending (e # es))" "distinct (map e_array (e # es))" "s \<notin> e_array ` set (e # es)"
    using S i by (auto simp: socket_at_def entries_at_def)
  have "entry_at ?m2 l ?e" using e x k by (auto simp: entry_at_def write_at_def)
  moreover have "entry_at ?m2 l y" if y: "y \<in> set es" for y
  proof -
    have "e_pending y \<noteq> ?p" "e_array y \<noteq> ?b" using distinct_first [OF _ y] parts by blast+
    then show ?thesis using at [of y] y entry_at_cong [of ?m2 y m l] by simp
  qed
  moreover have "list_inv ?m2 C" by (rule list_inv_stores [OF C(1)]) simp_all
  then have "\<exists>C. list_inv ?m2 C \<and> C l = Some (map link (?e # es))" using C(2) by (intro exI [of _ C]) (simp add: link_def)
  ultimately have "entries_at ?m2 l (?e # es)" using parts by (simp add: entries_at_def)
  moreover have "wf_mem ?m2" "\<forall>a \<ge> brk ?m2. pendings ?m2 a = None" using wf fresh x b by (auto simp: wf_mem_def)
  moreover have "\<exists>rb. blocks ?m2 s = Some rb \<and> length rb = 64" using S parts(3) by (auto simp: socket_at_def)
  ultimately have "socket_at ?m2 s i (?e # es)" using i parts(3) by (simp add: socket_at_def)
  then show ?thesis using x b k by (simp add: upd_pending_def)
qed

lemma error_call [simp]:
  fixes m :: "'w qwmem"
  assumes "sockets m s = Some i"
  shows "indicate_error (socket_env_of N E) s m = Some (m\<lparr>qworld := spec_io_error N i (qworld m)\<rparr>)"
  using assms by (simp add: indicate_error_def socket_env_of_def spec_io_error_def split: option.splits)

lemma socket_at_state:
  assumes "socket_at m s i es" "pending_io_list j = pending_io_list i"
  shows "socket_at (m\<lparr>sockets := (sockets m)(s \<mapsto> j)\<rparr>) s j es"
  using assms by (simp add: socket_at_def entries_at_def entry_at_def list_inv_def list_at_def wf_mem_def)

lemma flush_spec:
  fixes m :: "'w qwmem"
  assumes "socket_at m s i es" "net_contract N"
  shows "ok (send_pending_loop (socket_env_of N E) s (first_or (map link es) None) m) (\<lambda>m'. grants m' = grants m \<and>
    (\<exists>i' es'. (i', data_of es', qworld m') = spec_flush N i (data_of es) (qworld m) \<and> socket_at m' s i' es'))"
  using assms(1)
proof (induction es arbitrary: m i)
  case Nil
  have "send_pending_loop (socket_env_of N E) s None m = Some m" by (subst send_pending_loop.simps) simp
  then show ?case using Nil by simp
next
  case (Cons e es)
  obtain l C where i: "sockets m s = Some i" "pending_io_list i = Some l" and C: "list_inv m C" "C l = Some (map link (e # es))"
    and all: "\<And>x. x \<in> set (e # es) \<Longrightarrow> entry_at m l x"
    by (rule socket_atE [OF Cons.prems]) (rule that; assumption)
  have at: "entry_at m l e" by (rule all) simp
  let ?env = "socket_env_of N E" and ?n = "length (e_data e)"
  obtain b x where x: "pendings m (e_pending e) = Some x" "pending_bytes x = Some (e_array e)" "pending_size x = of_nat ?n"
      "(on_send_complete x, callback_context x) = e_call e"
    and data: "blocks m (e_array e) = Some (e_data e @ b)" and len: "e_data e \<noteq> []" "?n < 2 ^ 32 - 1"
    using at by (auto simp: entry_at_def)
  have u: "unat (of_nat ?n :: u32) = ?n" using len(2) by simp
  have rd: "read_bytes (e_array e, 0) ?n m = Some (e_data e)" using data by (simp add: read_bytes_def)
  have it: "singlylinkedlist_item_get_value (Some (e_item e)) m = Some (Some (e_pending e))"
    using accessors_spec(3) [OF C, of "[]" "link e" "map link es"] by (simp add: link_def)
  obtain r er w where n: "n_send N (socket_fd i) (e_data e) (qworld m) = ((r, er), w)" by (metis surj_pair)
  have r: "- 1 \<le> r" "r \<le> int ?n" using assms(2) n unfolding net_contract_def by (metis fst_conv)+
  note R = send_result [OF r len(2)]
  consider "r = int ?n" | "r = - 1" "er = EAGAIN" | "r = - 1" "er \<noteq> EAGAIN" | "0 \<le> r" "r < int ?n" using r by linarith
  then show ?case
  proof cases
    case 1
    let ?m = "m\<lparr>qworld := spec_complete N (e_call e) w\<rparr>"
    have S: "socket_at ?m s i (e # es)" using Cons.prems by simp
    from drop_first [OF S] obtain m1 m2 m3 where d: "free (Some (e_array e)) ?m = Some m1" "free_pending (e_pending e) m1 = Some m2"
        "sockets m2 s = Some i" "singlylinkedlist_remove (pending_io_list i) (Some (e_item e)) m2 = Some (0, m3)"
        "socket_at m3 s i es" "qworld m3 = qworld ?m" "grants m3 = grants ?m" by blast
    note H = socket_head [OF d(5)]
    have "send_pending_loop ?env s (first_or (map link (e # es)) None) m = send_pending_loop ?env s (first_or (map link es) None) m3"
      using it i x rd u n R 1 d H by (subst send_pending_loop.simps) (simp add: link_def)
    then show ?thesis using Cons.IH [OF d(5)] d(6,7) n 1 by simp
  next
    case 2
    have "send_pending_loop ?env s (first_or (map link (e # es)) None) m = Some (m\<lparr>qworld := w\<rparr>)"
      using it i x rd u n R 2 len by (subst send_pending_loop.simps) (simp add: link_def INVALID_SOCKET_def)
    moreover have "\<exists>i' es'. (i', data_of es', w) = spec_flush N i (data_of (e # es)) (qworld m) \<and> socket_at (m\<lparr>qworld := w\<rparr>) s i' es'"
      using n 2 Cons.prems by (intro exI [of _ i] exI [of _ "e # es"]) simp
    ultimately show ?thesis by simp
  next
    case 3
    let ?m = "m\<lparr>qworld := w\<rparr>" and ?j = "i\<lparr>io_state := IO_STATE_ERROR\<rparr>"
    have S: "socket_at ?m s i (e # es)" using Cons.prems by simp
    from drop_first [OF S] obtain m1 m2 m3 where d: "free (Some (e_array e)) ?m = Some m1" "free_pending (e_pending e) m1 = Some m2"
        "sockets m2 s = Some i" "singlylinkedlist_remove (pending_io_list i) (Some (e_item e)) m2 = Some (0, m3)"
        "socket_at m3 s i es" "qworld m3 = qworld ?m" "grants m3 = grants ?m" by blast
    let ?m4 = "m3\<lparr>sockets := (sockets m3)(s \<mapsto> ?j), qworld := spec_io_error N i w\<rparr>"
    have S4: "socket_at ?m4 s ?j es" using socket_at_state [OF d(5), of ?j] by simp
    have er: "spec_io_error N ?j w = spec_io_error N i w"
      by (simp add: spec_io_error_def split: option.splits)
    note H = socket_head [OF d(5)] socket_head [OF S4]
    have "send_pending_loop ?env s (first_or (map link (e # es)) None) m = send_pending_loop ?env s (first_or (map link es) None) ?m4"
      using it i x rd u n R(1) 3 d H len er by (subst send_pending_loop.simps) (simp add: link_def INVALID_SOCKET_def upd_socket_def)
    then show ?thesis using Cons.IH [OF S4] d(6,7) n 3 by simp
  next
    case 4
    let ?m = "m\<lparr>qworld := w\<rparr>" and ?k = "nat r"
    have S: "socket_at ?m s i (e # es)" using Cons.prems by simp
    have k: "?k < ?n" using 4 by simp
    obtain m1 m2 where d: "read_bytes (e_array e, ?k) (?n - ?k) ?m = Some (drop ?k (e_data e))"
        "write_bytes (e_array e, 0) (drop ?k (e_data e)) ?m = Some m1"
        "upd_pending (e_pending e) (\<lambda>x. x\<lparr>pending_size := of_nat (?n - ?k)\<rparr>) m1 = Some m2"
        "socket_at m2 s i (e\<lparr>e_data := drop ?k (e_data e)\<rparr> # es)" "qworld m2 = w" "grants m2 = grants m"
      using keep_rest [OF S k] by auto
    have m1: "pendings m1 (e_pending e) = Some x" using d(2) x(1) by (auto simp: write_bytes_def split: option.splits if_splits)
    have u4: "unat (of_nat (?n - ?k) :: u32) = ?n - ?k" using len(2) by (intro unat_of_nat_u32) simp
    have up: "upd_pending (e_pending e) (\<lambda>x. x\<lparr>pending_size := pending_size x - of_int r\<rparr>) m1 = Some m2"
      using d(3) m1 x(3) R(2) 4 by (simp add: upd_pending_def del: of_nat_diff)
    have "send_pending_loop ?env s (first_or (map link (e # es)) None) m = Some m2"
      using it i x rd u n R 4 d up u4 by (subst send_pending_loop.simps) (simp add: link_def INVALID_SOCKET_def move_ptr_def del: of_nat_diff)
    moreover have "\<exists>i' es'. (i', data_of es', w) = spec_flush N i (data_of (e # es)) (qworld m) \<and> socket_at m2 s i' es'"
      using n 4 d(4) by (intro exI [of _ i] exI [of _ "e\<lparr>e_data := drop ?k (e_data e)\<rparr> # es"]) simp
    ultimately show ?thesis using d(5,6) by simp
  qed
qed

section \<open>Receiving\<close>

lemma socket_at_array:
  assumes "socket_at m s i es" "length rb = 64"
  shows "socket_at (m\<lparr>blocks := (blocks m)(s \<mapsto> rb)\<rparr>) s i es"
proof -
  obtain l C where i: "sockets m s = Some i" "pending_io_list i = Some l" and C: "list_inv m C" "C l = Some (map link es)"
    and at: "\<And>x. x \<in> set es \<Longrightarrow> entry_at m l x" and wf: "wf_mem m" and fresh: "\<And>a. brk m \<le> a \<Longrightarrow> pendings m a = None"
    by (rule socket_atE [OF assms(1)]) (rule that; assumption)
  let ?m = "m\<lparr>blocks := (blocks m)(s \<mapsto> rb)\<rparr>"
  have no: "s \<notin> e_array ` set es" "distinct (map e_pending es)" "distinct (map e_array es)" "\<exists>rb. blocks m s = Some rb"
    using assms(1) i by (auto simp: socket_at_def entries_at_def)
  have "entry_at ?m l x" if "x \<in> set es" for x
  proof -
    have "e_array x \<noteq> s" using no(1) that by blast
    then show ?thesis using at [OF that] entry_at_cong [of ?m x m l] by simp
  qed
  moreover have "list_inv ?m C" by (rule list_inv_stores [OF C(1)]) simp_all
  ultimately have "entries_at ?m l es" using C(2) no by (auto simp: entries_at_def)
  moreover have "wf_mem ?m" using wf no(4) by (auto simp: wf_mem_def)
  ultimately show ?thesis using i assms(2) no(1) fresh by (simp add: socket_at_def)
qed

lemma those_bytes: "those (map Some xs) = Some xs"
  by (induction xs) simp_all

lemma recv_step:
  fixes m :: "'w qwmem"
  assumes S: "socket_at m s i es" and N: "net_contract N" and n: "n_recv N (socket_fd i) (qworld m) = ((r, e, bs), w)"
  shows "\<exists>m'. write_bytes (s, 0) (map Some bs) (m\<lparr>qworld := w\<rparr>) = Some m' \<and> socket_at m' s i es \<and> qworld m' = w \<and> grants m' = grants m \<and>
    (0 < r \<longrightarrow> call_bytes_received (socket_env_of N E) f c (Some (s, 0)) (of_int r) m' = Some (m'\<lparr>qworld := n_received N f c bs w\<rparr>))"
proof -
  obtain rb where rb: "blocks m s = Some rb" "length rb = 64" using S by (auto simp: socket_at_def)
  have len: "length bs \<le> 64" and r: "0 < r \<Longrightarrow> r = int (length bs)" using N n unfolding net_contract_def by (metis fst_conv snd_conv)+
  let ?rb = "write_at 0 (map Some bs) rb"
  let ?m = "m\<lparr>qworld := w, blocks := (blocks m)(s \<mapsto> ?rb)\<rparr>"
  have l: "length ?rb = 64" "take (length bs) ?rb = map Some bs" using len rb(2) by (simp_all add: write_at_def)
  have u: "unat (of_nat (length bs) :: u32) = length bs" using len by simp
  have "socket_at ?m s i es" using socket_at_array [of "m\<lparr>qworld := w\<rparr>" s i es ?rb] S l(1) by simp
  moreover have "write_bytes (s, 0) (map Some bs) (m\<lparr>qworld := w\<rparr>) = Some ?m" using rb len by (simp add: write_bytes_def)
  moreover have "call_bytes_received (socket_env_of N E) f c (Some (s, 0)) (of_int r) ?m = Some (?m\<lparr>qworld := n_received N f c bs w\<rparr>)" if "0 < r"
    using l u r [OF that] len by (simp add: socket_env_of_def read_bytes_def those_bytes)
  ultimately show ?thesis by (intro exI [of _ ?m]) simp
qed

lemma recv_loop_spec:
  fixes m :: "'w qwmem"
  assumes "spec_receive N i w = Some w'" "socket_at m s i es" "net_contract N" "io_state i = IO_STATE_OPEN" "qworld m = w"
  shows "ok (recv_loop (socket_env_of N E) s m) (\<lambda>m'. socket_at m' s i es \<and> qworld m' = w' \<and> grants m' = grants m)"
  using assms
proof (induction arbitrary: m rule: spec_receive.raw_induct [rotated, consumes 1, case_names step])
  case (step spec_receive N i w w')
  let ?env = "socket_env_of N E"
  obtain r e bs v where n: "n_recv N (socket_fd i) w = ((r, e, bs), v)" by (metis surj_pair)
  have call: "sk_recv ?env (socket_fd i) RECEIVE_BYTES_VALUE m = Some ((r, e, bs), m\<lparr>qworld := v\<rparr>)"
    using n step.prems(4) by (simp add: socket_env_of_def)
  have i: "sockets m s = Some i" using step.prems(1) by (simp add: socket_at_def)
  note got_step = recv_step [OF step.prems(1,2), of r e bs v E]
  have "\<exists>m1. write_bytes (s, 0) (map Some bs) (m\<lparr>qworld := v\<rparr>) = Some m1 \<and> socket_at m1 s i es \<and> qworld m1 = v \<and> grants m1 = grants m"
    using got_step n step.prems(4) by blast
  then obtain m1 where m1: "write_bytes (s, 0) (map Some bs) (m\<lparr>qworld := v\<rparr>) = Some m1" "socket_at m1 s i es" "qworld m1 = v"
      "grants m1 = grants m" by blast
  have got: "call_bytes_received ?env f c (Some (s, 0)) (of_int r) m1 = Some (m1\<lparr>qworld := n_received N f c bs v\<rparr>)" if "0 < r" for f c
    using got_step [of f c] n step.prems(4) m1(1) that by auto
  have i1: "sockets m1 s = Some i" using m1(2) by (simp add: socket_at_def)
  show ?case
  proof (cases "0 < r")
    case True
    let ?v = "case on_bytes_received i of None \<Rightarrow> v | Some f \<Rightarrow> n_received N f (on_bytes_received_context i) bs v"
    let ?m = "m1\<lparr>qworld := ?v\<rparr>"
    have "spec_receive N i ?v = Some w'" using step.hyps n True by simp
    then have "ok (recv_loop ?env s ?m) (\<lambda>m'. socket_at m' s i es \<and> qworld m' = w' \<and> grants m' = grants ?m)"
      by (rule step.IH) (use m1(2) step.prems in simp_all)
    moreover have "recv_loop ?env s m = recv_loop ?env s ?m"
      using call i m1(1) i1 True got step.prems(3) m1(3)
      by (subst recv_loop.simps) (auto split: option.splits)
    ultimately show ?thesis using m1(4) by simp
  next
    case False
    then have "recv_loop ?env s m = Some (if r < 0 \<and> e \<noteq> EAGAIN then m1\<lparr>qworld := spec_io_error N i v\<rparr> else m1)"
      using call i m1(1,3) i1 by (subst recv_loop.simps) simp
    then show ?thesis using step.hyps n False m1 by (auto split: if_splits)
  qed
qed

section \<open>Work\<close>

lemma socketio_dowork_spec:
  fixes m :: "'w qwmem"
  assumes S: "socket_at m s i es" and N: "net_contract N" and W: "spec_socket_work N i (data_of es) (qworld m) = Some (i', q', w')"
  shows "ok (socketio_dowork (socket_env_of N E) (Some s) m) (\<lambda>m'. grants m' = grants m \<and> qworld m' = w' \<and>
    (\<exists>es'. data_of es' = q' \<and> socket_at m' s i' es'))"
proof -
  obtain m1 i1 es1 where f: "send_pending_loop (socket_env_of N E) s (first_or (map link es) None) m = Some m1" "grants m1 = grants m"
      "(i1, data_of es1, qworld m1) = spec_flush N i (data_of es) (qworld m)" "socket_at m1 s i1 es1"
    using flush_spec [OF S N, of E] by (auto simp: ok_iff)
  have H: "sockets m1 s = Some i1" using f(4) by (simp add: socket_at_def)
  note W' = W [unfolded spec_socket_work_def f(3) [symmetric], simplified]
  have run: "socketio_dowork (socket_env_of N E) (Some s) m = (if io_state i1 = IO_STATE_OPEN then recv_loop (socket_env_of N E) s m1 else Some m1)"
    using socket_head [OF S] f(1) H by (simp add: socketio_dowork_def)
  show ?thesis
  proof (cases "io_state i1 = IO_STATE_OPEN")
    case True
    then have "spec_receive N i1 (qworld m1) = Some w'" "i' = i1" "q' = data_of es1" using W' by (auto simp: bind_eq_Some_conv)
    then show ?thesis
      using recv_loop_spec [OF _ f(4) N True refl, of w' E] run True f(2) by (auto simp: ok_iff)
  next
    case False
    then show ?thesis using run W' f by auto
  qed
qed

end
