(* ===== verification/Socketio_Stream.thy ===== *)
theory Socketio_Stream
  imports Socketio_Rules
begin

text \<open>
  The stream of a socket: what the network has taken and what is pending is, together, what was
  given to \<^verbatim>\<open>socketio_send\<close>, in its order, over every run of calls.
\<close>

section \<open>Runs\<close>

lemma recv_loop_returns:
  fixes m :: "'w qwmem"
  assumes "recv_loop (socket_env_of N E) s m = Some m'" "socket_at m s i es" "net_contract N" "io_state i = IO_STATE_OPEN"
  shows "\<exists>w'. spec_receive N i (qworld m) = Some w'"
proof -
  have "env = socket_env_of N E \<Longrightarrow> socket_at m s i es \<Longrightarrow> \<exists>w'. spec_receive N i (qworld m) = Some w'"
    if "recv_loop env s m = Some m'" for env and m m' :: "'w qwmem"
    using that
  proof (induction rule: recv_loop.raw_induct [rotated, consumes 1, case_names step])
    case (step recv_loop env s m m')
    obtain r e bs v where n: "n_recv N (socket_fd i) (qworld m) = ((r, e, bs), v)" by (metis surj_pair)
    have call: "sk_recv env (socket_fd i) RECEIVE_BYTES_VALUE m = Some ((r, e, bs), m\<lparr>qworld := v\<rparr>)"
      using n step.prems(1) by (simp add: socket_env_of_def)
    have i: "sockets m s = Some i" using step.prems(2) by (simp add: socket_at_def)
    note got_step = recv_step [OF step.prems(2) assms(3) n, of E]
    obtain m1 where m1: "write_bytes (s, 0) (map Some bs) (m\<lparr>qworld := v\<rparr>) = Some m1" "socket_at m1 s i es" "qworld m1 = v"
      using got_step by blast
    have got: "call_bytes_received env f c (Some (s, 0)) (of_int r) m1 = Some (m1\<lparr>qworld := n_received N f c bs v\<rparr>)" if "0 < r" for f c
      using got_step [of f c] m1(1) that step.prems(1) by auto
    have i1: "sockets m1 s = Some i" using m1(2) by (simp add: socket_at_def)
    show ?case
    proof (cases "0 < r")
      case True
      let ?v = "case on_bytes_received i of None \<Rightarrow> v | Some f \<Rightarrow> n_received N f (on_bytes_received_context i) bs v"
      have "recv_loop env s (m1\<lparr>qworld := ?v\<rparr>) = Some m'"
        using step.hyps call i m1(1,3) i1 True got assms(4) by (auto split: option.splits)
      then have "\<exists>w'. spec_receive N i (qworld (m1\<lparr>qworld := ?v\<rparr>)) = Some w'"
        by (rule step.IH) (use step.prems m1(2) in simp_all)
      then show ?thesis using n True by (subst spec_receive.simps) simp
    next
      case False
      then show ?thesis using n by (subst spec_receive.simps) simp
    qed
  qed
  then show ?thesis using assms(1,2) by blast
qed

lemma socketio_dowork_returns:
  fixes m :: "'w qwmem"
  assumes S: "socket_at m s i es" and N: "net_contract N" and run: "socketio_dowork (socket_env_of N E) (Some s) m = Some m'"
  shows "\<exists>i' es'. spec_socket_work N i (data_of es) (qworld m) = Some (i', data_of es', qworld m') \<and> socket_at m' s i' es' \<and>
    grants m' = grants m"
proof -
  obtain m1 i1 es1 where f: "send_pending_loop (socket_env_of N E) s (first_or (map link es) None) m = Some m1"
      "(i1, data_of es1, qworld m1) = spec_flush N i (data_of es) (qworld m)" "socket_at m1 s i1 es1"
    using flush_spec [OF S N, of E] by (auto simp: ok_iff)
  have H: "sockets m1 s = Some i1" using f(3) by (simp add: socket_at_def)
  have r: "io_state i1 = IO_STATE_OPEN \<Longrightarrow> recv_loop (socket_env_of N E) s m1 = Some m'"
    using run socket_head [OF S] f(1) H by (simp add: socketio_dowork_def)
  have "\<exists>x. spec_socket_work N i (data_of es) (qworld m) = Some x"
    using recv_loop_returns [OF r f(3) N] unfolding spec_socket_work_def f(2) [symmetric] by auto
  then obtain i' q' w' where W: "spec_socket_work N i (data_of es) (qworld m) = Some (i', q', w')" by (metis surj_pair)
  show ?thesis using socketio_dowork_spec [OF S N W, of E] run W by auto
qed

text \<open>
  A run of an open socket: calls of \<open>socketio_send\<close> and \<open>socketio_dowork\<close>, and whatever the program does to
  the memory that is not the socket's.  The log has what was given to \<open>socketio_send\<close>.
\<close>

inductive socket_run :: "'w net_ops \<Rightarrow> 'w qwmem socket_env \<Rightarrow> addr \<Rightarrow> 'w qwmem \<Rightarrow> queue \<Rightarrow> 'w qwmem \<Rightarrow> bool"
  for N E s m0 where
  start: "socket_run N E s m0 [] m0"
| send: "socket_run N E s m0 log m \<Longrightarrow> read_bytes q (length xs) m = Some xs \<Longrightarrow> xs \<noteq> [] \<Longrightarrow> length xs < 2 ^ 32 - 1 \<Longrightarrow>
    socketio_send (socket_env_of N E) (Some s) (Some q) (of_nat (length xs)) cb m = Some (r, m') \<Longrightarrow>
    socket_run N E s m0 (log @ [(xs, cb)]) m'"
| work: "socket_run N E s m0 log m \<Longrightarrow> socketio_dowork (socket_env_of N E) (Some s) m = Some m' \<Longrightarrow> socket_run N E s m0 log m'"
| other: "socket_run N E s m0 log m \<Longrightarrow> \<forall>i es. socket_at m s i es \<longrightarrow> socket_at m' s i es \<Longrightarrow> qworld m' = qworld m \<Longrightarrow>
    grants m' = grants m \<Longrightarrow> socket_run N E s m0 log m'"

text \<open>
  A network that refuses nothing: it takes a prefix, maybe an empty one, of what it is given; \<open>taken\<close> is what
  it has taken and \<open>finished\<close> the callbacks that were told so.
\<close>

definition takes_prefixes :: "'w net_ops \<Rightarrow> ('w \<Rightarrow> mbyte list) \<Rightarrow> ('w \<Rightarrow> (nat \<times> ptr) list) \<Rightarrow> bool" where
  "takes_prefixes N taken finished \<longleftrightarrow>
     (\<forall>fd xs w. 0 \<le> fst (fst (n_send N fd xs w)) \<and>
        taken (snd (n_send N fd xs w)) = taken w @ take (nat (fst (fst (n_send N fd xs w)))) xs \<and>
        finished (snd (n_send N fd xs w)) = finished w) \<and>
     (\<forall>fd w. taken (snd (n_recv N fd w)) = taken w \<and> finished (snd (n_recv N fd w)) = finished w) \<and>
     (\<forall>f c w. taken (n_sent N f c w) = taken w \<and> finished (n_sent N f c w) = finished w @ [(f, c)]) \<and>
     (\<forall>f c bs w. taken (n_received N f c bs w) = taken w \<and> finished (n_received N f c bs w) = finished w) \<and>
     (\<forall>f c w. taken (n_error N f c w) = taken w \<and> finished (n_error N f c w) = finished w)"

definition callbacks :: "queue \<Rightarrow> (nat \<times> ptr) list" where
  "callbacks q = concat (map (\<lambda>(xs, f, c). case f of None \<Rightarrow> [] | Some f \<Rightarrow> [(f, c)]) q)"

definition queue_bytes :: "queue \<Rightarrow> mbyte list" where
  "queue_bytes q = concat (map fst q)"

lemma queue_simps [simp]:
  "callbacks [] = []" "callbacks (q @ q') = callbacks q @ callbacks q'" "queue_bytes [] = []" "queue_bytes (q @ q') = queue_bytes q @ queue_bytes q'"
  "queue_bytes ((xs, cb) # q) = xs @ queue_bytes q"
  "callbacks ((xs, f, c) # q) = (case f of None \<Rightarrow> [] | Some f \<Rightarrow> [(f, c)]) @ callbacks q"
  by (simp_all add: callbacks_def queue_bytes_def)

lemma takesD:
  assumes "takes_prefixes N taken finished" "net_contract N" "n_send N fd xs w = ((r, e), w')"
  shows "0 \<le> r" "r \<le> int (length xs)" "taken w' = taken w @ take (nat r) xs" "finished w' = finished w"
  using assms by (metis fst_conv snd_conv net_contract_def takes_prefixes_def)+

lemma complete_streams:
  assumes "takes_prefixes N taken finished"
  shows "taken (spec_complete N cb w) = taken w" "finished (spec_complete N cb w) = finished w @ callbacks [(xs, cb)]"
  using assms by (cases cb; auto simp: spec_complete_def takes_prefixes_def split: option.splits)+

lemma send_stream:
  assumes T: "takes_prefixes N taken finished" and N: "net_contract N" and o: "io_state i = IO_STATE_OPEN"
    and s: "spec_socket_send N i q xs cb w = (r, q', w')"
  shows "r = 0 \<and> taken w' @ queue_bytes q' = taken w @ queue_bytes q @ xs \<and> finished w' @ callbacks q' = finished w @ callbacks q @ callbacks [(xs, cb)]"
proof -
  obtain k e v where n: "n_send N (socket_fd i) xs w = ((k, e), v)" by (metis surj_pair)
  note D = takesD [OF T N n]
  note C = complete_streams [OF T, of cb v]
  show ?thesis
    using s o n D C(1) C(2) [of xs] by (cases cb) (auto simp: spec_socket_send_def split: if_splits)
qed

lemma flush_stream:
  assumes T: "takes_prefixes N taken finished" and N: "net_contract N"
  shows "spec_flush N i q w = (i', q', w') \<Longrightarrow>
    i' = i \<and> taken w' @ queue_bytes q' = taken w @ queue_bytes q \<and> finished w' @ callbacks q' = finished w @ callbacks q"
proof (induction q arbitrary: w)
  case (Cons x q)
  obtain xs f c where x: "x = (xs, f, c)" by (cases x)
  obtain k e v where n: "n_send N (socket_fd i) xs w = ((k, e), v)" by (metis surj_pair)
  note D = takesD [OF T N n]
  note C = complete_streams [OF T, of "(f, c)" v]
  show ?case
  proof (cases "k = int (length xs)")
    case True
    then show ?thesis using Cons n x D C(1) C(2) [of xs] by simp
  next
    case False
    then show ?thesis using Cons.prems n x D by auto
  qed
qed simp

lemma receive_stream:
  assumes T: "takes_prefixes N taken finished"
  shows "spec_receive N i w = Some w' \<Longrightarrow> taken w' = taken w \<and> finished w' = finished w"
proof -
  have "M = N \<Longrightarrow> taken w' = taken w \<and> finished w' = finished w" if "spec_receive M i w = Some w'" for M i w w'
    using that
  proof (induction rule: spec_receive.raw_induct [rotated, consumes 1, case_names step])
    case (step spec_receive M i w w')
    obtain r e bs v where n: "n_recv N (socket_fd i) w = ((r, e, bs), v)" by (metis surj_pair)
    have v: "taken v = taken w" "finished v = finished w" using T n by (metis snd_conv takes_prefixes_def)+
    let ?v = "case on_bytes_received i of None \<Rightarrow> v | Some f \<Rightarrow> n_received N f (on_bytes_received_context i) bs v"
    have v': "taken ?v = taken w" "finished ?v = finished w" using T v by (auto simp: takes_prefixes_def split: option.splits)
    have er: "taken (spec_io_error N i v) = taken w" "finished (spec_io_error N i v) = finished w"
      using T v by (auto simp: takes_prefixes_def spec_io_error_def split: option.splits)
    show ?case
    proof (cases "0 < r")
      case True
      then have "spec_receive M i ?v = Some w'" using step.hyps step.prems n by (simp cong: option.case_cong)
      then show ?thesis using step.IH [of M i ?v w'] step.prems v' by simp
    next
      case False
      then show ?thesis using step.hyps step.prems n v er by (auto split: if_splits)
    qed
  qed
  then show "spec_receive N i w = Some w' \<Longrightarrow> taken w' = taken w \<and> finished w' = finished w" by blast
qed

lemma socket_run_stream:
  assumes R: "socket_run N E s m0 log m" and S: "socket_at m0 s i es0" and o: "io_state i = IO_STATE_OPEN" and room: "roomy m0"
    and N: "net_contract N" and T: "takes_prefixes N taken finished"
  shows "roomy m \<and> (\<exists>es. socket_at m s i es \<and>
    taken (qworld m) @ queue_bytes (data_of es) = taken (qworld m0) @ queue_bytes (data_of es0 @ log) \<and>
    finished (qworld m) @ callbacks (data_of es) = finished (qworld m0) @ callbacks (data_of es0 @ log))"
  using R
proof induction
  case start
  then show ?case using S room by auto
next
  case (send log m q xs cb r m')
  then obtain es where es: "socket_at m s i es" "roomy m"
    and t: "taken (qworld m) @ queue_bytes (data_of es) = taken (qworld m0) @ queue_bytes (data_of es0 @ log)"
      "finished (qworld m) @ callbacks (data_of es) = finished (qworld m0) @ callbacks (data_of es0 @ log)" by blast
  obtain es' where s: "(r, data_of es', qworld m') = spec_socket_send N i (data_of es) xs cb (qworld m)" "socket_at m' s i es'"
    and k: "kept m m'"
    using socketio_send_spec [OF es(1) N es(2) send.hyps(2-4), of E cb] send.hyps(5) by auto
  have "roomy m'" using es(2) k by (simp add: roomy_def kept_def)
  moreover have "taken (qworld m') @ queue_bytes (data_of es') = taken (qworld m0) @ queue_bytes (data_of es0 @ log @ [(xs, cb)])"
    "finished (qworld m') @ callbacks (data_of es') = finished (qworld m0) @ callbacks (data_of es0 @ log @ [(xs, cb)])"
    using send_stream [OF T N o s(1) [symmetric]] t by (simp_all flip: append_assoc)
  ultimately show ?case using s(2) by auto
next
  case (work log m m')
  then obtain es where es: "socket_at m s i es" "roomy m"
    and t: "taken (qworld m) @ queue_bytes (data_of es) = taken (qworld m0) @ queue_bytes (data_of es0 @ log)"
      "finished (qworld m) @ callbacks (data_of es) = finished (qworld m0) @ callbacks (data_of es0 @ log)" by blast
  obtain i' es' where w: "spec_socket_work N i (data_of es) (qworld m) = Some (i', data_of es', qworld m')" "socket_at m' s i' es'"
    and g: "grants m' = grants m" using socketio_dowork_returns [OF es(1) N work.hyps(2)] by blast
  obtain j q v where f: "spec_flush N i (data_of es) (qworld m) = (j, q, v)" by (metis surj_pair)
  note F = flush_stream [OF T N f]
  have "i' = i" "q = data_of es'" "spec_receive N i v = Some (qworld m')"
    using w(1) f F o by (auto simp: spec_socket_work_def bind_eq_Some_conv)
  then show ?case using F receive_stream [OF T, of i v "qworld m'"] w(2) t g es(2) by (auto simp: roomy_def)
next
  case (other log m m')
  then show ?case by (metis roomy_def)
qed

end
