(* ===== verification/Socketio_Life.thy ===== *)
theory Socketio_Life
  imports Socketio_Stream
begin

text \<open>
  The life of a socket: creation, opening, closing and destruction, and what they hold and give back.
\<close>

section \<open>Creation and destruction\<close>

lemma restrict_gone: "(f(a := None)) |` (- A) = f |` (- insert a A)"
  by (auto simp: restrict_map_def fun_eq_iff)

lemma destroy_pending_spec:
  fixes m :: "'w qwmem"
  assumes "socket_at m s i es"
  shows "ok (destroy_pending_loop s (first_or (map link es) None) m) (\<lambda>m'. socket_at m' s i [] \<and>
    blocks m' = blocks m |` (- e_array ` set es) \<and> pendings m' = pendings m |` (- e_pending ` set es) \<and>
    chars m' = chars m \<and> sockets m' = sockets m \<and> qworld m' = qworld m)"
  using assms
proof (induction es arbitrary: m)
  case Nil
  have "destroy_pending_loop s None m = Some m" by (subst destroy_pending_loop.simps) simp
  then show ?case using Nil by simp
next
  case (Cons e es)
  obtain l C where C: "list_inv m C" "C l = Some (map link (e # es))"
    by (rule socket_atE [OF Cons.prems]) (rule that; assumption)
  have it: "singlylinkedlist_item_get_value (Some (e_item e)) m = Some (Some (e_pending e))"
    using accessors_spec(3) [OF C, of "[]" "link e" "map link es"] by (simp add: link_def)
  from drop_first [OF Cons.prems] obtain x m1 m2 m3 where d: "pendings m (e_pending e) = Some x" "pending_bytes x = Some (e_array e)"
      "free (Some (e_array e)) m = Some m1" "free_pending (e_pending e) m1 = Some m2" "sockets m2 s = Some i"
      "singlylinkedlist_remove (pending_io_list i) (Some (e_item e)) m2 = Some (0, m3)" and S: "socket_at m3 s i es"
    and m3: "qworld m3 = qworld m" "blocks m3 = (blocks m)(e_array e := None)" "pendings m3 = (pendings m)(e_pending e := None)"
      "chars m3 = chars m" "sockets m3 = sockets m" by blast
  have "destroy_pending_loop s (first_or (map link (e # es)) None) m = destroy_pending_loop s (first_or (map link es) None) m3"
    using it d socket_head [OF S] by (subst destroy_pending_loop.simps) (simp add: link_def)
  moreover obtain r where r: "destroy_pending_loop s (first_or (map link es) None) m3 = Some r" "socket_at r s i []"
      "blocks r = blocks m3 |` (- e_array ` set es)" "pendings r = pendings m3 |` (- e_pending ` set es)"
      "chars r = chars m3" "sockets r = sockets m3" "qworld r = qworld m3"
    using Cons.IH [OF S] by (auto simp: ok_iff)
  moreover have "blocks r = blocks m |` (- e_array ` set (e # es))" "pendings r = pendings m |` (- e_pending ` set (e # es))"
    unfolding r(3,4) m3 by (simp_all only: restrict_gone list.set image_insert)
  ultimately show ?case using m3 by simp
qed

definition owns_string :: "'z mem_scheme \<Rightarrow> ptr \<Rightarrow> bool" where
  "owns_string m p \<longleftrightarrow> (case p of None \<Rightarrow> True | Some a \<Rightarrow> chars m a \<noteq> None)"

definition closed_world :: "'w net_ops \<Rightarrow> SOCKET_IO_INSTANCE \<Rightarrow> 'w \<Rightarrow> 'w" where
  "closed_world N i w = (if socket_fd i = INVALID_SOCKET then w else n_close N (socket_fd i) w)"

lemma socketio_destroy_spec:
  fixes m :: "'w qwmem"
  assumes S: "socket_at m s i es" and strings: "owns_string m (hostname i)" "owns_string m (target_mac_address i)"
    "hostname i = None \<or> hostname i \<noteq> target_mac_address i"
  shows "ok (socketio_destroy (socket_env_of N E) (Some s) m) (\<lambda>m'. sockets m' = (sockets m)(s := None) \<and>
    blocks m' = blocks m |` (- insert s (e_array ` set es)) \<and> pendings m' = pendings m |` (- e_pending ` set es) \<and>
    chars m' = chars m |` (- {a. hostname i = Some a \<or> target_mac_address i = Some a}) \<and>
    qworld m' = closed_world N i (qworld m))"
proof -
  let ?m = "m\<lparr>qworld := closed_world N i (qworld m)\<rparr>"
  have S0: "socket_at ?m s i es" using S by simp
  obtain m1 where d: "destroy_pending_loop s (first_or (map link es) None) ?m = Some m1" and S1: "socket_at m1 s i []"
    and m1: "blocks m1 = blocks m |` (- e_array ` set es)" "pendings m1 = pendings m |` (- e_pending ` set es)"
      "chars m1 = chars m" "sockets m1 = sockets m" "qworld m1 = closed_world N i (qworld m)"
    using destroy_pending_spec [OF S0] by (auto simp: ok_iff)
  obtain l C where i: "sockets m1 s = Some i" "pending_io_list i = Some l" and C: "list_inv m1 C" "C l = Some (map link [])"
    by (rule socket_atE [OF S1]) (rule that; assumption)
  obtain m2 where l: "singlylinkedlist_destroy (Some l) m1 = Some m2" and F: "list_frame m1 m2"
    using list_destroy_spec [OF C] by (auto simp: ok_iff)
  note F' = list_frame_above [OF F]
  have w2: "qworld m2 = qworld m1" using F'(7) by (cases m1, cases m2) simp
  obtain rb where rb: "blocks m1 s = Some rb" using S1 by (auto simp: socket_at_def)
  have st: "(if socket_fd i \<noteq> INVALID_SOCKET then sk_close (socket_env_of N E) (socket_fd i) m else Some m) = Some ?m"
    by (simp add: closed_world_def socket_env_of_def)
  have "chars m a \<noteq> None" if "hostname i = Some a" for a using strings(1) that by (simp add: owns_string_def)
  moreover have "chars m a \<noteq> None" if "target_mac_address i = Some a" for a using strings(2) that by (simp add: owns_string_def)
  ultimately have str: "cfree (hostname i) m2 \<bind> cfree (target_mac_address i) =
      Some (m2\<lparr>chars := chars m |` (- {a. hostname i = Some a \<or> target_mac_address i = Some a})\<rparr>)"
    using F'(5) m1(3) strings(3) by (cases "hostname i"; cases "target_mac_address i") (auto simp: cfree_def restrict_map_def fun_eq_iff)
  let ?m3 = "m2\<lparr>chars := chars m |` (- {a. hostname i = Some a \<or> target_mac_address i = Some a})\<rparr>"
  have "socketio_destroy (socket_env_of N E) (Some s) m = free_socket s ?m3"
  proof -
    have "socketio_destroy (socket_env_of N E) (Some s) m = cfree (hostname i) m2 \<bind> (\<lambda>m. cfree (target_mac_address i) m \<bind> free_socket s)"
      using socket_head(1) [OF S] socket_head [OF S0] st d i l by (simp add: socketio_destroy_def)
    then show ?thesis using str by (simp flip: Option.bind_assoc)
  qed
  also have "\<dots> = Some (?m3\<lparr>sockets := (sockets m)(s := None), blocks := (blocks m1)(s := None)\<rparr>)"
    using i F' rb m1(4) by (simp add: free_socket_def)
  finally show ?thesis using F' m1 w2 by (simp add: restrict_map_def fun_eq_iff)
qed

text \<open>Creating a socket and destroying it leaves the memory as it was, whatever is allocated.\<close>

lemma create_destroy:
  fixes m :: "'w qwmem"
  assumes host: "config_hostname config = Some p" "c_string p m = Some n" "length n < 2 ^ 32 - 1" and wf: "wf_mem m"
    and fresh: "\<And>a. brk m \<le> a \<Longrightarrow> sockets m a = None \<and> lists m a = None"
  shows "\<exists>b. socketio_create (Some config) m \<bind> (\<lambda>(r, m). socketio_destroy (socket_env_of N E) r m) = Some (m\<lparr>brk := b\<rparr>)"
proof -
  let ?s = "brk m" and ?l = "Suc (brk m)" and ?h = "Suc (Suc (brk m))"
  have none: "sockets m ?s = None" "lists m ?l = None" "blocks m ?s = None" "chars m ?h = None"
    using fresh wf by (simp_all add: wf_mem_def)
  then have idem: "(sockets m)(?s := None) = sockets m" "(lists m)(?l := None) = lists m" "(blocks m)(?s := None) = blocks m"
    "(chars m)(?h := None) = chars m" by (simp_all add: fun_upd_idem)
  have u: "unat (of_nat (length n) + 1 :: u32) = Suc (length n)"
    using host(3) unat_of_nat_u32 [of "Suc (length n)"] by (simp add: add.commute)
  have c: "c_string p m' = Some n" if "chars m' = chars m \<or> (\<exists>x. chars m' = (chars m)(?h := x))" for m' :: "'w qwmem"
    using host(2) that none(4) 
  proof (cases p)
    case (Chars a i)
    then have "chars m a \<noteq> None" using host(2) by (auto simp: c_string_def split: option.splits)
    then have "chars m' a = chars m a" using that none(4) by auto
    then show ?thesis using host(2) Chars by (simp add: c_string_def)
  qed (use host(2) in \<open>simp add: c_string_def\<close>)
  have c2: "c_string p (m'\<lparr>chars := (chars m)(?h := x)\<rparr>) = Some n" for m' :: "'w qwmem" and x
    by (rule c) auto
  note defs = malloc_struct_def singlylinkedlist_create_def free_socket_def free_def strlen_def cmalloc_def
    upd_socket_def free_list_def strcpy_def cwrite_def cfree_def
  note destroys = socketio_destroy_def singlylinkedlist_get_head_item_def singlylinkedlist_destroy_def
  have loops: "destroy_pending_loop s None m' = Some m'" "lists m' l = Some \<lparr>head = None, tail = None\<rparr> \<Longrightarrow> destroy_loop l m' = Some m'"
    for s l and m' :: "'w qwmem"
    by (subst destroy_pending_loop.simps, simp) (subst destroy_loop.simps, simp)
  let ?i = "\<lparr>socket_fd = INVALID_SOCKET, on_bytes_received = None, on_io_error = None, on_bytes_received_context = None,
    on_io_error_context = None, hostname = Some ?h, port = config_port config, target_mac_address = None,
    io_state = IO_STATE_CLOSED, pending_io_list = Some ?l\<rparr>"
  let ?m = "m\<lparr>brk := Suc ?h, lists := (lists m)(?l \<mapsto> \<lparr>head = None, tail = None\<rparr>), blocks := (blocks m)(?s \<mapsto> replicate 64 None),
    sockets := (sockets m)(?s \<mapsto> ?i), chars := (chars m)(?h \<mapsto> cstr n)\<rparr>"
  consider "\<not> grants m ?s sizeof_SOCKET_IO_INSTANCE" | "grants m ?s sizeof_SOCKET_IO_INSTANCE" "\<not> grants m ?l sizeof_LIST_INSTANCE"
    | "grants m ?s sizeof_SOCKET_IO_INSTANCE" "grants m ?l sizeof_LIST_INSTANCE" "\<not> grants m ?h (Suc (length n))"
    | "grants m ?s sizeof_SOCKET_IO_INSTANCE" "grants m ?l sizeof_LIST_INSTANCE" "grants m ?h (Suc (length n))" by blast
  then show ?thesis
  proof cases
    case 1
    then show ?thesis by (intro exI [of _ "Suc ?s"]) (simp add: socketio_create_def defs destroys)
  next
    case 2
    then show ?thesis using none idem by (intro exI [of _ "Suc ?l"]) (simp add: socketio_create_def defs destroys)
  next
    case 3
    then show ?thesis using none idem host c u loops
      by (intro exI [of _ "Suc ?h"]) (simp add: socketio_create_def defs destroys RECEIVE_BYTES_VALUE_def)
  next
    case 4
    have "socketio_create (Some config) m = Some (Some ?s, ?m)"
      using 4 none host(1,3) c c2 u by (simp add: socketio_create_def defs RECEIVE_BYTES_VALUE_def write_at_start)
    moreover have "socketio_destroy (socket_env_of N E) (Some ?s) ?m = Some (m\<lparr>brk := Suc ?h\<rparr>)"
      using idem loops by (simp add: destroys defs)
    ultimately show ?thesis by (intro exI [of _ "Suc ?h"]) simp
  qed
qed

end
