(* ===== verification/Socketio_Open.thy ===== *)
theory Socketio_Open
  imports Socketio_Life
begin

text \<open>
  Opening and closing a socket: a socket of the network that was obtained is kept in the instance, or
  given back.
\<close>

section \<open>The sockets that are held\<close>

text \<open>\<open>held\<close> is the set of the sockets that the network has given out and not got back.\<close>

definition counts_sockets :: "'w net_ops \<Rightarrow> ('w \<Rightarrow> int set) \<Rightarrow> bool" where
  "counts_sockets N held \<longleftrightarrow>
     (\<forall>w. if fst (n_socket N w) < 0 then held (snd (n_socket N w)) = held w
        else fst (n_socket N w) \<notin> held w \<and> held (snd (n_socket N w)) = insert (fst (n_socket N w)) (held w)) \<and>
     (\<forall>fd w. held (n_close N fd w) = held w - {fd}) \<and>
     (\<forall>h p w. held (snd (n_lookup N h p w)) = held w) \<and>
     (\<forall>a w. held (n_release N a w) = held w) \<and>
     (\<forall>fd c x w. held (snd (n_fcntl N fd c x w)) = held w) \<and>
     (\<forall>fd a w. held (snd (n_connect N fd a w)) = held w) \<and>
     (\<forall>fd t w. held (snd (n_select N fd t w)) = held w) \<and>
     (\<forall>fd l x w. held (snd (n_getsockopt N fd l x w)) = held w) \<and>
     (\<forall>f c r w. held (n_opened N f c r w) = held w) \<and> (\<forall>f c w. held (n_closed N f c w) = held w)"

text \<open>The wait is interrupted at most so many times.\<close>

fun spec_select :: "'w net_ops \<Rightarrow> nat \<Rightarrow> int \<Rightarrow> 'w \<Rightarrow> (int \<times> 'w) option" where
  "spec_select N 0 fd w = None"
| "spec_select N (Suc k) fd w =
     (let ((r, e), w) = n_select N fd CONNECT_TIMEOUT w in
        if r < 0 \<and> e = EINTR then spec_select N k fd w else Some (r, w))"

definition select_ends :: "'w net_ops \<Rightarrow> bool" where
  "select_ends N \<longleftrightarrow> (\<forall>fd w. \<exists>k. spec_select N k fd w \<noteq> None)"

lemma env_calls [simp]:
  fixes m :: "'w qwmem"
  shows "sk_socket (socket_env_of N E) m = Some (fst (n_socket N (qworld m)), m\<lparr>qworld := snd (n_socket N (qworld m))\<rparr>)"
    "sk_close (socket_env_of N E) fd m = Some (m\<lparr>qworld := n_close N fd (qworld m)\<rparr>)"
    "sk_shutdown (socket_env_of N E) fd m = Some m"
    "sk_getaddrinfo (socket_env_of N E) h p m = Some (fst (n_lookup N h p (qworld m)), m\<lparr>qworld := snd (n_lookup N h p (qworld m))\<rparr>)"
    "sk_freeaddrinfo (socket_env_of N E) a m = Some (m\<lparr>qworld := n_release N a (qworld m)\<rparr>)"
    "sk_fcntl (socket_env_of N E) fd c x m = Some (fst (n_fcntl N fd c x (qworld m)), m\<lparr>qworld := snd (n_fcntl N fd c x (qworld m))\<rparr>)"
    "sk_connect (socket_env_of N E) fd a m = Some (fst (n_connect N fd a (qworld m)), m\<lparr>qworld := snd (n_connect N fd a (qworld m))\<rparr>)"
    "sk_select (socket_env_of N E) fd t m = Some (fst (n_select N fd t (qworld m)), m\<lparr>qworld := snd (n_select N fd t (qworld m))\<rparr>)"
    "sk_getsockopt (socket_env_of N E) fd l x m =
       Some (fst (n_getsockopt N fd l x (qworld m)), m\<lparr>qworld := snd (n_getsockopt N fd l x (qworld m))\<rparr>)"
    "sk_setsockopt (socket_env_of N E) fd l x v m =
       Some (fst (n_setsockopt N fd l x v (qworld m)), m\<lparr>qworld := snd (n_setsockopt N fd l x v (qworld m))\<rparr>)"
    "call_open_complete (socket_env_of N E) f ctx res m = Some (m\<lparr>qworld := n_opened N f ctx res (qworld m)\<rparr>)"
    "call_close_complete (socket_env_of N E) f ctx m = Some (m\<lparr>qworld := n_closed N f ctx (qworld m)\<rparr>)"
  by (simp_all add: socket_env_of_def split_def Let_def)

lemma select_loop_spec:
  fixes m :: "'w qwmem"
  shows "spec_select N k fd (qworld m) = Some (r, w) \<Longrightarrow> select_loop (socket_env_of N E) fd m = Some (r, m\<lparr>qworld := w\<rparr>)"
proof (induction k arbitrary: m)
  case (Suc k)
  obtain x e v where n: "n_select N fd CONNECT_TIMEOUT (qworld m) = ((x, e), v)" by (metis surj_pair)
  show ?case
  proof (cases "x < 0 \<and> e = EINTR")
    case True
    then have "select_loop (socket_env_of N E) fd (m\<lparr>qworld := v\<rparr>) = Some (r, m\<lparr>qworld := v, qworld := w\<rparr>)"
      using Suc.IH [of "m\<lparr>qworld := v\<rparr>"] Suc.prems n by simp
    then show ?thesis using n True by (subst select_loop.simps) simp
  next
    case False
    then have "r = x" "w = v" using Suc.prems n by (auto split: if_splits)
    then show ?thesis using n False by (subst select_loop.simps) auto
  qed
qed simp

lemma select_held:
  assumes "counts_sockets N held"
  shows "spec_select N k fd w = Some (r, w') \<Longrightarrow> held w' = held w"
proof (induction k arbitrary: w)
  case (Suc k)
  obtain x e v where n: "n_select N fd CONNECT_TIMEOUT w = ((x, e), v)" by (metis surj_pair)
  have v: "held v = held w" using assms n unfolding counts_sockets_def by (metis snd_conv)
  show ?case using Suc n v by (auto split: if_splits)
qed simp

section \<open>A connection\<close>

lemma upd_socket_at:
  assumes "socket_at m s i es" "pending_io_list (f i) = pending_io_list i"
  shows "\<exists>m'. upd_socket s f m = Some m' \<and> socket_at m' s (f i) es \<and> qmem.more m' = qmem.more m \<and> grants m' = grants m \<and> chars m' = chars m"
  using assms socket_at_state [OF assms] by (auto simp: upd_socket_def socket_at_def)

lemma close_socket_spec:
  fixes m :: "'w qwmem"
  assumes S: "socket_at m s i es"
  shows "\<exists>m'. close_socket (socket_env_of N E) s m = Some (FAILURE, m') \<and> socket_at m' s (i\<lparr>socket_fd := INVALID_SOCKET\<rparr>) es \<and>
    qworld m' = n_close N (socket_fd i) (qworld m)"
proof -
  let ?m = "m\<lparr>qworld := n_close N (socket_fd i) (qworld m), sockets := (sockets m)(s \<mapsto> i\<lparr>socket_fd := INVALID_SOCKET\<rparr>)\<rparr>"
  have i: "sockets m s = Some i" using S by (simp add: socket_at_def)
  have "socket_at ?m s (i\<lparr>socket_fd := INVALID_SOCKET\<rparr>) es"
    using socket_at_state [of "m\<lparr>qworld := n_close N (socket_fd i) (qworld m)\<rparr>" s i es "i\<lparr>socket_fd := INVALID_SOCKET\<rparr>"] S by simp
  then show ?thesis using i by (intro exI [of _ ?m]) (simp add: close_socket_def upd_socket_def)
qed

text \<open>The outcome of a step of the connection: the socket is still there, or it is closed.\<close>

definition connecting :: "('w \<Rightarrow> int set) \<Rightarrow> int set \<Rightarrow> addr \<Rightarrow> SOCKET_IO_INSTANCE \<Rightarrow> entry list \<Rightarrow> 'w qwmem \<Rightarrow> bool" where
  "connecting held H s i es m \<longleftrightarrow> socket_at m s i es \<and> held (qworld m) = insert (socket_fd i) H \<and> socket_fd i \<notin> H"

definition disconnected :: "('w \<Rightarrow> int set) \<Rightarrow> int set \<Rightarrow> addr \<Rightarrow> SOCKET_IO_INSTANCE \<Rightarrow> entry list \<Rightarrow> 'w qwmem \<Rightarrow> bool" where
  "disconnected held H s i es m \<longleftrightarrow> socket_at m s (i\<lparr>socket_fd := INVALID_SOCKET\<rparr>) es \<and> held (qworld m) = H"

lemma connecting_world:
  assumes "connecting held H s i es m" "held w = held (qworld m)"
  shows "connecting held H s i es (m\<lparr>qworld := w\<rparr>)"
  using assms by (simp add: connecting_def)

lemma close_connecting:
  fixes m :: "'w qwmem"
  assumes C: "counts_sockets N held" and S: "connecting held H s i es m"
  shows "\<exists>m'. close_socket (socket_env_of N E) s m = Some (FAILURE, m') \<and> disconnected held H s i es m'"
proof -
  have S': "socket_at m s i es" and h: "held (qworld m) = insert (socket_fd i) H" "socket_fd i \<notin> H"
    using S by (simp_all add: connecting_def)
  have "held (n_close N (socket_fd i) (qworld m)) = H" using C h by (auto simp: counts_sockets_def)
  then show ?thesis using close_socket_spec [OF S', of N E] by (auto simp: disconnected_def)
qed

lemma wait_connected_spec:
  fixes m :: "'w qwmem"
  assumes C: "counts_sockets N held" and ends: "select_ends N" and S: "connecting held H s i es m"
  shows "ok (wait_connected (socket_env_of N E) s m) (\<lambda>(c, m'). if c then connecting held H s i es m' else disconnected held H s i es m')"
proof -
  have i: "sockets m s = Some i" using S by (simp add: connecting_def socket_at_def)
  obtain k r w where sel: "spec_select N k (socket_fd i) (qworld m) = Some (r, w)"
    using ends unfolding select_ends_def by (metis not_Some_eq surj_pair)
  have S1: "connecting held H s i es (m\<lparr>qworld := w\<rparr>)" by (rule connecting_world [OF S select_held [OF C sel]])
  obtain err so v where g: "n_getsockopt N (socket_fd i) SOL_SOCKET SO_ERROR w = ((err, so), v)" by (metis surj_pair)
  have "held v = held w" using C g unfolding counts_sockets_def by (metis snd_conv)
  then have S2: "connecting held H s i es (m\<lparr>qworld := v\<rparr>)" using connecting_world [OF S1, of v] by simp
  show ?thesis
    using i select_loop_spec [OF sel, of E] g close_connecting [OF C S1, of E] close_connecting [OF C S2, of E] S2
    by (auto simp: wait_connected_def)
qed

lemma connect_socket_spec:
  fixes m :: "'w qwmem"
  assumes C: "counts_sockets N held" and ends: "select_ends N" and S: "connecting held H s i es m"
  shows "ok (connect_socket (socket_env_of N E) s a on_bytes on_error m) (\<lambda>(r, m').
    (r = 0 \<and> connecting held H s (i\<lparr>on_bytes_received := fst on_bytes, on_bytes_received_context := snd on_bytes,
       on_io_error := fst on_error, on_io_error_context := snd on_error, io_state := IO_STATE_OPEN\<rparr>) es m') \<or>
    (r = FAILURE \<and> disconnected held H s i es m'))"
proof -
  let ?env = "socket_env_of N E" and ?open = "i\<lparr>on_bytes_received := fst on_bytes, on_bytes_received_context := snd on_bytes,
       on_io_error := fst on_error, on_io_error_context := snd on_error, io_state := IO_STATE_OPEN\<rparr>"
  have i: "sockets m s = Some i" using S by (simp add: connecting_def socket_at_def)
  have opened: "ok (socket_opened s on_bytes on_error m') (\<lambda>(r, m''). r = 0 \<and> connecting held H s ?open es m'')"
    if "connecting held H s i es m'" for m' :: "'w qwmem"
  proof -
    have S': "socket_at m' s i es" using that by (simp add: connecting_def)
    have "socket_at (m'\<lparr>sockets := (sockets m')(s \<mapsto> ?open)\<rparr>) s ?open es" by (rule socket_at_state [OF S']) simp
    then show ?thesis using that S' by (simp add: socket_opened_def upd_socket_def connecting_def socket_at_def)
  qed
  obtain flags w1 where f1: "n_fcntl N (socket_fd i) F_GETFL 0 (qworld m) = (flags, w1)" by (metis surj_pair)
  obtain x w2 where f2: "n_fcntl N (socket_fd i) F_SETFL (flags OR O_NONBLOCK) w1 = (x, w2)" by (metis surj_pair)
  obtain err e w3 where f3: "n_connect N (socket_fd i) a w2 = ((err, e), w3)" by (metis surj_pair)
  have h: "held w1 = held (qworld m)" "held w2 = held w1" "held w3 = held w2"
    using C f1 f2 f3 unfolding counts_sockets_def by (metis snd_conv)+
  have S1: "connecting held H s i es (m\<lparr>qworld := w1\<rparr>)" by (rule connecting_world [OF S h(1)])
  have S2: "connecting held H s i es (m\<lparr>qworld := w2\<rparr>)" using connecting_world [OF S, of w2] h by simp
  have S3: "connecting held H s i es (m\<lparr>qworld := w3\<rparr>)" using connecting_world [OF S, of w3] h by simp
  consider "flags = - 1" | "flags \<noteq> - 1" "x = - 1" | "flags \<noteq> - 1" "x \<noteq> - 1" "err \<noteq> 0" "e \<noteq> EINPROGRESS"
    | "flags \<noteq> - 1" "x \<noteq> - 1" "err \<noteq> 0" "e = EINPROGRESS" | "flags \<noteq> - 1" "x \<noteq> - 1" "err = 0" by blast
  then show ?thesis
  proof cases
    case 1
    then show ?thesis using i f1 close_connecting [OF C S1, of E] by (auto simp: connect_socket_def)
  next
    case 2
    then show ?thesis using i f1 f2 close_connecting [OF C S2, of E] by (auto simp: connect_socket_def)
  next
    case 3
    then show ?thesis using i f1 f2 f3 close_connecting [OF C S3, of E] by (auto simp: connect_socket_def)
  next
    case 4
    obtain c m' where w: "wait_connected ?env s (m\<lparr>qworld := w3\<rparr>) = Some (c, m')"
      "if c then connecting held H s i es m' else disconnected held H s i es m'"
      using wait_connected_spec [OF C ends S3, of E] by (auto simp: ok_iff)
    have run: "connect_socket ?env s a on_bytes on_error m = (if c then socket_opened s on_bytes on_error m' else Some (FAILURE, m'))"
      using i f1 f2 f3 4 w(1) by (simp add: connect_socket_def)
    show ?thesis
    proof (cases c)
      case True
      then have "connecting held H s i es m'" using w(2) by simp
      from opened [OF this] show ?thesis using run True by (auto simp: ok_iff)
    next
      case False
      then show ?thesis using run w(2) by simp
    qed
  next
    case 5
    then have "connect_socket ?env s a on_bytes on_error m = socket_opened s on_bytes on_error (m\<lparr>qworld := w3\<rparr>)"
      using i f1 f2 f3 by (simp add: connect_socket_def)
    then show ?thesis using opened [OF S3] by (auto simp: ok_iff)
  qed
qed

lemma socketio_open_spec:
  fixes m :: "'w qwmem"
  assumes C: "counts_sockets N held" and ends: "select_ends N" and S: "socket_at m s i es"
    and i: "io_state i = IO_STATE_CLOSED" "socket_fd i = INVALID_SOCKET"
    and host: "\<And>a. hostname i = Some a \<Longrightarrow> c_string (Chars a 0) m \<noteq> None"
  shows "ok (socketio_open (socket_env_of N E) (Some s) (Some f, ctx) on_bytes on_error m) (\<lambda>(r, m'). \<exists>j v. socket_at m' s j es \<and>
    qworld m' = n_opened N f ctx (if r = 0 then IO_OPEN_OK else IO_OPEN_ERROR) v \<and>
    (if r = 0 then io_state j = IO_STATE_OPEN \<and> 0 \<le> socket_fd j \<and> socket_fd j \<notin> held (qworld m) \<and>
       held (qworld m') = insert (socket_fd j) (held (qworld m)) \<and> (on_bytes_received j, on_bytes_received_context j) = on_bytes \<and>
       (on_io_error j, on_io_error_context j) = on_error
     else r = FAILURE \<and> io_state j = IO_STATE_CLOSED \<and> socket_fd j < 0 \<and> held (qworld m') = held (qworld m)))"
proof -
  let ?env = "socket_env_of N E" and ?H = "held (qworld m)"
  have s: "sockets m s = Some i" using S by (simp add: socket_at_def)
  have op: "held (n_opened N f ctx r w) = held w" for r w using C by (simp add: counts_sockets_def)
  obtain fd w1 where f1: "n_socket N (qworld m) = (fd, w1)" by (metis surj_pair)
  let ?i = "i\<lparr>socket_fd := fd\<rparr>"
  let ?m1 = "m\<lparr>qworld := w1, sockets := (sockets m)(s \<mapsto> ?i)\<rparr>"
  have S1: "socket_at ?m1 s ?i es" using socket_at_state [of "m\<lparr>qworld := w1\<rparr>" s i es ?i] S by simp
  have h1: "if fd < 0 then held w1 = ?H else fd \<notin> ?H \<and> held w1 = insert fd ?H"
    using C f1 unfolding counts_sockets_def by (metis fst_conv snd_conv)
  show ?thesis
  proof (cases "fd < 0")
    case True
    have run: "socketio_open ?env (Some s) (Some f, ctx) on_bytes on_error m =
        Some (FAILURE, ?m1\<lparr>qworld := n_opened N f ctx IO_OPEN_ERROR w1\<rparr>)"
      using True s i f1 by (simp add: socketio_open_def SOCKET_SUCCESS_def FAILURE_def upd_socket_def)
    have S2: "socket_at (?m1\<lparr>qworld := n_opened N f ctx IO_OPEN_ERROR w1\<rparr>) s ?i es" using S1 by (simp only: socket_at_world)
    show ?thesis
      unfolding run ok_Some prod.case
      by (rule exI [of _ ?i], rule exI [of _ w1]) (use S2 True h1 op i(1) in \<open>simp add: FAILURE_def\<close>)
  next
    case False
    let ?port = "fmt_nat (unat (of_int (port i) :: u32))"
    have K1: "connecting held ?H s ?i es ?m1" using S1 h1 False by (simp add: connecting_def)
    obtain h where h: "(case name_ptr (hostname i) of None \<Rightarrow> Some None | Some p \<Rightarrow> map_option Some (c_string p ?m1)) = Some h"
    proof (cases "hostname i")
      case (Some a)
      then obtain n where "c_string (Chars a 0) m = Some n" using host by auto
      then have "c_string (Chars a 0) ?m1 = Some n" by (simp add: c_string_def cong: option.case_cong)
      then show ?thesis using that Some by (simp add: name_ptr_def)
    qed (use that in \<open>simp add: name_ptr_def\<close>)
    obtain err a w2 where f2: "n_lookup N h ?port w1 = ((err, a), w2)" by (metis surj_pair)
    have "held w2 = held w1" using C f2 unfolding counts_sockets_def by (metis snd_conv)
    then have K2: "connecting held ?H s ?i es (?m1\<lparr>qworld := w2\<rparr>)" using connecting_world [OF K1, of w2] by simp
    show ?thesis
    proof (cases "err = 0")
      case True
      obtain r m2 where c: "connect_socket ?env s a on_bytes on_error (?m1\<lparr>qworld := w2\<rparr>) = Some (r, m2)"
        and R: "(r = 0 \<and> connecting held ?H s (?i\<lparr>on_bytes_received := fst on_bytes, on_bytes_received_context := snd on_bytes,
            on_io_error := fst on_error, on_io_error_context := snd on_error, io_state := IO_STATE_OPEN\<rparr>) es m2) \<or>
          (r = FAILURE \<and> disconnected held ?H s ?i es m2)"
        using connect_socket_spec [OF C ends K2, of E a on_bytes on_error] by (auto simp: ok_iff)
      have rel: "held (n_release N a (qworld m2)) = held (qworld m2)" using C by (simp add: counts_sockets_def)
      let ?v = "n_release N a (qworld m2)"
      have run: "socketio_open ?env (Some s) (Some f, ctx) on_bytes on_error m =
          Some (r, m2\<lparr>qworld := n_opened N f ctx (if r = 0 then IO_OPEN_OK else IO_OPEN_ERROR) ?v\<rparr>)"
        using s i f1 f2 h False True c by (simp add: socketio_open_def SOCKET_SUCCESS_def upd_socket_def cong: option.case_cong)
      show ?thesis
      proof (cases "r = 0")
        case True
        let ?j = "?i\<lparr>on_bytes_received := fst on_bytes, on_bytes_received_context := snd on_bytes,
            on_io_error := fst on_error, on_io_error_context := snd on_error, io_state := IO_STATE_OPEN\<rparr>"
        have "connecting held ?H s ?j es m2"
          using True R by (auto simp: FAILURE_def)
        then have K: "socket_at m2 s ?j es" "held (qworld m2) = insert fd ?H" "fd \<notin> ?H" by (simp_all add: connecting_def)
        show ?thesis
          unfolding run ok_Some prod.case
          by (rule exI [of _ ?j], rule exI [of _ ?v]) (use K True rel op False in simp)
      next
        case no: False
        then have K: "r = FAILURE" "socket_at m2 s (?i\<lparr>socket_fd := INVALID_SOCKET\<rparr>) es" "held (qworld m2) = ?H"
          using R by (auto simp: disconnected_def)
        show ?thesis
          unfolding run ok_Some prod.case
          by (rule exI [of _ "?i\<lparr>socket_fd := INVALID_SOCKET\<rparr>"], rule exI [of _ ?v])
            (use K no rel op i(1) in \<open>simp add: INVALID_SOCKET_def\<close>)
      qed
    next
      case no: False
      obtain m2 where c: "close_socket ?env s (?m1\<lparr>qworld := w2\<rparr>) = Some (FAILURE, m2)" "disconnected held ?H s ?i es m2"
        using close_connecting [OF C K2, of E] by auto
      have run: "socketio_open ?env (Some s) (Some f, ctx) on_bytes on_error m =
          Some (FAILURE, m2\<lparr>qworld := n_opened N f ctx IO_OPEN_ERROR (qworld m2)\<rparr>)"
        using s i f1 f2 h False no c(1) by (simp add: socketio_open_def SOCKET_SUCCESS_def upd_socket_def FAILURE_def cong: option.case_cong)
      have K: "socket_at m2 s (?i\<lparr>socket_fd := INVALID_SOCKET\<rparr>) es" "held (qworld m2) = ?H" using c(2) by (auto simp: disconnected_def)
      show ?thesis
        unfolding run ok_Some prod.case
        by (rule exI [of _ "?i\<lparr>socket_fd := INVALID_SOCKET\<rparr>"], rule exI [of _ "qworld m2"])
          (use K op i(1) in \<open>simp add: INVALID_SOCKET_def FAILURE_def\<close>)
    qed
  qed
qed

section \<open>Closing\<close>

lemma socketio_close_spec:
  fixes m :: "'w qwmem"
  assumes S: "socket_at m s i es" and i: "io_state i \<noteq> IO_STATE_CLOSED" "io_state i \<noteq> IO_STATE_CLOSING"
  shows "\<exists>m'. socketio_close (socket_env_of N E) (Some s) (Some f, ctx) m = Some (0, m') \<and>
    socket_at m' s (i\<lparr>socket_fd := INVALID_SOCKET, io_state := IO_STATE_CLOSED\<rparr>) es \<and>
    qworld m' = n_closed N f ctx (n_close N (socket_fd i) (qworld m)) \<and> chars m' = chars m"
proof -
  let ?i = "i\<lparr>socket_fd := INVALID_SOCKET, io_state := IO_STATE_CLOSED\<rparr>"
  let ?m = "m\<lparr>qworld := n_close N (socket_fd i) (qworld m), sockets := (sockets m)(s \<mapsto> ?i)\<rparr>"
  let ?m' = "?m\<lparr>qworld := n_closed N f ctx (n_close N (socket_fd i) (qworld m))\<rparr>"
  have s: "sockets m s = Some i" using S by (simp add: socket_at_def)
  have "socket_at ?m s ?i es"
    using socket_at_state [of "m\<lparr>qworld := n_close N (socket_fd i) (qworld m)\<rparr>" s i es ?i] S by simp
  then have S': "socket_at ?m' s ?i es" by (simp only: socket_at_world)
  have "socketio_close (socket_env_of N E) (Some s) (Some f, ctx) m = Some (0, ?m')"
    using s i by (simp add: socketio_close_def upd_socket_def)
  then show ?thesis using S' by (intro exI [of _ ?m'] conjI) simp_all
qed

section \<open>The address of the network interface\<close>

lemma toupper_zero [simp]: "toupper c = 0 \<longleftrightarrow> c = 0"
proof
  assume z: "toupper c = 0"
  show "c = 0"
  proof (cases "islower c")
    case True
    then have "c = 0x20" using z by (simp add: toupper_def)
    then show ?thesis using True by (simp add: islower_def)
  qed (use z in \<open>simp add: toupper_def\<close>)
qed (simp add: toupper_def islower_def)

lemma strtoup_loop_spec:
  fixes m :: "'z mem_scheme"
  assumes "0 \<notin> set s"
  shows "chars m a = Some (map Some (pre @ s) @ Some 0 # rest) \<Longrightarrow>
    strtoup_loop a (length pre) m = Some (m\<lparr>chars := (chars m)(a \<mapsto> map Some (pre @ map toupper s) @ Some 0 # rest)\<rparr>)"
  using assms
proof (induction s arbitrary: pre m)
  case Nil
  then have "(chars m)(a \<mapsto> map Some pre @ Some 0 # rest) = chars m" by (simp add: fun_upd_idem)
  then show ?case using Nil by (subst strtoup_loop.simps) (simp add: cread_def)
next
  case (Cons c s)
  let ?m = "m\<lparr>chars := (chars m)(a \<mapsto> map Some ((pre @ [toupper c]) @ s) @ Some 0 # rest)\<rparr>"
  have rd: "cread (Chars a (length pre)) 1 m = Some [Some c]" using Cons.prems by (simp add: cread_def)
  have c: "c \<noteq> 0" using Cons.prems by auto
  have step: "(if islower c then cwrite (a, length pre) [Some (toupper c)] m else Some m) = Some ?m"
  proof (cases "islower c")
    case True
    then show ?thesis using Cons.prems by (simp add: cwrite_def write_at_def)
  next
    case False
    then have "?m = m" using Cons.prems(1) by (simp add: toupper_def fun_upd_idem)
    then show ?thesis using False by simp
  qed
  have "strtoup_loop a (length pre) m = strtoup_loop a (length (pre @ [toupper c])) ?m"
    using rd c step by (subst strtoup_loop.simps) simp
  also have "\<dots> = Some (?m\<lparr>chars := (chars ?m)(a \<mapsto> map Some ((pre @ [toupper c]) @ map toupper s) @ Some 0 # rest)\<rparr>)"
    by (rule Cons.IH) (use Cons.prems in simp_all)
  finally show ?case by (simp add: fun_upd_def cong: if_cong)
qed

lemma set_mac_address:
  fixes m :: "'w qwmem"
  assumes S: "sockets m s = Some i" and name: "c_string p m = Some OPTION_NET_INT_MAC_ADDRESS" and val: "c_string (Chars v 0) m = Some n"
    and n: "n \<noteq> []" "length n < 2 ^ 32 - 1" and wf: "wf_mem m"
  shows "socketio_setoption (socket_env_of N E) (Some s) (Some p) (Some v) m =
    (if grants m (brk m) (Suc (length n))
     then Some (0, m\<lparr>brk := Suc (brk m), chars := (chars m)(brk m \<mapsto> cstr (map toupper n)),
            sockets := (sockets m)(s \<mapsto> i\<lparr>target_mac_address := Some (brk m)\<rparr>)\<rparr>)
     else Some (FAILURE, m\<lparr>brk := Suc (brk m), sockets := (sockets m)(s \<mapsto> i\<lparr>target_mac_address := None\<rparr>)\<rparr>))"
proof -
  let ?a = "brk m"
  have u: "unat (of_nat (length n) + 1 :: u32) = Suc (length n)"
    using n(2) unat_of_nat_u32 [of "Suc (length n)"] by (simp add: add.commute)
  have k: "(of_nat (length n) :: u32) \<noteq> 0" using n by (simp add: word_of_nat_eq_0_iff nat_dvd_not_less)
  have names: "OPTION_NET_INT_MAC_ADDRESS \<noteq> lit ''tcp_keepalive''" "OPTION_NET_INT_MAC_ADDRESS \<noteq> lit ''tcp_keepalive_time''"
    "OPTION_NET_INT_MAC_ADDRESS \<noteq> lit ''tcp_keepalive_interval''"
    by (simp_all add: OPTION_NET_INT_MAC_ADDRESS_def lit_def)
  have "v < ?a" using val wf by (auto simp: c_string_def wf_mem_def not_le [symmetric] split: option.splits)
  then have c: "c_string (Chars v 0) (m'\<lparr>chars := (chars m)(?a := x)\<rparr>) = Some n" for m' :: "'w qwmem" and x
    using val by (simp add: c_string_def)
  have z: "0 \<notin> set n" using c_string_bytes [OF val] by blast
  have up: "strtoup_loop ?a 0 (m'\<lparr>chars := (chars m)(?a \<mapsto> cstr n)\<rparr>) = Some (m'\<lparr>chars := (chars m)(?a \<mapsto> cstr (map toupper n))\<rparr>)" for m' :: "'w qwmem"
    using strtoup_loop_spec [OF z, of "m'\<lparr>chars := (chars m)(?a \<mapsto> cstr n)\<rparr>" ?a "[]" "[]"] by (simp add: cstr_def)
  have cpy: "strcpy (?a, 0) (Chars v 0) (m'\<lparr>chars := (chars m)(?a \<mapsto> replicate (Suc (length n)) None)\<rparr>) =
      Some (m'\<lparr>chars := (chars m)(?a \<mapsto> cstr n)\<rparr>)" for m' :: "'w qwmem"
    using c by (simp add: strcpy_def cwrite_def write_at_def fun_upd_def cong: if_cong)
  show ?thesis
  proof (cases "grants m ?a (Suc (length n))")
    case True
    have "socketio_setoption (socket_env_of N E) (Some s) (Some p) (Some v) m =
        do { m \<leftarrow> strcpy (?a, 0) (Chars v 0) (m\<lparr>brk := Suc ?a, chars := (chars m)(?a \<mapsto> replicate (Suc (length n)) None),
               sockets := (sockets m)(s \<mapsto> i\<lparr>target_mac_address := Some ?a\<rparr>)\<rparr>);
             m \<leftarrow> strtoup (Some ?a) m; Some (0, m) }"
      using True S name val u k names by (simp add: socketio_setoption_def name_ptr_def strlen_def cmalloc_def upd_socket_def)
    also have "m\<lparr>brk := Suc ?a, chars := (chars m)(?a \<mapsto> replicate (Suc (length n)) None),
          sockets := (sockets m)(s \<mapsto> i\<lparr>target_mac_address := Some ?a\<rparr>)\<rparr> =
        m\<lparr>brk := Suc ?a, sockets := (sockets m)(s \<mapsto> i\<lparr>target_mac_address := Some ?a\<rparr>),
          chars := (chars m)(?a \<mapsto> replicate (Suc (length n)) None)\<rparr>" by simp
    finally show ?thesis using True cpy up by (simp add: strtoup_def)
  next
    case False
    then show ?thesis
      using S name val u k names by (simp add: socketio_setoption_def name_ptr_def strlen_def cmalloc_def upd_socket_def)
  qed
qed

end
