(* ===== verification/Socketio_Properties.thy ===== *)
theory Socketio_Properties
  imports Socketio_Open
begin

text \<open>
  The properties of the socket transport, with their witnesses on a heap with one socket and a network
  that follows a script.
\<close>

section \<open>A network and a heap\<close>

text \<open>
  The network takes as many bytes as the script says, and everything after its end; an entry that is missing
  is \<open>EAGAIN\<close>.  It gives out one socket after the other.
\<close>

record net_world =
  script :: "nat option list"
  w_taken :: "mbyte list"
  w_finished :: "(nat \<times> ptr) list"
  w_held :: "int set"
  w_next :: int

definition scripted :: "net_world net_ops" where
  "scripted = \<lparr>
     n_send = (\<lambda>fd xs w. case script w of
         [] \<Rightarrow> ((int (length xs), 0), w\<lparr>w_taken := w_taken w @ xs\<rparr>)
       | Some k # ks \<Rightarrow> ((int (min k (length xs)), 0), w\<lparr>script := ks, w_taken := w_taken w @ take k xs\<rparr>)
       | None # ks \<Rightarrow> ((- 1, EAGAIN), w\<lparr>script := ks\<rparr>)),
     n_recv = (\<lambda>fd w. ((- 1, EAGAIN, []), w)),
     n_socket = (\<lambda>w. if w_next w < 0 \<or> w_next w \<in> w_held w then (- 1, w)
       else (w_next w, w\<lparr>w_held := insert (w_next w) (w_held w), w_next := w_next w + 1\<rparr>)),
     n_close = (\<lambda>fd w. w\<lparr>w_held := w_held w - {fd}\<rparr>),
     n_lookup = (\<lambda>h p w. ((0, Some 99), w)), n_release = (\<lambda>a w. w), n_fcntl = (\<lambda>fd c x w. (0, w)),
     n_connect = (\<lambda>fd a w. ((- 1, EINPROGRESS), w)), n_select = (\<lambda>fd t w. ((1, 0), w)),
     n_getsockopt = (\<lambda>fd l x w. ((0, 0), w)), n_setsockopt = (\<lambda>fd l x v w. ((0, 0), w)),
     n_opened = (\<lambda>f c r w. w), n_closed = (\<lambda>f c w. w),
     n_sent = (\<lambda>f c w. w\<lparr>w_finished := w_finished w @ [(f, c)]\<rparr>),
     n_received = (\<lambda>f c bs w. w), n_error = (\<lambda>f c w. w)\<rparr>"


lemma scripted_contract: "net_contract scripted" "counts_sockets scripted w_held" "select_ends scripted"
proof -
  show "net_contract scripted" by (simp add: net_contract_def scripted_def split: list.splits option.splits)
  show "counts_sockets scripted w_held" by (auto simp: counts_sockets_def scripted_def)
  have "spec_select scripted 1 fd w \<noteq> None" for fd w by (simp add: scripted_def)
  then show "select_ends scripted" unfolding select_ends_def by blast
qed


definition no_env :: "net_world qwmem socket_env" where
  "no_env = \<lparr>clone_option = \<lambda>_ _ _ _. None, destroy_option = \<lambda>_ _ _ _. None, set_option = \<lambda>_ _ _ _ _. None, sk_socket = \<lambda>_. None,
     sk_close = \<lambda>_ _. None, sk_shutdown = \<lambda>_ _. None, sk_send = \<lambda>_ _ _. None, sk_recv = \<lambda>_ _ _. None, sk_getaddrinfo = \<lambda>_ _ _. None,
     sk_freeaddrinfo = \<lambda>_ _. None, sk_fcntl = \<lambda>_ _ _ _. None, sk_connect = \<lambda>_ _ _. None, sk_select = \<lambda>_ _ _. None,
     sk_getsockopt = \<lambda>_ _ _ _. None, sk_setsockopt = \<lambda>_ _ _ _ _. None, call_open_complete = \<lambda>_ _ _ _. None,
     call_close_complete = \<lambda>_ _ _. None, call_send_complete = \<lambda>_ _ _ _. None, call_bytes_received = \<lambda>_ _ _ _ _. None,
     call_io_error = \<lambda>_ _ _. None\<rparr>"

definition net_start :: "nat option list \<Rightarrow> net_world" where
  "net_start ks = \<lparr>script = ks, w_taken = [], w_finished = [], w_held = {7}, w_next = 8\<rparr>"

definition sample_socket :: SOCKET_IO_INSTANCE where
  "sample_socket = \<lparr>socket_fd = 7, on_bytes_received = None, on_io_error = None, on_bytes_received_context = None,
     on_io_error_context = None, hostname = Some 5, port = 1883, target_mac_address = None, io_state = IO_STATE_OPEN,
     pending_io_list = Some 2\<rparr>"

definition socket_heap :: "SOCKET_IO_INSTANCE \<Rightarrow> nat option list \<Rightarrow> net_world qwmem" where
  "socket_heap i ks = \<lparr>grants = \<lambda>_ _. True, brk = 20, blocks = [1 \<mapsto> replicate 64 None, 10 \<mapsto> map Some [1, 2, 3]],
     chars = [5 \<mapsto> cstr [0x68], 6 \<mapsto> cstr [0x61, 0x3a]], buffers = Map.empty, strs = Map.empty, codecs = Map.empty, messages = Map.empty,
     tick_counters = Map.empty, xios = Map.empty, list_items = Map.empty, lists = [2 \<mapsto> \<lparr>head = None, tail = None\<rparr>],
     vectors = Map.empty, handlers = Map.empty, sockets = [1 \<mapsto> i], pendings = Map.empty, qworld = net_start ks\<rparr>"

lemma socket_heap_at: "pending_io_list i = Some 2 \<Longrightarrow> socket_at (socket_heap i ks) 1 i []"
proof -
  assume i: "pending_io_list i = Some 2"
  have "list_inv (socket_heap i ks) [2 \<mapsto> []]"
    by (auto simp: list_inv_def list_at_def apart_def socket_heap_def split: if_splits)
  then have "entries_at (socket_heap i ks) 2 []"
    unfolding entries_at_def by (intro conjI exI [of _ "[2 \<mapsto> []]"]) simp_all
  then show ?thesis using i by (simp add: socket_at_def socket_heap_def wf_mem_def)
qed

lemma socket_heap_simps [simp]:
  "roomy (socket_heap i ks)" "qworld (socket_heap i ks) = net_start ks" "wf_mem (socket_heap i ks)"
  "sockets (socket_heap i ks) 1 = Some i" "chars (socket_heap i ks) = [5 \<mapsto> cstr [0x68], 6 \<mapsto> cstr [0x61, 0x3a]]"
  by (simp_all add: roomy_def socket_heap_def wf_mem_def)

lemma sample_data: "read_bytes (10, 0) (length (map Some [1, 2, 3 :: u8])) (socket_heap i ks) = Some (map Some [1, 2, 3])"
  by (simp add: socket_heap_def read_bytes_def)

lemma sample_at: "socket_at (socket_heap sample_socket ks) 1 sample_socket []"
  by (rule socket_heap_at) (simp add: sample_socket_def)

lemma sample_open: "io_state sample_socket = IO_STATE_OPEN" "hostname sample_socket = Some 5"
  by (simp_all add: sample_socket_def)

text \<open>The heap after two of three bytes were taken.\<close>

lemma one_pending:
  "\<exists>m es. kept (socket_heap sample_socket [Some 2]) m \<and> socket_at m 1 sample_socket es \<and>
    data_of es = [(map Some [3], Some 4, Some 9)] \<and> qworld m = (net_start [])\<lparr>w_taken := map Some [1, 2]\<rparr>"
proof -
  obtain r m es where m: "kept (socket_heap sample_socket [Some 2]) m" "socket_at m 1 sample_socket es"
      "(r, data_of es, qworld m) = spec_socket_send scripted sample_socket [] (map Some [1, 2, 3]) (Some 4, Some 9) (net_start [Some 2])"
    using socketio_send_spec [OF sample_at scripted_contract(1) _ sample_data, of "[Some 2]" no_env "(Some 4, Some 9)"]
    by (auto simp: ok_iff)
  moreover have "data_of es = [(map Some [3], Some 4, Some 9)]" "qworld m = (net_start [])\<lparr>w_taken := map Some [1, 2]\<rparr>"
    using m(3) by (simp_all add: spec_socket_send_def scripted_def net_start_def sample_socket_def)
  ultimately show ?thesis by blast
qed

section \<open>Sending\<close>

text \<open>
  C29: \<open>socketio_send\<close> implements the queue in front of the network: data goes behind what is pending, or to the
  network at once, and what the network does not take is pending with its callback; the callback is
  called when all is taken.  It does not write what was in the memory.
\<close>

theorem socket_send:
  fixes m :: "'w qwmem"
  assumes "socket_at m s i es" "net_contract N" "roomy m" "read_bytes q (length xs) m = Some xs" "xs \<noteq> []" "length xs < 2 ^ 32 - 1"
  shows "ok (socketio_send (socket_env_of N E) (Some s) (Some q) (of_nat (length xs)) cb m) (\<lambda>(r, m'). kept m m' \<and>
    (\<exists>es'. (r, data_of es', qworld m') = spec_socket_send N i (data_of es) xs cb (qworld m) \<and> socket_at m' s i es'))"
  by (rule socketio_send_spec [OF assms])

theorem socket_send_witness:
  "ok (socketio_send (socket_env_of scripted no_env) (Some 1) (Some (10, 0)) 3 (Some 4, Some 9) (socket_heap sample_socket [Some 2])) (\<lambda>(r, m').
    r = 0 \<and> w_taken (qworld m') = map Some [1, 2] \<and> (\<exists>es. data_of es = [(map Some [3], Some 4, Some 9)] \<and> socket_at m' 1 sample_socket es))"
proof -
  have S: "socket_at (socket_heap sample_socket [Some 2]) 1 sample_socket []" by (rule socket_heap_at) (simp add: sample_socket_def)
  have "ok (socketio_send (socket_env_of scripted no_env) (Some 1) (Some (10, 0)) (of_nat (length (map Some [1, 2, 3 :: u8]))) (Some 4, Some 9)
      (socket_heap sample_socket [Some 2])) (\<lambda>(r, m').
    r = 0 \<and> w_taken (qworld m') = map Some [1, 2] \<and> (\<exists>es. data_of es = [(map Some [3], Some 4, Some 9)] \<and> socket_at m' 1 sample_socket es))"
    by (rule ok_mono [OF socket_send [OF S scripted_contract(1) _ sample_data]])
      (auto simp: spec_socket_send_def sample_socket_def scripted_def net_start_def)
  then show ?thesis by simp
qed

text \<open>
  C28: when nothing is pending and the network answers \<open>EAGAIN\<close>, \<open>socketio_send\<close> reports success, but the data is neither
  sent nor pending, and its callback will never be called.
\<close>

theorem again_loses_data:
  fixes m :: "'w qwmem"
  assumes "socket_at m s i []" "net_contract N" "roomy m" "read_bytes q (length xs) m = Some xs" "xs \<noteq> []" "length xs < 2 ^ 32 - 1"
    and "io_state i = IO_STATE_OPEN" "n_send N (socket_fd i) xs (qworld m) = ((- 1, EAGAIN), w)"
  shows "ok (socketio_send (socket_env_of N E) (Some s) (Some q) (of_nat (length xs)) cb m) (\<lambda>(r, m').
    r = 0 \<and> socket_at m' s i [] \<and> qworld m' = w)"
  by (rule ok_mono [OF socketio_send_spec [OF assms(1-6)]]) (use assms(7,8) in \<open>auto simp: spec_socket_send_def\<close>)

theorem again_loses_data_witness:
  "ok (socketio_send (socket_env_of scripted no_env) (Some 1) (Some (10, 0)) 3 (Some 4, Some 9) (socket_heap sample_socket [None])) (\<lambda>(r, m').
    r = 0 \<and> socket_at m' 1 sample_socket [] \<and> qworld m' = net_start [])"
proof -
  have n: "n_send scripted (socket_fd sample_socket) (map Some [1, 2, 3]) (qworld (socket_heap sample_socket [None])) =
      ((- 1, EAGAIN), net_start [])" by (simp add: scripted_def net_start_def)
  show ?thesis
    using again_loses_data [OF sample_at scripted_contract(1) _ sample_data _ _ sample_open(1) n] by simp
qed





section \<open>Opening, closing, destroying\<close>

text \<open>
  C31: \<open>socketio_open\<close> of a closed socket keeps what it was given, or gives it back: it returns 0 with the state open, the
  callbacks set and one more socket held; or it fails with the state closed and every socket of the
  network closed again; and it tells the result to the callback.
\<close>

theorem socket_open:
  fixes m :: "'w qwmem"
  assumes "counts_sockets N held" "select_ends N" "socket_at m s i es" "io_state i = IO_STATE_CLOSED" "socket_fd i = INVALID_SOCKET"
    and "\<And>a. hostname i = Some a \<Longrightarrow> c_string (Chars a 0) m \<noteq> None"
  shows "ok (socketio_open (socket_env_of N E) (Some s) (Some f, ctx) on_bytes on_error m) (\<lambda>(r, m'). \<exists>j v. socket_at m' s j es \<and>
    qworld m' = n_opened N f ctx (if r = 0 then IO_OPEN_OK else IO_OPEN_ERROR) v \<and>
    (if r = 0 then io_state j = IO_STATE_OPEN \<and> 0 \<le> socket_fd j \<and> socket_fd j \<notin> held (qworld m) \<and>
       held (qworld m') = insert (socket_fd j) (held (qworld m)) \<and> (on_bytes_received j, on_bytes_received_context j) = on_bytes \<and>
       (on_io_error j, on_io_error_context j) = on_error
     else r = FAILURE \<and> io_state j = IO_STATE_CLOSED \<and> socket_fd j < 0 \<and> held (qworld m') = held (qworld m)))"
  by (rule socketio_open_spec [OF assms])

definition closed_socket :: SOCKET_IO_INSTANCE where
  "closed_socket = sample_socket\<lparr>socket_fd := INVALID_SOCKET, io_state := IO_STATE_CLOSED\<rparr>"

theorem socket_open_witness:
  "ok (socketio_open (socket_env_of scripted no_env) (Some 1) (Some 4, None) (Some 5, None) (Some 6, None) (socket_heap closed_socket []))
    (\<lambda>(r, m'). if r = 0 then \<exists>fd. fd \<noteq> 7 \<and> w_held (qworld m') = {fd, 7} else r = FAILURE \<and> w_held (qworld m') = {7})"
proof -
  have S: "socket_at (socket_heap closed_socket []) 1 closed_socket []"
    by (rule socket_heap_at) (simp add: closed_socket_def sample_socket_def)
  show ?thesis
    by (rule ok_mono [OF socket_open [OF scripted_contract(2,3) S]])
      (auto simp: closed_socket_def sample_socket_def c_string_def socket_heap_def net_start_def split: if_splits)
qed

text \<open>
  C32: \<open>socketio_close\<close> does not drop what is pending: when the socket is opened again, the data that was not sent on
  the old connection, maybe a part of a packet, is still first in the queue of the new one.
\<close>

theorem reopened_has_old_data:
  fixes m :: "'w qwmem"
  assumes "counts_sockets N held" "select_ends N" "socket_at m s i es" "io_state i = IO_STATE_OPEN"
    and "\<And>a. hostname i = Some a \<Longrightarrow> c_string (Chars a 0) m \<noteq> None"
  shows "ok (do { (_, m) \<leftarrow> socketio_close (socket_env_of N E) (Some s) (Some g, ctx') m;
                  socketio_open (socket_env_of N E) (Some s) (Some f, ctx) on_bytes on_error m })
    (\<lambda>(r, m'). r = 0 \<longrightarrow> (\<exists>j. io_state j = IO_STATE_OPEN \<and> socket_at m' s j es))"
proof -
  let ?i = "i\<lparr>socket_fd := INVALID_SOCKET, io_state := IO_STATE_CLOSED\<rparr>"
  obtain m1 where c: "socketio_close (socket_env_of N E) (Some s) (Some g, ctx') m = Some (0, m1)" and S: "socket_at m1 s ?i es"
    and ch: "chars m1 = chars m"
    using socketio_close_spec [OF assms(3), of N E g ctx'] assms(4) by auto
  have "c_string (Chars a 0) m1 = c_string (Chars a 0) m" for a using ch by (simp add: c_string_def)
  then have host: "c_string (Chars a 0) m1 \<noteq> None" if "hostname ?i = Some a" for a using assms(5) that by simp
  have "ok (socketio_open (socket_env_of N E) (Some s) (Some f, ctx) on_bytes on_error m1)
      (\<lambda>(r, m'). r = 0 \<longrightarrow> (\<exists>j. io_state j = IO_STATE_OPEN \<and> socket_at m' s j es))"
    by (rule ok_mono [OF socketio_open_spec [OF assms(1,2) S _ _ host]]) auto
  then show ?thesis using c by simp
qed

theorem reopened_has_old_data_witness:
  "\<exists>m es. data_of es = [(map Some [3], Some 4, Some 9)] \<and> socket_at m 1 sample_socket es \<and>
    ok (do { (_, m) \<leftarrow> socketio_close (socket_env_of scripted no_env) (Some 1) (Some 3, None) m;
             socketio_open (socket_env_of scripted no_env) (Some 1) (Some 4, None) (Some 5, None) (Some 6, None) m })
      (\<lambda>(r, m'). r = 0 \<longrightarrow> (\<exists>j. io_state j = IO_STATE_OPEN \<and> socket_at m' 1 j es))"
proof -
  obtain m es where m: "kept (socket_heap sample_socket [Some 2]) m" "socket_at m 1 sample_socket es"
      "data_of es = [(map Some [3], Some 4, Some 9)]"
    using one_pending by blast
  have "ok (do { (_, m) \<leftarrow> socketio_close (socket_env_of scripted no_env) (Some 1) (Some 3, None) m;
             socketio_open (socket_env_of scripted no_env) (Some 1) (Some 4, None) (Some 5, None) (Some 6, None) m })
      (\<lambda>(r, m'). r = 0 \<longrightarrow> (\<exists>j. io_state j = IO_STATE_OPEN \<and> socket_at m' 1 j es))"
    by (rule reopened_has_old_data [OF scripted_contract(2,3) m(2) sample_open(1)])
      (use m(1) sample_open(2) in \<open>simp add: kept_def c_string_def\<close>)
  then show ?thesis using m(2,3) by blast
qed

text \<open>
  C33: creating a socket and destroying it leaves the memory as it was, whatever is allocated.
\<close>

theorem socket_create_destroy:
  fixes m :: "'w qwmem"
  assumes "config_hostname config = Some p" "c_string p m = Some n" "length n < 2 ^ 32 - 1" "wf_mem m"
    and "\<And>a. brk m \<le> a \<Longrightarrow> sockets m a = None \<and> lists m a = None"
  shows "\<exists>b. socketio_create (Some config) m \<bind> (\<lambda>(r, m). socketio_destroy (socket_env_of N E) r m) = Some (m\<lparr>brk := b\<rparr>)"
  by (rule create_destroy [OF assms])

theorem socket_create_destroy_witness:
  "\<exists>b. socketio_create (Some \<lparr>config_hostname = Some (Literal [0x68]), config_port = 1883, accepted_socket = None\<rparr>) (socket_heap sample_socket []) \<bind>
    (\<lambda>(r, m). socketio_destroy (socket_env_of scripted no_env) r m) = Some (socket_heap sample_socket []\<lparr>brk := b\<rparr>)"
  by (rule socket_create_destroy [where n = "[0x68]"]) (auto simp: socket_heap_def wf_mem_def)

text \<open>
  \<open>socketio_destroy\<close> gives back the instance, its strings, its array, and all that is pending, and nothing else.
\<close>

theorem socket_destroy:
  fixes m :: "'w qwmem"
  assumes "socket_at m s i es" "owns_string m (hostname i)" "owns_string m (target_mac_address i)"
    "hostname i = None \<or> hostname i \<noteq> target_mac_address i"
  shows "ok (socketio_destroy (socket_env_of N E) (Some s) m) (\<lambda>m'. sockets m' = (sockets m)(s := None) \<and>
    blocks m' = blocks m |` (- insert s (e_array ` set es)) \<and> pendings m' = pendings m |` (- e_pending ` set es) \<and>
    chars m' = chars m |` (- {a. hostname i = Some a \<or> target_mac_address i = Some a}) \<and>
    qworld m' = closed_world N i (qworld m))"
  by (rule socketio_destroy_spec [OF assms])

theorem socket_destroy_witness:
  "ok (socketio_destroy (socket_env_of scripted no_env) (Some 1) (socket_heap sample_socket [])) (\<lambda>m'.
    sockets m' = Map.empty \<and> w_held (qworld m') = {})"
proof -
  have S: "socket_at (socket_heap sample_socket []) 1 sample_socket []" by (rule socket_heap_at) (simp add: sample_socket_def)
  show ?thesis
    by (rule ok_mono [OF socket_destroy [OF S]])
      (auto simp: sample_socket_def owns_string_def socket_heap_def closed_world_def INVALID_SOCKET_def scripted_def net_start_def fun_eq_iff)
qed

text \<open>
  the option for the address of the network interface sets a copy of it in upper case; the address that was set before is not
  given back.
\<close>

theorem mac_address_set:
  fixes m :: "'w qwmem"
  assumes "sockets m s = Some i" "c_string p m = Some OPTION_NET_INT_MAC_ADDRESS" "c_string (Chars v 0) m = Some n"
    "n \<noteq> []" "length n < 2 ^ 32 - 1" "wf_mem m"
  shows "socketio_setoption (socket_env_of N E) (Some s) (Some p) (Some v) m =
    (if grants m (brk m) (Suc (length n))
     then Some (0, m\<lparr>brk := Suc (brk m), chars := (chars m)(brk m \<mapsto> cstr (map toupper n)),
            sockets := (sockets m)(s \<mapsto> i\<lparr>target_mac_address := Some (brk m)\<rparr>)\<rparr>)
     else Some (FAILURE, m\<lparr>brk := Suc (brk m), sockets := (sockets m)(s \<mapsto> i\<lparr>target_mac_address := None\<rparr>)\<rparr>))"
  by (rule set_mac_address [OF assms])

theorem mac_address_set_witness:
  "ok (socketio_setoption (socket_env_of scripted no_env) (Some 1) (Some (Literal OPTION_NET_INT_MAC_ADDRESS)) (Some 6) (socket_heap sample_socket []))
    (\<lambda>(r, m'). r = 0 \<and> chars m' 20 = Some (cstr [0x41, 0x3a]) \<and> chars m' 6 \<noteq> None)"
proof -
  have n: "c_string (Literal OPTION_NET_INT_MAC_ADDRESS) (socket_heap sample_socket []) = Some OPTION_NET_INT_MAC_ADDRESS"
    by (simp add: OPTION_NET_INT_MAC_ADDRESS_def lit_def)
  have v: "c_string (Chars 6 0) (socket_heap sample_socket []) = Some [0x61, 0x3a]" by (simp add: c_string_def socket_heap_def)
  show ?thesis
    using mac_address_set [OF socket_heap_simps(4) n v, of scripted no_env]
    by (simp add: socket_heap_def wf_mem_def toupper_def islower_def)
qed

end
