(* ===== verification/Tlsio.thy ===== *)
theory Tlsio
  imports Socketio_Io
begin

text \<open>
  The TLS transport of \<^verbatim>\<open>uMQTT/ports/src/tlsio_mbedtls.c\<close>: an instance puts mbedTLS between the program and
  another io.  mbedTLS reads and writes through \<^verbatim>\<open>on_io_recv\<close> and \<^verbatim>\<open>on_io_send\<close>; what the other io delivers is
  kept in the array \<^verbatim>\<open>socket_io_read_bytes\<close> until mbedTLS asks for it.

  mbedTLS, the other io, the random numbers of the C library and the callbacks of the user are the record
  \<open>tls_env\<close>, over the whole memory; the contexts of mbedTLS that are inside an instance are
  identified by its address.  The calls of mbedTLS whose results the code does not use are the datatype
  \<open>mbedtls_call\<close>.
\<close>

section \<open>Structs\<close>

datatype TLSIO_STATE_ENUM =
  TLSIO_STATE_NOT_OPEN | TLSIO_STATE_OPENING_UNDERLYING_IO | TLSIO_STATE_IN_HANDSHAKE | TLSIO_STATE_OPEN |
  TLSIO_STATE_CLOSING | TLSIO_STATE_ERROR

record TLS_IO_INSTANCE =
  socket_io :: ptr
  tls_on_bytes_received :: fptr
  tls_on_io_open_complete :: fptr
  tls_on_io_close_complete :: fptr
  tls_on_io_error :: fptr
  tls_on_bytes_received_context :: ptr
  tls_on_io_open_complete_context :: ptr
  tls_on_io_close_complete_context :: ptr
  tls_on_io_error_context :: ptr
  tlsio_state :: TLSIO_STATE_ENUM
  socket_io_read_bytes :: ptr
  socket_io_read_byte_count :: u32
  tls_on_send_complete :: fptr
  tls_on_send_complete_callback_context :: ptr
  trusted_certificates :: ptr
  client_certificates :: ptr
  client_private_key :: ptr
  trusted_certificates_size :: u32
  client_certificates_size :: u32
  client_private_key_size :: u32

record TLSIO_CERT_INSTANCE =
  certs :: ptr
  certsSize :: u32

record TLSIO_KEY_INSTANCE =
  key :: ptr
  keySize :: u32

record TLSIO_CONFIG =
  tls_hostname :: "char_ptr option"
  tls_port :: int
  underlying_io_interface :: "IO_INTERFACE_DESCRIPTION option"
  underlying_io_parameters :: ptr

record hmem = qmem +
  tlss :: "addr \<rightharpoonup> TLS_IO_INSTANCE"
  cert_instances :: "addr \<rightharpoonup> TLSIO_CERT_INSTANCE"
  key_instances :: "addr \<rightharpoonup> TLSIO_KEY_INSTANCE"
  socket_configs :: "addr \<rightharpoonup> SOCKETIO_CONFIG"

datatype certificate = trusted_certificates_parsed | client_certificates_parsed

datatype mbedtls_call =
  threading_set_alt
| entropy_init | ctr_drbg_init | ssl_init | ssl_session_init | ssl_config_init | x509_crt_init certificate | pk_init
| entropy_add_source nat | ctr_drbg_seed cstring
| ssl_config_defaults | ssl_conf_rng | ssl_conf_authmode int | ssl_conf_min_version int int
| ssl_set_bio ptr | ssl_set_hostname "char_ptr option" | ssl_set_session
| ssl_conf_dbg | debug_set_threshold int | ssl_setup
| ssl_conf_ca_chain | ssl_conf_own_cert
| ssl_close_notify | ssl_free | ssl_config_free | x509_crt_free certificate | pk_free | ctr_drbg_free | entropy_free

record 'm tls_env = "'m io_env" +
  sizeof_TLS_IO_INSTANCE :: nat
  mbedtls :: "addr \<Rightarrow> mbedtls_call \<Rightarrow> 'm \<Rightarrow> 'm option"
  mbedtls_ssl_handshake :: "addr \<Rightarrow> 'm \<Rightarrow> (int \<times> 'm) option"
  mbedtls_ssl_read :: "addr \<Rightarrow> bptr \<Rightarrow> u32 \<Rightarrow> 'm \<Rightarrow> (int \<times> 'm) option"
  mbedtls_ssl_write :: "addr \<Rightarrow> bptr option \<Rightarrow> u32 \<Rightarrow> 'm \<Rightarrow> (int \<times> 'm) option"
  mbedtls_x509_crt_parse :: "addr \<Rightarrow> certificate \<Rightarrow> ptr \<Rightarrow> u32 \<Rightarrow> 'm \<Rightarrow> (int \<times> 'm) option"
  mbedtls_pk_parse_key :: "addr \<Rightarrow> ptr \<Rightarrow> u32 \<Rightarrow> 'm \<Rightarrow> (int \<times> 'm) option"
  srand_time :: "'m \<Rightarrow> 'm option"
  rand :: "'m \<Rightarrow> (int \<times> 'm) option"
  call_tls_opened :: "nat \<Rightarrow> ptr \<Rightarrow> IO_OPEN_RESULT \<Rightarrow> 'm \<Rightarrow> 'm option"
  call_tls_closed :: "nat \<Rightarrow> ptr \<Rightarrow> 'm \<Rightarrow> 'm option"
  call_tls_received :: "nat \<Rightarrow> ptr \<Rightarrow> bptr option \<Rightarrow> u32 \<Rightarrow> 'm \<Rightarrow> 'm option"
  call_tls_error :: "nat \<Rightarrow> ptr \<Rightarrow> 'm \<Rightarrow> 'm option"

definition MBEDTLS_ERR_SSL_WANT_READ :: int where "MBEDTLS_ERR_SSL_WANT_READ = - 0x6900"
definition MBEDTLS_ERR_SSL_WANT_WRITE :: int where "MBEDTLS_ERR_SSL_WANT_WRITE = - 0x6880"

definition upd_tls :: "addr \<Rightarrow> (TLS_IO_INSTANCE \<Rightarrow> TLS_IO_INSTANCE) \<Rightarrow> 'z hmem_scheme \<Rightarrow> 'z hmem_scheme option" where
  "upd_tls t f m = do { i \<leftarrow> tlss m t; Some (m\<lparr>tlss := (tlss m)(t \<mapsto> f i)\<rparr>) }"

definition set_state :: "addr \<Rightarrow> TLSIO_STATE_ENUM \<Rightarrow> 'z hmem_scheme \<Rightarrow> 'z hmem_scheme option" where
  "set_state t s m = upd_tls t (\<lambda>i. i\<lparr>tlsio_state := s\<rparr>) m"

definition free_tls :: "addr \<Rightarrow> 'z hmem_scheme \<Rightarrow> 'z hmem_scheme option" where
  "free_tls t m = do { _ \<leftarrow> tlss m t; Some (m\<lparr>tlss := (tlss m)(t := None)\<rparr>) }"

text \<open>A local array, which has an address as long as its function runs.\<close>

definition local_array :: "nat \<Rightarrow> 'z mem_scheme \<Rightarrow> addr \<times> 'z mem_scheme" where
  "local_array n m = (brk m, m\<lparr>brk := Suc (brk m), blocks := (blocks m)(brk m \<mapsto> replicate n None)\<rparr>)"

definition end_local :: "addr \<Rightarrow> 'z mem_scheme \<Rightarrow> 'z mem_scheme" where
  "end_local b m = m\<lparr>blocks := (blocks m)(b := None)\<rparr>"

section \<open>Callbacks\<close>

definition tls_indicate_error :: "('z hmem_scheme, 'e) tls_env_scheme \<Rightarrow> addr \<Rightarrow> 'z hmem_scheme \<Rightarrow> 'z hmem_scheme option" where
  "tls_indicate_error env t m = do {
     i \<leftarrow> tlss m t;
     case tls_on_io_error i of
       None \<Rightarrow> Some m
     | Some f \<Rightarrow> call_tls_error env f (tls_on_io_error_context i) m }"

definition indicate_open_complete ::
  "('z hmem_scheme, 'e) tls_env_scheme \<Rightarrow> addr \<Rightarrow> IO_OPEN_RESULT \<Rightarrow> 'z hmem_scheme \<Rightarrow> 'z hmem_scheme option" where
  "indicate_open_complete env t open_result m = do {
     i \<leftarrow> tlss m t;
     case tls_on_io_open_complete i of
       None \<Rightarrow> Some m
     | Some f \<Rightarrow> call_tls_opened env f (tls_on_io_open_complete_context i) open_result m }"

text \<open>The loop over \<open>mbedtls_ssl_read\<close>, into the local array \<open>b\<close> of 64 bytes.\<close>

partial_function (option) decode_loop ::
  "('z hmem_scheme, 'e) tls_env_scheme \<Rightarrow> addr \<Rightarrow> addr \<Rightarrow> 'z hmem_scheme \<Rightarrow> 'z hmem_scheme option" where
  "decode_loop env t b m = do {
     (rcv_bytes, m) \<leftarrow> mbedtls_ssl_read env t (b, 0) 64 m;
     if rcv_bytes > 0 then do {
       i \<leftarrow> tlss m t;
       m \<leftarrow> (case tls_on_bytes_received i of
               None \<Rightarrow> Some m
             | Some f \<Rightarrow> call_tls_received env f (tls_on_bytes_received_context i) (Some (b, 0)) (of_int rcv_bytes) m);
       decode_loop env t b m }
     else Some m }"

definition decode_ssl_received_bytes ::
  "('z hmem_scheme, 'e) tls_env_scheme \<Rightarrow> addr \<Rightarrow> 'z hmem_scheme \<Rightarrow> (int \<times> 'z hmem_scheme) option" where
  "decode_ssl_received_bytes env t m = do {
     let (buffer, m) = local_array 64 m;
     m \<leftarrow> decode_loop env t buffer m;
     Some (0, end_local buffer m) }"

partial_function (option) handshake_loop ::
  "('z hmem_scheme, 'e) tls_env_scheme \<Rightarrow> addr \<Rightarrow> 'z hmem_scheme \<Rightarrow> (int \<times> 'z hmem_scheme) option" where
  "handshake_loop env t m = do {
     (result, m) \<leftarrow> mbedtls_ssl_handshake env t m;
     if result = MBEDTLS_ERR_SSL_WANT_READ \<or> result = MBEDTLS_ERR_SSL_WANT_WRITE then handshake_loop env t m
     else Some (result, m) }"

text \<open>The io is closed, and the user is told that it could not be opened.\<close>

definition open_failed :: "('z hmem_scheme, 'e) tls_env_scheme \<Rightarrow> addr \<Rightarrow> 'z hmem_scheme \<Rightarrow> 'z hmem_scheme option" where
  "open_failed env t m = do {
     i \<leftarrow> tlss m t;
     (_, m) \<leftarrow> xio_close env (socket_io i) (None, None) m;
     m \<leftarrow> set_state t TLSIO_STATE_NOT_OPEN m;
     indicate_open_complete env t IO_OPEN_ERROR m }"

definition on_underlying_io_open_complete ::
  "('z hmem_scheme, 'e) tls_env_scheme \<Rightarrow> ptr \<Rightarrow> IO_OPEN_RESULT \<Rightarrow> 'z hmem_scheme \<Rightarrow> 'z hmem_scheme option" where
  "on_underlying_io_open_complete env context open_result m = do {
     t \<leftarrow> context;
     if open_result \<noteq> IO_OPEN_OK then open_failed env t m
     else do {
       m \<leftarrow> set_state t TLSIO_STATE_IN_HANDSHAKE m;
       (result, m) \<leftarrow> handshake_loop env t m;
       if result = 0 then do {
         m \<leftarrow> set_state t TLSIO_STATE_OPEN m;
         indicate_open_complete env t IO_OPEN_OK m }
       else open_failed env t m } }"

definition on_underlying_io_bytes_received ::
  "('z hmem_scheme, 'e) tls_env_scheme \<Rightarrow> ptr \<Rightarrow> bptr option \<Rightarrow> u32 \<Rightarrow> 'z hmem_scheme \<Rightarrow> 'z hmem_scheme option" where
  "on_underlying_io_bytes_received env context buf siz m = do {
     t \<leftarrow> context;
     i \<leftarrow> tlss m t;
     (new_socket_io_read_bytes, m) \<leftarrow> realloc (socket_io_read_bytes i) (unat (socket_io_read_byte_count i + siz)) m;
     case new_socket_io_read_bytes of
       None \<Rightarrow> do {
         m \<leftarrow> set_state t TLSIO_STATE_ERROR m;
         tls_indicate_error env t m }
     | Some a \<Rightarrow> do {
         m \<leftarrow> upd_tls t (\<lambda>i. i\<lparr>socket_io_read_bytes := Some a\<rparr>) m;
         src \<leftarrow> buf;
         m \<leftarrow> memcpy_bytes (a, unat (socket_io_read_byte_count i)) src (unat siz) m;
         upd_tls t (\<lambda>i. i\<lparr>socket_io_read_byte_count := socket_io_read_byte_count i + siz\<rparr>) m } }"

definition on_underlying_io_error ::
  "('z hmem_scheme, 'e) tls_env_scheme \<Rightarrow> ptr \<Rightarrow> 'z hmem_scheme \<Rightarrow> 'z hmem_scheme option" where
  "on_underlying_io_error env context m = do {
     t \<leftarrow> context;
     i \<leftarrow> tlss m t;
     case tlsio_state i of
       TLSIO_STATE_OPENING_UNDERLYING_IO \<Rightarrow> open_failed env t m
     | TLSIO_STATE_IN_HANDSHAKE \<Rightarrow> open_failed env t m
     | TLSIO_STATE_OPEN \<Rightarrow> do {
         m \<leftarrow> set_state t TLSIO_STATE_ERROR m;
         tls_indicate_error env t m }
     | _ \<Rightarrow> Some m }"

definition on_underlying_io_close_complete_during_close ::
  "('z hmem_scheme, 'e) tls_env_scheme \<Rightarrow> ptr \<Rightarrow> 'z hmem_scheme \<Rightarrow> 'z hmem_scheme option" where
  "on_underlying_io_close_complete_during_close env context m = do {
     t \<leftarrow> context;
     m \<leftarrow> set_state t TLSIO_STATE_NOT_OPEN m;
     i \<leftarrow> tlss m t;
     case tls_on_io_close_complete i of
       None \<Rightarrow> Some m
     | Some f \<Rightarrow> call_tls_closed env f (tls_on_io_close_complete_context i) m }"

section \<open>What mbedTLS calls\<close>

text \<open>The wait of \<open>on_io_recv\<close>: it ends when there are bytes, or when the instance is open after the work of the io.\<close>

partial_function (option) recv_wait ::
  "('z hmem_scheme, 'e) tls_env_scheme \<Rightarrow> addr \<Rightarrow> 'z hmem_scheme \<Rightarrow> 'z hmem_scheme option" where
  "recv_wait env t m = do {
     i \<leftarrow> tlss m t;
     if socket_io_read_byte_count i = 0 then do {
       m \<leftarrow> xio_dowork env (socket_io i) m;
       i \<leftarrow> tlss m t;
       if tlsio_state i = TLSIO_STATE_OPEN then Some m else recv_wait env t m }
     else Some m }"

text \<open>\<open>result\<close> is an \<open>int\<close>, and it is compared with a size as an unsigned number.\<close>

definition on_io_recv ::
  "('z hmem_scheme, 'e) tls_env_scheme \<Rightarrow> ptr \<Rightarrow> bptr option \<Rightarrow> u32 \<Rightarrow> 'z hmem_scheme \<Rightarrow> (int \<times> 'z hmem_scheme) option" where
  "on_io_recv env context buf sz m = do {
     t \<leftarrow> context;
     m \<leftarrow> recv_wait env t m;
     i \<leftarrow> tlss m t;
     let result = (if socket_io_read_byte_count i > sz then sz else socket_io_read_byte_count i);
     m \<leftarrow> (if sint result > 0 then do {
             dst \<leftarrow> buf;
             a \<leftarrow> socket_io_read_bytes i;
             m \<leftarrow> memcpy_bytes dst (a, 0) (unat result) m;
             m \<leftarrow> memcpy_bytes (a, 0) (a, unat result) (unat (socket_io_read_byte_count i - result)) m;
             m \<leftarrow> upd_tls t (\<lambda>i. i\<lparr>socket_io_read_byte_count := socket_io_read_byte_count i - result\<rparr>) m;
             i \<leftarrow> tlss m t;
             if socket_io_read_byte_count i > 0 then do {
               (new_socket_io_read_bytes, m) \<leftarrow> realloc (Some a) (unat (socket_io_read_byte_count i)) m;
               if new_socket_io_read_bytes \<noteq> None then upd_tls t (\<lambda>i. i\<lparr>socket_io_read_bytes := new_socket_io_read_bytes\<rparr>) m
               else Some m }
             else do {
               m \<leftarrow> free (Some a) m;
               upd_tls t (\<lambda>i. i\<lparr>socket_io_read_bytes := None\<rparr>) m } }
           else Some m);
     i \<leftarrow> tlss m t;
     Some (if sint result = 0 \<and> tlsio_state i = TLSIO_STATE_OPEN then MBEDTLS_ERR_SSL_WANT_READ else sint result, m) }"

definition on_io_send ::
  "('z hmem_scheme, 'e) tls_env_scheme \<Rightarrow> ptr \<Rightarrow> bptr option \<Rightarrow> u32 \<Rightarrow> 'z hmem_scheme \<Rightarrow> (int \<times> 'z hmem_scheme) option" where
  "on_io_send env context buf sz m = do {
     t \<leftarrow> context;
     i \<leftarrow> tlss m t;
     (r, m) \<leftarrow> xio_send env (socket_io i) buf sz (tls_on_send_complete i, tls_on_send_complete_callback_context i) m;
     if r \<noteq> 0 then do {
       m \<leftarrow> set_state t TLSIO_STATE_ERROR m;
       m \<leftarrow> tls_indicate_error env t m;
       Some (0, m) }
     else Some (sint sz, m) }"

text \<open>
  The source of entropy: the bytes come from \<open>rand\<close>, through an array of characters.  The index of the loop
  has 16 bits.
\<close>

partial_function (option) entropy_loop ::
  "('z hmem_scheme, 'e) tls_env_scheme \<Rightarrow> addr \<Rightarrow> u16 \<Rightarrow> u32 \<Rightarrow> 'z hmem_scheme \<Rightarrow> 'z hmem_scheme option" where
  "entropy_loop env c i len m =
     (if ucast i < len then do {
        (r, m) \<leftarrow> rand env m;
        m \<leftarrow> cwrite (c, unat i) [Some (of_int (r mod 256))] m;
        entropy_loop env c (i + 1) len m }
      else Some m)"

definition tlsio_entropy_poll ::
  "('z hmem_scheme, 'e) tls_env_scheme \<Rightarrow> bptr \<Rightarrow> u32 \<Rightarrow> 'z hmem_scheme \<Rightarrow> ((int \<times> u32) \<times> 'z hmem_scheme) option" where
  "tlsio_entropy_poll env output len m = do {
     m \<leftarrow> srand_time env m;
     (c, m) \<leftarrow> cmalloc (unat len) m;
     a \<leftarrow> c;
     m \<leftarrow> cwrite (a, 0) (replicate (unat len) (Some 0)) m;
     m \<leftarrow> entropy_loop env a 0 len m;
     xs \<leftarrow> cread (Chars a 0) (unat len) m;
     m \<leftarrow> write_bytes output xs m;
     m \<leftarrow> cfree (Some a) m;
     Some ((0, len), m) }"

end
