(* ===== verification/Tlsio_Io.thy ===== *)
theory Tlsio_Io
  imports Tlsio
begin

text \<open>
  The operations of the TLS transport that its table of functions has: creation, opening, sending, the work
  loop, closing, destruction, and the options.
\<close>

section \<open>mbedTLS\<close>

fun mbedtls_all :: "('z hmem_scheme, 'e) tls_env_scheme \<Rightarrow> addr \<Rightarrow> mbedtls_call list \<Rightarrow> 'z hmem_scheme \<Rightarrow> 'z hmem_scheme option" where
  "mbedtls_all env t [] m = Some m"
| "mbedtls_all env t (c # cs) m = do { m \<leftarrow> mbedtls env t c m; mbedtls_all env t cs m }"

definition MBEDTLS_SSL_VERIFY_OPTIONAL :: int where "MBEDTLS_SSL_VERIFY_OPTIONAL = 1"
definition MBEDTLS_SSL_MAJOR_VERSION_3 :: int where "MBEDTLS_SSL_MAJOR_VERSION_3 = 3"
definition MBEDTLS_SSL_MINOR_VERSION_3 :: int where "MBEDTLS_SSL_MINOR_VERSION_3 = 3"

definition mbedtls_init ::
  "('z hmem_scheme, 'e) tls_env_scheme \<Rightarrow> addr \<Rightarrow> char_ptr option \<Rightarrow> 'z hmem_scheme \<Rightarrow> 'z hmem_scheme option" where
  "mbedtls_init env t host m = mbedtls_all env t
     [threading_set_alt,
      entropy_init, ctr_drbg_init, ssl_init, ssl_session_init, ssl_config_init,
      x509_crt_init trusted_certificates_parsed, x509_crt_init client_certificates_parsed, pk_init,
      entropy_add_source 128, ctr_drbg_seed (lit ''raspberrypi''),
      ssl_config_defaults, ssl_conf_rng, ssl_conf_authmode MBEDTLS_SSL_VERIFY_OPTIONAL,
      ssl_conf_min_version MBEDTLS_SSL_MAJOR_VERSION_3 MBEDTLS_SSL_MINOR_VERSION_3,
      ssl_set_bio (Some t), ssl_set_hostname host, ssl_set_session,
      ssl_conf_dbg, debug_set_threshold 1,
      ssl_setup] m"

section \<open>Creation and destruction\<close>

definition zero_tls :: TLS_IO_INSTANCE where
  "zero_tls = \<lparr>socket_io = None, tls_on_bytes_received = None, tls_on_io_open_complete = None, tls_on_io_close_complete = None,
     tls_on_io_error = None, tls_on_bytes_received_context = None, tls_on_io_open_complete_context = None,
     tls_on_io_close_complete_context = None, tls_on_io_error_context = None, tlsio_state = TLSIO_STATE_NOT_OPEN,
     socket_io_read_bytes = None, socket_io_read_byte_count = 0, tls_on_send_complete = None,
     tls_on_send_complete_callback_context = None, trusted_certificates = None, client_certificates = None,
     client_private_key = None, trusted_certificates_size = 0, client_certificates_size = 0, client_private_key_size = 0\<rparr>"

text \<open>
  The struct \<open>socketio_config\<close> is local; like a local array it has an address as long as the function runs.  After
  \<open>memset\<close>, the assignments of null pointers to the callbacks do not change the instance.
\<close>

definition tlsio_mbedtls_create ::
  "('z hmem_scheme, 'e) tls_env_scheme \<Rightarrow> TLSIO_CONFIG option \<Rightarrow> 'z hmem_scheme \<Rightarrow> (ptr \<times> 'z hmem_scheme) option" where
  "tlsio_mbedtls_create env io_create_parameters m =
     (case io_create_parameters of
        None \<Rightarrow> Some (None, m)
      | Some tls_io_config \<Rightarrow> do {
          (result, m) \<leftarrow> malloc_struct (sizeof_TLS_IO_INSTANCE env) m;
          case result of
            None \<Rightarrow> Some (None, m)
          | Some t \<Rightarrow> do {
              let m = m\<lparr>tlss := (tlss m)(t \<mapsto> zero_tls)\<rparr>;
              let socketio_config = brk m;
              let m = m\<lparr>brk := Suc (brk m)\<rparr>;
              let (underlying_interface, parameters, m) =
                (if underlying_io_interface tls_io_config \<noteq> None
                 then (underlying_io_interface tls_io_config, underlying_io_parameters tls_io_config, m)
                 else (socketio_get_interface_description, Some socketio_config,
                   m\<lparr>socket_configs := (socket_configs m)(socketio_config \<mapsto> \<lparr>config_hostname = tls_hostname tls_io_config,
                        config_port = tls_port tls_io_config, accepted_socket = None\<rparr>)\<rparr>));
              (result, m) \<leftarrow>
                (if underlying_interface = None then do {
                   m \<leftarrow> free_tls t m;
                   Some (None, m) }
                 else do {
                   (x, m) \<leftarrow> xio_create env underlying_interface parameters m;
                   m \<leftarrow> upd_tls t (\<lambda>i. i\<lparr>socket_io := x\<rparr>) m;
                   if x = None then do {
                     m \<leftarrow> free_tls t m;
                     Some (None, m) }
                   else do {
                     m \<leftarrow> upd_tls t (\<lambda>i. i\<lparr>socket_io_read_bytes := None, socket_io_read_byte_count := 0,
                            tls_on_send_complete := None, tls_on_send_complete_callback_context := None\<rparr>) m;
                     m \<leftarrow> mbedtls_init env t (tls_hostname tls_io_config) m;
                     m \<leftarrow> set_state t TLSIO_STATE_NOT_OPEN m;
                     Some (Some t, m) } });
              Some (result, m\<lparr>socket_configs := (socket_configs m)(socketio_config := None)\<rparr>) } })"

definition tlsio_mbedtls_destroy ::
  "('z hmem_scheme, 'e) tls_env_scheme \<Rightarrow> ptr \<Rightarrow> 'z hmem_scheme \<Rightarrow> 'z hmem_scheme option" where
  "tlsio_mbedtls_destroy env tls_io m =
     (case tls_io of
        None \<Rightarrow> Some m
      | Some t \<Rightarrow> do {
          m \<leftarrow> mbedtls_all env t
            [ssl_close_notify, ssl_free, ssl_config_free,
             x509_crt_free trusted_certificates_parsed, x509_crt_free client_certificates_parsed, pk_free,
             ctr_drbg_free, entropy_free] m;
          i \<leftarrow> tlss m t;
          (_, m) \<leftarrow> xio_close env (socket_io i) (None, None) m;
          i \<leftarrow> tlss m t;
          m \<leftarrow> (if socket_io_read_bytes i \<noteq> None then free (socket_io_read_bytes i) m else Some m);
          i \<leftarrow> tlss m t;
          m \<leftarrow> xio_destroy env (socket_io i) m;
          free_tls t m })"

section \<open>Opening, closing, sending, working\<close>

definition on_underlying_io_open_complete_fn :: nat where "on_underlying_io_open_complete_fn = 31"
definition on_underlying_io_bytes_received_fn :: nat where "on_underlying_io_bytes_received_fn = 32"
definition on_underlying_io_error_fn :: nat where "on_underlying_io_error_fn = 33"
definition on_underlying_io_close_complete_during_close_fn :: nat where "on_underlying_io_close_complete_during_close_fn = 34"

definition tlsio_mbedtls_open ::
  "('z hmem_scheme, 'e) tls_env_scheme \<Rightarrow> ptr \<Rightarrow> fptr \<times> ptr \<Rightarrow> fptr \<times> ptr \<Rightarrow> fptr \<times> ptr \<Rightarrow> 'z hmem_scheme \<Rightarrow>
   (int \<times> 'z hmem_scheme) option" where
  "tlsio_mbedtls_open env tls_io on_open on_bytes on_error m =
     (case tls_io of
        None \<Rightarrow> Some (FAILURE, m)
      | Some t \<Rightarrow> do {
          i \<leftarrow> tlss m t;
          if tlsio_state i \<noteq> TLSIO_STATE_NOT_OPEN then Some (FAILURE, m)
          else do {
            m \<leftarrow> upd_tls t (\<lambda>i. i\<lparr>tls_on_bytes_received := fst on_bytes, tls_on_bytes_received_context := snd on_bytes,
                   tls_on_io_open_complete := fst on_open, tls_on_io_open_complete_context := snd on_open,
                   tls_on_io_error := fst on_error, tls_on_io_error_context := snd on_error,
                   tlsio_state := TLSIO_STATE_OPENING_UNDERLYING_IO\<rparr>) m;
            i \<leftarrow> tlss m t;
            (r, m) \<leftarrow> xio_open env (socket_io i) (Some on_underlying_io_open_complete_fn, tls_io)
              (Some on_underlying_io_bytes_received_fn, tls_io) (Some on_underlying_io_error_fn, tls_io) m;
            if r \<noteq> 0 then do {
              m \<leftarrow> set_state t TLSIO_STATE_NOT_OPEN m;
              Some (FAILURE, m) }
            else Some (0, m) } })"

definition tlsio_mbedtls_close ::
  "('z hmem_scheme, 'e) tls_env_scheme \<Rightarrow> ptr \<Rightarrow> fptr \<times> ptr \<Rightarrow> 'z hmem_scheme \<Rightarrow> (int \<times> 'z hmem_scheme) option" where
  "tlsio_mbedtls_close env tls_io on_close m =
     (case tls_io of
        None \<Rightarrow> Some (FAILURE, m)
      | Some t \<Rightarrow> do {
          i \<leftarrow> tlss m t;
          if tlsio_state i = TLSIO_STATE_NOT_OPEN \<or> tlsio_state i = TLSIO_STATE_CLOSING then Some (FAILURE, m)
          else do {
            m \<leftarrow> upd_tls t (\<lambda>i. i\<lparr>tlsio_state := TLSIO_STATE_CLOSING, tls_on_io_close_complete := fst on_close,
                   tls_on_io_close_complete_context := snd on_close\<rparr>) m;
            i \<leftarrow> tlss m t;
            (r, m) \<leftarrow> xio_close env (socket_io i) (Some on_underlying_io_close_complete_during_close_fn, tls_io) m;
            Some (if r \<noteq> 0 then FAILURE else 0, m) } })"

text \<open>The result of \<open>mbedtls_ssl_write\<close> is compared with a size, as an unsigned number.\<close>

definition tlsio_mbedtls_send ::
  "('z hmem_scheme, 'e) tls_env_scheme \<Rightarrow> ptr \<Rightarrow> bptr option \<Rightarrow> u32 \<Rightarrow> fptr \<times> ptr \<Rightarrow> 'z hmem_scheme \<Rightarrow>
   (int \<times> 'z hmem_scheme) option" where
  "tlsio_mbedtls_send env tls_io buf siz on_sent m =
     (case tls_io of
        None \<Rightarrow> Some (FAILURE, m)
      | Some t \<Rightarrow> do {
          i \<leftarrow> tlss m t;
          if tlsio_state i \<noteq> TLSIO_STATE_OPEN then Some (FAILURE, m)
          else do {
            m \<leftarrow> upd_tls t (\<lambda>i. i\<lparr>tls_on_send_complete := fst on_sent, tls_on_send_complete_callback_context := snd on_sent\<rparr>) m;
            (res, m) \<leftarrow> mbedtls_ssl_write env t buf siz m;
            Some (if of_int res \<noteq> siz then FAILURE else 0, m) } })"

definition tlsio_mbedtls_dowork :: "('z hmem_scheme, 'e) tls_env_scheme \<Rightarrow> ptr \<Rightarrow> 'z hmem_scheme \<Rightarrow> 'z hmem_scheme option" where
  "tlsio_mbedtls_dowork env tls_io m =
     (case tls_io of
        None \<Rightarrow> Some m
      | Some t \<Rightarrow> do {
          i \<leftarrow> tlss m t;
          if tlsio_state i \<noteq> TLSIO_STATE_NOT_OPEN \<and> tlsio_state i \<noteq> TLSIO_STATE_ERROR then do {
            (_, m) \<leftarrow> decode_ssl_received_bytes env t m;
            i \<leftarrow> tlss m t;
            xio_dowork env (socket_io i) m }
          else Some m })"

section \<open>Options\<close>

definition OPTION_UNDERLYING_IO_OPTIONS :: cstring where
  "OPTION_UNDERLYING_IO_OPTIONS = lit ''underlying_io_options''"
definition OPTION_TRUSTED_CERT :: cstring where "OPTION_TRUSTED_CERT = lit ''TrustedCerts''"
definition OPTION_X509_ECC_CERT :: cstring where "OPTION_X509_ECC_CERT = lit ''x509EccCertificate''"
definition OPTION_X509_ECC_KEY :: cstring where "OPTION_X509_ECC_KEY = lit ''x509EccAliasKey''"

text \<open>The value of the option with the certificates is a string, and its clone is written before it is read.\<close>

definition tlsio_mbedtls_CloneOption :: "char_ptr option \<Rightarrow> ptr \<Rightarrow> 'z hmem_scheme \<Rightarrow> (ptr \<times> 'z hmem_scheme) option" where
  "tlsio_mbedtls_CloneOption name val m =
     (if name = None \<or> val = None then Some (None, m)
      else do {
        p \<leftarrow> name;
        n \<leftarrow> c_string p m;
        if n = OPTION_UNDERLYING_IO_OPTIONS then Some (val, m)
        else if n = OPTION_TRUSTED_CERT then do {
          ((r, dest), m) \<leftarrow> mallocAndStrcpy_s (Some None) (name_ptr val) m;
          if r \<noteq> 0 then Some (None, m)
          else do { result \<leftarrow> dest; Some (result, m) } }
        else Some (None, m) })"

text \<open>The option with the options of the other io is a handler that \<open>xio_retrieveoptions\<close> made.\<close>

definition tlsio_mbedtls_DestroyOption ::
  "('z hmem_scheme, 'e) io_option_env_scheme \<Rightarrow> char_ptr option \<Rightarrow> ptr \<Rightarrow> 'z hmem_scheme \<Rightarrow> 'z hmem_scheme option" where
  "tlsio_mbedtls_DestroyOption oenv name val m =
     (if name = None \<or> val = None then Some m
      else do {
        p \<leftarrow> name;
        n \<leftarrow> c_string p m;
        if n = OPTION_TRUSTED_CERT then cfree val m
        else if n = OPTION_UNDERLYING_IO_OPTIONS then OptionHandler_Destroy (xio_functions oenv) val m
        else Some m })"

definition tlsio_mbedtls_setoption ::
  "('z hmem_scheme, 'e) tls_env_scheme \<Rightarrow> ('z hmem_scheme, 'f) io_option_env_scheme \<Rightarrow> ptr \<Rightarrow> char_ptr option \<Rightarrow> ptr \<Rightarrow>
   'z hmem_scheme \<Rightarrow> (int \<times> 'z hmem_scheme) option" where
  "tlsio_mbedtls_setoption env oenv tls_io optionName val m =
     (if tls_io = None \<or> optionName = None then Some (FAILURE, m)
      else do {
        t \<leftarrow> tls_io;
        p \<leftarrow> optionName;
        i \<leftarrow> tlss m t;
        n \<leftarrow> c_string p m;
        if n = OPTION_TRUSTED_CERT then do {
          m \<leftarrow> (if trusted_certificates i \<noteq> None then upd_tls t (\<lambda>i. i\<lparr>trusted_certificates := None\<rparr>) m else Some m);
          v \<leftarrow> val;
          caCert \<leftarrow> cert_instances m v;
          m \<leftarrow> upd_tls t (\<lambda>i. i\<lparr>trusted_certificates := certs caCert, trusted_certificates_size := certsSize caCert\<rparr>) m;
          (parse_result, m) \<leftarrow> mbedtls_x509_crt_parse env t trusted_certificates_parsed (certs caCert) (certsSize caCert) m;
          if parse_result \<noteq> 0 then Some (FAILURE, m)
          else do {
            m \<leftarrow> mbedtls env t ssl_conf_ca_chain m;
            Some (0, m) } }
        else if n = OPTION_X509_ECC_CERT then do {
          m \<leftarrow> (if client_certificates i \<noteq> None then upd_tls t (\<lambda>i. i\<lparr>client_certificates := None\<rparr>) m else Some m);
          v \<leftarrow> val;
          clientCert \<leftarrow> cert_instances m v;
          m \<leftarrow> upd_tls t (\<lambda>i. i\<lparr>client_certificates := certs clientCert, client_certificates_size := certsSize clientCert\<rparr>) m;
          (parse_result, m) \<leftarrow> mbedtls_x509_crt_parse env t client_certificates_parsed (certs clientCert) (certsSize clientCert) m;
          if parse_result \<noteq> 0 then Some (FAILURE, m)
          else do {
            i \<leftarrow> tlss m t;
            m \<leftarrow> (if client_private_key i \<noteq> None then mbedtls env t ssl_conf_own_cert m else Some m);
            Some (0, m) } }
        else if n = OPTION_X509_ECC_KEY then do {
          m \<leftarrow> (if client_private_key i \<noteq> None then upd_tls t (\<lambda>i. i\<lparr>client_private_key := None\<rparr>) m else Some m);
          v \<leftarrow> val;
          privateKey \<leftarrow> key_instances m v;
          m \<leftarrow> upd_tls t (\<lambda>i. i\<lparr>client_private_key := key privateKey, client_private_key_size := keySize privateKey\<rparr>) m;
          (parse_result, m) \<leftarrow> mbedtls_pk_parse_key env t (key privateKey) (keySize privateKey) m;
          if parse_result \<noteq> 0 then Some (FAILURE, m)
          else do {
            i \<leftarrow> tlss m t;
            m \<leftarrow> (if client_certificates i \<noteq> None then mbedtls env t ssl_conf_own_cert m else Some m);
            Some (0, m) } }
        else xio_setoption oenv (socket_io i) optionName val m })"

definition tlsio_mbedtls_CloneOption_fn :: nat where "tlsio_mbedtls_CloneOption_fn = 41"
definition tlsio_mbedtls_DestroyOption_fn :: nat where "tlsio_mbedtls_DestroyOption_fn = 42"
definition tlsio_mbedtls_setoption_fn :: nat where "tlsio_mbedtls_setoption_fn = 43"

text \<open>The environment in which a call of the registered functions runs the code.\<close>

definition tls_functions ::
  "('z hmem_scheme, 'e) tls_env_scheme \<Rightarrow> ('z hmem_scheme, 'f) io_option_env_scheme \<Rightarrow> 'z hmem_scheme option_env" where
  "tls_functions env oenv =
     \<lparr>clone_option = (\<lambda>f. if f = tlsio_mbedtls_CloneOption_fn then tlsio_mbedtls_CloneOption else clone_option oenv f),
      destroy_option = (\<lambda>f. if f = tlsio_mbedtls_DestroyOption_fn then tlsio_mbedtls_DestroyOption oenv else destroy_option oenv f),
      set_option = (\<lambda>f. if f = tlsio_mbedtls_setoption_fn then tlsio_mbedtls_setoption env oenv else set_option oenv f)\<rparr>"

definition tlsio_mbedtls_retrieveoptions ::
  "('z hmem_scheme, 'e) tls_env_scheme \<Rightarrow> ('z hmem_scheme, 'f) io_option_env_scheme \<Rightarrow> ptr \<Rightarrow> 'z hmem_scheme \<Rightarrow>
   (ptr \<times> 'z hmem_scheme) option" where
  "tlsio_mbedtls_retrieveoptions env oenv handle m =
     (case handle of
        None \<Rightarrow> Some (None, m)
      | Some t \<Rightarrow> do {
          (result, m) \<leftarrow> OptionHandler_Create (Some tlsio_mbedtls_CloneOption_fn) (Some tlsio_mbedtls_DestroyOption_fn)
            (Some tlsio_mbedtls_setoption_fn) m;
          if result = None then Some (None, m)
          else do {
            i \<leftarrow> tlss m t;
            (underlying_io_options, m) \<leftarrow> xio_retrieveoptions oenv (socket_io i) m;
            (failed, m) \<leftarrow>
              (if underlying_io_options = None then Some (True, m)
               else do {
                 (r, m) \<leftarrow> OptionHandler_AddOption (tls_functions env oenv) result
                   (Some (Literal OPTION_UNDERLYING_IO_OPTIONS)) underlying_io_options m;
                 Some (r \<noteq> OPTIONHANDLER_OK, m) });
            if failed then do {
              m \<leftarrow> OptionHandler_Destroy (xio_functions oenv) underlying_io_options m;
              m \<leftarrow> OptionHandler_Destroy (tls_functions env oenv) result m;
              Some (None, m) }
            else do {
              i \<leftarrow> tlss m t;
              (failed, m) \<leftarrow>
                (if trusted_certificates i \<noteq> None then do {
                   (r, m) \<leftarrow> OptionHandler_AddOption (tls_functions env oenv) result
                     (Some (Literal OPTION_TRUSTED_CERT)) (trusted_certificates i) m;
                   Some (r \<noteq> OPTIONHANDLER_OK, m) }
                 else Some (False, m));
              if failed then do {
                m \<leftarrow> OptionHandler_Destroy (tls_functions env oenv) result m;
                Some (None, m) }
              else Some (result, m) } } })"

definition tlsio_mbedtls_create_fn :: nat where "tlsio_mbedtls_create_fn = 44"
definition tlsio_mbedtls_destroy_fn :: nat where "tlsio_mbedtls_destroy_fn = 45"
definition tlsio_mbedtls_open_fn :: nat where "tlsio_mbedtls_open_fn = 46"
definition tlsio_mbedtls_close_fn :: nat where "tlsio_mbedtls_close_fn = 47"
definition tlsio_mbedtls_send_fn :: nat where "tlsio_mbedtls_send_fn = 48"
definition tlsio_mbedtls_dowork_fn :: nat where "tlsio_mbedtls_dowork_fn = 49"
definition tlsio_mbedtls_retrieveoptions_fn :: nat where "tlsio_mbedtls_retrieveoptions_fn = 50"

definition tlsio_mbedtls_interface_description :: IO_INTERFACE_DESCRIPTION where
  "tlsio_mbedtls_interface_description =
     \<lparr>concrete_io_retrieveoptions = Some tlsio_mbedtls_retrieveoptions_fn, concrete_io_create = Some tlsio_mbedtls_create_fn,
      concrete_io_destroy = Some tlsio_mbedtls_destroy_fn, concrete_io_open = Some tlsio_mbedtls_open_fn,
      concrete_io_close = Some tlsio_mbedtls_close_fn, concrete_io_send = Some tlsio_mbedtls_send_fn,
      concrete_io_dowork = Some tlsio_mbedtls_dowork_fn, concrete_io_setoption = Some tlsio_mbedtls_setoption_fn\<rparr>"

definition tlsio_mbedtls_get_interface_description :: "IO_INTERFACE_DESCRIPTION option" where
  "tlsio_mbedtls_get_interface_description = Some tlsio_mbedtls_interface_description"

end
