(* ===== verification/Tlsio_Rules.thy ===== *)
theory Tlsio_Rules
  imports Tlsio_Io Vector_Rules
begin

text \<open>
  What is between the other io and mbedTLS is a queue of bytes: what the io delivers goes to its end, and
  what mbedTLS reads is taken from its front.
\<close>

section \<open>The queue of an instance\<close>

definition queue_at :: "'z hmem_scheme \<Rightarrow> addr \<Rightarrow> TLS_IO_INSTANCE \<Rightarrow> u8 list \<Rightarrow> bool" where
  "queue_at m t i bs \<longleftrightarrow> wf_mem m \<and> tlss m t = Some i \<and> length bs < 2 ^ 31 \<and>
     socket_io_read_byte_count i = of_nat (length bs) \<and>
     (case socket_io_read_bytes i of
        None \<Rightarrow> bs = []
      | Some a \<Rightarrow> bs \<noteq> [] \<and> (\<exists>ys. blocks m a = Some (map Some bs @ ys)))"

definition outside_queue :: "bptr \<Rightarrow> TLS_IO_INSTANCE \<Rightarrow> bool" where
  "outside_queue q i \<longleftrightarrow> socket_io_read_bytes i \<noteq> Some (fst q)"

lemma queue_count:
  assumes "queue_at m t i bs"
  shows "unat (socket_io_read_byte_count i) = length bs" "socket_io_read_byte_count i = 0 \<longleftrightarrow> bs = []"
proof -
  show c: "unat (socket_io_read_byte_count i) = length bs" using assms by (simp add: queue_at_def)
  show "socket_io_read_byte_count i = 0 \<longleftrightarrow> bs = []" using c by (metis length_0_conv unat_eq_0)
qed

lemma queue_tls: "queue_at m t i bs \<Longrightarrow> tlss m t = Some i"
  by (simp add: queue_at_def)

lemma sint_small: "n < 2 ^ 31 \<Longrightarrow> sint (of_nat n :: u32) = int n"
  by (simp add: sint_word_ariths signed_of_nat signed_take_bit_int_eq_self_iff signed_take_bit_int_eq_self)

lemma wf_mem_blocks: "wf_mem m \<Longrightarrow> blocks m a = Some bs \<Longrightarrow> a < brk m"
  by (metis linorder_not_less option.distinct(1) wf_mem_def)

text \<open>The array after an arrival, and the memory.\<close>

definition arrived_mem :: "addr \<Rightarrow> TLS_IO_INSTANCE \<Rightarrow> u8 list \<Rightarrow> u8 list \<Rightarrow> 'z hmem_scheme \<Rightarrow> 'z hmem_scheme" where
  "arrived_mem t i bs xs m = m
     \<lparr>brk := Suc (brk m),
      blocks := (case socket_io_read_bytes i of None \<Rightarrow> blocks m | Some a \<Rightarrow> (blocks m)(a := None))(brk m \<mapsto> map Some (bs @ xs)),
      tlss := (tlss m)(t \<mapsto> i\<lparr>socket_io_read_bytes := Some (brk m), socket_io_read_byte_count := of_nat (length (bs @ xs))\<rparr>)\<rparr>"

lemma arrived_queue:
  assumes "queue_at m t i bs" "length bs + length xs < 2 ^ 31" "xs \<noteq> []"
  shows "queue_at (arrived_mem t i bs xs m) t
    (i\<lparr>socket_io_read_bytes := Some (brk m), socket_io_read_byte_count := of_nat (length (bs @ xs))\<rparr>) (bs @ xs)"
  using assms by (auto simp: queue_at_def arrived_mem_def wf_mem_def split: option.splits)

lemma bytes_received_spec:
  fixes m :: "'z hmem_scheme"
  assumes Q: "queue_at m t i bs" and read: "read_bytes q (length xs) m = Some (map Some xs)" and out: "outside_queue q i"
    and len: "xs \<noteq> []" "length bs + length xs < 2 ^ 31"
  shows "on_underlying_io_bytes_received env (Some t) (Some q) (of_nat (length xs)) m =
    (if grants m (brk m) (length bs + length xs) then Some (arrived_mem t i bs xs m)
     else tls_indicate_error env t (m\<lparr>brk := Suc (brk m), tlss := (tlss m)(t \<mapsto> i\<lparr>tlsio_state := TLSIO_STATE_ERROR\<rparr>)\<rparr>))"
proof -
  have i: "tlss m t = Some i" by (rule queue_tls [OF Q])
  have c: "unat (socket_io_read_byte_count i + of_nat (length xs)) = length bs + length xs"
    "unat (of_nat (length xs) :: u32) = length xs"
    using len by (simp_all add: unat_add_u32 queue_count [OF Q])
  have cn: "socket_io_read_byte_count i + of_nat (length xs) = of_nat (length (bs @ xs))"
    using Q by (simp add: queue_at_def)
  obtain ds where ds: "blocks m (fst q) = Some ds" "snd q + length xs \<le> length ds" "take (length xs) (drop (snd q) ds) = map Some xs"
    using read by (auto simp: read_bytes_def split: option.splits if_splits)
  have wf: "wf_mem m" using Q by (simp add: queue_at_def)
  have fresh: "fst q \<noteq> brk m" using wf_mem_blocks [OF wf ds(1)] by simp
  show ?thesis
  proof (cases "socket_io_read_bytes i")
    case None
    then have bs: "bs = []" using Q by (simp add: queue_at_def)
    show ?thesis
    proof (cases "grants m (brk m) (length xs)")
      case True
      let ?m = "m\<lparr>brk := Suc (brk m), blocks := (blocks m)(brk m \<mapsto> replicate (length xs) None),
        tlss := (tlss m)(t \<mapsto> i\<lparr>socket_io_read_bytes := Some (brk m)\<rparr>)\<rparr>"
      have "read_bytes q (length xs) ?m = Some (map Some xs)" using ds fresh by (simp add: read_bytes_def)
      then have "memcpy_bytes (brk m, 0) q (length xs) ?m = Some (?m\<lparr>blocks := (blocks ?m)(brk m \<mapsto> map Some xs)\<rparr>)"
        by (simp add: memcpy_bytes_def write_bytes_def write_at_0_replicate)
      then show ?thesis using i c cn bs None True queue_count [OF Q]
        by (simp add: on_underlying_io_bytes_received_def malloc_def upd_tls_def arrived_mem_def)
    next
      case False
      then show ?thesis using i c bs None
        by (simp add: on_underlying_io_bytes_received_def malloc_def set_state_def upd_tls_def)
    qed
  next
    case (Some a)
    obtain ys where b: "bs \<noteq> []" "blocks m a = Some (map Some bs @ ys)" using Q Some by (auto simp: queue_at_def)
    let ?n = "length bs + length xs"
    show ?thesis
    proof (cases "grants m (brk m) ?n")
      case True
      let ?new = "take ?n ((map Some bs @ ys) @ replicate ?n None)"
      let ?m = "m\<lparr>brk := Suc (brk m), blocks := (blocks m)(a := None, brk m \<mapsto> ?new),
        tlss := (tlss m)(t \<mapsto> i\<lparr>socket_io_read_bytes := Some (brk m)\<rparr>)\<rparr>"
      have "fst q \<noteq> a" using out Some by (simp add: outside_queue_def)
      then have "read_bytes q (length xs) ?m = Some (map Some xs)" using ds fresh by (simp add: read_bytes_def)
      moreover have "write_at (length bs) (map Some xs) ?new = map Some (bs @ xs)" by (simp add: write_at_def)
      ultimately have "memcpy_bytes (brk m, length bs) q (length xs) ?m = Some (?m\<lparr>blocks := (blocks ?m)(brk m \<mapsto> map Some (bs @ xs))\<rparr>)"
        by (simp add: memcpy_bytes_def write_bytes_def)
      moreover have "realloc (Some a) ?n m = Some (Some (brk m), m\<lparr>brk := Suc (brk m), blocks := (blocks m)(a := None, brk m \<mapsto> ?new)\<rparr>)"
        using b True by (simp add: realloc_def)
      ultimately show ?thesis using i c cn Some True queue_count [OF Q]
        by (simp add: on_underlying_io_bytes_received_def upd_tls_def arrived_mem_def)
    next
      case False
      then show ?thesis using i c b Some
        by (simp add: on_underlying_io_bytes_received_def realloc_def set_state_def upd_tls_def)
    qed
  qed
qed


section \<open>Reading\<close>

text \<open>The instance and the memory after mbedTLS has taken \<open>n\<close> bytes, when \<open>moved\<close> says whether the rest got a new array.\<close>

definition taken_tls :: "nat \<Rightarrow> u8 list \<Rightarrow> addr option \<Rightarrow> TLS_IO_INSTANCE \<Rightarrow> TLS_IO_INSTANCE" where
  "taken_tls n bs a i = i\<lparr>socket_io_read_byte_count := of_nat (length bs - n),
     socket_io_read_bytes := (if n < length bs then a else None)\<rparr>"

lemma recv_wait_queue: "queue_at m t i bs \<Longrightarrow> bs \<noteq> [] \<Longrightarrow> recv_wait env t m = Some m"
  by (subst recv_wait.simps) (simp add: queue_tls queue_count)

text \<open>Outside the array of the instance and the buffer nothing is written.\<close>

definition only_arrays :: "addr set \<Rightarrow> 'z mem_scheme \<Rightarrow> 'z mem_scheme \<Rightarrow> bool" where
  "only_arrays A m m' \<longleftrightarrow> grants m' = grants m \<and> chars m' = chars m \<and> brk m \<le> brk m' \<and>
     (\<forall>a. a \<notin> A \<and> a < brk m \<longrightarrow> blocks m' a = blocks m a)"

lemma on_io_recv_spec:
  fixes m :: "'z hmem_scheme"
  assumes Q: "queue_at m t i bs" and ne: "bs \<noteq> []" and sz: "0 < sz" and out: "outside_queue dst i"
    and ds: "blocks m (fst dst) = Some ds" "snd dst + min (unat sz) (length bs) \<le> length ds"
  shows "ok (on_io_recv env (Some t) (Some dst) sz m) (\<lambda>(r, m').
    let n = min (unat sz) (length bs) in
    r = int n \<and> read_bytes dst n m' = Some (map Some (take n bs)) \<and>
    (\<exists>a. queue_at m' t (taken_tls n bs a i) (drop n bs)) \<and>
    only_arrays {fst dst, the (socket_io_read_bytes i)} m m')"
proof -
  define n where "n = min (unat sz) (length bs)"
  have i: "tlss m t = Some i" by (rule queue_tls [OF Q])
  obtain a ys where a: "socket_io_read_bytes i = Some a" "blocks m a = Some (map Some bs @ ys)"
    using Q ne by (auto simp: queue_at_def split: option.splits)
  have L: "length bs < 2 ^ 31" "socket_io_read_byte_count i = of_nat (length bs)" and wf: "wf_mem m" using Q by (simp_all add: queue_at_def)
  have n: "0 < n" "n \<le> length bs" "n < 2 ^ 31" using sz ne L(1) by (auto simp: n_def unat_gt_0 word_neq_0_conv)
  have res: "(if socket_io_read_byte_count i > sz then sz else socket_io_read_byte_count i) = of_nat n"
    using L by (simp add: n_def word_less_nat_alt min_def)
  have sn: "sint (of_nat n :: u32) = int n" "unat (of_nat n :: u32) = n" using n(3) by (simp_all add: sint_small)
  have da: "fst dst \<noteq> a" using out a(1) by (simp add: outside_queue_def)
  let ?ds = "write_at (snd dst) (map Some (take n bs)) ds"
  let ?m1 = "m\<lparr>blocks := (blocks m)(fst dst \<mapsto> ?ds)\<rparr>"
  have copy: "memcpy_bytes dst (a, 0) n m = Some ?m1"
    using a(2) n ds by (simp add: memcpy_bytes_def read_bytes_def write_bytes_def take_map flip: n_def)
  let ?rest = "map Some (drop n bs)"
  let ?as = "write_at 0 ?rest (map Some bs @ ys)"
  let ?m2 = "?m1\<lparr>blocks := (blocks ?m1)(a \<mapsto> ?as)\<rparr>"
  have move: "memcpy_bytes (a, 0) (a, n) (length bs - n) ?m1 = Some ?m2"
    using a(2) n da by (simp add: memcpy_bytes_def read_bytes_def write_bytes_def drop_map)
  have restz: "\<exists>zs. ?as = ?rest @ zs" by (simp add: write_at_def)
  have sub: "socket_io_read_byte_count i - of_nat n = of_nat (length bs - n)" using n(2) by (simp add: L(2) of_nat_diff)
  have usub: "unat (of_nat (length bs - n) :: u32) = length bs - n" using L(1) by simp
  let ?i = "i\<lparr>socket_io_read_byte_count := of_nat (length bs - n)\<rparr>"
  let ?m3 = "?m2\<lparr>tlss := (tlss ?m2)(t \<mapsto> ?i)\<rparr>"
  have got: "read_bytes dst n m' = Some (map Some (take n bs))" if "blocks m' (fst dst) = Some ?ds" for m' :: "'z hmem_scheme"
    using that ds(2) n by (simp add: read_bytes_def write_at_def flip: n_def)
  have rest0: "(of_nat (length bs - n) :: u32) = 0 \<longleftrightarrow> length bs \<le> n" by (metis diff_is_0_eq unat_0 unat_eq_0 usub)
  have nomore: "\<not> 0 < (of_nat (length bs - n) :: u32) \<longleftrightarrow> length bs \<le> n" by (simp add: word_neq_0_conv [symmetric] rest0)
  have ba: "a < brk m" by (rule wf_mem_blocks [OF wf a(2)])
  have bd: "fst dst < brk m" by (rule wf_mem_blocks [OF wf ds(1)])
  have run: "on_io_recv env (Some t) (Some dst) sz m = do {
      m \<leftarrow> (if 0 < (of_nat (length bs - n) :: u32) then do {
               (b, m) \<leftarrow> realloc (Some a) (length bs - n) ?m3;
               if b \<noteq> None then upd_tls t (\<lambda>i. i\<lparr>socket_io_read_bytes := b\<rparr>) m else Some m }
             else do { m \<leftarrow> free (Some a) ?m3; upd_tls t (\<lambda>i. i\<lparr>socket_io_read_bytes := None\<rparr>) m });
      i \<leftarrow> tlss m t;
      Some (int n, m) }"
    unfolding on_io_recv_def recv_wait_queue [OF Q ne] Option.bind.bind_lunit i Let_def res sub sn
    using n by (simp add: copy move sub usub upd_tls_def a(1) i split del: if_split del: of_nat_diff cong: if_cong)
  show ?thesis
  proof (cases "length bs \<le> n")
    case True
    let ?m4 = "?m3\<lparr>blocks := (blocks ?m3)(a := None), tlss := (tlss m)(t \<mapsto> taken_tls n bs None i)\<rparr>"
    have none: "\<not> 0 < (of_nat (length bs - n) :: u32)" "\<not> n < length bs" using True nomore by simp_all
    have e: "on_io_recv env (Some t) (Some dst) sz m = Some (int n, ?m4)"
      by (simp add: run upd_tls_def taken_tls_def none del: of_nat_diff)
    have q: "queue_at ?m4 t (taken_tls n bs None i) (drop n bs)"
      using wf bd True by (auto simp: queue_at_def taken_tls_def wf_mem_def)
    have g: "read_bytes dst n ?m4 = Some (map Some (take n bs))" by (rule got) (simp add: da)
    have o: "only_arrays {fst dst, the (socket_io_read_bytes i)} m ?m4" by (simp add: only_arrays_def a(1))
    show ?thesis unfolding e Let_def n_def [symmetric] using q g o by auto
  next
    case False
    define grown where "grown = grants m (brk m) (length bs - n)"
    define b where "b = (if grown then brk m else a)"
    let ?m4 = "?m3\<lparr>brk := Suc (brk m), blocks := (if grown then (blocks ?m3)(a := None, brk m \<mapsto> take (length bs - n) (?as @ replicate (length bs - n) None)) else blocks ?m3),
        tlss := (tlss m)(t \<mapsto> taken_tls n bs (Some b) i)\<rparr>"
    have more: "0 < (of_nat (length bs - n) :: u32)" "n < length bs" using False nomore by auto
    have e: "on_io_recv env (Some t) (Some dst) sz m = Some (int n, ?m4)"
    proof (cases grown)
      case True
      then show ?thesis using da False
        by (simp add: run upd_tls_def taken_tls_def realloc_def grown_def b_def more a del: of_nat_diff)
    next
      case kept: False
      have same: "i\<lparr>socket_io_read_byte_count := c, socket_io_read_bytes := Some a\<rparr> = i\<lparr>socket_io_read_byte_count := c\<rparr>" for c
        using a(1) by (cases i) simp
      then show ?thesis using da False kept
        by (simp add: run upd_tls_def taken_tls_def realloc_def grown_def b_def more a same del: of_nat_diff)
    qed
    have q: "queue_at ?m4 t (taken_tls n bs (Some b) i) (drop n bs)"
      using wf bd L(1) ba more(2) restz by (auto simp: queue_at_def taken_tls_def wf_mem_def write_at_def b_def)
    have g: "read_bytes dst n ?m4 = Some (map Some (take n bs))" using bd by (intro got) (simp add: da)
    have o: "only_arrays {fst dst, the (socket_io_read_bytes i)} m ?m4" by (simp add: only_arrays_def a(1))
    show ?thesis unfolding e Let_def n_def [symmetric] using q g o by auto
  qed
qed


text \<open>What mbedTLS gets when nothing is there.\<close>

lemma on_io_recv_empty:
  assumes "recv_wait env t m = Some m1" "queue_at m1 t i []"
  shows "on_io_recv env (Some t) dst sz m =
    Some (if tlsio_state i = TLSIO_STATE_OPEN then MBEDTLS_ERR_SSL_WANT_READ else 0, m1)"
proof -
  have i: "tlss m1 t = Some i" "socket_io_read_byte_count i = 0" using queue_tls [OF assms(2)] queue_count(2) [OF assms(2)] by simp_all
  show ?thesis by (simp add: on_io_recv_def assms(1) i)
qed

lemma on_io_recv_after_wait:
  assumes "recv_wait env t m = Some m1" "queue_at m1 t i bs" "bs \<noteq> []"
  shows "on_io_recv env (Some t) dst sz m = on_io_recv env (Some t) dst sz m1"
  by (simp only: on_io_recv_def assms(1) recv_wait_queue [OF assms(2,3)] Option.bind.bind_lunit)

section \<open>Waiting\<close>

text \<open>An iteration of the wait after which it goes on.\<close>

inductive wait_step :: "('z hmem_scheme, 'e) tls_env_scheme \<Rightarrow> addr \<Rightarrow> 'z hmem_scheme \<Rightarrow> 'z hmem_scheme \<Rightarrow> bool"
  for env t where
  wait: "tlss m t = Some i \<Longrightarrow> socket_io_read_byte_count i = 0 \<Longrightarrow> xio_dowork env (socket_io i) m = Some m' \<Longrightarrow>
    tlss m' t = Some i' \<Longrightarrow> tlsio_state i' \<noteq> TLSIO_STATE_OPEN \<Longrightarrow> wait_step env t m m'"

lemma wait_step_recv_wait: "wait_step env t m m' \<Longrightarrow> recv_wait env t m = recv_wait env t m'"
  by (erule wait_step.cases) (subst recv_wait.simps, simp)

text \<open>A wait that goes on from every state of an invariant does not return.\<close>

lemma recv_wait_forever:
  assumes "I m" "\<And>m. I m \<Longrightarrow> \<exists>m'. wait_step env t m m' \<and> I m'"
  shows "recv_wait env t m = None" "\<exists>ms. ms 0 = m \<and> (\<forall>k. wait_step env t (ms k) (ms (Suc k)))"
proof -
  have "e = env \<Longrightarrow> u = t \<Longrightarrow> \<not> I m" if "recv_wait e u m = Some r" for e u m r
    using that
  proof (induction rule: recv_wait.raw_induct [rotated, consumes 1, case_names step])
    case (step f e u m r)
    show ?case
    proof
      assume I: "I m"
      obtain m' where m': "wait_step env t m m'" "I m'" using assms(2) [OF I] by blast
      from m'(1) obtain i i' where "tlss m t = Some i" "socket_io_read_byte_count i = 0" "xio_dowork env (socket_io i) m = Some m'"
        "tlss m' t = Some i'" "tlsio_state i' \<noteq> TLSIO_STATE_OPEN" by cases
      then have "f env t m' = Some r" using step.hyps step.prems by simp
      then show False using step.IH m'(2) by blast
    qed
  qed
  then show "recv_wait env t m = None" using assms(1) by (cases "recv_wait env t m") auto
  have "\<exists>ms. \<forall>k. (I (ms k) \<and> (k = 0 \<longrightarrow> ms k = m)) \<and> wait_step env t (ms k) (ms (Suc k))"
    by (rule dependent_nat_choice) (use assms in auto)
  then show "\<exists>ms. ms 0 = m \<and> (\<forall>k. wait_step env t (ms k) (ms (Suc k)))" by blast
qed

section \<open>Runs\<close>

text \<open>
  What goes on between the other io and an instance: the io delivers bytes, and everything else that
  happens leaves the queue.  The bytes are those that were delivered.
\<close>

definition leaves_queue :: "addr \<Rightarrow> 'z hmem_scheme \<Rightarrow> 'z hmem_scheme \<Rightarrow> bool" where
  "leaves_queue t m m' \<longleftrightarrow> grants m' = grants m \<and> (\<forall>i bs. queue_at m t i bs \<longrightarrow> (\<exists>i'. queue_at m' t i' bs))"

inductive delivers ::
  "('z hmem_scheme, 'e) tls_env_scheme \<Rightarrow> addr \<Rightarrow> 'z hmem_scheme \<Rightarrow> u8 list \<Rightarrow> 'z hmem_scheme \<Rightarrow> bool"
  for env t where
  none: "delivers env t m [] m"
| bytes: "delivers env t m xs m1 \<Longrightarrow> read_bytes q (length ys) m1 = Some (map Some ys) \<Longrightarrow> ys \<noteq> [] \<Longrightarrow>
    \<forall>i. tlss m1 t = Some i \<longrightarrow> outside_queue q i \<Longrightarrow>
    on_underlying_io_bytes_received env (Some t) (Some q) (of_nat (length ys)) m1 = Some m2 \<Longrightarrow> delivers env t m (xs @ ys) m2"
| other: "delivers env t m xs m1 \<Longrightarrow> leaves_queue t m1 m2 \<Longrightarrow> delivers env t m xs m2"

inductive tls_run ::
  "('z hmem_scheme, 'e) tls_env_scheme \<Rightarrow> addr \<Rightarrow> 'z hmem_scheme \<Rightarrow> u8 list \<Rightarrow> u8 list \<Rightarrow> 'z hmem_scheme \<Rightarrow> bool"
  for env t m0 where
  start: "tls_run env t m0 [] [] m0"
| deliver: "tls_run env t m0 arrived read m \<Longrightarrow> delivers env t m xs m' \<Longrightarrow> tls_run env t m0 (arrived @ xs) read m'"
| recv: "tls_run env t m0 arrived read m \<Longrightarrow> recv_wait env t m = Some m1 \<Longrightarrow> delivers env t m xs m1 \<Longrightarrow>
    0 < sz \<Longrightarrow> read_bytes dst (unat sz) m1 \<noteq> None \<Longrightarrow> \<forall>i. tlss m1 t = Some i \<longrightarrow> outside_queue dst i \<Longrightarrow>
    on_io_recv env (Some t) (Some dst) sz m = Some (r, m') \<Longrightarrow>
    (if 0 < r then read_bytes dst (nat r) m' = Some (map Some ys) else ys = []) \<Longrightarrow>
    tls_run env t m0 (arrived @ xs) (read @ ys) m'"

text \<open>If the work of the io delivers, so does the wait: the rule for \<open>on_io_recv\<close> applies.\<close>

lemma delivers_trans: "delivers env t m2 ys m3 \<Longrightarrow> delivers env t m xs m2 \<Longrightarrow> delivers env t m (xs @ ys) m3"
  by (induction rule: delivers.induct) (auto simp flip: append_assoc intro: delivers.intros)

lemma recv_wait_delivers:
  assumes "recv_wait env t m = Some m'" "\<And>h m m'. xio_dowork env h m = Some m' \<Longrightarrow> \<exists>xs. delivers env t m xs m'"
  shows "\<exists>xs. delivers env t m xs m'"
proof -
  have "e = env \<Longrightarrow> u = t \<Longrightarrow> \<exists>xs. delivers env t m xs m'" if "recv_wait e u m = Some m'" for e u m m'
    using that
  proof (induction rule: recv_wait.raw_induct [rotated, consumes 1, case_names step])
    case (step f e u m r)
    obtain i where i: "tlss m t = Some i" using step.hyps step.prems by (auto simp: bind_eq_Some_conv)
    show ?case
    proof (cases "socket_io_read_byte_count i = 0")
      case True
      then obtain m1 i1 where m1: "xio_dowork env (socket_io i) m = Some m1" "tlss m1 t = Some i1"
          "(if tlsio_state i1 = TLSIO_STATE_OPEN then Some m1 else f env t m1) = Some r"
        using step.hyps step.prems i by (auto simp: bind_eq_Some_conv)
      obtain xs where xs: "delivers env t m xs m1" using assms(2) [OF m1(1)] by blast
      show ?thesis
      proof (cases "tlsio_state i1 = TLSIO_STATE_OPEN")
        case False
        then obtain ys where "delivers env t m1 ys r" using step.IH [of env t m1 r] m1(3) by auto
        then show ?thesis using delivers_trans xs by blast
      qed (use m1(3) xs in auto)
    next
      case False
      then show ?thesis using step.hyps step.prems i delivers.none by fastforce
    qed
  qed
  then show ?thesis using assms(1) by blast
qed


text \<open>A change of the state, and an error that the io reports, leave the queue.\<close>

lemma queue_at_state:
  "queue_at m t i bs \<Longrightarrow> queue_at (m\<lparr>tlss := (tlss m)(t \<mapsto> i\<lparr>tlsio_state := st\<rparr>)\<rparr>) t (i\<lparr>tlsio_state := st\<rparr>) bs"
  by (auto simp: queue_at_def wf_mem_def split: option.splits)

lemma set_state_leaves:
  assumes "set_state t st m = Some m'"
  shows "leaves_queue t m m'"
proof -
  obtain i where "tlss m t = Some i" "m' = m\<lparr>tlss := (tlss m)(t \<mapsto> i\<lparr>tlsio_state := st\<rparr>)\<rparr>"
    using assms by (auto simp: set_state_def upd_tls_def bind_eq_Some_conv)
  then show ?thesis unfolding leaves_queue_def using queue_at_state queue_tls by fastforce
qed

lemma leaves_queue_trans: "leaves_queue t m1 m2 \<Longrightarrow> leaves_queue t m2 m3 \<Longrightarrow> leaves_queue t m1 m3"
  unfolding leaves_queue_def by metis

lemma error_leaves:
  assumes "on_underlying_io_error env (Some t) m = Some m'" "tlss m t = Some i" "tlsio_state i \<in> {TLSIO_STATE_OPEN, TLSIO_STATE_ERROR}"
    and "\<And>f c m m'. call_tls_error env f c m = Some m' \<Longrightarrow> leaves_queue t m m'"
  shows "leaves_queue t m m'"
proof (cases "tlsio_state i = TLSIO_STATE_OPEN")
  case True
  then obtain m1 where m1: "set_state t TLSIO_STATE_ERROR m = Some m1" "tls_indicate_error env t m1 = Some m'"
    using assms(1,2) by (auto simp: on_underlying_io_error_def bind_eq_Some_conv)
  have "leaves_queue t m1 m1" by (auto simp: leaves_queue_def)
  then have "leaves_queue t m1 m'" using m1(2) assms(4) by (auto simp: tls_indicate_error_def bind_eq_Some_conv split: option.splits)
  then show ?thesis using set_state_leaves [OF m1(1)] leaves_queue_trans by blast
next
  case False
  then show ?thesis using assms(1-3) by (auto simp: on_underlying_io_error_def leaves_queue_def)
qed

lemma delivers_queue:
  assumes "delivers env t m xs m'" "queue_at m t i bs" "alloc_total m" "length bs + length xs < 2 ^ 31"
  shows "grants m' = grants m \<and> (\<exists>i'. queue_at m' t i' (bs @ xs))"
  using assms
proof (induction rule: delivers.induct)
  case (bytes m xs m1 q ys m2)
  obtain i1 where g: "grants m1 = grants m" and Q: "queue_at m1 t i1 (bs @ xs)" using bytes.IH bytes.prems by auto
  have len: "length (bs @ xs) + length ys < 2 ^ 31" using bytes.prems(3) by simp
  have out: "outside_queue q i1" using bytes.hyps(4) queue_tls [OF Q] by blast
  have "m2 = arrived_mem t i1 (bs @ xs) ys m1"
    using bytes_received_spec [OF Q bytes.hyps(2) out bytes.hyps(3) len, of env] bytes.hyps(5) bytes.prems(2) g
    by (simp add: alloc_total_def)
  then show ?case using arrived_queue [OF Q len bytes.hyps(3)] g by (auto simp: arrived_mem_def)
next
  case (other m xs m1 m2)
  then show ?case by (fastforce simp: leaves_queue_def)
qed auto

lemma tls_run_queue:
  assumes "tls_run env t m0 arrived read m" "queue_at m0 t i0 bs0" "alloc_total m0" "length bs0 + length arrived < 2 ^ 31"
  shows "grants m = grants m0 \<and> (\<exists>i bs. queue_at m t i bs \<and> bs0 @ arrived = read @ bs)"
  using assms
proof (induction rule: tls_run.induct)
  case (deliver arrived read m xs m')
  obtain i bs where Q: "grants m = grants m0" "queue_at m t i bs" "bs0 @ arrived = read @ bs" using deliver.IH deliver.prems by auto
  have "length bs \<le> length (bs0 @ arrived)" by (simp add: Q(3))
  then obtain i' where "grants m' = grants m" "queue_at m' t i' (bs @ xs)"
    using delivers_queue [OF deliver.hyps(2) Q(2)] Q(1) deliver.prems by (auto simp: alloc_total_def)
  moreover have "bs0 @ arrived @ xs = read @ bs @ xs" using Q(3) by (metis append.assoc)
  ultimately show ?case using Q(1) by metis
next
  case (recv arrived read m m1 xs sz dst r m' ys)
  obtain i bs where Q: "grants m = grants m0" "queue_at m t i bs" "bs0 @ arrived = read @ bs" using recv.IH recv.prems by auto
  have "length bs \<le> length (bs0 @ arrived)" by (simp add: Q(3))
  then obtain i1 where g: "grants m1 = grants m" and Q1: "queue_at m1 t i1 (bs @ xs)"
    using delivers_queue [OF recv.hyps(3) Q(2)] Q(1) recv.prems by (auto simp: alloc_total_def)
  have all: "bs0 @ arrived @ xs = read @ bs @ xs" using Q(3) by (metis append.assoc)
  show ?case
  proof (cases "bs @ xs = []")
    case True
    then have Q0: "queue_at m1 t i1 []" using Q1 by simp
    have "\<not> 0 < r" "m' = m1" using on_io_recv_empty [OF recv.hyps(2) Q0, of "Some dst" sz] recv.hyps(7)
      by (auto simp: MBEDTLS_ERR_SSL_WANT_READ_def split: if_splits)
    then show ?thesis using Q0 Q(1) g all True recv.hyps(8) by auto
  next
    case False
    let ?n = "min (unat sz) (length (bs @ xs))"
    obtain ds where ds: "blocks m1 (fst dst) = Some ds" "snd dst + ?n \<le> length ds"
      using recv.hyps(5) by (auto simp: read_bytes_def split: option.splits if_splits)
    have out: "outside_queue dst i1" using recv.hyps(6) queue_tls [OF Q1] by blast
    have run: "on_io_recv env (Some t) (Some dst) sz m1 = Some (r, m')"
      using on_io_recv_after_wait [OF recv.hyps(2) Q1 False] recv.hyps(7) by simp
    note S = on_io_recv_spec [OF Q1 False recv.hyps(4) out ds, of env]
    obtain a where r: "r = int ?n" and got: "read_bytes dst ?n m' = Some (map Some (take ?n (bs @ xs)))"
      and Q': "queue_at m' t (taken_tls ?n (bs @ xs) a i1) (drop ?n (bs @ xs))" and g': "grants m' = grants m1"
      using S run by (auto simp: Let_def only_arrays_def)
    have "0 < ?n" using False recv.hyps(4) by (simp add: unat_gt_0 word_neq_0_conv)
    then have "ys = take ?n (bs @ xs)" using recv.hyps(8) r got by (simp del: take_append)
    then have "bs0 @ arrived @ xs = (read @ ys) @ drop ?n (bs @ xs)" using all by (metis append.assoc append_take_drop_id)
    then show ?thesis using Q' g g' Q(1) by metis
  qed
qed auto

end
