(* ===== verification/Tlsio_Socket.thy ===== *)
theory Tlsio_Socket
  imports Tlsio_Rules
begin

text \<open>
  The TLS transport over the transport over sockets: the functions that each calls of the other are the ones of the
  code.  mbedTLS stays a parameter, given the two functions that it was told to use
  (\<^verbatim>\<open>mbedtls_ssl_set_bio\<close>).
\<close>

section \<open>Linking\<close>

record 'm bio =
  bio_send :: "ptr \<Rightarrow> bptr option \<Rightarrow> u32 \<Rightarrow> 'm \<Rightarrow> (int \<times> 'm) option"
  bio_recv :: "ptr \<Rightarrow> bptr option \<Rightarrow> u32 \<Rightarrow> 'm \<Rightarrow> (int \<times> 'm) option"

record 'm mbedtls_library =
  lib_call :: "'m bio \<Rightarrow> addr \<Rightarrow> mbedtls_call \<Rightarrow> 'm \<Rightarrow> 'm option"
  lib_handshake :: "'m bio \<Rightarrow> addr \<Rightarrow> 'm \<Rightarrow> (int \<times> 'm) option"
  lib_read :: "'m bio \<Rightarrow> addr \<Rightarrow> bptr \<Rightarrow> u32 \<Rightarrow> 'm \<Rightarrow> (int \<times> 'm) option"
  lib_write :: "'m bio \<Rightarrow> addr \<Rightarrow> bptr option \<Rightarrow> u32 \<Rightarrow> 'm \<Rightarrow> (int \<times> 'm) option"

text \<open>The socket, with the callbacks that the TLS transport registers.\<close>

definition socket_callbacks ::
  "('z hmem_scheme, 'e) tls_env_scheme \<Rightarrow> 'z hmem_scheme socket_env \<Rightarrow> 'z hmem_scheme socket_env" where
  "socket_callbacks env senv = senv
     \<lparr>call_open_complete := (\<lambda>f. if f = on_underlying_io_open_complete_fn then on_underlying_io_open_complete env else call_open_complete senv f),
      call_close_complete := (\<lambda>f. if f = on_underlying_io_close_complete_during_close_fn
        then on_underlying_io_close_complete_during_close env else call_close_complete senv f),
      call_bytes_received := (\<lambda>f. if f = on_underlying_io_bytes_received_fn then on_underlying_io_bytes_received env
        else call_bytes_received senv f),
      call_io_error := (\<lambda>f. if f = on_underlying_io_error_fn then on_underlying_io_error env else call_io_error senv f)\<rparr>"

text \<open>Closing, then sending and working, then mbedTLS, then opening: each layer uses the one before.\<close>

definition link_close :: "'z hmem_scheme tls_env \<Rightarrow> 'z hmem_scheme socket_env \<Rightarrow> 'z hmem_scheme tls_env" where
  "link_close env senv = env
     \<lparr>io_close := (\<lambda>f. if f = socketio_close_fn then socketio_close (socket_callbacks env senv) else io_close env f),
      io_destroy := (\<lambda>f. if f = socketio_destroy_fn then socketio_destroy senv else io_destroy env f),
      io_create := (\<lambda>f p m. if f = socketio_create_fn then socketio_create (Option.bind p (socket_configs m)) m else io_create env f p m)\<rparr>"

definition link_work :: "'z hmem_scheme tls_env \<Rightarrow> 'z hmem_scheme socket_env \<Rightarrow> 'z hmem_scheme tls_env" where
  "link_work env senv = (let e = link_close env senv in e
     \<lparr>io_dowork := (\<lambda>f. if f = socketio_dowork_fn then socketio_dowork (socket_callbacks e senv) else io_dowork env f),
      io_send := (\<lambda>f. if f = socketio_send_fn then socketio_send (socket_callbacks e senv) else io_send env f)\<rparr>)"

definition bio_of :: "'z hmem_scheme tls_env \<Rightarrow> 'z hmem_scheme bio" where
  "bio_of env = \<lparr>bio_send = on_io_send env, bio_recv = on_io_recv env\<rparr>"

definition link_mbedtls ::
  "'z hmem_scheme mbedtls_library \<Rightarrow> 'z hmem_scheme tls_env \<Rightarrow> 'z hmem_scheme socket_env \<Rightarrow> 'z hmem_scheme tls_env" where
  "link_mbedtls lib env senv = (let e = link_work env senv in e
     \<lparr>mbedtls := lib_call lib (bio_of e), mbedtls_ssl_handshake := lib_handshake lib (bio_of e),
      mbedtls_ssl_read := lib_read lib (bio_of e), mbedtls_ssl_write := lib_write lib (bio_of e)\<rparr>)"

definition tls_over_sockets ::
  "'z hmem_scheme mbedtls_library \<Rightarrow> 'z hmem_scheme tls_env \<Rightarrow> 'z hmem_scheme socket_env \<Rightarrow> 'z hmem_scheme tls_env" where
  "tls_over_sockets lib env senv = (let e = link_mbedtls lib env senv in e
     \<lparr>io_open := (\<lambda>f. if f = socketio_open_fn then socketio_open (socket_callbacks e senv) else io_open env f)\<rparr>)"

section \<open>A lost connection\<close>

text \<open>An instance over a socket with nothing to send.\<close>

definition over_socket :: "'z hmem_scheme \<Rightarrow> addr \<Rightarrow> TLS_IO_INSTANCE \<Rightarrow> addr \<Rightarrow> SOCKET_IO_INSTANCE \<Rightarrow> bool" where
  "over_socket m t i s si \<longleftrightarrow> tlss m t = Some i \<and>
     (\<exists>x. socket_io i = Some x \<and> xios m x = Some \<lparr>io_interface_description = socket_io_interface_description, concrete_xio_handle = Some s\<rparr>) \<and>
     sockets m s = Some si \<and> blocks m s \<noteq> None \<and> io_state si = IO_STATE_OPEN \<and>
     on_io_error si = Some on_underlying_io_error_fn \<and> on_io_error_context si = Some t \<and>
     (\<exists>l. pending_io_list si = Some l \<and> lists m l = Some \<lparr>head = None, tail = None\<rparr>)"

definition untouched :: "'z hmem_scheme \<Rightarrow> 'z hmem_scheme \<Rightarrow> bool" where
  "untouched m m' \<longleftrightarrow> tlss m' = tlss m \<and> xios m' = xios m \<and> sockets m' = sockets m \<and> lists m' = lists m \<and> dom (blocks m) \<subseteq> dom (blocks m')"

lemma untouched_trans: "untouched m1 m2 \<Longrightarrow> untouched m2 m3 \<Longrightarrow> untouched m1 m3"
  unfolding untouched_def by auto

lemma untouched_over: "untouched m m' \<Longrightarrow> over_socket m t i s si \<Longrightarrow> over_socket m' t i s si"
  unfolding untouched_def over_socket_def by auto

text \<open>
  The network has no more bytes, and it reports the connection as reset; the callback of the user for errors leaves the
  structs alone.
\<close>

definition lost :: "'z hmem_scheme socket_env \<Rightarrow> int \<Rightarrow> bool" where
  "lost senv fd \<longleftrightarrow> (\<forall>m. \<exists>r e m'. sk_recv senv fd RECEIVE_BYTES_VALUE m = Some ((r, e, []), m') \<and> r \<le> 0 \<and> untouched m m')"

definition reset :: "'z hmem_scheme socket_env \<Rightarrow> int \<Rightarrow> 'z hmem_scheme \<Rightarrow> bool" where
  "reset senv fd m \<longleftrightarrow> (\<exists>r e m'. sk_recv senv fd RECEIVE_BYTES_VALUE m = Some ((r, e, []), m') \<and> r < 0 \<and> e \<noteq> EAGAIN)"

definition quiet_errors :: "('z hmem_scheme, 'e) tls_env_scheme \<Rightarrow> bool" where
  "quiet_errors env \<longleftrightarrow> (\<forall>f c m. \<exists>m'. call_tls_error env f c m = Some m' \<and> untouched m m')"

lemma lost_error:
  fixes m :: "'z hmem_scheme"
  assumes O: "over_socket m t i s si" and st: "tlsio_state i \<in> {TLSIO_STATE_OPEN, TLSIO_STATE_ERROR}" and q: "quiet_errors env"
  shows "ok (on_underlying_io_error env (Some t) m) (\<lambda>m'. over_socket m' t (i\<lparr>tlsio_state := TLSIO_STATE_ERROR\<rparr>) s si)"
proof (cases "tlsio_state i = TLSIO_STATE_OPEN")
  case True
  let ?m = "m\<lparr>tlss := (tlss m)(t \<mapsto> i\<lparr>tlsio_state := TLSIO_STATE_ERROR\<rparr>)\<rparr>"
  have i: "tlss m t = Some i" using O by (simp add: over_socket_def)
  have O': "over_socket ?m t (i\<lparr>tlsio_state := TLSIO_STATE_ERROR\<rparr>) s si" using O by (simp add: over_socket_def)
  have "ok (tls_indicate_error env t ?m) (\<lambda>m'. over_socket m' t (i\<lparr>tlsio_state := TLSIO_STATE_ERROR\<rparr>) s si)"
  proof (cases "tls_on_io_error i")
    case (Some f)
    obtain m' where "call_tls_error env f (tls_on_io_error_context i) ?m = Some m'" "untouched ?m m'"
      using q unfolding quiet_errors_def by blast
    then show ?thesis using Some untouched_over [OF _ O'] by (simp add: tls_indicate_error_def)
  qed (use O' in \<open>simp add: tls_indicate_error_def\<close>)
  then show ?thesis using i True by (simp add: on_underlying_io_error_def set_state_def upd_tls_def)
next
  case False
  then have E: "tlsio_state i = TLSIO_STATE_ERROR" using st by simp
  then have "i\<lparr>tlsio_state := TLSIO_STATE_ERROR\<rparr> = i" by simp
  then show ?thesis using O E by (simp add: on_underlying_io_error_def over_socket_def)
qed

lemma lost_work:
  fixes m :: "'z hmem_scheme"
  assumes O: "over_socket m t i s si" and st: "tlsio_state i = TLSIO_STATE_ERROR \<or> tlsio_state i = TLSIO_STATE_OPEN \<and> reset senv (socket_fd si) m"
    and q: "quiet_errors env" and l: "lost senv (socket_fd si)"
  shows "ok (socketio_dowork (socket_callbacks env senv) (Some s) m) (\<lambda>m'. over_socket m' t (i\<lparr>tlsio_state := TLSIO_STATE_ERROR\<rparr>) s si)"
proof -
  let ?E = "socket_callbacks env senv"
  obtain r e m1 where r: "sk_recv senv (socket_fd si) RECEIVE_BYTES_VALUE m = Some ((r, e, []), m1)" "r \<le> 0" "untouched m m1"
    using l unfolding lost_def by blast
  note O1 = untouched_over [OF r(3) O]
  obtain bs where bs: "blocks m1 s = Some bs" using O1 by (auto simp: over_socket_def)
  have w: "write_bytes (s, 0) [] m1 = Some m1" using bs by (simp add: write_bytes_def fun_upd_idem)
  have h: "singlylinkedlist_get_head_item (pending_io_list si) m = Some None"
    using O by (auto simp: over_socket_def singlylinkedlist_get_head_item_def)
  have si: "sockets m s = Some si" "sockets m1 s = Some si" "io_state si = IO_STATE_OPEN" using O O1 by (simp_all add: over_socket_def)
  have err: "indicate_error ?E s m1 = on_underlying_io_error env (Some t) m1"
    using O1 by (simp add: indicate_error_def over_socket_def socket_callbacks_def)
  have recv: "sk_recv ?E = sk_recv senv" by (simp add: socket_callbacks_def)
  have run: "socketio_dowork ?E (Some s) m = (if r < 0 \<and> e \<noteq> EAGAIN then on_underlying_io_error env (Some t) m1 else Some m1)"
  proof -
    have "recv_loop ?E s m = (if r < 0 \<and> e \<noteq> EAGAIN then on_underlying_io_error env (Some t) m1 else Some m1)"
      using r(2) by (subst recv_loop.simps) (simp add: si recv r(1) w err bind_eq_Some_conv)
    then show ?thesis by (simp add: socketio_dowork_def si h send_pending_loop.simps)
  qed
  have E: "ok (on_underlying_io_error env (Some t) m1) (\<lambda>m'. over_socket m' t (i\<lparr>tlsio_state := TLSIO_STATE_ERROR\<rparr>) s si)"
    by (rule lost_error [OF O1 _ q]) (use st in auto)
  show ?thesis
  proof (cases "r < 0 \<and> e \<noteq> EAGAIN")
    case False
    then have "tlsio_state i = TLSIO_STATE_ERROR" using st r(1) by (auto simp: reset_def)
    then have "i\<lparr>tlsio_state := TLSIO_STATE_ERROR\<rparr> = i" by simp
    then show ?thesis using run O1 False by auto
  qed (use run E in simp)
qed

lemma lost_wait_step:
  fixes m :: "'z hmem_scheme"
  assumes "over_socket m t i s si" "tlsio_state i = TLSIO_STATE_ERROR \<or> tlsio_state i = TLSIO_STATE_OPEN \<and> reset senv (socket_fd si) m"
    and "quiet_errors env" "lost senv (socket_fd si)" "socket_io_read_byte_count i = 0"
  shows "\<exists>m'. wait_step (link_work env senv) t m m' \<and> over_socket m' t (i\<lparr>tlsio_state := TLSIO_STATE_ERROR\<rparr>) s si"
proof -
  have q: "quiet_errors (link_close env senv)" using assms(3) by (simp add: quiet_errors_def link_close_def)
  obtain m' where m': "socketio_dowork (socket_callbacks (link_close env senv) senv) (Some s) m = Some m'"
      "over_socket m' t (i\<lparr>tlsio_state := TLSIO_STATE_ERROR\<rparr>) s si"
    using lost_work [OF assms(1,2) q assms(4)] by (auto simp: ok_iff)
  have "xio_dowork (link_work env senv) (socket_io i) m = Some m'"
    using assms(1) m'(1) by (auto simp: over_socket_def xio_dowork_def socket_io_interface_description_def link_work_def Let_def)
  then have "wait_step (link_work env senv) t m m'"
    using assms(1,5) m'(2) by (intro wait_step.wait [of m t i _ _ "i\<lparr>tlsio_state := TLSIO_STATE_ERROR\<rparr>"]) (simp_all add: over_socket_def)
  then show ?thesis using m'(2) by blast
qed

lemma lost_waits_forever:
  fixes m :: "'z hmem_scheme"
  assumes "over_socket m t i s si" "tlsio_state i = TLSIO_STATE_OPEN" "reset senv (socket_fd si) m"
    and "quiet_errors env" "lost senv (socket_fd si)" "socket_io_read_byte_count i = 0"
  shows "recv_wait (link_work env senv) t m = None" "\<exists>ms. ms 0 = m \<and> (\<forall>k. wait_step (link_work env senv) t (ms k) (ms (Suc k)))"
proof -
  define I where "I m' \<longleftrightarrow> m' = m \<or> over_socket m' t (i\<lparr>tlsio_state := TLSIO_STATE_ERROR\<rparr>) s si" for m'
  have "\<exists>m''. wait_step (link_work env senv) t m' m'' \<and> I m''" if "I m'" for m'
    using that lost_wait_step [OF assms(1) _ assms(4,5,6)] lost_wait_step [OF _ _ assms(4,5), of m' t "i\<lparr>tlsio_state := TLSIO_STATE_ERROR\<rparr>" s]
      assms(2,3,6) by (auto simp: I_def)
  then show "recv_wait (link_work env senv) t m = None" "\<exists>ms. ms 0 = m \<and> (\<forall>k. wait_step (link_work env senv) t (ms k) (ms (Suc k)))"
    using recv_wait_forever [of I m "link_work env senv" t] by (auto simp: I_def)
qed

end
