(* ===== verification/Tlsio_Life.thy ===== *)
theory Tlsio_Life
  imports Tlsio_Socket
begin

text \<open>
  The life of an instance of the TLS transport, for an mbedTLS and another io that keep what they do in a world
  outside (\<open>tls_ops\<close>); its options; the source of entropy.
\<close>

section \<open>Creation and destruction\<close>

record 'w tls_ops =
  t_call :: "addr \<Rightarrow> mbedtls_call \<Rightarrow> 'w \<Rightarrow> 'w"
  u_create :: "ptr \<Rightarrow> 'w \<Rightarrow> ptr \<times> 'w"
  u_close :: "ptr \<Rightarrow> 'w \<Rightarrow> int \<times> 'w"
  u_destroy :: "ptr \<Rightarrow> 'w \<Rightarrow> 'w"

record 'w hwmem = hmem +
  hworld :: 'w

definition tls_env_of :: "'w tls_ops \<Rightarrow> 'w hwmem tls_env \<Rightarrow> 'w hwmem tls_env" where
  "tls_env_of T E = E
     \<lparr>mbedtls := (\<lambda>t c m. Some (m\<lparr>hworld := t_call T t c (hworld m)\<rparr>)),
      io_create := (\<lambda>f p m. let (h, w) = u_create T p (hworld m) in Some (h, m\<lparr>hworld := w\<rparr>)),
      io_close := (\<lambda>f h cb m. let (r, w) = u_close T h (hworld m) in Some (r, m\<lparr>hworld := w\<rparr>)),
      io_destroy := (\<lambda>f h m. Some (m\<lparr>hworld := u_destroy T h (hworld m)\<rparr>))\<rparr>"

lemma mbedtls_all_world:
  fixes m :: "'w hwmem"
  shows "mbedtls_all (tls_env_of T E) t cs m = Some (m\<lparr>hworld := fold (t_call T t) cs (hworld m)\<rparr>)"
  by (induction cs arbitrary: m) (simp_all add: tls_env_of_def)

definition init_calls :: "addr \<Rightarrow> char_ptr option \<Rightarrow> mbedtls_call list" where
  "init_calls t host =
     [threading_set_alt, entropy_init, ctr_drbg_init, ssl_init, ssl_session_init, ssl_config_init,
      x509_crt_init trusted_certificates_parsed, x509_crt_init client_certificates_parsed, pk_init,
      entropy_add_source 128, ctr_drbg_seed (lit ''raspberrypi''),
      ssl_config_defaults, ssl_conf_rng, ssl_conf_authmode 1, ssl_conf_min_version 3 3,
      ssl_set_bio (Some t), ssl_set_hostname host, ssl_set_session, ssl_conf_dbg, debug_set_threshold 1, ssl_setup]"

definition destroy_calls :: "mbedtls_call list" where
  "destroy_calls = [ssl_close_notify, ssl_free, ssl_config_free, x509_crt_free trusted_certificates_parsed,
     x509_crt_free client_certificates_parsed, pk_free, ctr_drbg_free, entropy_free]"

lemma mbedtls_init_world:
  fixes m :: "'w hwmem"
  shows "mbedtls_init (tls_env_of T E) t host m = Some (m\<lparr>hworld := fold (t_call T t) (init_calls t host) (hworld m)\<rparr>)"
  by (simp only: mbedtls_init_def mbedtls_all_world init_calls_def MBEDTLS_SSL_VERIFY_OPTIONAL_def
      MBEDTLS_SSL_MAJOR_VERSION_3_def MBEDTLS_SSL_MINOR_VERSION_3_def)

definition io_of :: "IO_INTERFACE_DESCRIPTION \<Rightarrow> bool" where
  "io_of d \<longleftrightarrow> concrete_io_retrieveoptions d \<noteq> None \<and> concrete_io_create d \<noteq> None \<and> concrete_io_destroy d \<noteq> None \<and>
     concrete_io_open d \<noteq> None \<and> concrete_io_close d \<noteq> None \<and> concrete_io_send d \<noteq> None \<and> concrete_io_dowork d \<noteq> None \<and>
     concrete_io_setoption d \<noteq> None"

text \<open>The memory with a new instance over a new io with the handle \<open>h\<close>; \<open>b\<close> is the address of its xio.\<close>

definition created :: "addr \<Rightarrow> addr \<Rightarrow> IO_INTERFACE_DESCRIPTION \<Rightarrow> ptr \<Rightarrow> 'w \<Rightarrow> 'w hwmem \<Rightarrow> 'w hwmem" where
  "created t x d h w m = m\<lparr>brk := Suc x, tlss := (tlss m)(t \<mapsto> zero_tls\<lparr>socket_io := Some x\<rparr>),
     xios := (xios m)(x \<mapsto> \<lparr>io_interface_description = d, concrete_xio_handle = h\<rparr>), hworld := w\<rparr>"

definition fresh_tls :: "'z hmem_scheme \<Rightarrow> bool" where
  "fresh_tls m \<longleftrightarrow> (\<forall>a \<ge> brk m. tlss m a = None \<and> xios m a = None \<and> socket_configs m a = None \<and> cert_instances m a = None)"

lemma tls_create_spec:
  fixes m :: "'w hwmem"
  assumes F: "fresh_tls m" and d: "underlying_io_interface config = Some d" "io_of d"
  shows "\<exists>b w. tlsio_mbedtls_create (tls_env_of T E) (Some config) m = Some (None, m\<lparr>brk := b, hworld := w\<rparr>) \<or>
    (\<exists>h v. tlsio_mbedtls_create (tls_env_of T E) (Some config) m =
       Some (Some (brk m), created (brk m) (brk m + 2) d (Some h) (fold (t_call T (brk m)) (init_calls (brk m) (tls_hostname config)) v) m) \<and>
     (Some h, v) = u_create T (underlying_io_parameters config) (hworld m))"
proof -
  obtain ro cr de op cl se dw so where D: "d = \<lparr>concrete_io_retrieveoptions = Some ro, concrete_io_create = Some cr,
      concrete_io_destroy = Some de, concrete_io_open = Some op, concrete_io_close = Some cl, concrete_io_send = Some se,
      concrete_io_dowork = Some dw, concrete_io_setoption = Some so\<rparr>"
    using d(2) by (cases d) (auto simp: io_of_def)
  obtain h v where u: "u_create T (underlying_io_parameters config) (hworld m) = (h, v)" by (metis surj_pair)
  let ?t = "brk m" and ?x = "brk m + 2"
  have fr: "tlss m ?t = None" "xios m ?x = None" "socket_configs m (Suc ?t) = None"
    using F by (simp_all add: fresh_tls_def)
  have triv: "(tlss m)(?t := None) = tlss m" "(xios m)(?x := None) = xios m" "(socket_configs m)(Suc ?t := None) = socket_configs m"
    using fr by (simp_all add: fun_upd_idem)
  note run = tlsio_mbedtls_create_def malloc_struct_def d(1) xio_create_def set_xio_def free_xio_def upd_tls_def free_tls_def set_state_def
    mbedtls_init_world
  show ?thesis
  proof (cases "grants m ?t (sizeof_TLS_IO_INSTANCE E)")
    case False
    then have "tlsio_mbedtls_create (tls_env_of T E) (Some config) m = Some (None, m\<lparr>brk := Suc ?t\<rparr>)"
      by (simp add: run tls_env_of_def)
    moreover have "m\<lparr>brk := Suc ?t\<rparr> = m\<lparr>brk := Suc ?t, hworld := hworld m\<rparr>" by simp
    ultimately show ?thesis by metis
  next
    case t: True
    show ?thesis
    proof (cases "grants m ?x sizeof_XIO_INSTANCE")
      case False
      then have "tlsio_mbedtls_create (tls_env_of T E) (Some config) m = Some (None, m\<lparr>brk := Suc ?x\<rparr>)"
        using t triv by (simp add: run D tls_env_of_def)
      moreover have "m\<lparr>brk := Suc ?x\<rparr> = m\<lparr>brk := Suc ?x, hworld := hworld m\<rparr>" by simp
      ultimately show ?thesis by metis
    next
      case x: True
      show ?thesis
      proof (cases h)
        case None
        then have "tlsio_mbedtls_create (tls_env_of T E) (Some config) m = Some (None, m\<lparr>brk := Suc ?x, hworld := v\<rparr>)"
          using t x u triv by (simp add: run D tls_env_of_def)
        then show ?thesis by blast
      next
        case (Some k)
        have "io_create (tls_env_of T E) cr (underlying_io_parameters config) m' = Some (Some k, m'\<lparr>hworld := v\<rparr>)"
          if "hworld m' = hworld m" for m' using that u Some by (simp add: tls_env_of_def)
        moreover have "sizeof_TLS_IO_INSTANCE (tls_env_of T E) = sizeof_TLS_IO_INSTANCE E" by (simp add: tls_env_of_def)
        ultimately have "tlsio_mbedtls_create (tls_env_of T E) (Some config) m =
            Some (Some ?t, created ?t ?x d (Some k) (fold (t_call T ?t) (init_calls ?t (tls_hostname config)) v) m)"
          using t x triv by (simp add: run D created_def zero_tls_def)
        then show ?thesis using u Some by metis
      qed
    qed
  qed
qed

lemma tls_destroy_spec:
  fixes m :: "'w hwmem"
  assumes F: "fresh_tls m" and d: "io_of d" and tx: "brk m \<le> t" "brk m \<le> x"
  shows "\<exists>w'. tlsio_mbedtls_destroy (tls_env_of T E) (Some t) (created t x d h w m) = Some (m\<lparr>brk := Suc x, hworld := w'\<rparr>) \<and>
    w' = u_destroy T h (snd (u_close T h (fold (t_call T t) destroy_calls w)))"
proof -
  have triv: "(tlss m)(t := None) = tlss m" "(xios m)(x := None) = xios m"
    using F tx by (simp_all add: fresh_tls_def fun_upd_idem)
  obtain r v where u: "u_close T h (fold (t_call T t) destroy_calls w) = (r, v)" by (metis surj_pair)
  obtain cl de where D: "concrete_io_close d = Some cl" "concrete_io_destroy d = Some de" using d by (auto simp: io_of_def)
  have all: "mbedtls_all (tls_env_of T E) t [ssl_close_notify, ssl_free, ssl_config_free, x509_crt_free trusted_certificates_parsed,
      x509_crt_free client_certificates_parsed, pk_free, ctr_drbg_free, entropy_free] m' =
      Some (m'\<lparr>hworld := fold (t_call T t) destroy_calls (hworld m')\<rparr>)" for m' :: "'w hwmem"
    by (simp only: mbedtls_all_world destroy_calls_def)
  show ?thesis
    by (simp only: tlsio_mbedtls_destroy_def all option.case Option.bind.bind_lunit)
      (simp add: created_def xio_close_def xio_destroy_def free_xio_def free_tls_def zero_tls_def tls_env_of_def D u triv)
qed

section \<open>Options\<close>

text \<open>A handler whose first option is the options of the other io, fed to an instance over a socket.\<close>

lemma not_socket_option:
  "OPTION_UNDERLYING_IO_OPTIONS \<noteq> lit ''tcp_keepalive''" "OPTION_UNDERLYING_IO_OPTIONS \<noteq> lit ''tcp_keepalive_time''"
  "OPTION_UNDERLYING_IO_OPTIONS \<noteq> lit ''tcp_keepalive_interval''" "OPTION_UNDERLYING_IO_OPTIONS \<noteq> OPTION_NET_INT_MAC_ADDRESS"
  "OPTION_UNDERLYING_IO_OPTIONS \<noteq> CONCRETE_OPTIONS" "OPTION_UNDERLYING_IO_OPTIONS \<noteq> OPTION_TRUSTED_CERT"
  "OPTION_UNDERLYING_IO_OPTIONS \<noteq> OPTION_X509_ECC_CERT" "OPTION_UNDERLYING_IO_OPTIONS \<noteq> OPTION_X509_ECC_KEY"
  by (simp_all add: OPTION_UNDERLYING_IO_OPTIONS_def OPTION_NET_INT_MAC_ADDRESS_def CONCRETE_OPTIONS_def OPTION_TRUSTED_CERT_def
      OPTION_X509_ECC_CERT_def OPTION_X509_ECC_KEY_def lit_def)

lemma underlying_refused:
  fixes m :: "'z hmem_scheme"
  assumes c: "c_string p m = Some OPTION_UNDERLYING_IO_OPTIONS" and O: "over_socket m t i s si"
    and so: "io_setoption oenv socketio_setoption_fn = socketio_setoption senv"
  shows "tlsio_mbedtls_setoption env oenv (Some t) (Some p) (Some v) m = Some (FAILURE, m)"
proof -
  have "socketio_setoption senv (Some s) (Some p) (Some v) m = Some (FAILURE, m)"
    using O c not_socket_option by (auto simp: socketio_setoption_def over_socket_def name_ptr_def)
  then show ?thesis
    using O c not_socket_option so
    by (auto simp: tlsio_mbedtls_setoption_def over_socket_def xio_setoption_def socket_io_interface_description_def)
qed

lemma feed_refused:
  fixes m :: "'z hmem_scheme"
  assumes H: "options_at m h d ((a, OPTION_UNDERLYING_IO_OPTIONS, v) # os)" and f: "setOption d = Some tlsio_mbedtls_setoption_fn"
    and O: "over_socket m t i s si" and so: "io_setoption oenv socketio_setoption_fn = socketio_setoption senv"
  shows "OptionHandler_FeedOptions (tls_functions env oenv) (Some h) (Some t) m = Some (OPTIONHANDLER_ERROR, m)"
proof -
  let ?os = "(a, OPTION_UNDERLYING_IO_OPTIONS, v) # os"
  have h: "handlers m h = Some d" using H by (simp add: options_at_def)
  have c: "c_string (Chars a 0) m = Some OPTION_UNDERLYING_IO_OPTIONS" using option_at(2) [OF H, of 0] by simp
  have set: "set_option (tls_functions env oenv) tlsio_mbedtls_setoption_fn (Some t) (Some (Chars a 0)) (Some v) m = Some (FAILURE, m)"
    using underlying_refused [OF c O so, of env v] by (simp add: tls_functions_def)
  have n: "unat (of_nat (length ?os) :: u32) = length ?os" by (rule unat_of_nat_u32) (use options_size(2) [OF H] in simp)
  have e: "VECTOR_element (handler_storage d) 0 m \<bind> (\<lambda>p. read_option p m) = Some (option_of (a, OPTION_UNDERLYING_IO_OPTIONS, v))"
    using option_at(1) [OF H, of 0] by simp
  then obtain p where p: "VECTOR_element (handler_storage d) 0 m = Some p" "read_option p m = Some (option_of (a, OPTION_UNDERLYING_IO_OPTIONS, v))"
    by (auto simp: bind_eq_Some_conv)
  have "feed_options (tls_functions env oenv) h (Some t) 0 (Suc (length os)) m = Some (True, m)"
    by (simp add: h f p option_of_def name_ptr_def set)
  then show ?thesis
    using options_size(1) [OF H] n by (simp add: OptionHandler_FeedOptions_def h)
qed

text \<open>The clone of the certificates is a string, which the setter takes for a struct.\<close>

lemma cloned_certificates_undefined:
  fixes m :: "'z hmem_scheme"
  assumes c: "c_string p m = Some OPTION_TRUSTED_CERT" "c_string (Chars v 0) m = Some pem" "length pem < 2 ^ 32 - 1"
    and m: "wf_mem m" "fresh_tls m" "tlss m t = Some i" and room: "grants m (brk m) (Suc (length pem))"
  shows "\<exists>m'. tlsio_mbedtls_CloneOption (Some p) (Some v) m = Some (Some (brk m), m') \<and>
    tlsio_mbedtls_setoption env oenv (Some t) (Some p) (Some (brk m)) m' = None"
proof -
  let ?m = "m\<lparr>brk := Suc (brk m), chars := (chars m)(brk m \<mapsto> cstr pem)\<rparr>"
  have "mallocAndStrcpy_s (Some None) (Some (Chars v 0)) m = Some ((0, Some (Some (brk m))), ?m)"
    using mallocAndStrcpy_spec [OF c(2,3) m(1)] room by simp
  then have clone: "tlsio_mbedtls_CloneOption (Some p) (Some v) m = Some (Some (brk m), ?m)"
    using c(1) not_socket_option(6) by (simp add: tlsio_mbedtls_CloneOption_def name_ptr_def)
  have "char_bytes p ?m = char_bytes p m"
    using c(1) wf_mem_fresh [OF m(1), of "brk m"] by (cases p) (auto simp: c_string_def)
  then have "c_string p ?m = Some OPTION_TRUSTED_CERT" using c(1) by (simp only: c_string_def)
  moreover have "cert_instances ?m (brk m) = None" using m(2) by (simp add: fresh_tls_def)
  ultimately have "tlsio_mbedtls_setoption env oenv (Some t) (Some p) (Some (brk m)) ?m = None"
    using m(3) by (simp add: tlsio_mbedtls_setoption_def upd_tls_def)
  then show ?thesis using clone by blast
qed


section \<open>Entropy\<close>

text \<open>The bytes that \<open>n\<close> calls of \<open>rand\<close> give, when it does not touch the memory of the library.\<close>

fun rand_bytes :: "('w \<Rightarrow> int \<times> 'w) \<Rightarrow> nat \<Rightarrow> 'w \<Rightarrow> u8 list \<times> 'w" where
  "rand_bytes R 0 w = ([], w)"
| "rand_bytes R (Suc n) w = (let (r, w) = R w; (bs, w) = rand_bytes R n w in (of_int r # bs, w))"

lemma rand_bytes_length: "length (fst (rand_bytes R n w)) = n"
  by (induction n arbitrary: w) (simp_all add: split_def Let_def)

lemma byte_mod: "(of_int (r mod 256) :: u8) = of_int r"
  by (rule word_eq_iff_unsigned [THEN iffD2]) (simp add: uint_word_of_int unsigned_of_int take_bit_eq_mod)

lemma entropy_loop_spec:
  fixes m :: "'w hwmem"
  assumes "unat i + n = unat len" "unat len < 2 ^ 16" "chars m c = Some (xs @ ys)" "length xs = unat i" "length ys = n"
    and R: "\<And>m :: 'w hwmem. rand env m = (let (r, w) = R (hworld m) in Some (r, m\<lparr>hworld := w\<rparr>))"
  shows "entropy_loop env c i len m = Some (m\<lparr>chars := (chars m)(c \<mapsto> xs @ map Some (fst (rand_bytes R n (hworld m)))),
    hworld := snd (rand_bytes R n (hworld m))\<rparr>)"
  using assms(1-5)
proof (induction n arbitrary: i m xs ys)
  case 0
  have "\<not> ucast i < len" using 0 by (simp add: word_less_nat_alt unat_ucast_up)
  then show ?case using 0 by (subst entropy_loop.simps) (simp add: fun_upd_idem)
next
  case (Suc n)
  obtain y zs where ys: "ys = y # zs" using Suc.prems(5) by (cases ys) auto
  obtain r w where r: "R (hworld m) = (r, w)" by (metis surj_pair)
  have i: "unat i < unat len" using Suc.prems(1) by simp
  then have less: "ucast i < len" by (simp add: word_less_nat_alt unat_ucast_up)
  have i1: "unat (i + 1) = Suc (unat i)" using i Suc.prems(2) by (simp add: unat_word_ariths)
  let ?m = "m\<lparr>hworld := w, chars := (chars m)(c \<mapsto> (xs @ [Some (of_int r)]) @ zs)\<rparr>"
  have "cwrite (c, unat i) [Some (of_int (r mod 256))] (m\<lparr>hworld := w\<rparr>) = Some ?m"
    using Suc.prems(3,4) ys by (simp add: cwrite_def byte_mod write_at_def)
  then have "entropy_loop env c i len m = entropy_loop env c (i + 1) len ?m"
    by (subst entropy_loop.simps) (simp add: less R r)
  also have "\<dots> = Some (?m\<lparr>chars := (chars ?m)(c \<mapsto> (xs @ [Some (of_int r)]) @ map Some (fst (rand_bytes R n (hworld ?m)))),
      hworld := snd (rand_bytes R n (hworld ?m))\<rparr>)"
    by (rule Suc.IH [of "i + 1" ?m "xs @ [Some (of_int r)]" zs]) (use Suc.prems i1 ys in simp_all)
  finally show ?case by (simp add: r split_def Let_def fun_upd_def cong: if_cong)
qed

lemma entropy_spec:
  fixes m :: "'w hwmem"
  assumes len: "unat len < 2 ^ 16" and room: "blocks m (fst q) = Some ds" "snd q + unat len \<le> length ds"
    and fresh: "chars m (brk m) = None" and g: "grants m (brk m) (unat len)"
    and S: "\<And>m :: 'w hwmem. srand_time env m = Some m"
    and R: "\<And>m :: 'w hwmem. rand env m = (let (r, w) = R (hworld m) in Some (r, m\<lparr>hworld := w\<rparr>))"
  shows "tlsio_entropy_poll env q len m = Some ((0, len), m\<lparr>brk := Suc (brk m),
    blocks := (blocks m)(fst q \<mapsto> write_at (snd q) (map Some (fst (rand_bytes R (unat len) (hworld m)))) ds),
    hworld := snd (rand_bytes R (unat len) (hworld m))\<rparr>)"
proof -
  let ?n = "unat len"
  let ?m = "m\<lparr>brk := Suc (brk m), chars := (chars m)(brk m \<mapsto> replicate ?n (Some 0))\<rparr>"
  let ?bs = "map Some (fst (rand_bytes R ?n (hworld m)))"
  have z: "cwrite (brk m, 0) (replicate ?n (Some 0)) (m\<lparr>brk := Suc (brk m), chars := (chars m)(brk m \<mapsto> replicate ?n None)\<rparr>) = Some ?m"
    by (simp add: cwrite_def write_at_all)
  have loop: "entropy_loop env (brk m) 0 len ?m = Some (?m\<lparr>chars := (chars ?m)(brk m \<mapsto> ?bs), hworld := snd (rand_bytes R ?n (hworld m))\<rparr>)"
    using entropy_loop_spec [of 0 ?n len ?m "brk m" "[]" "replicate ?n (Some 0)", OF _ len _ _ _ R] by simp
  have bl: "length ?bs = ?n" by (simp add: rand_bytes_length)
  have same: "(chars m)(brk m := None) = chars m" using fresh by (simp add: fun_upd_idem)
  show ?thesis
    by (simp add: tlsio_entropy_poll_def S cmalloc_def g z loop cread_def bl write_bytes_def room cfree_def same del: length_map)
qed

end
