(* ===== verification/Tlsio_Properties.thy ===== *)
theory Tlsio_Properties
  imports Tlsio_Life
begin

text \<open>
  The properties of the TLS transport, with their witnesses on a heap with one instance over one socket.
\<close>

section \<open>A heap\<close>

definition lost_socket :: SOCKET_IO_INSTANCE where
  "lost_socket = \<lparr>socket_fd = 7, on_bytes_received = Some on_underlying_io_bytes_received_fn, on_io_error = Some on_underlying_io_error_fn,
     on_bytes_received_context = Some 4, on_io_error_context = Some 4, hostname = Some 5, port = 8883, target_mac_address = None,
     io_state = IO_STATE_OPEN, pending_io_list = Some 2\<rparr>"

definition sample_tls :: TLS_IO_INSTANCE where
  "sample_tls = zero_tls\<lparr>socket_io := Some 3, tlsio_state := TLSIO_STATE_OPEN, tls_on_io_error := Some 6\<rparr>"

definition options_handler :: OPTIONHANDLER_HANDLE_DATA where
  "options_handler = \<lparr>cloneOption = Some tlsio_mbedtls_CloneOption_fn, destroyOption = Some tlsio_mbedtls_DestroyOption_fn,
     setOption = Some tlsio_mbedtls_setoption_fn, handler_storage = Some 14\<rparr>"

definition tls_heap :: "nat hwmem" where
  "tls_heap = \<lparr>grants = \<lambda>_ _. True, brk = 20,
     blocks = [1 \<mapsto> replicate 64 None, 10 \<mapsto> map Some [1, 2, 3], 11 \<mapsto> replicate 4 None,
       15 \<mapsto> option_bytes (option_of (16, OPTION_UNDERLYING_IO_OPTIONS, 17))],
     chars = [5 \<mapsto> cstr [0x68], 16 \<mapsto> cstr OPTION_UNDERLYING_IO_OPTIONS], buffers = Map.empty, strs = Map.empty, codecs = Map.empty,
     messages = Map.empty, tick_counters = Map.empty,
     xios = [3 \<mapsto> \<lparr>io_interface_description = socket_io_interface_description, concrete_xio_handle = Some 1\<rparr>],
     list_items = Map.empty, lists = [2 \<mapsto> \<lparr>head = None, tail = None\<rparr>],
     vectors = [14 \<mapsto> \<lparr>vec_storage = Some 15, vec_count = 1, elementSize = 8\<rparr>], handlers = [13 \<mapsto> options_handler],
     sockets = [1 \<mapsto> lost_socket], pendings = Map.empty, tlss = [4 \<mapsto> sample_tls], cert_instances = Map.empty,
     key_instances = Map.empty, socket_configs = Map.empty, hworld = 0\<rparr>"

definition user_env :: "nat hwmem tls_env" where
  "user_env = \<lparr>xTaskGetTickCount = \<lambda>m. (0, m), vTaskDelay = \<lambda>_ m. Some m, io_create = \<lambda>_ _ _. None, io_destroy = \<lambda>_ _ _. None,
     io_open = \<lambda>_ _ _ _ _ _. None, io_close = \<lambda>_ _ _ _. None, io_send = \<lambda>_ _ _ _ _ _. None, io_dowork = \<lambda>_ _ _. None,
     sizeof_TLS_IO_INSTANCE = 4000, mbedtls = \<lambda>_ _ m. Some m, mbedtls_ssl_handshake = \<lambda>_ m. Some (0, m),
     mbedtls_ssl_read = \<lambda>_ _ _ m. Some (0, m), mbedtls_ssl_write = \<lambda>_ _ n m. Some (sint n, m),
     mbedtls_x509_crt_parse = \<lambda>_ _ _ _ m. Some (0, m), mbedtls_pk_parse_key = \<lambda>_ _ _ m. Some (0, m),
     srand_time = \<lambda>m. Some m, rand = \<lambda>m. Some (int (hworld m), m\<lparr>hworld := hworld m + 100\<rparr>),
     call_tls_opened = \<lambda>_ _ _ m. Some m, call_tls_closed = \<lambda>_ _ m. Some m, call_tls_received = \<lambda>_ _ _ _ m. Some m,
     call_tls_error = \<lambda>_ _ m. Some (m\<lparr>hworld := Suc (hworld m)\<rparr>)\<rparr>"

text \<open>The network after a reset of the connection.\<close>

definition lost_network :: "nat hwmem socket_env" where
  "lost_network = \<lparr>clone_option = \<lambda>_ _ _ _. None, destroy_option = \<lambda>_ _ _ _. None, set_option = \<lambda>_ _ _ _ _. None, sk_socket = \<lambda>_. None,
     sk_close = \<lambda>_ m. Some m, sk_shutdown = \<lambda>_ m. Some m, sk_send = \<lambda>_ _ m. Some ((- 1, 104), m), sk_recv = \<lambda>_ _ m. Some ((- 1, 104, []), m),
     sk_getaddrinfo = \<lambda>_ _ _. None, sk_freeaddrinfo = \<lambda>_ _. None, sk_fcntl = \<lambda>_ _ _ _. None, sk_connect = \<lambda>_ _ _. None,
     sk_select = \<lambda>_ _ _. None, sk_getsockopt = \<lambda>_ _ _ _. None, sk_setsockopt = \<lambda>_ _ _ _ _. None, call_open_complete = \<lambda>_ _ _ _. None,
     call_close_complete = \<lambda>_ _ _. None, call_send_complete = \<lambda>_ _ _ _. None, call_bytes_received = \<lambda>_ _ _ _ _. None,
     call_io_error = \<lambda>_ _ _. None\<rparr>"

text \<open>An mbedTLS that asks for five bytes when it is read.\<close>

definition asking_library :: "nat hwmem mbedtls_library" where
  "asking_library = \<lparr>lib_call = \<lambda>_ _ _ m. Some m, lib_handshake = \<lambda>_ _ m. Some (0, m),
     lib_read = \<lambda>B t _ _ m. bio_recv B (Some t) (Some (11, 0)) 5 m, lib_write = \<lambda>_ _ _ n m. Some (sint n, m)\<rparr>"

lemma tls_heap_over: "over_socket tls_heap 4 sample_tls 1 lost_socket"
  by (simp add: over_socket_def tls_heap_def sample_tls_def lost_socket_def)

lemma tls_heap_queue: "queue_at tls_heap 4 sample_tls []"
  by (simp add: queue_at_def tls_heap_def sample_tls_def zero_tls_def wf_mem_def)

lemma tls_heap_network: "quiet_errors user_env" "lost lost_network fd" "reset lost_network fd m"
  by (simp_all add: quiet_errors_def lost_def reset_def user_env_def lost_network_def untouched_def EAGAIN_def)

section \<open>The stream to mbedTLS\<close>

text \<open>
  C35: over every run of deliveries by the other io and of reads by mbedTLS, with anything in between that
  leaves the queue of the instance, mbedTLS reads the bytes of the connection in their order, each once: what was there and what was
  delivered is, together, what mbedTLS has read and what the instance still has.
\<close>

theorem tls_stream:
  assumes "tls_run env t m0 arrived read m" "queue_at m0 t i0 bs0" "alloc_total m0" "length bs0 + length arrived < 2 ^ 31"
  shows "\<exists>i bs. queue_at m t i bs \<and> bs0 @ arrived = read @ bs"
  using tls_run_queue [OF assms] by blast

theorem tls_stream_witness:
  "\<exists>m i. tls_run user_env 4 tls_heap [1, 2, 3] [1, 2] m \<and> queue_at m 4 i [3]"
proof -
  let ?m1 = "arrived_mem 4 sample_tls [] [1, 2, 3] tls_heap"
  let ?i1 = "sample_tls\<lparr>socket_io_read_bytes := Some (brk tls_heap), socket_io_read_byte_count := of_nat (length ([] @ [1, 2, 3 :: u8]))\<rparr>"
  have r: "read_bytes (10, 0) (length [1, 2, 3 :: u8]) tls_heap = Some (map Some [1, 2, 3])" "outside_queue (10, 0) sample_tls"
    by (simp_all add: tls_heap_def read_bytes_def outside_queue_def sample_tls_def zero_tls_def)
  have "on_underlying_io_bytes_received user_env (Some 4) (Some (10, 0)) (of_nat (length [1, 2, 3 :: u8])) tls_heap = Some ?m1"
    using bytes_received_spec [OF tls_heap_queue r, of user_env] by (simp add: tls_heap_def)
  then have D: "delivers user_env 4 tls_heap ([] @ [1, 2, 3]) ?m1"
    by (intro delivers.bytes [OF delivers.none r(1)]) (use r(2) queue_tls [OF tls_heap_queue] in auto)
  have Q: "queue_at ?m1 4 ?i1 ([] @ [1, 2, 3])" by (rule arrived_queue [OF tls_heap_queue]) simp_all
  have ds: "blocks ?m1 (fst (11, 0)) = Some (replicate 4 None)" "snd (11, 0) + min (unat (2 :: u32)) (length ([] @ [1, 2, 3 :: u8])) \<le> length (replicate 4 (None :: mbyte))"
    by (simp_all add: arrived_mem_def tls_heap_def sample_tls_def zero_tls_def)
  have out: "outside_queue (11, 0) ?i1" by (simp add: outside_queue_def tls_heap_def)
  have n: "min (unat (2 :: u32)) (length ([] @ [1, 2, 3 :: u8])) = 2" by simp
  obtain r m where R: "on_io_recv user_env (Some 4) (Some (11, 0)) 2 ?m1 = Some (r, m)" "r = 2"
      "read_bytes (11, 0) 2 m = Some (map Some [1, 2])"
    using on_io_recv_spec [OF Q _ _ out ds, of user_env, unfolded Let_def n] by (auto simp: ok_iff)
  have R1: "tls_run user_env 4 tls_heap ([] @ ([] @ [1, 2, 3])) [] ?m1"
    by (rule tls_run.deliver [OF tls_run.start D])
  have "tls_run user_env 4 tls_heap (([] @ ([] @ [1, 2, 3])) @ []) ([] @ [1, 2]) m"
    by (rule tls_run.recv [OF R1 recv_wait_queue [OF Q] delivers.none _ _ _ R(1)])
      (use out queue_tls [OF Q] R(2,3) in \<open>auto simp: read_bytes_def ds(1) [simplified]\<close>)
  then have run: "tls_run user_env 4 tls_heap [1, 2, 3] [1, 2] m" by simp
  obtain i bs where "queue_at m 4 i bs" "[] @ [1, 2, 3] = [1, 2] @ bs"
    using tls_stream [OF run tls_heap_queue] by (auto simp: alloc_total_def tls_heap_def)
  then show ?thesis using run by auto
qed

text \<open>
  C36: whatever is allocated, \<open>on_underlying_io_bytes_received\<close> appends the bytes to those that mbedTLS has
  not read, in a new array and without a byte lost; or the array cannot grow, the bytes that are there stay as they were, the state
  is ERROR and the user is told.
\<close>

theorem tls_bytes_received:
  fixes m :: "'z hmem_scheme"
  assumes "queue_at m t i bs" "read_bytes q (length xs) m = Some (map Some xs)" "outside_queue q i" "xs \<noteq> []" "length bs + length xs < 2 ^ 31"
  shows "if grants m (brk m) (length bs + length xs)
    then ok (on_underlying_io_bytes_received env (Some t) (Some q) (of_nat (length xs)) m) (\<lambda>m'. \<exists>i'. queue_at m' t i' (bs @ xs) \<and> tlsio_state i' = tlsio_state i)
    else \<exists>m1. queue_at m1 t (i\<lparr>tlsio_state := TLSIO_STATE_ERROR\<rparr>) bs \<and>
      on_underlying_io_bytes_received env (Some t) (Some q) (of_nat (length xs)) m = tls_indicate_error env t m1"
proof (cases "grants m (brk m) (length bs + length xs)")
  case True
  have run: "on_underlying_io_bytes_received env (Some t) (Some q) (of_nat (length xs)) m = Some (arrived_mem t i bs xs m)"
    using bytes_received_spec [OF assms, of env] True by simp
  show ?thesis unfolding run ok_Some if_P [OF True]
    by (intro exI conjI, rule arrived_queue [OF assms(1,5,4)]) simp
next
  case False
  let ?m = "m\<lparr>brk := Suc (brk m)\<rparr>"
  have "queue_at ?m t i bs" using assms(1) by (auto simp: queue_at_def wf_mem_def split: option.splits)
  then have "queue_at (?m\<lparr>tlss := (tlss ?m)(t \<mapsto> i\<lparr>tlsio_state := TLSIO_STATE_ERROR\<rparr>)\<rparr>) t (i\<lparr>tlsio_state := TLSIO_STATE_ERROR\<rparr>) bs"
    by (rule queue_at_state)
  then show ?thesis using bytes_received_spec [OF assms, of env] False by auto
qed

theorem tls_bytes_received_witness:
  "(\<exists>m i. on_underlying_io_bytes_received user_env (Some 4) (Some (10, 0)) 3 tls_heap = Some m \<and> queue_at m 4 i [1, 2, 3]) \<and>
   (\<exists>m. on_underlying_io_bytes_received user_env (Some 4) (Some (10, 0)) 3 (tls_heap\<lparr>grants := \<lambda>_ _. False\<rparr>) =
     tls_indicate_error user_env 4 m \<and> queue_at m 4 (sample_tls\<lparr>tlsio_state := TLSIO_STATE_ERROR\<rparr>) [])"
proof
  have r: "read_bytes (10, 0) (length [1, 2, 3 :: u8]) (tls_heap\<lparr>grants := G\<rparr>) = Some (map Some [1, 2, 3])" "outside_queue (10, 0) sample_tls" for G
    by (simp_all add: tls_heap_def read_bytes_def outside_queue_def sample_tls_def zero_tls_def)
  have Q: "queue_at (tls_heap\<lparr>grants := G\<rparr>) 4 sample_tls []" for G
    by (simp add: queue_at_def tls_heap_def sample_tls_def zero_tls_def wf_mem_def)
  have h: "tls_heap\<lparr>grants := \<lambda>_ _. True\<rparr> = tls_heap" "grants tls_heap = (\<lambda>_ _. True)" by (simp_all add: tls_heap_def)
  note T = tls_bytes_received [OF Q r, of _ user_env]
  show "\<exists>m i. on_underlying_io_bytes_received user_env (Some 4) (Some (10, 0)) 3 tls_heap = Some m \<and> queue_at m 4 i [1, 2, 3]"
    using T [of "\<lambda>_ _. True"] by (auto simp: h ok_iff)
  show "\<exists>m. on_underlying_io_bytes_received user_env (Some 4) (Some (10, 0)) 3 (tls_heap\<lparr>grants := \<lambda>_ _. False\<rparr>) =
     tls_indicate_error user_env 4 m \<and> queue_at m 4 (sample_tls\<lparr>tlsio_state := TLSIO_STATE_ERROR\<rparr>) []"
    using T [of "\<lambda>_ _. False"] by auto
qed

section \<open>A lost connection\<close>

text \<open>
  C34: TLS over a socket never returns from its work once the connection is reset while mbedTLS waits for bytes: the
  socket reports the error, the state becomes ERROR, and the wait in \<open>on_io_recv\<close>, which ends only with
  bytes or in the state OPEN, goes on for ever; every one of its iterations is defined.
\<close>

theorem reset_connection_hangs:
  fixes m :: "'z hmem_scheme"
  assumes O: "over_socket m t i s si" "tlsio_state i = TLSIO_STATE_OPEN" "socket_io_read_byte_count i = 0"
    and N: "quiet_errors env" "lost senv (socket_fd si)" "reset senv (socket_fd si) (snd (local_array 64 m))"
    and asks: "\<And>B. lib_read lib B t (brk m, 0) 64 (snd (local_array 64 m)) = bio_recv B (Some t) q k (snd (local_array 64 m)) \<bind> f"
  shows "tlsio_mbedtls_dowork (tls_over_sockets lib env senv) (Some t) m = None \<and>
    (\<exists>ms. ms 0 = snd (local_array 64 m) \<and> (\<forall>n. wait_step (link_work env senv) t (ms n) (ms (Suc n))))"
proof -
  let ?m = "snd (local_array 64 m)" and ?e = "link_work env senv"
  have O1: "over_socket ?m t i s si" by (rule untouched_over [OF _ O(1)]) (auto simp: untouched_def local_array_def)
  note W = lost_waits_forever [OF O1 O(2) N(3) N(1,2) O(3)]
  have "on_io_recv ?e (Some t) q k ?m = None" by (simp add: on_io_recv_def W(1))
  then have "mbedtls_ssl_read (tls_over_sockets lib env senv) t (brk m, 0) 64 ?m = None"
    by (simp add: tls_over_sockets_def link_mbedtls_def Let_def asks bio_of_def)
  then have "decode_loop (tls_over_sockets lib env senv) t (brk m) ?m = None" by (subst decode_loop.simps) simp
  then have "decode_ssl_received_bytes (tls_over_sockets lib env senv) t m = None"
    by (simp add: decode_ssl_received_bytes_def local_array_def)
  then have "tlsio_mbedtls_dowork (tls_over_sockets lib env senv) (Some t) m = None"
    using O by (simp add: tlsio_mbedtls_dowork_def over_socket_def)
  then show ?thesis using W(2) by blast
qed

theorem reset_connection_hangs_witness:
  "tlsio_mbedtls_dowork (tls_over_sockets asking_library user_env lost_network) (Some 4) tls_heap = None \<and>
    (\<exists>ms. ms 0 = snd (local_array 64 tls_heap) \<and> (\<forall>n. wait_step (link_work user_env lost_network) 4 (ms n) (ms (Suc n))))"
  by (rule reset_connection_hangs [OF tls_heap_over _ _ tls_heap_network, of _ "Some (11, 0)" 5 Some])
    (simp_all add: sample_tls_def zero_tls_def asking_library_def)

section \<open>Options\<close>


definition linked_options :: "nat hwmem io_option_env" where
  "linked_options = \<lparr>clone_option = \<lambda>_ _ _ _. None, destroy_option = \<lambda>_ _ _ _. None, set_option = \<lambda>_ _ _ _ _. None,
     io_setoption = \<lambda>f. socketio_setoption lost_network, io_retrieveoptions = \<lambda>f. socketio_retrieveoptions lost_network\<rparr>"



text \<open>
  The certificates that are retrieved are a string, the clone that \<open>tlsio_mbedtls_CloneOption\<close> makes;
  \<open>tlsio_mbedtls_setoption\<close> takes its value for a struct with a pointer and a size, so setting the clone is undefined.
\<close>

theorem certificate_option_undefined:
  fixes m :: "'z hmem_scheme"
  assumes "c_string p m = Some OPTION_TRUSTED_CERT" "c_string (Chars v 0) m = Some pem" "length pem < 2 ^ 32 - 1"
    and "wf_mem m" "fresh_tls m" "tlss m t = Some i" "grants m (brk m) (Suc (length pem))"
  shows "\<exists>m'. tlsio_mbedtls_CloneOption (Some p) (Some v) m = Some (Some (brk m), m') \<and>
    tlsio_mbedtls_setoption env oenv (Some t) (Some p) (Some (brk m)) m' = None"
  by (rule cloned_certificates_undefined [OF assms])

lemma tls_heap_fresh: "fresh_tls tls_heap" "wf_mem tls_heap"
  by (simp_all add: fresh_tls_def wf_mem_def tls_heap_def)

theorem certificate_option_undefined_witness:
  "\<exists>m'. tlsio_mbedtls_CloneOption (Some (Literal OPTION_TRUSTED_CERT)) (Some 5) tls_heap = Some (Some 20, m') \<and>
    tlsio_mbedtls_setoption user_env linked_options (Some 4) (Some (Literal OPTION_TRUSTED_CERT)) (Some 20) m' = None"
proof -
  have c: "c_string (Literal OPTION_TRUSTED_CERT) tls_heap = Some OPTION_TRUSTED_CERT"
    by (rule c_string_Literal) (simp add: OPTION_TRUSTED_CERT_def lit_def)
  have v: "c_string (Chars 5 0) tls_heap = Some [0x68]" by (simp add: c_string_def tls_heap_def)
  show ?thesis
    using certificate_option_undefined [OF c v _ tls_heap_fresh(2,1), of 4 sample_tls] by (simp add: tls_heap_def)
qed

section \<open>Creation, destruction, entropy\<close>





text \<open>
  \<open>tlsio_entropy_poll\<close> fills the array with the bytes of \<open>rand\<close>, reports their number, and gives its own array back, for up
  to 65535 bytes and when its allocation succeeds, which it does not test.
\<close>

theorem entropy_poll:
  fixes m :: "'w hwmem"
  assumes "unat len < 2 ^ 16" "blocks m (fst q) = Some ds" "snd q + unat len \<le> length ds" "chars m (brk m) = None"
    and "grants m (brk m) (unat len)" "\<And>m :: 'w hwmem. srand_time env m = Some m"
    and "\<And>m :: 'w hwmem. rand env m = (let (r, w) = R (hworld m) in Some (r, m\<lparr>hworld := w\<rparr>))"
  shows "tlsio_entropy_poll env q len m = Some ((0, len), m\<lparr>brk := Suc (brk m),
    blocks := (blocks m)(fst q \<mapsto> write_at (snd q) (map Some (fst (rand_bytes R (unat len) (hworld m)))) ds),
    hworld := snd (rand_bytes R (unat len) (hworld m))\<rparr>)"
  by (rule entropy_spec [OF assms])

theorem entropy_poll_witness:
  "\<exists>m. tlsio_entropy_poll user_env (11, 0) 4 tls_heap = Some ((0, 4), m) \<and> blocks m 11 = Some (map Some [0, 100, 200, 44])"
proof -
  have "tlsio_entropy_poll user_env (11, 0) 4 tls_heap = Some ((0, 4), tls_heap\<lparr>brk := Suc (brk tls_heap),
      blocks := (blocks tls_heap)(fst ((11, 0) :: bptr) \<mapsto> write_at (snd ((11, 0) :: bptr)) (map Some (fst (rand_bytes (\<lambda>w. (int w, w + 100)) (unat (4 :: u32)) (hworld tls_heap))))
        (replicate 4 None)),
      hworld := snd (rand_bytes (\<lambda>w. (int w, w + 100)) (unat (4 :: u32)) (hworld tls_heap))\<rparr>)"
    by (rule entropy_poll) (simp_all add: tls_heap_def user_env_def)
  moreover have "rand_bytes (\<lambda>w. (int w, w + 100)) (unat (4 :: u32)) 0 = ([0, 100, 200, 44], 400)"
  proof -
    have "unat (4 :: u32) = Suc (Suc (Suc (Suc 0)))" by simp
    then show ?thesis by (simp only: rand_bytes.simps) (simp add: Let_def)
  qed
  moreover have "hworld tls_heap = 0" by (simp add: tls_heap_def)
  ultimately show ?thesis by (simp add: write_at_def)
qed

end
