(* ===== verification/Spec2Isabelle.thy ===== *)
theory Spec2Isabelle
  imports Codec_Properties Heap_Properties List_Properties Crt_Properties Message_Properties Client_Properties Option_Properties Socketio_Properties Tlsio_Properties
begin

text \<open>
  This development verifies the MQTT client library uMQTT as it runs on the LPC54608 (the
  directory \<^verbatim>\<open>src/uMQTT\<close> of the repository): the byte buffers and strings it works on, the
  encoder and the decoder of MQTT packets, the messages, the client that connects them to the
  user above and to a transport below, and the transport over sockets with its options.

  \<^bold>\<open>The program.\<close>  A user creates a client (\<^verbatim>\<open>mqtt_client_init\<close>), connects it through an io
  (\<^verbatim>\<open>mqtt_client_connect\<close>), publishes, subscribes and unsubscribes, and calls
  \<^verbatim>\<open>mqtt_client_dowork\<close> again and again, which drives the io and keeps the connection alive.  To send, the client builds
  a packet with \<^verbatim>\<open>mqtt_codec_*\<close> in a byte buffer and gives its bytes to the io layer
  (\<^verbatim>\<open>xio_send\<close>).  The io layer calls back: it is open (\<^verbatim>\<open>onOpenComplete\<close>, the client sends CONNECT), bytes
  have come (\<^verbatim>\<open>onBytesReceived\<close>), a send is complete (\<^verbatim>\<open>sendComplete\<close>), it has failed (\<^verbatim>\<open>onIoError\<close>),
  it is closed (\<^verbatim>\<open>on_connection_closed\<close>).  The bytes go through the decoder
  (\<^verbatim>\<open>mqtt_codec_bytesReceived\<close>), which calls \<^verbatim>\<open>recvCompleteCallback\<close> of the client for each packet; that
  calls the callbacks of the user and sends the acknowledgements.  An io is a table of functions with a handle
  (\<^verbatim>\<open>xio.c\<close>); the one over sockets (\<^verbatim>\<open>socketio_berkeley.c\<close>) keeps what the network does not take at once in a list of pending
  sends and retries it in its work function.  The options of an io are collected in a vector by the option handler,
  which feeds them back through the table of functions.

  \<^bold>\<open>The model.\<close>  Every C function is a definition of the same name.  It takes the memory and
  returns the memory: \<open>None\<close> is undefined behaviour (a null or dangling pointer, an access out of
  bounds, a double free, the value of an indeterminate byte), so a theorem that a function
  returns also says that it is memory safe.  The memory is a record, extended by each theory with
  a store for the structs it allocates; \<open>grants\<close> decides which calls of \<^verbatim>\<open>malloc\<close> succeed, and
  the theorems of the buffers, strings, codec, lists and messages are for every choice of it.  \<open>size_t\<close>
  and \<open>int\<close> have 32 bits, so machine arithmetic wraps as on the target.  Code that is not in the library
  is a parameter: FreeRTOS (\<open>os_env\<close>), the functions of the concrete io (\<open>io_env\<close>), the callbacks of the user
  (\<open>client_env\<close>), the clone, destroy and set functions of an option handler (\<open>option_env\<close>), lwIP and the callbacks of the
  user of a socket (\<open>socket_env\<close>), mbedTLS and the callbacks of the user of TLS (\<open>tls_env\<close>) are functions on the whole memory.  Log output is left out, but the reads that
  produce it are kept.

  \<^bold>\<open>The theories.\<close>
  \<^item> \<open>Prelude\<close>, \<open>Memory\<close>, \<open>Ownership\<close>: words, pointers, the heap; the locale \<open>ownership\<close> of structs that
    own one array each, interpreted for the buffers and for the strings.
  \<^item> \<open>Buffer\<close> (\<^verbatim>\<open>ports/src/buffer.c\<close>), \<open>Strings\<close> (\<^verbatim>\<open>ports/src/strings.c\<close>): every operation, with what it
    does to the bytes that each handle stands for (\<open>buf_bytes\<close>, \<open>str_vals\<close>) and to nothing else;
    \<open>Effects\<close>, \<open>Private_Arrays\<close>: the heap effects of code that uses both; \<open>Heap_Properties\<close>.
  \<^item> \<open>MqttConst\<close> (\<^verbatim>\<open>mqttconst.h\<close>); \<open>Codec_Encode\<close> and \<open>Codec_Decode\<close> (\<^verbatim>\<open>src/mqtt_codec.c\<close>).
    \<open>Codec_Rules\<close>, \<open>Codec_Packets\<close>, \<open>Codec_Build\<close>, \<open>Codec_Connect\<close>: the bytes that each builder produces;
    \<open>Decoder\<close>: the abstract machine of the decoder; \<open>Codec_Receive\<close>: the code implements it, for every
    callback that is a \<open>receiver\<close> or a \<open>sink\<close> (locales); \<open>Packet_Link\<close>: the locale \<open>packet_builder\<close>, what follows
    for any builder, interpreted for each; \<open>Codec_Properties\<close>.
  \<^item> \<open>Crt\<close>, \<open>Crt_Rules\<close>, \<open>Crt_Properties\<close> (\<^verbatim>\<open>ports/src/crt_abstractions.c\<close>): string copies and number
    conversions.
  \<^item> \<open>Message\<close>, \<open>Message_Rules\<close>, \<open>Message_Properties\<close> (\<^verbatim>\<open>src/mqtt_message.c\<close>): a message is what its
    accessors return.
  \<^item> \<open>Platform\<close> (\<^verbatim>\<open>tickcounter.c\<close>, \<^verbatim>\<open>threadapi.c\<close>), \<open>Xio\<close> (\<^verbatim>\<open>xio.c\<close>).
  \<^item> \<open>Linked_List\<close>, \<open>List_Rules\<close>, \<open>List_Properties\<close> (\<^verbatim>\<open>ports/src/singlylinkedlist.c\<close>): the heap of items refines
    the sequences of items.
  \<^item> \<open>Vector\<close>, \<open>Vector_Rules\<close> (\<^verbatim>\<open>ports/src/vector.c\<close>): a vector stands for the sequence of its elements.
    \<open>Option_Handler\<close>, \<open>Option_Rules\<close> (\<^verbatim>\<open>ports/src/optionhandler.c\<close>): a handler stands for its list of names and values; the
    functions of the module it serves are the locale \<open>option_module\<close>.  \<open>Xio_Options\<close>, \<open>Xio_Option_Rules\<close> (the options
    in \<^verbatim>\<open>xio.c\<close>), \<open>Option_Properties\<close>.
  \<^item> \<open>Socketio\<close>, \<open>Socketio_Io\<close> (\<^verbatim>\<open>ports/src/socketio_berkeley.c\<close>): every function of the transport over sockets.  \<open>Socketio_Spec\<close>: what it
    promises, a queue of packets in front of a network (\<open>net_ops\<close>).  \<open>Socketio_Rules\<close>: sending and working
    implement it; \<open>Socketio_Stream\<close>: the runs \<open>socket_run\<close> of such calls and the stream of bytes they hand to the network;
    \<open>Socketio_Life\<close>, \<open>Socketio_Open\<close>: create, close, destroy and the connection set-up; \<open>Socketio_Properties\<close>.
  \<^item> \<open>Tlsio\<close>, \<open>Tlsio_Io\<close> (\<^verbatim>\<open>ports/src/tlsio_mbedtls.c\<close>): every function of the TLS transport over another io.
    \<open>Tlsio_Rules\<close>: the queue of bytes between the io and mbedTLS, its runs \<open>tls_run\<close>, the wait of \<open>on_io_recv\<close>;
    \<open>Tlsio_Socket\<close>: TLS linked with the sockets of \<open>Socketio_Io\<close>, each calling the functions of the other; \<open>Tlsio_Life\<close>:
    create, destroy, options, entropy; \<open>Tlsio_Properties\<close>.
  \<^item> \<open>Client\<close>, \<open>Client_Receive\<close>, \<open>Client_Api\<close> (\<^verbatim>\<open>src/mqtt_client.c\<close>): every function of the client.
    \<open>Client_Spec\<close>: what the client promises, as functions of the struct and of a world outside (\<open>world_ops\<close>).
    \<open>Client_Rules\<close>, \<open>Client_Effects\<close>, \<open>Client_Handler\<close>, \<open>Client_Publish\<close>, \<open>Client_Stream\<close>, \<open>Client_Requests\<close>,
    \<open>Client_Options\<close>, \<open>Client_Connection\<close>: each function implements its part of it; the client is a
    \<open>receiver\<close> of the decoder (interpretation).  \<open>Client_Machine\<close>: the client as one machine, and the simulation;
    \<open>Client_Wire\<close>: one client receives what another sends; \<open>Client_Invariants\<close>, \<open>Client_Sample\<close>,
    \<open>Client_Properties\<close>.

  \<^bold>\<open>What is shown.\<close>  Refinement: the decoder and the client are simulated by machines without a heap, in every
  state and for every sequence of calls, and do not get stuck where the machine is defined.  Round trips:
  what the builders produce is decoded to the same packet, what a client publishes is received by
  another, the remaining length, the number conversions, create and destroy.  Functional behaviour on every branch,
  allocation failures included, for the buffers, strings, lists, vectors, messages and builders.  Invariants of the
  client over all runs.  The options collected from an io reach the io they are fed to, in order.  The bytes given
  to the transport reach the network in order, without a gap or a repetition, in every run in which the network reports no
  error, and the bytes that an io delivers to TLS reach mbedTLS in order.  TLS over a socket never returns once the connection
  is reset while mbedTLS waits for bytes.  The keep alive protocol across the wrap-around of the clock.  And the
  inputs on which the code fails: each is a theorem, and a finding of the manifest.

  \<^bold>\<open>Bounds.\<close>  The theorems about the client are for environments \<open>env_of W\<close>, in which the callbacks and the
  io do not call the library back and do not write its memory, for clients that do not trace
  (\<open>logTrace\<close> off) and for allocations that succeed; the definitions have neither restriction.  A packet that is received
  has fewer than \<open>2 ^ 21\<close> bytes, since the decoder refuses longer ones, and a packet that is built fewer
  than \<open>2 ^ 28\<close>.  The theorems about the transport are for environments \<open>socket_env_of\<close>, in which the network and
  the callbacks do not write the memory of the library; the ones about opening assume that \<^verbatim>\<open>select\<close> is not
  interrupted for ever (\<open>select_ends\<close>), since the code retries without a limit.  The theorem about the bytes for mbedTLS
  is for allocations that succeed and for connections of fewer than \<open>2 ^ 31\<close> bytes, since the code keeps their number in an \<open>int\<close>.  No fuel is used: loops are structural recursions or \<open>partial_function (option)\<close>, whose
  theorems state that they return.

  \<^bold>\<open>Not modelled.\<close>  \<^verbatim>\<open>sprintf_s\<close> and the parsers of floating point numbers in \<^verbatim>\<open>crt_abstractions.c\<close>, which
  the library does not call; \<^verbatim>\<open>mbedtls_debug\<close> in \<^verbatim>\<open>tlsio_mbedtls.c\<close>, which prints; the platform wrappers; the application under \<^verbatim>\<open>src/apps\<close>; the vendored code.
\<close>

end
